(* ===== verification/Prelude.thy ===== *)
theory Prelude
  imports Complex_Main "HOL-Library.AList"
begin

text \<open>
  Shared vocabulary of the development: the JavaScript data structures the
  sources use (insertion-ordered \<open>Map\<close> and \<open>Set\<close>, truthiness of optional
  strings, decimal printing), computations that may throw and keep the state
  they have reached, and the lemmas about them that the component theories rely
  on through the collections declared here.
\<close>

section \<open>Collections of facts\<close>

named_theorems comp_simps \<open>unfolding of throwing computations\<close>
named_theorems coll_simps \<open>lookup in ordered maps and sets\<close>

section \<open>Values of type unknown\<close>

text \<open>
  A TypeScript value of type \<open>unknown\<close> that travels through JSON: payloads,
  handler results. Numbers are integers, which is all the modelled code puts there.
\<close>

datatype json =
    JNull
  | JBool bool
  | JNum int
  | JStr string
  | JArr "json list"
  | JObj "(string \<times> json) list"

text \<open>
  JavaScript truthiness of an optional string: \<open>undefined\<close> and the empty string
  are falsy.
\<close>

definition truthy :: "string option \<Rightarrow> bool" where
  "truthy v = (case v of None \<Rightarrow> False | Some s \<Rightarrow> s \<noteq> [])"

lemma truthy_simps [simp]:
  "\<not> truthy None"
  "truthy (Some s) \<longleftrightarrow> s \<noteq> []"
  by (simp_all add: truthy_def)

lemma truthyE:
  assumes "truthy v"
  obtains s where "v = Some s" and "s \<noteq> []"
  using assms by (cases v) auto

section \<open>Ordered maps: JavaScript Map\<close>

text \<open>
  A \<open>Map\<close> iterates in insertion order; \<open>set\<close> on a present key keeps its place
  and on a new key appends. \<open>AList.update\<close> and \<open>AList.delete\<close> are exactly
  these operations on association lists with distinct keys.
\<close>

type_synonym ('k, 'v) jmap = "('k \<times> 'v) list"

abbreviation jget :: "('k, 'v) jmap \<Rightarrow> 'k \<Rightarrow> 'v option" where
  "jget m k \<equiv> map_of m k"

abbreviation jset :: "'k \<Rightarrow> 'v \<Rightarrow> ('k, 'v) jmap \<Rightarrow> ('k, 'v) jmap" where
  "jset k v m \<equiv> AList.update k v m"

abbreviation jdel :: "'k \<Rightarrow> ('k, 'v) jmap \<Rightarrow> ('k, 'v) jmap" where
  "jdel k m \<equiv> AList.delete k m"

definition jhas :: "('k, 'v) jmap \<Rightarrow> 'k \<Rightarrow> bool" where
  "jhas m k = (case map_of m k of None \<Rightarrow> False | Some _ \<Rightarrow> True)"

abbreviation jkeys :: "('k, 'v) jmap \<Rightarrow> 'k list" where
  "jkeys m \<equiv> map fst m"

abbreviation jvals :: "('k, 'v) jmap \<Rightarrow> 'v list" where
  "jvals m \<equiv> map snd m"

abbreviation jok :: "('k, 'v) jmap \<Rightarrow> bool" where
  "jok m \<equiv> distinct (map fst m)"

lemma jget_set [simp, coll_simps]:
  "jget (jset k v m) k' = (if k' = k then Some v else jget m k')"
  by (simp add: update_conv')

lemma jget_del [simp, coll_simps]:
  "jget (jdel k m) k' = (if k' = k then None else jget m k')"
  by (simp add: delete_conv')

lemma jhas_iff [simp]: "jhas m k \<longleftrightarrow> jget m k \<noteq> None"
  by (simp add: jhas_def split: option.split)

lemma jok_set [simp, intro]: "jok m \<Longrightarrow> jok (jset k v m)"
  by (rule distinct_update)

lemma jok_del [simp, intro]: "jok m \<Longrightarrow> jok (jdel k m)"
  by (rule distinct_delete)

lemma jget_in_set: "jget m k = Some v \<Longrightarrow> (k, v) \<in> set m"
  by (rule map_of_SomeD)

lemma jok_get_iff: "jok m \<Longrightarrow> jget m k = Some v \<longleftrightarrow> (k, v) \<in> set m"
  by (simp add: map_of_eq_Some_iff)

lemma jset_new: "jget m k = None \<Longrightarrow> jset k v m = m @ [(k, v)]"
  by (induction m) (auto split: if_splits)

lemma jkeys_set: "jkeys (jset k v m) = (if k \<in> set (jkeys m) then jkeys m else jkeys m @ [k])"
  by (rule update_keys)

lemma set_jkeys_set [simp]: "set (jkeys (jset k v m)) = insert k (set (jkeys m))"
  by (auto simp: jkeys_set)

lemma set_jkeys_del [simp]: "set (jkeys (jdel k m)) = set (jkeys m) - {k}"
  by (auto simp: delete_keys)

lemma jget_None_iff: "jget m k = None \<longleftrightarrow> k \<notin> set (jkeys m)"
  by (simp add: map_of_eq_None_iff)

lemma jset_other_entries:
  "jok m \<Longrightarrow> set (jset k v m) = insert (k, v) {p \<in> set m. fst p \<noteq> k}"
  by (induction m) (auto simp: image_iff split: if_splits)

lemma jdel_entries: "set (jdel k m) = {p \<in> set m. fst p \<noteq> k}"
  by (auto simp: AList.delete_eq)

section \<open>Ordered sets: JavaScript Set\<close>

definition sadd :: "'a \<Rightarrow> 'a list \<Rightarrow> 'a list" where
  "sadd x xs = (if x \<in> set xs then xs else xs @ [x])"

abbreviation sdel :: "'a \<Rightarrow> 'a list \<Rightarrow> 'a list" where
  "sdel x xs \<equiv> removeAll x xs"

lemma set_sadd [simp, coll_simps]: "set (sadd x xs) = insert x (set xs)"
  by (auto simp: sadd_def)

lemma distinct_sadd [simp, intro]: "distinct xs \<Longrightarrow> distinct (sadd x xs)"
  by (simp add: sadd_def)

lemma set_fold_sadd [simp]: "set (fold sadd xs acc) = set acc \<union> set xs"
  by (induction xs arbitrary: acc) auto

lemma distinct_fold_sadd: "distinct acc \<Longrightarrow> distinct (fold sadd xs acc)"
  by (induction xs arbitrary: acc) auto

lemma distinct_sdel [simp, intro]: "distinct xs \<Longrightarrow> distinct (sdel x xs)"
  by (simp add: distinct_removeAll)

lemma sadd_new: "x \<notin> set xs \<Longrightarrow> sadd x xs = xs @ [x]"
  by (simp add: sadd_def)

section \<open>Computations that throw\<close>

text \<open>
  An \<open>async\<close> method of the source runs against a state and either returns a
  value or throws; the writes made before a throw stay. \<open>await\<close> of a call is
  \<open>cbind\<close>, \<open>try\<close>/\<open>catch\<close> is \<open>ctry\<close>, a \<open>for ... of\<close> loop with awaits
  is \<open>cfor\<close>.
\<close>

type_synonym ('e, 's, 'a) comp = "'s \<Rightarrow> ('e + 'a) \<times> 's"

definition cret :: "'a \<Rightarrow> ('e, 's, 'a) comp" where
  "cret x = (\<lambda>s. (Inr x, s))"

definition cthrow :: "'e \<Rightarrow> ('e, 's, 'a) comp" where
  "cthrow e = (\<lambda>s. (Inl e, s))"

definition cbind :: "('e, 's, 'a) comp \<Rightarrow> ('a \<Rightarrow> ('e, 's, 'b) comp) \<Rightarrow> ('e, 's, 'b) comp" where
  "cbind m f = (\<lambda>s. case m s of (Inl e, s') \<Rightarrow> (Inl e, s') | (Inr x, s') \<Rightarrow> f x s')"

definition ctry :: "('e, 's, 'a) comp \<Rightarrow> ('e \<Rightarrow> ('e, 's, 'a) comp) \<Rightarrow> ('e, 's, 'a) comp" where
  "ctry m h = (\<lambda>s. case m s of (Inl e, s') \<Rightarrow> h e s' | (Inr x, s') \<Rightarrow> (Inr x, s'))"

definition cget :: "('s \<Rightarrow> 'a) \<Rightarrow> ('e, 's, 'a) comp" where
  "cget f = (\<lambda>s. (Inr (f s), s))"

definition cmod :: "('s \<Rightarrow> 's) \<Rightarrow> ('e, 's, unit) comp" where
  "cmod f = (\<lambda>s. (Inr (), f s))"

primrec cfor :: "'b list \<Rightarrow> ('b \<Rightarrow> ('e, 's, unit) comp) \<Rightarrow> ('e, 's, unit) comp" where
  "cfor [] body = cret ()"
| "cfor (x # xs) body = cbind (body x) (\<lambda>_. cfor xs body)"

lemma comp_run [comp_simps]:
  "cret x s = (Inr x, s)"
  "cthrow e s = (Inl e, s)"
  "cget f s = (Inr (f s), s)"
  "cmod g s = (Inr (), g s)"
  "cbind m h s = (case m s of (Inl e, s') \<Rightarrow> (Inl e, s') | (Inr x, s') \<Rightarrow> h x s')"
  "ctry m k s = (case m s of (Inl e, s') \<Rightarrow> k e s' | (Inr x, s') \<Rightarrow> (Inr x, s'))"
  by (simp_all add: cret_def cthrow_def cget_def cmod_def cbind_def ctry_def)

lemma cbind_Inr:
  assumes "cbind m f s = (Inr y, s')"
  obtains x t where "m s = (Inr x, t)" and "f x t = (Inr y, s')"
  using assms by (auto simp: comp_simps split: prod.splits sum.splits)

text \<open>A loop keeps what every round keeps, whether it ends or throws.\<close>

lemma cfor_invariant:
  assumes "P s"
    and "\<And>x t. x \<in> set xs \<Longrightarrow> P t \<Longrightarrow> P (snd (body x t))"
  shows "P (snd (cfor xs body s))"
  using assms
proof (induction xs arbitrary: s)
  case Nil
  then show ?case by (simp add: comp_simps)
next
  case (Cons x xs)
  obtain r t where bt: "body x s = (r, t)" by fastforce
  with Cons.prems have "P t" by (metis list.set_intros(1) snd_conv)
  with Cons bt show ?case by (auto simp: comp_simps split: sum.splits)
qed

text \<open>A loop whose rounds never throw does not throw, and is a fold of the rounds.\<close>

lemma cfor_total:
  assumes "\<And>x t. x \<in> set xs \<Longrightarrow> body x t = (Inr (), upd x t)"
  shows "cfor xs body s = (Inr (), fold upd xs s)"
  using assms by (induction xs arbitrary: s) (auto simp: comp_simps)

section \<open>Decimal numerals\<close>

text \<open>
  \<open>String(n)\<close> and \<open>parseInt(s, 10)\<close> for the integers the code prints and
  parses: the shortest decimal form, a minus sign for negative values.
\<close>

definition digit_char :: "nat \<Rightarrow> char" where
  "digit_char d = char_of (48 + d)"

definition char_digit :: "char \<Rightarrow> nat" where
  "char_digit c = of_char c - 48"

definition is_digit :: "char \<Rightarrow> bool" where
  "is_digit c = (48 \<le> (of_char c :: nat) \<and> (of_char c :: nat) \<le> 57)"

fun show_nat :: "nat \<Rightarrow> string" where
  "show_nat n = (if n < 10 then [digit_char n] else show_nat (n div 10) @ [digit_char (n mod 10)])"

declare show_nat.simps [simp del]

definition show_int :: "int \<Rightarrow> string" where
  "show_int i = (if i < 0 then CHR ''-'' # show_nat (nat (- i)) else show_nat (nat i))"

definition read_nat :: "string \<Rightarrow> nat" where
  "read_nat ds = foldl (\<lambda>acc c. acc * 10 + char_digit c) 0 ds"

lemma digit_char_props:
  assumes "d < 10"
  shows "char_digit (digit_char d) = d" and "is_digit (digit_char d)"
proof -
  from assms have "(of_char (char_of (48 + d) :: char) :: nat) = 48 + d"
    by (simp add: of_char_of)
  then show "char_digit (digit_char d) = d" and "is_digit (digit_char d)"
    using assms by (simp_all add: char_digit_def digit_char_def is_digit_def)
qed

lemma show_nat_digits: "list_all is_digit (show_nat n) \<and> show_nat n \<noteq> []"
proof (induction n rule: show_nat.induct)
  case (1 n)
  show ?case
    using 1 by (subst (1 2) show_nat.simps) (auto simp: digit_char_props)
qed

lemma read_show_nat [simp]: "read_nat (show_nat n) = n"
proof (induction n rule: show_nat.induct)
  case (1 n)
  show ?case
  proof (cases "n < 10")
    case True
    then show ?thesis
      by (subst show_nat.simps) (simp add: read_nat_def digit_char_props)
  next
    case False
    with 1 have "read_nat (show_nat (n div 10)) = n div 10" by simp
    with False show ?thesis
      by (subst show_nat.simps) (simp add: read_nat_def digit_char_props)
  qed
qed

lemma inj_show_nat: "show_nat m = show_nat n \<longleftrightarrow> m = n"
  by (metis read_show_nat)

end
