(* ===== verification/Messages.thy ===== *)
theory Messages
  imports Prelude
begin

text \<open>
  The message envelope and its metadata (\<open>types/messages.ts\<close>), channel names
  (\<open>types/channels.ts\<close>), the time-to-live helpers (\<open>utils/ttl.ts\<close>) and the
  errors the router's classes throw. \<open>Date.now()\<close> is the parameter \<open>now\<close> of
  every definition that reads the clock. Timestamps and durations are integers of
  milliseconds.
\<close>

section \<open>Envelopes\<close>

text \<open>
  A message type other than the five declared ones can arrive at run time (the
  code has a default branch and a falsiness check for it); it is kept as a string.
\<close>

datatype message_type =
    Decision_request
  | Decision_response
  | Mode_command
  | Workflow_event
  | Channel_message
  | Other_type string

datatype endpoint_type = Ep_agency | Ep_humancy | Ep_router

record message_endpoint =
  ep_type :: endpoint_type
  ep_id :: string

record message_meta =
  timestamp :: int
  ttl :: "int option"
  priority :: "int option"
  attempts :: "nat option"

text \<open>
  The source is optional in the model because \<open>validateMessageForRouting\<close>
  checks for it at run time.
\<close>

record message_envelope =
  env_id :: string
  correlationId :: "string option"
  env_type :: message_type
  channel :: "string option"
  source :: "message_endpoint option"
  destination :: "message_endpoint option"
  payload :: json
  meta :: message_meta

definition DEFAULT_TTL :: int where
  "DEFAULT_TTL = 3600000"

record partial_meta =
  pm_timestamp :: "int option"
  pm_ttl :: "int option"
  pm_priority :: "int option"
  pm_attempts :: "nat option"

text \<open>The object spread \<open>{ timestamp: now, ttl: DEFAULT, attempts: 0, ...meta }\<close>.\<close>

definition default_to :: "'a \<Rightarrow> 'a option \<Rightarrow> 'a" where
  "default_to d v = (case v of None \<Rightarrow> d | Some x \<Rightarrow> x)"

lemma default_to_simps [simp]: "default_to d None = d" "default_to d (Some x) = x"
  by (simp_all add: default_to_def)

record envelope_params =
  par_id :: string
  par_correlationId :: "string option"
  par_type :: message_type
  par_channel :: "string option"
  par_source :: "message_endpoint option"
  par_destination :: "message_endpoint option"
  par_payload :: json
  par_meta :: "partial_meta option"

definition createMessageEnvelope :: "int \<Rightarrow> envelope_params \<Rightarrow> message_envelope" where
  "createMessageEnvelope now p =
     \<lparr> env_id = par_id p,
       correlationId = par_correlationId p,
       env_type = par_type p,
       channel = par_channel p,
       source = par_source p,
       destination = par_destination p,
       payload = par_payload p,
       meta =
         (case par_meta p of
            None \<Rightarrow> \<lparr> timestamp = now, ttl = Some DEFAULT_TTL, priority = None, attempts = Some 0 \<rparr>
          | Some m \<Rightarrow>
              \<lparr> timestamp = default_to now (pm_timestamp m),
                ttl = Some (default_to DEFAULT_TTL (pm_ttl m)),
                priority = pm_priority m,
                attempts = Some (default_to 0 (pm_attempts m)) \<rparr>) \<rparr>"

definition isMessageExpired :: "int \<Rightarrow> message_envelope \<Rightarrow> bool" where
  "isMessageExpired now m =
     (let t = default_to DEFAULT_TTL (ttl (meta m)) in now > timestamp (meta m) + t)"

text \<open>The receiving sides of the router: \<open>'agency' | 'humancy'\<close>.\<close>

datatype recipient = Agency | Humancy

definition recipient_name :: "recipient \<Rightarrow> string" where
  "recipient_name t = (case t of Agency \<Rightarrow> ''agency'' | Humancy \<Rightarrow> ''humancy'')"

section \<open>Errors\<close>

text \<open>One constructor per error class; \<open>Plain_error\<close> is \<open>new Error(message)\<close>.\<close>

datatype js_error =
    Plain_error string
  | RoutingError string message_envelope
  | DestinationNotFoundError string string
  | NoRecipientsError string
  | ConnectionExistsError recipient string
  | ConnectionNotFoundError recipient string
  | InvalidChannelNameError string string
  | ChannelExistsError string
  | ChannelNotFoundError string
  | CorrelationTimeoutError string
  | CorrelationCancelledError string
  | MaxRetriesExceededError nat js_error
  | AgentExistsError string
  | AgentNotFoundError string
  | DefaultAgentNotConfiguredError
  | CodedError string string
  | HttpError int string

definition quoted :: "string \<Rightarrow> string" where
  "quoted s = [CHR 0x22] @ s @ [CHR 0x22]"

fun error_message :: "js_error \<Rightarrow> string" where
  "error_message (Plain_error m) = m"
| "error_message (RoutingError m e) = m"
| "error_message (DestinationNotFoundError t i) = t @ '' '' @ quoted i @ '' not found''"
| "error_message (NoRecipientsError t) = ''No recipients available for '' @ t"
| "error_message (ConnectionExistsError t i) =
     recipient_name t @ '' connection '' @ quoted i @ '' already registered''"
| "error_message (ConnectionNotFoundError t i) =
     recipient_name t @ '' connection '' @ quoted i @ '' not found''"
| "error_message (InvalidChannelNameError n r) = ''Invalid channel name '' @ quoted n @ '': '' @ r"
| "error_message (ChannelExistsError n) = ''Channel '' @ quoted n @ '' is already registered''"
| "error_message (ChannelNotFoundError n) = ''Channel '' @ quoted n @ '' not found''"
| "error_message (CorrelationTimeoutError c) = ''Correlation timeout for '' @ c"
| "error_message (CorrelationCancelledError c) = ''Correlation cancelled for '' @ c"
| "error_message (MaxRetriesExceededError n e) =
     ''Max retries exceeded after '' @ show_nat n @ '' attempts: '' @ error_message e"
| "error_message (AgentExistsError n) = ''Agent '' @ quoted n @ '' already registered''"
| "error_message (AgentNotFoundError n) = ''Agent '' @ quoted n @ '' not found in registry''"
| "error_message DefaultAgentNotConfiguredError = ''No default agent configured''"
| "error_message (CodedError c m) = m"
| "error_message (HttpError s m) = m"

text \<open>Computations of the router and the scheduler: they throw \<open>js_error\<close>s.\<close>

type_synonym ('s, 'a) js = "(js_error, 's, 'a) comp"

section \<open>Channel names\<close>

definition RESERVED_CHANNEL_NAMES :: "string list" where
  "RESERVED_CHANNEL_NAMES = [''system'', ''internal'', ''router'']"

definition name_char :: "char \<Rightarrow> bool" where
  "name_char c =
     (let n = (of_char c :: nat)
      in 97 \<le> n \<and> n \<le> 122 \<or> 65 \<le> n \<and> n \<le> 90 \<or> 48 \<le> n \<and> n \<le> 57 \<or> n = 95)"

text \<open>The pattern \<open>/^[a-zA-Z0-9_]{1,64}$/\<close>.\<close>

definition CHANNEL_NAME_PATTERN :: "string \<Rightarrow> bool" where
  "CHANNEL_NAME_PATTERN s = (1 \<le> length s \<and> length s \<le> 64 \<and> list_all name_char s)"

definition isValidChannelName :: "string \<Rightarrow> bool" where
  "isValidChannelName name =
     (if \<not> CHANNEL_NAME_PATTERN name then False
      else \<not> List.member RESERVED_CHANNEL_NAMES name)"

section \<open>Time to live\<close>

definition calculateExpiration :: "int \<Rightarrow> int \<Rightarrow> int" where
  "calculateExpiration createdAt t = createdAt + t"

definition calculateRemainingTtl :: "int \<Rightarrow> int \<Rightarrow> int \<Rightarrow> int" where
  "calculateRemainingTtl now createdAt t = max 0 ((createdAt + t) - now)"

definition isExpired :: "int \<Rightarrow> int \<Rightarrow> int \<Rightarrow> bool" where
  "isExpired now createdAt t = (now > createdAt + t)"

text \<open>\<open>Math.ceil(ms / 1000)\<close> on integers.\<close>

definition ttlToSeconds :: "int \<Rightarrow> int" where
  "ttlToSeconds ms = \<lceil>(of_int ms :: rat) / 1000\<rceil>"

definition remainingTtlToSeconds :: "int \<Rightarrow> int \<Rightarrow> int \<Rightarrow> int" where
  "remainingTtlToSeconds now createdAt t = ttlToSeconds (calculateRemainingTtl now createdAt t)"

text \<open>
  \<open>input.match(/^(\d+)(ms|s|m|h|d)$/)\<close>: a longest run of digits followed by one
  of the units and nothing else. The units start with letters, so the run of
  digits is the first group of every match.
\<close>

definition ttl_match :: "string \<Rightarrow> (string \<times> string) option" where
  "ttl_match input =
     (let ds = takeWhile is_digit input; unit = dropWhile is_digit input
      in if ds \<noteq> [] \<and> List.member [''ms'', ''s'', ''m'', ''h'', ''d''] unit
         then Some (ds, unit) else None)"

definition parseTtl :: "string \<Rightarrow> js_error + int" where
  "parseTtl input =
     (case ttl_match input of
        None \<Rightarrow>
          Inl (Plain_error (''Invalid TTL format: '' @ quoted input @
                 ''. Expected format: <number><unit> (ms, s, m, h, d)''))
      | Some (ds, unit) \<Rightarrow>
          (let v = int (read_nat ds)
           in if unit = ''ms'' then Inr v
              else if unit = ''s'' then Inr (v * 1000)
              else if unit = ''m'' then Inr (v * 60 * 1000)
              else if unit = ''h'' then Inr (v * 60 * 60 * 1000)
              else if unit = ''d'' then Inr (v * 24 * 60 * 60 * 1000)
              else Inl (Plain_error (''Unknown TTL unit: '' @ unit))))"

text \<open>\<open>Math.round(x)\<close> is the floor of \<open>x + 1/2\<close>.\<close>

definition js_round :: "rat \<Rightarrow> int" where
  "js_round x = \<lfloor>x + 1 / 2\<rfloor>"

definition formatTtl :: "int \<Rightarrow> string" where
  "formatTtl ms =
     (if ms < 1000 then show_int ms @ ''ms''
      else if ms < 60 * 1000 then show_int (js_round (of_int ms / 1000)) @ ''s''
      else if ms < 60 * 60 * 1000 then show_int (js_round (of_int ms / (60 * 1000))) @ ''m''
      else if ms < 24 * 60 * 60 * 1000 then show_int (js_round (of_int ms / (60 * 60 * 1000))) @ ''h''
      else show_int (js_round (of_int ms / (24 * 60 * 60 * 1000))) @ ''d'')"

text \<open>The unit \<open>formatTtl\<close> prints a duration in, in milliseconds.\<close>

definition ttl_unit :: "int \<Rightarrow> int" where
  "ttl_unit ms =
     (if ms < 1000 then 1 else if ms < 60 * 1000 then 1000
      else if ms < 60 * 60 * 1000 then 60 * 1000
      else if ms < 24 * 60 * 60 * 1000 then 60 * 60 * 1000
      else 24 * 60 * 60 * 1000)"

section \<open>Lemmas\<close>

lemma is_digit_letters:
  "\<not> is_digit CHR ''m''" "\<not> is_digit CHR ''s''" "\<not> is_digit CHR ''h''" "\<not> is_digit CHR ''d''"
  by (simp_all add: is_digit_def)

lemma ttl_match_show:
  assumes "u \<in> {''ms'', ''s'', ''m'', ''h'', ''d''}"
  shows "ttl_match (show_nat n @ u) = Some (show_nat n, u)"
proof -
  have all: "\<And>c. c \<in> set (show_nat n) \<Longrightarrow> is_digit c"
    using show_nat_digits [of n] by (simp add: list_all_iff)
  have hd: "u \<noteq> [] \<and> \<not> is_digit (hd u)"
    using assms by (auto simp: is_digit_letters)
  then have u: "takeWhile is_digit u = []" "dropWhile is_digit u = u"
    by (cases u; simp)+
  with all have "takeWhile is_digit (show_nat n @ u) = show_nat n"
    and "dropWhile is_digit (show_nat n @ u) = u"
    by (simp_all add: takeWhile_append dropWhile_append)
  with assms show_nat_digits [of n] show ?thesis
    by (simp add: ttl_match_def Let_def)
qed

lemma parseTtl_show:
  "parseTtl (show_nat n @ ''ms'') = Inr (int n)"
  "parseTtl (show_nat n @ ''s'') = Inr (int n * 1000)"
  "parseTtl (show_nat n @ ''m'') = Inr (int n * 60 * 1000)"
  "parseTtl (show_nat n @ ''h'') = Inr (int n * 60 * 60 * 1000)"
  "parseTtl (show_nat n @ ''d'') = Inr (int n * 24 * 60 * 60 * 1000)"
  by (simp_all add: parseTtl_def ttl_match_show Let_def)

lemma js_round_bounds:
  fixes k ms :: int
  assumes "0 < k" and "0 \<le> ms"
  shows "0 \<le> js_round (of_int ms / of_int k)"
    and "2 * \<bar>js_round (of_int ms / of_int k) * k - ms\<bar> \<le> k"
proof -
  define r where "r = js_round (of_int ms / of_int k)"
  have lo: "(of_int r :: rat) \<le> of_int ms / of_int k + 1 / 2"
    and hi: "of_int ms / of_int k + 1 / 2 < (of_int r :: rat) + 1"
    by (simp_all add: r_def js_round_def) linarith+
  have k: "(0 :: rat) < of_int k" using assms by simp
  from lo k have "of_int (2 * r * k) \<le> (of_int (2 * ms + k) :: rat)"
    by (simp add: field_simps)
  then have 1: "2 * r * k \<le> 2 * ms + k" by linarith
  from hi k have "(of_int (2 * ms + k) :: rat) < of_int (2 * r * k + 2 * k)"
    by (simp add: field_simps)
  then have 2: "2 * ms + k < 2 * r * k + 2 * k" by linarith
  show "0 \<le> js_round (of_int ms / of_int k)"
    using assms by (simp add: js_round_def)
  show "2 * \<bar>js_round (of_int ms / of_int k) * k - ms\<bar> \<le> k"
  proof -
    define p where "p = r * k"
    from 1 2 have "2 * p \<le> 2 * ms + k" and "2 * ms + k < 2 * p + 2 * k"
      by (simp_all add: p_def mult.assoc)
    then have "2 * \<bar>p - ms\<bar> \<le> k" by arith
    then show ?thesis by (simp add: p_def r_def)
  qed
qed

text \<open>
  What \<open>formatTtl\<close> prints reads back as a multiple of the unit it chose.
\<close>

lemma parse_format:
  assumes "0 \<le> ms"
  shows "parseTtl (formatTtl ms) = Inr (js_round (of_int ms / of_int (ttl_unit ms)) * ttl_unit ms)"
proof -
  define k where "k = ttl_unit ms"
  define r where "r = js_round (of_int ms / of_int k)"
  have "0 < k" by (simp add: k_def ttl_unit_def)
  then have r: "0 \<le> r" using js_round_bounds(1) assms by (simp add: r_def)
  then have sh: "show_int r = show_nat (nat r)"
    by (simp add: show_int_def)
  show ?thesis
  proof (cases "ms < 1000")
    case True
    then have "js_round (of_int ms) = ms" by (simp add: js_round_def floor_unique)
    with True assms show ?thesis
      by (simp add: formatTtl_def show_int_def parseTtl_show ttl_unit_def)
  next
    case False
    have "formatTtl ms = show_int r @ (if ms < 60000 then ''s'' else if ms < 3600000 then ''m''
            else if ms < 86400000 then ''h'' else ''d'')"
      using False by (auto simp: formatTtl_def r_def k_def ttl_unit_def)
    moreover have "k = (if ms < 60000 then 1000 else if ms < 3600000 then 60000
            else if ms < 86400000 then 3600000 else 86400000)"
      using False by (auto simp: k_def ttl_unit_def)
    ultimately have "parseTtl (formatTtl ms) = Inr (r * k)"
      using r by (auto simp: sh parseTtl_show)
    then show ?thesis by (simp add: r_def k_def)
  qed
qed

text \<open>
  Printing a duration and parsing it back: for every non-negative number of
  milliseconds, \<open>parseTtl\<close> accepts what \<open>formatTtl\<close> prints and returns a
  duration that differs by at most half of the unit printed; a duration that is a
  whole number of those units comes back exactly.
\<close>

lemma ttl_roundtrip:
  assumes "0 \<le> ms"
  shows "\<exists>v. parseTtl (formatTtl ms) = Inr v \<and> 2 * \<bar>v - ms\<bar> \<le> ttl_unit ms
            \<and> (ttl_unit ms dvd ms \<longrightarrow> v = ms)"
proof -
  define k where "k = ttl_unit ms"
  have k: "0 < k" by (simp add: k_def ttl_unit_def)
  let ?v = "js_round (of_int ms / of_int k) * k"
  have near: "2 * \<bar>?v - ms\<bar> \<le> k" using js_round_bounds(2) [OF k assms] .
  have "?v = ms" if dvd: "k dvd ms"
  proof -
    from dvd obtain q where "ms = k * q" by (rule dvdE)
    with k have "js_round (of_int ms / of_int k) = q"
      by (simp add: js_round_def floor_unique)
    with \<open>ms = k * q\<close> show ?thesis by simp
  qed
  with near parse_format [OF assms] show ?thesis by (auto simp: k_def)
qed

end
