(* ===== verification/Jobs.thy ===== *)
theory Jobs
  imports Messages Retry Dates
begin

text \<open>
  Jobs of the scheduler (\<open>scheduler/types.ts\<close>), the operations every queue
  backend implements (\<open>scheduler/backends/backend.interface.ts\<close>) as a record of
  computations, and the contract the scheduler relies on as a locale.
\<close>

section \<open>Jobs\<close>

datatype job_priority = High | Normal | Low

datatype job_status = Pending | Processing | Completed | Failed | Dead

datatype job_type = Agent_job | Human_job | Integration_job

record job =
  job_id :: string
  workflowId :: string
  stepId :: string
  job_type :: job_type
  status :: job_status
  job_priority :: job_priority
  job_attempts :: nat
  job_maxAttempts :: nat
  job_payload :: json
  job_result :: "json option"
  job_error :: "string option"
  createdAt :: string
  startedAt :: "string option"
  completedAt :: "string option"
  visibilityTimeout :: int
  visibleAt :: "int option"

record job_create_input =
  in_workflowId :: string
  in_stepId :: string
  in_type :: job_type
  in_priority :: "job_priority option"
  in_payload :: json
  in_maxAttempts :: "nat option"
  in_visibilityTimeout :: "int option"

definition DEFAULT_JOB_RETRY_CONFIG :: retry_config where
  "DEFAULT_JOB_RETRY_CONFIG =
     \<lparr> maxAttempts = 3, initialDelay = 1000, maxDelay = 30000, backoffFactor = 2 \<rparr>"

definition DEFAULT_VISIBILITY_TIMEOUT :: int where
  "DEFAULT_VISIBILITY_TIMEOUT = 30000"

definition DEFAULT_MAX_ATTEMPTS :: nat where
  "DEFAULT_MAX_ATTEMPTS = 3"

text \<open>\<open>crypto.randomUUID()\<close> is the parameter \<open>uuid\<close>.\<close>

definition createJob :: "int \<Rightarrow> string \<Rightarrow> job_create_input \<Rightarrow> job" where
  "createJob now uuid input =
     \<lparr> job_id = ''job_'' @ uuid,
       workflowId = in_workflowId input,
       stepId = in_stepId input,
       job_type = in_type input,
       status = Pending,
       job_priority = default_to Normal (in_priority input),
       job_attempts = 0,
       job_maxAttempts = default_to DEFAULT_MAX_ATTEMPTS (in_maxAttempts input),
       job_payload = in_payload input,
       job_result = None,
       job_error = None,
       createdAt = toISOString now,
       startedAt = None,
       completedAt = None,
       visibilityTimeout = default_to DEFAULT_VISIBILITY_TIMEOUT (in_visibilityTimeout input),
       visibleAt = None \<rparr>"

text \<open>
  \<open>Partial<Job>\<close> as an object to spread: a missing field is \<open>None\<close>; a field of
  an optional property may also be present and \<open>undefined\<close> (\<open>Some None\<close>).
\<close>

record job_update =
  up_id :: "string option"
  up_workflowId :: "string option"
  up_stepId :: "string option"
  up_type :: "job_type option"
  up_status :: "job_status option"
  up_priority :: "job_priority option"
  up_attempts :: "nat option"
  up_maxAttempts :: "nat option"
  up_payload :: "json option"
  up_result :: "json option option"
  up_error :: "string option option"
  up_createdAt :: "string option"
  up_startedAt :: "string option option"
  up_completedAt :: "string option option"
  up_visibilityTimeout :: "int option"
  up_visibleAt :: "int option option"

definition no_update :: job_update where
  "no_update =
     \<lparr> up_id = None, up_workflowId = None, up_stepId = None, up_type = None, up_status = None,
       up_priority = None, up_attempts = None, up_maxAttempts = None, up_payload = None,
       up_result = None, up_error = None, up_createdAt = None, up_startedAt = None,
       up_completedAt = None, up_visibilityTimeout = None, up_visibleAt = None \<rparr>"

text \<open>The spread \<open>{ ...job, ...update }\<close>.\<close>

definition spread_job :: "job \<Rightarrow> job_update \<Rightarrow> job" where
  "spread_job j u =
     \<lparr> job_id = default_to (job_id j) (up_id u),
       workflowId = default_to (workflowId j) (up_workflowId u),
       stepId = default_to (stepId j) (up_stepId u),
       job_type = default_to (job_type j) (up_type u),
       status = default_to (status j) (up_status u),
       job_priority = default_to (job_priority j) (up_priority u),
       job_attempts = default_to (job_attempts j) (up_attempts u),
       job_maxAttempts = default_to (job_maxAttempts j) (up_maxAttempts u),
       job_payload = default_to (job_payload j) (up_payload u),
       job_result = default_to (job_result j) (up_result u),
       job_error = default_to (job_error j) (up_error u),
       createdAt = default_to (createdAt j) (up_createdAt u),
       startedAt = default_to (startedAt j) (up_startedAt u),
       completedAt = default_to (completedAt j) (up_completedAt u),
       visibilityTimeout = default_to (visibilityTimeout j) (up_visibilityTimeout u),
       visibleAt = default_to (visibleAt j) (up_visibleAt u) \<rparr>"

section \<open>Job transitions shared by the backends\<close>

text \<open>
  Both backends rewrite the stored job in the same way on each operation; these
  are the object literals \<open>{ ...job, status: ... }\<close> of the interface's methods.
\<close>

definition started_job :: "int \<Rightarrow> job \<Rightarrow> job" where
  "started_job now j =
     j\<lparr> status := Processing,
        startedAt := (case startedAt j of None \<Rightarrow> Some (toISOString now) | Some t \<Rightarrow> Some t),
        visibleAt := Some (now + visibilityTimeout j) \<rparr>"

definition completed_job :: "int \<Rightarrow> job \<Rightarrow> job" where
  "completed_job now j =
     j\<lparr> status := Completed, completedAt := Some (toISOString now), visibleAt := None \<rparr>"

definition nacked_job :: "int \<Rightarrow> string \<Rightarrow> job \<Rightarrow> job" where
  "nacked_job now err j =
     (let newAttempts = job_attempts j + 1; shouldDie = newAttempts \<ge> job_maxAttempts j
      in j\<lparr> job_attempts := newAttempts,
            job_error := Some err,
            status := (if shouldDie then Dead else Pending),
            completedAt := (if shouldDie then Some (toISOString now) else None),
            visibleAt := None \<rparr>)"

definition retried_job :: "job \<Rightarrow> job" where
  "retried_job j =
     j\<lparr> status := Pending, job_attempts := 0, job_error := None, completedAt := None, visibleAt := None \<rparr>"

definition released_job :: "job \<Rightarrow> job" where
  "released_job j = j\<lparr> status := Pending, visibleAt := None \<rparr>"

lemmas job_transitions =
  started_job_def completed_job_def nacked_job_def retried_job_def released_job_def

lemma job_transition_fields [simp]:
  "job_id (started_job now j) = job_id j" "job_id (completed_job now j) = job_id j"
  "job_id (nacked_job now e j) = job_id j" "job_id (retried_job j) = job_id j"
  "job_id (released_job j) = job_id j"
  "job_priority (started_job now j) = job_priority j" "job_priority (completed_job now j) = job_priority j"
  "job_priority (nacked_job now e j) = job_priority j" "job_priority (retried_job j) = job_priority j"
  "job_priority (released_job j) = job_priority j"
  "job_maxAttempts (started_job now j) = job_maxAttempts j"
  "job_maxAttempts (completed_job now j) = job_maxAttempts j"
  "job_maxAttempts (nacked_job now e j) = job_maxAttempts j"
  "job_maxAttempts (retried_job j) = job_maxAttempts j"
  "job_maxAttempts (released_job j) = job_maxAttempts j"
  "job_attempts (started_job now j) = job_attempts j"
  "job_attempts (completed_job now j) = job_attempts j"
  "job_attempts (nacked_job now e j) = Suc (job_attempts j)"
  "job_attempts (retried_job j) = 0"
  "job_attempts (released_job j) = job_attempts j"
  "status (started_job now j) = Processing" "status (completed_job now j) = Completed"
  "status (nacked_job now e j) = (if job_maxAttempts j \<le> Suc (job_attempts j) then Dead else Pending)"
  "status (retried_job j) = Pending" "status (released_job j) = Pending"
  by (simp_all add: job_transitions Let_def)

section \<open>The backend interface\<close>

record health_details =
  hd_connected :: bool
  hd_queueDepth :: nat
  hd_lastError :: "string option"

record health_check_result =
  hc_healthy :: bool
  hc_details :: health_details

text \<open>
  \<open>QueueBackend\<close>: one computation per method. Methods that read the clock take
  the time as their first argument.
\<close>

record 'b queue_backend =
  b_enqueue :: "int \<Rightarrow> job \<Rightarrow> ('b, unit) js"
  b_dequeue :: "int \<Rightarrow> job_priority option \<Rightarrow> ('b, job option) js"
  b_acknowledge :: "int \<Rightarrow> string \<Rightarrow> ('b, unit) js"
  b_nack :: "int \<Rightarrow> string \<Rightarrow> string \<Rightarrow> ('b, unit) js"
  b_getJob :: "int \<Rightarrow> string \<Rightarrow> ('b, job option) js"
  b_updateJob :: "int \<Rightarrow> string \<Rightarrow> job_update \<Rightarrow> ('b, unit) js"
  b_getQueueDepth :: "job_priority option \<Rightarrow> ('b, nat) js"
  b_getProcessingCount :: "('b, nat) js"
  b_getDeadLetterJobs :: "int \<Rightarrow> ('b, job list) js"
  b_retryDeadLetter :: "int \<Rightarrow> string \<Rightarrow> ('b, unit) js"
  b_refreshVisibility :: "int \<Rightarrow> string \<Rightarrow> int \<Rightarrow> ('b, unit) js"
  b_releaseTimedOutJobs :: "int \<Rightarrow> ('b, nat) js"
  b_connect :: "('b, unit) js"
  b_disconnect :: "('b, unit) js"
  b_healthCheck :: "('b, health_check_result) js"

text \<open>
  What the scheduler relies on. \<open>view\<close> is the table of stored jobs, \<open>storable\<close> the jobs
  the backend gives back as they were stored. Reading does not change the state; an
  acknowledgement or a negative acknowledgement of a stored job rewrites exactly that
  job; a dequeued job was stored and is now stored as being processed.
\<close>

locale backend_contract =
  fixes B :: "'b queue_backend"
    and view :: "'b \<Rightarrow> string \<Rightarrow> job option"
    and ok :: "'b \<Rightarrow> bool"
    and storable :: "job \<Rightarrow> bool"
  assumes stored: "ok b \<Longrightarrow> view b i = Some j \<Longrightarrow> storable j"
    and storable_result: "storable j \<Longrightarrow> storable (spread_job j (no_update\<lparr> up_result := Some (Some v) \<rparr>))"
    and storable_completed: "storable j \<Longrightarrow> storable (completed_job now j)"
    and getJob: "ok b \<Longrightarrow> b_getJob B now i b = (Inr (view b i), b)"
    and enqueue: "ok b \<Longrightarrow> storable j \<Longrightarrow>
          \<exists>b'. b_enqueue B now j b = (Inr (), b') \<and> view b' = (view b)(job_id j \<mapsto> j) \<and> ok b'"
    and acknowledge: "ok b \<Longrightarrow> view b i = Some j \<Longrightarrow>
          \<exists>b'. b_acknowledge B now i b = (Inr (), b') \<and> view b' = (view b)(i \<mapsto> completed_job now j) \<and> ok b'"
    and nack: "ok b \<Longrightarrow> view b i = Some j \<Longrightarrow> storable (nacked_job now e j) \<Longrightarrow>
          \<exists>b'. b_nack B now i e b = (Inr (), b') \<and> view b' = (view b)(i \<mapsto> nacked_job now e j) \<and> ok b'"
    and updateJob: "ok b \<Longrightarrow> view b i = Some j \<Longrightarrow> storable (spread_job j u) \<Longrightarrow>
          \<exists>b'. b_updateJob B now i u b = (Inr (), b') \<and> view b' = (view b)(i \<mapsto> spread_job j u) \<and> ok b'"
    and dequeue: "ok b \<Longrightarrow> \<exists>r b'. b_dequeue B now p b = (Inr r, b') \<and> ok b' \<and>
          (case r of None \<Rightarrow> view b' = view b
           | Some j \<Rightarrow> \<exists>i j0. view b i = Some j0 \<and> j = started_job now j0 \<and> view b' = (view b)(i \<mapsto> j))"

end
