(* ===== verification/MemoryBackend.thy ===== *)
theory MemoryBackend
  imports Jobs
begin

text \<open>
  The in-memory queue backend (\<open>scheduler/backends/memory-backend.ts\<close>): one
  definition per method, the \<open>backend_contract\<close> discharged for it, and the
  invariant that every stored job is in exactly one place, which the backend keeps
  as long as only jobs being processed are acknowledged.
\<close>

section \<open>State and operations\<close>

record memory_backend =
  mb_jobs :: "(string, job) jmap"
  mb_queues :: "job_priority \<Rightarrow> string list"
  mb_processing :: "string list"
  mb_deadLetter :: "string list"
  mb_connected :: bool

definition mb_empty :: memory_backend where
  "mb_empty = \<lparr> mb_jobs = [], mb_queues = (\<lambda>_. []), mb_processing = [], mb_deadLetter = [],
                mb_connected = False \<rparr>"

definition mb_connect :: "(memory_backend, unit) js" where
  "mb_connect b = (Inr (), b\<lparr> mb_connected := True \<rparr>)"

definition mb_disconnect :: "(memory_backend, unit) js" where
  "mb_disconnect b =
     (Inr (), b\<lparr> mb_connected := False, mb_jobs := [], mb_queues := (\<lambda>_. []), mb_processing := [],
                 mb_deadLetter := [] \<rparr>)"

abbreviation push_queue :: "job_priority \<Rightarrow> string \<Rightarrow> memory_backend \<Rightarrow> memory_backend" where
  "push_queue p i b \<equiv> b\<lparr> mb_queues := (mb_queues b)(p := mb_queues b p @ [i]) \<rparr>"

definition mb_enqueue :: "int \<Rightarrow> job \<Rightarrow> (memory_backend, unit) js" where
  "mb_enqueue now j b =
     (Inr (), push_queue (job_priority j) (job_id j) (b\<lparr> mb_jobs := jset (job_id j) j (mb_jobs b) \<rparr>))"

fun mb_dequeue_from :: "int \<Rightarrow> job_priority list \<Rightarrow> memory_backend \<Rightarrow> job option \<times> memory_backend" where
  "mb_dequeue_from now [] b = (None, b)"
| "mb_dequeue_from now (p # ps) b =
     (case mb_queues b p of
        [] \<Rightarrow> mb_dequeue_from now ps b
      | jobId # rest \<Rightarrow>
          (let b1 = b\<lparr> mb_queues := (mb_queues b)(p := rest) \<rparr>
           in case jget (mb_jobs b1) jobId of
                None \<Rightarrow> mb_dequeue_from now ps b1
              | Some j \<Rightarrow>
                  (let updatedJob = started_job now j
                   in (Some updatedJob,
                       b1\<lparr> mb_jobs := jset jobId updatedJob (mb_jobs b1),
                           mb_processing := sadd jobId (mb_processing b1) \<rparr>))))"

definition priorities_to_check :: "job_priority option \<Rightarrow> job_priority list" where
  "priorities_to_check p = (case p of None \<Rightarrow> [High, Normal, Low] | Some q \<Rightarrow> [q])"

definition mb_dequeue :: "int \<Rightarrow> job_priority option \<Rightarrow> (memory_backend, job option) js" where
  "mb_dequeue now p b =
     (case mb_dequeue_from now (priorities_to_check p) b of (r, b') \<Rightarrow> (Inr r, b'))"

definition mb_acknowledge :: "int \<Rightarrow> string \<Rightarrow> (memory_backend, unit) js" where
  "mb_acknowledge now jobId b =
     (case jget (mb_jobs b) jobId of
        None \<Rightarrow> (Inr (), b)
      | Some j \<Rightarrow>
          (Inr (), b\<lparr> mb_processing := sdel jobId (mb_processing b),
                      mb_jobs := jset jobId (completed_job now j) (mb_jobs b) \<rparr>))"

definition mb_nack :: "int \<Rightarrow> string \<Rightarrow> string \<Rightarrow> (memory_backend, unit) js" where
  "mb_nack now jobId err b =
     (case jget (mb_jobs b) jobId of
        None \<Rightarrow> (Inr (), b)
      | Some j \<Rightarrow>
          (let b1 = b\<lparr> mb_processing := sdel jobId (mb_processing b),
                       mb_jobs := jset jobId (nacked_job now err j) (mb_jobs b) \<rparr>
           in if job_attempts j + 1 \<ge> job_maxAttempts j
              then (Inr (), b1\<lparr> mb_deadLetter := sadd jobId (mb_deadLetter b1) \<rparr>)
              else (Inr (), push_queue (job_priority j) jobId b1)))"

definition mb_getJob :: "int \<Rightarrow> string \<Rightarrow> (memory_backend, job option) js" where
  "mb_getJob now i b = (Inr (jget (mb_jobs b) i), b)"

definition mb_updateJob :: "int \<Rightarrow> string \<Rightarrow> job_update \<Rightarrow> (memory_backend, unit) js" where
  "mb_updateJob now i u b =
     (case jget (mb_jobs b) i of
        None \<Rightarrow> (Inl (Plain_error (''Job not found: '' @ i)), b)
      | Some j \<Rightarrow> (Inr (), b\<lparr> mb_jobs := jset i (spread_job j u) (mb_jobs b) \<rparr>))"

definition mb_getQueueDepth :: "job_priority option \<Rightarrow> (memory_backend, nat) js" where
  "mb_getQueueDepth p b =
     (case p of
        Some q \<Rightarrow> (Inr (length (mb_queues b q)), b)
      | None \<Rightarrow> (Inr (length (mb_queues b High) + length (mb_queues b Normal) + length (mb_queues b Low)), b))"

definition mb_getProcessingCount :: "(memory_backend, nat) js" where
  "mb_getProcessingCount b = (Inr (length (mb_processing b)), b)"

definition mb_getDeadLetterJobs :: "int \<Rightarrow> (memory_backend, job list) js" where
  "mb_getDeadLetterJobs now b = (Inr (List.map_filter (jget (mb_jobs b)) (mb_deadLetter b)), b)"

definition mb_retryDeadLetter :: "int \<Rightarrow> string \<Rightarrow> (memory_backend, unit) js" where
  "mb_retryDeadLetter now jobId b =
     (if jobId \<notin> set (mb_deadLetter b)
      then (Inl (Plain_error (''Job '' @ jobId @ '' is not in dead letter queue'')), b)
      else case jget (mb_jobs b) jobId of
             None \<Rightarrow> (Inl (Plain_error (''Job not found: '' @ jobId)), b)
           | Some j \<Rightarrow>
               (Inr (), push_queue (job_priority j) jobId
                  (b\<lparr> mb_deadLetter := sdel jobId (mb_deadLetter b),
                      mb_jobs := jset jobId (retried_job j) (mb_jobs b) \<rparr>)))"

definition mb_refreshVisibility :: "int \<Rightarrow> string \<Rightarrow> int \<Rightarrow> (memory_backend, unit) js" where
  "mb_refreshVisibility now jobId timeoutMs b =
     (case jget (mb_jobs b) jobId of
        None \<Rightarrow> (Inr (), b)
      | Some j \<Rightarrow> (Inr (), b\<lparr> mb_jobs := jset jobId (j\<lparr> visibleAt := Some (now + timeoutMs) \<rparr>) (mb_jobs b) \<rparr>))"

text \<open>
  \<open>job && job.visibleAt && job.visibleAt <= now\<close>: the middle conjunct is false for
  \<open>undefined\<close> and for 0.
\<close>

definition timed_out :: "int \<Rightarrow> job option \<Rightarrow> bool" where
  "timed_out now oj =
     (case oj of None \<Rightarrow> False
      | Some j \<Rightarrow> (case visibleAt j of None \<Rightarrow> False | Some v \<Rightarrow> v \<noteq> 0 \<and> v \<le> now))"

definition release_one :: "string \<Rightarrow> memory_backend \<Rightarrow> memory_backend" where
  "release_one jobId b =
     (case jget (mb_jobs b) jobId of
        None \<Rightarrow> b
      | Some j \<Rightarrow>
          push_queue (job_priority j) jobId
            (b\<lparr> mb_processing := sdel jobId (mb_processing b),
                mb_jobs := jset jobId (released_job j) (mb_jobs b) \<rparr>))"

text \<open>
  The loop over the set of jobs being processed. Deleting the current element of a
  JavaScript \<open>Set\<close> while iterating does not disturb the iteration, so the loop
  visits the elements the set had at the start.
\<close>

fun release_loop :: "int \<Rightarrow> string list \<Rightarrow> nat \<Rightarrow> memory_backend \<Rightarrow> nat \<times> memory_backend" where
  "release_loop now [] released b = (released, b)"
| "release_loop now (jobId # rest) released b =
     (if timed_out now (jget (mb_jobs b) jobId)
      then release_loop now rest (Suc released) (release_one jobId b)
      else release_loop now rest released b)"

definition mb_releaseTimedOutJobs :: "int \<Rightarrow> (memory_backend, nat) js" where
  "mb_releaseTimedOutJobs now b =
     (case release_loop now (mb_processing b) 0 b of (n, b') \<Rightarrow> (Inr n, b'))"

definition mb_healthCheck :: "(memory_backend, health_check_result) js" where
  "mb_healthCheck =
     cbind (mb_getQueueDepth None) (\<lambda>queueDepth b.
       (Inr \<lparr> hc_healthy = mb_connected b,
              hc_details = \<lparr> hd_connected = mb_connected b, hd_queueDepth = queueDepth, hd_lastError = None \<rparr> \<rparr>,
        b))"

definition memory_ops :: "memory_backend queue_backend" where
  "memory_ops =
     \<lparr> b_enqueue = mb_enqueue, b_dequeue = mb_dequeue, b_acknowledge = mb_acknowledge, b_nack = mb_nack,
       b_getJob = mb_getJob, b_updateJob = mb_updateJob, b_getQueueDepth = mb_getQueueDepth,
       b_getProcessingCount = mb_getProcessingCount, b_getDeadLetterJobs = mb_getDeadLetterJobs,
       b_retryDeadLetter = mb_retryDeadLetter, b_refreshVisibility = mb_refreshVisibility,
       b_releaseTimedOutJobs = mb_releaseTimedOutJobs, b_connect = mb_connect,
       b_disconnect = mb_disconnect, b_healthCheck = mb_healthCheck \<rparr>"

section \<open>The contract\<close>

abbreviation mb_view :: "memory_backend \<Rightarrow> string \<Rightarrow> job option" where
  "mb_view b \<equiv> map_of (mb_jobs b)"

lemma mb_dequeue_from_view:
  assumes "mb_dequeue_from now ps b = (r, b')"
  shows "case r of None \<Rightarrow> mb_view b' = mb_view b
     | Some j \<Rightarrow> \<exists>i j0. mb_view b i = Some j0 \<and> j = started_job now j0 \<and> mb_view b' = (mb_view b)(i \<mapsto> j)"
  using assms
proof (induction now ps b arbitrary: r b' rule: mb_dequeue_from.induct)
  case (1 now b)
  then show ?case by simp
next
  case (2 now p ps b)
  then show ?case
    by (fastforce split: list.splits option.splits simp: Let_def update_conv')
qed

interpretation mb: backend_contract memory_ops mb_view "\<lambda>_. True" "\<lambda>_. True"
proof (unfold_locales, goal_cases)
  case (9 b now p)
  obtain r b' where "mb_dequeue_from now (priorities_to_check p) b = (r, b')" by fastforce
  with mb_dequeue_from_view [OF this] show ?case
    by (auto simp: memory_ops_def mb_dequeue_def)
qed (auto simp: memory_ops_def mb_getJob_def mb_enqueue_def mb_acknowledge_def mb_nack_def mb_updateJob_def
       Let_def update_conv')

section \<open>Every job in one place\<close>

text \<open>
  The place of a job is determined by its status: pending jobs are in the queue of
  their priority, jobs being processed in the processing set, dead jobs in the dead
  letter set, completed jobs nowhere.
\<close>

definition place_ok :: "memory_backend \<Rightarrow> string \<Rightarrow> bool" where
  "place_ok b i =
     (case jget (mb_jobs b) i of
        None \<Rightarrow> (\<forall>p. i \<notin> set (mb_queues b p)) \<and> i \<notin> set (mb_processing b) \<and> i \<notin> set (mb_deadLetter b)
      | Some j \<Rightarrow>
          job_id j = i \<and>
          (\<forall>p. i \<in> set (mb_queues b p) \<longleftrightarrow> status j = Pending \<and> job_priority j = p) \<and>
          (i \<in> set (mb_processing b) \<longleftrightarrow> status j = Processing) \<and>
          (i \<in> set (mb_deadLetter b) \<longleftrightarrow> status j = Dead))"

definition mb_distinct :: "memory_backend \<Rightarrow> bool" where
  "mb_distinct b \<longleftrightarrow>
     (\<forall>p. distinct (mb_queues b p)) \<and> distinct (mb_processing b) \<and> distinct (mb_deadLetter b)"

definition mb_inv :: "memory_backend \<Rightarrow> bool" where
  "mb_inv b \<longleftrightarrow> (\<forall>i. place_ok b i) \<and> mb_distinct b"

text \<open>Two states agree about a job.\<close>

definition same_at :: "string \<Rightarrow> memory_backend \<Rightarrow> memory_backend \<Rightarrow> bool" where
  "same_at k b b' \<longleftrightarrow>
     mb_view b' k = mb_view b k \<and> (\<forall>p. k \<in> set (mb_queues b' p) \<longleftrightarrow> k \<in> set (mb_queues b p)) \<and>
     (k \<in> set (mb_processing b') \<longleftrightarrow> k \<in> set (mb_processing b)) \<and>
     (k \<in> set (mb_deadLetter b') \<longleftrightarrow> k \<in> set (mb_deadLetter b))"

text \<open>An operation on one job only has to be checked at that job.\<close>

lemma mb_inv_one_job:
  assumes "mb_inv b" and "\<And>k. k \<noteq> i \<Longrightarrow> same_at k b b'" and "place_ok b' i" and "mb_distinct b'"
  shows "mb_inv b'"
proof -
  have "place_ok b' k" for k
  proof (cases "k = i")
    case False
    with assms(1,2) have "place_ok b k" "same_at k b b'" by (simp_all add: mb_inv_def)
    then show ?thesis by (simp add: place_ok_def same_at_def split: option.splits)
  qed (use assms in simp)
  with assms(4) show ?thesis by (simp add: mb_inv_def)
qed

lemma mb_inv_at:
  assumes "mb_inv b"
  shows "place_ok b i" and "mb_distinct b"
  using assms by (simp_all add: mb_inv_def)

lemma mb_inv_processing:
  assumes "mb_inv b" "i \<in> set (mb_processing b)"
  obtains j where "mb_view b i = Some j" "status j = Processing" "job_id j = i"
    "\<forall>p. i \<notin> set (mb_queues b p)" "i \<notin> set (mb_deadLetter b)"
  using mb_inv_at(1) [OF assms(1), of i] assms(2) by (auto simp: place_ok_def split: option.splits)

lemma mb_inv_queued:
  assumes "mb_inv b" "i \<in> set (mb_queues b p)"
  obtains j where "mb_view b i = Some j" "status j = Pending" "job_priority j = p" "job_id j = i"
    "i \<notin> set (mb_processing b)" "i \<notin> set (mb_deadLetter b)" "\<forall>q. q \<noteq> p \<longrightarrow> i \<notin> set (mb_queues b q)"
  using mb_inv_at(1) [OF assms(1), of i] assms(2) by (auto simp: place_ok_def split: option.splits)

lemmas one_job_simps = place_ok_def mb_distinct_def same_at_def

lemma mb_inv_empty: "mb_inv mb_empty"
  by (simp add: mb_inv_def one_job_simps mb_empty_def)

lemma mb_enqueue_inv:
  assumes inv: "mb_inv b" and new: "mb_view b (job_id j) = None" and st: "status j = Pending"
    and run: "mb_enqueue now j b = (r, b')"
  shows "mb_inv b'"
proof (rule mb_inv_one_job [OF inv, of "job_id j"])
  have out: "\<And>p. job_id j \<notin> set (mb_queues b p)" "job_id j \<notin> set (mb_processing b)"
    "job_id j \<notin> set (mb_deadLetter b)"
    using mb_inv_at(1) [OF inv, of "job_id j"] new by (auto simp: place_ok_def)
  show "place_ok b' (job_id j)" "mb_distinct b'"
    using run st out mb_inv_at(2) [OF inv] by (auto simp: mb_enqueue_def one_job_simps)
qed (use run in \<open>auto simp: mb_enqueue_def same_at_def split: if_splits\<close>)

lemma mb_acknowledge_inv:
  assumes inv: "mb_inv b" and pr: "i \<in> set (mb_processing b)" and run: "mb_acknowledge now i b = (r, b')"
  shows "mb_inv b'"
proof -
  obtain j where j: "mb_view b i = Some j" "status j = Processing" "job_id j = i"
    "\<forall>p. i \<notin> set (mb_queues b p)" "i \<notin> set (mb_deadLetter b)"
    by (rule mb_inv_processing [OF inv pr])
  show ?thesis
    using j run mb_inv_at(2) [OF inv]
    by (intro mb_inv_one_job [OF inv, of i]) (auto simp: mb_acknowledge_def one_job_simps)
qed

lemma mb_nack_inv:
  assumes inv: "mb_inv b" and pr: "i \<in> set (mb_processing b)" and run: "mb_nack now i e b = (r, b')"
  shows "mb_inv b'"
proof -
  obtain j where j: "mb_view b i = Some j" "status j = Processing" "job_id j = i"
    "\<forall>p. i \<notin> set (mb_queues b p)" "i \<notin> set (mb_deadLetter b)"
    by (rule mb_inv_processing [OF inv pr])
  show ?thesis
    using j run mb_inv_at(2) [OF inv]
    by (intro mb_inv_one_job [OF inv, of i]) (auto simp: mb_nack_def Let_def one_job_simps split: if_splits)
qed

lemma mb_retryDeadLetter_inv:
  assumes inv: "mb_inv b" and run: "mb_retryDeadLetter now i b = (r, b')"
  shows "mb_inv b'"
proof (cases "i \<in> set (mb_deadLetter b)")
  case False
  with inv run show ?thesis by (simp add: mb_retryDeadLetter_def)
next
  case True
  then obtain j where j: "mb_view b i = Some j" "status j = Dead" "job_id j = i"
    "\<forall>p. i \<notin> set (mb_queues b p)" "i \<notin> set (mb_processing b)"
    using mb_inv_at(1) [OF inv, of i] by (auto simp: place_ok_def split: option.splits)
  show ?thesis
    using True j run mb_inv_at(2) [OF inv]
    by (intro mb_inv_one_job [OF inv, of i]) (auto simp: mb_retryDeadLetter_def one_job_simps split: if_splits)
qed

lemma mb_refreshVisibility_inv:
  assumes inv: "mb_inv b" and run: "mb_refreshVisibility now i t b = (r, b')"
  shows "mb_inv b'"
proof (cases "mb_view b i")
  case None
  with inv run show ?thesis by (simp add: mb_refreshVisibility_def)
next
  case (Some j)
  with run mb_inv_at(1) [OF inv, of i] mb_inv_at(2) [OF inv] show ?thesis
    by (intro mb_inv_one_job [OF inv, of i])
      (auto simp: mb_refreshVisibility_def one_job_simps split: option.splits)
qed

text \<open>An update that leaves the identity, the status and the priority of the job alone.\<close>

definition harmless :: "job_update \<Rightarrow> bool" where
  "harmless u \<longleftrightarrow> up_id u = None \<and> up_status u = None \<and> up_priority u = None"

lemma mb_updateJob_inv:
  assumes inv: "mb_inv b" and "harmless u" and run: "mb_updateJob now i u b = (r, b')"
  shows "mb_inv b'"
proof (cases "mb_view b i")
  case None
  with inv run show ?thesis by (simp add: mb_updateJob_def)
next
  case (Some j)
  with assms mb_inv_at(1) [OF inv, of i] mb_inv_at(2) [OF inv] show ?thesis
    by (intro mb_inv_one_job [OF inv, of i])
      (auto simp: mb_updateJob_def one_job_simps harmless_def spread_job_def split: option.splits)
qed

lemma release_one_inv:
  assumes inv: "mb_inv b" and pr: "i \<in> set (mb_processing b)"
  shows "mb_inv (release_one i b)"
proof -
  obtain j where j: "mb_view b i = Some j" "status j = Processing" "job_id j = i"
    "\<forall>p. i \<notin> set (mb_queues b p)" "i \<notin> set (mb_deadLetter b)"
    by (rule mb_inv_processing [OF inv pr])
  show ?thesis
    using j mb_inv_at(2) [OF inv]
    by (intro mb_inv_one_job [OF inv, of i]) (auto simp: release_one_def one_job_simps split: if_splits)
qed

text \<open>The state after taking the head of a queue.\<close>

definition taken :: "int \<Rightarrow> job_priority \<Rightarrow> string \<Rightarrow> string list \<Rightarrow> job \<Rightarrow> memory_backend \<Rightarrow> memory_backend" where
  "taken now p i rest j b =
     b\<lparr> mb_queues := (mb_queues b)(p := rest), mb_jobs := jset i (started_job now j) (mb_jobs b),
        mb_processing := sadd i (mb_processing b) \<rparr>"

text \<open>Under the invariant \<open>dequeue\<close> takes the head of the first non-empty queue.\<close>

lemma mb_dequeue_from_taken:
  assumes inv: "mb_inv b"
  shows "(\<forall>p \<in> set ps. mb_queues b p = []) \<and> mb_dequeue_from now ps b = (None, b) \<or>
     (\<exists>qs p us i rest j. ps = qs @ p # us \<and> (\<forall>q \<in> set qs. mb_queues b q = []) \<and> mb_queues b p = i # rest
        \<and> mb_view b i = Some j \<and> mb_dequeue_from now ps b = (Some (started_job now j), taken now p i rest j b))"
proof (induction ps)
  case Nil
  then show ?case by simp
next
  case (Cons p ps)
  show ?case
  proof (cases "mb_queues b p")
    case Nil
    then have eq: "mb_dequeue_from now (p # ps) b = mb_dequeue_from now ps b" by simp
    from Cons.IH show ?thesis
    proof (elim disjE exE conjE)
      fix qs p' us i rest j
      assume "ps = qs @ p' # us" "\<forall>q \<in> set qs. mb_queues b q = []" "mb_queues b p' = i # rest"
        "mb_view b i = Some j" "mb_dequeue_from now ps b = (Some (started_job now j), taken now p' i rest j b)"
      with Nil eq show ?thesis by (intro disjI2 exI [of _ "p # qs"]) auto
    qed (use Nil eq in auto)
  next
    case (Cons i rest)
    then have "i \<in> set (mb_queues b p)" by simp
    then obtain j where "mb_view b i = Some j" by (rule mb_inv_queued [OF inv])
    with Cons show ?thesis
      by (intro disjI2 exI [of _ "[]"]) (simp add: taken_def Let_def)
  qed
qed

lemma taken_inv:
  assumes inv: "mb_inv b" and q: "mb_queues b p = i # rest" and v: "mb_view b i = Some j"
  shows "mb_inv (taken now p i rest j b)"
proof -
  have "i \<in> set (mb_queues b p)" using q by simp
  then obtain j' where "mb_view b i = Some j'" "status j' = Pending" "job_priority j' = p" "job_id j' = i"
    "i \<notin> set (mb_processing b)" "i \<notin> set (mb_deadLetter b)" "\<forall>r. r \<noteq> p \<longrightarrow> i \<notin> set (mb_queues b r)"
    by (rule mb_inv_queued [OF inv])
  moreover have "distinct (i # rest)" using mb_inv_at(2) [OF inv] q by (metis mb_distinct_def)
  ultimately show ?thesis
    using q v mb_inv_at(2) [OF inv]
    by (intro mb_inv_one_job [OF inv, of i]) (auto simp: taken_def one_job_simps split: if_splits)
qed

lemma mb_dequeue_inv:
  assumes inv: "mb_inv b" and run: "mb_dequeue now p b = (r, b')"
  shows "mb_inv b'"
  using mb_dequeue_from_taken [OF inv, of "priorities_to_check p" now] run inv
  by (auto simp: mb_dequeue_def intro: taken_inv)

text \<open>
  The loop of \<open>releaseTimedOutJobs\<close>: exactly the timed-out jobs of the list are
  released.
\<close>

lemma release_one_effect:
  assumes "mb_inv b" "i \<in> set (mb_processing b)"
  shows "mb_processing (release_one i b) = sdel i (mb_processing b)"
    and "mb_view (release_one i b) = (mb_view b)(i := map_option released_job (mb_view b i))"
  using assms by (auto simp: release_one_def update_conv' elim!: mb_inv_processing)

lemma release_loop_effect:
  assumes "mb_inv b" and "distinct xs" and "set xs \<subseteq> set (mb_processing b)"
    and "release_loop now xs n b = (m, b')"
  shows "mb_inv b' \<and> m = n + length (filter (\<lambda>i. timed_out now (mb_view b i)) xs)
     \<and> mb_processing b' = filter (\<lambda>i. \<not> (i \<in> set xs \<and> timed_out now (mb_view b i))) (mb_processing b)
     \<and> mb_view b' = (\<lambda>i. if i \<in> set xs \<and> timed_out now (mb_view b i)
                         then map_option released_job (mb_view b i) else mb_view b i)"
  using assms
proof (induction xs arbitrary: n b)
  case Nil
  then show ?case by auto
next
  case (Cons x xs)
  show ?case
  proof (cases "timed_out now (mb_view b x)")
    case False
    then have "release_loop now xs n b = (m, b')" using Cons.prems by simp
    with Cons.IH [of b n] Cons.prems False show ?thesis by (auto intro!: filter_cong)
  next
    case True
    let ?b = "release_one x b"
    have x: "x \<in> set (mb_processing b)" using Cons.prems by simp
    have inv: "mb_inv ?b" by (rule release_one_inv [OF Cons.prems(1) x])
    note eff = release_one_effect [OF Cons.prems(1) x]
    have "release_loop now xs (Suc n) ?b = (m, b')" using True Cons.prems by simp
    moreover have "set xs \<subseteq> set (mb_processing ?b)" using Cons.prems eff(1) by auto
    moreover have same: "mb_view ?b i = mb_view b i" if "i \<noteq> x" for i using eff(2) that by simp
    moreover have "filter (\<lambda>i. timed_out now (mb_view ?b i)) xs = filter (\<lambda>i. timed_out now (mb_view b i)) xs"
    proof (rule filter_cong [OF refl])
      fix i assume "i \<in> set xs"
      with Cons.prems(2) have "i \<noteq> x" by auto
      then show "timed_out now (mb_view ?b i) = timed_out now (mb_view b i)" by (simp add: same)
    qed
    ultimately have IH: "mb_inv b'" "m = Suc n + length (filter (\<lambda>i. timed_out now (mb_view b i)) xs)"
      "mb_processing b' = filter (\<lambda>i. \<not> (i \<in> set xs \<and> timed_out now (mb_view ?b i))) (mb_processing ?b)"
      "mb_view b' = (\<lambda>i. if i \<in> set xs \<and> timed_out now (mb_view ?b i)
                         then map_option released_job (mb_view ?b i) else mb_view ?b i)"
      using Cons.IH [OF inv, of "Suc n"] Cons.prems(2) by auto
    have "mb_processing b' = filter (\<lambda>i. \<not> (i \<in> set (x # xs) \<and> timed_out now (mb_view b i))) (mb_processing b)"
      unfolding IH(3) eff(1) removeAll_filter_not_eq filter_filter
      using True Cons.prems(2) eff(2) by (intro filter_cong) auto
    moreover have "mb_view b' = (\<lambda>i. if i \<in> set (x # xs) \<and> timed_out now (mb_view b i)
                         then map_option released_job (mb_view b i) else mb_view b i)"
      unfolding IH(4) using True Cons.prems(2) eff(2) by (auto simp: fun_eq_iff)
    ultimately show ?thesis using IH True by simp
  qed
qed

section \<open>Reachable states\<close>

text \<open>
  The steps of a backend whose callers keep to the protocol: fresh identifiers are
  enqueued, only jobs being processed are acknowledged, updates leave identity,
  status and priority alone. Every other method may be called at any time.
\<close>

inductive mb_step :: "memory_backend \<Rightarrow> memory_backend \<Rightarrow> bool" where
  enqueue: "mb_view b (job_id j) = None \<Longrightarrow> status j = Pending \<Longrightarrow> mb_enqueue now j b = (r, b') \<Longrightarrow> mb_step b b'"
| dequeue: "mb_dequeue now p b = (r, b') \<Longrightarrow> mb_step b b'"
| ack: "i \<in> set (mb_processing b) \<Longrightarrow> mb_acknowledge now i b = (r, b') \<Longrightarrow> mb_step b b'"
| nack: "i \<in> set (mb_processing b) \<Longrightarrow> mb_nack now i e b = (r, b') \<Longrightarrow> mb_step b b'"
| update: "harmless u \<Longrightarrow> mb_updateJob now i u b = (r, b') \<Longrightarrow> mb_step b b'"
| retry_dead: "mb_retryDeadLetter now i b = (r, b') \<Longrightarrow> mb_step b b'"
| refresh: "mb_refreshVisibility now i t b = (r, b') \<Longrightarrow> mb_step b b'"
| release: "mb_releaseTimedOutJobs now b = (r, b') \<Longrightarrow> mb_step b b'"
| connect: "mb_connect b = (r, b') \<Longrightarrow> mb_step b b'"
| disconnect: "mb_disconnect b = (r, b') \<Longrightarrow> mb_step b b'"

inductive mb_reachable :: "memory_backend \<Rightarrow> bool" where
  start: "mb_reachable mb_empty"
| step: "mb_reachable b \<Longrightarrow> mb_step b b' \<Longrightarrow> mb_reachable b'"

lemma mb_release_inv:
  assumes inv: "mb_inv b" and run: "mb_releaseTimedOutJobs now b = (r, b')"
  shows "mb_inv b'"
proof -
  obtain m where "release_loop now (mb_processing b) 0 b = (m, b')"
    using run by (auto simp: mb_releaseTimedOutJobs_def split: prod.splits)
  moreover have "distinct (mb_processing b)" using mb_inv_at(2) [OF inv] by (simp add: mb_distinct_def)
  ultimately show ?thesis using release_loop_effect [OF inv _ subset_refl] by blast
qed

lemma place_ok_connected: "place_ok (b\<lparr> mb_connected := c \<rparr>) i = place_ok b i"
  by (cases "mb_view b i") (simp_all add: place_ok_def)

lemma mb_step_inv: "mb_step b b' \<Longrightarrow> mb_inv b \<Longrightarrow> mb_inv b'"
proof (induction rule: mb_step.induct)
  case (connect b r b')
  then show ?case by (auto simp: mb_connect_def mb_inv_def place_ok_connected mb_distinct_def)
next
  case (disconnect b r b')
  then show ?case by (auto simp: mb_disconnect_def mb_inv_def one_job_simps)
qed (blast intro: mb_enqueue_inv mb_dequeue_inv mb_acknowledge_inv mb_nack_inv mb_updateJob_inv
       mb_retryDeadLetter_inv mb_refreshVisibility_inv mb_release_inv)+

lemma mb_reachable_inv: "mb_reachable b \<Longrightarrow> mb_inv b"
  by (induction rule: mb_reachable.induct) (auto intro: mb_inv_empty mb_step_inv)

text \<open>All identifiers the backend holds anywhere, and the order in which jobs leave the queue.\<close>

definition mb_order :: "memory_backend \<Rightarrow> string list" where
  "mb_order b = mb_queues b High @ mb_queues b Normal @ mb_queues b Low"

definition mb_places :: "memory_backend \<Rightarrow> string list" where
  "mb_places b = mb_order b @ mb_processing b @ mb_deadLetter b"

lemma count_list_distinct: "distinct xs \<Longrightarrow> count_list xs x = (if x \<in> set xs then 1 else 0)"
  by (induction xs) auto

text \<open>
  C1. In every reachable state each stored job is in exactly one place: a pending,
  processing or dead job occurs exactly once among the three queues, the processing
  set and the dead letter set, a completed or unknown job occurs nowhere, so no job
  is lost or duplicated; and its place is the one its status names.
\<close>

theorem mb_single_place:
  assumes "mb_reachable b"
  shows "count_list (mb_places b) i =
           (case mb_view b i of None \<Rightarrow> 0
            | Some j \<Rightarrow> if status j = Pending \<or> status j = Processing \<or> status j = Dead then 1 else 0)
       \<and> place_ok b i"
proof -
  have inv: "mb_inv b" using assms by (rule mb_reachable_inv)
  note pl = mb_inv_at(1) [OF inv, of i] and d = mb_inv_at(2) [OF inv]
  have "count_list (mb_places b) i =
      (if i \<in> set (mb_queues b High) then 1 else 0) + (if i \<in> set (mb_queues b Normal) then 1 else 0) +
      (if i \<in> set (mb_queues b Low) then 1 else 0) + (if i \<in> set (mb_processing b) then 1 else 0) +
      (if i \<in> set (mb_deadLetter b) then 1 else 0)"
    using d by (simp add: mb_places_def mb_order_def mb_distinct_def count_list_distinct)
  moreover have "job_priority j = High \<or> job_priority j = Normal \<or> job_priority j = Low" for j
    by (cases "job_priority j") auto
  ultimately show ?thesis
    using pl by (auto simp: place_ok_def split: option.splits)
qed

text \<open>A sample job of the given priority.\<close>

definition sample_job :: "string \<Rightarrow> job_priority \<Rightarrow> job" where
  "sample_job i p =
     \<lparr> job_id = i, workflowId = ''wf'', stepId = ''s1'', job_type = Agent_job, status = Pending,
       job_priority = p, job_attempts = 0, job_maxAttempts = 3, job_payload = JNull, job_result = None,
       job_error = None, createdAt = ''2026-01-01T00:00:00.000Z'', startedAt = None, completedAt = None,
       visibilityTimeout = 30000, visibleAt = None \<rparr>"

definition sample_backend :: memory_backend where
  "sample_backend =
     snd (mb_enqueue 2 (sample_job ''b'' High) (snd (mb_enqueue 1 (sample_job ''a'' Low) mb_empty)))"

lemma sample_backend_reachable: "mb_reachable sample_backend"
proof -
  let ?b1 = "snd (mb_enqueue 1 (sample_job ''a'' Low) mb_empty)"
  have "mb_reachable ?b1"
    by (rule mb_reachable.step [OF mb_reachable.start])
      (rule mb_step.enqueue [of _ "sample_job ''a'' Low" 1 "Inr ()"],
        simp_all add: sample_job_def mb_empty_def mb_enqueue_def)
  then show ?thesis
    unfolding sample_backend_def
    by (rule mb_reachable.step)
      (rule mb_step.enqueue [of _ "sample_job ''b'' High" 2 "Inr ()"],
        simp_all add: sample_job_def mb_empty_def mb_enqueue_def)
qed

theorem mb_single_place_witness:
  "mb_reachable sample_backend \<and> count_list (mb_places sample_backend) ''a'' = 1"
  using sample_backend_reachable mb_single_place [OF sample_backend_reachable, of "''a''"]
  by (simp add: sample_backend_def sample_job_def mb_empty_def mb_enqueue_def)

text \<open>
  C5. \<open>dequeue\<close> without a filter in a reachable state: if no job is queued it returns
  nothing and changes nothing; otherwise it returns the first job of the order
  high, normal, low (first in, first out within a priority), now marked as being
  processed with its visibility deadline, and exactly that identifier leaves the
  order.
\<close>

theorem mb_dequeue_order:
  assumes "mb_reachable b"
  shows "case mb_order b of
           [] \<Rightarrow> mb_dequeue now None b = (Inr None, b)
         | i # rest \<Rightarrow>
             \<exists>j b'. mb_view b i = Some j \<and> mb_dequeue now None b = (Inr (Some (started_job now j)), b')
                \<and> mb_order b' = rest \<and> mb_processing b' = mb_processing b @ [i]
                \<and> mb_view b' = (mb_view b)(i \<mapsto> started_job now j)"
proof -
  have inv: "mb_inv b" using assms by (rule mb_reachable_inv)
  have new: "i \<notin> set (mb_processing b)" if "mb_queues b p = i # rest" for i p rest
    using mb_inv_queued [OF inv, of i p] that by (metis list.set_intros(1))
  show ?thesis
    using mb_dequeue_from_taken [OF inv, of "priorities_to_check None" now]
    by (auto simp: mb_dequeue_def priorities_to_check_def mb_order_def taken_def update_conv' sadd_new new
          Cons_eq_append_conv append_eq_Cons_conv split: list.splits)
qed

lemma sample_backend_facts:
  "mb_order sample_backend = [''b'', ''a'']"
  "mb_view sample_backend ''b'' = Some (sample_job ''b'' High)"
  by (simp_all add: mb_order_def sample_backend_def sample_job_def mb_empty_def mb_enqueue_def)

theorem mb_dequeue_order_witness:
  "\<exists>j b'. mb_dequeue 5 None sample_backend = (Inr (Some j), b') \<and> job_id j = ''b'' \<and> mb_order b' = [''a'']"
proof -
  from mb_dequeue_order [OF sample_backend_reachable, of 5]
  obtain b' where "mb_dequeue 5 None sample_backend = (Inr (Some (started_job 5 (sample_job ''b'' High))), b')"
    and "mb_order b' = [''a'']"
    by (auto simp: sample_backend_facts)
  then show ?thesis by (auto simp: sample_job_def)
qed

text \<open>
  \<open>releaseTimedOutJobs\<close> in a reachable state returns the number of jobs being
  processed whose visibility deadline has passed, and makes exactly those jobs
  pending again; every other job, and the rest of the processing set, is untouched.
\<close>

lemma mb_release_exact:
  assumes "mb_reachable b"
  shows "\<exists>b'. mb_releaseTimedOutJobs now b =
            (Inr (length (filter (\<lambda>i. timed_out now (mb_view b i)) (mb_processing b))), b')
       \<and> mb_processing b' = filter (\<lambda>i. \<not> timed_out now (mb_view b i)) (mb_processing b)
       \<and> mb_view b' = (\<lambda>i. if i \<in> set (mb_processing b) \<and> timed_out now (mb_view b i)
                           then map_option released_job (mb_view b i) else mb_view b i)"
proof -
  have inv: "mb_inv b" using assms by (rule mb_reachable_inv)
  obtain m b' where run: "release_loop now (mb_processing b) 0 b = (m, b')" by fastforce
  moreover have "distinct (mb_processing b)" using mb_inv_at(2) [OF inv] by (simp add: mb_distinct_def)
  ultimately have eff: "m = length (filter (\<lambda>i. timed_out now (mb_view b i)) (mb_processing b))"
     "mb_processing b' = filter (\<lambda>i. \<not> (i \<in> set (mb_processing b) \<and> timed_out now (mb_view b i))) (mb_processing b)"
     "mb_view b' = (\<lambda>i. if i \<in> set (mb_processing b) \<and> timed_out now (mb_view b i)
                         then map_option released_job (mb_view b i) else mb_view b i)"
    using release_loop_effect [OF inv _ subset_refl, of now 0 m b'] by auto
  have "mb_processing b' = filter (\<lambda>i. \<not> timed_out now (mb_view b i)) (mb_processing b)"
    unfolding eff(2) by (rule filter_cong) auto
  with run eff(1,3) show ?thesis by (auto simp: mb_releaseTimedOutJobs_def)
qed

definition stale_ack_run :: "memory_backend \<Rightarrow> memory_backend" where
  "stale_ack_run b =
     snd (mb_acknowledge 50001 ''b'' (snd (mb_releaseTimedOutJobs 50000 (snd (mb_dequeue 5 None b)))))"

text \<open>
  Outside the protocol the invariant fails. A worker takes a job, the job times
  out and is released to the queue, and then the slow worker acknowledges it:
  \<open>acknowledge\<close> marks the job completed but leaves its identifier in the queue, and
  the next \<open>dequeue\<close> hands the completed job out again for processing.
\<close>

lemma mb_stale_ack_reruns_completed_job:
  "map_option status (mb_view (stale_ack_run sample_backend) ''b'') = Some Completed
   \<and> (\<exists>j b'. mb_dequeue 50002 None (stale_ack_run sample_backend) = (Inr (Some j), b')
        \<and> job_id j = ''b'' \<and> status j = Processing)"
  by (simp add: stale_ack_run_def sample_backend_def sample_job_def mb_empty_def mb_enqueue_def mb_dequeue_def
        mb_releaseTimedOutJobs_def mb_acknowledge_def release_one_def
        priorities_to_check_def Let_def sadd_def timed_out_def job_transitions)

end
