(* ===== verification/Emitter.thy ===== *)
theory Emitter
  imports Prelude
begin

text \<open>
  The event emitter that every class of the router and the scheduler carries
  (\<open>on\<close>, \<open>off\<close>, \<open>emit\<close> over a \<open>Map\<close> from event names to \<open>Set\<close>s of
  listeners). The operations on the listener table are defined here once; each
  class instantiates them on its own record. Listeners are named by numbers; the
  calls made to them are recorded in order in a log of the class's state.
  Listeners are observers: they neither throw nor call back into the emitter.
\<close>

type_synonym listener = nat
type_synonym 'k listeners = "('k, listener list) jmap"

definition ls_on :: "'k \<Rightarrow> listener \<Rightarrow> 'k listeners \<Rightarrow> 'k listeners" where
  "ls_on k l ls =
     (let ls' = (if \<not> jhas ls k then jset k [] ls else ls)
      in case jget ls' k of None \<Rightarrow> ls' | Some xs \<Rightarrow> jset k (sadd l xs) ls')"

definition ls_off :: "'k \<Rightarrow> listener \<Rightarrow> 'k listeners \<Rightarrow> 'k listeners" where
  "ls_off k l ls = (case jget ls k of None \<Rightarrow> ls | Some xs \<Rightarrow> jset k (sdel l xs) ls)"

definition ls_emit :: "'k listeners \<Rightarrow> 'k \<Rightarrow> 'e \<Rightarrow> (listener \<times> 'e) list" where
  "ls_emit ls k e = (case jget ls k of None \<Rightarrow> [] | Some xs \<Rightarrow> map (\<lambda>l. (l, e)) xs)"

text \<open>The listeners of an event, in the order they are called.\<close>

definition ls_of :: "'k listeners \<Rightarrow> 'k \<Rightarrow> listener list" where
  "ls_of ls k = (case jget ls k of None \<Rightarrow> [] | Some xs \<Rightarrow> xs)"

definition ls_ok :: "'k listeners \<Rightarrow> bool" where
  "ls_ok ls \<longleftrightarrow> (\<forall>k. distinct (ls_of ls k))"

lemma ls_emit_eq: "ls_emit ls k e = map (\<lambda>l. (l, e)) (ls_of ls k)"
  by (simp add: ls_emit_def ls_of_def split: option.split)

lemma ls_of_on [simp]: "ls_of (ls_on k l ls) k' = (if k' = k then sadd l (ls_of ls k) else ls_of ls k')"
  by (cases "jget ls k") (auto simp: ls_on_def ls_of_def Let_def)

lemma ls_of_off [simp]: "ls_of (ls_off k l ls) k' = (if k' = k then sdel l (ls_of ls k) else ls_of ls k')"
  by (auto simp: ls_off_def ls_of_def split: option.split)

lemma ls_of_Nil [simp]: "ls_of [] k = []"
  by (simp add: ls_of_def)

lemma ls_ok_on [intro]: "ls_ok ls \<Longrightarrow> ls_ok (ls_on k l ls)"
  by (auto simp: ls_ok_def)

lemma ls_ok_off [intro]: "ls_ok ls \<Longrightarrow> ls_ok (ls_off k l ls)"
  by (auto simp: ls_ok_def)

section \<open>The contract of an emitter\<close>

text \<open>
  What a class promises of its emitter: \<open>on\<close> and \<open>off\<close> only edit the listener
  table, \<open>emit\<close> only appends the calls to the event's current listeners.
\<close>

locale emitter =
  fixes table :: "'s \<Rightarrow> 'k listeners"
    and calls :: "'s \<Rightarrow> (listener \<times> 'e) list"
    and kind :: "'e \<Rightarrow> 'k"
    and add :: "'k \<Rightarrow> listener \<Rightarrow> 's \<Rightarrow> 's"
    and rem :: "'k \<Rightarrow> listener \<Rightarrow> 's \<Rightarrow> 's"
    and fire :: "'e \<Rightarrow> 's \<Rightarrow> 's"
  assumes table_add: "table (add k l s) = ls_on k l (table s)"
    and calls_add: "calls (add k l s) = calls s"
    and table_rem: "table (rem k l s) = ls_off k l (table s)"
    and calls_rem: "calls (rem k l s) = calls s"
    and table_fire: "table (fire e s) = table s"
    and calls_fire: "calls (fire e s) = calls s @ ls_emit (table s) (kind e) e"
begin

lemmas laws = table_add calls_add table_rem calls_rem table_fire calls_fire

text \<open>The number of times a listener has been called with an event.\<close>

definition hits :: "listener \<Rightarrow> 'e \<Rightarrow> 's \<Rightarrow> nat" where
  "hits l e s = length (filter (\<lambda>p. p = (l, e)) (calls s))"

lemma hits_fire:
  assumes "ls_ok (table s)"
  shows "hits l e (fire e s) = hits l e s + (if l \<in> set (ls_of (table s) (kind e)) then 1 else 0)"
proof -
  have "length (filter (\<lambda>p. p = (l, e)) (map (\<lambda>x. (x, e)) xs)) = (if l \<in> set xs then 1 else 0)"
    if "distinct xs" for xs :: "listener list"
    using that by (induction xs) auto
  with assms show ?thesis
    by (simp add: hits_def laws ls_emit_eq ls_ok_def)
qed

lemma registered_is_called:
  assumes "ls_ok (table s)"
  shows "hits l e (fire e (add (kind e) l s)) = Suc (hits l e s)"
  using hits_fire [of "add (kind e) l s" l e] assms
  by (simp add: laws hits_def ls_ok_on)

lemma removed_is_not_called:
  assumes "ls_ok (table s)"
  shows "hits l e (fire e (rem (kind e) l s)) = hits l e s"
  using hits_fire [of "rem (kind e) l s" l e] assms
  by (simp add: laws hits_def ls_ok_off)

end

end
