(* ===== verification/JobScheduler.thy ===== *)
theory JobScheduler
  imports MemoryBackend Emitter
begin

text \<open>
  The job scheduler (\<open>scheduler/job-scheduler.ts\<close>) over any backend, with the
  emitter of \<open>scheduler/events.ts\<close>. Its lemmas are proved once from
  \<open>backend_contract\<close> and hold for the in-memory backend through its
  interpretation.
\<close>

section \<open>Events and state\<close>

record queue_depths =
  qd_high :: nat
  qd_normal :: nat
  qd_low :: nat
  qd_total :: nat

record scheduler_metrics =
  sm_timestamp :: int
  sm_queueDepth :: queue_depths
  sm_processing :: nat
  sm_deadLetter :: nat
  sm_completedLastMinute :: nat
  sm_failedLastMinute :: nat
  sm_avgProcessingTimeMs :: nat

datatype scheduler_event =
    Job_enqueued job
  | Job_started job
  | Job_completed job "json option"
  | Job_failed job js_error
  | Job_dead job
  | Metrics_snapshot scheduler_metrics

datatype scheduler_event_name =
    EN_enqueued | EN_started | EN_completed | EN_failed | EN_dead | EN_metrics

fun scheduler_event_kind :: "scheduler_event \<Rightarrow> scheduler_event_name" where
  "scheduler_event_kind (Job_enqueued _) = EN_enqueued"
| "scheduler_event_kind (Job_started _) = EN_started"
| "scheduler_event_kind (Job_completed _ _) = EN_completed"
| "scheduler_event_kind (Job_failed _ _) = EN_failed"
| "scheduler_event_kind (Job_dead _) = EN_dead"
| "scheduler_event_kind (Metrics_snapshot _) = EN_metrics"

record queue_stats =
  qs_queueDepth :: queue_depths
  qs_processing :: nat
  qs_deadLetter :: nat

text \<open>The configuration fields the scheduler reads.\<close>

record scheduler_config =
  sg_metricsIntervalMs :: "int option"
  sg_defaultVisibilityTimeout :: "int option"

record 'b job_scheduler =
  sc_backend :: 'b
  sc_config :: scheduler_config
  sc_paused :: bool
  sc_started :: bool
  sc_metricsInterval :: bool
  sc_listeners :: "scheduler_event_name listeners"
  sc_calls :: "(listener \<times> scheduler_event) list"

definition new_scheduler :: "'b \<Rightarrow> scheduler_config \<Rightarrow> 'b job_scheduler" where
  "new_scheduler b cfg =
     \<lparr> sc_backend = b,
       sc_config =
         \<lparr> sg_metricsIntervalMs = Some (default_to 60000 (sg_metricsIntervalMs cfg)),
           sg_defaultVisibilityTimeout = Some (default_to 30000 (sg_defaultVisibilityTimeout cfg)) \<rparr>,
       sc_paused = False, sc_started = False, sc_metricsInterval = False,
       sc_listeners = [], sc_calls = [] \<rparr>"

section \<open>Emitter\<close>

definition sc_on :: "scheduler_event_name \<Rightarrow> listener \<Rightarrow> 'b job_scheduler \<Rightarrow> 'b job_scheduler" where
  "sc_on k l s = s\<lparr> sc_listeners := ls_on k l (sc_listeners s) \<rparr>"

definition sc_off :: "scheduler_event_name \<Rightarrow> listener \<Rightarrow> 'b job_scheduler \<Rightarrow> 'b job_scheduler" where
  "sc_off k l s = s\<lparr> sc_listeners := ls_off k l (sc_listeners s) \<rparr>"

definition sc_emit :: "scheduler_event \<Rightarrow> 'b job_scheduler \<Rightarrow> 'b job_scheduler" where
  "sc_emit e s = s\<lparr> sc_calls := sc_calls s @ ls_emit (sc_listeners s) (scheduler_event_kind e) e \<rparr>"

definition removeAllListeners :: "'b job_scheduler \<Rightarrow> 'b job_scheduler" where
  "removeAllListeners s = s\<lparr> sc_listeners := [] \<rparr>"

interpretation sce: emitter sc_listeners sc_calls scheduler_event_kind sc_on sc_off sc_emit
  by unfold_locales (simp_all add: sc_on_def sc_off_def sc_emit_def)

lemma sc_emit_frame [simp]:
  "sc_backend (sc_emit e s) = sc_backend s" "sc_config (sc_emit e s) = sc_config s"
  "sc_paused (sc_emit e s) = sc_paused s" "sc_started (sc_emit e s) = sc_started s"
  "sc_metricsInterval (sc_emit e s) = sc_metricsInterval s" "sc_listeners (sc_emit e s) = sc_listeners s"
  by (simp_all add: sc_emit_def)

section \<open>Operations\<close>

text \<open>Awaiting a method of the backend.\<close>

definition on_backend :: "('b, 'a) js \<Rightarrow> ('b job_scheduler, 'a) js" where
  "on_backend m s = (case m (sc_backend s) of (r, b) \<Rightarrow> (r, s\<lparr> sc_backend := b \<rparr>))"

definition js_getQueueStats :: "'b queue_backend \<Rightarrow> int \<Rightarrow> ('b job_scheduler, queue_stats) js" where
  "js_getQueueStats B now =
     cbind (on_backend (b_getQueueDepth B (Some High))) (\<lambda>high.
     cbind (on_backend (b_getQueueDepth B (Some Normal))) (\<lambda>normal.
     cbind (on_backend (b_getQueueDepth B (Some Low))) (\<lambda>low.
     cbind (on_backend (b_getProcessingCount B)) (\<lambda>processing.
     cbind (on_backend (b_getDeadLetterJobs B now)) (\<lambda>deadLetterJobs.
     cret \<lparr> qs_queueDepth = \<lparr> qd_high = high, qd_normal = normal, qd_low = low, qd_total = high + normal + low \<rparr>,
            qs_processing = processing,
            qs_deadLetter = length deadLetterJobs \<rparr>)))))"

definition js_collectMetrics :: "'b queue_backend \<Rightarrow> int \<Rightarrow> ('b job_scheduler, scheduler_metrics) js" where
  "js_collectMetrics B now =
     cbind (js_getQueueStats B now) (\<lambda>stats.
     cret \<lparr> sm_timestamp = now, sm_queueDepth = qs_queueDepth stats, sm_processing = qs_processing stats,
            sm_deadLetter = qs_deadLetter stats, sm_completedLastMinute = 0, sm_failedLastMinute = 0,
            sm_avgProcessingTimeMs = 0 \<rparr>)"

definition js_startMetricsEmission :: "('b job_scheduler, unit) js" where
  "js_startMetricsEmission s =
     (if sc_metricsInterval s then (Inr (), s) else (Inr (), s\<lparr> sc_metricsInterval := True \<rparr>))"

definition js_stopMetricsEmission :: "('b job_scheduler, unit) js" where
  "js_stopMetricsEmission s =
     (if sc_metricsInterval s then (Inr (), s\<lparr> sc_metricsInterval := False \<rparr>) else (Inr (), s))"

text \<open>One tick of the metrics interval; errors of the collection are ignored.\<close>

definition js_metrics_tick :: "'b queue_backend \<Rightarrow> int \<Rightarrow> ('b job_scheduler, unit) js" where
  "js_metrics_tick B now =
     ctry (cbind (js_collectMetrics B now) (\<lambda>m. cmod (sc_emit (Metrics_snapshot m)))) (\<lambda>_. cret ())"

definition js_start :: "'b queue_backend \<Rightarrow> ('b job_scheduler, unit) js" where
  "js_start B s =
     (if sc_started s then (Inr (), s)
      else cbind (on_backend (b_connect B)) (\<lambda>_.
           cbind (cmod (\<lambda>t. t\<lparr> sc_started := True \<rparr>)) (\<lambda>_ t.
             case sg_metricsIntervalMs (sc_config t) of
               None \<Rightarrow> (Inr (), t)
             | Some ms \<Rightarrow> if ms > 0 then js_startMetricsEmission t else (Inr (), t))) s)"

definition js_stop :: "'b queue_backend \<Rightarrow> ('b job_scheduler, unit) js" where
  "js_stop B s =
     (if \<not> sc_started s then (Inr (), s)
      else cbind js_stopMetricsEmission (\<lambda>_.
           cbind (on_backend (b_disconnect B)) (\<lambda>_.
           cmod (\<lambda>t. t\<lparr> sc_started := False \<rparr>))) s)"

definition js_enqueue :: "'b queue_backend \<Rightarrow> int \<Rightarrow> string \<Rightarrow> job_create_input \<Rightarrow> ('b job_scheduler, string) js" where
  "js_enqueue B now uuid input =
     (let j = createJob now uuid input
      in cbind (on_backend (b_enqueue B now j)) (\<lambda>_.
         cbind (cmod (sc_emit (Job_enqueued j))) (\<lambda>_. cret (job_id j))))"

definition js_dequeue :: "'b queue_backend \<Rightarrow> int \<Rightarrow> job_priority option \<Rightarrow> ('b job_scheduler, job option) js" where
  "js_dequeue B now p =
     cbind (on_backend (b_dequeue B now p)) (\<lambda>r.
       case r of None \<Rightarrow> cret None
       | Some j \<Rightarrow> cbind (cmod (sc_emit (Job_started j))) (\<lambda>_. cret (Some j)))"

definition js_getJob :: "'b queue_backend \<Rightarrow> int \<Rightarrow> string \<Rightarrow> ('b job_scheduler, job option) js" where
  "js_getJob B now i = on_backend (b_getJob B now i)"

definition js_updateJob :: "'b queue_backend \<Rightarrow> int \<Rightarrow> string \<Rightarrow> job_update \<Rightarrow> ('b job_scheduler, unit) js" where
  "js_updateJob B now i u = on_backend (b_updateJob B now i u)"

definition js_pause :: "'b job_scheduler \<Rightarrow> 'b job_scheduler" where
  "js_pause s = s\<lparr> sc_paused := True \<rparr>"

definition js_resume :: "'b job_scheduler \<Rightarrow> 'b job_scheduler" where
  "js_resume s = s\<lparr> sc_paused := False \<rparr>"

definition js_getDeadLetterQueue :: "'b queue_backend \<Rightarrow> int \<Rightarrow> ('b job_scheduler, job list) js" where
  "js_getDeadLetterQueue B now = on_backend (b_getDeadLetterJobs B now)"

definition js_retryDeadLetter :: "'b queue_backend \<Rightarrow> int \<Rightarrow> string \<Rightarrow> ('b job_scheduler, unit) js" where
  "js_retryDeadLetter B now i = on_backend (b_retryDeadLetter B now i)"

definition js_healthCheck :: "'b queue_backend \<Rightarrow> ('b job_scheduler, health_check_result) js" where
  "js_healthCheck B = on_backend (b_healthCheck B)"

definition js_acknowledge :: "'b queue_backend \<Rightarrow> int \<Rightarrow> string \<Rightarrow> json option \<Rightarrow> ('b job_scheduler, unit) js" where
  "js_acknowledge B now jobId result =
     cbind (js_getJob B now jobId) (\<lambda>job.
       case job of
         None \<Rightarrow> cret ()
       | Some _ \<Rightarrow>
           cbind (on_backend (b_acknowledge B now jobId)) (\<lambda>_.
           cbind (case result of
                    None \<Rightarrow> cret ()
                  | Some r \<Rightarrow> on_backend (b_updateJob B now jobId (no_update\<lparr> up_result := Some (Some r) \<rparr>))) (\<lambda>_.
           cbind (js_getJob B now jobId) (\<lambda>updatedJob.
             case updatedJob of None \<Rightarrow> cret () | Some j \<Rightarrow> cmod (sc_emit (Job_completed j result))))))"

definition js_nack :: "'b queue_backend \<Rightarrow> int \<Rightarrow> string \<Rightarrow> js_error \<Rightarrow> ('b job_scheduler, unit) js" where
  "js_nack B now jobId err =
     cbind (js_getJob B now jobId) (\<lambda>job.
       case job of
         None \<Rightarrow> cret ()
       | Some _ \<Rightarrow>
           cbind (on_backend (b_nack B now jobId (error_message err))) (\<lambda>_.
           cbind (js_getJob B now jobId) (\<lambda>updatedJob.
             case updatedJob of
               None \<Rightarrow> cret ()
             | Some j \<Rightarrow>
                 if status j = Dead then cmod (sc_emit (Job_dead j)) else cmod (sc_emit (Job_failed j err)))))"

definition js_releaseTimedOutJobs :: "'b queue_backend \<Rightarrow> int \<Rightarrow> ('b job_scheduler, nat) js" where
  "js_releaseTimedOutJobs B now = on_backend (b_releaseTimedOutJobs B now)"

definition js_refreshVisibility ::
    "'b queue_backend \<Rightarrow> int \<Rightarrow> string \<Rightarrow> int option \<Rightarrow> ('b job_scheduler, unit) js" where
  "js_refreshVisibility B now jobId timeoutMs s =
     (let timeout = (case timeoutMs of Some t \<Rightarrow> t
                     | None \<Rightarrow> default_to 30000 (sg_defaultVisibilityTimeout (sc_config s)))
      in on_backend (b_refreshVisibility B now jobId timeout) s)"

lemmas scheduler_ops = js_getQueueStats_def js_collectMetrics_def js_metrics_tick_def js_start_def js_stop_def
  js_enqueue_def js_dequeue_def js_getJob_def js_updateJob_def js_acknowledge_def js_nack_def on_backend_def

section \<open>What the contract gives the scheduler\<close>

text \<open>The job an acknowledgement stores: completed, with the result if there is one.\<close>

definition with_result :: "json option \<Rightarrow> job \<Rightarrow> job" where
  "with_result r j = (case r of None \<Rightarrow> j | Some v \<Rightarrow> j\<lparr> job_result := Some v \<rparr>)"

lemma spread_result: "spread_job j (no_update\<lparr> up_result := Some (Some v) \<rparr>) = j\<lparr> job_result := Some v \<rparr>"
  by (simp add: spread_job_def no_update_def)

text \<open>Repeated negative acknowledgement of one job.\<close>

primrec nack_times :: "'b queue_backend \<Rightarrow> int \<Rightarrow> string \<Rightarrow> js_error \<Rightarrow> nat \<Rightarrow> 'b job_scheduler \<Rightarrow> 'b job_scheduler" where
  "nack_times B now i e 0 s = s"
| "nack_times B now i e (Suc n) s = snd (js_nack B now i e (nack_times B now i e n s))"

context backend_contract
begin

lemma js_acknowledge_stored:
  assumes "ok (sc_backend s)" and "view (sc_backend s) i = Some j"
  shows "\<exists>b'. js_acknowledge B now i r s
             = (Inr (), sc_emit (Job_completed (with_result r (completed_job now j)) r) (s\<lparr> sc_backend := b' \<rparr>))
           \<and> view b' = (view (sc_backend s))(i \<mapsto> with_result r (completed_job now j)) \<and> ok b'"
proof -
  obtain b1 where b1: "b_acknowledge B now i (sc_backend s) = (Inr (), b1)"
    "view b1 = (view (sc_backend s))(i \<mapsto> completed_job now j)" "ok b1"
    using acknowledge [OF assms] by blast
  show ?thesis
  proof (cases r)
    case None
    with assms b1 show ?thesis
      by (auto simp: scheduler_ops comp_simps getJob with_result_def)
  next
    case (Some v)
    obtain b2 where "b_updateJob B now i (no_update\<lparr> up_result := Some (Some v) \<rparr>) b1 = (Inr (), b2)"
      "view b2 = (view b1)(i \<mapsto> spread_job (completed_job now j) (no_update\<lparr> up_result := Some (Some v) \<rparr>))" "ok b2"
      using updateJob [OF b1(3), of i "completed_job now j" "no_update\<lparr> up_result := Some (Some v) \<rparr>" now] b1(2)
        storable_result [OF storable_completed [OF stored [OF assms]], of now v]
      by auto
    with Some assms b1 show ?thesis
      by (auto simp: scheduler_ops comp_simps getJob with_result_def spread_result)
  qed
qed

lemma js_acknowledge_unknown:
  assumes "ok (sc_backend s)" and "view (sc_backend s) i = None"
  shows "js_acknowledge B now i r s = (Inr (), s)"
  using assms by (simp add: scheduler_ops comp_simps getJob)

lemma js_nack_stored:
  assumes "ok (sc_backend s)" and "view (sc_backend s) i = Some j" and "j' = nacked_job now (error_message e) j"
    and "storable j'"
  shows "\<exists>b'. js_nack B now i e s
             = (Inr (), sc_emit (if job_maxAttempts j \<le> Suc (job_attempts j) then Job_dead j' else Job_failed j' e)
                          (s\<lparr> sc_backend := b' \<rparr>))
           \<and> view b' = (view (sc_backend s))(i \<mapsto> j') \<and> ok b'"
proof -
  obtain b1 where "b_nack B now i (error_message e) (sc_backend s) = (Inr (), b1)"
    "view b1 = (view (sc_backend s))(i \<mapsto> j')" "ok b1"
    using nack [OF assms(1,2)] assms(3,4) by auto
  with assms show ?thesis by (auto simp: scheduler_ops comp_simps getJob)
qed

lemma nack_times_attempts:
  assumes "ok (sc_backend s)" and "view (sc_backend s) i = Some j"
    and keeps: "\<And>j. storable j \<Longrightarrow> storable (nacked_job now (error_message e) j)"
  shows "ok (sc_backend (nack_times B now i e n s)) \<and>
     (\<exists>j'. view (sc_backend (nack_times B now i e n s)) i = Some j' \<and> job_attempts j' = job_attempts j + n
        \<and> job_maxAttempts j' = job_maxAttempts j
        \<and> (0 < n \<longrightarrow> status j' = (if job_attempts j + n < job_maxAttempts j then Pending else Dead)))"
proof (induction n)
  case 0
  with assms show ?case by simp
next
  case (Suc n)
  let ?s = "nack_times B now i e n s"
  from Suc obtain j1 where okn: "ok (sc_backend ?s)" and j1: "view (sc_backend ?s) i = Some j1"
    "job_attempts j1 = job_attempts j + n" "job_maxAttempts j1 = job_maxAttempts j" by blast
  from js_nack_stored [OF okn j1(1) refl keeps [OF stored [OF okn j1(1)]]] obtain b' where
    "snd (js_nack B now i e ?s) = sc_emit (if job_maxAttempts j1 \<le> Suc (job_attempts j1)
         then Job_dead (nacked_job now (error_message e) j1) else Job_failed (nacked_job now (error_message e) j1) e)
       (?s\<lparr> sc_backend := b' \<rparr>)"
    "view b' i = Some (nacked_job now (error_message e) j1)" "ok b'"
    by fastforce
  with j1 show ?case by auto
qed

lemma js_dequeue_emits:
  assumes "ok (sc_backend s)"
  shows "\<exists>r b'. ok b' \<and> js_dequeue B now p s = (Inr r, case r of None \<Rightarrow> s\<lparr> sc_backend := b' \<rparr>
              | Some j \<Rightarrow> sc_emit (Job_started j) (s\<lparr> sc_backend := b' \<rparr>))
       \<and> (case r of None \<Rightarrow> view b' = view (sc_backend s)
          | Some j \<Rightarrow> \<exists>i j0. view (sc_backend s) i = Some j0 \<and> j = started_job now j0 \<and> view b' i = Some j)"
proof -
  obtain r b' where "b_dequeue B now p (sc_backend s) = (Inr r, b')" "ok b'"
    "case r of None \<Rightarrow> view b' = view (sc_backend s)
     | Some j \<Rightarrow> \<exists>i j0. view (sc_backend s) i = Some j0 \<and> j = started_job now j0 \<and> view b' = (view (sc_backend s))(i \<mapsto> j)"
    using dequeue [OF assms] by blast
  then show ?thesis
    by (intro exI [of _ r] exI [of _ b']) (auto simp: scheduler_ops comp_simps split: option.splits)
qed

end

section \<open>The scheduler on the in-memory backend\<close>

definition sample_scheduler :: "memory_backend job_scheduler" where
  "sample_scheduler =
     new_scheduler sample_backend \<lparr> sg_metricsIntervalMs = None, sg_defaultVisibilityTimeout = None \<rparr>"

lemma sample_scheduler_job: "mb_view (sc_backend sample_scheduler) ''b'' = Some (sample_job ''b'' High)"
  by (simp add: sample_scheduler_def new_scheduler_def sample_backend_facts)

text \<open>
  C6. A failing job is retried and then buried: after \<open>n\<close> negative acknowledgements
  of a stored job that still had attempts left, its attempt count has grown by
  \<open>n\<close>, and it is pending again as long as the count is below its maximum and dead
  from then on. So a job whose every execution fails is executed exactly
  \<open>maxAttempts\<close> times.
\<close>

theorem scheduler_nack_until_dead:
  assumes "mb_view (sc_backend s) i = Some j" and "0 < n"
  shows "\<exists>j'. mb_view (sc_backend (nack_times memory_ops now i e n s)) i = Some j'
       \<and> job_attempts j' = job_attempts j + n
       \<and> status j' = (if job_attempts j + n < job_maxAttempts j then Pending else Dead)"
  using mb.nack_times_attempts [of s i j now e n] assms by auto

theorem scheduler_nack_until_dead_witness:
  "(\<exists>j'. mb_view (sc_backend (nack_times memory_ops 7 ''b'' (Plain_error ''x'') 2 sample_scheduler)) ''b'' = Some j'
      \<and> status j' = Pending)
   \<and> (\<exists>j'. mb_view (sc_backend (nack_times memory_ops 7 ''b'' (Plain_error ''x'') 3 sample_scheduler)) ''b'' = Some j'
      \<and> status j' = Dead)"
  using scheduler_nack_until_dead [OF sample_scheduler_job, of 2 7 "Plain_error ''x''"]
    scheduler_nack_until_dead [OF sample_scheduler_job, of 3 7 "Plain_error ''x''"]
  by (auto simp: sample_job_def)

text \<open>
  Acknowledging a stored job never throws, stores it as completed with the given
  result, leaves every other job alone and emits \<open>job:completed\<close> once with the
  stored job and the result.
\<close>

lemma scheduler_acknowledge_stored:
  assumes "mb_view (sc_backend s) i = Some j"
  shows "\<exists>b'. js_acknowledge memory_ops now i r s
             = (Inr (), sc_emit (Job_completed (with_result r (completed_job now j)) r) (s\<lparr> sc_backend := b' \<rparr>))
           \<and> mb_view b' = (mb_view (sc_backend s))(i \<mapsto> with_result r (completed_job now j))"
  using mb.js_acknowledge_stored [of s i j now r] assms by simp

text \<open>
  A listener of the scheduler: once registered for an event it is called exactly
  once each time the event is emitted, and after \<open>off\<close> it is not called.
\<close>

lemma scheduler_listener_called_once:
  assumes "ls_ok (sc_listeners s)"
  shows "sce.hits l e (sc_emit e (sc_on (scheduler_event_kind e) l s)) = Suc (sce.hits l e s)
       \<and> sce.hits l e (sc_emit e (sc_off (scheduler_event_kind e) l s)) = sce.hits l e s"
  using sce.registered_is_called [OF assms] sce.removed_is_not_called [OF assms] by simp

end
