(* ===== verification/JobProcessor.thy ===== *)
theory JobProcessor
  imports JobScheduler
begin

text \<open>
  The job processor (\<open>scheduler/job-processor.ts\<close>). Executing one job is a
  computation on the scheduler. Polling is a state machine whose steps are the turns
  of the event loop: a poll timer fires, an awaited \<open>dequeue\<close> returns, a job
  settles, \<open>start\<close> or \<open>stop\<close> is called; between two steps anything else may happen.
\<close>

section \<open>Executing a job\<close>

text \<open>
  The handler is a parameter: it returns a result or throws. An error thrown by
  \<open>acknowledge\<close> is caught by the same \<open>catch\<close> as an error of the handler.
\<close>

definition jp_handleJobError :: "'b queue_backend \<Rightarrow> int \<Rightarrow> job \<Rightarrow> js_error \<Rightarrow> ('b job_scheduler, unit) js" where
  "jp_handleJobError B now j err =
     cbind (js_nack B now (job_id j) err) (\<lambda>_.
     cbind (js_getJob B now (job_id j)) (\<lambda>_. cret ()))"

text \<open>One tick of the visibility check; its errors are ignored.\<close>

definition jp_visibility_tick :: "'b queue_backend \<Rightarrow> int \<Rightarrow> ('b job_scheduler, unit) js" where
  "jp_visibility_tick B now =
     ctry (cbind (js_releaseTimedOutJobs B now) (\<lambda>_. cret ())) (\<lambda>_. cret ())"

definition jp_executeJob ::
    "'b queue_backend \<Rightarrow> int \<Rightarrow> (job \<Rightarrow> js_error + json option) \<Rightarrow> job \<Rightarrow> ('b job_scheduler, unit) js" where
  "jp_executeJob B now handler j =
     ctry (cbind (\<lambda>s. (handler j, s)) (\<lambda>result. js_acknowledge B now (job_id j) result))
       (\<lambda>err. jp_handleJobError B now j err)"

section \<open>Polling\<close>

record processor =
  jp_maxConcurrent :: nat
  jp_running :: bool
  jp_pollTimeout :: "nat option"
  jp_live :: "nat list"
  jp_next :: nat
  jp_inflight :: nat
  jp_activeJobs :: "string list"
  jp_executing :: "string list"
  jp_visibility :: bool

text \<open>
  \<open>jp_live\<close> are the armed poll timers, \<open>jp_pollTimeout\<close> the handle the class
  remembers, \<open>jp_inflight\<close> the polls awaiting \<open>dequeue\<close>, \<open>jp_activeJobs\<close> the
  keys of the map of active jobs, \<open>jp_executing\<close> the executions that have not settled,
  one element for each.
\<close>

definition jp_new :: "nat option \<Rightarrow> processor" where
  "jp_new maxConcurrent =
     \<lparr> jp_maxConcurrent = default_to 1 maxConcurrent, jp_running = False, jp_pollTimeout = None,
       jp_live = [], jp_next = 0, jp_inflight = 0, jp_activeJobs = [], jp_executing = [],
       jp_visibility = False \<rparr>"

definition jp_scheduleNextPoll :: "processor \<Rightarrow> processor" where
  "jp_scheduleNextPoll p =
     (if \<not> jp_running p then p
      else p\<lparr> jp_pollTimeout := Some (jp_next p), jp_live := jp_live p @ [jp_next p], jp_next := jp_next p + 1 \<rparr>)"

definition jp_startVisibilityCheck :: "processor \<Rightarrow> processor" where
  "jp_startVisibilityCheck p = (if jp_visibility p then p else p\<lparr> jp_visibility := True \<rparr>)"

definition jp_start :: "processor \<Rightarrow> processor" where
  "jp_start p =
     (if jp_running p then p
      else jp_startVisibilityCheck (jp_scheduleNextPoll (p\<lparr> jp_running := True \<rparr>)))"

definition jp_stop :: "processor \<Rightarrow> processor" where
  "jp_stop p =
     (let p1 = p\<lparr> jp_running := False \<rparr>;
          p2 = (case jp_pollTimeout p1 of
                  None \<Rightarrow> p1
                | Some t \<Rightarrow> p1\<lparr> jp_live := removeAll t (jp_live p1), jp_pollTimeout := None \<rparr>)
      in if jp_visibility p2 then p2\<lparr> jp_visibility := False \<rparr> else p2)"

text \<open>
  \<open>poll\<close> up to its \<open>await\<close>: whether it goes on to call \<open>dequeue\<close>.
\<close>

definition jp_poll_begin :: "bool \<Rightarrow> processor \<Rightarrow> bool \<times> processor" where
  "jp_poll_begin paused p =
     (if \<not> jp_running p then (False, p)
      else if paused then (False, p)
      else if length (jp_activeJobs p) \<ge> jp_maxConcurrent p then (False, p)
      else (True, p\<lparr> jp_inflight := jp_inflight p + 1 \<rparr>))"

definition jp_processJob :: "string \<Rightarrow> processor \<Rightarrow> processor" where
  "jp_processJob i p = p\<lparr> jp_executing := jp_executing p @ [i], jp_activeJobs := sadd i (jp_activeJobs p) \<rparr>"

text \<open>The timer's callback: run \<open>poll\<close>, and once it has returned schedule the next one.\<close>

definition jp_fire :: "nat \<Rightarrow> bool \<Rightarrow> processor \<Rightarrow> processor" where
  "jp_fire t paused p =
     (case jp_poll_begin paused (p\<lparr> jp_live := removeAll t (jp_live p) \<rparr>) of
        (True, p') \<Rightarrow> p'
      | (False, p') \<Rightarrow> jp_scheduleNextPoll p')"

text \<open>
  The awaited \<open>dequeue\<close> of a poll returns a job, nothing, or throws (which is
  ignored): the rest of \<open>poll\<close> and of the timer's callback.
\<close>

definition jp_dequeued :: "string option \<Rightarrow> processor \<Rightarrow> processor" where
  "jp_dequeued r p =
     (let p1 = p\<lparr> jp_inflight := jp_inflight p - 1 \<rparr>
      in jp_scheduleNextPoll (case r of None \<Rightarrow> p1 | Some i \<Rightarrow> jp_processJob i p1))"

text \<open>An execution ends: its \<open>finally\<close> deletes the job's id from the map.\<close>

definition jp_settled :: "string \<Rightarrow> processor \<Rightarrow> processor" where
  "jp_settled i p = p\<lparr> jp_executing := remove1 i (jp_executing p), jp_activeJobs := removeAll i (jp_activeJobs p) \<rparr>"

definition jp_isRunning :: "processor \<Rightarrow> bool" where
  "jp_isRunning p = jp_running p"

definition jp_getActiveCount :: "processor \<Rightarrow> nat" where
  "jp_getActiveCount p = length (jp_activeJobs p)"

lemmas processor_ops = jp_start_def jp_stop_def jp_fire_def jp_dequeued_def jp_settled_def jp_poll_begin_def
  jp_processJob_def jp_scheduleNextPoll_def jp_startVisibilityCheck_def

text \<open>
  The steps. The flags say whether \<open>start\<close> may be called while a poll is still
  awaiting its \<open>dequeue\<close>, and whether \<open>dequeue\<close> may return a job that is still being
  executed (which the backend does once the job's visibility timeout has passed).
\<close>

inductive jp_step :: "bool \<Rightarrow> bool \<Rightarrow> processor \<Rightarrow> processor \<Rightarrow> bool" for restart redeliver :: bool where
  start: "restart \<or> jp_inflight p = 0 \<Longrightarrow> jp_step restart redeliver p (jp_start p)"
| stop: "jp_step restart redeliver p (jp_stop p)"
| fire: "t \<in> set (jp_live p) \<Longrightarrow> jp_step restart redeliver p (jp_fire t paused p)"
| dequeued: "0 < jp_inflight p \<Longrightarrow> redeliver \<or> (\<forall>i. r = Some i \<longrightarrow> i \<notin> set (jp_executing p)) \<Longrightarrow>
    jp_step restart redeliver p (jp_dequeued r p)"
| settled: "i \<in> set (jp_executing p) \<Longrightarrow> jp_step restart redeliver p (jp_settled i p)"

inductive jp_reachable :: "bool \<Rightarrow> bool \<Rightarrow> nat option \<Rightarrow> processor \<Rightarrow> bool"
  for restart redeliver :: bool and m :: "nat option" where
  init: "jp_reachable restart redeliver m (jp_new m)"
| step: "jp_reachable restart redeliver m p \<Longrightarrow> jp_step restart redeliver p p' \<Longrightarrow> jp_reachable restart redeliver m p'"

text \<open>
  One poll chain: a running processor has exactly one armed timer or one poll in
  flight, and a poll in flight holds back one slot of the concurrency limit.
\<close>

definition jp_inv :: "nat option \<Rightarrow> processor \<Rightarrow> bool" where
  "jp_inv m p \<longleftrightarrow>
     jp_maxConcurrent p = default_to 1 m \<and>
     length (jp_activeJobs p) + jp_inflight p \<le> jp_maxConcurrent p \<and>
     length (jp_live p) + jp_inflight p \<le> 1 \<and>
     (jp_running p \<longrightarrow> length (jp_live p) + jp_inflight p = 1) \<and>
     (\<not> jp_running p \<longrightarrow> jp_live p = []) \<and>
     (\<forall>t \<in> set (jp_live p). jp_pollTimeout p = Some t)"

definition jp_tracked :: "processor \<Rightarrow> bool" where
  "jp_tracked p \<longleftrightarrow> distinct (jp_executing p) \<and> jp_activeJobs p = jp_executing p"

lemma length_sadd: "length (sadd x xs) \<le> Suc (length xs)"
  by (simp add: sadd_def)

lemma length_removeAll_le: "length (removeAll x xs) \<le> length xs"
  by (simp add: removeAll_filter_not_eq)

lemma jp_step_inv: "jp_step False redeliver p p' \<Longrightarrow> jp_inv m p \<Longrightarrow> jp_inv m p'"
proof (induction rule: jp_step.induct)
  case (start p)
  then show ?case by (auto simp: jp_inv_def processor_ops)
next
  case (stop p)
  then show ?case by (cases "jp_live p") (auto simp: jp_inv_def processor_ops Let_def split: option.splits)
next
  case (fire t p paused)
  then have "jp_live p = [t]" by (cases "jp_live p") (auto simp: jp_inv_def)
  with fire show ?case by (auto simp: jp_inv_def processor_ops)
next
  case (dequeued p r)
  then have one: "jp_inflight p = 1" "jp_live p = []"
    by (cases "jp_live p"; simp add: jp_inv_def; linarith)+
  have room: "length (sadd i (jp_activeJobs p)) \<le> jp_maxConcurrent p" for i
    using dequeued length_sadd [of i "jp_activeJobs p"] one by (simp add: jp_inv_def)
  with dequeued one show ?case
    by (cases r) (auto simp: jp_inv_def processor_ops Let_def)
next
  case (settled i p)
  then have "length (removeAll i (jp_activeJobs p)) + jp_inflight p \<le> jp_maxConcurrent p"
    by (meson add_right_mono jp_inv_def le_trans length_removeAll_le)
  with settled show ?case by (auto simp: jp_inv_def processor_ops)
qed

lemma jp_new_inv: "jp_inv m (jp_new m)"
  by (simp add: jp_inv_def jp_new_def)

lemma jp_reachable_inv: "jp_reachable False redeliver m p \<Longrightarrow> jp_inv m p"
  by (induction rule: jp_reachable.induct) (auto intro: jp_step_inv jp_new_inv)

text \<open>Without redelivery the map's keys are exactly the executions.\<close>

lemma jp_step_tracked: "jp_step restart False p p' \<Longrightarrow> jp_tracked p \<Longrightarrow> jp_tracked p'"
proof (induction rule: jp_step.induct)
  case (dequeued p r)
  then show ?case by (cases r) (auto simp: jp_tracked_def processor_ops Let_def sadd_new)
next
  case (settled i p)
  then show ?case by (auto simp: jp_tracked_def processor_ops distinct_remove1_removeAll)
qed (auto simp: jp_tracked_def processor_ops Let_def split: option.split)

lemma jp_reachable_tracked: "jp_reachable restart False m p \<Longrightarrow> jp_tracked p"
proof (induction rule: jp_reachable.induct)
  case init
  show ?case by (simp add: jp_tracked_def jp_new_def)
qed (rule jp_step_tracked)

text \<open>
  C7. Whatever the interleaving of timers, dequeues, finishing jobs and stops, as
  long as \<open>start\<close> is not called while a poll is in flight and no job is handed out
  while it is still executing, the processor never executes more than \<open>maxConcurrent\<close>
  jobs at once, \<open>getActiveCount\<close> is the number of executions, and while it runs there
  is exactly one poll armed or in flight, so polling neither stops nor multiplies.
\<close>

theorem processor_concurrency:
  assumes "jp_reachable False False m p"
  shows "length (jp_executing p) \<le> default_to 1 m \<and> jp_getActiveCount p = length (jp_executing p)
       \<and> (jp_running p \<longrightarrow> length (jp_live p) + jp_inflight p = 1)"
  using jp_reachable_inv [OF assms] jp_reachable_tracked [OF assms]
  by (simp add: jp_inv_def jp_tracked_def jp_getActiveCount_def)

lemma jp_reachable_runs:
  assumes "jp_reachable restart redeliver m p"
  shows "restart \<or> jp_inflight p = 0 \<Longrightarrow> jp_reachable restart redeliver m (jp_start p)"
    and "jp_reachable restart redeliver m (jp_stop p)"
    and "t \<in> set (jp_live p) \<Longrightarrow> jp_reachable restart redeliver m (jp_fire t paused p)"
    and "0 < jp_inflight p \<Longrightarrow> redeliver \<or> (\<forall>i. r = Some i \<longrightarrow> i \<notin> set (jp_executing p)) \<Longrightarrow>
          jp_reachable restart redeliver m (jp_dequeued r p)"
  using assms by (blast intro: jp_reachable.step jp_step.intros)+

definition one_job_run :: processor where
  "one_job_run = jp_dequeued (Some ''a'') (jp_fire 0 False (jp_start (jp_new None)))"

theorem processor_concurrency_witness:
  "jp_reachable False False None one_job_run \<and> jp_executing one_job_run = [''a''] \<and> length (jp_executing one_job_run) \<le> 1"
proof -
  have "jp_reachable False False None one_job_run"
    unfolding one_job_run_def
    by (intro jp_reachable_runs jp_reachable.init) (simp_all add: jp_new_def processor_ops)
  with processor_concurrency [OF this] show ?thesis
    by (simp add: one_job_run_def jp_new_def processor_ops sadd_def)
qed

text \<open>
  Two ways past the limit. If \<open>stop\<close> and \<open>start\<close> are called while a poll
  awaits its \<open>dequeue\<close>, that poll starts a second chain of polls when it returns,
  and with a limit of one job two are executed at once. If a job is handed out again
  while it is still executing, the map counts it once, and with a limit of two jobs
  three are executed at once.
\<close>

lemma processor_limit_exceeded:
  "(\<exists>p. jp_reachable True False None p \<and> jp_maxConcurrent p = 1 \<and> length (jp_executing p) = 2)
   \<and> (\<exists>p. jp_reachable False True (Some 2) p \<and> jp_maxConcurrent p = 2 \<and> length (jp_executing p) = 3)"
proof
  let ?p1 = "jp_start (jp_stop (jp_fire 0 False (jp_start (jp_new None))))"
  let ?p2 = "jp_dequeued None ?p1"
  let ?p3 = "jp_fire 2 False (jp_fire 1 False ?p2)"
  let ?p4 = "jp_dequeued (Some ''b'') (jp_dequeued (Some ''a'') ?p3)"
  have "jp_reachable True False None ?p4"
    by (intro jp_reachable_runs jp_reachable.init) (simp_all add: jp_new_def processor_ops Let_def sadd_def)
  moreover have "jp_executing ?p4 = [''a'', ''b'']" "jp_maxConcurrent ?p4 = 1"
    by (simp_all add: jp_new_def processor_ops Let_def sadd_def)
  ultimately show "\<exists>p. jp_reachable True False None p \<and> jp_maxConcurrent p = 1 \<and> length (jp_executing p) = 2"
    by (intro exI [of _ ?p4]) simp
next
  let ?q1 = "jp_dequeued (Some ''a'') (jp_fire 0 False (jp_start (jp_new (Some 2))))"
  let ?q2 = "jp_dequeued (Some ''a'') (jp_fire 1 False ?q1)"
  let ?q3 = "jp_dequeued (Some ''b'') (jp_fire 2 False ?q2)"
  have "jp_reachable False True (Some 2) ?q3"
    by (intro jp_reachable_runs jp_reachable.init) (simp_all add: jp_new_def processor_ops Let_def sadd_def)
  moreover have "jp_executing ?q3 = [''a'', ''a'', ''b'']" "jp_maxConcurrent ?q3 = 2"
    by (simp_all add: jp_new_def processor_ops Let_def sadd_def)
  ultimately show "\<exists>p. jp_reachable False True (Some 2) p \<and> jp_maxConcurrent p = 2 \<and> length (jp_executing p) = 3"
    by (intro exI [of _ ?q3]) simp
qed

section \<open>Executing a job on the in-memory backend\<close>

text \<open>
  Executing a stored job never throws: if the handler returns, the job ends up
  completed with the handler's result; if it throws, the job's attempt count grows by
  one and it is pending or, at its maximum, dead, with the error's message recorded.
\<close>

lemma processor_execute_job:
  assumes "mb_view (sc_backend s) (job_id j) = Some j0"
  shows "\<exists>s'. jp_executeJob memory_ops now handler j s = (Inr (), s') \<and>
     mb_view (sc_backend s') (job_id j) = Some
       (case handler j of
          Inr r \<Rightarrow> with_result r (completed_job now j0)
        | Inl e \<Rightarrow> nacked_job now (error_message e) j0)"
proof (cases "handler j")
  case (Inl e)
  obtain b' where "js_nack memory_ops now (job_id j) e s
      = (Inr (), sc_emit (if job_maxAttempts j0 \<le> Suc (job_attempts j0)
           then Job_dead (nacked_job now (error_message e) j0)
           else Job_failed (nacked_job now (error_message e) j0) e) (s\<lparr> sc_backend := b' \<rparr>))"
    and "mb_view b' (job_id j) = Some (nacked_job now (error_message e) j0)"
    using mb.js_nack_stored [OF TrueI assms refl, of now e] by (auto simp: fun_upd_def)
  with Inl show ?thesis
    by (simp add: jp_executeJob_def jp_handleJobError_def comp_simps js_getJob_def on_backend_def
          memory_ops_def mb_getJob_def)
next
  case (Inr r)
  obtain b' where "js_acknowledge memory_ops now (job_id j) r s
      = (Inr (), sc_emit (Job_completed (with_result r (completed_job now j0)) r) (s\<lparr> sc_backend := b' \<rparr>))"
    and "mb_view b' (job_id j) = Some (with_result r (completed_job now j0))"
    using mb.js_acknowledge_stored [OF TrueI assms, of now r] by (auto simp: fun_upd_def)
  with Inr show ?thesis by (simp add: jp_executeJob_def comp_simps)
qed

end
