(* ===== verification/RedisBackend.thy ===== *)
theory RedisBackend
  imports JobScheduler
begin

text \<open>
  The Redis queue backend (\<open>scheduler/backends/redis-backend.ts\<close>): jobs as hashes,
  priority queues, processing jobs and dead letters as sorted sets. The Redis client is
  a parameter; what is relied on of its commands is \<open>zredis_laws\<close>. Scores are integers
  of milliseconds. In a hash, a text made by \<open>JSON.stringify\<close> is represented by its value.
\<close>

section \<open>Keys and scores\<close>

definition JOB :: string where "JOB = ''scheduler:job:''"
definition QUEUE_HIGH :: string where "QUEUE_HIGH = ''scheduler:queue:high''"
definition QUEUE_NORMAL :: string where "QUEUE_NORMAL = ''scheduler:queue:normal''"
definition QUEUE_LOW :: string where "QUEUE_LOW = ''scheduler:queue:low''"
definition PROCESSING :: string where "PROCESSING = ''scheduler:processing''"
definition DLQ :: string where "DLQ = ''scheduler:dlq''"

definition PRIORITY_OFFSETS :: "job_priority \<Rightarrow> int" where
  "PRIORITY_OFFSETS p = (case p of High \<Rightarrow> 0 | Normal \<Rightarrow> 1000000000000 | Low \<Rightarrow> 2000000000000)"

definition getQueueKey :: "job_priority \<Rightarrow> string" where
  "getQueueKey p = (case p of High \<Rightarrow> QUEUE_HIGH | Normal \<Rightarrow> QUEUE_NORMAL | Low \<Rightarrow> QUEUE_LOW)"

definition calculateScore :: "int \<Rightarrow> job_priority \<Rightarrow> int" where
  "calculateScore now p = PRIORITY_OFFSETS p + now"

definition jobKey :: "string \<Rightarrow> string" where
  "jobKey i = JOB @ i"

section \<open>Jobs as hashes\<close>

datatype htext = Hraw string | Hjson json

text \<open>A hash as an object to write or read, and what its fields hold.\<close>

type_synonym hash = "(string, htext) jmap"

type_synonym hash_data = "string \<rightharpoonup> htext"

definition type_name :: "job_type \<Rightarrow> string" where
  "type_name t = (case t of Agent_job \<Rightarrow> ''agent'' | Human_job \<Rightarrow> ''human'' | Integration_job \<Rightarrow> ''integration'')"

definition status_name :: "job_status \<Rightarrow> string" where
  "status_name s =
     (case s of Pending \<Rightarrow> ''pending'' | Processing \<Rightarrow> ''processing'' | Completed \<Rightarrow> ''completed''
      | Failed \<Rightarrow> ''failed'' | Dead \<Rightarrow> ''dead'')"

definition priority_name :: "job_priority \<Rightarrow> string" where
  "priority_name p = (case p of High \<Rightarrow> ''high'' | Normal \<Rightarrow> ''normal'' | Low \<Rightarrow> ''low'')"

text \<open>The value of an enumeration with a given name.\<close>

definition named :: "('a \<Rightarrow> string) \<Rightarrow> 'a list \<Rightarrow> string \<Rightarrow> 'a option" where
  "named name_of xs s = find (\<lambda>x. name_of x = s) xs"

text \<open>\<open>parseInt(s, 10)\<close>: an optional sign and the leading digits; \<open>None\<close> is \<open>NaN\<close>.\<close>

definition parseInt :: "string \<Rightarrow> int option" where
  "parseInt s =
     (let neg = (s \<noteq> [] \<and> hd s = CHR ''-''); body = (if neg then tl s else s); ds = takeWhile is_digit body
      in if ds = [] then None else Some (if neg then - int (read_nat ds) else int (read_nat ds)))"

definition parseNat :: "string \<Rightarrow> nat option" where
  "parseNat s = (case parseInt s of None \<Rightarrow> None | Some n \<Rightarrow> if 0 \<le> n then Some (nat n) else None)"

definition jobToHash :: "job \<Rightarrow> hash" where
  "jobToHash j =
     [(''id'', Hraw (job_id j)), (''workflowId'', Hraw (workflowId j)), (''stepId'', Hraw (stepId j)),
      (''type'', Hraw (type_name (job_type j))), (''status'', Hraw (status_name (status j))),
      (''priority'', Hraw (priority_name (job_priority j))),
      (''attempts'', Hraw (show_nat (job_attempts j))), (''maxAttempts'', Hraw (show_nat (job_maxAttempts j))),
      (''payload'', Hjson (job_payload j)),
      (''result'', (case job_result j of Some v \<Rightarrow> Hjson v | None \<Rightarrow> Hraw [])),
      (''error'', Hraw (default_to [] (job_error j))), (''createdAt'', Hraw (createdAt j)),
      (''startedAt'', Hraw (default_to [] (startedAt j))), (''completedAt'', Hraw (default_to [] (completedAt j))),
      (''visibilityTimeout'', Hraw (show_int (visibilityTimeout j))),
      (''visibleAt'', (case visibleAt j of Some n \<Rightarrow> Hraw (show_int n) | None \<Rightarrow> Hraw []))]"

text \<open>
  Reading a hash. A plain field is \<open>data.f ?? d\<close>, an optional one \<open>data.f || undefined\<close>.
  The code casts the texts of enumerations and numbers without a check; \<open>hashToJob\<close> is
  \<open>None\<close> where a text is not one that \<open>jobToHash\<close> can write there.
\<close>

definition plain :: "hash_data \<Rightarrow> string \<Rightarrow> string \<Rightarrow> string option" where
  "plain h f d = (case h f of None \<Rightarrow> Some d | Some (Hraw s) \<Rightarrow> Some s | Some (Hjson _) \<Rightarrow> None)"

definition optional :: "hash_data \<Rightarrow> string \<Rightarrow> string option option" where
  "optional h f =
     (case h f of None \<Rightarrow> Some None | Some (Hraw s) \<Rightarrow> Some (if s = [] then None else Some s) | Some (Hjson _) \<Rightarrow> None)"

definition json_field :: "hash_data \<Rightarrow> string \<Rightarrow> json option option" where
  "json_field h f =
     (case h f of None \<Rightarrow> Some None | Some (Hjson v) \<Rightarrow> Some (Some v)
      | Some (Hraw s) \<Rightarrow> if s = [] then Some None else None)"

definition hashToJob :: "int \<Rightarrow> hash_data \<Rightarrow> job option" where
  "hashToJob now h =
     Option.bind (plain h ''id'' []) (\<lambda>i.
     Option.bind (plain h ''workflowId'' []) (\<lambda>w.
     Option.bind (plain h ''stepId'' []) (\<lambda>st.
     Option.bind (Option.bind (plain h ''type'' ''agent'') (named type_name [Agent_job, Human_job, Integration_job])) (\<lambda>ty.
     Option.bind (Option.bind (plain h ''status'' ''pending'')
        (named status_name [Pending, Processing, Completed, Failed, Dead])) (\<lambda>sta.
     Option.bind (Option.bind (plain h ''priority'' ''normal'') (named priority_name [High, Normal, Low])) (\<lambda>pr.
     Option.bind (Option.bind (plain h ''attempts'' ''0'') parseNat) (\<lambda>att.
     Option.bind (Option.bind (plain h ''maxAttempts'' ''3'') parseNat) (\<lambda>mx.
     Option.bind (json_field h ''payload'') (\<lambda>pay.
     Option.bind (json_field h ''result'') (\<lambda>res.
     Option.bind (optional h ''error'') (\<lambda>err.
     Option.bind (plain h ''createdAt'' (toISOString now)) (\<lambda>cr.
     Option.bind (optional h ''startedAt'') (\<lambda>sa.
     Option.bind (optional h ''completedAt'') (\<lambda>ca.
     Option.bind (Option.bind (plain h ''visibilityTimeout'' ''30000'') parseInt) (\<lambda>vt.
     Option.bind (case optional h ''visibleAt'' of
                    None \<Rightarrow> None | Some None \<Rightarrow> Some None | Some (Some s) \<Rightarrow> map_option Some (parseInt s)) (\<lambda>va.
     Some \<lparr> job_id = i, workflowId = w, stepId = st, job_type = ty, status = sta, job_priority = pr,
            job_attempts = att, job_maxAttempts = mx, job_payload = default_to JNull pay, job_result = res,
            job_error = err, createdAt = cr, startedAt = sa, completedAt = ca, visibilityTimeout = vt,
            visibleAt = va \<rparr>))))))))))))))))"

section \<open>The client\<close>

record 'r zredis =
  z_connect :: "('r, unit) js"
  z_quit :: "('r, unit) js"
  z_ping :: "('r, unit) js"
  z_hset :: "string \<Rightarrow> hash \<Rightarrow> ('r, unit) js"
  z_hgetall :: "string \<Rightarrow> ('r, hash) js"
  z_zadd :: "string \<Rightarrow> int \<Rightarrow> string \<Rightarrow> ('r, unit) js"
  z_zpopmin :: "string \<Rightarrow> ('r, (string \<times> int) option) js"
  z_zrem :: "string \<Rightarrow> string \<Rightarrow> ('r, unit) js"
  z_zcard :: "string \<Rightarrow> ('r, nat) js"
  z_zrange :: "string \<Rightarrow> ('r, string list) js"
  z_zrank :: "string \<Rightarrow> string \<Rightarrow> ('r, nat option) js"
  z_zrangebyscore :: "string \<Rightarrow> int \<Rightarrow> int \<Rightarrow> ('r, string list) js"

text \<open>
  Documented behaviour, in terms of what is readable: \<open>hsh\<close> the hash under a key (empty
  when there is none), \<open>zs\<close> the scores of the members of a sorted set. A command of one
  kind of value is specified on keys that do not hold a value of the other kind.
\<close>

definition zredis_laws :: "'r zredis \<Rightarrow> ('r \<Rightarrow> string \<Rightarrow> hash_data) \<Rightarrow> ('r \<Rightarrow> string \<Rightarrow> string \<rightharpoonup> int) \<Rightarrow> bool" where
  "zredis_laws R hsh zs \<longleftrightarrow>
     (\<forall>k h r. zs r k = Map.empty \<longrightarrow> h \<noteq> [] \<longrightarrow>
        (\<exists>r'. z_hset R k h r = (Inr (), r') \<and> hsh r' = (hsh r)(k := hsh r k ++ map_of h) \<and> zs r' = zs r)) \<and>
     (\<forall>k r. zs r k = Map.empty \<longrightarrow> (\<exists>h. z_hgetall R k r = (Inr h, r) \<and> map_of h = hsh r k)) \<and>
     (\<forall>k n m r. hsh r k = Map.empty \<longrightarrow>
        (\<exists>r'. z_zadd R k n m r = (Inr (), r') \<and> zs r' = (zs r)(k := (zs r k)(m \<mapsto> n)) \<and> hsh r' = hsh r)) \<and>
     (\<forall>k r. hsh r k = Map.empty \<longrightarrow> zs r k = Map.empty \<longrightarrow> z_zpopmin R k r = (Inr None, r)) \<and>
     (\<forall>k r. hsh r k = Map.empty \<longrightarrow> zs r k \<noteq> Map.empty \<longrightarrow>
        (\<exists>m n r'. z_zpopmin R k r = (Inr (Some (m, n)), r') \<and> zs r k m = Some n
          \<and> (\<forall>m' n'. zs r k m' = Some n' \<longrightarrow> n \<le> n')
          \<and> zs r' = (zs r)(k := (zs r k)(m := None)) \<and> hsh r' = hsh r)) \<and>
     (\<forall>k m r. hsh r k = Map.empty \<longrightarrow>
        (\<exists>r'. z_zrem R k m r = (Inr (), r') \<and> zs r' = (zs r)(k := (zs r k)(m := None)) \<and> hsh r' = hsh r)) \<and>
     (\<forall>k lo hi r. hsh r k = Map.empty \<longrightarrow>
        (\<exists>ms. z_zrangebyscore R k lo hi r = (Inr ms, r) \<and> distinct ms
          \<and> set ms = {m. \<exists>n. zs r k m = Some n \<and> lo \<le> n \<and> n \<le> hi}))"

lemma zredis_lawsD:
  assumes "zredis_laws R hsh zs"
  shows "zs r k = Map.empty \<Longrightarrow> h \<noteq> [] \<Longrightarrow>
          \<exists>r'. z_hset R k h r = (Inr (), r') \<and> hsh r' = (hsh r)(k := hsh r k ++ map_of h) \<and> zs r' = zs r"
    and "zs r k = Map.empty \<Longrightarrow> \<exists>h. z_hgetall R k r = (Inr h, r) \<and> map_of h = hsh r k"
    and "hsh r k = Map.empty \<Longrightarrow>
          \<exists>r'. z_zadd R k n m r = (Inr (), r') \<and> zs r' = (zs r)(k := (zs r k)(m \<mapsto> n)) \<and> hsh r' = hsh r"
    and "hsh r k = Map.empty \<Longrightarrow> zs r k = Map.empty \<Longrightarrow> z_zpopmin R k r = (Inr None, r)"
    and "hsh r k = Map.empty \<Longrightarrow> zs r k \<noteq> Map.empty \<Longrightarrow>
          \<exists>m n r'. z_zpopmin R k r = (Inr (Some (m, n)), r') \<and> zs r k m = Some n
          \<and> (\<forall>m' n'. zs r k m' = Some n' \<longrightarrow> n \<le> n')
          \<and> zs r' = (zs r)(k := (zs r k)(m := None)) \<and> hsh r' = hsh r"
    and "hsh r k = Map.empty \<Longrightarrow>
          \<exists>r'. z_zrem R k m r = (Inr (), r') \<and> zs r' = (zs r)(k := (zs r k)(m := None)) \<and> hsh r' = hsh r"
    and "hsh r k = Map.empty \<Longrightarrow> \<exists>ms. z_zrangebyscore R k lo hi r = (Inr ms, r) \<and> distinct ms
          \<and> set ms = {m. \<exists>n. zs r k m = Some n \<and> lo \<le> n \<and> n \<le> hi}"
  using assms by (simp_all add: zredis_laws_def)

section \<open>The backend\<close>

record 'r redis_backend =
  rb_world :: 'r
  rb_connected :: bool
  rb_lastError :: "string option"

definition rb_new :: "'r \<Rightarrow> 'r redis_backend" where
  "rb_new r = \<lparr> rb_world = r, rb_connected = False, rb_lastError = None \<rparr>"

definition on_redis :: "('r, 'a) js \<Rightarrow> ('r redis_backend, 'a) js" where
  "on_redis f s = (case f (rb_world s) of (x, r) \<Rightarrow> (x, s\<lparr> rb_world := r \<rparr>))"

definition rb_connect :: "'r zredis \<Rightarrow> ('r redis_backend, unit) js" where
  "rb_connect R s =
     (if rb_connected s then (Inr (), s)
      else cbind (on_redis (z_connect R)) (\<lambda>_. cmod (\<lambda>s. s\<lparr> rb_connected := True, rb_lastError := None \<rparr>)) s)"

definition rb_disconnect :: "'r zredis \<Rightarrow> ('r redis_backend, unit) js" where
  "rb_disconnect R s =
     (if \<not> rb_connected s then (Inr (), s)
      else cbind (on_redis (z_quit R)) (\<lambda>_. cmod (\<lambda>s. s\<lparr> rb_connected := False \<rparr>)) s)"

definition rb_updateJobInternal :: "'r zredis \<Rightarrow> string \<Rightarrow> job \<Rightarrow> ('r redis_backend, unit) js" where
  "rb_updateJobInternal R i j = on_redis (z_hset R (jobKey i) (jobToHash j))"

definition rb_enqueue :: "'r zredis \<Rightarrow> int \<Rightarrow> job \<Rightarrow> ('r redis_backend, unit) js" where
  "rb_enqueue R now j =
     cbind (on_redis (z_hset R (jobKey (job_id j)) (jobToHash j))) (\<lambda>_.
     on_redis (z_zadd R (getQueueKey (job_priority j)) (calculateScore now (job_priority j)) (job_id j)))"

definition rb_getJob :: "'r zredis \<Rightarrow> int \<Rightarrow> string \<Rightarrow> ('r redis_backend, job option) js" where
  "rb_getJob R now i =
     cbind (on_redis (z_hgetall R (jobKey i))) (\<lambda>h.
       if h = [] then cret None
       else (case hashToJob now (map_of h) of
               None \<Rightarrow> cthrow (Plain_error ''not a job'')
             | Some j \<Rightarrow> cret (Some j)))"

text \<open>The loop of \<open>dequeue\<close> over the queues to look at.\<close>

primrec rb_dequeue_from :: "'r zredis \<Rightarrow> int \<Rightarrow> job_priority list \<Rightarrow> ('r redis_backend, job option) js" where
  "rb_dequeue_from R now [] = cret None"
| "rb_dequeue_from R now (p # ps) =
     cbind (on_redis (z_zpopmin R (getQueueKey p))) (\<lambda>popped.
       case popped of
         None \<Rightarrow> rb_dequeue_from R now ps
       | Some (i, _) \<Rightarrow>
           if i = [] then rb_dequeue_from R now ps
           else
             cbind (rb_getJob R now i) (\<lambda>r.
               case r of
                 None \<Rightarrow> rb_dequeue_from R now ps
               | Some j \<Rightarrow>
                   cbind (rb_updateJobInternal R i (started_job now j)) (\<lambda>_.
                   cbind (on_redis (z_zadd R PROCESSING (now + visibilityTimeout j) i)) (\<lambda>_.
                   cret (Some (started_job now j))))))"

definition rb_dequeue :: "'r zredis \<Rightarrow> int \<Rightarrow> job_priority option \<Rightarrow> ('r redis_backend, job option) js" where
  "rb_dequeue R now p = rb_dequeue_from R now (case p of Some q \<Rightarrow> [q] | None \<Rightarrow> [High, Normal, Low])"

definition rb_acknowledge :: "'r zredis \<Rightarrow> int \<Rightarrow> string \<Rightarrow> ('r redis_backend, unit) js" where
  "rb_acknowledge R now i =
     cbind (rb_getJob R now i) (\<lambda>r.
       case r of
         None \<Rightarrow> cret ()
       | Some j \<Rightarrow>
           cbind (on_redis (z_zrem R PROCESSING i)) (\<lambda>_.
           rb_updateJobInternal R i (completed_job now j)))"

definition rb_nack :: "'r zredis \<Rightarrow> int \<Rightarrow> string \<Rightarrow> string \<Rightarrow> ('r redis_backend, unit) js" where
  "rb_nack R now i err =
     cbind (rb_getJob R now i) (\<lambda>r.
       case r of
         None \<Rightarrow> cret ()
       | Some j \<Rightarrow>
           cbind (on_redis (z_zrem R PROCESSING i)) (\<lambda>_.
           cbind (rb_updateJobInternal R i (nacked_job now err j)) (\<lambda>_.
           if job_attempts j + 1 \<ge> job_maxAttempts j then on_redis (z_zadd R DLQ now i)
           else on_redis (z_zadd R (getQueueKey (job_priority j)) (calculateScore now (job_priority j)) i))))"

definition rb_updateJob :: "'r zredis \<Rightarrow> int \<Rightarrow> string \<Rightarrow> job_update \<Rightarrow> ('r redis_backend, unit) js" where
  "rb_updateJob R now i u =
     cbind (rb_getJob R now i) (\<lambda>r.
       case r of
         None \<Rightarrow> cthrow (Plain_error (''Job not found: '' @ i))
       | Some j \<Rightarrow> rb_updateJobInternal R i (spread_job j u))"

definition rb_getQueueDepth :: "'r zredis \<Rightarrow> job_priority option \<Rightarrow> ('r redis_backend, nat) js" where
  "rb_getQueueDepth R p =
     (case p of
        Some q \<Rightarrow> on_redis (z_zcard R (getQueueKey q))
      | None \<Rightarrow>
          cbind (on_redis (z_zcard R QUEUE_HIGH)) (\<lambda>high.
          cbind (on_redis (z_zcard R QUEUE_NORMAL)) (\<lambda>normal.
          cbind (on_redis (z_zcard R QUEUE_LOW)) (\<lambda>low.
          cret (high + normal + low)))))"

definition rb_getProcessingCount :: "'r zredis \<Rightarrow> ('r redis_backend, nat) js" where
  "rb_getProcessingCount R = on_redis (z_zcard R PROCESSING)"

primrec rb_get_jobs :: "'r zredis \<Rightarrow> int \<Rightarrow> string list \<Rightarrow> ('r redis_backend, job list) js" where
  "rb_get_jobs R now [] = cret []"
| "rb_get_jobs R now (i # is) =
     cbind (rb_getJob R now i) (\<lambda>r.
     cbind (rb_get_jobs R now is) (\<lambda>js.
     cret (case r of None \<Rightarrow> js | Some j \<Rightarrow> j # js)))"

definition rb_getDeadLetterJobs :: "'r zredis \<Rightarrow> int \<Rightarrow> ('r redis_backend, job list) js" where
  "rb_getDeadLetterJobs R now = cbind (on_redis (z_zrange R DLQ)) (rb_get_jobs R now)"

definition rb_retryDeadLetter :: "'r zredis \<Rightarrow> int \<Rightarrow> string \<Rightarrow> ('r redis_backend, unit) js" where
  "rb_retryDeadLetter R now i =
     cbind (on_redis (z_zrank R DLQ i)) (\<lambda>rank.
       if rank = None then cthrow (Plain_error (''Job '' @ i @ '' is not in dead letter queue''))
       else
         cbind (rb_getJob R now i) (\<lambda>r.
           case r of
             None \<Rightarrow> cthrow (Plain_error (''Job not found: '' @ i))
           | Some j \<Rightarrow>
               cbind (on_redis (z_zrem R DLQ i)) (\<lambda>_.
               cbind (rb_updateJobInternal R i (retried_job j)) (\<lambda>_.
               on_redis (z_zadd R (getQueueKey (job_priority j)) (calculateScore now (job_priority j)) i)))))"

definition rb_refreshVisibility :: "'r zredis \<Rightarrow> int \<Rightarrow> string \<Rightarrow> int \<Rightarrow> ('r redis_backend, unit) js" where
  "rb_refreshVisibility R now i timeoutMs =
     cbind (rb_getJob R now i) (\<lambda>r.
       case r of
         None \<Rightarrow> cret ()
       | Some j \<Rightarrow>
           cbind (rb_updateJobInternal R i (j\<lparr> visibleAt := Some (now + timeoutMs) \<rparr>)) (\<lambda>_.
           on_redis (z_zadd R PROCESSING (now + timeoutMs) i)))"

definition rb_release_one :: "'r zredis \<Rightarrow> int \<Rightarrow> string \<Rightarrow> ('r redis_backend, bool) js" where
  "rb_release_one R now i =
     cbind (rb_getJob R now i) (\<lambda>r.
       case r of
         None \<Rightarrow> cret False
       | Some j \<Rightarrow>
           cbind (on_redis (z_zrem R PROCESSING i)) (\<lambda>_.
           cbind (rb_updateJobInternal R i (released_job j)) (\<lambda>_.
           cbind (on_redis (z_zadd R (getQueueKey (job_priority j)) (calculateScore now (job_priority j)) i)) (\<lambda>_.
           cret True))))"

primrec rb_release_loop :: "'r zredis \<Rightarrow> int \<Rightarrow> string list \<Rightarrow> nat \<Rightarrow> ('r redis_backend, nat) js" where
  "rb_release_loop R now [] released = cret released"
| "rb_release_loop R now (i # is) released =
     cbind (rb_release_one R now i) (\<lambda>b. rb_release_loop R now is (if b then released + 1 else released))"

definition rb_releaseTimedOutJobs :: "'r zredis \<Rightarrow> int \<Rightarrow> ('r redis_backend, nat) js" where
  "rb_releaseTimedOutJobs R now =
     cbind (on_redis (z_zrangebyscore R PROCESSING 0 now)) (\<lambda>ids.
       if ids = [] then cret 0 else rb_release_loop R now ids 0)"

definition rb_healthCheck :: "'r zredis \<Rightarrow> ('r redis_backend, health_check_result) js" where
  "rb_healthCheck R =
     ctry (cbind (on_redis (z_ping R)) (\<lambda>_.
           cbind (rb_getQueueDepth R None) (\<lambda>depth.
           cget (\<lambda>s. \<lparr> hc_healthy = True,
                       hc_details = \<lparr> hd_connected = True, hd_queueDepth = depth, hd_lastError = rb_lastError s \<rparr> \<rparr>))))
       (\<lambda>err. cbind (cmod (\<lambda>s. s\<lparr> rb_lastError := Some (error_message err) \<rparr>)) (\<lambda>_.
           cget (\<lambda>s. \<lparr> hc_healthy = False,
                       hc_details = \<lparr> hd_connected = False, hd_queueDepth = 0, hd_lastError = rb_lastError s \<rparr> \<rparr>)))"

definition redis_ops :: "'r zredis \<Rightarrow> 'r redis_backend queue_backend" where
  "redis_ops R =
     \<lparr> b_enqueue = rb_enqueue R, b_dequeue = rb_dequeue R, b_acknowledge = rb_acknowledge R, b_nack = rb_nack R,
       b_getJob = rb_getJob R, b_updateJob = rb_updateJob R, b_getQueueDepth = rb_getQueueDepth R,
       b_getProcessingCount = rb_getProcessingCount R, b_getDeadLetterJobs = rb_getDeadLetterJobs R,
       b_retryDeadLetter = rb_retryDeadLetter R, b_refreshVisibility = rb_refreshVisibility R,
       b_releaseTimedOutJobs = rb_releaseTimedOutJobs R, b_connect = rb_connect R, b_disconnect = rb_disconnect R,
       b_healthCheck = rb_healthCheck R \<rparr>"

section \<open>Hashes hold jobs\<close>

text \<open>The jobs a hash can hold: an absent optional text and an empty one are written alike.\<close>

definition storable_job :: "job \<Rightarrow> bool" where
  "storable_job j \<longleftrightarrow> job_error j \<noteq> Some [] \<and> startedAt j \<noteq> Some [] \<and> completedAt j \<noteq> Some []"

lemma digits_takeWhile [simp]: "takeWhile is_digit (show_nat n) = show_nat n"
  using show_nat_digits [of n] by (simp add: list_all_iff)

lemma show_nat_no_sign: "show_nat n \<noteq> [] \<and> hd (show_nat n) \<noteq> CHR ''-''"
proof -
  from show_nat_digits [of n] have "is_digit (hd (show_nat n))"
    by (cases "show_nat n") simp_all
  with show_nat_digits [of n] show ?thesis by (auto simp: is_digit_def)
qed

lemma parse_show_int [simp]: "parseInt (show_int i) = Some i"
  using show_nat_no_sign by (simp add: parseInt_def show_int_def Let_def)

lemma parse_show_nat [simp]: "parseNat (show_nat n) = Some n"
  using parse_show_int [of "int n"] by (simp add: parseNat_def show_int_def)

lemma named_type [simp]: "named type_name [Agent_job, Human_job, Integration_job] (type_name t) = Some t"
  by (cases t) (simp_all add: named_def type_name_def)

lemma named_status [simp]:
  "named status_name [Pending, Processing, Completed, Failed, Dead] (status_name s) = Some s"
  by (cases s) (simp_all add: named_def status_name_def)

lemma named_priority [simp]: "named priority_name [High, Normal, Low] (priority_name p) = Some p"
  by (cases p) (simp_all add: named_def priority_name_def)

lemma show_int_nonempty [simp]: "show_int i \<noteq> []"
  using show_nat_no_sign by (simp add: show_int_def)

text \<open>What is left of an optional text after writing and reading it.\<close>

definition nonempty :: "string option \<Rightarrow> string option" where
  "nonempty v = (if truthy v then v else None)"

lemma hashToJob_written:
  "hashToJob now (map_of (jobToHash j))
     = Some (j\<lparr> job_error := nonempty (job_error j), startedAt := nonempty (startedAt j),
               completedAt := nonempty (completedAt j) \<rparr>)"
  by (cases j)
    (auto simp: hashToJob_def jobToHash_def plain_def optional_def json_field_def nonempty_def
       default_to_def split: option.splits)

lemma hashToJob_jobToHash:
  assumes "storable_job j"
  shows "hashToJob now (map_of (jobToHash j)) = Some j"
proof -
  from assms have "nonempty (job_error j) = job_error j" "nonempty (startedAt j) = startedAt j"
    "nonempty (completedAt j) = completedAt j"
    by (auto simp: storable_job_def nonempty_def truthy_def split: option.splits)
  then show ?thesis by (simp add: hashToJob_written)
qed

lemma jobToHash_overwrites: "map_of (jobToHash j) ++ map_of (jobToHash j') = map_of (jobToHash j')"
proof
  fix k
  have "dom (map_of (jobToHash j)) = dom (map_of (jobToHash j'))" by (simp add: jobToHash_def)
  then have "k \<in> dom (map_of (jobToHash j)) \<longleftrightarrow> k \<in> dom (map_of (jobToHash j'))" by simp
  then show "(map_of (jobToHash j) ++ map_of (jobToHash j')) k = map_of (jobToHash j') k"
    by (auto simp: map_add_def split: option.split)
qed

lemma jobToHash_nonempty [simp]: "jobToHash j \<noteq> []"
  by (simp add: jobToHash_def)

lemma toISOString_nonempty [simp]: "toISOString ms \<noteq> []"
  by (simp add: toISOString_def Let_def split: prod.split)

lemma storable_transitions [simp]:
  "storable_job j \<Longrightarrow> storable_job (started_job now j)"
  "storable_job j \<Longrightarrow> storable_job (completed_job now j)"
  "storable_job j \<Longrightarrow> storable_job (retried_job j)"
  "storable_job j \<Longrightarrow> storable_job (released_job j)"
  "storable_job j \<Longrightarrow> e \<noteq> [] \<Longrightarrow> storable_job (nacked_job now e j)"
  "storable_job j \<Longrightarrow> storable_job (spread_job j (no_update\<lparr> up_result := Some (Some v) \<rparr>))"
  "storable_job (j\<lparr> visibleAt := t \<rparr>) = storable_job j"
  by (auto simp: storable_job_def job_transitions Let_def spread_job_def no_update_def split: option.split)

section \<open>The stored jobs\<close>

definition set_keys :: "string list" where
  "set_keys = [QUEUE_HIGH, QUEUE_NORMAL, QUEUE_LOW, PROCESSING, DLQ]"

text \<open>
  The states the backend works in: every hash is the hash of a storable job under a job
  key, and only the five keys of the scheduler hold sorted sets.
\<close>

definition rb_ok :: "('r \<Rightarrow> string \<Rightarrow> hash_data) \<Rightarrow> ('r \<Rightarrow> string \<Rightarrow> string \<rightharpoonup> int) \<Rightarrow> 'r redis_backend \<Rightarrow> bool" where
  "rb_ok hsh zs b \<longleftrightarrow>
     (\<forall>k. hsh (rb_world b) k = Map.empty \<or> (\<exists>i j. k = jobKey i \<and> storable_job j \<and> hsh (rb_world b) k = map_of (jobToHash j))) \<and>
     (\<forall>k. k \<notin> set set_keys \<longrightarrow> zs (rb_world b) k = Map.empty)"

definition rb_view :: "('r \<Rightarrow> string \<Rightarrow> hash_data) \<Rightarrow> 'r redis_backend \<Rightarrow> string \<Rightarrow> job option" where
  "rb_view hsh b i =
     (if hsh (rb_world b) (jobKey i) = Map.empty then None else hashToJob 0 (hsh (rb_world b) (jobKey i)))"

lemma jobKey_inj [simp]: "jobKey i = jobKey i' \<longleftrightarrow> i = i'"
  by (simp add: jobKey_def)

lemma jobKey_not_set [simp]: "jobKey i \<notin> set set_keys"
  by (simp add: jobKey_def set_keys_def JOB_def QUEUE_HIGH_def QUEUE_NORMAL_def QUEUE_LOW_def PROCESSING_def DLQ_def)

lemma set_keys_members [simp]: "getQueueKey p \<in> set set_keys" "PROCESSING \<in> set set_keys" "DLQ \<in> set set_keys"
  by (cases p; simp add: set_keys_def getQueueKey_def) (simp_all add: set_keys_def)

lemma job_data_nonempty [simp]: "map_of (jobToHash j) \<noteq> Map.empty"
  by simp

lemma rb_okD:
  assumes "rb_ok hsh zs b"
  shows "zs (rb_world b) (jobKey i) = Map.empty"
    and "k \<in> set set_keys \<Longrightarrow> hsh (rb_world b) k = Map.empty"
    and "rb_view hsh b i = Some j \<Longrightarrow> storable_job j \<and> hsh (rb_world b) (jobKey i) = map_of (jobToHash j)"
    and "rb_view hsh b i = None \<longleftrightarrow> hsh (rb_world b) (jobKey i) = Map.empty"
  using assms jobKey_not_set unfolding rb_ok_def rb_view_def
  by (blast, metis, metis hashToJob_jobToHash jobKey_inj option.inject option.distinct(1),
      metis hashToJob_jobToHash option.distinct(1))

lemma rb_getJob_ok:
  assumes "zredis_laws R hsh zs" and "rb_ok hsh zs b"
  shows "rb_getJob R now i b = (Inr (rb_view hsh b i), b)"
proof -
  obtain h where h: "z_hgetall R (jobKey i) (rb_world b) = (Inr h, rb_world b)" "map_of h = hsh (rb_world b) (jobKey i)"
    using zredis_lawsD(2) [OF assms(1) rb_okD(1) [OF assms(2)]] by blast
  show ?thesis
  proof (cases "rb_view hsh b i")
    case None
    with h rb_okD(4) [OF assms(2), of i] show ?thesis
      by (simp add: rb_getJob_def on_redis_def comp_simps)
  next
    case (Some j)
    with rb_okD(3) [OF assms(2) Some] h have "storable_job j" "map_of h = map_of (jobToHash j)" "h \<noteq> []" by auto
    with Some h(1) show ?thesis
      by (simp add: rb_getJob_def on_redis_def comp_simps hashToJob_jobToHash)
  qed
qed

lemma rb_put_ok:
  assumes "zredis_laws R hsh zs" and ok: "rb_ok hsh zs b" and "storable_job j"
  shows "\<exists>b'. on_redis (z_hset R (jobKey i) (jobToHash j)) b = (Inr (), b') \<and> rb_ok hsh zs b'
       \<and> rb_view hsh b' = (rb_view hsh b)(i \<mapsto> j) \<and> zs (rb_world b') = zs (rb_world b)"
proof -
  obtain r' where r': "z_hset R (jobKey i) (jobToHash j) (rb_world b) = (Inr (), r')"
    "hsh r' = (hsh (rb_world b))(jobKey i := hsh (rb_world b) (jobKey i) ++ map_of (jobToHash j))" "zs r' = zs (rb_world b)"
    using zredis_lawsD(1) [OF assms(1) rb_okD(1) [OF ok] jobToHash_nonempty] by blast
  from rb_okD(3,4) [OF ok, of i]
  have "hsh (rb_world b) (jobKey i) ++ map_of (jobToHash j) = map_of (jobToHash j)"
    by (cases "rb_view hsh b i") (auto simp: jobToHash_overwrites)
  with r' have h: "hsh r' = (hsh (rb_world b))(jobKey i := map_of (jobToHash j))" by simp
  from h ok assms(3) r'(3) have "rb_ok hsh zs (b\<lparr> rb_world := r' \<rparr>)"
    by (auto simp: rb_ok_def)
  moreover have "rb_view hsh (b\<lparr> rb_world := r' \<rparr>) = (rb_view hsh b)(i \<mapsto> j)"
    using assms(3) by (auto simp: rb_view_def h hashToJob_jobToHash)
  ultimately show ?thesis using r'(1,3) by (auto simp: on_redis_def)
qed

text \<open>Changing a sorted set leaves the stored jobs alone.\<close>

lemma rb_sets_ok:
  assumes "rb_ok hsh zs b" and "hsh r' = hsh (rb_world b)" and "zs r' = (zs (rb_world b))(k := m)"
    and "k \<in> set set_keys"
  shows "rb_ok hsh zs (b\<lparr> rb_world := r' \<rparr>)" and "rb_view hsh (b\<lparr> rb_world := r' \<rparr>) = rb_view hsh b"
  using assms by (auto simp: rb_ok_def rb_view_def)

lemma rb_zadd_ok:
  assumes "zredis_laws R hsh zs" and ok: "rb_ok hsh zs b" and k: "k \<in> set set_keys"
  shows "\<exists>b'. on_redis (z_zadd R k n m) b = (Inr (), b') \<and> rb_ok hsh zs b' \<and> rb_view hsh b' = rb_view hsh b
       \<and> zs (rb_world b') = (zs (rb_world b))(k := (zs (rb_world b) k)(m \<mapsto> n))"
proof -
  obtain r' where r': "z_zadd R k n m (rb_world b) = (Inr (), r')" "hsh r' = hsh (rb_world b)"
    "zs r' = (zs (rb_world b))(k := (zs (rb_world b) k)(m \<mapsto> n))"
    using zredis_lawsD(3) [where r = "rb_world b" and k = k, OF assms(1) rb_okD(2) [OF ok k]] by blast
  with rb_sets_ok [OF ok r'(2,3) k] show ?thesis by (auto simp: on_redis_def)
qed

lemma rb_zrem_ok:
  assumes "zredis_laws R hsh zs" and ok: "rb_ok hsh zs b" and k: "k \<in> set set_keys"
  shows "\<exists>b'. on_redis (z_zrem R k m) b = (Inr (), b') \<and> rb_ok hsh zs b' \<and> rb_view hsh b' = rb_view hsh b
       \<and> zs (rb_world b') = (zs (rb_world b))(k := (zs (rb_world b) k)(m := None))"
proof -
  obtain r' where r': "z_zrem R k m (rb_world b) = (Inr (), r')" "hsh r' = hsh (rb_world b)"
    "zs r' = (zs (rb_world b))(k := (zs (rb_world b) k)(m := None))"
    using zredis_lawsD(6) [where r = "rb_world b" and k = k, OF assms(1) rb_okD(2) [OF ok k]] by blast
  with rb_sets_ok [OF ok r'(2,3) k] show ?thesis by (auto simp: on_redis_def)
qed

lemma rb_zpopmin_ok:
  assumes "zredis_laws R hsh zs" and ok: "rb_ok hsh zs b" and k: "k \<in> set set_keys"
    and ne: "zs (rb_world b) k \<noteq> Map.empty"
  shows "\<exists>m n b'. on_redis (z_zpopmin R k) b = (Inr (Some (m, n)), b') \<and> rb_ok hsh zs b'
       \<and> rb_view hsh b' = rb_view hsh b \<and> zs (rb_world b) k m = Some n
       \<and> (\<forall>m' n'. zs (rb_world b) k m' = Some n' \<longrightarrow> n \<le> n')
       \<and> zs (rb_world b') = (zs (rb_world b))(k := (zs (rb_world b) k)(m := None))"
proof -
  obtain m n r' where r': "z_zpopmin R k (rb_world b) = (Inr (Some (m, n)), r')" "zs (rb_world b) k m = Some n"
    "\<forall>m' n'. zs (rb_world b) k m' = Some n' \<longrightarrow> n \<le> n'" "hsh r' = hsh (rb_world b)"
    "zs r' = (zs (rb_world b))(k := (zs (rb_world b) k)(m := None))"
    using zredis_lawsD(5) [OF assms(1) rb_okD(2) [OF ok k] ne] by blast
  with rb_sets_ok [OF ok r'(4,5) k] show ?thesis by (auto simp: on_redis_def)
qed

lemma rb_zpopmin_empty:
  assumes "zredis_laws R hsh zs" and ok: "rb_ok hsh zs b" and k: "k \<in> set set_keys"
    and "zs (rb_world b) k = Map.empty"
  shows "on_redis (z_zpopmin R k) b = (Inr None, b)"
  using zredis_lawsD(4) [OF assms(1) rb_okD(2) [OF ok k] assms(4)] by (simp add: on_redis_def)

text \<open>Putting a job and then adding it to a sorted set, the last two steps of most operations.\<close>

lemma rb_put_add_ok:
  assumes laws: "zredis_laws R hsh zs" and ok: "rb_ok hsh zs b" and st: "storable_job j" and k: "k \<in> set set_keys"
  shows "\<exists>b1 b'. on_redis (z_hset R (jobKey i) (jobToHash j)) b = (Inr (), b1)
       \<and> on_redis (z_zadd R k n m) b1 = (Inr (), b') \<and> rb_ok hsh zs b'
       \<and> rb_view hsh b' = (rb_view hsh b)(i \<mapsto> j)
       \<and> zs (rb_world b') = (zs (rb_world b))(k := (zs (rb_world b) k)(m \<mapsto> n))"
proof -
  obtain b1 where b1: "on_redis (z_hset R (jobKey i) (jobToHash j)) b = (Inr (), b1)" "rb_ok hsh zs b1"
    "rb_view hsh b1 = (rb_view hsh b)(i \<mapsto> j)" "zs (rb_world b1) = zs (rb_world b)"
    using rb_put_ok [OF laws ok st] by blast
  from rb_zadd_ok [OF laws b1(2) k, of n m] b1 show ?thesis by (metis (no_types))
qed

section \<open>The operations on stored jobs\<close>

lemma rb_enqueue_ok:
  assumes "zredis_laws R hsh zs" and "rb_ok hsh zs b" and "storable_job j" and "q = getQueueKey (job_priority j)"
  shows "\<exists>b'. rb_enqueue R now j b = (Inr (), b') \<and> rb_ok hsh zs b'
       \<and> rb_view hsh b' = (rb_view hsh b)(job_id j \<mapsto> j)
       \<and> zs (rb_world b') = (zs (rb_world b))(q := (zs (rb_world b) q)(job_id j \<mapsto> calculateScore now (job_priority j)))"
proof -
  have "q \<in> set set_keys" using assms(4) by simp
  from rb_put_add_ok [OF assms(1-3) this, of "job_id j" "calculateScore now (job_priority j)" "job_id j"] assms(4)
  show ?thesis by (auto simp: rb_enqueue_def comp_simps)
qed

lemma rb_acknowledge_ok:
  assumes laws: "zredis_laws R hsh zs" and ok: "rb_ok hsh zs b" and "rb_view hsh b i = Some j"
  shows "\<exists>b'. rb_acknowledge R now i b = (Inr (), b') \<and> rb_ok hsh zs b'
       \<and> rb_view hsh b' = (rb_view hsh b)(i \<mapsto> completed_job now j)
       \<and> zs (rb_world b') = (zs (rb_world b))(PROCESSING := (zs (rb_world b) PROCESSING)(i := None))"
proof -
  from rb_okD(3) [OF ok assms(3)] have st: "storable_job (completed_job now j)" by simp
  obtain b1 where b1: "on_redis (z_zrem R PROCESSING i) b = (Inr (), b1)" "rb_ok hsh zs b1" "rb_view hsh b1 = rb_view hsh b"
    "zs (rb_world b1) = (zs (rb_world b))(PROCESSING := (zs (rb_world b) PROCESSING)(i := None))"
    using rb_zrem_ok [OF laws ok set_keys_members(2)] by blast
  from rb_put_ok [OF laws b1(2) st, of i] b1 assms(3) show ?thesis
    by (auto simp: rb_acknowledge_def rb_updateJobInternal_def comp_simps rb_getJob_ok [OF laws ok])
qed

lemma rb_nack_ok:
  assumes laws: "zredis_laws R hsh zs" and ok: "rb_ok hsh zs b" and j: "rb_view hsh b i = Some j"
    and st: "storable_job (nacked_job now e j)"
    and q: "(q, n) = (if job_attempts j + 1 \<ge> job_maxAttempts j then (DLQ, now)
                 else (getQueueKey (job_priority j), calculateScore now (job_priority j)))"
    and z: "z = (zs (rb_world b))(PROCESSING := (zs (rb_world b) PROCESSING)(i := None))"
  shows "\<exists>b'. rb_nack R now i e b = (Inr (), b') \<and> rb_ok hsh zs b'
       \<and> rb_view hsh b' = (rb_view hsh b)(i \<mapsto> nacked_job now e j) \<and> zs (rb_world b') = z(q := (z q)(i \<mapsto> n))"
proof -
  obtain b1 where b1: "on_redis (z_zrem R PROCESSING i) b = (Inr (), b1)" "rb_ok hsh zs b1" "rb_view hsh b1 = rb_view hsh b"
    "zs (rb_world b1) = z"
    using rb_zrem_ok [OF laws ok set_keys_members(2)] z by blast
  have k: "q \<in> set set_keys" using q by (simp split: if_splits)
  from rb_put_add_ok [OF laws b1(2) st k, of i n i] b1 j q show ?thesis
    by (auto simp: rb_nack_def rb_updateJobInternal_def comp_simps rb_getJob_ok [OF laws ok] split: if_splits)
qed

lemma rb_updateJob_ok:
  assumes laws: "zredis_laws R hsh zs" and ok: "rb_ok hsh zs b" and "rb_view hsh b i = Some j"
    and st: "storable_job (spread_job j u)"
  shows "\<exists>b'. rb_updateJob R now i u b = (Inr (), b') \<and> rb_ok hsh zs b'
       \<and> rb_view hsh b' = (rb_view hsh b)(i \<mapsto> spread_job j u) \<and> zs (rb_world b') = zs (rb_world b)"
  using rb_put_ok [OF laws ok st, of i] assms(3)
  by (auto simp: rb_updateJob_def rb_updateJobInternal_def comp_simps rb_getJob_ok [OF laws ok])

text \<open>One round of \<open>dequeue\<close>: an empty queue is passed over; otherwise the first job is taken.\<close>

lemma rb_dequeue_take:
  assumes laws: "zredis_laws R hsh zs" and ok: "rb_ok hsh zs b"
    and pop: "on_redis (z_zpopmin R (getQueueKey p)) b = (Inr (Some (i, n)), b1)" and ok1: "rb_ok hsh zs b1"
    and "i \<noteq> []" and j: "rb_view hsh b1 i = Some j"
  shows "\<exists>b'. rb_dequeue_from R now (p # ps) b = (Inr (Some (started_job now j)), b') \<and> rb_ok hsh zs b'
       \<and> rb_view hsh b' = (rb_view hsh b1)(i \<mapsto> started_job now j)
       \<and> zs (rb_world b') = (zs (rb_world b1))(PROCESSING := (zs (rb_world b1) PROCESSING)(i \<mapsto> now + visibilityTimeout j))"
proof -
  from rb_okD(3) [OF ok1 j] have "storable_job (started_job now j)" by simp
  from rb_put_add_ok [OF laws ok1 this set_keys_members(2), of i "now + visibilityTimeout j" i] assms show ?thesis
    by (auto simp: rb_updateJobInternal_def comp_simps rb_getJob_ok [OF laws ok1])
qed

lemma rb_dequeue_from_ok:
  assumes laws: "zredis_laws R hsh zs"
  shows "rb_ok hsh zs b \<Longrightarrow> \<exists>r b'. rb_dequeue_from R now ps b = (Inr r, b') \<and> rb_ok hsh zs b' \<and>
       (case r of None \<Rightarrow> rb_view hsh b' = rb_view hsh b
        | Some j \<Rightarrow> \<exists>i j0. rb_view hsh b i = Some j0 \<and> j = started_job now j0 \<and> rb_view hsh b' = (rb_view hsh b)(i \<mapsto> j))"
proof (induction ps arbitrary: b)
  case Nil
  then show ?case by (simp add: comp_simps)
next
  case (Cons p ps)
  note ok = Cons.prems and k = set_keys_members(1) [of p]
  show ?case
  proof (cases "zs (rb_world b) (getQueueKey p) = Map.empty")
    case True
    from rb_zpopmin_empty [OF laws ok k this] Cons.IH [OF ok] show ?thesis by (simp add: comp_simps)
  next
    case False
    then obtain i n b1 where b1: "on_redis (z_zpopmin R (getQueueKey p)) b = (Inr (Some (i, n)), b1)"
      "rb_ok hsh zs b1" "rb_view hsh b1 = rb_view hsh b"
      using rb_zpopmin_ok [OF laws ok k] by blast
    consider (skip) "i = [] \<or> rb_view hsh b1 i = None" | (take) j where "i \<noteq> []" "rb_view hsh b1 i = Some j"
      by (cases "rb_view hsh b1 i") auto
    then show ?thesis
    proof cases
      case skip
      with b1 have "rb_dequeue_from R now (p # ps) b = rb_dequeue_from R now ps b1"
        by (auto simp: comp_simps rb_getJob_ok [OF laws b1(2)])
      with Cons.IH [OF b1(2)] show ?thesis by (simp only: b1(3))
    next
      case take
      then have j: "rb_view hsh b i = Some j" using b1(3) by simp
      from rb_dequeue_take [OF laws ok b1(1,2) take, of now ps] obtain b' where
        "rb_dequeue_from R now (p # ps) b = (Inr (Some (started_job now j)), b')" "rb_ok hsh zs b'"
        "rb_view hsh b' = (rb_view hsh b)(i \<mapsto> started_job now j)" using b1(3) by auto
      with j show ?thesis
        by (intro exI [of _ "Some (started_job now j)"] exI [of _ b']) (force simp del: rb_dequeue_from.simps)
    qed
  qed
qed

lemma redis_backend_contract:
  assumes laws: "zredis_laws R hsh zs"
  shows "backend_contract (redis_ops R) (rb_view hsh) (rb_ok hsh zs) storable_job"
proof (unfold_locales, goal_cases)
  case (1 b i j)
  then show ?case using rb_okD(3) by blast
next
  case (4 b now i)
  then show ?case by (simp add: redis_ops_def rb_getJob_ok [OF laws])
next
  case (5 b j now)
  then show ?case using rb_enqueue_ok [OF laws 5(1,2) refl, of now] by (auto simp: redis_ops_def)
next
  case (6 b i j now)
  then show ?case using rb_acknowledge_ok [OF laws 6, of now] by (auto simp: redis_ops_def)
next
  case (7 b i j now e)
  then show ?case
    using rb_nack_ok [OF laws 7 prod.collapse refl] by (auto simp: redis_ops_def)
next
  case (8 b i j u now)
  then show ?case using rb_updateJob_ok [OF laws 8, of now] by (auto simp: redis_ops_def)
next
  case (9 b now p)
  then show ?case using rb_dequeue_from_ok [OF laws 9] by (simp add: redis_ops_def rb_dequeue_def)
qed simp_all

section \<open>Order of dequeuing\<close>

text \<open>Every queued id has a stored job.\<close>

definition queued_stored ::
    "('r \<Rightarrow> string \<Rightarrow> hash_data) \<Rightarrow> ('r \<Rightarrow> string \<Rightarrow> string \<rightharpoonup> int) \<Rightarrow> 'r redis_backend \<Rightarrow> bool" where
  "queued_stored hsh zs b \<longleftrightarrow>
     (\<forall>p i. zs (rb_world b) (getQueueKey p) i \<noteq> None \<longrightarrow> i \<noteq> [] \<and> rb_view hsh b i \<noteq> None)"

lemma rb_dequeue_from_order:
  assumes laws: "zredis_laws R hsh zs" and ok: "rb_ok hsh zs b" and q: "queued_stored hsh zs b"
    and "split": "ps = before @ p # after" and "\<forall>q\<in>set before. zs (rb_world b) (getQueueKey q) = Map.empty"
    and "zs (rb_world b) (getQueueKey p) \<noteq> Map.empty"
  shows "\<exists>i n j b'. zs (rb_world b) (getQueueKey p) i = Some n
       \<and> (\<forall>i' n'. zs (rb_world b) (getQueueKey p) i' = Some n' \<longrightarrow> n \<le> n')
       \<and> rb_view hsh b i = Some j \<and> rb_dequeue_from R now ps b = (Inr (Some (started_job now j)), b')
       \<and> rb_ok hsh zs b' \<and> rb_view hsh b' = (rb_view hsh b)(i \<mapsto> started_job now j)
       \<and> zs (rb_world b') (getQueueKey p) i = None
       \<and> zs (rb_world b') PROCESSING i = Some (now + visibilityTimeout j)"
  using assms(4,5)
proof (induction before arbitrary: ps)
  case Nil
  obtain i n b1 where b1: "on_redis (z_zpopmin R (getQueueKey p)) b = (Inr (Some (i, n)), b1)"
    "rb_ok hsh zs b1" "rb_view hsh b1 = rb_view hsh b" "zs (rb_world b) (getQueueKey p) i = Some n"
    "\<forall>m' n'. zs (rb_world b) (getQueueKey p) m' = Some n' \<longrightarrow> n \<le> n'"
    "zs (rb_world b1) = (zs (rb_world b))(getQueueKey p := (zs (rb_world b) (getQueueKey p))(i := None))"
    using rb_zpopmin_ok [OF laws ok set_keys_members(1) assms(6)] by blast
  from q b1(4) obtain j where j: "i \<noteq> []" "rb_view hsh b i = Some j"
    unfolding queued_stored_def by (metis not_None_eq)
  have k: "getQueueKey p \<noteq> PROCESSING"
    by (cases p) (simp_all add: getQueueKey_def QUEUE_HIGH_def QUEUE_NORMAL_def QUEUE_LOW_def PROCESSING_def)
  obtain b' where b': "rb_dequeue_from R now (p # after) b = (Inr (Some (started_job now j)), b')" "rb_ok hsh zs b'"
    "rb_view hsh b' = (rb_view hsh b)(i \<mapsto> started_job now j)"
    "zs (rb_world b') = (zs (rb_world b1))(PROCESSING := (zs (rb_world b1) PROCESSING)(i \<mapsto> now + visibilityTimeout j))"
    using rb_dequeue_take [OF laws ok b1(1,2) j(1), of j now after] j(2) b1(3) by auto
  from b'(4) k have "zs (rb_world b') (getQueueKey p) i = None" "zs (rb_world b') PROCESSING i = Some (now + visibilityTimeout j)"
    by (simp_all add: b1(6))
  with Nil b1(4,5) j(2) b' show ?case
    by (intro exI conjI) (assumption | simp del: rb_dequeue_from.simps)+
next
  case (Cons p' before)
  then have "zs (rb_world b) (getQueueKey p') = Map.empty" by simp
  from rb_zpopmin_empty [OF laws ok set_keys_members(1) this]
  have "rb_dequeue_from R now (p' # before @ p # after) b = rb_dequeue_from R now (before @ p # after) b"
    by (simp add: comp_simps)
  with Cons.IH [OF refl] Cons.prems show ?case by simp
qed

section \<open>Releasing timed-out jobs\<close>

lemma queue_keys [simp]: "getQueueKey p = getQueueKey p' \<longleftrightarrow> p = p'" "getQueueKey p \<noteq> PROCESSING" "PROCESSING \<noteq> getQueueKey p"
  by (cases p; cases p';
      simp add: getQueueKey_def QUEUE_HIGH_def QUEUE_NORMAL_def QUEUE_LOW_def PROCESSING_def)+

text \<open>The queues after the jobs \<open>ids\<close> of a table have been put back.\<close>

definition requeued :: "int \<Rightarrow> (string \<Rightarrow> job option) \<Rightarrow> string set \<Rightarrow> (string \<Rightarrow> string \<rightharpoonup> int) \<Rightarrow> job_priority \<Rightarrow> string \<rightharpoonup> int" where
  "requeued now view ids z p =
     (\<lambda>i. if i \<in> ids \<and> map_option job_priority (view i) = Some p then Some (calculateScore now p)
          else z (getQueueKey p) i)"

lemma requeued_one:
  "requeued now view {i} z p
     = (if map_option job_priority (view i) = Some p then (z (getQueueKey p))(i \<mapsto> calculateScore now p)
        else z (getQueueKey p))"
  by (rule ext) (auto simp: requeued_def)

lemma rb_release_one_ok:
  assumes laws: "zredis_laws R hsh zs" and ok: "rb_ok hsh zs b"
  shows "\<exists>b'. rb_release_one R now i b = (Inr (rb_view hsh b i \<noteq> None), b') \<and> rb_ok hsh zs b'
       \<and> rb_view hsh b' = (rb_view hsh b)(i := map_option released_job (rb_view hsh b i))
       \<and> zs (rb_world b') PROCESSING
           = (\<lambda>i'. if i' = i \<and> rb_view hsh b i \<noteq> None then None else zs (rb_world b) PROCESSING i')
       \<and> (\<forall>p. zs (rb_world b') (getQueueKey p) = requeued now (rb_view hsh b) {i} (zs (rb_world b)) p)"
proof (cases "rb_view hsh b i")
  case None
  with ok show ?thesis
    by (auto simp: rb_release_one_def comp_simps rb_getJob_ok [OF laws ok] requeued_one)
next
  case (Some j)
  from rb_okD(3) [OF ok Some] have st: "storable_job (released_job j)" by simp
  obtain b1 where b1: "on_redis (z_zrem R PROCESSING i) b = (Inr (), b1)" "rb_ok hsh zs b1" "rb_view hsh b1 = rb_view hsh b"
    "zs (rb_world b1) = (zs (rb_world b))(PROCESSING := (zs (rb_world b) PROCESSING)(i := None))"
    using rb_zrem_ok [OF laws ok set_keys_members(2)] by blast
  from rb_put_add_ok [OF laws b1(2) st set_keys_members(1) [of "job_priority j"], of i "calculateScore now (job_priority j)" i]
    b1 Some show ?thesis
    by (auto simp: rb_release_one_def rb_updateJobInternal_def comp_simps rb_getJob_ok [OF laws ok] requeued_one fun_upd_def)
qed

lemma rb_release_loop_ok:
  assumes laws: "zredis_laws R hsh zs"
  shows "distinct ids \<Longrightarrow> rb_ok hsh zs b \<Longrightarrow>
     \<exists>b'. rb_release_loop R now ids n b = (Inr (n + length (filter (\<lambda>i. rb_view hsh b i \<noteq> None) ids)), b') \<and> rb_ok hsh zs b'
       \<and> rb_view hsh b' = (\<lambda>i. if i \<in> set ids then map_option released_job (rb_view hsh b i) else rb_view hsh b i)
       \<and> zs (rb_world b') PROCESSING
           = (\<lambda>i. if i \<in> set ids \<and> rb_view hsh b i \<noteq> None then None else zs (rb_world b) PROCESSING i)
       \<and> (\<forall>p. zs (rb_world b') (getQueueKey p) = requeued now (rb_view hsh b) (set ids) (zs (rb_world b)) p)"
proof (induction ids arbitrary: b n)
  case Nil
  then show ?case by (simp add: comp_simps requeued_def)
next
  case (Cons i ids)
  obtain b1 where b1: "rb_release_one R now i b = (Inr (rb_view hsh b i \<noteq> None), b1)" "rb_ok hsh zs b1"
    "rb_view hsh b1 = (rb_view hsh b)(i := map_option released_job (rb_view hsh b i))"
    "zs (rb_world b1) PROCESSING
       = (\<lambda>i'. if i' = i \<and> rb_view hsh b i \<noteq> None then None else zs (rb_world b) PROCESSING i')"
    "\<And>p. zs (rb_world b1) (getQueueKey p) = requeued now (rb_view hsh b) {i} (zs (rb_world b)) p"
    using rb_release_one_ok [OF laws Cons.prems(2), of now i] by blast
  obtain b2 where b2: "rb_release_loop R now ids (if rb_view hsh b i \<noteq> None then n + 1 else n) b1
      = (Inr ((if rb_view hsh b i \<noteq> None then n + 1 else n) + length (filter (\<lambda>i. rb_view hsh b1 i \<noteq> None) ids)), b2)"
    "rb_ok hsh zs b2"
    "rb_view hsh b2 = (\<lambda>i. if i \<in> set ids then map_option released_job (rb_view hsh b1 i) else rb_view hsh b1 i)"
    "zs (rb_world b2) PROCESSING
       = (\<lambda>i. if i \<in> set ids \<and> rb_view hsh b1 i \<noteq> None then None else zs (rb_world b1) PROCESSING i)"
    "\<And>p. zs (rb_world b2) (getQueueKey p) = requeued now (rb_view hsh b1) (set ids) (zs (rb_world b1)) p"
    using Cons.IH [OF _ b1(2)] Cons.prems(1) by fastforce
  have flt: "filter (\<lambda>i. rb_view hsh b1 i \<noteq> None) ids = filter (\<lambda>i. rb_view hsh b i \<noteq> None) ids"
    using Cons.prems(1) b1(3) by (intro filter_cong) auto
  have run: "rb_release_loop R now (i # ids) n b = (Inr (n + length (filter (\<lambda>i. rb_view hsh b i \<noteq> None) (i # ids))), b2)"
    using b1(1) b2(1) [unfolded flt] by (simp add: comp_simps)
  have view: "rb_view hsh b2 = (\<lambda>i'. if i' \<in> set (i # ids) then map_option released_job (rb_view hsh b i') else rb_view hsh b i')"
    unfolding b2(3) using Cons.prems(1) by (intro ext) (auto simp: b1(3))
  have proc: "zs (rb_world b2) PROCESSING
       = (\<lambda>i'. if i' \<in> set (i # ids) \<and> rb_view hsh b i' \<noteq> None then None else zs (rb_world b) PROCESSING i')"
    unfolding b2(4) b1(4) using Cons.prems(1) by (intro ext) (auto simp: b1(3))
  have "zs (rb_world b2) (getQueueKey p) = requeued now (rb_view hsh b) (set (i # ids)) (zs (rb_world b)) p" for p
    unfolding b2(5) using Cons.prems(1) by (intro ext) (auto simp: b1(3,5) requeued_def)
  with run view proc b2(2) show ?case by blast
qed

lemma rb_refreshVisibility_ok:
  assumes laws: "zredis_laws R hsh zs" and ok: "rb_ok hsh zs b" and j: "rb_view hsh b i = Some j"
  shows "\<exists>b'. rb_refreshVisibility R now i t b = (Inr (), b') \<and> rb_ok hsh zs b'
       \<and> rb_view hsh b' = (rb_view hsh b)(i \<mapsto> j\<lparr> visibleAt := Some (now + t) \<rparr>)
       \<and> zs (rb_world b') = (zs (rb_world b))(PROCESSING := (zs (rb_world b) PROCESSING)(i \<mapsto> now + t))"
proof -
  from rb_okD(3) [OF ok j] have "storable_job (j\<lparr> visibleAt := Some (now + t) \<rparr>)" by simp
  from rb_put_add_ok [OF laws ok this set_keys_members(2), of i "now + t" i] j show ?thesis
    by (auto simp: rb_refreshVisibility_def rb_updateJobInternal_def comp_simps rb_getJob_ok [OF laws ok])
qed

lemma rb_releaseTimedOutJobs_ok:
  assumes laws: "zredis_laws R hsh zs" and ok: "rb_ok hsh zs b"
    and ids: "ids = {i. \<exists>n. zs (rb_world b) PROCESSING i = Some n \<and> 0 \<le> n \<and> n \<le> now}"
  shows "\<exists>b'. rb_releaseTimedOutJobs R now b = (Inr (card {i \<in> ids. rb_view hsh b i \<noteq> None}), b') \<and> rb_ok hsh zs b'
       \<and> rb_view hsh b' = (\<lambda>i. if i \<in> ids then map_option released_job (rb_view hsh b i) else rb_view hsh b i)
       \<and> zs (rb_world b') PROCESSING
           = (\<lambda>i. if i \<in> ids \<and> rb_view hsh b i \<noteq> None then None else zs (rb_world b) PROCESSING i)
       \<and> (\<forall>p. zs (rb_world b') (getQueueKey p) = requeued now (rb_view hsh b) ids (zs (rb_world b)) p)"
proof -
  obtain due where due: "z_zrangebyscore R PROCESSING 0 now (rb_world b) = (Inr due, rb_world b)" "distinct due" "set due = ids"
    using zredis_lawsD(7) [OF laws rb_okD(2) [OF ok set_keys_members(2)], of 0 now] ids by blast
  have "length (filter (\<lambda>i. rb_view hsh b i \<noteq> None) due) = card {i \<in> ids. rb_view hsh b i \<noteq> None}"
    using distinct_card [OF distinct_filter [OF due(2)], of "\<lambda>i. rb_view hsh b i \<noteq> None"] due(3)
    by (simp add: set_filter)
  moreover have "rb_releaseTimedOutJobs R now b = rb_release_loop R now due 0 b"
    using due(1) by (simp add: rb_releaseTimedOutJobs_def on_redis_def comp_simps)
  ultimately show ?thesis using rb_release_loop_ok [OF laws due(2) ok, of now 0] due(3) by simp
qed

section \<open>A reference server\<close>

text \<open>
  An in-memory server with sorted sets that satisfies the laws; it shows that they can
  hold and runs the examples.
\<close>

record mem_zredis =
  mz_hashes :: "string \<Rightarrow> (string, htext) jmap"
  mz_sets :: "string \<Rightarrow> (string, int) jmap"

definition mz_update :: "('b, 'c) jmap \<Rightarrow> ('b, 'c) jmap \<Rightarrow> ('b, 'c) jmap" where
  "mz_update h h' = h' @ h"

definition mem_zserver :: "mem_zredis zredis" where
  "mem_zserver =
     \<lparr> z_connect = cret (), z_quit = cret (), z_ping = cret (),
       z_hset = (\<lambda>k h. cmod (\<lambda>r. r\<lparr> mz_hashes := (mz_hashes r)(k := mz_update (mz_hashes r k) h) \<rparr>)),
       z_hgetall = (\<lambda>k. cget (\<lambda>r. mz_hashes r k)),
       z_zadd = (\<lambda>k n m. cmod (\<lambda>r. r\<lparr> mz_sets := (mz_sets r)(k := jset m n (mz_sets r k)) \<rparr>)),
       z_zpopmin = (\<lambda>k r. if mz_sets r k = [] then (Inr None, r)
          else let e = arg_min_list snd (AList.clearjunk (mz_sets r k))
               in (Inr (Some e), r\<lparr> mz_sets := (mz_sets r)(k := jdel (fst e) (mz_sets r k)) \<rparr>)),
       z_zrem = (\<lambda>k m. cmod (\<lambda>r. r\<lparr> mz_sets := (mz_sets r)(k := jdel m (mz_sets r k)) \<rparr>)),
       z_zcard = (\<lambda>k. cget (\<lambda>r. length (AList.clearjunk (mz_sets r k)))),
       z_zrange = (\<lambda>k. cget (\<lambda>r. map fst (sort_key snd (AList.clearjunk (mz_sets r k))))),
       z_zrank = (\<lambda>k m. cget (\<lambda>r. map_option (\<lambda>n. length (filter (\<lambda>e. snd e < n) (AList.clearjunk (mz_sets r k))))
                                    (map_of (mz_sets r k) m))),
       z_zrangebyscore = (\<lambda>k lo hi. cget (\<lambda>r.
          map fst (filter (\<lambda>e. lo \<le> snd e \<and> snd e \<le> hi) (sort_key snd (AList.clearjunk (mz_sets r k)))))) \<rparr>"

abbreviation mz_hash :: "mem_zredis \<Rightarrow> string \<Rightarrow> hash_data" where
  "mz_hash r k \<equiv> map_of (mz_hashes r k)"

abbreviation mz_set :: "mem_zredis \<Rightarrow> string \<Rightarrow> string \<rightharpoonup> int" where
  "mz_set r k \<equiv> map_of (mz_sets r k)"

lemma arg_min_entry:
  assumes "xs \<noteq> []" and "e = arg_min_list snd (AList.clearjunk xs)"
  shows "map_of xs (fst e) = Some (snd e) \<and> (\<forall>m n. map_of xs m = Some (n :: int) \<longrightarrow> snd e \<le> n)"
proof -
  let ?ys = "AList.clearjunk xs"
  have ne: "?ys \<noteq> []" using assms(1) by (cases xs) auto
  have mem: "(m, n) \<in> set ?ys \<longleftrightarrow> map_of xs m = Some n" for m n
    by (metis distinct_clearjunk map_of_clearjunk map_of_eq_Some_iff)
  have "snd e = Min (snd ` set ?ys)" using f_arg_min_list_f [OF ne] assms(2) by simp
  then have "map_of xs m = Some n \<Longrightarrow> snd e \<le> n" for m n
    using mem [of m n] by (metis List.finite_set Min_le finite_imageI image_eqI snd_conv)
  moreover have "(fst e, snd e) \<in> set ?ys" using arg_min_list_in [OF ne, of snd] assms(2) by simp
  ultimately show ?thesis using mem by blast
qed

lemma scores_between:
  defines "es xs lo hi \<equiv> filter (\<lambda>e. lo \<le> snd e \<and> snd e \<le> hi) (sort_key snd (AList.clearjunk xs))"
  shows "distinct (map fst (es xs lo (hi :: int)))"
    and "fst ` set (es xs lo hi) = {m. \<exists>n. map_of xs m = Some n \<and> lo \<le> n \<and> n \<le> hi}"
proof -
  have "distinct (map fst (sort_key snd (AList.clearjunk xs)))"
    using distinct_clearjunk [of xs] by (simp add: distinct_map) 
  then show "distinct (map fst (es xs lo hi))" unfolding es_def by (rule distinct_map_filter)
  have "(m, n) \<in> set (AList.clearjunk xs) \<longleftrightarrow> map_of xs m = Some n" for m n
    by (metis distinct_clearjunk map_of_clearjunk map_of_eq_Some_iff)
  then show "fst ` set (es xs lo hi) = {m. \<exists>n. map_of xs m = Some n \<and> lo \<le> n \<and> n \<le> hi}"
    unfolding es_def by force
qed

lemma mem_zserver_laws: "zredis_laws mem_zserver mz_hash mz_set"
proof -
  have pop: "mz_set r k \<noteq> Map.empty \<Longrightarrow>
      \<exists>m n r'. z_zpopmin mem_zserver k r = (Inr (Some (m, n)), r') \<and> mz_set r k m = Some n
        \<and> (\<forall>m' n'. mz_set r k m' = Some n' \<longrightarrow> n \<le> n')
        \<and> mz_set r' = (mz_set r)(k := (mz_set r k)(m := None)) \<and> mz_hash r' = mz_hash r" for r k
    using arg_min_entry [OF _ refl, of "mz_sets r k"]
    by (intro exI [of _ "fst (arg_min_list snd (AList.clearjunk (mz_sets r k)))"]
        exI [of _ "snd (arg_min_list snd (AList.clearjunk (mz_sets r k)))"])
      (auto simp: mem_zserver_def Let_def fun_eq_iff)
  have range: "\<exists>ms. z_zrangebyscore mem_zserver k lo hi r = (Inr ms, r) \<and> distinct ms
        \<and> set ms = {m. \<exists>n. mz_set r k m = Some n \<and> lo \<le> n \<and> n \<le> hi}" for r k lo hi
    using scores_between [where xs = "mz_sets r k" and lo = lo and hi = hi]
    by (simp add: mem_zserver_def comp_simps)
  have none: "mz_set r k = Map.empty \<Longrightarrow> z_zpopmin mem_zserver k r = (Inr None, r)" for r k
    by (simp add: mem_zserver_def)
  show ?thesis
    unfolding zredis_laws_def
    by (intro conjI allI impI pop range none)
      (auto simp: mem_zserver_def comp_simps mz_update_def fun_eq_iff map_add_def split: option.split)
qed

text \<open>A backend on the reference server with a low and a high priority job.\<close>

definition sample_rb :: "mem_zredis redis_backend" where
  "sample_rb =
     snd (rb_enqueue mem_zserver 2 (sample_job ''b'' High)
       (snd (rb_enqueue mem_zserver 1 (sample_job ''a'' Low)
         (rb_new \<lparr> mz_hashes = (\<lambda>_. []), mz_sets = (\<lambda>_. []) \<rparr>))))"

lemma sample_rb_facts:
  "rb_ok mz_hash mz_set sample_rb"
  "rb_view mz_hash sample_rb = [''a'' \<mapsto> sample_job ''a'' Low, ''b'' \<mapsto> sample_job ''b'' High]"
  "mz_set (rb_world sample_rb) QUEUE_HIGH = [''b'' \<mapsto> 2]"
  "mz_set (rb_world sample_rb) QUEUE_NORMAL = Map.empty"
  "mz_set (rb_world sample_rb) QUEUE_LOW = [''a'' \<mapsto> 2000000000001]"
proof -
  let ?b0 = "rb_new \<lparr> mz_hashes = (\<lambda>_. []), mz_sets = (\<lambda>_. []) \<rparr>"
  have ok0: "rb_ok mz_hash mz_set ?b0" "rb_view mz_hash ?b0 = Map.empty" "mz_sets (rb_world ?b0) k = []" for k
    by (simp_all add: rb_ok_def rb_view_def rb_new_def fun_eq_iff)
  have st: "storable_job (sample_job i p)" for i p by (simp add: storable_job_def sample_job_def)
  have fld: "job_id (sample_job i p) = i" "job_priority (sample_job i p) = p" for i p by (simp_all add: sample_job_def)
  obtain b1 where b1: "rb_enqueue mem_zserver 1 (sample_job ''a'' Low) ?b0 = (Inr (), b1)" "rb_ok mz_hash mz_set b1"
    "rb_view mz_hash b1 = [''a'' \<mapsto> sample_job ''a'' Low]"
    "mz_set (rb_world b1) = (\<lambda>_. Map.empty)(QUEUE_LOW := [''a'' \<mapsto> 2000000000001])"
    using rb_enqueue_ok [OF mem_zserver_laws ok0(1) st refl, of 1 "''a''" Low] ok0(2,3)
    by (auto simp: fld calculateScore_def PRIORITY_OFFSETS_def getQueueKey_def)
  obtain b2 where b2: "rb_enqueue mem_zserver 2 (sample_job ''b'' High) b1 = (Inr (), b2)" "rb_ok mz_hash mz_set b2"
    "rb_view mz_hash b2 = (rb_view mz_hash b1)(''b'' \<mapsto> sample_job ''b'' High)"
    "mz_set (rb_world b2) = (mz_set (rb_world b1))(QUEUE_HIGH := (mz_set (rb_world b1) QUEUE_HIGH)(''b'' \<mapsto> 2))"
    using rb_enqueue_ok [OF mem_zserver_laws b1(2) st refl, of 2 "''b''" High]
    by (auto simp: fld calculateScore_def PRIORITY_OFFSETS_def getQueueKey_def)
  have sb: "sample_rb = b2" using b1(1) b2(1) by (simp add: sample_rb_def)
  show "rb_ok mz_hash mz_set sample_rb" using b2(2) sb by simp
  show "rb_view mz_hash sample_rb = [''a'' \<mapsto> sample_job ''a'' Low, ''b'' \<mapsto> sample_job ''b'' High]"
    using b2(3) b1(3) sb by simp
  have keys: "QUEUE_HIGH \<noteq> QUEUE_LOW" "QUEUE_NORMAL \<noteq> QUEUE_LOW" "QUEUE_NORMAL \<noteq> QUEUE_HIGH"
    by (simp_all add: QUEUE_HIGH_def QUEUE_NORMAL_def QUEUE_LOW_def)
  show "mz_set (rb_world sample_rb) QUEUE_HIGH = [''b'' \<mapsto> 2]"
    "mz_set (rb_world sample_rb) QUEUE_NORMAL = Map.empty"
    "mz_set (rb_world sample_rb) QUEUE_LOW = [''a'' \<mapsto> 2000000000001]"
    using b2(4) b1(4) sb keys by (simp_all add: fun_eq_iff)
qed

lemma sample_rb_queued: "queued_stored mz_hash mz_set sample_rb"
proof -
  have "mz_set (rb_world sample_rb) (getQueueKey p) i \<noteq> None \<Longrightarrow> i \<noteq> [] \<and> rb_view mz_hash sample_rb i \<noteq> None" for p i
    by (cases p) (auto simp: getQueueKey_def sample_rb_facts split: if_splits)
  then show ?thesis by (simp add: queued_stored_def)
qed

section \<open>Properties\<close>


text \<open>
  On a server with the documented behaviour, dequeuing takes, from the first priority
  with a queued job, a job of least score; the job is handed out and stored as started,
  leaves its queue, and is in the processing set with the time its visibility ends.
\<close>

lemma redis_dequeue_order:
  assumes "zredis_laws R hsh zs" and "rb_ok hsh zs b" and "queued_stored hsh zs b"
    and "[High, Normal, Low] = before @ p # after" and "\<forall>q\<in>set before. zs (rb_world b) (getQueueKey q) = Map.empty"
    and "zs (rb_world b) (getQueueKey p) \<noteq> Map.empty"
  shows "\<exists>i n j b'. zs (rb_world b) (getQueueKey p) i = Some n
       \<and> (\<forall>i' n'. zs (rb_world b) (getQueueKey p) i' = Some n' \<longrightarrow> n \<le> n')
       \<and> rb_view hsh b i = Some j \<and> rb_dequeue R now None b = (Inr (Some (started_job now j)), b')
       \<and> rb_ok hsh zs b' \<and> rb_view hsh b' = (rb_view hsh b)(i \<mapsto> started_job now j)
       \<and> zs (rb_world b') (getQueueKey p) i = None
       \<and> zs (rb_world b') PROCESSING i = Some (now + visibilityTimeout j)"
  using rb_dequeue_from_order [OF assms, of now] by (simp add: rb_dequeue_def del: rb_dequeue_from.simps)



text \<open>
  Refreshing the visibility of a job that has been completed (or is dead) puts it in
  the processing set, and the release of timed-out jobs at the refreshed time then makes
  it pending and queues it, so that it is executed again.
\<close>

lemma redis_refresh_revives_completed_job:
  assumes "zredis_laws R hsh zs" and "rb_ok hsh zs b" and "rb_view hsh b i = Some j" and "status j = Completed"
    and "0 \<le> now + t" and "now + t \<le> later"
  shows "\<exists>b1 n b'. rb_refreshVisibility R now i t b = (Inr (), b1)
       \<and> rb_releaseTimedOutJobs R later b1 = (Inr n, b')
       \<and> map_option status (rb_view hsh b' i) = Some Pending
       \<and> zs (rb_world b') (getQueueKey (job_priority j)) i = Some (calculateScore later (job_priority j))"
proof -
  obtain b1 where b1: "rb_refreshVisibility R now i t b = (Inr (), b1)" "rb_ok hsh zs b1"
    "rb_view hsh b1 = (rb_view hsh b)(i \<mapsto> j\<lparr> visibleAt := Some (now + t) \<rparr>)"
    "zs (rb_world b1) = (zs (rb_world b))(PROCESSING := (zs (rb_world b) PROCESSING)(i \<mapsto> now + t))"
    using rb_refreshVisibility_ok [OF assms(1-3)] by blast
  let ?ids = "{i. \<exists>n. zs (rb_world b1) PROCESSING i = Some n \<and> 0 \<le> n \<and> n \<le> later}"
  have i: "i \<in> ?ids" using b1(4) assms(5,6) by simp
  obtain n b' where "rb_releaseTimedOutJobs R later b1 = (Inr n, b')"
    "rb_view hsh b' = (\<lambda>i. if i \<in> ?ids then map_option released_job (rb_view hsh b1 i) else rb_view hsh b1 i)"
    "\<And>p. zs (rb_world b') (getQueueKey p) = requeued later (rb_view hsh b1) ?ids (zs (rb_world b1)) p"
    using rb_releaseTimedOutJobs_ok [OF assms(1) b1(2) refl, of later] by blast
  with b1(1,3) i show ?thesis
    by (intro exI [of _ b1] exI [of _ n] exI [of _ b']) (simp add: requeued_def)
qed

end
