(* ===== verification/Routing.thy ===== *)
theory Routing
  imports Messages
begin

text \<open>
  The routing rules (\<open>router/routing-rules.ts\<close>): where a message goes by its type,
  and which fields it must have.
\<close>

datatype route_target = To_agency | To_humancy | To_channel | Broadcast_humancy | Broadcast_agency

definition target_name :: "route_target \<Rightarrow> string" where
  "target_name t =
     (case t of To_agency \<Rightarrow> ''agency'' | To_humancy \<Rightarrow> ''humancy'' | To_channel \<Rightarrow> ''channel''
      | Broadcast_humancy \<Rightarrow> ''broadcast_humancy'' | Broadcast_agency \<Rightarrow> ''broadcast_agency'')"

record routing_decision =
  rd_target :: route_target
  rd_targetId :: "string option"
  rd_expectsResponse :: bool

definition determineRoute :: "message_envelope \<Rightarrow> js_error + routing_decision" where
  "determineRoute m =
     (case env_type m of
        Decision_request \<Rightarrow>
          Inr \<lparr> rd_target = Broadcast_humancy, rd_targetId = None, rd_expectsResponse = True \<rparr>
      | Decision_response \<Rightarrow>
          (case destination m of
             None \<Rightarrow> Inl (RoutingError ''decision_response requires destination (Agency ID)'' m)
           | Some d \<Rightarrow> Inr \<lparr> rd_target = To_agency, rd_targetId = Some (ep_id d), rd_expectsResponse = False \<rparr>)
      | Mode_command \<Rightarrow>
          (case destination m of
             None \<Rightarrow> Inl (RoutingError ''mode_command requires destination (Agency ID)'' m)
           | Some d \<Rightarrow> Inr \<lparr> rd_target = To_agency, rd_targetId = Some (ep_id d), rd_expectsResponse = False \<rparr>)
      | Workflow_event \<Rightarrow>
          Inr \<lparr> rd_target = Broadcast_humancy, rd_targetId = None, rd_expectsResponse = False \<rparr>
      | Channel_message \<Rightarrow>
          if \<not> truthy (channel m) then Inl (RoutingError ''channel_message requires channel field'' m)
          else Inr \<lparr> rd_target = To_channel, rd_targetId = channel m, rd_expectsResponse = False \<rparr>
      | Other_type t \<Rightarrow> Inl (RoutingError (''Unknown message type: '' @ t) m))"

definition validateMessageForRouting :: "message_envelope \<Rightarrow> js_error + unit" where
  "validateMessageForRouting m =
     (if env_id m = [] then Inl (RoutingError ''Message must have an id'' m)
      else if env_type m = Other_type [] then Inl (RoutingError ''Message must have a type'' m)
      else if source m = None then Inl (RoutingError ''Message must have a source'' m)
      else
        (case env_type m of
           Decision_response \<Rightarrow>
             if \<not> truthy (correlationId m) then Inl (RoutingError ''decision_response requires correlationId'' m)
             else Inr ()
         | Channel_message \<Rightarrow>
             if \<not> truthy (channel m) then Inl (RoutingError ''channel_message requires channel field'' m)
             else Inr ()
         | _ \<Rightarrow> Inr ()))"

definition expectsResponse :: "message_type \<Rightarrow> bool" where
  "expectsResponse t = (t = Decision_request)"

definition getSourceTypeConstraint :: "message_type \<Rightarrow> endpoint_type option" where
  "getSourceTypeConstraint t =
     (case t of
        Decision_request \<Rightarrow> Some Ep_agency
      | Decision_response \<Rightarrow> Some Ep_humancy
      | Mode_command \<Rightarrow> Some Ep_router
      | Workflow_event \<Rightarrow> Some Ep_router
      | Channel_message \<Rightarrow> None
      | Other_type _ \<Rightarrow> None)"

section \<open>Lemmas\<close>

text \<open>
  A decision names a target id exactly when the target is a single recipient, so the
  non-null assertions of the router (\<open>decision.targetId!\<close>) are justified.
\<close>

lemma determineRoute_targetId:
  assumes "determineRoute m = Inr d"
  shows "(rd_target d \<in> {To_agency, To_humancy, To_channel}) = (rd_targetId d \<noteq> None)"
    and "rd_expectsResponse d = expectsResponse (env_type m)"
    and "rd_target d \<in> {To_agency, To_channel, Broadcast_humancy}"
  using assms
  by (auto simp: determineRoute_def expectsResponse_def truthy_def
      split: message_type.splits option.splits if_splits)

lemma determineRoute_error:
  "determineRoute m = Inl e \<Longrightarrow> \<exists>t. e = RoutingError t m"
  by (auto simp: determineRoute_def split: message_type.splits option.splits if_splits)

lemma validateMessage_error:
  "validateMessageForRouting m = Inl e \<Longrightarrow> \<exists>t. e = RoutingError t m"
  by (auto simp: validateMessageForRouting_def split: message_type.splits if_splits)

text \<open>
  A message that passes validation can still be refused by \<open>determineRoute\<close>, and
  exactly for these two reasons: an unknown type, or a missing destination.
\<close>

lemma validated_route:
  assumes "validateMessageForRouting m = Inr ()"
  shows "(\<exists>d. determineRoute m = Inr d) \<longleftrightarrow>
     (case env_type m of
        Other_type _ \<Rightarrow> False
      | Decision_response \<Rightarrow> destination m \<noteq> None
      | Mode_command \<Rightarrow> destination m \<noteq> None
      | _ \<Rightarrow> True)"
  using assms
  by (auto simp: determineRoute_def validateMessageForRouting_def
      split: message_type.splits option.splits if_splits)

end
