(* ===== verification/NamedRegistry.thy ===== *)
theory NamedRegistry
  imports Messages
begin

text \<open>
  The contract shared by the registries of the program: connections of either side,
  channels, agents. A registry maps names to entries; registering a taken name throws
  and changes nothing, and in a strict registry so does unregistering a free one.
\<close>

locale named_registry =
  fixes find :: "'s \<Rightarrow> string \<Rightarrow> 'v option"
    and add :: "'a \<Rightarrow> ('s, unit) js"
    and rem :: "string \<Rightarrow> ('s, unit) js"
    and name_of :: "'s \<Rightarrow> 'a \<Rightarrow> string"
    and allowed :: "'s \<Rightarrow> 'a \<Rightarrow> bool"
  assumes add_new: "allowed s a \<Longrightarrow> find s (name_of s a) = None \<Longrightarrow>
      \<exists>s' v. add a s = (Inr (), s') \<and> find s' = (find s)(name_of s a \<mapsto> v) \<and>
             name_of s' a = name_of s a \<and> allowed s' a"
    and add_taken: "allowed s a \<Longrightarrow> find s (name_of s a) = Some v \<Longrightarrow> \<exists>e. add a s = (Inl e, s)"
    and rem_found: "find s n = Some v \<Longrightarrow>
      \<exists>s'. rem n s = (Inr (), s') \<and> find s' = (find s)(n := None) \<and>
           (\<forall>a. name_of s' a = name_of s a \<and> allowed s' a = allowed s a)"
begin

text \<open>Registering and unregistering a free name leaves every lookup as it was.\<close>

lemma add_rem_find:
  assumes "allowed s a" and "find s (name_of s a) = None"
  shows "\<exists>s1 s2. add a s = (Inr (), s1) \<and> rem (name_of s a) s1 = (Inr (), s2) \<and> find s2 = find s"
proof -
  obtain s1 v where s1: "add a s = (Inr (), s1)" "find s1 = (find s)(name_of s a \<mapsto> v)"
    using add_new [OF assms] by blast
  then obtain s2 where "rem (name_of s a) s1 = (Inr (), s2)" "find s2 = (find s1)(name_of s a := None)"
    using rem_found [of s1 "name_of s a" v] by auto
  with s1 assms show ?thesis by (auto simp: fun_upd_idem)
qed

text \<open>A name is registered at most once until it is unregistered.\<close>

lemma add_twice_throws:
  assumes "allowed s a" and "add a s = (Inr (), s1)"
  shows "\<exists>e. add a s1 = (Inl e, s1)"
proof (cases "find s (name_of s a)")
  case None
  then obtain v where "find s1 = (find s)(name_of s a \<mapsto> v)" "name_of s1 a = name_of s a" "allowed s1 a"
    using add_new [OF assms(1)] assms(2) by auto
  then show ?thesis using add_taken [of s1 a v] by simp
next
  case (Some v)
  then show ?thesis using add_taken [OF assms(1)] assms(2) by auto
qed

text \<open>Unregistering makes the name free for a new registration.\<close>

lemma rem_add:
  assumes "allowed s a" and "find s (name_of s a) = Some v"
  shows "\<exists>s1 s2. rem (name_of s a) s = (Inr (), s1) \<and> add a s1 = (Inr (), s2) \<and>
           (\<forall>n. n \<noteq> name_of s a \<longrightarrow> find s2 n = find s n)"
proof -
  obtain s1 where s1: "rem (name_of s a) s = (Inr (), s1)" "find s1 = (find s)(name_of s a := None)"
    "name_of s1 a = name_of s a" "allowed s1 a"
    using rem_found [OF assms(2)] assms(1) by auto
  then obtain s2 w where "add a s1 = (Inr (), s2)" "find s2 = (find s1)(name_of s a \<mapsto> w)"
    using add_new [of s1 a] by auto
  with s1 show ?thesis by auto
qed

end

text \<open>A registry that also refuses to unregister a free name.\<close>

locale strict_registry = named_registry find add rem name_of allowed
  for find :: "'s \<Rightarrow> string \<Rightarrow> 'v option"
    and add :: "'a \<Rightarrow> ('s, unit) js"
    and rem :: "string \<Rightarrow> ('s, unit) js"
    and name_of :: "'s \<Rightarrow> 'a \<Rightarrow> string"
    and allowed :: "'s \<Rightarrow> 'a \<Rightarrow> bool" +
  assumes rem_missing: "find s n = None \<Longrightarrow> \<exists>e. rem n s = (Inl e, s)"
begin

lemma rem_twice_throws:
  assumes "rem n s = (Inr (), s1)"
  shows "\<exists>e. rem n s1 = (Inl e, s1)"
proof (cases "find s n")
  case None
  from rem_missing [OF this] assms show ?thesis by auto
next
  case (Some v)
  then have "find s1 n = None" using rem_found [OF Some] assms by auto
  then show ?thesis by (rule rem_missing)
qed

end

end
