(* ===== verification/Connections.thy ===== *)
theory Connections
  imports NamedRegistry Emitter
begin

text \<open>
  Connections (\<open>connections/agency-connection.ts\<close>, \<open>connections/humancy-connection.ts\<close>,
  \<open>types/connections.ts\<close>) and their registry (\<open>connections/connection-registry.ts\<close>).
  Connection objects live in a heap, because the registry, the router and their
  owner share them and because the disconnect handlers they hold outlive their
  registration. The transport's \<open>sendFn\<close> and \<open>closeFn\<close> are parameters that act on
  an outside world. Every operation runs to its end before the next one starts.
\<close>

section \<open>Connection objects\<close>

datatype connection_status = Online | Offline

datatype humancy_type = Vscode | Cloud

text \<open>
  The callbacks the program stores in a connection: the registry's disconnect
  handler, the router's handlers of incoming messages, and handlers of others.
\<close>

datatype disconnect_handler = Mark_offline recipient string | Other_disconnect nat

datatype message_handler = Route_incoming recipient | Other_message nat

record connection =
  co_connectionType :: recipient
  co_id :: string
  co_type :: "humancy_type option"
  co_closed :: bool
  co_messageHandlers :: "message_handler list"
  co_disconnectHandlers :: "disconnect_handler list"

definition isAgencyConnection :: "connection \<Rightarrow> bool" where
  "isAgencyConnection c = (co_connectionType c = Agency)"

definition isHumancyConnection :: "connection \<Rightarrow> bool" where
  "isHumancyConnection c = (co_connectionType c = Humancy)"

record 'w transport =
  sendFn :: "nat \<Rightarrow> message_envelope \<Rightarrow> ('w, unit) js"
  closeFn :: "nat \<Rightarrow> ('w, unit) js option"

section \<open>The registry's state\<close>

record registered_connection =
  rc_connection :: nat
  rc_status :: connection_status
  rc_registeredAt :: int
  rc_lastSeenAt :: int

datatype registry_event =
    Registered recipient string nat
  | Unregistered recipient string
  | Went_online recipient string
  | Went_offline recipient string

datatype registry_kind = Kr_registered recipient | Kr_unregistered recipient | Kr_online recipient | Kr_offline recipient

definition registry_event_kind :: "registry_event \<Rightarrow> registry_kind" where
  "registry_event_kind e =
     (case e of Registered t _ _ \<Rightarrow> Kr_registered t | Unregistered t _ \<Rightarrow> Kr_unregistered t
      | Went_online t _ \<Rightarrow> Kr_online t | Went_offline t _ \<Rightarrow> Kr_offline t)"

record 'w registry =
  rg_heap :: "connection list"
  rg_world :: 'w
  rg_agencies :: "(string, registered_connection) jmap"
  rg_humancyInstances :: "(string, registered_connection) jmap"
  rg_listeners :: "registry_kind listeners"
  rg_calls :: "(listener \<times> registry_event) list"

definition new_registry :: "'w \<Rightarrow> 'w registry" where
  "new_registry w =
     \<lparr> rg_heap = [], rg_world = w, rg_agencies = [], rg_humancyInstances = [], rg_listeners = [], rg_calls = [] \<rparr>"

definition rg_on :: "registry_kind \<Rightarrow> listener \<Rightarrow> ('w, 'z) registry_scheme \<Rightarrow> ('w, 'z) registry_scheme" where
  "rg_on k l s = s\<lparr> rg_listeners := ls_on k l (rg_listeners s) \<rparr>"

definition rg_off :: "registry_kind \<Rightarrow> listener \<Rightarrow> ('w, 'z) registry_scheme \<Rightarrow> ('w, 'z) registry_scheme" where
  "rg_off k l s = s\<lparr> rg_listeners := ls_off k l (rg_listeners s) \<rparr>"

definition rg_emit :: "registry_event \<Rightarrow> ('w, 'z) registry_scheme \<Rightarrow> ('w, 'z) registry_scheme" where
  "rg_emit e s = s\<lparr> rg_calls := rg_calls s @ ls_emit (rg_listeners s) (registry_event_kind e) e \<rparr>"

interpretation rge: emitter rg_listeners rg_calls registry_event_kind rg_on rg_off rg_emit
  by unfold_locales (simp_all add: rg_on_def rg_off_def rg_emit_def)

text \<open>The map of one side, \<open>type === 'agency' ? this.agencies : this.humancyInstances\<close>.\<close>

definition side :: "recipient \<Rightarrow> ('w, 'z) registry_scheme \<Rightarrow> (string, registered_connection) jmap" where
  "side t s = (case t of Agency \<Rightarrow> rg_agencies s | Humancy \<Rightarrow> rg_humancyInstances s)"

definition set_side ::
    "recipient \<Rightarrow> (string, registered_connection) jmap \<Rightarrow> ('w, 'z) registry_scheme \<Rightarrow> ('w, 'z) registry_scheme" where
  "set_side t m s =
     (case t of Agency \<Rightarrow> s\<lparr> rg_agencies := m \<rparr> | Humancy \<Rightarrow> s\<lparr> rg_humancyInstances := m \<rparr>)"

lemma side_set_side [simp]: "side t (set_side u m s) = (if t = u then m else side t s)"
  by (simp add: side_def set_side_def split: recipient.split)

lemma set_side_frame [simp]:
  "rg_heap (set_side t m s) = rg_heap s" "rg_world (set_side t m s) = rg_world s"
  "rg_listeners (set_side t m s) = rg_listeners s" "rg_calls (set_side t m s) = rg_calls s"
  "registry.more (set_side t m s) = registry.more s"
  by (simp_all add: set_side_def split: recipient.split)

lemma side_frame [simp]:
  "side t (s\<lparr> rg_heap := h \<rparr>) = side t s" "side t (s\<lparr> rg_world := w \<rparr>) = side t s"
  "side t (s\<lparr> rg_calls := cs \<rparr>) = side t s" "side t (s\<lparr> rg_listeners := ls \<rparr>) = side t s"
  by (simp_all add: side_def split: recipient.split)

section \<open>Operations of a connection\<close>

definition on_world :: "('w, 'a) js \<Rightarrow> (('w, 'z) registry_scheme, 'a) js" where
  "on_world f s = (case f (rg_world s) of (r, w) \<Rightarrow> (r, s\<lparr> rg_world := w \<rparr>))"

text \<open>Dereferencing an object; a reference that was never created is an error.\<close>

definition object :: "nat \<Rightarrow> (('w, 'z) registry_scheme, connection) js" where
  "object r s = (if r < length (rg_heap s) then (Inr (rg_heap s ! r), s) else (Inl (Plain_error ''undefined''), s))"

definition set_object :: "nat \<Rightarrow> connection \<Rightarrow> ('w, 'z) registry_scheme \<Rightarrow> ('w, 'z) registry_scheme" where
  "set_object r c s = s\<lparr> rg_heap := (rg_heap s)[r := c] \<rparr>"

definition new_object :: "connection \<Rightarrow> ('w, 'z) registry_scheme \<Rightarrow> nat \<times> ('w, 'z) registry_scheme" where
  "new_object c s = (length (rg_heap s), s\<lparr> rg_heap := rg_heap s @ [c] \<rparr>)"

definition createAgencyConnection :: "string \<Rightarrow> ('w, 'z) registry_scheme \<Rightarrow> nat \<times> ('w, 'z) registry_scheme" where
  "createAgencyConnection i s =
     new_object \<lparr> co_connectionType = Agency, co_id = i, co_type = None, co_closed = False,
                  co_messageHandlers = [], co_disconnectHandlers = [] \<rparr> s"

definition createHumancyConnection ::
    "string \<Rightarrow> humancy_type \<Rightarrow> ('w, 'z) registry_scheme \<Rightarrow> nat \<times> ('w, 'z) registry_scheme" where
  "createHumancyConnection i ht s =
     new_object \<lparr> co_connectionType = Humancy, co_id = i, co_type = Some ht, co_closed = False,
                  co_messageHandlers = [], co_disconnectHandlers = [] \<rparr> s"

definition conn_send :: "'w transport \<Rightarrow> nat \<Rightarrow> message_envelope \<Rightarrow> (('w, 'z) registry_scheme, unit) js" where
  "conn_send tr r m =
     cbind (object r) (\<lambda>c.
       if co_closed c
       then cthrow (Plain_error (''Cannot send to closed '' @ recipient_name (co_connectionType c)
                                 @ '' connection: '' @ co_id c))
       else on_world (sendFn tr r m))"

definition conn_onMessage :: "nat \<Rightarrow> message_handler \<Rightarrow> (('w, 'z) registry_scheme, unit) js" where
  "conn_onMessage r h =
     cbind (object r) (\<lambda>c. cmod (set_object r (c\<lparr> co_messageHandlers := co_messageHandlers c @ [h] \<rparr>)))"

definition conn_onDisconnect :: "nat \<Rightarrow> disconnect_handler \<Rightarrow> (('w, 'z) registry_scheme, unit) js" where
  "conn_onDisconnect r h =
     cbind (object r) (\<lambda>c. cmod (set_object r (c\<lparr> co_disconnectHandlers := co_disconnectHandlers c @ [h] \<rparr>)))"

text \<open>
  \<open>dispatchToAgency\<close> is documented to hand a message to the connection's handlers;
  its body is empty.
\<close>

definition dispatchToAgency :: "nat \<Rightarrow> message_envelope \<Rightarrow> (('w, 'z) registry_scheme, unit) js" where
  "dispatchToAgency r m = cret ()"

section \<open>Operations of the registry\<close>

definition fresh_entry :: "int \<Rightarrow> nat \<Rightarrow> registered_connection" where
  "fresh_entry now r = \<lparr> rc_connection = r, rc_status = Online, rc_registeredAt = now, rc_lastSeenAt = now \<rparr>"

definition register_connection :: "recipient \<Rightarrow> int \<Rightarrow> nat \<Rightarrow> (('w, 'z) registry_scheme, unit) js" where
  "register_connection t now r =
     cbind (object r) (\<lambda>c. \<lambda>s.
       if jhas (side t s) (co_id c) then cthrow (ConnectionExistsError t (co_id c)) s
       else cbind (cmod (\<lambda>s. set_side t (jset (co_id c) (fresh_entry now r) (side t s)) s)) (\<lambda>_.
            cbind (conn_onDisconnect r (Mark_offline t (co_id c))) (\<lambda>_.
            cmod (rg_emit (Registered t (co_id c) r)))) s)"

definition unregister_connection :: "recipient \<Rightarrow> string \<Rightarrow> (('w, 'z) registry_scheme, unit) js" where
  "unregister_connection t i s =
     (case jget (side t s) i of
        None \<Rightarrow> cthrow (ConnectionNotFoundError t i) s
      | Some _ \<Rightarrow> (Inr (), rg_emit (Unregistered t i) (set_side t (jdel i (side t s)) s)))"

definition mark_offline :: "recipient \<Rightarrow> int \<Rightarrow> string \<Rightarrow> ('w, 'z) registry_scheme \<Rightarrow> ('w, 'z) registry_scheme" where
  "mark_offline t now i s =
     (case jget (side t s) i of
        None \<Rightarrow> s
      | Some e \<Rightarrow>
          if rc_status e = Offline then s
          else rg_emit (Went_offline t i)
                 (set_side t (jset i (e\<lparr> rc_status := Offline, rc_lastSeenAt := now \<rparr>) (side t s)) s))"

text \<open>\<open>onReconnectDelivery\<close> is the callback set by the persistence layer, if any.\<close>

definition mark_online ::
    "(recipient \<Rightarrow> string \<Rightarrow> (('w, 'z) registry_scheme, unit) js) option \<Rightarrow> recipient \<Rightarrow> int \<Rightarrow> string
       \<Rightarrow> (('w, 'z) registry_scheme, unit) js" where
  "mark_online onReconnectDelivery t now i s =
     (case jget (side t s) i of
        None \<Rightarrow> cthrow (ConnectionNotFoundError t i) s
      | Some e \<Rightarrow>
          if rc_status e = Online then (Inr (), s)
          else
            (let s1 = rg_emit (Went_online t i)
                        (set_side t (jset i (e\<lparr> rc_status := Online, rc_lastSeenAt := now \<rparr>) (side t s)) s)
             in case onReconnectDelivery of None \<Rightarrow> (Inr (), s1) | Some deliver \<Rightarrow> deliver t i s1))"

definition registerAgency :: "int \<Rightarrow> nat \<Rightarrow> (('w, 'z) registry_scheme, unit) js" where
  "registerAgency = register_connection Agency"

definition unregisterAgency :: "string \<Rightarrow> (('w, 'z) registry_scheme, unit) js" where
  "unregisterAgency = unregister_connection Agency"

definition markAgencyOffline :: "int \<Rightarrow> string \<Rightarrow> ('w, 'z) registry_scheme \<Rightarrow> ('w, 'z) registry_scheme" where
  "markAgencyOffline = mark_offline Agency"

definition markAgencyOnline where
  "markAgencyOnline deliver = mark_online deliver Agency"

definition registerHumancy :: "int \<Rightarrow> nat \<Rightarrow> (('w, 'z) registry_scheme, unit) js" where
  "registerHumancy = register_connection Humancy"

definition unregisterHumancy :: "string \<Rightarrow> (('w, 'z) registry_scheme, unit) js" where
  "unregisterHumancy = unregister_connection Humancy"

definition markHumancyOffline :: "int \<Rightarrow> string \<Rightarrow> ('w, 'z) registry_scheme \<Rightarrow> ('w, 'z) registry_scheme" where
  "markHumancyOffline = mark_offline Humancy"

definition markHumancyOnline where
  "markHumancyOnline deliver = mark_online deliver Humancy"

definition getAgency :: "('w, 'z) registry_scheme \<Rightarrow> string \<Rightarrow> registered_connection option" where
  "getAgency s i = jget (rg_agencies s) i"

definition getHumancy :: "('w, 'z) registry_scheme \<Rightarrow> string \<Rightarrow> registered_connection option" where
  "getHumancy s i = jget (rg_humancyInstances s) i"

definition online :: "registered_connection \<Rightarrow> bool" where
  "online e = (rc_status e = Online)"

definition getOnlineAgencies :: "('w, 'z) registry_scheme \<Rightarrow> registered_connection list" where
  "getOnlineAgencies s = filter online (jvals (rg_agencies s))"

definition getAllAgencies :: "('w, 'z) registry_scheme \<Rightarrow> registered_connection list" where
  "getAllAgencies s = jvals (rg_agencies s)"

definition hasAgency :: "('w, 'z) registry_scheme \<Rightarrow> string \<Rightarrow> bool" where
  "hasAgency s i = jhas (rg_agencies s) i"

definition getOnlineHumancyInstances :: "('w, 'z) registry_scheme \<Rightarrow> registered_connection list" where
  "getOnlineHumancyInstances s = filter online (jvals (rg_humancyInstances s))"

definition getAllHumancyInstances :: "('w, 'z) registry_scheme \<Rightarrow> registered_connection list" where
  "getAllHumancyInstances s = jvals (rg_humancyInstances s)"

definition hasHumancy :: "('w, 'z) registry_scheme \<Rightarrow> string \<Rightarrow> bool" where
  "hasHumancy s i = jhas (rg_humancyInstances s) i"

definition getStatus :: "('w, 'z) registry_scheme \<Rightarrow> recipient \<Rightarrow> string \<Rightarrow> connection_status option" where
  "getStatus s t i = map_option rc_status (jget (side t s) i)"

definition touch :: "recipient \<Rightarrow> int \<Rightarrow> string \<Rightarrow> ('w, 'z) registry_scheme \<Rightarrow> ('w, 'z) registry_scheme" where
  "touch t now i s =
     (case jget (side t s) i of
        None \<Rightarrow> s
      | Some e \<Rightarrow> set_side t (jset i (e\<lparr> rc_lastSeenAt := now \<rparr>) (side t s)) s)"

definition updateLastSeen :: "recipient \<Rightarrow> int \<Rightarrow> string \<Rightarrow> ('w, 'z) registry_scheme \<Rightarrow> ('w, 'z) registry_scheme" where
  "updateLastSeen = touch"

definition sendTo ::
    "'w transport \<Rightarrow> int \<Rightarrow> recipient \<Rightarrow> string \<Rightarrow> message_envelope \<Rightarrow> (('w, 'z) registry_scheme, bool) js" where
  "sendTo tr now t i m s =
     (case jget (side t s) i of
        None \<Rightarrow> (Inr False, s)
      | Some e \<Rightarrow>
          if rc_status e \<noteq> Online then (Inr False, s)
          else
            ctry (cbind (conn_send tr (rc_connection e) m) (\<lambda>_.
                  cbind (cmod (touch t now i)) (\<lambda>_. cret True)))
              (\<lambda>_. cbind (cmod (case t of Agency \<Rightarrow> markAgencyOffline now i | Humancy \<Rightarrow> markHumancyOffline now i))
                     (\<lambda>_. cret False)) s)"

text \<open>Closing a connection: its disconnect handlers run once, then the transport closes.\<close>

definition run_disconnect :: "int \<Rightarrow> disconnect_handler \<Rightarrow> (('w, 'z) registry_scheme, unit) js" where
  "run_disconnect now h =
     (case h of Mark_offline t i \<Rightarrow> cmod (mark_offline t now i) | Other_disconnect _ \<Rightarrow> cret ())"

definition conn_close :: "'w transport \<Rightarrow> int \<Rightarrow> nat \<Rightarrow> (('w, 'z) registry_scheme, unit) js" where
  "conn_close tr now r =
     cbind (object r) (\<lambda>c.
       if co_closed c then cret ()
       else
         cbind (cmod (set_object r (c\<lparr> co_closed := True \<rparr>))) (\<lambda>_.
         cbind (cfor (co_disconnectHandlers c) (\<lambda>h. ctry (run_disconnect now h) (\<lambda>_. cret ()))) (\<lambda>_.
         case closeFn tr r of None \<Rightarrow> cret () | Some f \<Rightarrow> on_world f)))"

text \<open>\<open>Promise.allSettled\<close>: a close that fails does not stop the others.\<close>

definition close_quietly :: "'w transport \<Rightarrow> int \<Rightarrow> registered_connection \<Rightarrow> (('w, 'z) registry_scheme, unit) js" where
  "close_quietly tr now e = ctry (conn_close tr now (rc_connection e)) (\<lambda>_. cret ())"

definition closeAll :: "'w transport \<Rightarrow> int \<Rightarrow> (('w, 'z) registry_scheme, unit) js" where
  "closeAll tr now =
     cbind (\<lambda>s. cfor (jvals (rg_agencies s)) (close_quietly tr now) s) (\<lambda>_.
     cbind (\<lambda>s. cfor (jvals (rg_humancyInstances s)) (close_quietly tr now) s) (\<lambda>_.
     cmod (\<lambda>s. s\<lparr> rg_agencies := [], rg_humancyInstances := [], rg_listeners := [] \<rparr>)))"

record side_stats =
  st_total :: nat
  st_online :: nat
  st_offline :: nat

definition side_getStats :: "registered_connection list \<Rightarrow> side_stats" where
  "side_getStats es =
     \<lparr> st_total = length es, st_online = length (filter (\<lambda>e. rc_status e = Online) es),
       st_offline = length (filter (\<lambda>e. rc_status e = Offline) es) \<rparr>"

definition getStats :: "('w, 'z) registry_scheme \<Rightarrow> side_stats \<times> side_stats" where
  "getStats s = (side_getStats (jvals (rg_agencies s)), side_getStats (jvals (rg_humancyInstances s)))"

section \<open>Mock connections\<close>

text \<open>
  \<open>createMockAgencyConnection\<close> and \<open>createMockHumancyConnection\<close>: the transport
  of a mock keeps what it is sent, and the test can trigger its disconnect handlers.
\<close>

definition mock_transport :: "(nat \<times> message_envelope) list transport" where
  "mock_transport = \<lparr> sendFn = (\<lambda>r m w. (Inr (), w @ [(r, m)])), closeFn = (\<lambda>_. None) \<rparr>"

definition receivedMessages :: "nat \<Rightarrow> ((nat \<times> message_envelope) list, 'z) registry_scheme \<Rightarrow> message_envelope list" where
  "receivedMessages r s = map snd (filter (\<lambda>(r', m). r' = r) (rg_world s))"

definition triggerDisconnect :: "int \<Rightarrow> nat \<Rightarrow> (('w, 'z) registry_scheme, unit) js" where
  "triggerDisconnect now r = cbind (object r) (\<lambda>c. cfor (co_disconnectHandlers c) (run_disconnect now))"

section \<open>Contracts\<close>

lemmas conn_defs = conn_onMessage_def conn_onDisconnect_def object_def set_object_def rg_emit_def comp_simps

lemma side_rg_emit [simp]: "side t (rg_emit e s) = side t s" "rg_heap (rg_emit e s) = rg_heap s"
  "rg_world (rg_emit e s) = rg_world s" "registry.more (rg_emit e s) = registry.more s"
  by (simp_all add: rg_emit_def)

text \<open>Either side of the registry is a registry of connection ids.\<close>

definition reference :: "('w, 'z) registry_scheme \<Rightarrow> nat \<Rightarrow> bool" where
  "reference s r = (r < length (rg_heap s))"

definition object_id :: "('w, 'z) registry_scheme \<Rightarrow> nat \<Rightarrow> string" where
  "object_id s r = (if reference s r then co_id (rg_heap s ! r) else [])"

lemma register_connection_new:
  assumes "reference s r" and "jget (side t s) (object_id s r) = None"
  shows "register_connection t now r s =
    (Inr (), rg_emit (Registered t (object_id s r) r)
       (set_object r ((rg_heap s ! r)\<lparr> co_disconnectHandlers :=
           co_disconnectHandlers (rg_heap s ! r) @ [Mark_offline t (object_id s r)] \<rparr>)
         (set_side t (jset (object_id s r) (fresh_entry now r) (side t s)) s)))"
  using assms by (simp add: register_connection_def conn_defs object_id_def reference_def)

lemma set_object_frame [simp]:
  "side t (set_object r c s) = side t s" "reference (set_object r c s) q = reference s q"
  by (simp_all add: set_object_def reference_def)

lemma object_id_update [simp]:
  "object_id (set_object r (c\<lparr> co_disconnectHandlers := hs \<rparr>) s) q
     = (if q = r \<and> reference s r then co_id c else object_id s q)"
  "object_id (set_object r (c\<lparr> co_messageHandlers := ms \<rparr>) s) q
     = (if q = r \<and> reference s r then co_id c else object_id s q)"
  "object_id (set_object r (c\<lparr> co_closed := b \<rparr>) s) q
     = (if q = r \<and> reference s r then co_id c else object_id s q)"
  by (auto simp: object_id_def set_object_def reference_def)

lemma reference_frame [simp]:
  "reference (rg_emit e s) r = reference s r" "reference (set_side t m s) r = reference s r"
  "object_id (rg_emit e s) r = object_id s r" "object_id (set_side t m s) r = object_id s r"
  by (simp_all add: reference_def object_id_def)

lemma connection_registry_contract:
  "strict_registry (\<lambda>s :: ('w, 'z) registry_scheme. jget (side t s)) (register_connection t now)
     (unregister_connection t) object_id reference"
proof
  fix s :: "('w, 'z) registry_scheme" and r v
  assume "reference s r" and "jget (side t s) (object_id s r) = Some v"
  then show "\<exists>e. register_connection t now r s = (Inl e, s)"
    by (auto simp: register_connection_def conn_defs object_id_def reference_def)
next
  fix s :: "('w, 'z) registry_scheme" and r
  assume new: "reference s r" "jget (side t s) (object_id s r) = None"
  then have "co_id (rg_heap s ! r) = object_id s r" by (simp add: object_id_def)
  with new show "\<exists>s' v. register_connection t now r s = (Inr (), s')
      \<and> jget (side t s') = (jget (side t s))(object_id s r \<mapsto> v) \<and> object_id s' r = object_id s r \<and> reference s' r"
    by (auto simp: register_connection_new update_conv')
next
  fix s :: "('w, 'z) registry_scheme" and i v
  assume "jget (side t s) i = Some v"
  then show "\<exists>s'. unregister_connection t i s = (Inr (), s') \<and> jget (side t s') = (jget (side t s))(i := None)
      \<and> (\<forall>r. object_id s' r = object_id s r \<and> reference s' r = reference s r)"
    by (auto simp: unregister_connection_def delete_conv')
qed (simp add: unregister_connection_def comp_simps)

interpretation agencies: strict_registry "\<lambda>s :: ('w, 'z) registry_scheme. jget (side Agency s)"
    "register_connection Agency now" "unregister_connection Agency" object_id reference for now
  by (rule connection_registry_contract)

interpretation humancies: strict_registry "\<lambda>s :: ('w, 'z) registry_scheme. jget (side Humancy s)"
    "register_connection Humancy now" "unregister_connection Humancy" object_id reference for now
  by (rule connection_registry_contract)

section \<open>Properties\<close>

lemma mark_offline_frame [simp]:
  "rg_heap (mark_offline t now i s) = rg_heap s" "rg_world (mark_offline t now i s) = rg_world s"
  by (simp_all add: mark_offline_def split: option.split)

lemma mark_offline_side:
  "jget (side u (mark_offline t now i s)) k =
     (if u = t \<and> k = i
      then map_option (\<lambda>e. if rc_status e = Offline then e else e\<lparr> rc_status := Offline, rc_lastSeenAt := now \<rparr>)
             (jget (side t s) i)
      else jget (side u s) k)"
  by (auto simp: mark_offline_def split: option.split)

lemma touch_side:
  "jget (side u (touch t now i s)) k =
     (if u = t \<and> k = i then map_option (\<lambda>e. e\<lparr> rc_lastSeenAt := now \<rparr>) (jget (side t s) i)
      else jget (side u s) k)"
  "rg_heap (touch t now i s) = rg_heap s" "rg_world (touch t now i s) = rg_world s"
  by (auto simp: touch_def split: option.split)

text \<open>What has to hold for a message to get through to a recipient.\<close>

definition reachable_by :: "'w transport \<Rightarrow> message_envelope \<Rightarrow> recipient \<Rightarrow> string \<Rightarrow> ('w, 'z) registry_scheme \<Rightarrow> bool" where
  "reachable_by tr m t i s =
     (case jget (side t s) i of
        None \<Rightarrow> False
      | Some e \<Rightarrow> rc_status e = Online \<and> reference s (rc_connection e)
                  \<and> \<not> co_closed (rg_heap s ! rc_connection e)
                  \<and> fst (sendFn tr (rc_connection e) m (rg_world s)) = Inr ())"

lemma conn_send_result:
  "(fst (conn_send tr r m s) = Inr ()) =
     (reference s r \<and> \<not> co_closed (rg_heap s ! r) \<and> fst (sendFn tr r m (rg_world s)) = Inr ())"
  by (auto simp: conn_send_def conn_defs reference_def on_world_def split: prod.split sum.split)

lemma conn_send_frame:
  "rg_heap (snd (conn_send tr r m s)) = rg_heap s" "side t (snd (conn_send tr r m s)) = side t s"
  by (auto simp: conn_send_def conn_defs on_world_def split: prod.split sum.split)

text \<open>
  Sending through the registry never throws. It answers true exactly when the
  recipient is registered and online, its connection is open and the transport takes
  the message; afterwards the recipient is online if and only if the answer was true
  (so a recipient whose send failed is no longer offered messages), and the entries
  of all other recipients and all connection objects are untouched.
\<close>

lemma sendTo_outcome:
  "\<exists>b s'. sendTo tr now t i m s = (Inr b, s')
     \<and> b = reachable_by tr m t i s
     \<and> (getStatus s' t i = Some Online) = b
     \<and> (\<forall>u k. (u, k) = (t, i) \<or> jget (side u s') k = jget (side u s) k)
     \<and> rg_heap s' = rg_heap s"
proof (cases "jget (side t s) i")
  case None
  then show ?thesis by (auto simp: sendTo_def reachable_by_def getStatus_def)
next
  case (Some e)
  show ?thesis
  proof (cases "rc_status e = Online")
    case False
    with Some show ?thesis by (auto simp: sendTo_def reachable_by_def getStatus_def)
  next
    case True
    obtain res s1 where send: "conn_send tr (rc_connection e) m s = (res, s1)" by fastforce
    have s1: "rg_heap s1 = rg_heap s" "side u s1 = side u s" for u
      using conn_send_frame [where tr = tr and r = "rc_connection e" and m = m and s = s] send by simp_all
    have ok: "reachable_by tr m t i s \<longleftrightarrow> res = Inr ()"
      using conn_send_result [of tr "rc_connection e" m s] send Some True by (simp add: reachable_by_def)
    have off: "(case t of Agency \<Rightarrow> markAgencyOffline now i | Humancy \<Rightarrow> markHumancyOffline now i) = mark_offline t now i"
      by (cases t) (simp_all add: markAgencyOffline_def markHumancyOffline_def)
    show ?thesis
      using Some True send ok
      by (cases res) (auto simp: sendTo_def comp_simps off s1 getStatus_def mark_offline_side touch_side)
  qed
qed

text \<open>The registry's invariant: references are valid and entries stand under their object's id.\<close>

definition reg_inv :: "('w, 'z) registry_scheme \<Rightarrow> bool" where
  "reg_inv s \<longleftrightarrow> (\<forall>t. jok (side t s) \<and>
     (\<forall>i e. jget (side t s) i = Some e \<longrightarrow> reference s (rc_connection e) \<and> object_id s (rc_connection e) = i))"

lemma run_disconnect_total: "\<exists>s'. run_disconnect now h s = (Inr (), s') \<and> rg_heap s' = rg_heap s"
  by (cases h) (simp_all add: run_disconnect_def comp_simps)

lemma disconnects_heap:
  "\<exists>s'. cfor hs (\<lambda>h. ctry (run_disconnect now h) (\<lambda>_. cret ())) s = (Inr (), s') \<and> rg_heap s' = rg_heap s"
proof (induction hs arbitrary: s)
  case Nil
  then show ?case by (simp add: comp_simps)
next
  case (Cons h hs)
  obtain s1 where s1: "run_disconnect now h s = (Inr (), s1)" "rg_heap s1 = rg_heap s"
    using run_disconnect_total by blast
  with Cons [of s1] show ?case by (auto simp: comp_simps)
qed

lemma close_quietly_heap:
  "\<exists>s'. close_quietly tr now e s = (Inr (), s') \<and> rg_heap s' =
     (if reference s (rc_connection e)
      then (rg_heap s)[rc_connection e := (rg_heap s ! rc_connection e)\<lparr> co_closed := True \<rparr>] else rg_heap s)"
proof -
  let ?r = "rc_connection e"
  let ?c = "rg_heap s ! ?r"
  let ?s = "s\<lparr> rg_heap := (rg_heap s)[?r := ?c\<lparr> co_closed := True \<rparr>] \<rparr>"
  obtain s1 where s1: "cfor (co_disconnectHandlers ?c) (\<lambda>h. ctry (run_disconnect now h) (\<lambda>_. cret ())) ?s
      = (Inr (), s1)" "rg_heap s1 = rg_heap ?s"
    using disconnects_heap by blast
  have "?c\<lparr> co_closed := True \<rparr> = ?c" if "co_closed ?c"
    using that by (cases ?c) simp
  then have same: "(rg_heap s)[?r := ?c\<lparr> co_closed := True \<rparr>] = rg_heap s" if "co_closed ?c"
    using that by (metis list_update_id)
  obtain res w where f: "(case closeFn tr ?r of None \<Rightarrow> cret () | Some f \<Rightarrow> on_world f) s1 = (res, s1\<lparr> rg_world := w \<rparr>)"
  proof (cases "closeFn tr ?r")
    case None
    then show ?thesis using that [of "Inr ()" "rg_world s1"] by (simp add: comp_simps)
  next
    case (Some f)
    obtain res w where "f (rg_world s1) = (res, w)" by fastforce
    then show ?thesis using that [of res w] Some by (simp add: on_world_def)
  qed
  show ?thesis
    using s1 f same
    by (cases res; cases "co_closed ?c"; cases "?r < length (rg_heap s)")
      (simp_all add: close_quietly_def conn_close_def conn_defs reference_def)
qed

lemma close_list_heap:
  assumes "\<And>e. e \<in> set es \<Longrightarrow> reference s (rc_connection e)"
  shows "\<exists>s'. cfor es (close_quietly tr now) s = (Inr (), s') \<and> length (rg_heap s') = length (rg_heap s) \<and>
     (\<forall>r. rg_heap s' ! r = (if r \<in> rc_connection ` set es then (rg_heap s ! r)\<lparr> co_closed := True \<rparr> else rg_heap s ! r))"
  using assms
proof (induction es arbitrary: s)
  case Nil
  then show ?case by (simp add: comp_simps)
next
  case (Cons e es)
  obtain s1 where s1: "close_quietly tr now e s = (Inr (), s1)"
    "rg_heap s1 = (rg_heap s)[rc_connection e := (rg_heap s ! rc_connection e)\<lparr> co_closed := True \<rparr>]"
    using close_quietly_heap [of tr now e s] Cons.prems by auto
  moreover have "\<And>e. e \<in> set es \<Longrightarrow> reference s1 (rc_connection e)"
    using Cons.prems s1(2) by (simp add: reference_def)
  ultimately obtain s2 where s2: "cfor es (close_quietly tr now) s1 = (Inr (), s2)"
    "length (rg_heap s2) = length (rg_heap s1)"
    "\<forall>r. rg_heap s2 ! r = (if r \<in> rc_connection ` set es then (rg_heap s1 ! r)\<lparr> co_closed := True \<rparr> else rg_heap s1 ! r)"
    using Cons.IH [of s1] by blast
  have "rc_connection e < length (rg_heap s)" using Cons.prems by (simp add: reference_def)
  with s1 s2 show ?case by (auto simp: comp_simps nth_list_update)
qed

text \<open>Which objects are registered under which ids; closing connections does not change it.\<close>

definition refs_of :: "recipient \<Rightarrow> ('w, 'z) registry_scheme \<Rightarrow> (string \<times> nat) list" where
  "refs_of t s = map (\<lambda>(i, e). (i, rc_connection e)) (side t s)"

lemma refs_of_jset:
  "jget m i = Some e \<Longrightarrow> rc_connection e' = rc_connection e \<Longrightarrow>
     map (\<lambda>(i, e). (i, rc_connection e)) (jset i e' m) = map (\<lambda>(i, e). (i, rc_connection e)) m"
  by (induction m) (auto split: if_splits)

lemma refs_of_simps [simp]:
  "refs_of t (s\<lparr> rg_heap := h \<rparr>) = refs_of t s" "refs_of t (s\<lparr> rg_world := w \<rparr>) = refs_of t s"
  by (simp_all add: refs_of_def)

lemma refs_of_mark_offline [simp]: "refs_of u (mark_offline t now i s) = refs_of u s"
proof (cases "jget (side t s) i")
  case None
  then show ?thesis by (simp add: mark_offline_def)
next
  case (Some e)
  then show ?thesis
    using refs_of_jset [OF Some, of "e\<lparr> rc_status := Offline, rc_lastSeenAt := now \<rparr>"]
    by (simp add: mark_offline_def refs_of_def)
qed

lemma refs_of_close: "refs_of t (snd (close_quietly tr now e s)) = refs_of t s"
proof -
  have run: "refs_of t (snd (cfor hs (\<lambda>h. ctry (run_disconnect now h) (\<lambda>_. cret ())) s')) = refs_of t s'" for hs and s' :: "('a, 'b) registry_scheme"
    by (rule cfor_invariant) (auto simp: comp_simps run_disconnect_def split: disconnect_handler.split)
  obtain c where "object (rc_connection e) s = (c, s)"
    by (cases "rc_connection e < length (rg_heap s)") (simp_all add: object_def)
  then show ?thesis
    using run [of "co_disconnectHandlers (projr c)" "set_object (rc_connection e) ((projr c)\<lparr> co_closed := True \<rparr>) s"]
    by (auto simp: close_quietly_def conn_close_def comp_simps set_object_def on_world_def
        split: sum.splits prod.splits option.splits)
qed

lemma refs_of_close_list: "refs_of t (snd (cfor es (close_quietly tr now) s)) = refs_of t s"
  by (rule cfor_invariant) (simp_all add: refs_of_close)

lemma refs_of_values: "rc_connection ` set (jvals (side t s)) = snd ` set (refs_of t s)"
  by (auto simp: refs_of_def image_iff) force+

text \<open>
  Closing the registry never throws, even when transports fail to close: both maps
  end up empty, every connection that was registered is closed, and no other
  connection object changes.
\<close>

lemma closeAll_closes:
  assumes "reg_inv s"
  shows "\<exists>s'. closeAll tr now s = (Inr (), s') \<and> side Agency s' = [] \<and> side Humancy s' = []
     \<and> (\<forall>t i e. jget (side t s) i = Some e \<longrightarrow> co_closed (rg_heap s' ! rc_connection e))
     \<and> (\<forall>r. (\<forall>t i e. jget (side t s) i = Some e \<longrightarrow> rc_connection e \<noteq> r) \<longrightarrow> rg_heap s' ! r = rg_heap s ! r)"
proof -
  have refs: "reference s (rc_connection e)" if "e \<in> set (jvals (side t s))" for t e
    using that assms by (force simp: reg_inv_def)
  obtain s1 where s1: "cfor (jvals (side Agency s)) (close_quietly tr now) s = (Inr (), s1)"
    "length (rg_heap s1) = length (rg_heap s)"
    "\<forall>r. rg_heap s1 ! r = (if r \<in> rc_connection ` set (jvals (side Agency s))
        then (rg_heap s ! r)\<lparr> co_closed := True \<rparr> else rg_heap s ! r)"
    using close_list_heap [of "jvals (side Agency s)" s tr now] refs by blast
  have same: "rc_connection ` set (jvals (side Humancy s1)) = rc_connection ` set (jvals (side Humancy s))"
    using refs_of_close_list [of Humancy "jvals (side Agency s)" tr now s] s1(1) unfolding refs_of_values by simp
  have "reference s1 (rc_connection e)" if "e \<in> set (jvals (side Humancy s1))" for e
  proof -
    have "rc_connection e \<in> rc_connection ` set (jvals (side Humancy s))"
      unfolding same [symmetric] using that by (rule imageI)
    then obtain e' where "rc_connection e = rc_connection e'" and "e' \<in> set (jvals (side Humancy s))"
      by (rule imageE)
    then show ?thesis using refs [of e' Humancy] s1(2) by (simp add: reference_def)
  qed
  then obtain s2 where s2: "cfor (jvals (side Humancy s1)) (close_quietly tr now) s1 = (Inr (), s2)"
    "\<forall>r. rg_heap s2 ! r = (if r \<in> rc_connection ` set (jvals (side Humancy s))
        then (rg_heap s1 ! r)\<lparr> co_closed := True \<rparr> else rg_heap s1 ! r)"
    using close_list_heap [of "jvals (side Humancy s1)" s1 tr now] unfolding same by blast
  let ?s = "s2\<lparr> rg_agencies := [], rg_humancyInstances := [], rg_listeners := [] \<rparr>"
  have run: "closeAll tr now s = (Inr (), ?s)"
    using s1(1) s2(1) by (simp add: closeAll_def comp_simps side_def)
  have mem: "(\<exists>i e. jget (side t s) i = Some e \<and> rc_connection e = r) \<longleftrightarrow> r \<in> rc_connection ` set (jvals (side t s))" for t r
  proof -
    have "jok (side t s)" using assms by (simp add: reg_inv_def)
    then have "(\<exists>i e. jget (side t s) i = Some e \<and> rc_connection e = r)
        \<longleftrightarrow> (\<exists>p \<in> set (side t s). rc_connection (snd p) = r)"
      by (simp add: jok_get_iff) (metis snd_conv prod.collapse)
    then show ?thesis by (auto simp: image_iff)
  qed
  have two: "(\<exists>t. r \<in> rc_connection ` set (jvals (side t s))) \<longleftrightarrow>
      r \<in> rc_connection ` set (jvals (side Agency s)) \<or> r \<in> rc_connection ` set (jvals (side Humancy s))" for r
    by (metis recipient.exhaust)
  have heap: "rg_heap ?s ! r = (if \<exists>t i e. jget (side t s) i = Some e \<and> rc_connection e = r
      then (rg_heap s ! r)\<lparr> co_closed := True \<rparr> else rg_heap s ! r)" for r
    unfolding mem two using s1(3) s2(2) by simp
  have "side Agency ?s = []" "side Humancy ?s = []" by (simp_all add: side_def)
  moreover have "co_closed (rg_heap ?s ! rc_connection e)" if "jget (side t s) i = Some e" for t i e
    unfolding heap using that by auto
  moreover have "rg_heap ?s ! r = rg_heap s ! r" if "\<forall>t i e. jget (side t s) i = Some e \<longrightarrow> rc_connection e \<noteq> r" for r
    unfolding heap using that by auto
  ultimately show ?thesis using run by blast
qed

definition sample_registry :: "(nat \<times> message_envelope) list registry" where
  "sample_registry = snd (registerAgency 5 0 (snd (createAgencyConnection ''a'' (new_registry []))))"

lemmas registry_run = registerAgency_def registerHumancy_def unregisterAgency_def unregisterHumancy_def
  register_connection_def unregister_connection_def createAgencyConnection_def createHumancyConnection_def
  new_object_def new_registry_def conn_defs side_def set_side_def fresh_entry_def

lemma sample_registry_eq: "sample_registry =
  \<lparr> rg_heap = [\<lparr> co_connectionType = Agency, co_id = ''a'', co_type = None, co_closed = False,
                  co_messageHandlers = [], co_disconnectHandlers = [Mark_offline Agency ''a''] \<rparr>],
    rg_world = [], rg_agencies = [(''a'', fresh_entry 5 0)], rg_humancyInstances = [], rg_listeners = [], rg_calls = [] \<rparr>"
  by (simp add: sample_registry_def registry_run ls_emit_def)

text \<open>
  Registration of an agency: a free id is taken, registering the connection again throws
  and changes nothing, and unregistering makes every lookup what it was before.
\<close>

lemma agency_registration:
  assumes "reference s r" and "getAgency s (object_id s r) = None"
  shows "\<exists>s1 s2. registerAgency now r s = (Inr (), s1)
     \<and> (\<exists>e. registerAgency now r s1 = (Inl e, s1))
     \<and> unregisterAgency (object_id s r) s1 = (Inr (), s2)
     \<and> (\<exists>e. unregisterAgency (object_id s r) s2 = (Inl e, s2))
     \<and> getAgency s2 = getAgency s"
proof -
  have side: "getAgency s = jget (side Agency s)" for s :: "('a, 'b) registry_scheme"
    by (auto simp: getAgency_def side_def)
  obtain s1 s2 where run: "registerAgency now r s = (Inr (), s1)"
    "unregisterAgency (object_id s r) s1 = (Inr (), s2)" "getAgency s2 = getAgency s"
    using agencies.add_rem_find [OF assms [unfolded side], of now]
    by (auto simp: side registerAgency_def unregisterAgency_def)
  moreover have "\<exists>e. registerAgency now r s1 = (Inl e, s1)"
    using agencies.add_twice_throws [OF assms(1)] run(1) by (simp add: registerAgency_def)
  moreover have "\<exists>e. unregisterAgency (object_id s r) s2 = (Inl e, s2)"
    using agencies.rem_twice_throws run(2) by (simp add: unregisterAgency_def)
  ultimately show ?thesis by blast
qed

text \<open>
  A stale connection takes its successor offline: after an agency is unregistered and a
  new connection is registered under the same id, closing the old connection marks
  the new one offline, although the new one is open and was never touched.
\<close>

lemma stale_close_marks_successor_offline:
  "\<exists>s1 s2 s3 s4. registerAgency 1 0 (snd (createAgencyConnection ''a'' (new_registry []))) = (Inr (), s1)
     \<and> unregisterAgency ''a'' s1 = (Inr (), s2)
     \<and> registerAgency 2 1 (snd (createAgencyConnection ''a'' s2)) = (Inr (), s3)
     \<and> getStatus s3 Agency ''a'' = Some Online
     \<and> conn_close mock_transport 3 0 s3 = (Inr (), s4)
     \<and> \<not> co_closed (rg_heap s4 ! 1)
     \<and> getStatus s4 Agency ''a'' = Some Offline"
  by (simp add: registry_run ls_emit_def conn_close_def run_disconnect_def mark_offline_def getStatus_def
      mock_transport_def)

end
