(* ===== verification/Correlation.thy ===== *)
theory Correlation
  imports Messages Emitter
begin

text \<open>
  The correlation manager (\<open>router/correlation-manager.ts\<close>). A promise is named
  by a number; the calls made to its \<open>resolve\<close> or \<open>reject\<close> are recorded in
  \<open>cm_settled\<close>, and the first of them is the promise's outcome. A timer that is
  armed stands in \<open>cm_timers\<close> under its handle. The object's operations and the
  firing of due timers are the steps of a machine with a clock.
\<close>

datatype outcome = Resolved message_envelope | Rejected js_error

datatype correlation_event =
    Correlation_started string message_envelope
  | Correlation_completed string "message_envelope option" message_envelope
  | Correlation_timeout string "message_envelope option"
  | Correlation_cancelled string

datatype correlation_kind = Kc_started | Kc_completed | Kc_timeout | Kc_cancelled

definition correlation_event_kind :: "correlation_event \<Rightarrow> correlation_kind" where
  "correlation_event_kind e =
     (case e of Correlation_started _ _ \<Rightarrow> Kc_started | Correlation_completed _ _ _ \<Rightarrow> Kc_completed
      | Correlation_timeout _ _ \<Rightarrow> Kc_timeout | Correlation_cancelled _ \<Rightarrow> Kc_cancelled)"

text \<open>
  The request is \<open>None\<close> while it is the empty object \<open>{}\<close> that
  \<open>waitForCorrelation\<close> stores.
\<close>

record pending_correlation =
  pc_request :: "message_envelope option"
  pc_sentAt :: int
  pc_deadline :: int
  pc_promise :: nat
  pc_timeoutHandle :: nat

text \<open>
  An armed timer with what its callback has captured: the correlation id, the
  promise to reject and, for \<open>waitForResponse\<close>, the request.
\<close>

record armed_timer =
  tm_due :: int
  tm_correlationId :: string
  tm_promise :: nat
  tm_request :: "message_envelope option"

record correlation_manager =
  cm_pending :: "(string, pending_correlation) jmap"
  cm_timers :: "(nat, armed_timer) jmap"
  cm_settled :: "(nat \<times> outcome) list"
  cm_next :: nat
  cm_listeners :: "correlation_kind listeners"
  cm_calls :: "(listener \<times> correlation_event) list"

definition new_correlation_manager :: correlation_manager where
  "new_correlation_manager =
     \<lparr> cm_pending = [], cm_timers = [], cm_settled = [], cm_next = 0, cm_listeners = [], cm_calls = [] \<rparr>"

section \<open>Operations\<close>

definition cm_on :: "correlation_kind \<Rightarrow> listener \<Rightarrow> correlation_manager \<Rightarrow> correlation_manager" where
  "cm_on k l s = s\<lparr> cm_listeners := ls_on k l (cm_listeners s) \<rparr>"

definition cm_off :: "correlation_kind \<Rightarrow> listener \<Rightarrow> correlation_manager \<Rightarrow> correlation_manager" where
  "cm_off k l s = s\<lparr> cm_listeners := ls_off k l (cm_listeners s) \<rparr>"

definition cm_emit :: "correlation_event \<Rightarrow> correlation_manager \<Rightarrow> correlation_manager" where
  "cm_emit e s = s\<lparr> cm_calls := cm_calls s @ ls_emit (cm_listeners s) (correlation_event_kind e) e \<rparr>"

interpretation cme: emitter cm_listeners cm_calls correlation_event_kind cm_on cm_off cm_emit
  by unfold_locales (simp_all add: cm_on_def cm_off_def cm_emit_def)

definition cm_settle :: "nat \<Rightarrow> outcome \<Rightarrow> correlation_manager \<Rightarrow> correlation_manager" where
  "cm_settle p r s = s\<lparr> cm_settled := cm_settled s @ [(p, r)] \<rparr>"

definition already_pending :: "string \<Rightarrow> js_error" where
  "already_pending cid = Plain_error (''Correlation '' @ cid @ '' is already pending'')"

text \<open>The executor of the promise: arm the timer and store the pending entry.\<close>

definition cm_begin ::
    "int \<Rightarrow> string \<Rightarrow> int \<Rightarrow> message_envelope option \<Rightarrow> correlation_manager \<Rightarrow> nat \<times> correlation_manager" where
  "cm_begin now cid timeout req s =
     (let n = cm_next s
      in (n, s\<lparr> cm_next := Suc n,
                cm_timers := jset n \<lparr> tm_due = now + timeout, tm_correlationId = cid, tm_promise = n,
                                      tm_request = req \<rparr> (cm_timers s),
                cm_pending := jset cid \<lparr> pc_request = req, pc_sentAt = now, pc_deadline = now + timeout,
                                         pc_promise = n, pc_timeoutHandle = n \<rparr> (cm_pending s) \<rparr>))"

text \<open>\<open>Promise.reject(e)\<close>: a promise that is rejected from the start.\<close>

definition cm_rejected :: "js_error \<Rightarrow> correlation_manager \<Rightarrow> nat \<times> correlation_manager" where
  "cm_rejected e s = (cm_next s, cm_settle (cm_next s) (Rejected e) (s\<lparr> cm_next := Suc (cm_next s) \<rparr>))"

definition waitForCorrelation :: "int \<Rightarrow> string \<Rightarrow> int \<Rightarrow> correlation_manager \<Rightarrow> nat \<times> correlation_manager" where
  "waitForCorrelation now cid timeout s =
     (if jhas (cm_pending s) cid then cm_rejected (already_pending cid) s
      else cm_begin now cid timeout None s)"

definition setRequest :: "string \<Rightarrow> message_envelope \<Rightarrow> correlation_manager \<Rightarrow> correlation_manager" where
  "setRequest cid request s =
     (case jget (cm_pending s) cid of
        None \<Rightarrow> s
      | Some p \<Rightarrow> cm_emit (Correlation_started cid request)
                    (s\<lparr> cm_pending := jset cid (p\<lparr> pc_request := Some request \<rparr>) (cm_pending s) \<rparr>))"

text \<open>
  \<open>waitForResponse\<close> is \<open>async\<close>: what it throws rejects the promise it returns.
\<close>

definition waitForResponse ::
    "int \<Rightarrow> message_envelope \<Rightarrow> int \<Rightarrow> correlation_manager \<Rightarrow> nat \<times> correlation_manager" where
  "waitForResponse now request timeout s =
     (if \<not> truthy (correlationId request)
      then cm_rejected (Plain_error ''Request must have a correlationId'') s
      else
        (let cid = the (correlationId request)
         in if jhas (cm_pending s) cid then cm_rejected (already_pending cid) s
            else (case cm_begin now cid timeout (Some request) s of
                    (n, s') \<Rightarrow> (n, cm_emit (Correlation_started cid request) s'))))"

definition correlate :: "string \<Rightarrow> message_envelope \<Rightarrow> correlation_manager \<Rightarrow> bool \<times> correlation_manager" where
  "correlate cid response s =
     (case jget (cm_pending s) cid of
        None \<Rightarrow> (False, s)
      | Some p \<Rightarrow>
          (let s1 = s\<lparr> cm_timers := jdel (pc_timeoutHandle p) (cm_timers s),
                       cm_pending := jdel cid (cm_pending s) \<rparr>;
               s2 = cm_emit (Correlation_completed cid (pc_request p) response) s1
           in (True, cm_settle (pc_promise p) (Resolved response) s2)))"

definition cm_cancel :: "string \<Rightarrow> correlation_manager \<Rightarrow> bool \<times> correlation_manager" where
  "cm_cancel cid s =
     (case jget (cm_pending s) cid of
        None \<Rightarrow> (False, s)
      | Some p \<Rightarrow>
          (let s1 = s\<lparr> cm_timers := jdel (pc_timeoutHandle p) (cm_timers s),
                       cm_pending := jdel cid (cm_pending s) \<rparr>;
               s2 = cm_emit (Correlation_cancelled cid) s1
           in (True, cm_settle (pc_promise p) (Rejected (CorrelationCancelledError cid)) s2)))"

definition isPending :: "correlation_manager \<Rightarrow> string \<Rightarrow> bool" where
  "isPending s cid = jhas (cm_pending s) cid"

definition pendingCount :: "correlation_manager \<Rightarrow> nat" where
  "pendingCount s = length (cm_pending s)"

record pending_info =
  pi_correlationId :: string
  pi_requestId :: "string option"
  pi_sentAt :: int
  pi_deadline :: int
  pi_remainingMs :: int

definition getPendingInfo :: "int \<Rightarrow> correlation_manager \<Rightarrow> pending_info list" where
  "getPendingInfo now s =
     map (\<lambda>(cid, p). \<lparr> pi_correlationId = cid, pi_requestId = map_option env_id (pc_request p),
            pi_sentAt = pc_sentAt p, pi_deadline = pc_deadline p,
            pi_remainingMs = max 0 (pc_deadline p - now) \<rparr>) (cm_pending s)"

definition cancel_one :: "string \<times> pending_correlation \<Rightarrow> correlation_manager \<Rightarrow> correlation_manager" where
  "cancel_one e s =
     (case e of (cid, p) \<Rightarrow>
        cm_settle (pc_promise p) (Rejected (CorrelationCancelledError cid))
          (cm_emit (Correlation_cancelled cid)
             (s\<lparr> cm_timers := jdel (pc_timeoutHandle p) (cm_timers s) \<rparr>)))"

definition cancelAll :: "correlation_manager \<Rightarrow> correlation_manager" where
  "cancelAll s = (fold cancel_one (cm_pending s) s)\<lparr> cm_pending := [] \<rparr>"

text \<open>
  The timer's callback. It looks the correlation up again by its id and does
  nothing when there is none; \<open>waitForCorrelation\<close>'s callback reports the pending
  entry's request and \<open>waitForResponse\<close>'s the captured one.
\<close>

definition timer_fires :: "nat \<Rightarrow> correlation_manager \<Rightarrow> correlation_manager" where
  "timer_fires h s =
     (case jget (cm_timers s) h of
        None \<Rightarrow> s
      | Some t \<Rightarrow>
          (let s0 = s\<lparr> cm_timers := jdel h (cm_timers s) \<rparr>; cid = tm_correlationId t
           in case jget (cm_pending s0) cid of
                None \<Rightarrow> s0
              | Some p \<Rightarrow>
                  (let s1 = s0\<lparr> cm_pending := jdel cid (cm_pending s0) \<rparr>;
                       req = (case tm_request t of None \<Rightarrow> pc_request p | Some r \<Rightarrow> Some r);
                       s2 = cm_emit (Correlation_timeout cid req) s1
                   in cm_settle (tm_promise t) (Rejected (CorrelationTimeoutError cid)) s2)))"

definition due_timers :: "int \<Rightarrow> correlation_manager \<Rightarrow> nat list" where
  "due_timers now s = map fst (filter (\<lambda>(h, t). tm_due t \<le> now) (cm_timers s))"

text \<open>The event loop at time \<open>now\<close>: every timer that is due fires.\<close>

definition run_timers :: "int \<Rightarrow> correlation_manager \<Rightarrow> correlation_manager" where
  "run_timers now s = fold timer_fires (due_timers now s) s"

section \<open>The machine\<close>

inductive cm_step :: "int \<Rightarrow> correlation_manager \<Rightarrow> correlation_manager \<Rightarrow> bool" for now :: int where
  wait: "cm_step now s (snd (waitForCorrelation now cid timeout s))"
| wait_response: "cm_step now s (snd (waitForResponse now request timeout s))"
| set_request: "cm_step now s (setRequest cid request s)"
| correlate: "cm_step now s (snd (correlate cid response s))"
| cancel: "cm_step now s (snd (cm_cancel cid s))"
| cancel_all: "cm_step now s (cancelAll s)"
| fires: "h \<in> set (due_timers now s) \<Longrightarrow> cm_step now s (timer_fires h s)"
| on: "cm_step now s (cm_on k l s)"
| off: "cm_step now s (cm_off k l s)"

inductive cm_reachable :: "correlation_manager \<Rightarrow> int \<Rightarrow> bool" where
  init: "cm_reachable new_correlation_manager now"
| step: "cm_reachable s now \<Longrightarrow> now \<le> now' \<Longrightarrow> cm_step now' s s' \<Longrightarrow> cm_reachable s' now'"

definition pending_promises :: "correlation_manager \<Rightarrow> nat set" where
  "pending_promises s = pc_promise ` set (jvals (cm_pending s))"

definition settled_promises :: "correlation_manager \<Rightarrow> nat set" where
  "settled_promises s = fst ` set (cm_settled s)"

definition timer_of :: "pending_correlation \<Rightarrow> string \<Rightarrow> armed_timer \<Rightarrow> bool" where
  "timer_of p cid t \<longleftrightarrow>
     tm_correlationId t = cid \<and> tm_promise t = pc_promise p \<and> tm_due t = pc_deadline p"

text \<open>
  The invariant: pending entries and armed timers correspond one to one, and every
  promise ever returned is either settled, once, or held by exactly one entry.
\<close>

definition cm_inv :: "correlation_manager \<Rightarrow> bool" where
  "cm_inv s \<longleftrightarrow>
     jok (cm_pending s) \<and> jok (cm_timers s) \<and>
     (\<forall>cid p. jget (cm_pending s) cid = Some p \<longrightarrow>
        pc_promise p = pc_timeoutHandle p \<and>
        (\<exists>t. jget (cm_timers s) (pc_timeoutHandle p) = Some t \<and> timer_of p cid t)) \<and>
     (\<forall>h t. jget (cm_timers s) h = Some t \<longrightarrow>
        (\<exists>p. jget (cm_pending s) (tm_correlationId t) = Some p \<and> pc_timeoutHandle p = h)) \<and>
     distinct (map fst (cm_settled s)) \<and>
     pending_promises s \<inter> settled_promises s = {} \<and>
     pending_promises s \<union> settled_promises s = {..< cm_next s}"

lemmas cm_ops = cm_on_def cm_off_def cm_emit_def cm_settle_def

lemma cm_invD:
  assumes "cm_inv s"
  shows "jok (cm_pending s)" and "jok (cm_timers s)" and "distinct (map fst (cm_settled s))"
    and "pending_promises s \<inter> settled_promises s = {}"
    and "pending_promises s \<union> settled_promises s = {..< cm_next s}"
    and "jget (cm_pending s) cid = Some p \<Longrightarrow> pc_promise p = pc_timeoutHandle p"
    and "jget (cm_pending s) cid = Some p \<Longrightarrow>
          \<exists>t. jget (cm_timers s) (pc_timeoutHandle p) = Some t \<and> timer_of p cid t"
    and "jget (cm_timers s) h = Some t \<Longrightarrow>
          \<exists>p. jget (cm_pending s) (tm_correlationId t) = Some p \<and> pc_timeoutHandle p = h"
  using assms unfolding cm_inv_def by blast+

lemma pending_promises_iff:
  "jok (cm_pending s) \<Longrightarrow> n \<in> pending_promises s \<longleftrightarrow> (\<exists>cid p. jget (cm_pending s) cid = Some p \<and> pc_promise p = n)"
  by (force simp: pending_promises_def image_iff jok_get_iff)

lemma cm_promise_inj:
  assumes "cm_inv s" and "jget (cm_pending s) c = Some p" and "jget (cm_pending s) c' = Some p'"
    and "pc_timeoutHandle p = pc_timeoutHandle p'"
  shows "c = c'"
  using cm_invD(7) [OF assms(1,2)] cm_invD(7) [OF assms(1,3)] assms(4) by (auto simp: timer_of_def)

text \<open>Removing a pending entry with its timer while settling its promise.\<close>

lemma retire_inv:
  assumes inv: "cm_inv s" and p: "jget (cm_pending s) cid = Some p"
    and s': "cm_pending s' = jdel cid (cm_pending s)" "cm_timers s' = jdel (pc_timeoutHandle p) (cm_timers s)"
      "cm_settled s' = cm_settled s @ [(pc_promise p, r)]" "cm_next s' = cm_next s"
  shows "cm_inv s'"
proof -
  note ok = cm_invD(1,2) [OF inv]
  have mem: "pc_promise p \<in> pending_promises s"
    using p ok by (auto simp: pending_promises_iff)
  then have fresh: "pc_promise p \<notin> settled_promises s" using cm_invD(4) [OF inv] by blast
  have ok': "jok (cm_pending s')" using ok s' by simp
  have other: "pc_promise q \<noteq> pc_promise p" if "jget (cm_pending s) c = Some q" and "c \<noteq> cid" for c q
    using cm_promise_inj [OF inv p that(1)] cm_invD(6) [OF inv p] cm_invD(6) [OF inv that(1)] that(2) by auto
  have prom: "pending_promises s' = pending_promises s - {pc_promise p}"
  proof (rule set_eqI)
    fix n
    have "(\<exists>c q. jget (jdel cid (cm_pending s)) c = Some q \<and> pc_promise q = n)
        \<longleftrightarrow> (\<exists>c q. jget (cm_pending s) c = Some q \<and> pc_promise q = n) \<and> n \<noteq> pc_promise p"
      using p other by (metis jget_del option.distinct(1) option.inject)
    then show "n \<in> pending_promises s' \<longleftrightarrow> n \<in> pending_promises s - {pc_promise p}"
      by (simp add: pending_promises_iff [OF ok'] pending_promises_iff [OF ok(1)] s'(1))
  qed
  have settled: "settled_promises s' = insert (pc_promise p) (settled_promises s)"
    by (simp add: settled_promises_def s')
  have "(\<exists>t. jget (cm_timers s') (pc_timeoutHandle q) = Some t \<and> timer_of q c t) \<and> pc_promise q = pc_timeoutHandle q"
    if "jget (cm_pending s') c = Some q" for c q
    using that cm_promise_inj [OF inv p, of c q] cm_invD(6,7) [OF inv, of c q] by (auto simp: s' split: if_splits)
  moreover have "\<exists>q. jget (cm_pending s') (tm_correlationId t) = Some q \<and> pc_timeoutHandle q = h"
    if "jget (cm_timers s') h = Some t" for h t
    using that p cm_invD(8) [OF inv, of h t] by (auto simp: s' split: if_splits)
  ultimately show ?thesis
    unfolding cm_inv_def
    using ok cm_invD(3,4,5) [OF inv] prom settled fresh mem by (auto simp: s' settled_promises_def)
qed

lemma correlate_inv: "cm_inv s \<Longrightarrow> cm_inv (snd (correlate cid response s))"
  by (cases "jget (cm_pending s) cid")
    (simp_all add: correlate_def Let_def cm_ops retire_inv [where r = "Resolved response"])

lemma cm_cancel_inv: "cm_inv s \<Longrightarrow> cm_inv (snd (cm_cancel cid s))"
  by (cases "jget (cm_pending s) cid")
    (simp_all add: cm_cancel_def Let_def cm_ops retire_inv [where r = "Rejected (CorrelationCancelledError cid)"])

text \<open>Under the invariant a timer that fires finds the entry it was armed for.\<close>

lemma timer_fires_pending:
  assumes "cm_inv s" and "jget (cm_timers s) h = Some t"
  obtains p where "jget (cm_pending s) (tm_correlationId t) = Some p" and "pc_timeoutHandle p = h"
    and "pc_promise p = tm_promise t" and "pc_deadline p = tm_due t"
proof -
  obtain p where p: "jget (cm_pending s) (tm_correlationId t) = Some p" "pc_timeoutHandle p = h"
    using cm_invD(8) [OF assms] by blast
  then have "timer_of p (tm_correlationId t) t"
    using cm_invD(7) [OF assms(1) p(1)] assms(2) by auto
  with p show thesis by (intro that) (simp_all add: timer_of_def)
qed

lemma timer_fires_inv:
  assumes "cm_inv s"
  shows "cm_inv (timer_fires h s)"
proof (cases "jget (cm_timers s) h")
  case None
  then show ?thesis using assms by (simp add: timer_fires_def)
next
  case (Some t)
  then obtain p where p: "jget (cm_pending s) (tm_correlationId t) = Some p" "pc_timeoutHandle p = h"
    "pc_promise p = tm_promise t" using timer_fires_pending [OF assms] by blast
  then show ?thesis
    by (intro retire_inv [OF assms p(1), where r = "Rejected (CorrelationTimeoutError (tm_correlationId t))"])
      (simp_all add: timer_fires_def Some Let_def cm_ops)
qed

text \<open>\<open>cancelAll\<close> is the same as cancelling every pending correlation in turn.\<close>

lemma cancelAll_fold:
  assumes "jok es"
  shows "(fold cancel_one es s)\<lparr> cm_pending := [] \<rparr>
       = fold (\<lambda>(cid, _) s. snd (cm_cancel cid s)) es (s\<lparr> cm_pending := es \<rparr>)"
  using assms
proof (induction es arbitrary: s)
  case Nil
  then show ?case by simp
next
  case (Cons e es)
  obtain c p where e: "e = (c, p)" by fastforce
  with Cons.prems have "jdel c es = es" by (simp add: delete_id)
  then have "snd (cm_cancel c (s\<lparr> cm_pending := e # es \<rparr>)) = (cancel_one e s)\<lparr> cm_pending := es \<rparr>"
    by (simp add: e cm_cancel_def cancel_one_def Let_def cm_ops)
  with Cons show ?case by (simp add: e)
qed

lemma cancelAll_inv: "cm_inv s \<Longrightarrow> cm_inv (cancelAll s)"
proof -
  assume inv: "cm_inv s"
  have "cm_inv (fold (\<lambda>(cid, _) s. snd (cm_cancel cid s)) es s)" for es :: "(string \<times> pending_correlation) list"
    using inv by (induction es arbitrary: s) (auto simp: cm_cancel_inv)
  with cancelAll_fold [OF cm_invD(1) [OF inv], of s] show ?thesis
    by (simp add: cancelAll_def)
qed

lemma cm_handle_fresh:
  assumes "cm_inv s" and "jget (cm_timers s) h = Some t"
  shows "h < cm_next s"
proof -
  obtain p where "jget (cm_pending s) (tm_correlationId t) = Some p" "pc_timeoutHandle p = h"
    using timer_fires_pending [OF assms] by blast
  then have "h \<in> pending_promises s"
    using cm_invD(1,6) [OF assms(1)] by (auto simp: pending_promises_iff)
  with cm_invD(5) [OF assms(1)] show ?thesis by blast
qed

lemma cm_begin_inv:
  assumes inv: "cm_inv s" and new: "jget (cm_pending s) cid = None"
  shows "cm_inv (snd (cm_begin now cid timeout req s))"
proof -
  let ?s = "snd (cm_begin now cid timeout req s)" and ?n = "cm_next s"
  note ok = cm_invD(1,2) [OF inv]
  have fresh: "jget (cm_timers s) ?n = None"
    using cm_handle_fresh [OF inv, of ?n] by (cases "jget (cm_timers s) ?n") auto
  have same: "cm_settled ?s = cm_settled s" "cm_next ?s = Suc ?n"
    by (simp_all add: cm_begin_def Let_def)
  have prom: "pending_promises ?s = insert ?n (pending_promises s)"
    using new by (simp add: pending_promises_def cm_begin_def Let_def jset_new)
  have old: "(\<exists>t. jget (cm_timers ?s) (pc_timeoutHandle q) = Some t \<and> timer_of q c t) \<and> pc_promise q = pc_timeoutHandle q"
    if q: "jget (cm_pending ?s) c = Some q" for c q
  proof (cases "c = cid")
    case True
    with q show ?thesis by (auto simp: cm_begin_def Let_def timer_of_def)
  next
    case False
    with q have "jget (cm_pending s) c = Some q" by (simp add: cm_begin_def Let_def)
    from cm_invD(6,7) [OF inv this] fresh show ?thesis by (auto simp: cm_begin_def Let_def)
  qed
  have timers: "\<exists>q. jget (cm_pending ?s) (tm_correlationId t) = Some q \<and> pc_timeoutHandle q = h"
    if "jget (cm_timers ?s) h = Some t" for h t
    using that new cm_invD(8) [OF inv, of h t] by (auto simp: cm_begin_def Let_def split: if_splits)
  have "?n \<notin> settled_promises s" using cm_invD(5) [OF inv] by blast
  then have parts: "pending_promises ?s \<inter> settled_promises ?s = {}"
    and union: "pending_promises ?s \<union> settled_promises ?s = {..< cm_next ?s}"
    using prom same cm_invD(4,5) [OF inv] by (auto simp: settled_promises_def)
  have oks: "jok (cm_pending ?s)" "jok (cm_timers ?s)"
    using ok by (simp_all add: cm_begin_def Let_def)
  show ?thesis
    unfolding cm_inv_def using oks old timers parts union cm_invD(3) [OF inv] same(1) by simp
qed

text \<open>Operations that only touch the listeners, the log or the stored request.\<close>

lemma cm_inv_cong:
  assumes "cm_inv s" and "cm_pending s' = cm_pending s" "cm_timers s' = cm_timers s"
    and "cm_settled s' = cm_settled s" "cm_next s' = cm_next s"
  shows "cm_inv s'"
  using assms(1) unfolding cm_inv_def pending_promises_def settled_promises_def assms(2-5) .

lemma cm_emit_inv: "cm_inv s \<Longrightarrow> cm_inv (cm_emit e s)"
  by (erule cm_inv_cong) (simp_all add: cm_emit_def)

lemma cm_rejected_inv:
  assumes "cm_inv s"
  shows "cm_inv (snd (cm_rejected e s))"
proof -
  let ?s = "snd (cm_rejected e s)"
  have fresh: "cm_next s \<notin> settled_promises s" "cm_next s \<notin> pending_promises s"
    using cm_invD(5) [OF assms] by blast+
  have rest: "cm_pending ?s = cm_pending s" "cm_timers ?s = cm_timers s" "cm_next ?s = Suc (cm_next s)"
    "cm_settled ?s = cm_settled s @ [(cm_next s, Rejected e)]"
    by (simp_all add: cm_rejected_def cm_ops)
  have prom: "pending_promises ?s = pending_promises s" "settled_promises ?s = insert (cm_next s) (settled_promises s)"
    by (simp_all add: pending_promises_def settled_promises_def rest)
  have "pending_promises ?s \<inter> settled_promises ?s = {}"
    and "pending_promises ?s \<union> settled_promises ?s = {..< cm_next ?s}"
    and "distinct (map fst (cm_settled ?s))"
    using prom fresh cm_invD(3,4,5) [OF assms] by (auto simp: rest settled_promises_def)
  with assms show ?thesis unfolding cm_inv_def rest(1,2) by blast
qed

lemma setRequest_inv:
  assumes inv: "cm_inv s"
  shows "cm_inv (setRequest cid request s)"
proof (cases "jget (cm_pending s) cid")
  case None
  then show ?thesis using inv by (simp add: setRequest_def)
next
  case (Some p)
  let ?s = "setRequest cid request s"
  have pend: "cm_pending ?s = jset cid (p\<lparr> pc_request := Some request \<rparr>) (cm_pending s)"
    and rest: "cm_timers ?s = cm_timers s" "cm_settled ?s = cm_settled s" "cm_next ?s = cm_next s"
    using Some by (simp_all add: setRequest_def cm_ops)
  have ok: "jok (cm_pending ?s)" using cm_invD(1) [OF inv] pend by simp
  have entry: "\<exists>q0. jget (cm_pending s) c = Some q0 \<and> pc_promise q0 = pc_promise q \<and>
      pc_timeoutHandle q0 = pc_timeoutHandle q \<and> pc_deadline q0 = pc_deadline q"
    if "jget (cm_pending ?s) c = Some q" for c q
    using that Some pend by (auto split: if_splits)
  have entry': "\<exists>q. jget (cm_pending ?s) c = Some q \<and> pc_promise q0 = pc_promise q \<and>
      pc_timeoutHandle q0 = pc_timeoutHandle q" if "jget (cm_pending s) c = Some q0" for c q0
    using that Some pend by auto
  have prom: "pending_promises ?s = pending_promises s"
    unfolding set_eq_iff pending_promises_iff [OF ok] pending_promises_iff [OF cm_invD(1) [OF inv]]
    using entry entry' by metis
  have "(\<exists>t. jget (cm_timers s) (pc_timeoutHandle q) = Some t \<and> timer_of q c t) \<and> pc_promise q = pc_timeoutHandle q"
    if "jget (cm_pending ?s) c = Some q" for c q
    using entry [OF that] cm_invD(6,7) [OF inv, of c] by (auto simp: timer_of_def)
  moreover have "\<exists>q. jget (cm_pending ?s) (tm_correlationId t) = Some q \<and> pc_timeoutHandle q = h"
    if "jget (cm_timers s) h = Some t" for h t
    using cm_invD(8) [OF inv that] entry' by metis
  ultimately show ?thesis
    unfolding cm_inv_def settled_promises_def
    using ok prom rest cm_invD(2,3,4,5) [OF inv] by (simp add: settled_promises_def)
qed

lemma cm_step_inv: "cm_step now s s' \<Longrightarrow> cm_inv s \<Longrightarrow> cm_inv s'"
proof (induction rule: cm_step.induct)
  case (wait s cid timeout)
  then show ?case
    by (simp add: waitForCorrelation_def cm_begin_inv cm_rejected_inv)
next
  case (wait_response s request timeout)
  then show ?case
    using cm_emit_inv [OF cm_begin_inv, of s "the (correlationId request)"]
    by (simp add: waitForResponse_def Let_def cm_rejected_inv case_prod_beta)
next
  case (on s k l)
  then show ?case by (rule cm_inv_cong) (simp_all add: cm_on_def)
next
  case (off s k l)
  then show ?case by (rule cm_inv_cong) (simp_all add: cm_off_def)
qed (simp_all add: setRequest_inv correlate_inv cm_cancel_inv cancelAll_inv timer_fires_inv)

lemma cm_reachable_inv: "cm_reachable s now \<Longrightarrow> cm_inv s"
proof (induction rule: cm_reachable.induct)
  case (init now)
  show ?case
    by (simp add: cm_inv_def new_correlation_manager_def pending_promises_def settled_promises_def)
next
  case (step s now now' s')
  then show ?case by (blast intro: cm_step_inv)
qed

section \<open>Properties\<close>

text \<open>The state of a promise: pending, or what it was first settled with.\<close>

definition promise_outcome :: "correlation_manager \<Rightarrow> nat \<Rightarrow> outcome option" where
  "promise_outcome s n = map_of (cm_settled s) n"

lemma promise_outcome_None: "promise_outcome s n = None \<longleftrightarrow> n \<notin> settled_promises s"
  by (simp add: promise_outcome_def settled_promises_def map_of_eq_None_iff)

text \<open>
  C3. In every reachable state each promise returned so far is either settled or held
  by a pending correlation, never both and never neither, and no promise has had
  \<open>resolve\<close> or \<open>reject\<close> called twice; two pending correlations never share a promise.
\<close>

theorem correlation_promises:
  assumes "cm_reachable s now"
  shows "distinct (map fst (cm_settled s))
       \<and> (\<forall>n < cm_next s. promise_outcome s n = None \<longleftrightarrow>
             (\<exists>!cid. \<exists>p. jget (cm_pending s) cid = Some p \<and> pc_promise p = n))"
proof -
  note inv = cm_reachable_inv [OF assms]
  have "promise_outcome s n = None \<longleftrightarrow> (\<exists>!cid. \<exists>p. jget (cm_pending s) cid = Some p \<and> pc_promise p = n)"
    if "n < cm_next s" for n
  proof -
    have "n \<notin> settled_promises s \<longleftrightarrow> n \<in> pending_promises s"
      using that cm_invD(4,5) [OF inv] by auto
    moreover have "(\<exists>cid p. jget (cm_pending s) cid = Some p \<and> pc_promise p = n)
        \<longleftrightarrow> (\<exists>!cid. \<exists>p. jget (cm_pending s) cid = Some p \<and> pc_promise p = n)"
      using cm_promise_inj [OF inv] cm_invD(6) [OF inv] by metis
    ultimately show ?thesis
      by (simp add: promise_outcome_None pending_promises_iff [OF cm_invD(1) [OF inv]])
  qed
  then show ?thesis using cm_invD(3) [OF inv] by blast
qed

text \<open>A concrete run: two waits, the second on an id that is already pending.\<close>

definition two_waits :: correlation_manager where
  "two_waits = snd (waitForCorrelation 0 ''c'' 60 (snd (waitForCorrelation 0 ''c'' 50 new_correlation_manager)))"

definition sample_response :: message_envelope where
  "sample_response = createMessageEnvelope 0
     \<lparr> par_id = ''m'', par_correlationId = Some ''c'', par_type = Decision_response, par_channel = None,
       par_source = Some \<lparr> ep_type = Ep_humancy, ep_id = ''h'' \<rparr>,
       par_destination = Some \<lparr> ep_type = Ep_agency, ep_id = ''a'' \<rparr>, par_payload = JNull, par_meta = None \<rparr>"

lemma two_waits_reachable: "cm_reachable two_waits 0"
  unfolding two_waits_def
  by (intro cm_reachable.step [OF _ order_refl cm_step.wait] cm_reachable.init)

lemma two_waits_facts:
  "cm_next two_waits = 2"
  "cm_pending two_waits = [(''c'', \<lparr> pc_request = None, pc_sentAt = 0, pc_deadline = 50, pc_promise = 0, pc_timeoutHandle = 0 \<rparr>)]"
  "cm_settled two_waits = [(1, Rejected (already_pending ''c''))]"
  by (simp_all add: two_waits_def waitForCorrelation_def cm_begin_def cm_rejected_def cm_settle_def
        new_correlation_manager_def Let_def)

theorem correlation_promises_witness:
  "cm_reachable two_waits 0 \<and> cm_next two_waits = 2 \<and> promise_outcome two_waits 0 = None
     \<and> promise_outcome two_waits 1 = Some (Rejected (already_pending ''c''))"
proof -
  have "\<exists>!cid. \<exists>p. jget (cm_pending two_waits) cid = Some p \<and> pc_promise p = 0"
    by (auto simp: two_waits_facts)
  then show ?thesis
    using correlation_promises [OF two_waits_reachable] two_waits_reachable
    by (auto simp: two_waits_facts promise_outcome_def)
qed

lemma correlate_pending:
  assumes inv: "cm_inv s" and p: "jget (cm_pending s) cid = Some p"
  shows "\<exists>s'. correlate cid response s = (True, s')
     \<and> promise_outcome s' (pc_promise p) = Some (Resolved response)
     \<and> (\<forall>n. n \<noteq> pc_promise p \<longrightarrow> promise_outcome s' n = promise_outcome s n)
     \<and> cm_pending s' = jdel cid (cm_pending s)
     \<and> cm_timers s' = jdel (pc_timeoutHandle p) (cm_timers s)"
proof -
  have "pc_promise p \<in> pending_promises s"
    using p cm_invD(1) [OF inv] by (auto simp: pending_promises_iff)
  then have "promise_outcome s (pc_promise p) = None"
    using cm_invD(4) [OF inv] by (auto simp: promise_outcome_None)
  with p show ?thesis
    by (auto simp: correlate_def Let_def cm_ops promise_outcome_def map_add_def split: option.split)
qed

text \<open>
  A response for a pending correlation is delivered: \<open>correlate\<close> returns true, the
  promise handed out for that correlation resolves with the response, no other
  promise changes, the entry and its timer are gone; for an id that is not pending it
  returns false and changes nothing.
\<close>

lemma correlate_resolves:
  assumes "cm_reachable s now"
  shows "case jget (cm_pending s) cid of
      None \<Rightarrow> correlate cid response s = (False, s)
    | Some p \<Rightarrow> (\<exists>s'. correlate cid response s = (True, s')
        \<and> promise_outcome s' (pc_promise p) = Some (Resolved response)
        \<and> (\<forall>n. n \<noteq> pc_promise p \<longrightarrow> promise_outcome s' n = promise_outcome s n)
        \<and> cm_pending s' = jdel cid (cm_pending s)
        \<and> cm_timers s' = jdel (pc_timeoutHandle p) (cm_timers s))"
proof (cases "jget (cm_pending s) cid")
  case None
  then show ?thesis by (simp add: correlate_def)
next
  case (Some p)
  then show ?thesis using correlate_pending [OF cm_reachable_inv [OF assms] Some] by simp
qed

lemma due_timers_iff:
  "jok (cm_timers s) \<Longrightarrow> h \<in> set (due_timers now s) \<longleftrightarrow> (\<exists>u. jget (cm_timers s) h = Some u \<and> tm_due u \<le> now)"
  by (auto simp: due_timers_def image_iff intro: rev_bexI)

lemma timers_fold:
  assumes "cm_inv s" and "distinct hs" and "set hs \<subseteq> set (jkeys (cm_timers s))"
  shows "cm_pending (fold timer_fires hs s) = filter (\<lambda>(cid, p). pc_timeoutHandle p \<notin> set hs) (cm_pending s)
       \<and> (\<forall>cid p. jget (cm_pending s) cid = Some p \<longrightarrow> pc_timeoutHandle p \<in> set hs \<longrightarrow>
            (pc_promise p, Rejected (CorrelationTimeoutError cid)) \<in> set (cm_settled (fold timer_fires hs s)))
       \<and> set (cm_settled s) \<subseteq> set (cm_settled (fold timer_fires hs s))
       \<and> cm_inv (fold timer_fires hs s)"
  using assms
proof (induction hs arbitrary: s)
  case Nil
  then show ?case by simp
next
  case (Cons h hs)
  let ?s = "timer_fires h s"
  note inv = Cons.prems(1)
  from Cons.prems(3) obtain t where t: "jget (cm_timers s) h = Some t"
    by (metis jget_None_iff list.set_intros(1) option.exhaust subsetD)
  then obtain p where p: "jget (cm_pending s) (tm_correlationId t) = Some p" "pc_timeoutHandle p = h"
    "pc_promise p = tm_promise t" using timer_fires_pending [OF inv] by blast
  have s: "cm_pending ?s = jdel (tm_correlationId t) (cm_pending s)" "cm_timers ?s = jdel h (cm_timers s)"
    "cm_settled ?s = cm_settled s @ [(pc_promise p, Rejected (CorrelationTimeoutError (tm_correlationId t)))]"
    using p by (simp_all add: timer_fires_def t Let_def cm_ops)
  have only: "c = tm_correlationId t" if "jget (cm_pending s) c = Some q" "pc_timeoutHandle q = h" for c q
    using cm_promise_inj [OF inv that(1) p(1)] that(2) p(2) by simp
  have del: "cm_pending ?s = filter (\<lambda>(cid, q). pc_timeoutHandle q \<noteq> h) (cm_pending s)"
  proof -
    have "c \<noteq> tm_correlationId t \<longleftrightarrow> pc_timeoutHandle q \<noteq> h" if "(c, q) \<in> set (cm_pending s)" for c q
    proof -
      from that have "jget (cm_pending s) c = Some q" using cm_invD(1) [OF inv] by simp
      with only [of c q] p show ?thesis by auto
    qed
    then show ?thesis unfolding s AList.delete_eq by (intro filter_cong) auto
  qed
  have hs: "set hs \<subseteq> set (jkeys (cm_timers ?s))" using Cons.prems(2,3) unfolding s set_jkeys_del by auto
  have IH: "cm_pending (fold timer_fires hs ?s) = filter (\<lambda>(cid, p). pc_timeoutHandle p \<notin> set hs) (cm_pending ?s)"
    "\<And>cid q. jget (cm_pending ?s) cid = Some q \<Longrightarrow> pc_timeoutHandle q \<in> set hs \<Longrightarrow>
       (pc_promise q, Rejected (CorrelationTimeoutError cid)) \<in> set (cm_settled (fold timer_fires hs ?s))"
    "set (cm_settled ?s) \<subseteq> set (cm_settled (fold timer_fires hs ?s))" "cm_inv (fold timer_fires hs ?s)"
    using Cons.IH [OF timer_fires_inv [OF inv] _ hs] Cons.prems(2) by auto
  have "(pc_promise q, Rejected (CorrelationTimeoutError cid)) \<in> set (cm_settled (fold timer_fires hs ?s))"
    if q: "jget (cm_pending s) cid = Some q" "pc_timeoutHandle q \<in> set (h # hs)" for cid q
  proof (cases "cid = tm_correlationId t")
    case True
    with q p IH(3) show ?thesis by (auto simp: s)
  next
    case False
    with q only show ?thesis by (intro IH(2)) (auto simp: s)
  qed
  with IH s(3) show ?case by (auto simp: del case_prod_beta' intro!: filter_cong)
qed

text \<open>
  C8. Deadlines are kept: running the timers that are due at \<open>now\<close> leaves exactly the
  correlations whose deadline is still ahead, in their order, and the promise of every
  other one is rejected with the timeout error of its own correlation id.
\<close>

theorem correlation_deadlines:
  assumes "cm_reachable s t"
  shows "cm_pending (run_timers now s) = filter (\<lambda>(cid, p). now < pc_deadline p) (cm_pending s)
       \<and> (\<forall>cid p. jget (cm_pending s) cid = Some p \<and> pc_deadline p \<le> now \<longrightarrow>
            promise_outcome (run_timers now s) (pc_promise p) = Some (Rejected (CorrelationTimeoutError cid)))"
proof -
  note inv = cm_reachable_inv [OF assms]
  let ?hs = "due_timers now s"
  have hs: "distinct ?hs" "set ?hs \<subseteq> set (jkeys (cm_timers s))"
    using cm_invD(2) [OF inv] by (auto simp: due_timers_def distinct_map_filter)
  have due: "pc_timeoutHandle p \<in> set ?hs \<longleftrightarrow> pc_deadline p \<le> now" if "jget (cm_pending s) cid = Some p" for cid p
  proof -
    obtain u where u: "jget (cm_timers s) (pc_timeoutHandle p) = Some u" "timer_of p cid u"
      using cm_invD(7) [OF inv \<open>jget (cm_pending s) cid = Some p\<close>] by blast
    then have "tm_due u = pc_deadline p" by (simp add: timer_of_def)
    moreover have "pc_timeoutHandle p \<in> set ?hs \<longleftrightarrow> tm_due u \<le> now"
      using u(1) due_timers_iff [OF cm_invD(2) [OF inv]] by simp
    ultimately show ?thesis by simp
  qed
  note run = timers_fold [OF inv hs, folded run_timers_def]
  have "cm_pending (run_timers now s) = filter (\<lambda>(cid, p). now < pc_deadline p) (cm_pending s)"
    using run due cm_invD(1) [OF inv] by (auto simp: jok_get_iff not_le intro!: filter_cong)
  moreover have "promise_outcome (run_timers now s) (pc_promise p) = Some (Rejected (CorrelationTimeoutError cid))"
    if "jget (cm_pending s) cid = Some p" "pc_deadline p \<le> now" for cid p
    using that run due cm_invD(3) [of "run_timers now s"] by (simp add: promise_outcome_def map_of_eq_Some_iff)
  ultimately show ?thesis by blast
qed

theorem correlation_deadlines_witness:
  "cm_pending (run_timers 49 two_waits) = cm_pending two_waits \<and> cm_pending (run_timers 50 two_waits) = []
     \<and> promise_outcome (run_timers 50 two_waits) 0 = Some (Rejected (CorrelationTimeoutError ''c''))"
proof -
  have "promise_outcome (run_timers 50 two_waits) 0 = Some (Rejected (CorrelationTimeoutError ''c''))"
    using conjunct2 [OF correlation_deadlines [OF two_waits_reachable, of 50], rule_format, of "''c''"]
    by (simp add: two_waits_facts)
  then show ?thesis
    using correlation_deadlines [OF two_waits_reachable, of 49] correlation_deadlines [OF two_waits_reachable, of 50]
    by (simp add: two_waits_facts)
qed

end
