(* ===== verification/Router.thy ===== *)
theory Router
  imports Routing Connections Correlation "HOL-Library.Multiset"
begin

text \<open>
  The message router (\<open>router/message-router.ts\<close>). Its state extends the connection
  registry's with the router's own listeners and the correlation manager it may have
  been given. The message queue and the channel router are optional callbacks that
  act on the outside world; the transport, these callbacks and the clock are the
  environment every operation takes.
\<close>

datatype router_event =
    Message_routed message_envelope string
  | Message_broadcast message_envelope "string list"
  | Message_failed message_envelope js_error
  | Message_queued message_envelope string

datatype router_kind = Km_routed | Km_broadcast | Km_failed | Km_queued

definition router_event_kind :: "router_event \<Rightarrow> router_kind" where
  "router_event_kind e =
     (case e of Message_routed _ _ \<Rightarrow> Km_routed | Message_broadcast _ _ \<Rightarrow> Km_broadcast
      | Message_failed _ _ \<Rightarrow> Km_failed | Message_queued _ _ \<Rightarrow> Km_queued)"

record 'w router = "'w registry" +
  mr_listeners :: "router_kind listeners"
  mr_calls :: "(listener \<times> router_event) list"
  mr_correlationManager :: "correlation_manager option"

record 'w router_env =
  en_transport :: "'w transport"
  en_now :: int
  en_messageQueue :: "(recipient \<Rightarrow> string \<Rightarrow> message_envelope \<Rightarrow> ('w, unit) js) option"
  en_channelRouter :: "(message_envelope \<Rightarrow> ('w, unit) js) option"

definition new_router :: "'w \<Rightarrow> correlation_manager option \<Rightarrow> 'w router" where
  "new_router w cm =
     registry.extend (new_registry w) \<lparr> mr_listeners = [], mr_calls = [], mr_correlationManager = cm \<rparr>"

section \<open>Events\<close>

definition mr_on :: "router_kind \<Rightarrow> listener \<Rightarrow> 'w router \<Rightarrow> 'w router" where
  "mr_on k l s = s\<lparr> mr_listeners := ls_on k l (mr_listeners s) \<rparr>"

definition mr_off :: "router_kind \<Rightarrow> listener \<Rightarrow> 'w router \<Rightarrow> 'w router" where
  "mr_off k l s = s\<lparr> mr_listeners := ls_off k l (mr_listeners s) \<rparr>"

definition mr_emit :: "router_event \<Rightarrow> 'w router \<Rightarrow> 'w router" where
  "mr_emit e s = s\<lparr> mr_calls := mr_calls s @ ls_emit (mr_listeners s) (router_event_kind e) e \<rparr>"

interpretation mre: emitter mr_listeners mr_calls router_event_kind mr_on mr_off mr_emit
  by unfold_locales (simp_all add: mr_on_def mr_off_def mr_emit_def)

section \<open>Routing to one recipient\<close>

definition address :: "recipient \<Rightarrow> string \<Rightarrow> string" where
  "address t i = recipient_name t @ '':'' @ i"

definition route_to :: "'w router_env \<Rightarrow> recipient \<Rightarrow> string \<Rightarrow> message_envelope \<Rightarrow> ('w router, unit) js" where
  "route_to E t i m =
     cbind (sendTo (en_transport E) (en_now E) t i m) (\<lambda>sent.
       if sent then cmod (mr_emit (Message_routed m (address t i)))
       else (\<lambda>s.
         case (case t of Agency \<Rightarrow> getAgency s i | Humancy \<Rightarrow> getHumancy s i) of
           None \<Rightarrow> cthrow (DestinationNotFoundError (recipient_name t) i) s
         | Some _ \<Rightarrow>
             (case en_messageQueue E of
                Some enqueue \<Rightarrow>
                  cbind (on_world (enqueue t i m)) (\<lambda>_. cmod (mr_emit (Message_queued m (address t i)))) s
              | None \<Rightarrow> cthrow (DestinationNotFoundError (recipient_name t) i) s)))"

definition routeToAgency :: "'w router_env \<Rightarrow> string \<Rightarrow> message_envelope \<Rightarrow> ('w router, unit) js" where
  "routeToAgency E = route_to E Agency"

definition routeToHumancy :: "'w router_env \<Rightarrow> string \<Rightarrow> message_envelope \<Rightarrow> ('w router, unit) js" where
  "routeToHumancy E = route_to E Humancy"

definition routeToChannel :: "'w router_env \<Rightarrow> string \<Rightarrow> message_envelope \<Rightarrow> ('w router, unit) js" where
  "routeToChannel E ch m =
     (case en_channelRouter E of
        None \<Rightarrow> cthrow (RoutingError ''Channel routing not configured'' m)
      | Some f \<Rightarrow> cbind (on_world (f m)) (\<lambda>_. cmod (mr_emit (Message_routed m (''channel:'' @ ch)))))"

section \<open>Broadcasting\<close>

text \<open>Queue the message for one registered recipient.\<close>

definition enqueue_for ::
    "(recipient \<Rightarrow> string \<Rightarrow> message_envelope \<Rightarrow> ('w, unit) js) \<Rightarrow> recipient \<Rightarrow> message_envelope
       \<Rightarrow> registered_connection \<Rightarrow> ('w router, unit) js" where
  "enqueue_for enqueue t m e s = on_world (enqueue t (object_id s (rc_connection e)) m) s"

text \<open>
  The loop over the online recipients: it collects the addresses that were sent to
  and queues the message for the others if there is a queue.
\<close>

primrec send_each ::
    "'w router_env \<Rightarrow> recipient \<Rightarrow> message_envelope \<Rightarrow> registered_connection list \<Rightarrow> string list
       \<Rightarrow> ('w router, string list) js" where
  "send_each E t m [] recipients = cret recipients"
| "send_each E t m (e # es) recipients =
     (\<lambda>s. case conn_send (en_transport E) (rc_connection e) m s of
        (Inr _, s') \<Rightarrow> send_each E t m es (recipients @ [address t (object_id s (rc_connection e))]) s'
      | (Inl _, s') \<Rightarrow>
          cbind (case en_messageQueue E of None \<Rightarrow> cret () | Some enqueue \<Rightarrow> enqueue_for enqueue t m e)
            (\<lambda>_. send_each E t m es recipients) s')"

definition broadcast_target :: "recipient \<Rightarrow> string" where
  "broadcast_target t =
     target_name (case t of Agency \<Rightarrow> Broadcast_agency | Humancy \<Rightarrow> Broadcast_humancy)"

definition broadcast ::
    "'w router_env \<Rightarrow> recipient \<Rightarrow> message_envelope \<Rightarrow> ('w router, unit) js" where
  "broadcast E t m s =
     (let onlines = filter online (jvals (side t s)); alls = jvals (side t s)
      in if onlines = [] then
           (if alls = [] then cthrow (NoRecipientsError (broadcast_target t)) s
            else
              (case en_messageQueue E of
                 Some enqueue \<Rightarrow>
                   cbind (cfor alls (enqueue_for enqueue t m)) (\<lambda>_.
                     cmod (mr_emit (Message_broadcast m (map (\<lambda>e. address t (object_id s (rc_connection e))) alls)))) s
               | None \<Rightarrow> cthrow (NoRecipientsError (broadcast_target t)) s))
         else
           cbind (send_each E t m onlines []) (\<lambda>recipients.
           cbind (cmod (if recipients \<noteq> [] then mr_emit (Message_broadcast m recipients) else id)) (\<lambda>_ s.
             (case en_messageQueue E of
                None \<Rightarrow> cret ()
              | Some enqueue \<Rightarrow>
                  cfor (filter (\<lambda>e. rc_status e = Offline) (jvals (side t s))) (enqueue_for enqueue t m)) s)) s)"

definition broadcastToHumancy :: "'w router_env \<Rightarrow> message_envelope \<Rightarrow> ('w router, unit) js" where
  "broadcastToHumancy E = broadcast E Humancy"

definition broadcastToAgencies :: "'w router_env \<Rightarrow> message_envelope \<Rightarrow> ('w router, unit) js" where
  "broadcastToAgencies E = broadcast E Agency"

section \<open>Routing\<close>

record route_options =
  opt_skipValidation :: bool
  opt_forceQueue :: bool

definition no_options :: route_options where
  "no_options = \<lparr> opt_skipValidation = False, opt_forceQueue = False \<rparr>"

definition of_result :: "js_error + 'a \<Rightarrow> ('s, 'a) js" where
  "of_result r = (case r of Inl e \<Rightarrow> cthrow e | Inr x \<Rightarrow> cret x)"

text \<open>
  The option \<open>forceQueue\<close> is declared but \<open>route\<close> does not read it. The asserted
  target id \<open>decision.targetId!\<close> is there for every single target.
\<close>

definition route :: "'w router_env \<Rightarrow> message_envelope \<Rightarrow> route_options \<Rightarrow> ('w router, unit) js" where
  "route E m opts =
     cbind (if opt_skipValidation opts then cret () else of_result (validateMessageForRouting m)) (\<lambda>_.
     cbind (of_result (determineRoute m)) (\<lambda>d.
       case rd_target d of
         To_agency \<Rightarrow> routeToAgency E (the (rd_targetId d)) m
       | To_humancy \<Rightarrow> routeToHumancy E (the (rd_targetId d)) m
       | Broadcast_humancy \<Rightarrow> broadcastToHumancy E m
       | Broadcast_agency \<Rightarrow> broadcastToAgencies E m
       | To_channel \<Rightarrow> routeToChannel E (the (rd_targetId d)) m))"

text \<open>
  \<open>routeAndWait\<close> starts to wait before it routes; the value returned is the promise
  of the response.
\<close>

definition routeAndWait :: "'w router_env \<Rightarrow> message_envelope \<Rightarrow> int \<Rightarrow> ('w router, nat) js" where
  "routeAndWait E m timeout s =
     (case mr_correlationManager s of
        None \<Rightarrow> cthrow (Plain_error ''Correlation manager not configured'') s
      | Some cm \<Rightarrow>
          if \<not> truthy (correlationId m) then cthrow (RoutingError ''routeAndWait requires correlationId'' m) s
          else
            (case waitForCorrelation (en_now E) (the (correlationId m)) timeout cm of
               (promise, cm') \<Rightarrow>
                 cbind (route E m no_options) (\<lambda>_. cret promise) (s\<lparr> mr_correlationManager := Some cm' \<rparr>)))"

section \<open>Incoming messages and registration\<close>

definition mr_registerAgency :: "'w router_env \<Rightarrow> nat \<Rightarrow> ('w router, unit) js" where
  "mr_registerAgency E r = cbind (registerAgency (en_now E) r) (\<lambda>_. conn_onMessage r (Route_incoming Agency))"

definition mr_registerHumancy :: "'w router_env \<Rightarrow> nat \<Rightarrow> ('w router, unit) js" where
  "mr_registerHumancy E r = cbind (registerHumancy (en_now E) r) (\<lambda>_. conn_onMessage r (Route_incoming Humancy))"

text \<open>The handlers the two registrations install.\<close>

definition mr_correlate :: "message_envelope \<Rightarrow> 'w router \<Rightarrow> 'w router" where
  "mr_correlate m s =
     (if env_type m = Decision_response \<and> truthy (correlationId m)
      then (case mr_correlationManager s of
              None \<Rightarrow> s
            | Some cm \<Rightarrow> s\<lparr> mr_correlationManager := Some (snd (correlate (the (correlationId m)) m cm)) \<rparr>)
      else s)"

definition incoming_message :: "'w router_env \<Rightarrow> recipient \<Rightarrow> message_envelope \<Rightarrow> ('w router, unit) js" where
  "incoming_message E t m =
     ctry (cbind (cmod (case t of Agency \<Rightarrow> id | Humancy \<Rightarrow> mr_correlate m)) (\<lambda>_. route E m no_options))
       (\<lambda>err. cmod (mr_emit (Message_failed m err)))"

text \<open>A message arrives on a connection: its handlers are called in order.\<close>

definition triggerMessage :: "'w router_env \<Rightarrow> nat \<Rightarrow> message_envelope \<Rightarrow> ('w router, unit) js" where
  "triggerMessage E r m =
     cbind (object r) (\<lambda>c. cfor (co_messageHandlers c)
       (\<lambda>h. case h of Route_incoming t \<Rightarrow> incoming_message E t m | Other_message _ \<Rightarrow> cret ()))"

definition mr_unregister :: "string \<Rightarrow> ('w router, unit) js" where
  "mr_unregister i s =
     (if hasAgency s i then unregisterAgency i s
      else if hasHumancy s i then unregisterHumancy i s
      else (Inr (), s))"

definition mr_getStats :: "'w router \<Rightarrow> side_stats \<times> side_stats" where
  "mr_getStats s = getStats s"

definition mr_close :: "'w router_env \<Rightarrow> ('w router, unit) js" where
  "mr_close E = cbind (closeAll (en_transport E) (en_now E)) (\<lambda>_. cmod (\<lambda>s. s\<lparr> mr_listeners := [] \<rparr>))"

section \<open>Delivery\<close>

text \<open>
  What the router relies on: the transport either takes a message or fails without
  effect, and the queue takes every message it is given. \<open>sent\<close> and \<open>queued\<close> read
  what the outside world has received.
\<close>

definition delivery_laws ::
    "'w transport \<Rightarrow> (recipient \<Rightarrow> string \<Rightarrow> message_envelope \<Rightarrow> ('w, unit) js)
       \<Rightarrow> ('w \<Rightarrow> (nat \<times> message_envelope) list) \<Rightarrow> ('w \<Rightarrow> (recipient \<times> string \<times> message_envelope) list) \<Rightarrow> bool" where
  "delivery_laws tr q sent queued \<longleftrightarrow>
     (\<forall>r m w. queued (snd (sendFn tr r m w)) = queued w \<and>
        sent (snd (sendFn tr r m w)) =
          (case fst (sendFn tr r m w) of Inl _ \<Rightarrow> sent w | Inr _ \<Rightarrow> sent w @ [(r, m)])) \<and>
     (\<forall>t i m w. fst (q t i m w) = Inr () \<and> sent (snd (q t i m w)) = sent w \<and>
        queued (snd (q t i m w)) = queued w @ [(t, i, m)])"

lemma delivery_lawsD:
  assumes "delivery_laws tr q sent queued"
  shows "sendFn tr r m w = (Inl e, w') \<Longrightarrow> sent w' = sent w \<and> queued w' = queued w"
    and "sendFn tr r m w = (Inr u, w') \<Longrightarrow> sent w' = sent w @ [(r, m)] \<and> queued w' = queued w"
    and "\<exists>w'. q t i m w = (Inr (), w') \<and> sent w' = sent w \<and> queued w' = queued w @ [(t, i, m)]"
proof -
  note laws = assms [unfolded delivery_laws_def]
  show "sent w' = sent w \<and> queued w' = queued w" if "sendFn tr r m w = (Inl e, w')"
    using conjunct1 [OF laws, rule_format, of r m w] that by simp
  show "sent w' = sent w @ [(r, m)] \<and> queued w' = queued w" if "sendFn tr r m w = (Inr u, w')"
    using conjunct1 [OF laws, rule_format, of r m w] that by simp
  show "\<exists>w'. q t i m w = (Inr (), w') \<and> sent w' = sent w \<and> queued w' = queued w @ [(t, i, m)]"
    using conjunct2 [OF laws, rule_format, of t i m w] by (metis prod.collapse)
qed

lemma conn_send_world:
  assumes "delivery_laws tr q sent queued" and "conn_send tr r m s = (res, s')"
  shows "queued (rg_world s') = queued (rg_world s)"
    and "sent (rg_world s') = (case res of Inl _ \<Rightarrow> sent (rg_world s) | Inr _ \<Rightarrow> sent (rg_world s) @ [(r, m)])"
  using assms(2) delivery_lawsD(1,2) [OF assms(1)]
  by (cases res; auto simp: conn_send_def conn_defs on_world_def split: prod.splits sum.splits if_splits)+

lemma conn_send_only_world:
  obtains res w where "conn_send tr r m s = (res, s\<lparr> rg_world := w \<rparr>)"
proof (cases "r < length (rg_heap s) \<and> \<not> co_closed (rg_heap s ! r)")
  case True
  obtain res w where "sendFn tr r m (rg_world s) = (res, w)" by fastforce
  with True show ?thesis by (intro that [of res w]) (simp add: conn_send_def conn_defs on_world_def)
next
  case False
  then have "\<exists>e. conn_send tr r m s = (Inl e, s)" by (auto simp: conn_send_def conn_defs)
  then show ?thesis using that [of _ "rg_world s"] by auto
qed

lemma on_world_enqueue:
  assumes "delivery_laws tr q sent queued"
  shows "\<exists>w'. on_world (q t i m) s = (Inr (), s\<lparr> rg_world := w' \<rparr>) \<and> sent w' = sent (rg_world s) \<and>
           queued w' = queued (rg_world s) @ [(t, i, m)]"
  using delivery_lawsD(3) [OF assms, of t i m "rg_world s"] by (auto simp: on_world_def)

lemma mr_emit_frame [simp]:
  "side t (mr_emit e s) = side t s" "rg_heap (mr_emit e s) = rg_heap s" "rg_world (mr_emit e s) = rg_world s"
  "object_id (mr_emit e s) r = object_id s r" "mr_correlationManager (mr_emit e s) = mr_correlationManager s"
  by (simp_all add: mr_emit_def side_def object_id_def reference_def split: recipient.split)

lemma world_frame [simp]: "object_id (s\<lparr> rg_world := w \<rparr>) r = object_id s r"
  by (simp add: object_id_def reference_def)

lemma sendTo_delivery:
  assumes laws: "delivery_laws tr q sent queued" and e: "jget (side t s) i = Some e"
    and send: "sendTo tr now t i m s = (Inr b, s1)"
  shows "queued (rg_world s1) = queued (rg_world s)"
    and "sent (rg_world s1) = sent (rg_world s) @ (if b then [(rc_connection e, m)] else [])"
    and "(case t of Agency \<Rightarrow> getAgency s1 i | Humancy \<Rightarrow> getHumancy s1 i) \<noteq> None"
proof -
  obtain res s' where cs: "conn_send tr (rc_connection e) m s = (res, s')" by fastforce
  have off: "(case t of Agency \<Rightarrow> markAgencyOffline now i | Humancy \<Rightarrow> markHumancyOffline now i) = mark_offline t now i"
    by (cases t) (simp_all add: markAgencyOffline_def markHumancyOffline_def)
  have s1: "s1 = (if rc_status e \<noteq> Online then s else if b then touch t now i s' else mark_offline t now i s')"
    and b: "b \<longleftrightarrow> rc_status e = Online \<and> res = Inr ()"
    using send e cs by (cases res; auto simp: sendTo_def comp_simps off split: if_splits)+
  show "queued (rg_world s1) = queued (rg_world s)"
    and "sent (rg_world s1) = sent (rg_world s) @ (if b then [(rc_connection e, m)] else [])"
    using conn_send_world [OF laws cs] s1 b by (cases res; simp add: touch_side)+
  have "side t s' = side t s" using conn_send_frame(2) [of t tr "rc_connection e" m s] cs by simp
  then have "jget (side t s1) i \<noteq> None" using s1 e by (simp add: touch_side mark_offline_side)
  then show "(case t of Agency \<Rightarrow> getAgency s1 i | Humancy \<Rightarrow> getHumancy s1 i) \<noteq> None"
    by (cases t) (simp_all add: side_def getAgency_def getHumancy_def)
qed

lemma route_to_spec:
  assumes laws: "delivery_laws (en_transport E) q sent queued" and q: "en_messageQueue E = Some q"
  shows "jget (side t s) i = None \<Longrightarrow> route_to E t i m s = (Inl (DestinationNotFoundError (recipient_name t) i), s)"
    and "jget (side t s) i = Some e \<Longrightarrow> \<exists>s'. route_to E t i m s = (Inr (), s')
        \<and> sent (rg_world s') = sent (rg_world s) @
            (if reachable_by (en_transport E) m t i s then [(rc_connection e, m)] else [])
        \<and> queued (rg_world s') = queued (rg_world s) @
            (if reachable_by (en_transport E) m t i s then [] else [(t, i, m)])"
proof -
  assume None: "jget (side t s) i = None"
  then have "(case t of Agency \<Rightarrow> getAgency s i | Humancy \<Rightarrow> getHumancy s i) = None"
    by (cases t) (simp_all add: side_def getAgency_def getHumancy_def)
  with None show "route_to E t i m s = (Inl (DestinationNotFoundError (recipient_name t) i), s)"
    by (simp add: route_to_def comp_simps sendTo_def)
next
  assume Some: "jget (side t s) i = Some e"
  obtain b s1 where send: "sendTo (en_transport E) (en_now E) t i m s = (Inr b, s1)"
    and b: "b = reachable_by (en_transport E) m t i s" and st: "(getStatus s1 t i = Some Online) = b"
    using sendTo_outcome [of "en_transport E" "en_now E" t i m s] by blast
  have w: "queued (rg_world s1) = queued (rg_world s) \<and>
      sent (rg_world s1) = sent (rg_world s) @ (if b then [(rc_connection e, m)] else [])"
    using sendTo_delivery(1,2) [OF laws Some send] by simp
  have reg: "(case t of Agency \<Rightarrow> getAgency s1 i | Humancy \<Rightarrow> getHumancy s1 i) \<noteq> None"
    using sendTo_delivery(3) [OF laws Some send] .
  show "\<exists>s'. route_to E t i m s = (Inr (), s')
        \<and> sent (rg_world s') = sent (rg_world s) @
            (if reachable_by (en_transport E) m t i s then [(rc_connection e, m)] else [])
        \<and> queued (rg_world s') = queued (rg_world s) @
            (if reachable_by (en_transport E) m t i s then [] else [(t, i, m)])"
  proof (cases b)
    case True
    with Some send w b show ?thesis by (auto simp: route_to_def comp_simps)
  next
    case False
    obtain w' where "on_world (q t i m) s1 = (Inr (), s1\<lparr> rg_world := w' \<rparr>)" "sent w' = sent (rg_world s1)"
      "queued w' = queued (rg_world s1) @ [(t, i, m)]"
      using on_world_enqueue [OF laws] by blast
    with False Some send w b reg q show ?thesis by (auto simp: route_to_def comp_simps)
  qed
qed


text \<open>A concrete environment for examples: the world keeps what is sent and what is queued.\<close>

type_synonym logs = "(nat \<times> message_envelope) list \<times> (recipient \<times> string \<times> message_envelope) list"

definition log_transport :: "nat list \<Rightarrow> logs transport" where
  "log_transport down =
     \<lparr> sendFn = (\<lambda>r m (sent, queued). if r \<in> set down then (Inl (Plain_error ''unreachable''), (sent, queued))
                   else (Inr (), (sent @ [(r, m)], queued))),
       closeFn = (\<lambda>_. None) \<rparr>"

definition log_queue :: "recipient \<Rightarrow> string \<Rightarrow> message_envelope \<Rightarrow> (logs, unit) js" where
  "log_queue t i m = (\<lambda>(sent, queued). (Inr (), (sent, queued @ [(t, i, m)])))"

definition log_env :: "nat list \<Rightarrow> logs router_env" where
  "log_env down = \<lparr> en_transport = log_transport down, en_now = 5, en_messageQueue = Some log_queue, en_channelRouter = None \<rparr>"

lemma log_env_laws: "delivery_laws (en_transport (log_env down)) log_queue fst snd"
  by (auto simp: delivery_laws_def log_env_def log_transport_def log_queue_def split: prod.split sum.split)

text \<open>Two agencies, of which the second one's transport fails in \<open>log_env [1]\<close>.\<close>

definition two_agencies :: "logs router" where
  "two_agencies =
     snd (mr_registerAgency (log_env []) 1 (snd (createAgencyConnection ''b''
       (snd (mr_registerAgency (log_env []) 0 (snd (createAgencyConnection ''a'' (new_router ([], []) None))))))))"

lemmas router_run = mr_registerAgency_def mr_registerHumancy_def new_router_def registry.defs router.defs registry_run log_env_def

lemma two_agencies_eq: "two_agencies =
  \<lparr> rg_heap = [\<lparr> co_connectionType = Agency, co_id = ''a'', co_type = None, co_closed = False,
                  co_messageHandlers = [Route_incoming Agency], co_disconnectHandlers = [Mark_offline Agency ''a''] \<rparr>,
               \<lparr> co_connectionType = Agency, co_id = ''b'', co_type = None, co_closed = False,
                  co_messageHandlers = [Route_incoming Agency], co_disconnectHandlers = [Mark_offline Agency ''b''] \<rparr>],
    rg_world = ([], []), rg_agencies = [(''a'', fresh_entry 5 0), (''b'', fresh_entry 5 1)],
    rg_humancyInstances = [], rg_listeners = [], rg_calls = [],
    mr_listeners = [], mr_calls = [], mr_correlationManager = None \<rparr>"
  by (simp add: two_agencies_def router_run ls_emit_def)

lemma two_agencies_inv: "reg_inv two_agencies"
  by (auto simp: reg_inv_def two_agencies_eq side_def reference_def object_id_def fresh_entry_def
      split: recipient.split)


lemma cfor_enqueue:
  assumes "delivery_laws tr q sent queued"
  shows "\<exists>w'. cfor es (enqueue_for q t m) s = (Inr (), s\<lparr> rg_world := w' \<rparr>) \<and> sent w' = sent (rg_world s) \<and>
     queued w' = queued (rg_world s) @ map (\<lambda>e. (t, object_id s (rc_connection e), m)) es"
proof (induction es arbitrary: s)
  case Nil
  show ?case by (intro exI [of _ "rg_world s"]) (simp add: comp_simps)
next
  case (Cons e es)
  obtain w1 where w1: "enqueue_for q t m e s = (Inr (), s\<lparr> rg_world := w1 \<rparr>)"
    "sent w1 = sent (rg_world s)" "queued w1 = queued (rg_world s) @ [(t, object_id s (rc_connection e), m)]"
    unfolding enqueue_for_def using on_world_enqueue [OF assms] by blast
  obtain w2 where "cfor es (enqueue_for q t m) (s\<lparr> rg_world := w1 \<rparr>) = (Inr (), s\<lparr> rg_world := w1 \<rparr>\<lparr> rg_world := w2 \<rparr>)"
    "sent w2 = sent w1" "queued w2 = queued w1 @ map (\<lambda>e. (t, object_id s (rc_connection e), m)) es"
    using Cons [of "s\<lparr> rg_world := w1 \<rparr>"] by auto
  with w1 show ?case by (auto simp: comp_simps)
qed

text \<open>The sending loop splits the online recipients into those sent to and those queued for.\<close>

lemma send_each_split:
  assumes laws: "delivery_laws (en_transport E) q sent queued" and q: "en_messageQueue E = Some q"
  shows "\<exists>got kept w'. send_each E t m es acc s
        = (Inr (acc @ map (\<lambda>e. address t (object_id s (rc_connection e))) got), s\<lparr> rg_world := w' \<rparr>)
     \<and> mset got + mset kept = mset es
     \<and> sent w' = sent (rg_world s) @ map (\<lambda>e. (rc_connection e, m)) got
     \<and> queued w' = queued (rg_world s) @ map (\<lambda>e. (t, object_id s (rc_connection e), m)) kept"
proof (induction es arbitrary: acc s)
  case Nil
  show ?case by (rule exI [of _ "[]"], rule exI [of _ "[]"], rule exI [of _ "rg_world s"]) (simp add: comp_simps)
next
  case (Cons e es)
  let ?r = "rc_connection e"
  obtain res w1 where cs: "conn_send (en_transport E) ?r m s = (res, s\<lparr> rg_world := w1 \<rparr>)"
    by (rule conn_send_only_world)
  note w1 = conn_send_world [OF laws cs, simplified]
  show ?case
  proof (cases res)
    case (Inr u)
    obtain got kept w2 where IH: "send_each E t m es (acc @ [address t (object_id s ?r)]) (s\<lparr> rg_world := w1 \<rparr>)
        = (Inr (acc @ [address t (object_id s ?r)] @ map (\<lambda>e. address t (object_id s (rc_connection e))) got), s\<lparr> rg_world := w2 \<rparr>)"
      "mset got + mset kept = mset es" "sent w2 = sent w1 @ map (\<lambda>e. (rc_connection e, m)) got"
      "queued w2 = queued w1 @ map (\<lambda>e. (t, object_id s (rc_connection e), m)) kept"
      using Cons [of "acc @ [address t (object_id s ?r)]" "s\<lparr> rg_world := w1 \<rparr>"] by auto
    with cs w1 Inr show ?thesis
      by (intro exI [of _ "e # got"] exI [of _ kept] exI [of _ w2]) simp
  next
    case (Inl err)
    obtain w2 where w2: "on_world (q t (object_id s ?r) m) (s\<lparr> rg_world := w1 \<rparr>) = (Inr (), s\<lparr> rg_world := w2 \<rparr>)"
      "sent w2 = sent w1" "queued w2 = queued w1 @ [(t, object_id s ?r, m)]"
      using on_world_enqueue [OF laws, of t "object_id s ?r" m "s\<lparr> rg_world := w1 \<rparr>"] by auto
    obtain got kept w3 where IH: "send_each E t m es acc (s\<lparr> rg_world := w2 \<rparr>)
        = (Inr (acc @ map (\<lambda>e. address t (object_id s (rc_connection e))) got), s\<lparr> rg_world := w3 \<rparr>)"
      "mset got + mset kept = mset es" "sent w3 = sent w2 @ map (\<lambda>e. (rc_connection e, m)) got"
      "queued w3 = queued w2 @ map (\<lambda>e. (t, object_id s (rc_connection e), m)) kept"
      using Cons [of acc "s\<lparr> rg_world := w2 \<rparr>"] by auto
    with cs w1 w2 Inl q show ?thesis
      by (intro exI [of _ got] exI [of _ "e # kept"] exI [of _ w3]) (simp add: comp_simps enqueue_for_def)
  qed
qed

lemma entries_ids:
  assumes "reg_inv s"
  shows "map (\<lambda>e. object_id s (rc_connection e)) (jvals (side t s)) = jkeys (side t s)"
    and "e \<in> set (jvals (side t s)) \<Longrightarrow> jget (side t s) (object_id s (rc_connection e)) = Some e"
proof -
  have jok: "jok (side t s)" using assms by (simp add: reg_inv_def)
  have id: "object_id s (rc_connection e) = i" if "(i, e) \<in> set (side t s)" for i e
  proof -
    have "jget (side t s) i = Some e" using that jok by simp
    with assms show ?thesis unfolding reg_inv_def by blast
  qed
  then show "map (\<lambda>e. object_id s (rc_connection e)) (jvals (side t s)) = jkeys (side t s)"
    by (auto simp: comp_def)
  show "jget (side t s) (object_id s (rc_connection e)) = Some e" if "e \<in> set (jvals (side t s))"
    using that jok id by auto
qed

lemma online_offline_mset:
  "mset (filter online es) + mset (filter (\<lambda>e. rc_status e = Offline) es) = mset es"
proof -
  have "(\<lambda>e. rc_status e = Offline) = (\<lambda>e. \<not> online e)"
    by (rule ext) (metis connection_status.exhaust connection_status.distinct(1) online_def)
  then show ?thesis by (simp add: mset_filter flip: multiset_partition)
qed

text \<open>The broadcast in terms of registry entries.\<close>

lemma broadcast_split:
  assumes laws: "delivery_laws (en_transport E) q sent queued" and q: "en_messageQueue E = Some q"
    and some: "side t s \<noteq> []"
  shows "\<exists>got kept s'. broadcast E t m s = (Inr (), s')
     \<and> mset got + mset kept = mset (jvals (side t s))
     \<and> sent (rg_world s') = sent (rg_world s) @ map (\<lambda>e. (rc_connection e, m)) got
     \<and> queued (rg_world s') = queued (rg_world s) @ map (\<lambda>e. (t, object_id s (rc_connection e), m)) kept
     \<and> side t s' = side t s"
proof (cases "filter online (jvals (side t s)) = []")
  case True
  obtain w' where "cfor (jvals (side t s)) (enqueue_for q t m) s = (Inr (), s\<lparr> rg_world := w' \<rparr>)"
    "sent w' = sent (rg_world s)"
    "queued w' = queued (rg_world s) @ map (\<lambda>e. (t, object_id s (rc_connection e), m)) (jvals (side t s))"
    using cfor_enqueue [OF laws] by blast
  with True q some show ?thesis
    by (intro exI [of _ "[]"] exI [of _ "jvals (side t s)"]) (simp add: broadcast_def Let_def comp_simps)
next
  case False
  let ?on = "filter online (jvals (side t s))"
    and ?off = "filter (\<lambda>e. rc_status e = Offline) (jvals (side t s))"
  obtain got kept w1 where w1: "send_each E t m ?on [] s
      = (Inr (map (\<lambda>e. address t (object_id s (rc_connection e))) got), s\<lparr> rg_world := w1 \<rparr>)"
    "mset got + mset kept = mset ?on"
    "sent w1 = sent (rg_world s) @ map (\<lambda>e. (rc_connection e, m)) got"
    "queued w1 = queued (rg_world s) @ map (\<lambda>e. (t, object_id s (rc_connection e), m)) kept"
    using send_each_split [OF laws q, of t m ?on "[]" s] by auto
  let ?rec = "map (\<lambda>e. address t (object_id s (rc_connection e))) got"
  define s1 where "s1 = (if ?rec \<noteq> [] then mr_emit (Message_broadcast m ?rec) else id) (s\<lparr> rg_world := w1 \<rparr>)"
  have s1: "side t s1 = side t s" "rg_world s1 = w1" "object_id s1 = object_id s"
    by (auto simp: s1_def fun_eq_iff)
  obtain w2 where w2: "cfor ?off (enqueue_for q t m) s1 = (Inr (), s1\<lparr> rg_world := w2 \<rparr>)" "sent w2 = sent w1"
    "queued w2 = queued w1 @ map (\<lambda>e. (t, object_id s (rc_connection e), m)) ?off"
    using cfor_enqueue [OF laws, of ?off t m s1] by (auto simp: s1)
  have run: "broadcast E t m s = (Inr (), s1\<lparr> rg_world := w2 \<rparr>)"
    using False q w1(1) w2(1) by (cases "got = []") (simp_all add: broadcast_def Let_def comp_simps s1_def)
  have "mset got + mset (kept @ ?off) = mset (jvals (side t s))"
    using w1(2) online_offline_mset [of "jvals (side t s)"] by (simp add: add.assoc [symmetric])
  with run w1 w2 s1 show ?thesis
    by (intro exI [of _ got] exI [of _ "kept @ ?off"] exI [of _ "s1\<lparr> rg_world := w2 \<rparr>"]) simp
qed



section \<open>Lost broadcasts\<close>

lemma send_each_all_fail:
  assumes "en_messageQueue E = None"
    and "\<And>e. e \<in> set es \<Longrightarrow> \<exists>x. conn_send (en_transport E) (rc_connection e) m s = (Inl x, s)"
  shows "send_each E t m es acc s = (Inr acc, s)"
  using assms(2)
proof (induction es)
  case Nil
  then show ?case by (simp add: comp_simps)
next
  case (Cons e es)
  obtain x where "conn_send (en_transport E) (rc_connection e) m s = (Inl x, s)"
    using Cons.prems by auto
  with Cons assms(1) show ?case by (simp add: comp_simps)
qed

text \<open>
  Without a message queue a broadcast can be lost in silence: if there are online
  recipients and every send to them fails, the broadcast returns normally, emits no
  event and leaves the router as it was.
\<close>

lemma broadcast_lost_silently:
  assumes "en_messageQueue E = None" and "filter online (jvals (side t s)) \<noteq> []"
    and "\<forall>e \<in> set (jvals (side t s)). online e \<longrightarrow> (\<exists>x. conn_send (en_transport E) (rc_connection e) m s = (Inl x, s))"
  shows "broadcast E t m s = (Inr (), s)"
proof -
  have "send_each E t m (filter online (jvals (side t s))) [] s = (Inr [], s)"
    by (rule send_each_all_fail [OF assms(1)]) (use assms(3) in auto)
  with assms(1,2) show ?thesis by (simp add: broadcast_def Let_def comp_simps)
qed

definition queueless_env :: "logs router_env" where
  "queueless_env = \<lparr> en_transport = log_transport [0, 1], en_now = 5, en_messageQueue = None, en_channelRouter = None \<rparr>"

section \<open>Requests and responses\<close>

lemma registry_keeps_manager [simp]:
  "mr_correlationManager (mark_offline t now i s) = mr_correlationManager s"
  "mr_correlationManager (touch t now i s) = mr_correlationManager s"
  "mr_correlationManager (set_side t m s) = mr_correlationManager s"
  by (simp_all add: mark_offline_def touch_def rg_emit_def set_side_def split: option.split recipient.split)

lemma sendTo_keeps_manager: "mr_correlationManager (snd (sendTo tr now t i m s)) = mr_correlationManager s"
proof (cases "jget (side t s) i")
  case None
  then show ?thesis by (simp add: sendTo_def)
next
  case (Some e)
  obtain res w where "conn_send tr (rc_connection e) m s = (res, s\<lparr> rg_world := w \<rparr>)"
    by (rule conn_send_only_world)
  with Some show ?thesis
    by (cases res; cases t)
      (simp_all add: sendTo_def comp_simps markAgencyOffline_def markHumancyOffline_def)
qed

lemma route_to_keeps_manager: "mr_correlationManager (snd (route_to E t i m s)) = mr_correlationManager s"
proof -
  obtain b s1 where send: "sendTo (en_transport E) (en_now E) t i m s = (Inr b, s1)"
    using sendTo_outcome [of "en_transport E" "en_now E" t i m s] by blast
  then have s1: "mr_correlationManager s1 = mr_correlationManager s"
    using sendTo_keeps_manager [of "en_transport E" "en_now E" t i m s] by simp
  have world: "\<exists>res w. on_world f s1 = (res, s1\<lparr> rg_world := w \<rparr>)" for f :: "('a, unit) js"
    by (auto simp: on_world_def split: prod.split)
  have "mr_correlationManager (snd (cbind (on_world f) (\<lambda>_. cmod (mr_emit ev)) s1)) = mr_correlationManager s"
    for f :: "('a, unit) js" and ev
    using world [of f] s1 by (auto simp: comp_simps split: sum.split)
  with send s1 show ?thesis
    by (simp add: route_to_def comp_run(1-4) cbind_def [of "sendTo _ _ _ _ _"] split: option.split)
qed


text \<open>A router with an agency, a humancy instance and a request waiting for correlation \<open>c\<close>.\<close>

definition waiting_router :: "logs router" where
  "waiting_router =
     snd (mr_registerHumancy (log_env []) 1 (snd (createHumancyConnection ''h'' Vscode
       (snd (mr_registerAgency (log_env []) 0 (snd (createAgencyConnection ''a''
          (new_router ([], []) (Some two_waits)))))))))"

lemma waiting_router_eq: "waiting_router =
  \<lparr> rg_heap = [\<lparr> co_connectionType = Agency, co_id = ''a'', co_type = None, co_closed = False,
                  co_messageHandlers = [Route_incoming Agency], co_disconnectHandlers = [Mark_offline Agency ''a''] \<rparr>,
               \<lparr> co_connectionType = Humancy, co_id = ''h'', co_type = Some Vscode, co_closed = False,
                  co_messageHandlers = [Route_incoming Humancy], co_disconnectHandlers = [Mark_offline Humancy ''h''] \<rparr>],
    rg_world = ([], []), rg_agencies = [(''a'', fresh_entry 5 0)],
    rg_humancyInstances = [(''h'', fresh_entry 5 1)], rg_listeners = [], rg_calls = [],
    mr_listeners = [], mr_calls = [], mr_correlationManager = Some two_waits \<rparr>"
  by (simp add: waiting_router_def router_run ls_emit_def)

lemma sample_response_fields:
  "env_type sample_response = Decision_response" "correlationId sample_response = Some ''c''"
  "env_id sample_response = ''m''" "source sample_response \<noteq> None"
  "destination sample_response = Some \<lparr> ep_type = Ep_agency, ep_id = ''a'' \<rparr>" "channel sample_response = None"
  by (simp_all add: sample_response_def createMessageEnvelope_def)


definition sample_request :: message_envelope where
  "sample_request = sample_response\<lparr> env_type := Decision_request, destination := None \<rparr>"

text \<open>
  A failed \<open>routeAndWait\<close> leaves its wait behind: with no humancy instance registered
  the call throws, yet the correlation stays pending with a promise that the caller
  never received, and a retry under the same id is told that it is already pending.
\<close>

lemma routeAndWait_leaves_pending:
  "\<exists>s1 s2 cm1 cm2. routeAndWait (log_env []) sample_request 50 (new_router ([], []) (Some new_correlation_manager))
       = (Inl (NoRecipientsError ''broadcast_humancy''), s1)
     \<and> mr_correlationManager s1 = Some cm1 \<and> isPending cm1 ''c'' \<and> promise_outcome cm1 0 = None
     \<and> routeAndWait (log_env []) sample_request 50 s1 = (Inl (NoRecipientsError ''broadcast_humancy''), s2)
     \<and> mr_correlationManager s2 = Some cm2 \<and> promise_outcome cm2 1 = Some (Rejected (already_pending ''c''))"
  by (simp add: routeAndWait_def sample_request_def sample_response_fields new_router_def registry.defs router.defs
      new_registry_def waitForCorrelation_def cm_begin_def cm_rejected_def cm_settle_def new_correlation_manager_def
      Let_def log_env_def comp_simps route_def no_options_def of_result_def validateMessageForRouting_def
      determineRoute_def broadcastToHumancy_def broadcast_def side_def broadcast_target_def target_name_def
      isPending_def promise_outcome_def)

text \<open>
  Registering a connection again after unregistering it doubles its messages: the
  handler installed the first time is still there, so one incoming response is sent
  to its agency twice.
\<close>

lemma reregistered_connection_routes_twice:
  "\<exists>s1 s2 s3. mr_unregister ''h'' waiting_router = (Inr (), s1)
     \<and> mr_registerHumancy (log_env []) 1 s1 = (Inr (), s2)
     \<and> triggerMessage (log_env []) 1 sample_response s2 = (Inr (), s3)
     \<and> fst (rg_world s3) = [(0, sample_response), (0, sample_response)]"
  by (simp add: waiting_router_eq mr_unregister_def hasAgency_def hasHumancy_def router_run ls_emit_def
      triggerMessage_def incoming_message_def mr_correlate_def sample_response_fields route_def no_options_def
      of_result_def validateMessageForRouting_def determineRoute_def routeToAgency_def route_to_def sendTo_def
      conn_send_def on_world_def log_transport_def touch_def mr_emit_def)

end
