(* ===== verification/RedisStore.thy ===== *)
theory RedisStore
  imports Messages Connections
begin

text \<open>
  The Redis adapter (\<open>persistence/redis-store.ts\<close>). The Redis client is third-party
  code: its commands are the fields of a record that every operation takes, acting on
  an outside world that contains the server. What the development relies on of them is
  the predicate \<open>redis_laws\<close>. A text that \<open>JSON.stringify\<close> produced is represented
  by the value it was made from, any other text by its characters.
\<close>

section \<open>Stored values\<close>

record stored_connection =
  sn_id :: string
  sn_type :: recipient
  sn_subtype :: "humancy_type option"
  sn_status :: connection_status
  sn_registeredAt :: int
  sn_lastSeenAt :: int

datatype dead_letter_status = Pending_retry | Max_retries_exceeded | Manually_resolved

record dead_letter_entry =
  de_message :: message_envelope
  de_error :: string
  de_failedAt :: int
  de_attempts :: nat
  de_lastAttemptAt :: int
  de_status :: dead_letter_status
  de_recipientType :: recipient
  de_recipientId :: string
  de_nextRetryAt :: "rat option"

datatype rtext =
    Raw string
  | Json_envelope message_envelope
  | Json_connection stored_connection
  | Json_entry dead_letter_entry

definition text_truthy :: "rtext option \<Rightarrow> bool" where
  "text_truthy t = (case t of None \<Rightarrow> False | Some (Raw s) \<Rightarrow> s \<noteq> [] | Some _ \<Rightarrow> True)"

definition parse_envelope :: "rtext \<Rightarrow> js_error + message_envelope" where
  "parse_envelope t = (case t of Json_envelope m \<Rightarrow> Inr m | _ \<Rightarrow> Inl (Plain_error ''Unexpected token''))"

definition parse_connection :: "rtext \<Rightarrow> js_error + stored_connection" where
  "parse_connection t = (case t of Json_connection c \<Rightarrow> Inr c | _ \<Rightarrow> Inl (Plain_error ''Unexpected token''))"

definition parse_entry :: "rtext \<Rightarrow> js_error + dead_letter_entry" where
  "parse_entry t = (case t of Json_entry e \<Rightarrow> Inr e | _ \<Rightarrow> Inl (Plain_error ''Unexpected token''))"

section \<open>The client\<close>

type_synonym stream_entry = "string \<times> rtext list"

record 'r redis =
  r_connect :: "('r, unit) js"
  r_quit :: "('r, unit) js"
  r_get :: "string \<Rightarrow> ('r, rtext option) js"
  r_set :: "string \<Rightarrow> rtext \<Rightarrow> ('r, unit) js"
  r_setex :: "string \<Rightarrow> int \<Rightarrow> rtext \<Rightarrow> ('r, unit) js"
  r_del :: "string \<Rightarrow> ('r, nat) js"
  r_exists :: "string \<Rightarrow> ('r, nat) js"
  r_keys :: "string \<Rightarrow> ('r, string list) js"
  r_mget :: "string list \<Rightarrow> ('r, rtext option list) js"
  r_expire :: "string \<Rightarrow> int \<Rightarrow> ('r, unit) js"
  r_xadd :: "string \<Rightarrow> rtext list \<Rightarrow> ('r, string option) js"
  r_xrange :: "string \<Rightarrow> nat option \<Rightarrow> ('r, stream_entry list) js"
  r_xdel :: "string \<Rightarrow> string list \<Rightarrow> ('r, nat) js"
  r_xlen :: "string \<Rightarrow> ('r, nat) js"
  r_publish :: "string \<Rightarrow> string \<Rightarrow> ('r, nat) js"
  r_sub_connect :: "('r, unit) js"
  r_sub_quit :: "('r, unit) js"
  r_sub_subscribe :: "string \<Rightarrow> ('r, unit) js"
  r_sub_unsubscribe :: "string \<Rightarrow> ('r, unit) js"

text \<open>
  Documented behaviour of the commands the queues use, in terms of what is readable:
  \<open>strm\<close> the entries of a stream in order, \<open>val\<close> the value of a key that exists.
  Identifiers of stream entries are new.
\<close>

definition redis_laws ::
    "'r redis \<Rightarrow> ('r \<Rightarrow> string \<Rightarrow> stream_entry list) \<Rightarrow> ('r \<Rightarrow> string \<Rightarrow> rtext option) \<Rightarrow> bool" where
  "redis_laws R strm val \<longleftrightarrow>
     (\<forall>k r. r_get R k r = (Inr (val r k), r)) \<and>
     (\<forall>k v r. \<exists>r'. r_set R k v r = (Inr (), r') \<and> val r' = (val r)(k \<mapsto> v) \<and> strm r' = strm r) \<and>
     (\<forall>k n v r. 0 < n \<longrightarrow> (\<exists>r'. r_setex R k n v r = (Inr (), r') \<and> val r' = (val r)(k \<mapsto> v) \<and> strm r' = strm r)) \<and>
     (\<forall>k r. \<exists>n r'. r_del R k r = (Inr n, r') \<and> val r' = (val r)(k := None) \<and> strm r' = strm r) \<and>
     (\<forall>k r. r_exists R k r = (Inr (if val r k = None then 0 else 1), r)) \<and>
     (\<forall>k fs r. \<exists>i r'. r_xadd R k fs r = (Inr (Some i), r') \<and> i \<notin> fst ` set (strm r k)
        \<and> strm r' = (strm r)(k := strm r k @ [(i, fs)]) \<and> val r' = val r) \<and>
     (\<forall>k c r. r_xrange R k c r = (Inr (case c of None \<Rightarrow> strm r k | Some n \<Rightarrow> take n (strm r k)), r)) \<and>
     (\<forall>k ids r. \<exists>n r'. r_xdel R k ids r = (Inr n, r')
        \<and> strm r' = (strm r)(k := filter (\<lambda>e. fst e \<notin> set ids) (strm r k)) \<and> val r' = val r) \<and>
     (\<forall>k r. r_xlen R k r = (Inr (length (strm r k)), r))"

lemma redis_lawsD:
  assumes "redis_laws R strm val"
  shows "r_get R k r = (Inr (val r k), r)"
    and "\<exists>r'. r_set R k v r = (Inr (), r') \<and> val r' = (val r)(k \<mapsto> v) \<and> strm r' = strm r"
    and "0 < n \<Longrightarrow> \<exists>r'. r_setex R k n v r = (Inr (), r') \<and> val r' = (val r)(k \<mapsto> v) \<and> strm r' = strm r"
    and "\<exists>n r'. r_del R k r = (Inr n, r') \<and> val r' = (val r)(k := None) \<and> strm r' = strm r"
    and "r_exists R k r = (Inr (if val r k = None then 0 else 1), r)"
    and "\<exists>i r'. r_xadd R k fs r = (Inr (Some i), r') \<and> i \<notin> fst ` set (strm r k)
          \<and> strm r' = (strm r)(k := strm r k @ [(i, fs)]) \<and> val r' = val r"
    and "r_xrange R k c r = (Inr (case c of None \<Rightarrow> strm r k | Some m \<Rightarrow> take m (strm r k)), r)"
    and "\<exists>n r'. r_xdel R k ids r = (Inr n, r')
          \<and> strm r' = (strm r)(k := filter (\<lambda>e. fst e \<notin> set ids) (strm r k)) \<and> val r' = val r"
    and "r_xlen R k r = (Inr (length (strm r k)), r)"
  using assms by (simp_all add: redis_laws_def)

section \<open>The store\<close>

definition CONNECTION_AGENCY :: string where "CONNECTION_AGENCY = ''connections:agency:''"
definition CONNECTION_HUMANCY :: string where "CONNECTION_HUMANCY = ''connections:humancy:''"
definition QUEUE_AGENCY :: string where "QUEUE_AGENCY = ''queue:agency:''"
definition QUEUE_HUMANCY :: string where "QUEUE_HUMANCY = ''queue:humancy:''"
definition DLQ_MESSAGES :: string where "DLQ_MESSAGES = ''dlq:messages''"
definition DLQ_ENTRY :: string where "DLQ_ENTRY = ''dlq:entry:''"
definition TTL_MESSAGE :: string where "TTL_MESSAGE = ''ttl:message:''"

record 'r redis_store =
  rs_world :: 'r
  rs_isConnected :: bool
  rs_subscriber :: bool
  rs_handlers :: "(string \<times> listener) list"

definition new_redis_store :: "'r \<Rightarrow> 'r redis_store" where
  "new_redis_store r = \<lparr> rs_world = r, rs_isConnected = False, rs_subscriber = False, rs_handlers = [] \<rparr>"

definition on_server :: "('r, 'a) js \<Rightarrow> (('r, 'z) redis_store_scheme, 'a) js" where
  "on_server f s = (case f (rs_world s) of (x, r) \<Rightarrow> (x, s\<lparr> rs_world := r \<rparr>))"

definition rs_connect :: "'r redis \<Rightarrow> (('r, 'z) redis_store_scheme, unit) js" where
  "rs_connect R s =
     (if rs_isConnected s then (Inr (), s)
      else cbind (on_server (r_connect R)) (\<lambda>_. cmod (\<lambda>s. s\<lparr> rs_isConnected := True \<rparr>)) s)"

definition rs_disconnect :: "'r redis \<Rightarrow> (('r, 'z) redis_store_scheme, unit) js" where
  "rs_disconnect R s =
     (if \<not> rs_isConnected s then (Inr (), s)
      else
        cbind (on_server (r_quit R)) (\<lambda>_.
        cbind (if rs_subscriber s then on_server (r_sub_quit R) else cret ()) (\<lambda>_.
        cmod (\<lambda>s. s\<lparr> rs_isConnected := False \<rparr>))) s)"

subsection \<open>Connections\<close>

definition connection_key :: "recipient \<Rightarrow> string \<Rightarrow> string" where
  "connection_key t i = (case t of Agency \<Rightarrow> CONNECTION_AGENCY @ i | Humancy \<Rightarrow> CONNECTION_HUMANCY @ i)"

definition set_with_ttl :: "'r redis \<Rightarrow> string \<Rightarrow> rtext \<Rightarrow> int option \<Rightarrow> (('r, 'z) redis_store_scheme, unit) js" where
  "set_with_ttl R k v ttlSeconds =
     (case ttlSeconds of
        Some n \<Rightarrow> if n \<noteq> 0 then on_server (r_setex R k n v) else on_server (r_set R k v)
      | None \<Rightarrow> on_server (r_set R k v))"

definition storeConnection ::
    "'r redis \<Rightarrow> recipient \<Rightarrow> stored_connection \<Rightarrow> int option \<Rightarrow> (('r, 'z) redis_store_scheme, unit) js" where
  "storeConnection R t c ttlSeconds = set_with_ttl R (connection_key t (sn_id c)) (Json_connection c) ttlSeconds"

definition of_parse :: "js_error + 'a \<Rightarrow> ('s, 'a) js" where
  "of_parse r = (case r of Inl e \<Rightarrow> cthrow e | Inr x \<Rightarrow> cret x)"

definition getConnection ::
    "'r redis \<Rightarrow> recipient \<Rightarrow> string \<Rightarrow> (('r, 'z) redis_store_scheme, stored_connection option) js" where
  "getConnection R t i =
     cbind (on_server (r_get R (connection_key t i))) (\<lambda>d.
       if \<not> text_truthy d then cret None
       else cbind (of_parse (parse_connection (the d))) (\<lambda>c. cret (Some c)))"

definition deleteConnection :: "'r redis \<Rightarrow> recipient \<Rightarrow> string \<Rightarrow> (('r, 'z) redis_store_scheme, unit) js" where
  "deleteConnection R t i = cbind (on_server (r_del R (connection_key t i))) (\<lambda>_. cret ())"

text \<open>\<open>values.filter(v => v !== null).map(JSON.parse)\<close>: one bad value makes it throw.\<close>

primrec parse_connections :: "rtext list \<Rightarrow> js_error + stored_connection list" where
  "parse_connections [] = Inr []"
| "parse_connections (v # vs) =
     (case parse_connection v of
        Inl e \<Rightarrow> Inl e
      | Inr c \<Rightarrow> (case parse_connections vs of Inl e \<Rightarrow> Inl e | Inr cs \<Rightarrow> Inr (c # cs)))"

definition getAllConnections ::
    "'r redis \<Rightarrow> recipient \<Rightarrow> (('r, 'z) redis_store_scheme, stored_connection list) js" where
  "getAllConnections R t =
     cbind (on_server (r_keys R (connection_key t ''*''))) (\<lambda>ks.
       if ks = [] then cret []
       else cbind (on_server (r_mget R ks)) (\<lambda>vs. of_parse (parse_connections (List.map_filter id vs))))"

subsection \<open>Message queues\<close>

definition stream_key :: "recipient \<Rightarrow> string \<Rightarrow> string" where
  "stream_key t i = (case t of Agency \<Rightarrow> QUEUE_AGENCY @ i | Humancy \<Rightarrow> QUEUE_HUMANCY @ i)"

definition ttl_key :: "string \<Rightarrow> string" where
  "ttl_key i = TTL_MESSAGE @ i"

text \<open>\<open>if (message.meta.ttl)\<close>: a time to live of zero counts as none.\<close>

definition has_ttl :: "message_envelope \<Rightarrow> bool" where
  "has_ttl m = (case ttl (meta m) of None \<Rightarrow> False | Some n \<Rightarrow> n \<noteq> 0)"

definition enqueueMessage ::
    "'r redis \<Rightarrow> recipient \<Rightarrow> string \<Rightarrow> message_envelope \<Rightarrow> (('r, 'z) redis_store_scheme, string) js" where
  "enqueueMessage R t i m =
     cbind (on_server (r_xadd R (stream_key t i) [Raw ''data'', Json_envelope m])) (\<lambda>mid.
     cbind (if has_ttl m
            then on_server (r_setex R (ttl_key (env_id m)) (ttlToSeconds (the (ttl (meta m)))) (Raw ''1''))
            else cret ()) (\<lambda>_.
     cret (default_to [] mid)))"

text \<open>\<open>fields.indexOf(name)\<close> and the field after it.\<close>

fun field_after :: "rtext \<Rightarrow> rtext list \<Rightarrow> rtext option" where
  "field_after name [] = None"
| "field_after name (f # fs) = (if f = name then (case fs of [] \<Rightarrow> None | v # _ \<Rightarrow> Some v) else field_after name fs)"

text \<open>
  One round of the loop: the message of a stream entry, unless the entry has no data,
  is malformed, or had a time to live whose key is gone. Errors inside the \<open>try\<close> skip
  the entry.
\<close>

definition dequeue_one :: "'r redis \<Rightarrow> stream_entry \<Rightarrow> (('r, 'z) redis_store_scheme, message_envelope option) js" where
  "dequeue_one R e =
     (case e of (streamId, flds) \<Rightarrow>
        if length flds < 2 then cret None
        else
          (case field_after (Raw ''data'') flds of
             None \<Rightarrow> cret None
           | Some d \<Rightarrow>
               if \<not> text_truthy (Some d) then cret None
               else
                 ctry (cbind (of_parse (parse_envelope d)) (\<lambda>m.
                       cbind (on_server (r_exists R (ttl_key (env_id m)))) (\<lambda>n.
                       cret (if has_ttl m \<and> n = 0 then None else Some m))))
                   (\<lambda>_. cret None)))"

primrec dequeue_loop ::
    "'r redis \<Rightarrow> stream_entry list \<Rightarrow> (('r, 'z) redis_store_scheme, (string \<times> message_envelope) list) js" where
  "dequeue_loop R [] = cret []"
| "dequeue_loop R (e # es) =
     cbind (dequeue_one R e) (\<lambda>r.
     cbind (dequeue_loop R es) (\<lambda>ms.
     cret (case r of None \<Rightarrow> ms | Some m \<Rightarrow> (fst e, m) # ms)))"

definition dequeueMessages ::
    "'r redis \<Rightarrow> recipient \<Rightarrow> string \<Rightarrow> nat
       \<Rightarrow> (('r, 'z) redis_store_scheme, (string \<times> message_envelope) list) js" where
  "dequeueMessages R t i count =
     cbind (on_server (r_xrange R (stream_key t i) (Some count))) (\<lambda>es.
       if es = [] then cret [] else dequeue_loop R es)"

definition acknowledgeMessages ::
    "'r redis \<Rightarrow> recipient \<Rightarrow> string \<Rightarrow> string list \<Rightarrow> (('r, 'z) redis_store_scheme, nat) js" where
  "acknowledgeMessages R t i streamIds =
     (if streamIds = [] then cret 0 else on_server (r_xdel R (stream_key t i) streamIds))"

definition rs_getQueueLength :: "'r redis \<Rightarrow> recipient \<Rightarrow> string \<Rightarrow> (('r, 'z) redis_store_scheme, nat) js" where
  "rs_getQueueLength R t i = on_server (r_xlen R (stream_key t i))"

subsection \<open>Publish and subscribe\<close>

definition rs_subscribe :: "'r redis \<Rightarrow> string \<Rightarrow> listener \<Rightarrow> (('r, 'z) redis_store_scheme, unit) js" where
  "rs_subscribe R ch callback =
     cbind (\<lambda>s. if \<not> rs_subscriber s
                then on_server (r_sub_connect R) (s\<lparr> rs_subscriber := True \<rparr>) else (Inr (), s)) (\<lambda>_.
     cbind (on_server (r_sub_subscribe R ch)) (\<lambda>_.
     cmod (\<lambda>s. s\<lparr> rs_handlers := rs_handlers s @ [(ch, callback)] \<rparr>)))"

definition rs_publish :: "'r redis \<Rightarrow> string \<Rightarrow> string \<Rightarrow> (('r, 'z) redis_store_scheme, nat) js" where
  "rs_publish R ch msg = on_server (r_publish R ch msg)"

definition rs_unsubscribe :: "'r redis \<Rightarrow> string \<Rightarrow> (('r, 'z) redis_store_scheme, unit) js" where
  "rs_unsubscribe R ch s = (if rs_subscriber s then on_server (r_sub_unsubscribe R ch) s else (Inr (), s))"

text \<open>The callbacks run when the subscriber receives a message on a channel.\<close>

definition rs_deliver :: "string \<Rightarrow> string \<Rightarrow> ('r, 'z) redis_store_scheme \<Rightarrow> (listener \<times> string) list" where
  "rs_deliver ch msg s = map (\<lambda>(_, l). (l, msg)) (filter (\<lambda>(c, _). c = ch) (rs_handlers s))"

subsection \<open>Generic operations\<close>

definition rs_set :: "'r redis \<Rightarrow> string \<Rightarrow> rtext \<Rightarrow> int option \<Rightarrow> (('r, 'z) redis_store_scheme, unit) js" where
  "rs_set R k v ttlSeconds = set_with_ttl R k v ttlSeconds"

definition rs_get :: "'r redis \<Rightarrow> string \<Rightarrow> (('r, 'z) redis_store_scheme, rtext option) js" where
  "rs_get R k = on_server (r_get R k)"

definition rs_del :: "'r redis \<Rightarrow> string \<Rightarrow> (('r, 'z) redis_store_scheme, unit) js" where
  "rs_del R k = cbind (on_server (r_del R k)) (\<lambda>_. cret ())"

definition rs_exists :: "'r redis \<Rightarrow> string \<Rightarrow> (('r, 'z) redis_store_scheme, bool) js" where
  "rs_exists R k = cbind (on_server (r_exists R k)) (\<lambda>n. cret (n = 1))"

definition rs_expire :: "'r redis \<Rightarrow> string \<Rightarrow> int \<Rightarrow> (('r, 'z) redis_store_scheme, unit) js" where
  "rs_expire R k seconds = on_server (r_expire R k seconds)"

section \<open>A reference server\<close>

text \<open>
  An in-memory server that satisfies the laws; it is used only to show that they can
  hold and to run examples.
\<close>

definition fresh_id :: "nat \<Rightarrow> string list \<Rightarrow> string" where
  "fresh_id n used = replicate (Suc (n + sum_list (map length used))) CHR ''0''"

record mem_redis =
  md_streams :: "string \<Rightarrow> stream_entry list"
  md_values :: "string \<Rightarrow> rtext option"
  md_next :: nat

definition mem_server :: "mem_redis redis" where
  "mem_server =
     \<lparr> r_connect = cret (), r_quit = cret (),
       r_get = (\<lambda>k. cget (\<lambda>r. md_values r k)),
       r_set = (\<lambda>k v. cmod (\<lambda>r. r\<lparr> md_values := (md_values r)(k \<mapsto> v) \<rparr>)),
       r_setex = (\<lambda>k n v. if 0 < n then cmod (\<lambda>r. r\<lparr> md_values := (md_values r)(k \<mapsto> v) \<rparr>)
                          else cthrow (Plain_error ''ERR invalid expire time'')),
       r_del = (\<lambda>k. cbind (cmod (\<lambda>r. r\<lparr> md_values := (md_values r)(k := None) \<rparr>)) (\<lambda>_. cret 1)),
       r_exists = (\<lambda>k. cget (\<lambda>r. if md_values r k = None then 0 else 1)),
       r_keys = (\<lambda>_. cret []), r_mget = (\<lambda>ks. cget (\<lambda>r. map (md_values r) ks)),
       r_expire = (\<lambda>_ _. cret ()),
       r_xadd = (\<lambda>k fs. \<lambda>r. let i = fresh_id (md_next r) (map fst (md_streams r k))
                             in (Inr (Some i), r\<lparr> md_streams := (md_streams r)(k := md_streams r k @ [(i, fs)]),
                                                   md_next := Suc (md_next r) \<rparr>)),
       r_xrange = (\<lambda>k c. cget (\<lambda>r. case c of None \<Rightarrow> md_streams r k | Some n \<Rightarrow> take n (md_streams r k))),
       r_xdel = (\<lambda>k ids. cbind (cmod (\<lambda>r. r\<lparr> md_streams := (md_streams r)(k := filter (\<lambda>e. fst e \<notin> set ids) (md_streams r k)) \<rparr>)) (\<lambda>_. cret 1)),
       r_xlen = (\<lambda>k. cget (\<lambda>r. length (md_streams r k))),
       r_publish = (\<lambda>_ _. cret 0), r_sub_connect = cret (), r_sub_quit = cret (),
       r_sub_subscribe = (\<lambda>_. cret ()), r_sub_unsubscribe = (\<lambda>_. cret ()) \<rparr>"

lemma fresh_id_new: "fresh_id n used \<notin> set used"
proof
  assume "fresh_id n used \<in> set used"
  then have "length (fresh_id n used) \<le> sum_list (map length used)"
    by (intro member_le_sum_list) simp_all
  then show False by (simp add: fresh_id_def)
qed

lemma mem_server_laws: "redis_laws mem_server md_streams md_values"
  using fresh_id_new [of _ "map fst _"] by (fastforce simp: redis_laws_def mem_server_def comp_simps Let_def)

end
