(* ===== verification/MessageQueue.thy ===== *)
theory MessageQueue
  imports RedisStore Emitter "HOL-Library.Multiset"
begin

text \<open>
  The queue of messages for offline recipients (\<open>persistence/message-queue.ts\<close>) on
  top of the Redis adapter. The delivery function is a parameter that acts on the
  outside world.
\<close>

datatype queue_event =
    Message_enqueued recipient string message_envelope
  | Message_delivered recipient string message_envelope
  | Message_expired recipient string message_envelope
  | Delivery_failed recipient string message_envelope js_error

datatype queue_kind = Kq_enqueued | Kq_delivered | Kq_expired | Kq_failed

definition queue_event_kind :: "queue_event \<Rightarrow> queue_kind" where
  "queue_event_kind e =
     (case e of Message_enqueued _ _ _ \<Rightarrow> Kq_enqueued | Message_delivered _ _ _ \<Rightarrow> Kq_delivered
      | Message_expired _ _ _ \<Rightarrow> Kq_expired | Delivery_failed _ _ _ _ \<Rightarrow> Kq_failed)"

record 'r message_queue = "'r redis_store" +
  mq_listeners :: "queue_kind listeners"
  mq_calls :: "(listener \<times> queue_event) list"

definition new_message_queue :: "'r \<Rightarrow> 'r message_queue" where
  "new_message_queue r = redis_store.extend (new_redis_store r) \<lparr> mq_listeners = [], mq_calls = [] \<rparr>"

definition mq_on :: "queue_kind \<Rightarrow> listener \<Rightarrow> 'r message_queue \<Rightarrow> 'r message_queue" where
  "mq_on k l s = s\<lparr> mq_listeners := ls_on k l (mq_listeners s) \<rparr>"

definition mq_off :: "queue_kind \<Rightarrow> listener \<Rightarrow> 'r message_queue \<Rightarrow> 'r message_queue" where
  "mq_off k l s = s\<lparr> mq_listeners := ls_off k l (mq_listeners s) \<rparr>"

definition mq_emit :: "queue_event \<Rightarrow> 'r message_queue \<Rightarrow> 'r message_queue" where
  "mq_emit e s = s\<lparr> mq_calls := mq_calls s @ ls_emit (mq_listeners s) (queue_event_kind e) e \<rparr>"

interpretation mqe: emitter mq_listeners mq_calls queue_event_kind mq_on mq_off mq_emit
  by unfold_locales (simp_all add: mq_on_def mq_off_def mq_emit_def)

section \<open>Operations\<close>

definition with_attempt :: "message_envelope \<Rightarrow> message_envelope" where
  "with_attempt m = m\<lparr> meta := (meta m)\<lparr> attempts := Some (default_to 0 (attempts (meta m)) + 1) \<rparr> \<rparr>"

definition mq_enqueue ::
    "'r redis \<Rightarrow> int \<Rightarrow> recipient \<Rightarrow> string \<Rightarrow> message_envelope \<Rightarrow> ('r message_queue, unit) js" where
  "mq_enqueue R now t i m =
     (if isMessageExpired now m then cmod (mq_emit (Message_expired t i m))
      else
        cbind (enqueueMessage R t i (with_attempt m)) (\<lambda>_.
        cmod (mq_emit (Message_enqueued t i (with_attempt m)))))"

record delivery_results =
  dr_delivered :: nat
  dr_failed :: nat
  dr_expired :: nat

definition no_results :: delivery_results where
  "no_results = \<lparr> dr_delivered = 0, dr_failed = 0, dr_expired = 0 \<rparr>"

text \<open>The loop of \<open>deliverQueued\<close>, with the ids to acknowledge and the counters.\<close>

primrec deliver_loop ::
    "int \<Rightarrow> recipient \<Rightarrow> string \<Rightarrow> (message_envelope \<Rightarrow> ('r, unit) js) \<Rightarrow> (string \<times> message_envelope) list
       \<Rightarrow> string list \<Rightarrow> delivery_results \<Rightarrow> ('r message_queue, string list \<times> delivery_results) js" where
  "deliver_loop now t i deliverFn [] toAcknowledge res = cret (toAcknowledge, res)"
| "deliver_loop now t i deliverFn (e # es) toAcknowledge res =
     (case e of (streamId, m) \<Rightarrow>
        if isMessageExpired now m then
          cbind (cmod (mq_emit (Message_expired t i m))) (\<lambda>_.
            deliver_loop now t i deliverFn es (toAcknowledge @ [streamId]) (res\<lparr> dr_expired := dr_expired res + 1 \<rparr>))
        else
          (\<lambda>s. case on_server (deliverFn m) s of
             (Inr _, s') \<Rightarrow>
               cbind (cmod (mq_emit (Message_delivered t i m))) (\<lambda>_.
                 deliver_loop now t i deliverFn es (toAcknowledge @ [streamId])
                   (res\<lparr> dr_delivered := dr_delivered res + 1 \<rparr>)) s'
           | (Inl err, s') \<Rightarrow>
               cbind (cmod (mq_emit (Delivery_failed t i m err))) (\<lambda>_.
                 deliver_loop now t i deliverFn es toAcknowledge (res\<lparr> dr_failed := dr_failed res + 1 \<rparr>)) s'))"

definition deliverQueued ::
    "'r redis \<Rightarrow> int \<Rightarrow> recipient \<Rightarrow> string \<Rightarrow> (message_envelope \<Rightarrow> ('r, unit) js)
       \<Rightarrow> ('r message_queue, delivery_results) js" where
  "deliverQueued R now t i deliverFn =
     cbind (dequeueMessages R t i 100) (\<lambda>es.
       if es = [] then cret no_results
       else
         cbind (deliver_loop now t i deliverFn es [] no_results) (\<lambda>(toAcknowledge, res).
         cbind (if toAcknowledge \<noteq> [] then cbind (acknowledgeMessages R t i toAcknowledge) (\<lambda>_. cret ()) else cret ()) (\<lambda>_.
         cret res)))"

definition mq_getQueueLength :: "'r redis \<Rightarrow> recipient \<Rightarrow> string \<Rightarrow> ('r message_queue, nat) js" where
  "mq_getQueueLength R t i = rs_getQueueLength R t i"

definition mq_peek ::
    "'r redis \<Rightarrow> recipient \<Rightarrow> string \<Rightarrow> nat option \<Rightarrow> ('r message_queue, message_envelope list) js" where
  "mq_peek R t i cnt =
     cbind (dequeueMessages R t i (default_to 10 cnt)) (\<lambda>es. cret (map snd es))"

section \<open>Reading the queue\<close>

text \<open>
  The messages a queue can still hand out: entries whose text is an envelope that has
  no time to live, or whose key of the time to live still exists.
\<close>

definition entry_message :: "stream_entry \<Rightarrow> message_envelope option" where
  "entry_message e =
     (case field_after (Raw ''data'') (snd e) of Some (Json_envelope m) \<Rightarrow> Some m | _ \<Rightarrow> None)"

definition visible_message :: "(string \<Rightarrow> rtext option) \<Rightarrow> stream_entry \<Rightarrow> message_envelope option" where
  "visible_message v e =
     (case entry_message e of
        None \<Rightarrow> None
      | Some m \<Rightarrow> if has_ttl m \<and> v (ttl_key (env_id m)) = None then None else Some m)"

definition visible :: "(string \<Rightarrow> rtext option) \<Rightarrow> stream_entry list \<Rightarrow> (string \<times> message_envelope) list" where
  "visible v es = List.map_filter (\<lambda>e. map_option (\<lambda>m. (fst e, m)) (visible_message v e)) es"

lemma field_after_length: "field_after n fs = Some v \<Longrightarrow> 2 \<le> length fs"
  by (induction fs) (auto split: if_splits list.splits)

lemma dequeue_one_visible:
  assumes "redis_laws R strm val"
  shows "dequeue_one R e s = (Inr (visible_message (val (rs_world s)) e), s)"
proof (cases e)
  case (Pair i fs)
  show ?thesis
  proof (cases "field_after (Raw ''data'') fs")
    case None
    then show ?thesis
      by (simp add: Pair dequeue_one_def visible_message_def entry_message_def comp_simps)
  next
    case (Some d)
    with field_after_length have "\<not> length fs < 2" by fastforce
    then show ?thesis
      using Some
      by (cases d) (auto simp: on_server_def redis_lawsD(5) [OF assms] Pair dequeue_one_def visible_message_def entry_message_def comp_simps
          text_truthy_def of_parse_def parse_envelope_def)
  qed
qed

lemma dequeue_loop_visible:
  assumes "redis_laws R strm val"
  shows "dequeue_loop R es s = (Inr (visible (val (rs_world s)) es), s)"
  by (induction es)
    (auto simp: comp_simps visible_def map_filter_simps dequeue_one_visible [OF assms] split: option.split)

lemma dequeueMessages_visible:
  assumes "redis_laws R strm val"
  shows "dequeueMessages R t i n s = (Inr (visible (val (rs_world s)) (take n (strm (rs_world s) (stream_key t i)))), s)"
  by (simp add: dequeueMessages_def comp_simps on_server_def redis_lawsD(7) [OF assms] dequeue_loop_visible [OF assms])
    (simp add: visible_def map_filter_simps)

lemma visible_ids: "map fst (visible v es) = map fst (filter (\<lambda>e. visible_message v e \<noteq> None) es)"
  by (induction es) (auto simp: visible_def map_filter_simps split: option.split)

section \<open>Delivery\<close>

text \<open>A delivery function that leaves the queues alone.\<close>

definition keeps_queues ::
    "('r \<Rightarrow> string \<Rightarrow> stream_entry list) \<Rightarrow> ('r \<Rightarrow> string \<Rightarrow> rtext option) \<Rightarrow> (message_envelope \<Rightarrow> ('r, unit) js) \<Rightarrow> bool" where
  "keeps_queues strm val f \<longleftrightarrow> (\<forall>m r. strm (snd (f m r)) = strm r \<and> val (snd (f m r)) = val r)"

definition due :: "int \<Rightarrow> (string \<times> message_envelope) list \<Rightarrow> (string \<times> message_envelope) list" where
  "due now es = filter (\<lambda>e. isMessageExpired now (snd e)) es"

lemma deliver_loop_split:
  assumes keep: "keeps_queues strm val f"
  shows "\<exists>acks lost res' s'. deliver_loop now t i f es ack res s = (Inr (ack @ map fst acks, res'), s')
     \<and> mset acks + mset lost = mset es \<and> (\<forall>e \<in> set lost. \<not> isMessageExpired now (snd e))
     \<and> dr_expired res' = dr_expired res + length (due now es)
     \<and> dr_delivered res' + dr_expired res' = dr_delivered res + dr_expired res + length acks
     \<and> dr_failed res' = dr_failed res + length lost
     \<and> strm (rs_world s') = strm (rs_world s) \<and> val (rs_world s') = val (rs_world s)"
proof (induction es arbitrary: ack res s)
  case Nil
  show ?case
    by (rule exI [of _ "[]"], rule exI [of _ "[]"], rule exI [of _ res], rule exI [of _ s]) (simp add: comp_simps due_def)
next
  case (Cons e es)
  obtain j m where e: "e = (j, m)" by fastforce
  show ?case
  proof (cases "isMessageExpired now m")
    case True
    obtain acks lost res' s' where IH: "deliver_loop now t i f es (ack @ [j]) (res\<lparr> dr_expired := dr_expired res + 1 \<rparr>)
          (mq_emit (Message_expired t i m) s) = (Inr ((ack @ [j]) @ map fst acks, res'), s')"
      "mset acks + mset lost = mset es" "\<forall>e \<in> set lost. \<not> isMessageExpired now (snd e)"
      "dr_expired res' = Suc (dr_expired res) + length (due now es)"
      "dr_delivered res' + dr_expired res' = dr_delivered res + Suc (dr_expired res) + length acks"
      "dr_failed res' = dr_failed res + length lost"
      "strm (rs_world s') = strm (rs_world s)" "val (rs_world s') = val (rs_world s)"
      using Cons [of "ack @ [j]" "res\<lparr> dr_expired := dr_expired res + 1 \<rparr>" "mq_emit (Message_expired t i m) s"]
      by (auto simp: mq_emit_def)
    with True show ?thesis
      by (intro exI [of _ "e # acks"] exI [of _ lost] exI [of _ res'] exI [of _ s']) (simp add: e comp_simps due_def)
  next
    case False
    obtain r w where f: "f m (rs_world s) = (r, w)" by fastforce
    with keep have w: "strm w = strm (rs_world s)" "val w = val (rs_world s)"
      unfolding keeps_queues_def by (metis snd_conv)+
    show ?thesis
    proof (cases r)
      case (Inr u)
      let ?s = "mq_emit (Message_delivered t i m) (s\<lparr> rs_world := w \<rparr>)"
      obtain acks lost res' s' where IH: "deliver_loop now t i f es (ack @ [j]) (res\<lparr> dr_delivered := dr_delivered res + 1 \<rparr>)
            ?s = (Inr ((ack @ [j]) @ map fst acks, res'), s')"
        "mset acks + mset lost = mset es" "\<forall>e \<in> set lost. \<not> isMessageExpired now (snd e)"
        "dr_expired res' = dr_expired res + length (due now es)"
        "dr_delivered res' + dr_expired res' = Suc (dr_delivered res) + dr_expired res + length acks"
        "dr_failed res' = dr_failed res + length lost"
        "strm (rs_world s') = strm (rs_world s)" "val (rs_world s') = val (rs_world s)"
        using Cons [of "ack @ [j]" "res\<lparr> dr_delivered := dr_delivered res + 1 \<rparr>" ?s] w by (auto simp: mq_emit_def)
      with False Inr f show ?thesis
        by (intro exI [of _ "e # acks"] exI [of _ lost] exI [of _ res'] exI [of _ s'])
          (simp add: e comp_simps due_def on_server_def)
    next
      case (Inl err)
      let ?s = "mq_emit (Delivery_failed t i m err) (s\<lparr> rs_world := w \<rparr>)"
      obtain acks lost res' s' where IH: "deliver_loop now t i f es ack (res\<lparr> dr_failed := dr_failed res + 1 \<rparr>)
            ?s = (Inr (ack @ map fst acks, res'), s')"
        "mset acks + mset lost = mset es" "\<forall>e \<in> set lost. \<not> isMessageExpired now (snd e)"
        "dr_expired res' = dr_expired res + length (due now es)"
        "dr_delivered res' + dr_expired res' = dr_delivered res + dr_expired res + length acks"
        "dr_failed res' = Suc (dr_failed res) + length lost"
        "strm (rs_world s') = strm (rs_world s)" "val (rs_world s') = val (rs_world s)"
        using Cons [of ack "res\<lparr> dr_failed := dr_failed res + 1 \<rparr>" ?s] w by (auto simp: mq_emit_def)
      with False Inl f show ?thesis
        by (intro exI [of _ acks] exI [of _ "e # lost"] exI [of _ res'] exI [of _ s'])
          (simp add: e comp_simps due_def on_server_def)
    qed
  qed
qed

lemma deliverQueued_finish:
  assumes laws: "redis_laws R strm val" and dq: "dequeueMessages R t i 100 s = (Inr es, s)"
    and loop: "deliver_loop now t i f es [] no_results s = (Inr (map fst acks, res), s1)"
    and same: "strm (rs_world s1) = strm (rs_world s)"
  shows "\<exists>s'. deliverQueued R now t i f s = (Inr res, s') \<and> strm (rs_world s') = (strm (rs_world s))(stream_key t i :=
          filter (\<lambda>e. fst e \<notin> fst ` set acks) (strm (rs_world s) (stream_key t i)))"
proof (cases "es = []")
  case True
  then have "acks = []" "res = no_results" using loop by (auto simp: comp_simps)
  with True dq show ?thesis by (simp add: deliverQueued_def comp_simps)
next
  case False
  show ?thesis
  proof (cases "acks = []")
    case True
    with False dq loop same show ?thesis by (simp add: deliverQueued_def comp_simps)
  next
    case nonempty: False
    obtain n r' where "r_xdel R (stream_key t i) (map fst acks) (rs_world s1) = (Inr n, r')"
      "strm r' = (strm (rs_world s1))(stream_key t i :=
          filter (\<lambda>e. fst e \<notin> set (map fst acks)) (strm (rs_world s1) (stream_key t i)))"
      using redis_lawsD(8) [OF laws] by blast
    with False nonempty dq loop same show ?thesis
      by (simp add: deliverQueued_def comp_simps acknowledgeMessages_def on_server_def)
  qed
qed


definition sample_message :: message_envelope where
  "sample_message = createMessageEnvelope 0
     \<lparr> par_id = ''m'', par_correlationId = None, par_type = Mode_command, par_channel = None,
       par_source = Some \<lparr> ep_type = Ep_router, ep_id = ''r'' \<rparr>,
       par_destination = Some \<lparr> ep_type = Ep_agency, ep_id = ''a'' \<rparr>, par_payload = JNull, par_meta = None \<rparr>"

definition one_queued :: "mem_redis message_queue" where
  "one_queued = new_message_queue
     \<lparr> md_streams = (\<lambda>_. [])(''queue:agency:a'' := [(''1-0'', [Raw ''data'', Json_envelope sample_message])]),
       md_values = [''ttl:message:m'' \<mapsto> Raw ''1''], md_next = 0 \<rparr>"

lemmas queue_keys = stream_key_def QUEUE_AGENCY_def QUEUE_HUMANCY_def ttl_key_def TTL_MESSAGE_def

lemma one_queued_visible:
  "visible (md_values (rs_world one_queued)) (take 100 (md_streams (rs_world one_queued) (stream_key Agency ''a'')))
     = [(''1-0'', sample_message)]"
  by (simp add: one_queued_def new_message_queue_def new_redis_store_def redis_store.defs message_queue.defs
      visible_def map_filter_simps visible_message_def entry_message_def queue_keys sample_message_def createMessageEnvelope_def)


section \<open>Round trip\<close>

lemma with_attempt_fields [simp]:
  "env_id (with_attempt m) = env_id m" "ttl (meta (with_attempt m)) = ttl (meta m)"
  "timestamp (meta (with_attempt m)) = timestamp (meta m)" "has_ttl (with_attempt m) = has_ttl m"
  "isMessageExpired now (with_attempt m) = isMessageExpired now m"
  by (simp_all add: with_attempt_def has_ttl_def isMessageExpired_def Let_def)

lemma enqueueMessage_stored:
  assumes laws: "redis_laws R strm val" and pos: "has_ttl m \<longrightarrow> 0 < the (ttl (meta m))"
  shows "\<exists>j w'. enqueueMessage R t i m s = (Inr j, s\<lparr> rs_world := w' \<rparr>)
     \<and> j \<notin> fst ` set (strm (rs_world s) (stream_key t i))
     \<and> strm w' = (strm (rs_world s))(stream_key t i :=
          strm (rs_world s) (stream_key t i) @ [(j, [Raw ''data'', Json_envelope m])])
     \<and> val w' = (if has_ttl m then (val (rs_world s))(ttl_key (env_id m) \<mapsto> Raw ''1'') else val (rs_world s))"
proof -
  obtain j w1 where w1: "r_xadd R (stream_key t i) [Raw ''data'', Json_envelope m] (rs_world s) = (Inr (Some j), w1)"
    "j \<notin> fst ` set (strm (rs_world s) (stream_key t i))"
    "strm w1 = (strm (rs_world s))(stream_key t i := strm (rs_world s) (stream_key t i) @ [(j, [Raw ''data'', Json_envelope m])])"
    "val w1 = val (rs_world s)"
    using redis_lawsD(6) [OF laws] by blast
  show ?thesis
  proof (cases "has_ttl m")
    case True
    with pos have "0 < ttlToSeconds (the (ttl (meta m)))" by (simp add: ttlToSeconds_def)
    then obtain w2 where "r_setex R (ttl_key (env_id m)) (ttlToSeconds (the (ttl (meta m)))) (Raw ''1'') w1 = (Inr (), w2)"
      "val w2 = (val w1)(ttl_key (env_id m) \<mapsto> Raw ''1'')" "strm w2 = strm w1"
      using redis_lawsD(3) [OF laws] by blast
    with True w1 show ?thesis
      by (intro exI [of _ j] exI [of _ w2]) (simp add: enqueueMessage_def comp_simps on_server_def)
  next
    case False
    with w1 show ?thesis
      by (intro exI [of _ j] exI [of _ w1]) (simp add: enqueueMessage_def comp_simps on_server_def)
  qed
qed

text \<open>
  What is queued is delivered: a message that is not expired, queued for a recipient
  with an empty queue and delivered while it is still not expired, reaches the delivery
  function with its attempt count raised by one, is counted as one delivery, and
  leaves the stream empty again.
\<close>

lemma enqueue_deliver_roundtrip:
  assumes laws: "redis_laws R strm val" and keep: "keeps_queues strm val f"
    and fresh: "\<not> isMessageExpired now m" "\<not> isMessageExpired now' m"
    and pos: "has_ttl m \<longrightarrow> 0 < the (ttl (meta m))"
    and empty: "strm (rs_world s) (stream_key t i) = []"
    and works: "\<forall>r. fst (f (with_attempt m) r) = Inr ()"
  shows "\<exists>s1 s2. mq_enqueue R now t i m s = (Inr (), s1)
     \<and> deliverQueued R now' t i f s1 = (Inr \<lparr> dr_delivered = 1, dr_failed = 0, dr_expired = 0 \<rparr>, s2)
     \<and> strm (rs_world s2) = strm (rs_world s)"
proof -
  let ?m = "with_attempt m" and ?k = "stream_key t i"
  obtain j w1 where w1: "enqueueMessage R t i ?m s = (Inr j, s\<lparr> rs_world := w1 \<rparr>)"
    "strm w1 = (strm (rs_world s))(?k := [(j, [Raw ''data'', Json_envelope ?m])])"
    "val w1 = (if has_ttl m then (val (rs_world s))(ttl_key (env_id m) \<mapsto> Raw ''1'') else val (rs_world s))"
    using enqueueMessage_stored [OF laws, of ?m t i s] pos empty by auto
  let ?s1 = "mq_emit (Message_enqueued t i ?m) (s\<lparr> rs_world := w1 \<rparr>)"
  have enq: "mq_enqueue R now t i m s = (Inr (), ?s1)"
    using fresh(1) w1(1) by (simp add: mq_enqueue_def comp_simps)
  have world: "rs_world ?s1 = w1" by (simp add: mq_emit_def)
  have dq: "dequeueMessages R t i 100 ?s1 = (Inr [(j, ?m)], ?s1)"
    unfolding dequeueMessages_visible [OF laws] world
    by (simp add: w1(2,3) visible_def map_filter_simps visible_message_def entry_message_def)
  obtain w2 where w2: "f ?m w1 = (Inr (), w2)" "strm w2 = strm w1"
    using works keep unfolding keeps_queues_def by (metis prod.collapse)
  have loop: "deliver_loop now' t i f [(j, ?m)] [] no_results ?s1
      = (Inr (map fst [(j, ?m)], \<lparr> dr_delivered = 1, dr_failed = 0, dr_expired = 0 \<rparr>),
         mq_emit (Message_delivered t i ?m) (?s1\<lparr> rs_world := w2 \<rparr>))"
    using fresh(2) w2 by (simp add: comp_simps on_server_def world no_results_def)
  have "strm (rs_world (mq_emit (Message_delivered t i ?m) (?s1\<lparr> rs_world := w2 \<rparr>))) = strm (rs_world ?s1)"
    using w2 by (simp add: mq_emit_def)
  from deliverQueued_finish [OF laws dq loop this] obtain s2 where
    "deliverQueued R now' t i f ?s1 = (Inr \<lparr> dr_delivered = 1, dr_failed = 0, dr_expired = 0 \<rparr>, s2)"
    "strm (rs_world s2) = (strm w1)(?k := filter (\<lambda>e. fst e \<noteq> j) (strm w1 ?k))"
    by (auto simp: world)
  moreover have "(strm w1)(?k := filter (\<lambda>e. fst e \<noteq> j) (strm w1 ?k)) = strm (rs_world s)"
    using empty by (auto simp: w1(2) fun_eq_iff)
  ultimately show ?thesis using enq by metis
qed

section \<open>A backlog of expired messages\<close>

text \<open>
  Messages whose time-to-live key has gone are skipped but never removed: when the first
  hundred entries of a queue are such messages, delivering it returns zeros and changes
  nothing, however many deliverable messages stand behind them.
\<close>

lemma expired_backlog_blocks_queue:
  assumes laws: "redis_laws R strm val"
    and gone: "\<forall>e \<in> set (take 100 (strm (rs_world s) (stream_key t i))).
        \<exists>m. entry_message e = Some m \<and> has_ttl m \<and> val (rs_world s) (ttl_key (env_id m)) = None"
  shows "deliverQueued R now t i f s = (Inr no_results, s)"
proof -
  have "visible v es = []" if "\<forall>e \<in> set es. \<exists>m. entry_message e = Some m \<and> has_ttl m \<and> v (ttl_key (env_id m)) = None" for v es
    using that by (induction es) (auto simp: visible_def map_filter_simps visible_message_def)
  with gone have "dequeueMessages R t i 100 s = (Inr [], s)"
    unfolding dequeueMessages_visible [OF laws] by simp
  then show ?thesis by (simp add: deliverQueued_def comp_simps)
qed

definition backlog :: "mem_redis message_queue" where
  "backlog = new_message_queue
     \<lparr> md_streams = (\<lambda>_. map (\<lambda>n. (show_nat n, [Raw ''data'', Json_envelope sample_message])) [0..<100]
                        @ [(''200'', [Raw ''data'', Json_envelope (sample_message\<lparr> env_id := ''live'' \<rparr>)])]),
       md_values = [''ttl:message:live'' \<mapsto> Raw ''1''], md_next = 0 \<rparr>"

end
