(* ===== verification/DeadLetter.thy ===== *)
theory DeadLetter
  imports RedisStore Retry Emitter
begin

text \<open>
  The dead letter queue (\<open>persistence/dead-letter-queue.ts\<close>): failed messages with
  exponential backoff, on top of the Redis adapter. \<open>Math.random()\<close> is the parameter
  \<open>rnd\<close> of the operations that draw a delay, \<open>Date.now()\<close> the parameter \<open>now\<close>.
\<close>

datatype dlq_event =
    Entry_added dead_letter_entry
  | Entry_retried dead_letter_entry
  | Entry_resolved dead_letter_entry
  | Entry_exceeded dead_letter_entry

datatype dlq_kind = Kd_added | Kd_retried | Kd_resolved | Kd_exceeded

definition dlq_event_kind :: "dlq_event \<Rightarrow> dlq_kind" where
  "dlq_event_kind e =
     (case e of Entry_added _ \<Rightarrow> Kd_added | Entry_retried _ \<Rightarrow> Kd_retried
      | Entry_resolved _ \<Rightarrow> Kd_resolved | Entry_exceeded _ \<Rightarrow> Kd_exceeded)"

record 'r dead_letter_queue = "'r redis_store" +
  dl_retryConfig :: retry_config
  dl_listeners :: "dlq_kind listeners"
  dl_calls :: "(listener \<times> dlq_event) list"
  dl_retryInterval :: bool

definition new_dead_letter_queue :: "'r \<Rightarrow> partial_retry \<Rightarrow> 'r dead_letter_queue" where
  "new_dead_letter_queue r cfg =
     redis_store.extend (new_redis_store r)
       \<lparr> dl_retryConfig = merge_retry DEFAULT_RETRY_CONFIG cfg, dl_listeners = [], dl_calls = [],
         dl_retryInterval = False \<rparr>"

definition dl_on :: "dlq_kind \<Rightarrow> listener \<Rightarrow> 'r dead_letter_queue \<Rightarrow> 'r dead_letter_queue" where
  "dl_on k l s = s\<lparr> dl_listeners := ls_on k l (dl_listeners s) \<rparr>"

definition dl_off :: "dlq_kind \<Rightarrow> listener \<Rightarrow> 'r dead_letter_queue \<Rightarrow> 'r dead_letter_queue" where
  "dl_off k l s = s\<lparr> dl_listeners := ls_off k l (dl_listeners s) \<rparr>"

definition dl_emit :: "dlq_event \<Rightarrow> 'r dead_letter_queue \<Rightarrow> 'r dead_letter_queue" where
  "dl_emit e s = s\<lparr> dl_calls := dl_calls s @ ls_emit (dl_listeners s) (dlq_event_kind e) e \<rparr>"

interpretation dle: emitter dl_listeners dl_calls dlq_event_kind dl_on dl_off dl_emit
  by unfold_locales (simp_all add: dl_on_def dl_off_def dl_emit_def)

section \<open>Operations\<close>

definition entry_key :: "string \<Rightarrow> string" where
  "entry_key i = DLQ_ENTRY @ i"

definition save_entry :: "'r redis \<Rightarrow> string \<Rightarrow> dead_letter_entry \<Rightarrow> ('r dead_letter_queue, unit) js" where
  "save_entry R i e = rs_set R (entry_key i) (Json_entry e) None"

definition dead_letter_of ::
    "retry_config \<Rightarrow> int \<Rightarrow> rat \<Rightarrow> message_envelope \<Rightarrow> js_error \<Rightarrow> recipient \<Rightarrow> string \<Rightarrow> dead_letter_entry" where
  "dead_letter_of cfg now rnd m err t i =
     (let n = default_to 0 (attempts (meta m)) + 1
      in \<lparr> de_message = m, de_error = error_message err, de_failedAt = now, de_attempts = n, de_lastAttemptAt = now,
           de_status = (if n \<ge> maxAttempts cfg then Max_retries_exceeded else Pending_retry),
           de_recipientType = t, de_recipientId = i,
           de_nextRetryAt = (if n \<ge> maxAttempts cfg then None
                             else Some (of_int now + calculateRetryDelay rnd (n - 1) cfg)) \<rparr>)"

definition dl_add ::
    "'r redis \<Rightarrow> int \<Rightarrow> rat \<Rightarrow> message_envelope \<Rightarrow> js_error \<Rightarrow> recipient \<Rightarrow> string \<Rightarrow> ('r dead_letter_queue, unit) js" where
  "dl_add R now rnd m err t i s =
     (let e = dead_letter_of (dl_retryConfig s) now rnd m err t i
      in cbind (save_entry R (env_id m) e) (\<lambda>_.
         cbind (on_server (r_xadd R DLQ_MESSAGES [Raw ''messageId'', Raw (env_id m)])) (\<lambda>_.
         cmod (dl_emit (if de_status e = Max_retries_exceeded then Entry_exceeded e else Entry_added e)))) s)"

definition dl_get :: "'r redis \<Rightarrow> string \<Rightarrow> ('r dead_letter_queue, dead_letter_entry option) js" where
  "dl_get R i =
     cbind (rs_get R (entry_key i)) (\<lambda>d.
       if \<not> text_truthy d then cret None
       else cbind (of_parse (parse_entry (the d))) (\<lambda>e. cret (Some e)))"

text \<open>The message id in the fields of an entry of the stream, where ids are plain texts.\<close>

definition stream_messageId :: "rtext list \<Rightarrow> string option" where
  "stream_messageId fs = (case field_after (Raw ''messageId'') fs of Some (Raw i) \<Rightarrow> Some i | _ \<Rightarrow> None)"

primrec list_loop ::
    "'r redis \<Rightarrow> dead_letter_status option \<Rightarrow> stream_entry list \<Rightarrow> ('r dead_letter_queue, dead_letter_entry list) js" where
  "list_loop R status [] = cret []"
| "list_loop R status (x # xs) =
     cbind (case stream_messageId (snd x) of
              None \<Rightarrow> cret None
            | Some i \<Rightarrow> if i = [] then cret None else dl_get R i) (\<lambda>r.
     cbind (list_loop R status xs) (\<lambda>es.
     cret (case r of
             None \<Rightarrow> es
           | Some e \<Rightarrow> if status = None \<or> status = Some (de_status e) then e # es else es)))"

definition dl_list ::
    "'r redis \<Rightarrow> dead_letter_status option \<Rightarrow> ('r dead_letter_queue, dead_letter_entry list) js" where
  "dl_list R status = cbind (on_server (r_xrange R DLQ_MESSAGES None)) (list_loop R status)"

text \<open>\<open>e.nextRetryAt && e.nextRetryAt <= now\<close>\<close>

definition ready_at :: "int \<Rightarrow> dead_letter_entry \<Rightarrow> bool" where
  "ready_at now e = (case de_nextRetryAt e of None \<Rightarrow> False | Some r \<Rightarrow> r \<noteq> 0 \<and> r \<le> of_int now)"

definition getReadyForRetry :: "'r redis \<Rightarrow> int \<Rightarrow> ('r dead_letter_queue, dead_letter_entry list) js" where
  "getReadyForRetry R now = cbind (dl_list R (Some Pending_retry)) (\<lambda>es. cret (filter (ready_at now) es))"

definition getExceeded :: "'r redis \<Rightarrow> ('r dead_letter_queue, dead_letter_entry list) js" where
  "getExceeded R = dl_list R (Some Max_retries_exceeded)"

definition markForRetry :: "'r redis \<Rightarrow> int \<Rightarrow> string \<Rightarrow> ('r dead_letter_queue, bool) js" where
  "markForRetry R now i =
     cbind (dl_get R i) (\<lambda>r.
       case r of
         None \<Rightarrow> cret False
       | Some e \<Rightarrow>
           if de_status e = Manually_resolved then cret False
           else cbind (save_entry R i (e\<lparr> de_status := Pending_retry, de_nextRetryAt := Some (of_int now) \<rparr>))
                  (\<lambda>_. cret True))"

text \<open>The loop that removes the first entry of the stream with a given message id.\<close>

primrec first_stream_id :: "string \<Rightarrow> stream_entry list \<Rightarrow> string option" where
  "first_stream_id i [] = None"
| "first_stream_id i (x # xs) =
     (if field_after (Raw ''messageId'') (snd x) = Some (Raw i) then Some (fst x) else first_stream_id i xs)"

definition remove_from_stream :: "'r redis \<Rightarrow> string \<Rightarrow> ('r dead_letter_queue, unit) js" where
  "remove_from_stream R i =
     cbind (on_server (r_xrange R DLQ_MESSAGES None)) (\<lambda>xs.
       case first_stream_id i xs of
         None \<Rightarrow> cret ()
       | Some j \<Rightarrow> cbind (on_server (r_xdel R DLQ_MESSAGES [j])) (\<lambda>_. cret ()))"

definition dl_resolve :: "'r redis \<Rightarrow> string \<Rightarrow> ('r dead_letter_queue, bool) js" where
  "dl_resolve R i =
     cbind (dl_get R i) (\<lambda>r.
       case r of
         None \<Rightarrow> cret False
       | Some e0 \<Rightarrow>
           (let e = e0\<lparr> de_status := Manually_resolved \<rparr>
            in cbind (save_entry R i e) (\<lambda>_.
               cbind (remove_from_stream R i) (\<lambda>_.
               cbind (cmod (dl_emit (Entry_resolved e))) (\<lambda>_. cret True)))))"

definition dl_delete :: "'r redis \<Rightarrow> string \<Rightarrow> ('r dead_letter_queue, bool) js" where
  "dl_delete R i =
     cbind (rs_exists R (entry_key i)) (\<lambda>ex.
       if \<not> ex then cret False
       else cbind (rs_del R (entry_key i)) (\<lambda>_.
            cbind (remove_from_stream R i) (\<lambda>_. cret True)))"

text \<open>What \<open>recordRetryAttempt\<close> makes of an entry after a failed attempt.\<close>

definition failed_attempt :: "retry_config \<Rightarrow> int \<Rightarrow> rat \<Rightarrow> js_error option \<Rightarrow> dead_letter_entry \<Rightarrow> dead_letter_entry" where
  "failed_attempt cfg now rnd err e =
     (let n = de_attempts e + 1;
          e1 = e\<lparr> de_attempts := n, de_lastAttemptAt := now \<rparr>;
          e2 = (if n \<ge> maxAttempts cfg
                then e1\<lparr> de_status := Max_retries_exceeded, de_nextRetryAt := None \<rparr>
                else e1\<lparr> de_status := Pending_retry,
                         de_nextRetryAt := Some (of_int now + calculateRetryDelay rnd (n - 1) cfg) \<rparr>)
      in (case err of None \<Rightarrow> e2 | Some x \<Rightarrow> e2\<lparr> de_error := error_message x \<rparr>))"

text \<open>
  The event \<open>entry:exceeded\<close> is emitted before the error of the entry is replaced;
  listeners hold the same object, so it is recorded as it ends up.
\<close>

definition recordRetryAttempt ::
    "'r redis \<Rightarrow> int \<Rightarrow> rat \<Rightarrow> string \<Rightarrow> bool \<Rightarrow> js_error option \<Rightarrow> ('r dead_letter_queue, unit) js" where
  "recordRetryAttempt R now rnd i success err =
     cbind (dl_get R i) (\<lambda>r.
       case r of
         None \<Rightarrow> cret ()
       | Some e0 \<Rightarrow>
           if success then
             (let e = e0\<lparr> de_attempts := de_attempts e0 + 1, de_lastAttemptAt := now, de_status := Manually_resolved \<rparr>
              in cbind (save_entry R i e) (\<lambda>_.
                 cbind (dl_delete R i) (\<lambda>_.
                 cmod (dl_emit (Entry_resolved e)))))
           else
             (\<lambda>s. let e = failed_attempt (dl_retryConfig s) now rnd err e0
                  in cbind (cmod (if de_status e = Max_retries_exceeded then dl_emit (Entry_exceeded e) else id)) (\<lambda>_.
                     save_entry R i e) s))"

record dlq_stats =
  ds_total :: nat
  ds_pendingRetry :: nat
  ds_exceeded :: nat
  ds_resolved :: nat

definition stats_of :: "dead_letter_entry list \<Rightarrow> dlq_stats" where
  "stats_of es =
     \<lparr> ds_total = length es,
       ds_pendingRetry = length (filter (\<lambda>e. de_status e = Pending_retry) es),
       ds_exceeded = length (filter (\<lambda>e. de_status e = Max_retries_exceeded) es),
       ds_resolved = length (filter (\<lambda>e. de_status e = Manually_resolved) es) \<rparr>"

definition dl_getStats :: "'r redis \<Rightarrow> ('r dead_letter_queue, dlq_stats) js" where
  "dl_getStats R = cbind (dl_list R None) (\<lambda>es. cret (stats_of es))"

text \<open>One tick of the retry processor; the delivery function acts on the outside world.\<close>

definition retry_entry ::
    "'r redis \<Rightarrow> int \<Rightarrow> rat \<Rightarrow> (dead_letter_entry \<Rightarrow> ('r, unit) js) \<Rightarrow> dead_letter_entry \<Rightarrow> ('r dead_letter_queue, unit) js" where
  "retry_entry R now rnd deliverFn e =
     ctry (cbind (on_server (deliverFn e)) (\<lambda>_. recordRetryAttempt R now rnd (env_id (de_message e)) True None))
       (\<lambda>err. recordRetryAttempt R now rnd (env_id (de_message e)) False (Some err))"

definition retry_tick ::
    "'r redis \<Rightarrow> int \<Rightarrow> rat \<Rightarrow> (dead_letter_entry \<Rightarrow> ('r, unit) js) \<Rightarrow> ('r dead_letter_queue, unit) js" where
  "retry_tick R now rnd deliverFn =
     cbind (getReadyForRetry R now) (\<lambda>ready. cfor ready (retry_entry R now rnd deliverFn))"

definition stopRetryProcessor :: "'r dead_letter_queue \<Rightarrow> 'r dead_letter_queue" where
  "stopRetryProcessor s = (if dl_retryInterval s then s\<lparr> dl_retryInterval := False \<rparr> else s)"

definition startRetryProcessor :: "'r dead_letter_queue \<Rightarrow> 'r dead_letter_queue" where
  "startRetryProcessor s = (stopRetryProcessor s)\<lparr> dl_retryInterval := True \<rparr>"

section \<open>Reading and writing entries\<close>

lemma dl_get_entry:
  assumes "redis_laws R strm val" and "val (rs_world s) (entry_key i) = Some (Json_entry e)"
  shows "dl_get R i s = (Inr (Some e), s)"
  using assms(2)
  by (simp add: dl_get_def rs_get_def comp_simps on_server_def redis_lawsD(1) [OF assms(1)] text_truthy_def
      of_parse_def parse_entry_def)

lemma save_entry_stored:
  assumes "redis_laws R strm val"
  shows "\<exists>w'. save_entry R i e s = (Inr (), s\<lparr> rs_world := w' \<rparr>)
     \<and> val w' = (val (rs_world s))(entry_key i \<mapsto> Json_entry e) \<and> strm w' = strm (rs_world s)"
  using redis_lawsD(2) [OF assms, of "entry_key i" "Json_entry e" "rs_world s"]
  by (auto simp: save_entry_def rs_set_def set_with_ttl_def on_server_def)

lemma dl_emit_frame [simp]:
  "rs_world (dl_emit e s) = rs_world s" "dl_retryConfig (dl_emit e s) = dl_retryConfig s"
  by (simp_all add: dl_emit_def)

lemma dl_add_stored:
  assumes laws: "redis_laws R strm val"
  shows "\<exists>s' e j. dl_add R now rnd m err t i s = (Inr (), s') \<and> dl_get R (env_id m) s' = (Inr (Some e), s')
     \<and> de_message e = m \<and> de_attempts e = Suc (default_to 0 (attempts (meta m)))
     \<and> (if maxAttempts (dl_retryConfig s) \<le> de_attempts e
         then de_status e = Max_retries_exceeded \<and> de_nextRetryAt e = None
         else de_status e = Pending_retry \<and>
              (\<exists>d. de_nextRetryAt e = Some (of_int now + d) \<and> d \<le> maxDelay (dl_retryConfig s)))
     \<and> strm (rs_world s') DLQ_MESSAGES
         = strm (rs_world s) DLQ_MESSAGES @ [(j, [Raw ''messageId'', Raw (env_id m)])]"
proof -
  define e where "e = dead_letter_of (dl_retryConfig s) now rnd m err t i"
  obtain w1 where w1: "save_entry R (env_id m) e s = (Inr (), s\<lparr> rs_world := w1 \<rparr>)"
    "val w1 = (val (rs_world s))(entry_key (env_id m) \<mapsto> Json_entry e)" "strm w1 = strm (rs_world s)"
    using save_entry_stored [OF laws] by blast
  obtain j w2 where w2: "r_xadd R DLQ_MESSAGES [Raw ''messageId'', Raw (env_id m)] w1 = (Inr (Some j), w2)"
    "strm w2 = (strm w1)(DLQ_MESSAGES := strm w1 DLQ_MESSAGES @ [(j, [Raw ''messageId'', Raw (env_id m)])])"
    "val w2 = val w1"
    using redis_lawsD(6) [OF laws] by blast
  let ?s = "dl_emit (if de_status e = Max_retries_exceeded then Entry_exceeded e else Entry_added e) (s\<lparr> rs_world := w2 \<rparr>)"
  have run: "dl_add R now rnd m err t i s = (Inr (), ?s)"
    using w1(1) w2(1) by (simp add: dl_add_def Let_def e_def [symmetric] comp_simps on_server_def)
  have get: "dl_get R (env_id m) ?s = (Inr (Some e), ?s)"
    by (rule dl_get_entry [OF laws]) (simp add: w1(2) w2(3))
  have "de_message e = m" "de_attempts e = Suc (default_to 0 (attempts (meta m)))"
    by (simp_all add: e_def dead_letter_of_def Let_def)
  moreover have "if maxAttempts (dl_retryConfig s) \<le> de_attempts e
      then de_status e = Max_retries_exceeded \<and> de_nextRetryAt e = None
      else de_status e = Pending_retry \<and>
           (\<exists>d. de_nextRetryAt e = Some (of_int now + d) \<and> d \<le> maxDelay (dl_retryConfig s))"
    by (simp add: e_def dead_letter_of_def Let_def delay_le_max)
  moreover have "strm (rs_world ?s) DLQ_MESSAGES = strm (rs_world s) DLQ_MESSAGES @ [(j, [Raw ''messageId'', Raw (env_id m)])]"
    by (simp add: w2(2) w1(3))
  ultimately show ?thesis using run get by blast
qed

text \<open>
  Adding a dead letter: it can be read back under the message's id with one more attempt
  than the message had; it is given up at once exactly when that reaches the configured
  maximum, and otherwise scheduled no further ahead than the maximum delay; its id is
  appended to the stream.
\<close>

lemma dead_letter_add:
  assumes laws: "redis_laws R strm val"
  shows "\<exists>s' e j. dl_add R now rnd m err t i s = (Inr (), s') \<and> dl_get R (env_id m) s' = (Inr (Some e), s')
     \<and> de_message e = m \<and> de_attempts e = Suc (default_to 0 (attempts (meta m)))
     \<and> (if maxAttempts (dl_retryConfig s) \<le> de_attempts e
         then de_status e = Max_retries_exceeded \<and> de_nextRetryAt e = None
         else de_status e = Pending_retry \<and>
              (\<exists>d. de_nextRetryAt e = Some (of_int now + d) \<and> d \<le> maxDelay (dl_retryConfig s)))
     \<and> strm (rs_world s') DLQ_MESSAGES
         = strm (rs_world s) DLQ_MESSAGES @ [(j, [Raw ''messageId'', Raw (env_id m)])]"
  by (rule dl_add_stored [OF assms])

definition dlq_message :: message_envelope where
  "dlq_message = createMessageEnvelope 0
     \<lparr> par_id = ''m'', par_correlationId = None, par_type = Mode_command, par_channel = None,
       par_source = Some \<lparr> ep_type = Ep_router, ep_id = ''r'' \<rparr>,
       par_destination = Some \<lparr> ep_type = Ep_agency, ep_id = ''a'' \<rparr>, par_payload = JNull, par_meta = None \<rparr>"

definition empty_dlq :: "mem_redis dead_letter_queue" where
  "empty_dlq = new_dead_letter_queue \<lparr> md_streams = (\<lambda>_. []), md_values = (\<lambda>_. None), md_next = 0 \<rparr>
     \<lparr> pt_maxAttempts = Some 3, pt_initialDelay = None, pt_maxDelay = None, pt_backoffFactor = None \<rparr>"

lemma empty_dlq_facts: "md_streams (rs_world empty_dlq) k = []" "maxAttempts (dl_retryConfig empty_dlq) = 3"
  by (simp_all add: empty_dlq_def new_dead_letter_queue_def new_redis_store_def redis_store.defs
      dead_letter_queue.defs merge_retry_def)

section \<open>Failed retries\<close>

primrec fail_times :: "'r redis \<Rightarrow> int \<Rightarrow> rat \<Rightarrow> js_error \<Rightarrow> string \<Rightarrow> nat \<Rightarrow> ('r dead_letter_queue, unit) js" where
  "fail_times R now rnd err i 0 = cret ()"
| "fail_times R now rnd err i (Suc n) =
     cbind (recordRetryAttempt R now rnd i False (Some err)) (\<lambda>_. fail_times R now rnd err i n)"

lemma failed_attempt_fields:
  "de_attempts (failed_attempt cfg now rnd err e) = Suc (de_attempts e)"
  "(de_status (failed_attempt cfg now rnd err e) = Max_retries_exceeded) = (maxAttempts cfg \<le> Suc (de_attempts e))"
  "maxAttempts cfg \<le> Suc (de_attempts e) \<Longrightarrow> de_nextRetryAt (failed_attempt cfg now rnd err e) = None"
  by (simp_all add: failed_attempt_def Let_def split: option.split)

lemma record_failure:
  assumes laws: "redis_laws R strm val" and e: "val (rs_world s) (entry_key i) = Some (Json_entry e)"
  shows "\<exists>s'. recordRetryAttempt R now rnd i False err s = (Inr (), s')
     \<and> val (rs_world s') = (val (rs_world s))(entry_key i \<mapsto> Json_entry (failed_attempt (dl_retryConfig s) now rnd err e))
     \<and> strm (rs_world s') = strm (rs_world s) \<and> dl_retryConfig s' = dl_retryConfig s"
proof -
  let ?e = "failed_attempt (dl_retryConfig s) now rnd err e"
  let ?s = "(if de_status ?e = Max_retries_exceeded then dl_emit (Entry_exceeded ?e) else id) s"
  obtain w where "save_entry R i ?e ?s = (Inr (), ?s\<lparr> rs_world := w \<rparr>)"
    "val w = (val (rs_world ?s))(entry_key i \<mapsto> Json_entry ?e)" "strm w = strm (rs_world ?s)"
    using save_entry_stored [OF laws] by blast
  then show ?thesis
    using dl_get_entry [OF laws e]
    by (intro exI [of _ "?s\<lparr> rs_world := w \<rparr>"]) (simp add: recordRetryAttempt_def comp_simps Let_def)
qed

text \<open>
  Retries are bounded: after \<open>n\<close> failed retries of an entry its attempt count has grown
  by \<open>n\<close>, and as soon as the count has reached the maximum the entry is marked as
  exceeded, has no next retry and is not ready for retry at any time.
\<close>

lemma dead_letter_retries_bounded:
  assumes laws: "redis_laws R strm val" and e: "val (rs_world s) (entry_key i) = Some (Json_entry e)" and n: "0 < n"
  shows "\<exists>s' e'. fail_times R now rnd err i n s = (Inr (), s') \<and> dl_get R i s' = (Inr (Some e'), s')
     \<and> de_attempts e' = de_attempts e + n
     \<and> (de_status e' = Max_retries_exceeded) = (maxAttempts (dl_retryConfig s) \<le> de_attempts e + n)
     \<and> (maxAttempts (dl_retryConfig s) \<le> de_attempts e + n \<longrightarrow> (\<forall>t. \<not> ready_at t e'))"
  using e n
proof (induction n arbitrary: s e)
  case 0
  then show ?case by simp
next
  case (Suc n)
  let ?e = "failed_attempt (dl_retryConfig s) now rnd (Some err) e"
  obtain s1 where s1: "recordRetryAttempt R now rnd i False (Some err) s = (Inr (), s1)"
    "val (rs_world s1) (entry_key i) = Some (Json_entry ?e)" "dl_retryConfig s1 = dl_retryConfig s"
    using record_failure [OF laws Suc.prems(1), of now rnd "Some err"] by auto
  show ?case
  proof (cases "n = 0")
    case True
    with s1 show ?thesis
      using dl_get_entry [OF laws s1(2)] failed_attempt_fields [where cfg = "dl_retryConfig s" and now = now and rnd = rnd and err = "Some err" and e = e]
      by (intro exI [of _ s1] exI [of _ ?e]) (simp add: comp_simps ready_at_def)
  next
    case False
    then obtain s' e' where "fail_times R now rnd err i n s1 = (Inr (), s')" "dl_get R i s' = (Inr (Some e'), s')"
      "de_attempts e' = Suc (de_attempts e) + n"
      "(de_status e' = Max_retries_exceeded) = (maxAttempts (dl_retryConfig s) \<le> Suc (de_attempts e) + n)"
      "maxAttempts (dl_retryConfig s) \<le> Suc (de_attempts e) + n \<longrightarrow> (\<forall>t. \<not> ready_at t e')"
      using Suc.IH [OF s1(2)] s1(3) failed_attempt_fields(1) [of "dl_retryConfig s" now rnd "Some err" e] by auto
    with s1(1) show ?thesis by (intro exI [of _ s'] exI [of _ e']) (simp add: comp_simps)
  qed
qed

definition dlq_with_entry :: "mem_redis dead_letter_queue" where
  "dlq_with_entry = empty_dlq\<lparr> rs_world := \<lparr> md_streams = (\<lambda>_. []),
     md_values = [''dlq:entry:m'' \<mapsto> Json_entry (dead_letter_of (dl_retryConfig empty_dlq) 9 0 dlq_message (Plain_error ''x'') Agency ''a'')],
     md_next = 0 \<rparr> \<rparr>"

section \<open>Resolved entries\<close>

text \<open>
  The statistics do not count what was resolved: a dead letter that is added to an empty
  queue and resolved is kept and reads as manually resolved, yet \<open>getStats\<close> reports
  zero entries and zero resolved ones, because resolving removes it from the stream
  that the statistics are computed from.
\<close>

lemma dead_letter_resolved_not_counted:
  assumes laws: "redis_laws R strm val" and none: "strm (rs_world s) DLQ_MESSAGES = []"
  shows "\<exists>s1 s2 e. dl_add R now rnd m err t i s = (Inr (), s1) \<and> dl_resolve R (env_id m) s1 = (Inr True, s2)
     \<and> dl_get R (env_id m) s2 = (Inr (Some e), s2) \<and> de_status e = Manually_resolved
     \<and> dl_getStats R s2 = (Inr \<lparr> ds_total = 0, ds_pendingRetry = 0, ds_exceeded = 0, ds_resolved = 0 \<rparr>, s2)"
proof -
  obtain s1 e0 j where s1: "dl_add R now rnd m err t i s = (Inr (), s1)" "dl_get R (env_id m) s1 = (Inr (Some e0), s1)"
    "strm (rs_world s1) DLQ_MESSAGES = [(j, [Raw ''messageId'', Raw (env_id m)])]"
    using dl_add_stored [OF laws, of now rnd m err t i s] none by auto
  define e where "e = e0\<lparr> de_status := Manually_resolved \<rparr>"
  obtain w1 where w1: "save_entry R (env_id m) e s1 = (Inr (), s1\<lparr> rs_world := w1 \<rparr>)"
    "val w1 = (val (rs_world s1))(entry_key (env_id m) \<mapsto> Json_entry e)" "strm w1 = strm (rs_world s1)"
    using save_entry_stored [OF laws] by blast
  obtain n w2 where w2: "r_xdel R DLQ_MESSAGES [j] w1 = (Inr n, w2)"
    "strm w2 = (strm w1)(DLQ_MESSAGES := filter (\<lambda>e. fst e \<notin> set [j]) (strm w1 DLQ_MESSAGES))" "val w2 = val w1"
    using redis_lawsD(8) [OF laws] by blast
  let ?s2 = "dl_emit (Entry_resolved e) (s1\<lparr> rs_world := w2 \<rparr>)"
  have "remove_from_stream R (env_id m) (s1\<lparr> rs_world := w1 \<rparr>) = (Inr (), s1\<lparr> rs_world := w2 \<rparr>)"
    using w2(1) s1(3) by (simp add: remove_from_stream_def comp_simps on_server_def redis_lawsD(7) [OF laws] w1(3))
  then have "dl_resolve R (env_id m) s1 = (Inr True, ?s2)"
    using s1(2) w1(1) by (simp add: dl_resolve_def comp_simps Let_def e_def [symmetric])
  moreover have "dl_get R (env_id m) ?s2 = (Inr (Some e), ?s2)"
    by (rule dl_get_entry [OF laws]) (simp add: w2(3) w1(2))
  moreover have "dl_getStats R ?s2 = (Inr \<lparr> ds_total = 0, ds_pendingRetry = 0, ds_exceeded = 0, ds_resolved = 0 \<rparr>, ?s2)"
    by (simp add: dl_getStats_def dl_list_def comp_simps on_server_def redis_lawsD(7) [OF laws] w2(2) w1(3) s1(3) stats_of_def)
  moreover have "de_status e = Manually_resolved" by (simp add: e_def)
  ultimately show ?thesis using s1(1) by blast
qed

end
