(* ===== verification/Channels.thy ===== *)
theory Channels
  imports NamedRegistry Emitter Routing
begin

text \<open>
  Plugin channels: the registry of channels (\<open>channels/channel-registry.ts\<close>) and the
  handler that dispatches channel messages (\<open>channels/channel-handler.ts\<close>). A
  channel's handler is a plugin's code: it is named by a number, and its behaviour is
  a parameter that gets the message and the context's \<open>reply\<close> and \<open>forward\<close>. The
  identifiers drawn from \<open>uuid\<close> are a parameter indexed by how many were drawn.
\<close>

record plugin_channel =
  ch_name :: string
  ch_handler :: nat
  ch_registeredBy :: string
  ch_registeredAt :: int

datatype channel_event = Channel_registered plugin_channel | Channel_unregistered string

datatype channel_kind = Kch_registered | Kch_unregistered

definition channel_event_kind :: "channel_event \<Rightarrow> channel_kind" where
  "channel_event_kind e = (case e of Channel_registered _ \<Rightarrow> Kch_registered | Channel_unregistered _ \<Rightarrow> Kch_unregistered)"

datatype handler_event =
    Message_handled message_envelope string
  | Message_forwarded message_envelope string string
  | Message_replied message_envelope message_envelope
  | Message_error message_envelope string js_error

datatype handler_kind = Kh_handled | Kh_forwarded | Kh_replied | Kh_error

definition handler_event_kind :: "handler_event \<Rightarrow> handler_kind" where
  "handler_event_kind e =
     (case e of Message_handled _ _ \<Rightarrow> Kh_handled | Message_forwarded _ _ _ \<Rightarrow> Kh_forwarded
      | Message_replied _ _ \<Rightarrow> Kh_replied | Message_error _ _ _ \<Rightarrow> Kh_error)"

record 'w channel_system =
  cn_channels :: "(string, plugin_channel) jmap"
  cn_listeners :: "channel_kind listeners"
  cn_calls :: "(listener \<times> channel_event) list"
  hd_listeners :: "handler_kind listeners"
  hd_calls :: "(listener \<times> handler_event) list"
  hd_drawn :: nat
  hd_world :: 'w

definition new_channel_system :: "'w \<Rightarrow> 'w channel_system" where
  "new_channel_system w =
     \<lparr> cn_channels = [], cn_listeners = [], cn_calls = [], hd_listeners = [], hd_calls = [], hd_drawn = 0, hd_world = w \<rparr>"

section \<open>The channel registry\<close>

definition cn_on :: "channel_kind \<Rightarrow> listener \<Rightarrow> 'w channel_system \<Rightarrow> 'w channel_system" where
  "cn_on k l s = s\<lparr> cn_listeners := ls_on k l (cn_listeners s) \<rparr>"

definition cn_off :: "channel_kind \<Rightarrow> listener \<Rightarrow> 'w channel_system \<Rightarrow> 'w channel_system" where
  "cn_off k l s = s\<lparr> cn_listeners := ls_off k l (cn_listeners s) \<rparr>"

definition cn_emit :: "channel_event \<Rightarrow> 'w channel_system \<Rightarrow> 'w channel_system" where
  "cn_emit e s = s\<lparr> cn_calls := cn_calls s @ ls_emit (cn_listeners s) (channel_event_kind e) e \<rparr>"

interpretation cne: emitter cn_listeners cn_calls channel_event_kind cn_on cn_off cn_emit
  by unfold_locales (simp_all add: cn_on_def cn_off_def cn_emit_def)

definition cn_register :: "int \<Rightarrow> string \<times> nat \<times> string \<Rightarrow> ('w channel_system, unit) js" where
  "cn_register now arg s =
     (case arg of (name, handler, registeredBy) \<Rightarrow>
        if \<not> isValidChannelName name then
          (if List.member RESERVED_CHANNEL_NAMES name
           then cthrow (InvalidChannelNameError name ''name is reserved'') s
           else cthrow (InvalidChannelNameError name ''must be 1-64 characters, alphanumeric and underscore only'') s)
        else if jhas (cn_channels s) name then cthrow (ChannelExistsError name) s
        else
          (let ch = \<lparr> ch_name = name, ch_handler = handler, ch_registeredBy = registeredBy, ch_registeredAt = now \<rparr>
           in (Inr (), cn_emit (Channel_registered ch) (s\<lparr> cn_channels := jset name ch (cn_channels s) \<rparr>))))"

definition cn_unregister :: "string \<Rightarrow> ('w channel_system, unit) js" where
  "cn_unregister name s =
     (if \<not> jhas (cn_channels s) name then cthrow (ChannelNotFoundError name) s
      else (Inr (), cn_emit (Channel_unregistered name) (s\<lparr> cn_channels := jdel name (cn_channels s) \<rparr>)))"

definition cn_get :: "'w channel_system \<Rightarrow> string \<Rightarrow> plugin_channel option" where
  "cn_get s name = jget (cn_channels s) name"

definition findChannel :: "'w channel_system \<Rightarrow> string \<Rightarrow> plugin_channel option" where
  "findChannel s name = cn_get s name"

definition cn_has :: "'w channel_system \<Rightarrow> string \<Rightarrow> bool" where
  "cn_has s name = jhas (cn_channels s) name"

definition cn_getAll :: "'w channel_system \<Rightarrow> plugin_channel list" where
  "cn_getAll s = jvals (cn_channels s)"

definition getByRegistrant :: "'w channel_system \<Rightarrow> string \<Rightarrow> plugin_channel list" where
  "getByRegistrant s registeredBy = filter (\<lambda>c. ch_registeredBy c = registeredBy) (cn_getAll s)"

definition getNames :: "'w channel_system \<Rightarrow> string list" where
  "getNames s = jkeys (cn_channels s)"

definition cn_size :: "'w channel_system \<Rightarrow> nat" where
  "cn_size s = length (cn_channels s)"

definition cn_clear :: "'w channel_system \<Rightarrow> 'w channel_system" where
  "cn_clear s = fold (\<lambda>name. cn_emit (Channel_unregistered name)) (getNames s) (s\<lparr> cn_channels := [] \<rparr>)"

section \<open>The message handler\<close>

definition hd_on :: "handler_kind \<Rightarrow> listener \<Rightarrow> 'w channel_system \<Rightarrow> 'w channel_system" where
  "hd_on k l s = s\<lparr> hd_listeners := ls_on k l (hd_listeners s) \<rparr>"

definition hd_off :: "handler_kind \<Rightarrow> listener \<Rightarrow> 'w channel_system \<Rightarrow> 'w channel_system" where
  "hd_off k l s = s\<lparr> hd_listeners := ls_off k l (hd_listeners s) \<rparr>"

definition hd_emit :: "handler_event \<Rightarrow> 'w channel_system \<Rightarrow> 'w channel_system" where
  "hd_emit e s = s\<lparr> hd_calls := hd_calls s @ ls_emit (hd_listeners s) (handler_event_kind e) e \<rparr>"

interpretation hde: emitter hd_listeners hd_calls handler_event_kind hd_on hd_off hd_emit
  by unfold_locales (simp_all add: hd_on_def hd_off_def hd_emit_def)

text \<open>The options and the surroundings of the handler.\<close>

record 'w handler_env =
  he_now :: int
  he_uuid :: "nat \<Rightarrow> string"
  he_routeReply :: "(message_envelope \<Rightarrow> ('w, unit) js) option"
  he_routeForward :: "(message_envelope \<Rightarrow> ('w, unit) js) option"

definition in_world :: "('w, 'a) js \<Rightarrow> ('w channel_system, 'a) js" where
  "in_world f s = (case f (hd_world s) of (r, w) \<Rightarrow> (r, s\<lparr> hd_world := w \<rparr>))"

definition draw_uuid :: "'w handler_env \<Rightarrow> ('w channel_system, string) js" where
  "draw_uuid E s = (Inr (he_uuid E (hd_drawn s)), s\<lparr> hd_drawn := Suc (hd_drawn s) \<rparr>)"

text \<open>\<open>message.correlationId ?? message.id\<close>: only \<open>undefined\<close> falls back to the id.\<close>

definition context_correlation :: "message_envelope \<Rightarrow> string" where
  "context_correlation m = default_to (env_id m) (correlationId m)"

definition reply_message :: "int \<Rightarrow> string \<Rightarrow> message_envelope \<Rightarrow> json \<Rightarrow> message_envelope" where
  "reply_message now i m p =
     createMessageEnvelope now
       \<lparr> par_id = i, par_correlationId = Some (context_correlation m), par_type = Channel_message,
         par_channel = channel m,
         par_source = Some (default_to \<lparr> ep_type = Ep_router, ep_id = ''channel-handler'' \<rparr> (destination m)),
         par_destination = source m, par_payload = p, par_meta = None \<rparr>"

definition forward_message :: "int \<Rightarrow> string \<Rightarrow> message_envelope \<Rightarrow> string \<Rightarrow> json \<Rightarrow> message_envelope" where
  "forward_message now i m ch p =
     createMessageEnvelope now
       \<lparr> par_id = i, par_correlationId = Some (context_correlation m), par_type = Channel_message,
         par_channel = Some ch, par_source = source m, par_destination = None, par_payload = p, par_meta = None \<rparr>"

definition context_reply :: "'w handler_env \<Rightarrow> message_envelope \<Rightarrow> json \<Rightarrow> ('w channel_system, unit) js" where
  "context_reply E m p =
     cbind (draw_uuid E) (\<lambda>i.
       let r = reply_message (he_now E) i m p
       in case he_routeReply E of
            None \<Rightarrow> cret ()
          | Some f \<Rightarrow> cbind (in_world (f r)) (\<lambda>_. cmod (hd_emit (Message_replied m r))))"

definition context_forward ::
    "'w handler_env \<Rightarrow> message_envelope \<Rightarrow> string \<Rightarrow> json \<Rightarrow> ('w channel_system, unit) js" where
  "context_forward E m ch p =
     cbind (draw_uuid E) (\<lambda>i.
       let r = forward_message (he_now E) i m ch p
       in case he_routeForward E of
            None \<Rightarrow> cret ()
          | Some f \<Rightarrow> cbind (in_world (f r)) (\<lambda>_. cmod (hd_emit (Message_forwarded m (the (channel m)) ch))))"

text \<open>The plugin code: what handler \<open>h\<close> does with a message and its context.\<close>

type_synonym 'w plugin_code =
  "nat \<Rightarrow> message_envelope \<Rightarrow> (json \<Rightarrow> ('w channel_system, unit) js)
     \<Rightarrow> (string \<Rightarrow> json \<Rightarrow> ('w channel_system, unit) js) \<Rightarrow> ('w channel_system, unit) js"

definition hd_handle :: "'w plugin_code \<Rightarrow> 'w handler_env \<Rightarrow> message_envelope \<Rightarrow> ('w channel_system, unit) js" where
  "hd_handle plugin E m s =
     (if \<not> truthy (channel m) then cthrow (Plain_error ''Message has no channel'') s
      else
        (let name = the (channel m)
         in case cn_get s name of
              None \<Rightarrow> cthrow (ChannelNotFoundError name) s
            | Some ch \<Rightarrow>
                ctry (cbind (plugin (ch_handler ch) m (context_reply E m) (context_forward E m)) (\<lambda>_.
                      cmod (hd_emit (Message_handled m name))))
                  (\<lambda>err. cbind (cmod (hd_emit (Message_error m name err))) (\<lambda>_. cthrow err)) s))"

section \<open>Contracts and properties\<close>

interpretation channels: strict_registry "cn_get :: 'w channel_system \<Rightarrow> _" "cn_register now" cn_unregister
    "\<lambda>s a. fst a" "\<lambda>s a. isValidChannelName (fst a)" for now
proof
  fix s :: "'w channel_system" and a :: "string \<times> nat \<times> string"
  assume "isValidChannelName (fst a)" and "cn_get s (fst a) = None"
  then show "\<exists>s' v. cn_register now a s = (Inr (), s') \<and> cn_get s' = (cn_get s)(fst a \<mapsto> v)
      \<and> fst a = fst a \<and> isValidChannelName (fst a)"
    by (cases a) (auto simp: cn_register_def cn_get_def cn_emit_def Let_def fun_eq_iff)
qed (auto simp: cn_register_def cn_unregister_def cn_get_def cn_emit_def comp_simps fun_eq_iff split: prod.splits)

text \<open>The registry's operations as steps, failing ones included.\<close>

inductive cn_reachable :: "'w channel_system \<Rightarrow> bool" where
  init: "cn_reachable (new_channel_system w)"
| register: "cn_reachable s \<Longrightarrow> cn_reachable (snd (cn_register now a s))"
| unregister: "cn_reachable s \<Longrightarrow> cn_reachable (snd (cn_unregister name s))"
| clear: "cn_reachable s \<Longrightarrow> cn_reachable (cn_clear s)"

lemma cn_clear_channels: "cn_channels (cn_clear s) = []"
proof -
  have "cn_channels (fold (\<lambda>name. cn_emit (Channel_unregistered name)) ns s) = cn_channels s" for ns and s :: "'a channel_system"
    by (induction ns arbitrary: s) (simp_all add: cn_emit_def)
  then show ?thesis by (simp add: cn_clear_def)
qed

lemma cn_reachable_valid:
  "cn_reachable s \<Longrightarrow> cn_get s name = Some ch \<Longrightarrow> ch_name ch = name \<and> isValidChannelName name"
proof (induction rule: cn_reachable.induct)
  case (init w)
  then show ?case by (simp add: new_channel_system_def cn_get_def)
next
  case (register s now a)
  then show ?case
    by (cases a) (auto simp: cn_register_def cn_get_def cn_emit_def Let_def comp_simps split: if_splits)
next
  case (unregister s n)
  then show ?case by (auto simp: cn_unregister_def cn_get_def cn_emit_def comp_simps split: if_splits)
next
  case (clear s)
  then show ?case by (simp add: cn_clear_channels cn_get_def)
qed

text \<open>
  Whatever is registered, unregistered and cleared, a channel stands under its own name,
  that name has 1 to 64 letters, digits or underscores and is not reserved; so a message
  on a reserved channel is always refused, and no plugin code runs for it.
\<close>

lemma reserved_channels_stay_closed:
  assumes "cn_reachable s"
  shows "(\<forall>name ch. cn_get s name = Some ch \<longrightarrow>
            ch_name ch = name \<and> 1 \<le> length name \<and> length name \<le> 64 \<and> list_all name_char name)
       \<and> (\<forall>m name. channel m = Some name \<and> name \<in> {''system'', ''internal'', ''router''} \<longrightarrow>
            hd_handle plugin E m s = (Inl (ChannelNotFoundError name), s))"
proof -
  have "cn_get s name = None" if "name \<in> {''system'', ''internal'', ''router''}" for name
    using cn_reachable_valid [OF assms, of name] that
    by (cases "cn_get s name") (auto simp: isValidChannelName_def RESERVED_CHANNEL_NAMES_def split: if_splits)
  then have "hd_handle plugin E m s = (Inl (ChannelNotFoundError name), s)"
    if "channel m = Some name" "name \<in> {''system'', ''internal'', ''router''}" for m name
    using that by (auto simp: hd_handle_def comp_simps)
  moreover have "ch_name ch = name \<and> 1 \<le> length name \<and> length name \<le> 64 \<and> list_all name_char name"
    if "cn_get s name = Some ch" for name ch
    using cn_reachable_valid [OF assms that]
    by (auto simp: isValidChannelName_def CHANNEL_NAME_PATTERN_def split: if_splits)
  ultimately show ?thesis by blast
qed

definition sample_channels :: "nat channel_system" where
  "sample_channels = snd (cn_register 1 (''system'', 7, ''p'') (snd (cn_register 1 (''chat'', 7, ''p'') (new_channel_system 0))))"

lemma sample_channels_get:
  "cn_get sample_channels ''chat'' = Some \<lparr> ch_name = ''chat'', ch_handler = 7, ch_registeredBy = ''p'', ch_registeredAt = 1 \<rparr>"
  by (simp add: sample_channels_def cn_register_def new_channel_system_def isValidChannelName_def
      CHANNEL_NAME_PATTERN_def RESERVED_CHANNEL_NAMES_def name_char_def cn_emit_def ls_emit_def comp_simps cn_get_def Let_def)

definition system_message :: message_envelope where
  "system_message = createMessageEnvelope 0
     \<lparr> par_id = ''m'', par_correlationId = None, par_type = Channel_message, par_channel = Some ''system'',
       par_source = Some \<lparr> ep_type = Ep_agency, ep_id = ''a'' \<rparr>, par_destination = None, par_payload = JNull, par_meta = None \<rparr>"

definition no_routes :: "nat handler_env" where
  "no_routes = \<lparr> he_now = 2, he_uuid = show_nat, he_routeReply = None, he_routeForward = None \<rparr>"

text \<open>
  Where a reply goes: for a message with a channel, the envelope built by the context's
  \<open>reply\<close> passes validation and keeps the conversation's correlation id; it names the
  original source as destination, but the routing rules send it to the same channel and
  not to that destination.
\<close>

lemma channel_reply_route:
  assumes "truthy (channel m)" and "i \<noteq> []"
  shows "validateMessageForRouting (reply_message now i m p) = Inr ()
       \<and> destination (reply_message now i m p) = source m
       \<and> correlationId (reply_message now i m p) = Some (default_to (env_id m) (correlationId m))
       \<and> determineRoute (reply_message now i m p)
           = Inr \<lparr> rd_target = To_channel, rd_targetId = channel m, rd_expectsResponse = False \<rparr>"
  using assms
  by (simp add: reply_message_def createMessageEnvelope_def validateMessageForRouting_def determineRoute_def
      context_correlation_def)

end
