(* ===== verification/RetryPolicy.thy ===== *)
theory RetryPolicy
  imports Retry
begin

text \<open>
  The retry policies of the worker's job handlers (\<open>worker/retry/retry-policy.ts\<close>).
  They share one contract, stated as a locale: which call of the function decides
  the outcome, and how often the policy sleeps.
\<close>

record agent_retry_config =
  ar_maxRetries :: nat
  ar_initialDelay :: rat
  ar_maxDelay :: rat
  ar_backoffMultiplier :: rat
  ar_retryableErrors :: "string list"

record integration_retry_config =
  ir_maxRetries :: nat
  ir_retryDelay :: rat
  ir_retryOn :: "int list"

text \<open>
  The loop of both retrying policies. The list holds the delays slept so far; the
  last branch is the \<open>throw lastError\<close> after the loop, which is never reached.
\<close>

function policy_loop ::
    "(js_error \<Rightarrow> bool) \<Rightarrow> nat \<Rightarrow> (nat \<Rightarrow> rat) \<Rightarrow> ('s, 'a) js \<Rightarrow> nat \<Rightarrow> 's \<Rightarrow> rat list
       \<Rightarrow> (js_error + 'a) \<times> 's \<times> rat list" where
  "policy_loop isRetryable maxRetries delay fn attempt s ds =
     (if attempt \<le> maxRetries then
        (case fn s of
           (Inr v, s') \<Rightarrow> (Inr v, s', ds)
         | (Inl e, s') \<Rightarrow>
             if \<not> isRetryable e \<or> attempt \<ge> maxRetries then (Inl e, s', ds)
             else policy_loop isRetryable maxRetries delay fn (Suc attempt) s' (ds @ [delay attempt]))
      else (Inl (Plain_error ''undefined''), s, ds))"
  by pat_completeness auto
termination
  by (relation "measure (\<lambda>(_, maxRetries, _, _, attempt, _). Suc maxRetries - attempt)") auto

declare policy_loop.simps [simp del]

section \<open>Exponential backoff\<close>

definition eb_isRetryable :: "agent_retry_config \<Rightarrow> js_error \<Rightarrow> bool" where
  "eb_isRetryable cfg e = (case e of CodedError code _ \<Rightarrow> List.member (ar_retryableErrors cfg) code | _ \<Rightarrow> False)"

definition eb_calculateDelay :: "agent_retry_config \<Rightarrow> nat \<Rightarrow> rat" where
  "eb_calculateDelay cfg attempt = min (ar_initialDelay cfg * ar_backoffMultiplier cfg ^ attempt) (ar_maxDelay cfg)"

definition eb_execute :: "agent_retry_config \<Rightarrow> ('s, 'a) js \<Rightarrow> 's \<Rightarrow> (js_error + 'a) \<times> 's \<times> rat list" where
  "eb_execute cfg fn s = policy_loop (eb_isRetryable cfg) (ar_maxRetries cfg) (eb_calculateDelay cfg) fn 0 s []"

section \<open>No retry\<close>

definition nr_execute :: "('s, 'a) js \<Rightarrow> 's \<Rightarrow> (js_error + 'a) \<times> 's \<times> rat list" where
  "nr_execute fn s = (case fn s of (r, s') \<Rightarrow> (r, s', []))"

section \<open>Status codes\<close>

definition sc_isRetryable :: "integration_retry_config \<Rightarrow> js_error \<Rightarrow> bool" where
  "sc_isRetryable cfg e = (case e of HttpError status _ \<Rightarrow> List.member (ir_retryOn cfg) status | _ \<Rightarrow> False)"

definition sc_execute :: "integration_retry_config \<Rightarrow> ('s, 'a) js \<Rightarrow> 's \<Rightarrow> (js_error + 'a) \<times> 's \<times> rat list" where
  "sc_execute cfg fn s = policy_loop (sc_isRetryable cfg) (ir_maxRetries cfg) (\<lambda>_. ir_retryDelay cfg) fn 0 s []"

section \<open>The contract\<close>

text \<open>The call that ends the retries: it returns, or fails for good.\<close>

definition final_call :: "(js_error \<Rightarrow> bool) \<Rightarrow> nat \<Rightarrow> nat \<Rightarrow> js_error + 'a \<Rightarrow> bool" where
  "final_call isR budget k r \<longleftrightarrow> (case r of Inr _ \<Rightarrow> True | Inl e \<Rightarrow> \<not> isR e \<or> k = budget)"

lemma after_failures_first:
  "fn s = (Inl e, s') \<Longrightarrow> isR e \<Longrightarrow> after_failures isR fn (Suc k) s = after_failures isR fn k s'"
  by simp

lemma final_call_exists:
  "\<exists>k t. k \<le> budget \<and> after_failures isR fn k s = Some t \<and> final_call isR budget k (fst (fn t))"
proof (induction budget arbitrary: s)
  case 0
  show ?case by (intro exI [of _ 0] exI [of _ s]) (simp add: final_call_def split: sum.split)
next
  case (Suc b)
  obtain r s' where f: "fn s = (r, s')" by fastforce
  show ?case
  proof (cases "final_call isR (Suc b) 0 r")
    case True
    with f show ?thesis by (intro exI [of _ 0] exI [of _ s]) simp
  next
    case False
    then obtain e where e: "r = Inl e" "isR e" by (auto simp: final_call_def split: sum.splits)
    obtain k t where "k \<le> b" "after_failures isR fn k s' = Some t" "final_call isR b k (fst (fn t))"
      using Suc.IH by blast
    with f e show ?thesis
      by (intro exI [of _ "Suc k"] exI [of _ t]) (simp add: after_failures_first final_call_def split: sum.splits)
  qed
qed

locale retry_policy =
  fixes execute :: "('s, 'a) js \<Rightarrow> 's \<Rightarrow> (js_error + 'a) \<times> 's \<times> rat list"
    and retryable :: "js_error \<Rightarrow> bool"
    and budget :: nat
    and delay :: "nat \<Rightarrow> rat"
  assumes execute_final: "after_failures retryable fn k s = Some t \<Longrightarrow> k \<le> budget \<Longrightarrow>
      final_call retryable budget k (fst (fn t)) \<Longrightarrow>
      execute fn s = (fst (fn t), snd (fn t), map delay [0..<k])"
begin

text \<open>
  Every execution ends with the outcome, value or error, of one of the first
  \<open>budget + 1\<close> calls, after as many sleeps as calls failed before it.
\<close>

lemma execute_outcome:
  "\<exists>k t. k \<le> budget \<and> after_failures retryable fn k s = Some t \<and> final_call retryable budget k (fst (fn t)) \<and>
     execute fn s = (fst (fn t), snd (fn t), map delay [0..<k])"
  using final_call_exists [of budget retryable fn s] execute_final by blast

lemma execute_value:
  assumes "fst (fn s) = Inr v"
  shows "execute fn s = (Inr v, snd (fn s), [])"
  using execute_final [of fn 0 s s] assms by (simp add: final_call_def)

lemma execute_hopeless:
  assumes "fst (fn s) = Inl e" and "\<not> retryable e"
  shows "execute fn s = (Inl e, snd (fn s), [])"
  using execute_final [of fn 0 s s] assms by (simp add: final_call_def)

end

lemma policy_loop_final:
  assumes "after_failures isR fn k s = Some t" and "i + k \<le> n" and "final_call isR n (i + k) (fst (fn t))"
  shows "policy_loop isR n delay fn i s ds = (fst (fn t), snd (fn t), ds @ map delay [i..<i + k])"
  using assms
proof (induction k arbitrary: i s ds)
  case 0
  then show ?case
    by (subst policy_loop.simps) (auto simp: final_call_def split: prod.splits sum.splits)
next
  case (Suc k)
  then obtain e s1 where "fn s = (Inl e, s1)" "isR e" "after_failures isR fn k s1 = Some t"
    by (auto split: prod.splits sum.splits if_splits)
  moreover have "[i..<i + Suc k] = i # [Suc i..<Suc i + k]" by (simp add: upt_conv_Cons del: upt_Suc)
  ultimately show ?case
    using Suc.prems Suc.IH [of s1 "Suc i" "ds @ [delay i]"]
    by (subst policy_loop.simps) (simp del: upt_Suc)
qed

interpretation eb: retry_policy "eb_execute cfg" "eb_isRetryable cfg" "ar_maxRetries cfg" "eb_calculateDelay cfg" for cfg
  by unfold_locales (simp add: eb_execute_def policy_loop_final)

interpretation sc: retry_policy "sc_execute cfg" "sc_isRetryable cfg" "ir_maxRetries cfg" "\<lambda>_. ir_retryDelay cfg" for cfg
  by unfold_locales (simp add: sc_execute_def policy_loop_final)

interpretation nr: retry_policy nr_execute "\<lambda>_. False" 0 "\<lambda>_. 0"
  by unfold_locales (simp add: nr_execute_def split: prod.split)

text \<open>
  Exponential backoff, for every function and state: the policy ends with the outcome of
  call number \<open>k + 1\<close> for some \<open>k\<close> up to \<open>maxRetries\<close>, where the \<open>k\<close> calls
  before it threw errors with a retryable code; that outcome is a value, an error that
  is not retryable, or the error of the last permitted call, unchanged; and it slept
  exactly \<open>k\<close> times, never longer than the configured maximum.
\<close>

lemma exponential_backoff_outcome:
  "\<exists>k t ds. k \<le> ar_maxRetries cfg \<and> after_failures (eb_isRetryable cfg) fn k s = Some t
     \<and> eb_execute cfg fn s = (fst (fn t), snd (fn t), ds)
     \<and> (case fst (fn t) of Inr _ \<Rightarrow> True | Inl e \<Rightarrow> \<not> eb_isRetryable cfg e \<or> k = ar_maxRetries cfg)
     \<and> length ds = k \<and> list_all (\<lambda>d. d \<le> ar_maxDelay cfg) ds"
proof -
  obtain k t where "k \<le> ar_maxRetries cfg" "after_failures (eb_isRetryable cfg) fn k s = Some t"
    "final_call (eb_isRetryable cfg) (ar_maxRetries cfg) k (fst (fn t))"
    "eb_execute cfg fn s = (fst (fn t), snd (fn t), map (eb_calculateDelay cfg) [0..<k])"
    using eb.execute_outcome [of cfg fn s] by (elim exE conjE)
  then show ?thesis
    by (intro exI [of _ k] exI [of _ t] exI [of _ "map (eb_calculateDelay cfg) [0..<k]"])
      (simp add: final_call_def list_all_iff eb_calculateDelay_def)
qed

definition sample_policy :: agent_retry_config where
  "sample_policy = \<lparr> ar_maxRetries = 2, ar_initialDelay = 100, ar_maxDelay = 1000, ar_backoffMultiplier = 2,
     ar_retryableErrors = [''ETIMEDOUT''] \<rparr>"

definition fails_once :: "(nat, nat) js" where
  "fails_once n = (if n = 0 then (Inl (CodedError ''ETIMEDOUT'' ''slow''), 1) else (Inr n, n))"

end
