(* ===== verification/Agents.thy ===== *)
theory Agents
  imports NamedRegistry
begin

text \<open>
  The registry of agent invokers (\<open>agents/agent-registry.ts\<close>). An invoker is its name
  and a number that stands for the object.
\<close>

record agent_invoker =
  ag_name :: string
  ag_object :: nat

record agent_registry =
  ag_agents :: "(string, agent_invoker) jmap"
  ag_defaultAgentName :: "string option"

definition new_agent_registry :: agent_registry where
  "new_agent_registry = \<lparr> ag_agents = [], ag_defaultAgentName = None \<rparr>"

definition ag_register :: "agent_invoker \<Rightarrow> (agent_registry, unit) js" where
  "ag_register a s =
     (if jhas (ag_agents s) (ag_name a) then cthrow (AgentExistsError (ag_name a)) s
      else (Inr (), s\<lparr> ag_agents := jset (ag_name a) a (ag_agents s) \<rparr>))"

definition ag_unregister :: "string \<Rightarrow> (agent_registry, unit) js" where
  "ag_unregister n s = (Inr (), s\<lparr> ag_agents := jdel n (ag_agents s) \<rparr>)"

definition ag_get :: "agent_registry \<Rightarrow> string \<Rightarrow> agent_invoker option" where
  "ag_get s n = jget (ag_agents s) n"

definition ag_list :: "agent_registry \<Rightarrow> agent_invoker list" where
  "ag_list s = jvals (ag_agents s)"

definition ag_setDefault :: "string \<Rightarrow> (agent_registry, unit) js" where
  "ag_setDefault n s =
     (if \<not> jhas (ag_agents s) n then cthrow (AgentNotFoundError n) s
      else (Inr (), s\<lparr> ag_defaultAgentName := Some n \<rparr>))"

definition ag_getDefault :: "agent_registry \<Rightarrow> js_error + agent_invoker" where
  "ag_getDefault s =
     (if \<not> truthy (ag_defaultAgentName s) then Inl DefaultAgentNotConfiguredError
      else
        (let n = the (ag_defaultAgentName s)
         in case jget (ag_agents s) n of None \<Rightarrow> Inl (AgentNotFoundError n) | Some a \<Rightarrow> Inr a))"

interpretation agents: named_registry ag_get ag_register ag_unregister "\<lambda>s a. ag_name a" "\<lambda>s a. True"
  by unfold_locales
    (auto simp: ag_get_def ag_register_def ag_unregister_def comp_simps fun_eq_iff)

text \<open>
  The default agent follows the registry: once a registered agent with a non-empty name is
  made the default it is what \<open>getDefault\<close> returns; after it is unregistered
  \<open>getDefault\<close> throws that the agent is not found; and registering an agent under the
  name again makes that one the default.
\<close>

lemma default_agent_follows_registry:
  assumes "ag_get s n = Some a" and "n \<noteq> []" and "ag_name b = n"
  shows "\<exists>s1 s2 s3. ag_setDefault n s = (Inr (), s1) \<and> ag_getDefault s1 = Inr a
     \<and> ag_unregister n s1 = (Inr (), s2) \<and> ag_getDefault s2 = Inl (AgentNotFoundError n)
     \<and> ag_register b s2 = (Inr (), s3) \<and> ag_getDefault s3 = Inr b"
  using assms by (auto simp: ag_get_def ag_setDefault_def ag_getDefault_def ag_unregister_def ag_register_def Let_def)

end
