(* ===== verification/QueueItems.thy ===== *)
theory QueueItems
  imports Jobs "HOL-Library.List_Lexorder" "HOL-Library.Char_ord"
begin

text \<open>
  Work items of the orchestrator (\<open>packages/orchestrator/src/types/monitor.ts\<close>), their
  priority scores (\<open>services/queue-priority.ts\<close>) and the severity of drop logs
  (\<open>services/drop-log-helper.ts\<close>), shared by the two queue adapters.
\<close>

section \<open>Items\<close>

datatype queue_reason = Reason_new | Reason_resume | Reason_retry

datatype queue_command = Process | Continue | Address_pr_feedback | Resolve_merge_conflicts

record queue_item =
  qi_owner :: string
  qi_repo :: string
  qi_issueNumber :: int
  qi_workflowName :: string
  qi_command :: queue_command
  qi_priority :: rat
  qi_enqueuedAt :: string
  qi_metadata :: "json option"
  qi_queueReason :: "queue_reason option"
  qi_userId :: "string option"

record serialized_item = queue_item +
  si_attemptCount :: nat
  si_reclaimCount :: "nat option"
  si_claimedAt :: "string option"
  si_itemKey :: string

definition buildItemKey :: "'z queue_item_scheme \<Rightarrow> string" where
  "buildItemKey item = qi_owner item @ ''/'' @ qi_repo item @ ''#'' @ show_int (qi_issueNumber item)"

text \<open>
  The object \<open>{ ...item, queueReason, priority, attemptCount, itemKey }\<close> the adapters put in
  the queue: fields of an item that is already serialised and are not written are absent.
\<close>

definition serialize_item ::
    "queue_item \<Rightarrow> queue_reason option \<Rightarrow> rat \<Rightarrow> nat \<Rightarrow> string \<Rightarrow> serialized_item" where
  "serialize_item item reason prio attemptCount itemKey =
     queue_item.extend (item\<lparr> qi_queueReason := reason, qi_priority := prio \<rparr>)
       \<lparr> si_attemptCount = attemptCount, si_reclaimCount = None, si_claimedAt = None, si_itemKey = itemKey \<rparr>"

text \<open>What \<open>claim\<close> and \<open>getQueueItems\<close> give out: the listed fields; the user id is not one of them.\<close>

definition claimed_view :: "serialized_item \<Rightarrow> queue_item" where
  "claimed_view s =
     \<lparr> qi_owner = qi_owner s, qi_repo = qi_repo s, qi_issueNumber = qi_issueNumber s,
       qi_workflowName = qi_workflowName s, qi_command = qi_command s, qi_priority = qi_priority s,
       qi_enqueuedAt = qi_enqueuedAt s, qi_metadata = qi_metadata s, qi_queueReason = qi_queueReason s,
       qi_userId = None \<rparr>"

lemma serialize_item_fields [simp]:
  "si_attemptCount (serialize_item item r p n k) = n" "si_itemKey (serialize_item item r p n k) = k"
  "qi_priority (serialize_item item r p n k) = p" "qi_queueReason (serialize_item item r p n k) = r"
  "qi_enqueuedAt (serialize_item item r p n k) = qi_enqueuedAt item"
  "qi_owner (serialize_item item r p n k) = qi_owner item" "qi_repo (serialize_item item r p n k) = qi_repo item"
  "qi_issueNumber (serialize_item item r p n k) = qi_issueNumber item"
  "si_reclaimCount (serialize_item item r p n k) = None" "si_claimedAt (serialize_item item r p n k) = None"
  by (simp_all add: serialize_item_def queue_item.defs)

lemma item_keys [simp]:
  "buildItemKey (serialize_item item r p n k) = buildItemKey item"
  "buildItemKey (claimed_view s) = buildItemKey s"
  by (simp_all add: buildItemKey_def claimed_view_def)

lemma claimed_view_userId [simp]: "qi_userId (claimed_view s) = None"
  by (simp add: claimed_view_def)

text \<open>Items for the examples.\<close>

definition sample_item :: "int \<Rightarrow> queue_item" where
  "sample_item n =
     \<lparr> qi_owner = ''o'', qi_repo = ''r'', qi_issueNumber = n, qi_workflowName = ''speckit-feature'', qi_command = Process,
       qi_priority = 0, qi_enqueuedAt = ''2026-01-01T00:00:00.000Z'', qi_metadata = None, qi_queueReason = None,
       qi_userId = Some ''u1'' \<rparr>"

definition sample_serialized :: "int \<Rightarrow> rat \<Rightarrow> serialized_item" where
  "sample_serialized n p = serialize_item (sample_item n) None p 0 (buildItemKey (sample_item n))"

section \<open>Dates\<close>

text \<open>
  \<open>Date.parse\<close> on the format of \<open>toISOString\<close>, which is the format of every timestamp the
  program writes; \<open>None\<close> is \<open>NaN\<close>.
\<close>

definition days_from_civil :: "int \<Rightarrow> int \<Rightarrow> int \<Rightarrow> int" where
  "days_from_civil y m d =
     (let y' = (if m \<le> 2 then y - 1 else y); era = y' div 400; yoe = y' mod 400;
          doy = (153 * (if m > 2 then m - 3 else m + 9) + 2) div 5 + d - 1;
          doe = yoe * 365 + yoe div 4 - yoe div 100 + doy
      in era * 146097 + doe - 719468)"

definition digits_at :: "nat \<Rightarrow> nat \<Rightarrow> string \<Rightarrow> nat" where
  "digits_at i n s = read_nat (take n (drop i s))"

definition iso_shape :: "string \<Rightarrow> bool" where
  "iso_shape s \<longleftrightarrow> length s = 24 \<and>
     map ((!) s) [4, 7, 10, 13, 16, 19, 23] = ''--T::.Z'' \<and>
     list_all (\<lambda>i. is_digit (s ! i)) [0, 1, 2, 3, 5, 6, 8, 9, 11, 12, 14, 15, 17, 18, 20, 21, 22]"

definition Date_parse :: "string \<Rightarrow> int option" where
  "Date_parse s =
     (if \<not> iso_shape s then None
      else
        (let y = int (digits_at 0 4 s); m = int (digits_at 5 2 s); d = int (digits_at 8 2 s);
             h = int (digits_at 11 2 s); mi = int (digits_at 14 2 s); sec = int (digits_at 17 2 s);
             ms = int (digits_at 20 3 s)
         in if 1 \<le> m \<and> m \<le> 12 \<and> 1 \<le> d \<and> d \<le> 31 \<and> h \<le> 23 \<and> mi \<le> 59 \<and> sec \<le> 59
            then Some (days_from_civil y m d * 86400000 + h * 3600000 + mi * 60000 + sec * 1000 + ms)
            else None))"

section \<open>Priority scores\<close>

text \<open>\<open>parseFloat\<close> on digits with an optional fraction.\<close>

definition parseFloat :: "string \<Rightarrow> rat" where
  "parseFloat s =
     (let whole = takeWhile is_digit s; rest = dropWhile is_digit s;
          frac = (case rest of c # cs \<Rightarrow> if c = CHR ''.'' then takeWhile is_digit cs else [] | [] \<Rightarrow> [])
      in of_nat (read_nat whole) + of_nat (read_nat frac) / 10 ^ length frac)"

definition getPriorityScore :: "int \<Rightarrow> queue_reason option \<Rightarrow> rat" where
  "getPriorityScore now reason =
     (case reason of
        Some Reason_resume \<Rightarrow> parseFloat (''0.'' @ show_int now)
      | Some Reason_retry \<Rightarrow> parseFloat (''1.'' @ show_int now)
      | _ \<Rightarrow> of_int now)"

lemma show_nat_bound: "n < 10 ^ length (show_nat n)"
proof (induction n rule: show_nat.induct)
  case (1 n)
  show ?case
  proof (cases "n < 10")
    case True
    then show ?thesis by (subst show_nat.simps) simp
  next
    case False
    with 1 have "n div 10 < 10 ^ length (show_nat (n div 10))" by simp
    then have "n < 10 * 10 ^ length (show_nat (n div 10))" by linarith
    with False show ?thesis by (subst show_nat.simps) simp
  qed
qed

lemma takeWhile_show_nat [simp]: "takeWhile is_digit (show_nat n) = show_nat n"
  using show_nat_digits [of n] by (simp add: list_all_iff)

lemma parse_fraction:
  assumes "is_digit c"
  shows "parseFloat (c # CHR ''.'' # show_nat n) = of_nat (char_digit c) + of_nat n / 10 ^ length (show_nat n)"
proof -
  have "\<not> is_digit CHR ''.''" by (simp add: is_digit_def)
  with assms show ?thesis by (simp add: parseFloat_def Let_def read_nat_def [of "[c]"])
qed

lemma fraction_below_1: "of_nat n / 10 ^ length (show_nat n) < (1 :: rat)"
proof -
  have "(of_nat n :: rat) < of_nat (10 ^ length (show_nat n))"
    using show_nat_bound [of n] by (simp only: of_nat_less_iff)
  then show ?thesis by simp
qed

lemma score_of_reason:
  assumes "0 \<le> now"
  shows "getPriorityScore now (Some Reason_resume) = of_nat (nat now) / 10 ^ length (show_nat (nat now))"
    and "getPriorityScore now (Some Reason_retry) = 1 + of_nat (nat now) / 10 ^ length (show_nat (nat now))"
  using assms parse_fraction [of "CHR ''0''" "nat now"] parse_fraction [of "CHR ''1''" "nat now"]
  by (simp_all add: getPriorityScore_def show_int_def is_digit_def char_digit_def)

text \<open>
  The tiers of the queue: whatever the times of the requests, an item to resume comes
  before an item to retry, and both come before every new item; and within the resume
  and the retry tier an earlier request comes before a later one, as long as their times
  have the same number of digits (13 until the year 2286).
\<close>

lemma priority_tiers:
  assumes "0 \<le> now" and "0 \<le> now'" and "2 \<le> now''"
  shows "getPriorityScore now (Some Reason_resume) < getPriorityScore now' (Some Reason_retry)
     \<and> getPriorityScore now' (Some Reason_retry) < getPriorityScore now'' (Some Reason_new)
     \<and> getPriorityScore now'' None = getPriorityScore now'' (Some Reason_new)
     \<and> (now < now' \<and> length (show_int now) = length (show_int now') \<longrightarrow>
          (\<forall>r\<in>{Reason_resume, Reason_retry}. getPriorityScore now (Some r) < getPriorityScore now' (Some r)))"
proof (intro conjI impI)
  note below = fraction_below_1 [of "nat now"] fraction_below_1 [of "nat now'"]
  have pos: "0 \<le> (of_nat (nat now') :: rat) / 10 ^ length (show_nat (nat now'))" by simp
  show "getPriorityScore now (Some Reason_resume) < getPriorityScore now' (Some Reason_retry)"
    unfolding score_of_reason [OF assms(1)] score_of_reason [OF assms(2)] using below(1) pos by linarith
  have "getPriorityScore now' (Some Reason_retry) < 2"
    unfolding score_of_reason [OF assms(2)] using below(2) by linarith
  also have "2 \<le> getPriorityScore now'' (Some Reason_new)"
    using assms(3) by (simp add: getPriorityScore_def)
  finally show "getPriorityScore now' (Some Reason_retry) < getPriorityScore now'' (Some Reason_new)" .
  show "getPriorityScore now'' None = getPriorityScore now'' (Some Reason_new)"
    by (simp add: getPriorityScore_def)
  assume n: "now < now' \<and> length (show_int now) = length (show_int now')"
  then have len: "length (show_nat (nat now)) = length (show_nat (nat now'))"
    using assms by (simp add: show_int_def)
  have "(of_nat (nat now) :: rat) < of_nat (nat now')" using n assms by simp
  then have "(of_nat (nat now) :: rat) / 10 ^ length (show_nat (nat now)) < of_nat (nat now') / 10 ^ length (show_nat (nat now'))"
    unfolding len by (rule divide_strict_right_mono) simp
  then show "\<forall>r\<in>{Reason_resume, Reason_retry}. getPriorityScore now (Some r) < getPriorityScore now' (Some r)"
    by (simp add: score_of_reason [OF assms(1)] score_of_reason [OF assms(2)])
qed

section \<open>Drop logs\<close>

datatype severity = Info | Warn

type_synonym drop_state = "(string, severity) jmap"

record drop_decision =
  dd_severity :: severity
  dd_isTransitionEdge :: bool
  dd_stateAfter :: severity

definition classifyDropSeverity ::
    "string \<Rightarrow> int option \<Rightarrow> int \<Rightarrow> drop_state \<Rightarrow> drop_decision \<times> drop_state" where
  "classifyDropSeverity itemKey ageMs thresholdMs state =
     (let prevSeverity = (case jget state itemKey of None \<Rightarrow> Info | Some s \<Rightarrow> s)
      in case ageMs of
           None \<Rightarrow> (\<lparr> dd_severity = Info, dd_isTransitionEdge = False, dd_stateAfter = prevSeverity \<rparr>, state)
         | Some age \<Rightarrow>
             (let newSeverity = (if age > thresholdMs then Warn else Info)
              in (\<lparr> dd_severity = newSeverity, dd_isTransitionEdge = (newSeverity \<noteq> prevSeverity),
                     dd_stateAfter = newSeverity \<rparr>,
                  jset itemKey newSeverity state)))"

text \<open>A line of the log: its level, the item, and the severity attached to a warning.\<close>

datatype log_line = Log_info string | Log_warn string severity

definition emitDropLog :: "drop_decision \<Rightarrow> string \<Rightarrow> log_line" where
  "emitDropLog d itemKey =
     (if dd_isTransitionEdge d then Log_warn itemKey (dd_severity d) else Log_info itemKey)"

text \<open>Logging a sequence of drops of one item, given the ages observed.\<close>

primrec log_drops :: "string \<Rightarrow> int \<Rightarrow> int option list \<Rightarrow> drop_state \<Rightarrow> log_line list" where
  "log_drops k t [] st = []"
| "log_drops k t (a # as) st =
     (case classifyDropSeverity k a t st of (d, st') \<Rightarrow> emitDropLog d k # log_drops k t as st')"

text \<open>The severities the warnings must show: the changes of \<open>age > threshold\<close>, starting from below.\<close>

primrec crossings :: "severity \<Rightarrow> int \<Rightarrow> int option list \<Rightarrow> severity list" where
  "crossings s t [] = []"
| "crossings s t (a # as) =
     (case a of None \<Rightarrow> crossings s t as
      | Some n \<Rightarrow> (let s' = (if n > t then Warn else Info)
                   in if s' = s then crossings s t as else s' # crossings s' t as))"

primrec warnings :: "log_line list \<Rightarrow> severity list" where
  "warnings [] = []"
| "warnings (l # ls) = (case l of Log_info _ \<Rightarrow> warnings ls | Log_warn _ s \<Rightarrow> s # warnings ls)"

lemma log_drops_from:
  "warnings (log_drops k t ages st) = crossings (case jget st k of None \<Rightarrow> Info | Some s \<Rightarrow> s) t ages"
proof (induction ages arbitrary: st)
  case Nil
  then show ?case by simp
next
  case (Cons a as)
  show ?case
    by (cases a) (auto simp: classifyDropSeverity_def emitDropLog_def Let_def Cons)
qed

lemma length_log_drops: "length (log_drops k t ages st) = length ages"
  by (induction ages arbitrary: st) (simp_all split: prod.split)

lemma crossings_alternate: "distinct_adj (s # crossings s t ages)"
  by (induction ages arbitrary: s) (simp_all add: Let_def split: option.split)

text \<open>
  Drop logs are as loud as they should be: however often a queued item is dropped, each
  drop writes one line, the warnings are exactly the crossings of the age threshold, one
  when an item gets too old and one when it is not any more, and unknown ages change
  nothing. Warnings of opening and closing alternate, starting with an opening.
\<close>

lemma drop_warnings_are_crossings:
  "length (log_drops k t ages []) = length ages
   \<and> warnings (log_drops k t ages []) = crossings Info t ages
   \<and> distinct_adj (Info # crossings Info t ages)"
  using log_drops_from [of k t ages "[]"] length_log_drops crossings_alternate by simp

end
