(* ===== verification/WorkQueue.thy ===== *)
theory WorkQueue
  imports QueueItems
begin

text \<open>
  The queue of the orchestrator as its users see it: the interface \<open>QueueManager\<close> of
  \<open>packages/orchestrator/src/types/monitor.ts\<close> as a record of computations, and what it
  promises as a locale over an abstract state, the place of every item key.
\<close>

section \<open>Reports of the sweeps\<close>

record reclaimed_item =
  ri_workerId :: string
  ri_itemKey :: string
  ri_ageMs :: int
  ri_attemptCountBefore :: nat
  ri_attemptCountAfter :: nat
  ri_reclaimCountBefore :: nat
  ri_reclaimCountAfter :: nat

record reap_report =
  rr_scanned :: nat
  rr_reclaimed :: "reclaimed_item list"
  rr_skippedRaceReappeared :: nat
  rr_skippedGraceWindow :: nat

record reconcile_report =
  rc_scanned :: nat
  rc_reconciled :: nat
  rc_skippedAlreadyGone :: nat
  rc_trackedFirstSeen :: nat

definition no_reap :: reap_report where
  "no_reap = \<lparr> rr_scanned = 0, rr_reclaimed = [], rr_skippedRaceReappeared = 0, rr_skippedGraceWindow = 0 \<rparr>"

definition no_reconcile :: reconcile_report where
  "no_reconcile = \<lparr> rc_scanned = 0, rc_reconciled = 0, rc_skippedAlreadyGone = 0, rc_trackedFirstSeen = 0 \<rparr>"

section \<open>The interface\<close>

text \<open>Methods that read the clock take the time as their first argument.\<close>

record 'q queue_manager =
  qm_enqueue :: "int \<Rightarrow> queue_item \<Rightarrow> ('q, bool) js"
  qm_enqueueIfAbsent :: "int \<Rightarrow> queue_item \<Rightarrow> ('q, bool) js"
  qm_claim :: "int \<Rightarrow> string \<Rightarrow> ('q, queue_item option) js"
  qm_release :: "int \<Rightarrow> string \<Rightarrow> queue_item \<Rightarrow> ('q, unit) js"
  qm_requeueForResume :: "int \<Rightarrow> string \<Rightarrow> queue_item \<Rightarrow> ('q, unit) js"
  qm_complete :: "string \<Rightarrow> queue_item \<Rightarrow> ('q, unit) js"
  qm_getQueueDepth :: "('q, nat) js"
  qm_getQueueItems :: "nat \<Rightarrow> nat \<Rightarrow> ('q, (queue_item \<times> rat) list) js"
  qm_getActiveWorkerCount :: "('q, nat) js"
  qm_hasInFlight :: "string \<Rightarrow> ('q, bool) js"
  qm_hasInFlightAge :: "int \<Rightarrow> string \<Rightarrow> ('q, int option) js"
  qm_reapOrphanClaims :: "int \<Rightarrow> ('q, reap_report) js"
  qm_reconcileInFlight :: "int \<Rightarrow> ('q, reconcile_report) js"

section \<open>The contract\<close>

text \<open>
  The place of an item: waiting with a number of failed attempts and a score, or held by
  a worker. Items that are in neither place are not in flight.
\<close>

datatype place = Queued nat rat | Held string nat

type_synonym places = "string \<rightharpoonup> place"

text \<open>The abstract operations.\<close>

definition put_absent :: "string \<Rightarrow> place \<Rightarrow> places \<Rightarrow> places" where
  "put_absent k p P = (if P k = None then P(k \<mapsto> p) else P)"

definition after_release :: "nat \<Rightarrow> rat \<Rightarrow> nat \<Rightarrow> place option" where
  "after_release limit score n = (if limit \<le> Suc n then None else Some (Queued (Suc n) score))"

definition first_in_line :: "places \<Rightarrow> string \<Rightarrow> bool" where
  "first_in_line P k \<longleftrightarrow> (\<exists>n s. P k = Some (Queued n s) \<and> (\<forall>k' n' s'. P k' = Some (Queued n' s') \<longrightarrow> s \<le> s'))"

text \<open>The steps of a queue: how the place of one item changes. \<open>L\<close> is the limit of attempts.\<close>

inductive place_step :: "nat \<Rightarrow> places \<Rightarrow> places \<Rightarrow> bool" for L where
  stay: "place_step L P P"
| accept: "P k = None \<Longrightarrow> place_step L P (P(k \<mapsto> Queued n s))"
| hand_out: "P k = Some (Queued n s) \<Longrightarrow> first_in_line P k \<Longrightarrow> place_step L P (P(k \<mapsto> Held w n))"
| give_back: "P k = Some (Held w n) \<Longrightarrow> Suc n < L \<Longrightarrow> place_step L P (P(k \<mapsto> Queued (Suc n) s))"
| give_up: "P k = Some (Held w n) \<Longrightarrow> L \<le> Suc n \<Longrightarrow> place_step L P (P(k := None))"
| interrupt: "P k = Some (Held w n) \<Longrightarrow> place_step L P (P(k \<mapsto> Queued n s))"
| finish: "P k = Some (Held w n) \<Longrightarrow> place_step L P (P(k := None))"

text \<open>The calls of an implementation, where only the holder of an item completes it.\<close>

inductive queue_step :: "'q queue_manager \<Rightarrow> ('q \<Rightarrow> places) \<Rightarrow> 'q \<Rightarrow> 'q \<Rightarrow> bool" for Q places where
  enqueue: "queue_step Q places q (snd (qm_enqueue Q now item q))"
| enqueueIfAbsent: "queue_step Q places q (snd (qm_enqueueIfAbsent Q now item q))"
| claim: "queue_step Q places q (snd (qm_claim Q now w q))"
| release: "queue_step Q places q (snd (qm_release Q now w item q))"
| requeueForResume: "queue_step Q places q (snd (qm_requeueForResume Q now w item q))"
| complete: "places q (buildItemKey item) = Some (Held w n) \<Longrightarrow> queue_step Q places q (snd (qm_complete Q w item q))"

text \<open>
  What every implementation promises: an item is accepted exactly when its key is not in
  flight; the item handed to a worker is first in line and is then held by that worker;
  only the holder can give an item back, which counts an attempt and drops the item at
  the limit, or have it resumed, which does not count; completion by the holder ends it.
\<close>

locale work_queue =
  fixes Q :: "'q queue_manager"
    and places :: "'q \<Rightarrow> places"
    and ok :: "'q \<Rightarrow> bool"
    and limit :: "'q \<Rightarrow> nat"
  assumes enqueue: "ok q \<Longrightarrow>
          \<exists>n q'. qm_enqueue Q now item q = (Inr (places q (buildItemKey item) = None), q') \<and> ok q' \<and> limit q' = limit q
            \<and> places q' = put_absent (buildItemKey item) (Queued n (getPriorityScore now (qi_queueReason item))) (places q)"
    and enqueueIfAbsent: "ok q \<Longrightarrow>
          \<exists>q'. qm_enqueueIfAbsent Q now item q = (Inr (places q (buildItemKey item) = None), q') \<and> ok q' \<and> limit q' = limit q
            \<and> places q' = put_absent (buildItemKey item) (Queued 0 (getPriorityScore now (qi_queueReason item))) (places q)"
    and claim_none: "ok q \<Longrightarrow> (\<And>k n s. places q k \<noteq> Some (Queued n s)) \<Longrightarrow>
          \<exists>q'. qm_claim Q now w q = (Inr None, q') \<and> ok q' \<and> limit q' = limit q \<and> places q' = places q"
    and claim_some: "ok q \<Longrightarrow> places q k = Some (Queued n s) \<Longrightarrow>
          \<exists>item n s q'. qm_claim Q now w q = (Inr (Some item), q') \<and> ok q' \<and> limit q' = limit q
            \<and> qi_userId item = None \<and> places q (buildItemKey item) = Some (Queued n s)
            \<and> first_in_line (places q) (buildItemKey item)
            \<and> places q' = (places q)(buildItemKey item \<mapsto> Held w n)"
    and release_held: "ok q \<Longrightarrow> places q (buildItemKey item) = Some (Held w n) \<Longrightarrow>
          \<exists>q'. qm_release Q now w item q = (Inr (), q') \<and> ok q' \<and> limit q' = limit q
            \<and> places q' = (places q)(buildItemKey item :=
                 after_release (limit q) (getPriorityScore now (Some Reason_retry)) n)"
    and release_other: "ok q \<Longrightarrow> (\<And>n. places q (buildItemKey item) \<noteq> Some (Held w n)) \<Longrightarrow>
          \<exists>q'. qm_release Q now w item q = (Inr (), q') \<and> ok q' \<and> limit q' = limit q \<and> places q' = places q"
    and resume_held: "ok q \<Longrightarrow> places q (buildItemKey item) = Some (Held w n) \<Longrightarrow>
          \<exists>q'. qm_requeueForResume Q now w item q = (Inr (), q') \<and> ok q' \<and> limit q' = limit q
            \<and> places q' = (places q)(buildItemKey item \<mapsto> Queued n (getPriorityScore now (Some Reason_resume)))"
    and resume_other: "ok q \<Longrightarrow> (\<And>n. places q (buildItemKey item) \<noteq> Some (Held w n)) \<Longrightarrow>
          \<exists>q'. qm_requeueForResume Q now w item q = (Inr (), q') \<and> ok q' \<and> limit q' = limit q \<and> places q' = places q"
    and complete_held: "ok q \<Longrightarrow> places q (buildItemKey item) = Some (Held w n) \<Longrightarrow>
          \<exists>q'. qm_complete Q w item q = (Inr (), q') \<and> ok q' \<and> limit q' = limit q
            \<and> places q' = (places q)(buildItemKey item := None)"
begin

lemma step_simulated:
  assumes "queue_step Q places q q'" and "ok q"
  shows "ok q' \<and> limit q' = limit q \<and> place_step (limit q) (places q) (places q')"
  using assms
proof (cases rule: queue_step.cases)
  case step: (enqueue now item)
  with step enqueue [OF assms(2), of now item] show ?thesis
    by (auto simp: put_absent_def intro: place_step.intros)
next
  case step: (enqueueIfAbsent now item)
  with step enqueueIfAbsent [OF assms(2), of now item] show ?thesis
    by (auto simp: put_absent_def intro: place_step.intros)
next
  case step: (claim now w)
  show ?thesis
  proof (cases "\<exists>k n s. places q k = Some (Queued n s)")
    case True
    with step claim_some [OF assms(2), of _ _ _ now w] show ?thesis
      by (fastforce intro: place_step.hand_out)
  next
    case False
    with step claim_none [OF assms(2), of now w] show ?thesis
      by (auto intro: place_step.stay)
  qed
next
  case step: (release now w item)
  show ?thesis
  proof (cases "\<exists>n. places q (buildItemKey item) = Some (Held w n)")
    case True
    then obtain n where n: "places q (buildItemKey item) = Some (Held w n)" by blast
    have "place_step (limit q) (places q) ((places q)(buildItemKey item := after_release (limit q) sc n))" for sc
      using place_step.give_back [of "places q", OF n] place_step.give_up [of "places q", OF n]
      by (auto simp: after_release_def)
    with step n release_held [OF assms(2) n, of now] show ?thesis by auto
  next
    case False
    with step release_other [OF assms(2), of item w now] show ?thesis
      by (auto intro: place_step.stay)
  qed
next
  case step: (requeueForResume now w item)
  show ?thesis
  proof (cases "\<exists>n. places q (buildItemKey item) = Some (Held w n)")
    case True
    then obtain n where n: "places q (buildItemKey item) = Some (Held w n)" by blast
    with step resume_held [OF assms(2) n, of now] show ?thesis
      by (auto intro: place_step.interrupt)
  next
    case False
    with step resume_other [OF assms(2), of item w now] show ?thesis
      by (auto intro: place_step.stay)
  qed
next
  case step: (complete item w n)
  with step complete_held [OF assms(2), of item w n] show ?thesis
    by (auto intro: place_step.finish)
qed

lemma run_simulated:
  assumes "(queue_step Q places)\<^sup>*\<^sup>* q q'" and "ok q"
  shows "ok q' \<and> limit q' = limit q \<and> (place_step (limit q))\<^sup>*\<^sup>* (places q) (places q')"
  using assms
proof (induction rule: rtranclp_induct)
  case base
  then show ?case by simp
next
  case (step y z)
  with step_simulated [of y z] show ?case by (metis rtranclp.rtrancl_into_rtrancl)
qed

end

text \<open>A queue that also tells the age of an item, without moving anything, whether it can find it or not.\<close>

locale observed_queue = work_queue +
  assumes age_quiet: "ok q \<Longrightarrow>
          \<exists>r q'. qm_hasInFlightAge Q now k q = (Inr r, q') \<and> ok q' \<and> limit q' = limit q \<and> places q' = places q"
begin

text \<open>Offering an item and then asking for its age, as the monitors do when it was not accepted.\<close>

lemma offered:
  assumes "ok q"
  shows "\<exists>q'. qm_enqueueIfAbsent Q now item q = (Inr (places q (buildItemKey item) = None), q') \<and> ok q' \<and> limit q' = limit q
      \<and> places q' = put_absent (buildItemKey item) (Queued 0 (getPriorityScore now (qi_queueReason item))) (places q)
      \<and> (\<exists>r q''. qm_hasInFlightAge Q now' k q' = (Inr r, q'') \<and> ok q'' \<and> limit q'' = limit q \<and> places q'' = places q')"
  using enqueueIfAbsent [OF assms, of now item] age_quiet by metis

end

end
