(* ===== verification/InMemoryQueue.thy ===== *)
theory InMemoryQueue
  imports WorkQueue "HOL-Library.Multiset"
begin

text \<open>
  The in-memory queue adapter (\<open>packages/orchestrator/src/services/in-memory-queue-adapter.ts\<close>):
  a sorted array of pending items with insertion by binary search, claimed items in a
  map of maps, and an index of the keys in flight. It implements the contract
  \<open>work_queue\<close>, and the index always is the set of the pending and the claimed keys.
\<close>

section \<open>State\<close>

record memory_queue =
  im_maxRetries :: nat
  im_maxRunDurationMs :: int
  im_pending :: "serialized_item list"
  im_claimed :: "(string, (string, serialized_item) jmap) jmap"
  im_deadLetter :: "serialized_item list"
  im_attemptCounts :: "(string, nat) jmap"
  im_inFlightSet :: "string list"
  im_dropLogState :: drop_state
  im_log :: "log_line list"

definition new_memory_queue :: "nat option \<Rightarrow> int option \<Rightarrow> memory_queue" where
  "new_memory_queue maxRetries maxRunDurationMs =
     \<lparr> im_maxRetries = default_to 3 maxRetries, im_maxRunDurationMs = default_to 1800000 maxRunDurationMs,
       im_pending = [], im_claimed = [], im_deadLetter = [], im_attemptCounts = [], im_inFlightSet = [],
       im_dropLogState = [], im_log = [] \<rparr>"

section \<open>Sorted insertion\<close>

text \<open>Whether a queued item stays before a new one: smaller score, or the same and not later.\<close>

definition stays_before :: "serialized_item \<Rightarrow> serialized_item \<Rightarrow> bool" where
  "stays_before m item \<longleftrightarrow>
     qi_priority m < qi_priority item \<or> (qi_priority m = qi_priority item \<and> qi_enqueuedAt m \<le> qi_enqueuedAt item)"

text \<open>
  The loop of \<open>insertSorted\<close>. The unsigned shift by one is division by 2, for arrays of
  less than \<open>2 ^ 31\<close> entries.
\<close>

function insert_position :: "serialized_item list \<Rightarrow> serialized_item \<Rightarrow> nat \<Rightarrow> nat \<Rightarrow> nat" where
  "insert_position pending item lo hi =
     (if lo < hi then
        (let mid = (lo + hi) div 2
         in if stays_before (pending ! mid) item then insert_position pending item (mid + 1) hi
            else insert_position pending item lo mid)
      else lo)"
  by pat_completeness auto

termination
  by (relation "measure (\<lambda>(pending, item, lo, hi). hi - lo)") (auto simp: Let_def)

declare insert_position.simps [simp del]

definition insertSorted :: "serialized_item \<Rightarrow> memory_queue \<Rightarrow> memory_queue" where
  "insertSorted item s =
     (let lo = insert_position (im_pending s) item 0 (length (im_pending s))
      in s\<lparr> im_pending := take lo (im_pending s) @ item # drop lo (im_pending s) \<rparr>)"

section \<open>Operations\<close>

primrec claimed_entry :: "string \<Rightarrow> (string, (string, serialized_item) jmap) jmap \<Rightarrow> serialized_item option" where
  "claimed_entry itemKey [] = None"
| "claimed_entry itemKey (wm # rest) =
     (case jget (snd wm) itemKey of Some e \<Rightarrow> Some e | None \<Rightarrow> claimed_entry itemKey rest)"

definition im_hasInFlight :: "string \<Rightarrow> memory_queue \<Rightarrow> bool" where
  "im_hasInFlight itemKey s \<longleftrightarrow> itemKey \<in> set (im_inFlightSet s)"

definition im_hasInFlightAge :: "int \<Rightarrow> string \<Rightarrow> memory_queue \<Rightarrow> int option" where
  "im_hasInFlightAge now itemKey s =
     (case claimed_entry itemKey (im_claimed s) of
        Some e \<Rightarrow> map_option (\<lambda>ms. now - ms) (Date_parse (qi_enqueuedAt e))
      | None \<Rightarrow>
          (case find (\<lambda>p. si_itemKey p = itemKey) (im_pending s) of
             Some p \<Rightarrow> map_option (\<lambda>ms. now - ms) (Date_parse (qi_enqueuedAt p))
           | None \<Rightarrow> None))"

text \<open>The branch of \<open>enqueue\<close> and \<open>enqueueIfAbsent\<close> for an item that is in flight.\<close>

definition im_drop :: "int \<Rightarrow> string \<Rightarrow> memory_queue \<Rightarrow> memory_queue" where
  "im_drop now itemKey s =
     (case classifyDropSeverity itemKey (im_hasInFlightAge now itemKey s) (im_maxRunDurationMs s) (im_dropLogState s) of
        (decision, st) \<Rightarrow> s\<lparr> im_dropLogState := st, im_log := im_log s @ [emitDropLog decision itemKey] \<rparr>)"

definition im_enqueue :: "int \<Rightarrow> queue_item \<Rightarrow> (memory_queue, bool) js" where
  "im_enqueue now item s =
     (let itemKey = buildItemKey item
      in if im_hasInFlight itemKey s then (Inr False, im_drop now itemKey s)
         else
           (let serialized = serialize_item item (qi_queueReason item) (getPriorityScore now (qi_queueReason item))
                  (default_to 0 (jget (im_attemptCounts s) itemKey)) itemKey;
                s1 = insertSorted serialized s
            in (Inr True, s1\<lparr> im_inFlightSet := sadd itemKey (im_inFlightSet s1) \<rparr>)))"

definition im_enqueueIfAbsent :: "int \<Rightarrow> queue_item \<Rightarrow> (memory_queue, bool) js" where
  "im_enqueueIfAbsent now item s =
     (let itemKey = buildItemKey item
      in if im_hasInFlight itemKey s then (Inr False, im_drop now itemKey s)
         else
           (let serialized = serialize_item item (qi_queueReason item) (getPriorityScore now (qi_queueReason item))
                  0 itemKey
            in (Inr True, insertSorted serialized (s\<lparr> im_inFlightSet := sadd itemKey (im_inFlightSet s) \<rparr>))))"

definition im_claim :: "string \<Rightarrow> (memory_queue, queue_item option) js" where
  "im_claim workerId s =
     (case im_pending s of
        [] \<Rightarrow> (Inr None, s)
      | serialized # rest \<Rightarrow>
          (let workerClaimed = default_to [] (jget (im_claimed s) workerId)
           in (Inr (Some (claimed_view serialized)),
               s\<lparr> im_pending := rest,
                  im_claimed := jset workerId (jset (si_itemKey serialized) serialized workerClaimed) (im_claimed s) \<rparr>)))"

text \<open>\<open>workerClaimed.delete(itemKey)\<close>, and the worker's map goes when it is empty.\<close>

definition drop_claim :: "string \<Rightarrow> string \<Rightarrow> memory_queue \<Rightarrow> memory_queue" where
  "drop_claim workerId itemKey s =
     (case jget (im_claimed s) workerId of
        None \<Rightarrow> s
      | Some workerClaimed \<Rightarrow>
          (let left = jdel itemKey workerClaimed
           in s\<lparr> im_claimed := (if left = [] then jdel workerId (im_claimed s) else jset workerId left (im_claimed s)) \<rparr>))"

definition claim_of :: "string \<Rightarrow> string \<Rightarrow> memory_queue \<Rightarrow> serialized_item option" where
  "claim_of workerId itemKey s =
     (case jget (im_claimed s) workerId of None \<Rightarrow> None | Some workerClaimed \<Rightarrow> jget workerClaimed itemKey)"

definition im_release :: "int \<Rightarrow> string \<Rightarrow> queue_item \<Rightarrow> (memory_queue, unit) js" where
  "im_release now workerId item s =
     (let itemKey = buildItemKey item
      in case claim_of workerId itemKey s of
           None \<Rightarrow> (Inr (), s)
         | Some claimed \<Rightarrow>
             (let attemptCount = si_attemptCount claimed + 1;
                  s1 = drop_claim workerId itemKey s;
                  s2 = s1\<lparr> im_attemptCounts := jset itemKey attemptCount (im_attemptCounts s1) \<rparr>
              in if attemptCount \<ge> im_maxRetries s2
                 then (Inr (), s2\<lparr> im_deadLetter := im_deadLetter s2 @
                                     [serialize_item item (qi_queueReason item) (qi_priority item) attemptCount itemKey],
                                   im_inFlightSet := sdel itemKey (im_inFlightSet s2),
                                   im_dropLogState := jdel itemKey (im_dropLogState s2) \<rparr>)
                 else (Inr (), insertSorted (serialize_item item (Some Reason_retry)
                                 (getPriorityScore now (Some Reason_retry)) attemptCount itemKey) s2)))"

definition im_requeueForResume :: "int \<Rightarrow> string \<Rightarrow> queue_item \<Rightarrow> (memory_queue, unit) js" where
  "im_requeueForResume now workerId item s =
     (let itemKey = buildItemKey item
      in case claim_of workerId itemKey s of
           None \<Rightarrow> (Inr (), s)
         | Some claimed \<Rightarrow>
             (Inr (), insertSorted (serialize_item item (Some Reason_resume) (getPriorityScore now (Some Reason_resume))
                        (si_attemptCount claimed) itemKey) (drop_claim workerId itemKey s)))"

definition im_complete :: "string \<Rightarrow> queue_item \<Rightarrow> (memory_queue, unit) js" where
  "im_complete workerId item s =
     (let itemKey = buildItemKey item; s1 = drop_claim workerId itemKey s
      in (Inr (), s1\<lparr> im_attemptCounts := jdel itemKey (im_attemptCounts s1),
                     im_inFlightSet := sdel itemKey (im_inFlightSet s1),
                     im_dropLogState := jdel itemKey (im_dropLogState s1) \<rparr>))"

definition im_getQueueDepth :: "memory_queue \<Rightarrow> nat" where
  "im_getQueueDepth s = length (im_pending s)"

definition im_getQueueItems :: "nat \<Rightarrow> nat \<Rightarrow> memory_queue \<Rightarrow> (queue_item \<times> rat) list" where
  "im_getQueueItems offset limit s =
     map (\<lambda>e. (claimed_view e, qi_priority e)) (take limit (drop offset (im_pending s)))"

definition im_getActiveWorkerCount :: "memory_queue \<Rightarrow> nat" where
  "im_getActiveWorkerCount s = sum_list (map (\<lambda>wm. length (snd wm)) (im_claimed s))"

definition im_reapOrphanClaims :: "memory_queue \<Rightarrow> reap_report" where
  "im_reapOrphanClaims s = no_reap"

definition im_reconcileInFlight :: "memory_queue \<Rightarrow> reconcile_report" where
  "im_reconcileInFlight s = no_reconcile\<lparr> rc_scanned := length (im_inFlightSet s) \<rparr>"

definition memory_queue_ops :: "memory_queue queue_manager" where
  "memory_queue_ops =
     \<lparr> qm_enqueue = im_enqueue, qm_enqueueIfAbsent = im_enqueueIfAbsent, qm_claim = (\<lambda>now. im_claim),
       qm_release = im_release, qm_requeueForResume = im_requeueForResume, qm_complete = im_complete,
       qm_getQueueDepth = cget im_getQueueDepth, qm_getQueueItems = (\<lambda>offset n. cget (im_getQueueItems offset n)),
       qm_getActiveWorkerCount = cget im_getActiveWorkerCount, qm_hasInFlight = (\<lambda>k. cget (im_hasInFlight k)),
       qm_hasInFlightAge = (\<lambda>now k. cget (im_hasInFlightAge now k)),
       qm_reapOrphanClaims = (\<lambda>now. cget im_reapOrphanClaims),
       qm_reconcileInFlight = (\<lambda>now. cget im_reconcileInFlight) \<rparr>"

section \<open>Binary search is stable insertion\<close>

lemma stays_before_trans: "stays_before a b \<Longrightarrow> stays_before b c \<Longrightarrow> stays_before a c"
  unfolding stays_before_def by (elim disjE conjE) (auto intro: order.strict_trans order.trans)

lemma stays_before_total: "stays_before a b \<or> stays_before b a"
  unfolding stays_before_def
  using linorder_less_linear [of "qi_priority a" "qi_priority b"] linear [of "qi_enqueuedAt a" "qi_enqueuedAt b"] by auto

lemma insert_position_between:
  "lo \<le> hi \<Longrightarrow> lo \<le> insert_position xs x lo hi \<and> insert_position xs x lo hi \<le> hi"
proof (induction xs x lo hi rule: insert_position.induct)
  case (1 xs x lo hi)
  show ?case
  proof (cases "lo < hi")
    case True
    let ?mid = "(lo + hi) div 2"
    from True have m: "lo \<le> ?mid" "?mid < hi" by simp_all
    show ?thesis
      using 1(1) [OF True refl] 1(2) [OF True refl] m True
      by (subst (1 2) insert_position.simps) (auto simp: Let_def)
  next
    case False
    with 1 show ?thesis by (simp add: insert_position.simps)
  qed
qed

text \<open>The loop ends at the boundary between the items that stay before and the others.\<close>

lemma insert_position_boundary:
  assumes "\<And>i j. i < j \<Longrightarrow> j < length xs \<Longrightarrow> stays_before (xs ! j) x \<Longrightarrow> stays_before (xs ! i) x"
  shows "lo \<le> hi \<Longrightarrow> hi \<le> length xs \<Longrightarrow> (\<forall>i<lo. stays_before (xs ! i) x)
     \<Longrightarrow> (\<forall>i. hi \<le> i \<and> i < length xs \<longrightarrow> \<not> stays_before (xs ! i) x)
     \<Longrightarrow> (\<forall>i<insert_position xs x lo hi. stays_before (xs ! i) x)
       \<and> (\<forall>i. insert_position xs x lo hi \<le> i \<and> i < length xs \<longrightarrow> \<not> stays_before (xs ! i) x)"
  using assms
proof (induction xs x lo hi rule: insert_position.induct)
  case (1 xs x lo hi)
  show ?case
  proof (cases "lo < hi")
    case True
    let ?mid = "(lo + hi) div 2"
    from True "1.prems"(2) have m: "lo \<le> ?mid" "?mid < hi" "?mid < length xs" by simp_all
    show ?thesis
    proof (cases "stays_before (xs ! ?mid) x")
      case yes: True
      then have "\<forall>i<?mid + 1. stays_before (xs ! i) x"
        using "1.prems"(5) [of _ ?mid] m(3) by (metis Suc_eq_plus1 less_Suc_eq)
      with "1.IH"(1) [OF True refl yes] "1.prems" m yes True show ?thesis
        by (subst (1 2) insert_position.simps) (auto simp: Let_def)
    next
      case no: False
      then have "\<forall>i. ?mid \<le> i \<and> i < length xs \<longrightarrow> \<not> stays_before (xs ! i) x"
        using "1.prems"(5) [of ?mid] by (metis le_eq_less_or_eq)
      with "1.IH"(2) [OF True refl no] "1.prems" m no True show ?thesis
        by (subst (1 2) insert_position.simps) (auto simp: Let_def)
    qed
  next
    case False
    with "1.prems" show ?thesis by (simp add: insert_position.simps)
  qed
qed

lemma boundary_takeWhile:
  assumes "r \<le> length xs" and "\<forall>i<r. P (xs ! i)" and "\<forall>i. r \<le> i \<and> i < length xs \<longrightarrow> \<not> P (xs ! i)"
  shows "takeWhile P xs = take r xs" and "dropWhile P xs = drop r xs"
proof -
  have all: "\<And>x. x \<in> set (take r xs) \<Longrightarrow> P x"
    using assms(1,2) by (auto simp: in_set_conv_nth)
  have "drop r xs = [] \<or> \<not> P (hd (drop r xs))"
    using assms(3) by (cases "r < length xs") (auto simp: hd_drop_conv_nth)
  then have tl: "takeWhile P (drop r xs) = []" "dropWhile P (drop r xs) = drop r xs"
    by (cases "drop r xs"; auto)+
  show "takeWhile P xs = take r xs"
    using takeWhile_append2 [of "take r xs" P "drop r xs"] all tl(1) by simp
  show "dropWhile P xs = drop r xs"
    using dropWhile_append2 [of "take r xs" P "drop r xs"] all tl(2) by simp
qed

definition sorted_items :: "serialized_item list \<Rightarrow> bool" where
  "sorted_items = sorted_wrt stays_before"

lemma insertSorted_is_stable_insertion:
  assumes "sorted_items (im_pending s)"
  shows "im_pending (insertSorted x s)
     = takeWhile (\<lambda>m. stays_before m x) (im_pending s) @ x # dropWhile (\<lambda>m. stays_before m x) (im_pending s)"
proof -
  let ?xs = "im_pending s" and ?r = "insert_position (im_pending s) x 0 (length (im_pending s))"
  have mono: "stays_before (?xs ! i) x" if "i < j" "j < length ?xs" "stays_before (?xs ! j) x" for i j
  proof -
    have "stays_before (?xs ! i) (?xs ! j)"
      using assms that(1,2) by (simp add: sorted_items_def sorted_wrt_nth_less)
    then show ?thesis using that(3) by (rule stays_before_trans)
  qed
  have r: "?r \<le> length ?xs" using insert_position_between [of 0 "length ?xs" ?xs x] by simp
  have "(\<forall>i<?r. stays_before (?xs ! i) x) \<and> (\<forall>i. ?r \<le> i \<and> i < length ?xs \<longrightarrow> \<not> stays_before (?xs ! i) x)"
    by (rule insert_position_boundary [OF mono]) auto
  then have "takeWhile (\<lambda>m. stays_before m x) ?xs = take ?r ?xs" "dropWhile (\<lambda>m. stays_before m x) ?xs = drop ?r ?xs"
    using boundary_takeWhile [OF r, of "\<lambda>m. stays_before m x"] by blast+
  then show ?thesis by (simp add: insertSorted_def Let_def)
qed

lemma insertSorted_sorted:
  assumes "sorted_items (im_pending s)"
  shows "sorted_items (im_pending (insertSorted x s))"
proof -
  let ?xs = "im_pending s"
  have "stays_before x m" if "m \<in> set (dropWhile (\<lambda>m. stays_before m x) ?xs)" for m
  proof -
    from that obtain y ys where d: "dropWhile (\<lambda>m. stays_before m x) ?xs = y # ys" by (cases "dropWhile (\<lambda>m. stays_before m x) ?xs") auto
    then have "\<not> stays_before y x" using hd_dropWhile [of "\<lambda>m. stays_before m x" ?xs] by auto
    then have "stays_before x y" using stays_before_total by blast
    moreover have "y = m \<or> stays_before y m"
      using assms that d unfolding sorted_items_def
      by (metis sorted_wrt_append sorted_wrt.simps(2) set_ConsD takeWhile_dropWhile_id)
    ultimately show ?thesis using stays_before_trans by blast
  qed
  then show ?thesis
    using assms unfolding insertSorted_is_stable_insertion [OF assms]
    by (auto simp: sorted_items_def sorted_wrt_append dest: set_takeWhileD)
      (metis sorted_wrt_append takeWhile_dropWhile_id)+
qed

section \<open>The places of the items\<close>

definition waiting :: "serialized_item list \<Rightarrow> (string \<times> place) list" where
  "waiting = map (\<lambda>i. (si_itemKey i, Queued (si_attemptCount i) (qi_priority i)))"

definition hold :: "string \<Rightarrow> (string, serialized_item) jmap \<Rightarrow> (string \<times> place) list" where
  "hold w = map (\<lambda>(k, i). (k, Held w (si_attemptCount i)))"

definition held :: "(string, (string, serialized_item) jmap) jmap \<Rightarrow> (string \<times> place) list" where
  "held c = concat (map (\<lambda>(w, m). hold w m) c)"

definition im_entries :: "memory_queue \<Rightarrow> (string \<times> place) list" where
  "im_entries s = waiting (im_pending s) @ held (im_claimed s)"

definition im_places :: "memory_queue \<Rightarrow> places" where
  "im_places s = map_of (im_entries s)"

text \<open>
  The invariant: an item is in one place, under its own key; the index holds exactly the
  keys of the pending and the claimed items; the pending items are sorted.
\<close>

definition im_ok :: "memory_queue \<Rightarrow> bool" where
  "im_ok s \<longleftrightarrow>
     distinct (map fst (im_entries s)) \<and> set (im_inFlightSet s) = fst ` set (im_entries s) \<and> distinct (im_inFlightSet s) \<and>
     jok (im_claimed s) \<and> (\<forall>w m. (w, m) \<in> set (im_claimed s) \<longrightarrow> m \<noteq> [] \<and> jok m
        \<and> (\<forall>k i. (k, i) \<in> set m \<longrightarrow> si_itemKey i = k \<and> buildItemKey i = k)) \<and>
     (\<forall>i\<in>set (im_pending s). si_itemKey i = buildItemKey i) \<and> sorted_items (im_pending s)"

lemma map_of_permuted:
  assumes "mset xs = mset ys" and "distinct (map fst ys)"
  shows "distinct (map fst xs)" and "map_of xs = map_of ys" and "set xs = set ys"
proof -
  have "mset (map fst xs) = mset (map fst ys)" using assms(1) by (simp only: mset_map)
  then show "distinct (map fst xs)" using assms(2) mset_eq_imp_distinct_iff by blast
  then show "map_of xs = map_of ys"
    using assms map_of_inject_set mset_eq_setD by metis
  show "set xs = set ys" using assms(1) by (rule mset_eq_setD)
qed

lemma waiting_simps [simp]:
  "waiting [] = []" "waiting (i # xs) = (si_itemKey i, Queued (si_attemptCount i) (qi_priority i)) # waiting xs"
  "waiting (xs @ ys) = waiting xs @ waiting ys"
  by (simp_all add: waiting_def)

lemma hold_simps [simp]:
  "hold w [] = []" "hold w ((k, i) # m) = (k, Held w (si_attemptCount i)) # hold w m"
  "hold w (m @ m') = hold w m @ hold w m'"
  by (simp_all add: hold_def)

lemma held_simps [simp]: "held [] = []" "held ((w, m) # c) = hold w m @ held c"
  by (simp_all add: held_def)

lemma held_jset:
  "jok c \<Longrightarrow> mset (held (jset w m c)) + mset (hold w (default_to [] (jget c w))) = mset (held c) + mset (hold w m)"
proof (induction c)
  case Nil
  then show ?case by (simp add: default_to_def)
next
  case (Cons wm c)
  obtain w' m' where wm: "wm = (w', m')" by fastforce
  show ?case
  proof (cases "w' = w")
    case True
    with Cons.prems wm show ?thesis by (simp add: default_to_def ac_simps)
  next
    case False
    with Cons wm show ?thesis by (simp add: ac_simps)
  qed
qed

lemma held_jdel:
  "jok c \<Longrightarrow> jget c w = Some m \<Longrightarrow> mset (held c) = mset (held (jdel w c)) + mset (hold w m)"
proof (induction c)
  case Nil
  then show ?case by simp
next
  case (Cons wm c)
  obtain w' m' where wm: "wm = (w', m')" by fastforce
  show ?case
  proof (cases "w' = w")
    case True
    with Cons.prems wm have "w \<notin> set (map fst c)" "m' = m" by auto
    then have "jdel w c = c" by (simp add: delete_id)
    with True wm \<open>m' = m\<close> show ?thesis by (simp add: ac_simps)
  next
    case False
    with Cons wm show ?thesis by simp
  qed
qed

lemma mset_jdel: "jok m \<Longrightarrow> jget m k = Some i \<Longrightarrow> mset m = add_mset (k, i) (mset (jdel k m))"
proof (induction m)
  case Nil
  then show ?case by simp
next
  case (Cons e m)
  show ?case
  proof (cases "fst e = k")
    case True
    with Cons.prems have "k \<notin> set (map fst m)" "e = (k, i)" by (cases e; auto)+
    then show ?thesis by (simp add: delete_id)
  next
    case False
    with Cons show ?thesis by (cases e) auto
  qed
qed

lemma mset_hold: "mset (hold w m) = image_mset (\<lambda>(k, i). (k, Held w (si_attemptCount i))) (mset m)"
  by (simp add: hold_def)

lemma entries_insertSorted:
  "mset (im_entries (insertSorted x s))
     = add_mset (si_itemKey x, Queued (si_attemptCount x) (qi_priority x)) (mset (im_entries s))"
proof -
  have "mset (waiting (take n xs)) + mset (waiting (drop n xs)) = mset (waiting xs)" for n xs
    by (metis append_take_drop_id mset_append waiting_simps(3))
  then show ?thesis by (simp add: im_entries_def insertSorted_def Let_def)
qed

lemma entries_drop_claim:
  assumes "im_ok s" and c: "claim_of w k s = Some i"
  shows "mset (im_entries s) = add_mset (k, Held w (si_attemptCount i)) (mset (im_entries (drop_claim w k s)))"
proof -
  from c obtain m where m: "jget (im_claimed s) w = Some m" "jget m k = Some i"
    by (auto simp: claim_of_def split: option.splits)
  have jk: "jok (im_claimed s)" "jok m" using assms(1) jget_in_set [OF m(1)] unfolding im_ok_def by blast+
  have one: "mset (hold w m) = add_mset (k, Held w (si_attemptCount i)) (mset (hold w (jdel k m)))"
    by (simp add: mset_hold mset_jdel [OF jk(2) m(2)])
  show ?thesis
  proof (cases "jdel k m = []")
    case True
    with held_jdel [OF jk(1) m(1)] one m show ?thesis
      by (simp add: im_entries_def drop_claim_def Let_def)
  next
    case False
    from held_jset [OF jk(1), of w "jdel k m"] one m(1)
    have "mset (held (jset w (jdel k m) (im_claimed s))) + {#(k, Held w (si_attemptCount i))#} = mset (held (im_claimed s))"
      by (simp add: default_to_def)
    with False m show ?thesis
      by (simp add: im_entries_def drop_claim_def Let_def)
  qed
qed

text \<open>The state apart from the places.\<close>

lemma insertSorted_other [simp]:
  "im_claimed (insertSorted x s) = im_claimed s" "im_inFlightSet (insertSorted x s) = im_inFlightSet s"
  "im_maxRetries (insertSorted x s) = im_maxRetries s" "im_attemptCounts (insertSorted x s) = im_attemptCounts s"
  "set (im_pending (insertSorted x s)) = insert x (set (im_pending s))"
proof -
  have "insert x (set (take n xs) \<union> set (drop n xs)) = insert x (set xs)" for n and xs :: "serialized_item list"
    by (metis append_take_drop_id set_append)
  then show "set (im_pending (insertSorted x s)) = insert x (set (im_pending s))"
    by (simp add: insertSorted_def Let_def)
qed (simp_all add: insertSorted_def Let_def)

lemma drop_claim_other [simp]:
  "im_pending (drop_claim w k s) = im_pending s" "im_inFlightSet (drop_claim w k s) = im_inFlightSet s"
  "im_maxRetries (drop_claim w k s) = im_maxRetries s" "im_attemptCounts (drop_claim w k s) = im_attemptCounts s"
  by (simp_all add: drop_claim_def Let_def split: option.split)

definition claims_ok :: "(string, (string, serialized_item) jmap) jmap \<Rightarrow> bool" where
  "claims_ok c \<longleftrightarrow> jok c \<and> (\<forall>w m. (w, m) \<in> set c \<longrightarrow> m \<noteq> [] \<and> jok m
     \<and> (\<forall>k i. (k, i) \<in> set m \<longrightarrow> si_itemKey i = k \<and> buildItemKey i = k))"

lemma im_ok_iff:
  "im_ok s \<longleftrightarrow> distinct (map fst (im_entries s)) \<and> set (im_inFlightSet s) = fst ` set (im_entries s) \<and> distinct (im_inFlightSet s)
     \<and> claims_ok (im_claimed s) \<and> (\<forall>i\<in>set (im_pending s). si_itemKey i = buildItemKey i) \<and> sorted_items (im_pending s)"
  by (simp add: im_ok_def claims_ok_def)

lemma claims_ok_drop: "claims_ok (im_claimed s) \<Longrightarrow> claims_ok (im_claimed (drop_claim w k s))"
  by (auto simp: drop_claim_def claims_ok_def Let_def jset_other_entries jdel_entries dest: jget_in_set split: option.split)

lemma in_flight_places: "im_ok s \<Longrightarrow> k \<in> set (im_inFlightSet s) \<longleftrightarrow> im_places s k \<noteq> None"
  by (auto simp: im_ok_iff im_places_def map_of_eq_None_iff)

text \<open>Inserting an item whose key is in no place.\<close>

lemma insertSorted_places:
  assumes ok: "distinct (map fst (im_entries s))" and k: "map_of (im_entries s) (si_itemKey x) = None"
  shows "im_places (insertSorted x s) = (im_places s)(si_itemKey x \<mapsto> Queued (si_attemptCount x) (qi_priority x))"
    and "distinct (map fst (im_entries (insertSorted x s)))"
    and "fst ` set (im_entries (insertSorted x s)) = insert (si_itemKey x) (fst ` set (im_entries s))"
proof -
  let ?e = "(si_itemKey x, Queued (si_attemptCount x) (qi_priority x))"
  have m: "mset (im_entries (insertSorted x s)) = mset (?e # im_entries s)" by (simp add: entries_insertSorted)
  have d: "distinct (map fst (?e # im_entries s))" using ok k by (simp add: map_of_eq_None_iff)
  note p = map_of_permuted [OF m d]
  from p(2) show "im_places (insertSorted x s) = (im_places s)(si_itemKey x \<mapsto> Queued (si_attemptCount x) (qi_priority x))"
    by (simp add: im_places_def)
  from p(1) show "distinct (map fst (im_entries (insertSorted x s)))" .
  from p(3) show "fst ` set (im_entries (insertSorted x s)) = insert (si_itemKey x) (fst ` set (im_entries s))" by simp
qed

lemma drop_claim_places:
  assumes ok: "im_ok s" and c: "claim_of w k s = Some i"
  shows "im_places s k = Some (Held w (si_attemptCount i))"
    and "im_places (drop_claim w k s) = (im_places s)(k := None)"
    and "distinct (map fst (im_entries (drop_claim w k s)))"
    and "fst ` set (im_entries (drop_claim w k s)) = fst ` set (im_entries s) - {k}"
proof -
  let ?e = "(k, Held w (si_attemptCount i))" and ?s = "drop_claim w k s"
  have m: "mset (?e # im_entries ?s) = mset (im_entries s)" using entries_drop_claim [OF ok c] by simp
  have d: "distinct (map fst (im_entries s))" using ok by (simp add: im_ok_iff)
  note p = map_of_permuted [OF m d]
  from p(1) have k: "k \<notin> fst ` set (im_entries ?s)" and "distinct (map fst (im_entries ?s))" by simp_all
  then show "distinct (map fst (im_entries ?s))" by simp
  from p(2) have pl: "im_places s = (im_places ?s)(k \<mapsto> Held w (si_attemptCount i))"
    by (simp add: im_places_def)
  then show "im_places s k = Some (Held w (si_attemptCount i))" by simp
  from k have "im_places ?s k = None" by (simp add: im_places_def map_of_eq_None_iff)
  with pl show "im_places ?s = (im_places s)(k := None)" by (simp add: fun_upd_idem)
  have "fst ` set (im_entries s) = insert k (fst ` set (im_entries ?s))" unfolding p(3) [symmetric] by simp
  with k show "fst ` set (im_entries ?s) = fst ` set (im_entries s) - {k}" by auto
qed

lemma claim_of_places:
  assumes ok: "im_ok s" and "im_places s k = Some (Held w n)"
  shows "\<exists>i. claim_of w k s = Some i \<and> si_attemptCount i = n"
proof -
  have "(k, Held w n) \<in> set (held (im_claimed s))"
    using assms(2) by (auto simp: im_places_def im_entries_def waiting_def dest!: map_of_SomeD)
  then obtain m i where m: "(w, m) \<in> set (im_claimed s)" "(k, i) \<in> set m" "si_attemptCount i = n"
    by (auto simp: held_def hold_def)
  with ok have "jget (im_claimed s) w = Some m" "jget m k = Some i"
    by (auto simp: im_ok_iff claims_ok_def jok_get_iff)
  with m(3) show ?thesis by (simp add: claim_of_def)
qed

lemma claim_of_iff:
  assumes "im_ok s"
  shows "claim_of w k s = None \<longleftrightarrow> (\<forall>n. im_places s k \<noteq> Some (Held w n))"
  using claim_of_places [OF assms] drop_claim_places(1) [OF assms] by (metis not_None_eq)

section \<open>The adapter implements the contract\<close>

lemma im_drop_same [simp]:
  "im_places (im_drop now k s) = im_places s" "im_ok (im_drop now k s) = im_ok s" "im_maxRetries (im_drop now k s) = im_maxRetries s"
  by (simp_all add: im_drop_def im_places_def im_entries_def im_ok_def split: prod.split)

lemma insert_new_ok:
  assumes ok: "im_ok s" and k: "im_places s k = None" and x: "si_itemKey x = k" "buildItemKey x = k"
  shows "im_ok (insertSorted x (s\<lparr> im_inFlightSet := sadd k (im_inFlightSet s) \<rparr>))"
    and "im_places (insertSorted x (s\<lparr> im_inFlightSet := sadd k (im_inFlightSet s) \<rparr>))
       = (im_places s)(k \<mapsto> Queued (si_attemptCount x) (qi_priority x))"
proof -
  let ?s = "s\<lparr> im_inFlightSet := sadd k (im_inFlightSet s) \<rparr>"
  have e: "im_entries ?s = im_entries s" "im_places ?s = im_places s" by (simp_all add: im_entries_def im_places_def)
  note p = insertSorted_places [of ?s x, unfolded e(1)]
  have d: "distinct (map fst (im_entries s))" "map_of (im_entries s) (si_itemKey x) = None"
    using ok k x by (simp_all add: im_ok_iff im_places_def)
  show "im_places (insertSorted x ?s) = (im_places s)(k \<mapsto> Queued (si_attemptCount x) (qi_priority x))"
    using p(1) [OF d] x(1) e(2) by simp
  have "sorted_items (im_pending (insertSorted x ?s))"
    using ok by (intro insertSorted_sorted) (simp add: im_ok_iff)
  then show "im_ok (insertSorted x ?s)"
    using p(2,3) [OF d] ok x unfolding im_ok_iff by auto
qed

lemma insertSorted_inFlight:
  "insertSorted x (s\<lparr> im_inFlightSet := f \<rparr>) = (insertSorted x s)\<lparr> im_inFlightSet := f \<rparr>"
  by (simp add: insertSorted_def Let_def)

lemma im_enqueue_places:
  assumes "im_ok s" and "k = buildItemKey item" and "n = default_to 0 (jget (im_attemptCounts s) k)"
  shows "\<exists>s'. im_enqueue now item s = (Inr (im_places s k = None), s') \<and> im_ok s' \<and> im_maxRetries s' = im_maxRetries s
       \<and> im_places s' = put_absent k (Queued n (getPriorityScore now (qi_queueReason item))) (im_places s)"
  using assms insert_new_ok [OF assms(1), of k "serialize_item item (qi_queueReason item)
      (getPriorityScore now (qi_queueReason item)) n k"]
  by (auto simp: im_enqueue_def im_hasInFlight_def in_flight_places Let_def put_absent_def insertSorted_inFlight)

lemma im_enqueueIfAbsent_places:
  assumes "im_ok s" and "k = buildItemKey item"
  shows "\<exists>s'. im_enqueueIfAbsent now item s = (Inr (im_places s k = None), s') \<and> im_ok s' \<and> im_maxRetries s' = im_maxRetries s
       \<and> im_places s' = put_absent k (Queued 0 (getPriorityScore now (qi_queueReason item))) (im_places s)"
  using assms insert_new_ok [OF assms(1), of k "serialize_item item (qi_queueReason item)
      (getPriorityScore now (qi_queueReason item)) 0 k"]
  by (auto simp: im_enqueueIfAbsent_def im_hasInFlight_def in_flight_places Let_def put_absent_def)

text \<open>Putting a claimed item back: the claim goes, the item waits again with a new score.\<close>

lemma requeue_ok:
  assumes ok: "im_ok s" and c: "claim_of w k s = Some i" and x: "si_itemKey x = k" "buildItemKey x = k"
  shows "im_ok (insertSorted x (drop_claim w k s))"
    and "im_places (insertSorted x (drop_claim w k s)) = (im_places s)(k \<mapsto> Queued (si_attemptCount x) (qi_priority x))"
proof -
  let ?s = "drop_claim w k s"
  note dr = drop_claim_places [OF ok c]
  have k: "map_of (im_entries ?s) (si_itemKey x) = None" using dr(2) x(1) by (simp add: im_places_def fun_eq_iff)
  note p = insertSorted_places [OF dr(3) k]
  show "im_places (insertSorted x ?s) = (im_places s)(k \<mapsto> Queued (si_attemptCount x) (qi_priority x))"
    using p(1) dr(2) x(1) by simp
  have "k \<in> fst ` set (im_entries s)" using dr(1) by (force simp: im_places_def dest: map_of_SomeD)
  moreover have "sorted_items (im_pending (insertSorted x ?s))"
    using ok by (intro insertSorted_sorted) (simp add: im_ok_iff)
  ultimately show "im_ok (insertSorted x ?s)"
    using p(2,3) dr(4) ok x claims_ok_drop unfolding im_ok_iff by auto
qed

lemma remove_ok:
  assumes ok: "im_ok s" and c: "claim_of w k s = Some i"
  shows "im_ok ((drop_claim w k s)\<lparr> im_inFlightSet := sdel k (im_inFlightSet s) \<rparr>)"
    and "im_places ((drop_claim w k s)\<lparr> im_inFlightSet := sdel k (im_inFlightSet s) \<rparr>) = (im_places s)(k := None)"
proof -
  note dr = drop_claim_places [OF ok c]
  have e: "im_entries (t\<lparr> im_inFlightSet := f \<rparr>) = im_entries t" for t f by (simp add: im_entries_def)
  show "im_places ((drop_claim w k s)\<lparr> im_inFlightSet := sdel k (im_inFlightSet s) \<rparr>) = (im_places s)(k := None)"
    using dr(2) by (simp add: im_places_def e)
  show "im_ok ((drop_claim w k s)\<lparr> im_inFlightSet := sdel k (im_inFlightSet s) \<rparr>)"
    using dr(3,4) ok claims_ok_drop unfolding im_ok_iff e by auto
qed

text \<open>The fields that neither the invariant nor the places depend on.\<close>

lemma im_irrelevant [simp]:
  "im_ok (s\<lparr> im_attemptCounts := a \<rparr>) = im_ok s" "im_places (s\<lparr> im_attemptCounts := a \<rparr>) = im_places s"
  "im_ok (s\<lparr> im_deadLetter := d \<rparr>) = im_ok s" "im_places (s\<lparr> im_deadLetter := d \<rparr>) = im_places s"
  "im_ok (s\<lparr> im_dropLogState := l \<rparr>) = im_ok s" "im_places (s\<lparr> im_dropLogState := l \<rparr>) = im_places s"
  by (simp_all add: im_ok_def im_places_def im_entries_def)

lemma irrelevant_updates:
  "insertSorted x (s\<lparr> im_attemptCounts := a \<rparr>) = (insertSorted x s)\<lparr> im_attemptCounts := a \<rparr>"
  by (simp add: insertSorted_def Let_def)

lemma im_release_held:
  assumes ok: "im_ok s" and h: "im_places s (buildItemKey item) = Some (Held w n)"
  shows "\<exists>s'. im_release now w item s = (Inr (), s') \<and> im_ok s' \<and> im_maxRetries s' = im_maxRetries s
       \<and> im_places s' = (im_places s)(buildItemKey item := after_release (im_maxRetries s) (getPriorityScore now (Some Reason_retry)) n)"
proof -
  let ?k = "buildItemKey item"
  obtain i where i: "claim_of w ?k s = Some i" "si_attemptCount i = n" using claim_of_places [OF ok h] by blast
  show ?thesis
  proof (cases "im_maxRetries s \<le> Suc n")
    case True
    with i remove_ok [OF ok i(1)] show ?thesis
      by (simp add: im_release_def Let_def after_release_def)
        (simp add: im_ok_def im_places_def im_entries_def)
  next
    case False
    with i requeue_ok [OF ok i(1), of "serialize_item item (Some Reason_retry) (getPriorityScore now (Some Reason_retry)) (Suc n) ?k"]
    show ?thesis by (simp add: im_release_def Let_def after_release_def irrelevant_updates)
  qed
qed

lemma im_requeue_held:
  assumes ok: "im_ok s" and h: "im_places s (buildItemKey item) = Some (Held w n)"
  shows "\<exists>s'. im_requeueForResume now w item s = (Inr (), s') \<and> im_ok s' \<and> im_maxRetries s' = im_maxRetries s
       \<and> im_places s' = (im_places s)(buildItemKey item \<mapsto> Queued n (getPriorityScore now (Some Reason_resume)))"
proof -
  obtain i where "claim_of w (buildItemKey item) s = Some i" "si_attemptCount i = n" using claim_of_places [OF ok h] by blast
  with requeue_ok [OF ok this(1), of "serialize_item item (Some Reason_resume) (getPriorityScore now (Some Reason_resume)) n (buildItemKey item)"]
  show ?thesis by (simp add: im_requeueForResume_def Let_def)
qed

lemma im_complete_held:
  assumes ok: "im_ok s" and h: "im_places s (buildItemKey item) = Some (Held w n)"
  shows "\<exists>s'. im_complete w item s = (Inr (), s') \<and> im_ok s' \<and> im_maxRetries s' = im_maxRetries s
       \<and> im_places s' = (im_places s)(buildItemKey item := None)"
proof -
  obtain i where "claim_of w (buildItemKey item) s = Some i" using claim_of_places [OF ok h] by blast
  with remove_ok [OF ok this] show ?thesis
    by (simp add: im_complete_def Let_def) (simp add: im_ok_def im_places_def im_entries_def)
qed

lemma sorted_head_first:
  assumes "im_ok s" and p: "im_pending s = x # rest"
  shows "first_in_line (im_places s) (si_itemKey x)"
    and "im_places s (si_itemKey x) = Some (Queued (si_attemptCount x) (qi_priority x))"
proof -
  show x: "im_places s (si_itemKey x) = Some (Queued (si_attemptCount x) (qi_priority x))"
    using p by (simp add: im_places_def im_entries_def)
  have "qi_priority x \<le> sc" if "im_places s k = Some (Queued n sc)" for k n sc
  proof -
    from that have "(k, Queued n sc) \<in> set (im_entries s)" unfolding im_places_def by (rule map_of_SomeD)
    then have "(k, Queued n sc) \<in> set (waiting (x # rest))"
      unfolding im_entries_def p by (auto simp: held_def hold_def)
    then obtain i where i: "i \<in> set (x # rest)" "qi_priority i = sc" unfolding waiting_def by auto
    with assms have "i = x \<or> stays_before x i"
      by (auto simp: im_ok_iff sorted_items_def)
    with i(2) show ?thesis by (auto simp: stays_before_def)
  qed
  with x show "first_in_line (im_places s) (si_itemKey x)" by (auto simp: first_in_line_def)
qed

lemma im_ok_distinct: "im_ok s \<Longrightarrow> distinct (map fst (im_entries s))"
  by (simp add: im_ok_iff)

lemma entries_claim:
  assumes ok: "im_ok s" and p: "im_pending s = x # rest"
    and s': "s' = s\<lparr> im_pending := rest, im_claimed := jset w (jset (si_itemKey x) x (default_to [] (jget (im_claimed s) w))) (im_claimed s) \<rparr>"
  shows "mset (im_entries s') = mset ((si_itemKey x, Held w (si_attemptCount x)) # waiting rest @ held (im_claimed s))"
proof -
  let ?c = "im_claimed s" and ?k = "si_itemKey x"
  let ?m = "default_to [] (jget ?c w)"
  have jk: "jok ?c" using ok by (simp add: im_ok_iff claims_ok_def)
  have "jget ?m ?k = None"
  proof (rule ccontr)
    assume "jget ?m ?k \<noteq> None"
    then obtain m i where "jget ?c w = Some m" "jget m ?k = Some i" by (cases "jget ?c w") auto
    then have "(?k, Held w (si_attemptCount i)) \<in> set (held ?c)"
      by (force simp: held_def hold_def dest!: jget_in_set)
    then have "?k \<in> fst ` set (held ?c)" by force
    with im_ok_distinct [OF ok] p show False by (simp add: im_entries_def)
  qed
  then have "jset ?k x ?m = ?m @ [(?k, x)]" by (rule jset_new)
  with held_jset [OF jk, of w "jset ?k x ?m"]
  have "mset (held (jset w (jset ?k x ?m) ?c)) = add_mset (?k, Held w (si_attemptCount x)) (mset (held ?c))"
    by simp
  then show ?thesis by (simp add: s' im_entries_def)
qed

lemma im_claim_some:
  assumes ok: "im_ok s" and p: "im_pending s = x # rest"
  shows "\<exists>s'. im_claim w s = (Inr (Some (claimed_view x)), s') \<and> im_ok s' \<and> im_maxRetries s' = im_maxRetries s
       \<and> im_places s' = (im_places s)(si_itemKey x \<mapsto> Held w (si_attemptCount x))"
proof -
  let ?s = "s\<lparr> im_pending := rest, im_claimed := jset w (jset (si_itemKey x) x (default_to [] (jget (im_claimed s) w))) (im_claimed s) \<rparr>"
  let ?R = "waiting rest @ held (im_claimed s)"
  have d: "distinct (map fst ((si_itemKey x, Held w (si_attemptCount x)) # ?R))"
    using im_ok_distinct [OF ok] p by (simp add: im_entries_def)
  note q = map_of_permuted [OF entries_claim [OF ok p refl, of w] d]
  have run: "im_claim w s = (Inr (Some (claimed_view x)), ?s)" using p by (simp add: im_claim_def)
  have pl: "im_places ?s = (im_places s)(si_itemKey x \<mapsto> Held w (si_attemptCount x))"
    using q(2) p by (simp add: im_places_def im_entries_def)
  have "claims_ok (im_claimed ?s)"
    using ok p by (auto simp: im_ok_iff claims_ok_def jset_other_entries dest!: jget_in_set split: option.splits simp: default_to_def)
  moreover have "fst ` set (im_entries ?s) = fst ` set (im_entries s)"
    unfolding q(3) using p by (simp add: im_entries_def)
  moreover have "sorted_items rest" using ok p by (simp add: im_ok_iff sorted_items_def)
  ultimately have "im_ok ?s" using ok q(1) p unfolding im_ok_iff by simp
  with run pl show ?thesis by simp
qed

interpretation imq: work_queue memory_queue_ops im_places im_ok im_maxRetries
proof (unfold_locales, goal_cases)
  case (1 q now item)
  then show ?case using im_enqueue_places [OF 1 refl refl, of now item] by (simp add: memory_queue_ops_def) blast
next
  case (2 q now item)
  then show ?case using im_enqueueIfAbsent_places [OF 2 refl] by (simp add: memory_queue_ops_def)
next
  case (3 q now w)
  have "im_pending q = []"
  proof (cases "im_pending q")
    case (Cons x rest)
    then show ?thesis using 3 sorted_head_first(2) by blast
  qed
  with 3 show ?case by (simp add: memory_queue_ops_def im_claim_def)
next
  case (4 q k n s now w)
  then obtain x rest where p: "im_pending q = x # rest"
    by (cases "im_pending q") (auto simp: im_places_def im_entries_def held_def hold_def dest!: map_of_SomeD)
  have key: "buildItemKey (claimed_view x) = si_itemKey x" using 4(1) p by (simp add: im_ok_iff)
  show ?case using im_claim_some [OF 4(1) p, of w] sorted_head_first [OF 4(1) p] key
    by (auto simp: memory_queue_ops_def)
next
  case (5 q item w n now)
  then show ?case using im_release_held [OF 5] by (simp add: memory_queue_ops_def)
next
  case (6 q item w now)
  then have "claim_of w (buildItemKey item) q = None" using claim_of_iff [OF 6(1)] by simp
  with 6(1) show ?case by (simp add: memory_queue_ops_def im_release_def Let_def)
next
  case (7 q item w n now)
  then show ?case using im_requeue_held [OF 7] by (simp add: memory_queue_ops_def)
next
  case (8 q item w now)
  then have "claim_of w (buildItemKey item) q = None" using claim_of_iff [OF 8(1)] by simp
  with 8(1) show ?case by (simp add: memory_queue_ops_def im_requeueForResume_def Let_def)
next
  case (9 q item w n)
  then show ?case using im_complete_held [OF 9] by (simp add: memory_queue_ops_def)
qed

interpretation imo: observed_queue memory_queue_ops im_places im_ok im_maxRetries
  by unfold_locales (simp add: memory_queue_ops_def comp_simps)

section \<open>Properties\<close>

text \<open>
  C33. Insertion by binary search is stable insertion: into a sorted queue, a new item goes
  behind exactly the items with a smaller score and those with the same score that are not
  later, the others keep their order, and the queue stays sorted.
\<close>

theorem insertSorted_stable:
  assumes "sorted_items (im_pending s)"
  shows "im_pending (insertSorted x s)
       = takeWhile (\<lambda>m. stays_before m x) (im_pending s) @ x # dropWhile (\<lambda>m. stays_before m x) (im_pending s)
     \<and> sorted_items (im_pending (insertSorted x s))"
  using insertSorted_is_stable_insertion [OF assms] insertSorted_sorted [OF assms] by simp

theorem insertSorted_stable_witness:
  "im_pending (insertSorted (sample_serialized 2 7)
     ((new_memory_queue None None)\<lparr> im_pending := [sample_serialized 1 7, sample_serialized 3 9] \<rparr>))
   = [sample_serialized 1 7, sample_serialized 2 7, sample_serialized 3 9]"
proof -
  let ?s = "(new_memory_queue None None)\<lparr> im_pending := [sample_serialized 1 7, sample_serialized 3 9] \<rparr>"
  have "sorted_items (im_pending ?s)"
    by (simp add: sorted_items_def stays_before_def sample_serialized_def sample_item_def)
  from insertSorted_stable [OF this, of "sample_serialized 2 7"] show ?thesis
    by (simp add: stays_before_def sample_serialized_def sample_item_def)
qed

lemma new_memory_queue_ok: "im_ok (new_memory_queue r d)" "im_places (new_memory_queue r d) = Map.empty"
  "im_maxRetries (new_memory_queue r d) = default_to 3 r"
  by (simp_all add: new_memory_queue_def im_ok_def im_places_def im_entries_def sorted_items_def)

lemma fst_waiting: "fst ` set (waiting xs) = si_itemKey ` set xs"
  by (force simp: waiting_def)

lemma fst_held: "fst ` set (held c) = (\<Union>(w, m)\<in>set c. fst ` set m)"
  by (force simp: held_def hold_def)

text \<open>
  C13. The queue does what the interface promises, for every sequence of calls in which only
  the holder of an item completes it: each call is one of the allowed changes of the
  items' places, the index of keys in flight is exactly the set of the pending and the
  claimed keys, no key is pending twice or both pending and claimed, and the pending
  items stay sorted.
\<close>

theorem memory_queue_refines:
  assumes "(queue_step memory_queue_ops im_places)\<^sup>*\<^sup>* (new_memory_queue r d) s"
  shows "(place_step (default_to 3 r))\<^sup>*\<^sup>* Map.empty (im_places s)
     \<and> set (im_inFlightSet s) = si_itemKey ` set (im_pending s) \<union> (\<Union>(w, m)\<in>set (im_claimed s). fst ` set m)
     \<and> dom (im_places s) = set (im_inFlightSet s)
     \<and> distinct (map si_itemKey (im_pending s) @ concat (map (\<lambda>(w, m). map fst m) (im_claimed s)))
     \<and> sorted_items (im_pending s)"
proof -
  have s: "im_ok s" "(place_step (default_to 3 r))\<^sup>*\<^sup>* Map.empty (im_places s)"
    using imq.run_simulated [OF assms] new_memory_queue_ok by simp_all
  have keys: "map fst (im_entries s) = map si_itemKey (im_pending s) @ concat (map (\<lambda>(w, m). map fst m) (im_claimed s))"
    by (simp add: im_entries_def waiting_def held_def hold_def map_concat comp_def case_prod_unfold)
  have dom: "dom (im_places s) = fst ` set (im_entries s)" by (simp add: im_places_def dom_map_of_conv_image_fst)
  have fl: "set (im_inFlightSet s) = fst ` set (im_entries s)" and "sorted_items (im_pending s)"
    and "distinct (map fst (im_entries s))" using s(1) unfolding im_ok_iff by simp_all
  moreover have "fst ` set (im_entries s) = si_itemKey ` set (im_pending s) \<union> (\<Union>(w, m)\<in>set (im_claimed s). fst ` set m)"
    by (simp only: im_entries_def set_append image_Un fst_waiting fst_held)
  ultimately show ?thesis using s(2) dom unfolding keys by (intro conjI) simp_all
qed

theorem memory_queue_refines_witness:
  "\<exists>s. im_places s (buildItemKey (sample_item 1)) = Some (Held ''w'' 0)
     \<and> (place_step 3)\<^sup>*\<^sup>* Map.empty (im_places s) \<and> set (im_inFlightSet s) = {buildItemKey (sample_item 1)}"
proof -
  let ?s0 = "new_memory_queue None None"
  let ?s1 = "snd (im_enqueue 5 (sample_item 1) ?s0)" and ?k = "buildItemKey (sample_item 1)"
  let ?s2 = "snd (im_claim ''w'' ?s1)"
  have "queue_step memory_queue_ops im_places ?s0 ?s1" "queue_step memory_queue_ops im_places ?s1 ?s2"
    using queue_step.enqueue [of memory_queue_ops im_places ?s0 5 "sample_item 1"]
      queue_step.claim [of memory_queue_ops im_places ?s1 0 "''w''"] by (simp_all add: memory_queue_ops_def)
  then have run: "(queue_step memory_queue_ops im_places)\<^sup>*\<^sup>* ?s0 ?s2" by simp
  have p: "im_pending ?s1 = [serialize_item (sample_item 1) None (getPriorityScore 5 None) 0 ?k]"
    by (simp add: im_enqueue_def im_hasInFlight_def new_memory_queue_def insertSorted_def insert_position.simps sample_item_def Let_def)
  have "im_ok ?s1" using im_enqueue_places [OF new_memory_queue_ok(1) refl refl, of 5 "sample_item 1" None None] by auto
  then have "im_places ?s2 ?k = Some (Held ''w'' 0)" using im_claim_some [OF _ p, of "''w''"] by auto
  moreover have "set (im_inFlightSet ?s2) = {?k}"
    using p by (simp add: im_claim_def) (simp add: im_enqueue_def im_hasInFlight_def new_memory_queue_def Let_def)
  ultimately show ?thesis using memory_queue_refines [OF run] by auto
qed

text \<open>
  The number of failures of an item outlives its dead-lettering: when the release of an
  item reaches the limit, a later \<open>enqueue\<close> of the same issue is accepted with that number of
  attempts, while \<open>enqueueIfAbsent\<close> starts at 0, so after \<open>enqueue\<close> the first failure
  buries the issue again.
\<close>

lemma memory_dead_letter_keeps_attempts:
  assumes "im_ok s" and "im_places s (buildItemKey item) = Some (Held w n)" and "im_maxRetries s \<le> Suc n"
  shows "\<exists>s1 s2 s3. im_release now w item s = (Inr (), s1) \<and> im_places s1 (buildItemKey item) = None
     \<and> im_enqueue t item s1 = (Inr True, s2)
     \<and> im_places s2 (buildItemKey item) = Some (Queued (Suc n) (getPriorityScore t (qi_queueReason item)))
     \<and> im_enqueueIfAbsent t item s1 = (Inr True, s3)
     \<and> im_places s3 (buildItemKey item) = Some (Queued 0 (getPriorityScore t (qi_queueReason item)))"
proof -
  let ?k = "buildItemKey item"
  obtain i where i: "claim_of w ?k s = Some i" "si_attemptCount i = n" using claim_of_places [OF assms(1,2)] by blast
  obtain s1 where s1: "im_release now w item s = (Inr (), s1)" "im_ok s1" "im_places s1 = (im_places s)(?k := None)"
    using im_release_held [OF assms(1,2), of now] assms(3) by (auto simp: after_release_def)
  have "jget (im_attemptCounts s1) ?k = Some (Suc n)"
    using s1(1) i assms(3) by (auto simp: im_release_def Let_def)
  with im_enqueue_places [OF s1(2) refl refl, of t item] im_enqueueIfAbsent_places [OF s1(2) refl, of t item] s1
  show ?thesis by (auto simp: put_absent_def)
qed

end
