(* ===== verification/LeaseManager.thy ===== *)
theory LeaseManager
  imports Jobs Emitter
begin

text \<open>
  The lease manager of the orchestrator (\<open>packages/orchestrator/src/services/lease-manager.ts\<close>,
  \<open>types/lease.ts\<close>). The relay client is a parameter. A request's promise is named by its
  correlation id; resolutions are recorded in order, and the first one is the outcome.
  Timers and intervals that are armed are lists of ids; their callbacks are operations.
\<close>

section \<open>Types\<close>

record lease =
  le_leaseId :: string
  le_userId :: string
  le_queueItemId :: string
  le_workerId :: string
  le_grantedAt :: string
  le_consecutiveFailures :: nat

datatype lease_request_result =
    Granted string
  | Denied string
  | Errored string
  | Timed_out

record lease_config =
  lc_requestTimeoutMs :: int
  lc_heartbeatIntervalMs :: int
  lc_maxHeartbeatFailures :: nat

datatype relay_message =
    Lease_request string string string string
  | Lease_release string string
  | Lease_heartbeat string

datatype response_status = St_granted | St_denied | St_released | St_error

record lease_response =
  ls_correlationId :: string
  ls_status :: response_status
  ls_leaseId :: "string option"
  ls_reason :: "string option"
  ls_limit :: "int option"
  ls_message :: "string option"

datatype lease_event =
    Lease_expired string string string
  | Slot_available string
  | Cluster_rejected string string

datatype lease_event_name = En_expired | En_slot | En_rejected

definition lease_event_kind :: "lease_event \<Rightarrow> lease_event_name" where
  "lease_event_kind e =
     (case e of Lease_expired _ _ _ \<Rightarrow> En_expired | Slot_available _ \<Rightarrow> En_slot | Cluster_rejected _ _ \<Rightarrow> En_rejected)"

record 'w lease_manager =
  lm_config :: lease_config
  lm_activeLeases :: "(string, lease) jmap"
  lm_pendingRequests :: "string list"
  lm_pendingReleases :: "string list"
  lm_userTierLimit :: "int option"
  lm_clusterRejected :: bool
  lm_timers :: "string list"
  lm_intervals :: "string list"
  lm_resolved :: "(string \<times> lease_request_result) list"
  lm_listeners :: "lease_event_name listeners"
  lm_calls :: "(listener \<times> lease_event) list"
  lm_world :: 'w

definition new_lease_manager :: "lease_config \<Rightarrow> 'w \<Rightarrow> 'w lease_manager" where
  "new_lease_manager c w =
     \<lparr> lm_config = c, lm_activeLeases = [], lm_pendingRequests = [], lm_pendingReleases = [], lm_userTierLimit = None,
       lm_clusterRejected = False, lm_timers = [], lm_intervals = [], lm_resolved = [], lm_listeners = [], lm_calls = [],
       lm_world = w \<rparr>"

section \<open>Events\<close>

definition lm_on :: "lease_event_name \<Rightarrow> listener \<Rightarrow> 'w lease_manager \<Rightarrow> 'w lease_manager" where
  "lm_on k l s = s\<lparr> lm_listeners := ls_on k l (lm_listeners s) \<rparr>"

definition lm_off :: "lease_event_name \<Rightarrow> listener \<Rightarrow> 'w lease_manager \<Rightarrow> 'w lease_manager" where
  "lm_off k l s = s\<lparr> lm_listeners := ls_off k l (lm_listeners s) \<rparr>"

definition lm_emit :: "lease_event \<Rightarrow> 'w lease_manager \<Rightarrow> 'w lease_manager" where
  "lm_emit e s = s\<lparr> lm_calls := lm_calls s @ ls_emit (lm_listeners s) (lease_event_kind e) e \<rparr>"

interpretation lme: emitter lm_listeners lm_calls lease_event_kind lm_on lm_off lm_emit
  by unfold_locales (simp_all add: lm_on_def lm_off_def lm_emit_def)

section \<open>Operations\<close>

text \<open>\<open>this.client.send(message)\<close>, which may throw.\<close>

type_synonym 'w relay = "relay_message \<Rightarrow> ('w, unit) js"

definition lm_send :: "'w relay \<Rightarrow> relay_message \<Rightarrow> ('w lease_manager, unit) js" where
  "lm_send send m s = (case send m (lm_world s) of (r, w) \<Rightarrow> (r, s\<lparr> lm_world := w \<rparr>))"

definition lm_resolve :: "string \<Rightarrow> lease_request_result \<Rightarrow> 'w lease_manager \<Rightarrow> 'w lease_manager" where
  "lm_resolve cid r s = s\<lparr> lm_resolved := lm_resolved s @ [(cid, r)] \<rparr>"

text \<open>
  \<open>requestLease\<close> up to the promise: either it returns a result at once, when sending
  fails, or it waits for the response or the timer. \<open>cid\<close> is \<open>randomUUID()\<close>.
\<close>

definition requestLease ::
    "'w relay \<Rightarrow> string \<Rightarrow> string \<Rightarrow> string \<Rightarrow> string \<Rightarrow> 'w lease_manager \<Rightarrow> 'w lease_manager" where
  "requestLease send cid userId queueItemId jobId s =
     (case lm_send send (Lease_request cid userId queueItemId jobId) s of
        (Inl e, s1) \<Rightarrow> lm_resolve cid Timed_out s1
      | (Inr _, s1) \<Rightarrow> s1\<lparr> lm_timers := sadd cid (lm_timers s1), lm_pendingRequests := sadd cid (lm_pendingRequests s1) \<rparr>)"

text \<open>The callback of a request's timer.\<close>

definition request_timer :: "string \<Rightarrow> 'w lease_manager \<Rightarrow> 'w lease_manager" where
  "request_timer cid s =
     lm_resolve cid Timed_out
       (s\<lparr> lm_timers := sdel cid (lm_timers s), lm_pendingRequests := sdel cid (lm_pendingRequests s) \<rparr>)"

definition releaseLease :: "'w relay \<Rightarrow> string \<Rightarrow> string \<Rightarrow> 'w lease_manager \<Rightarrow> 'w lease_manager" where
  "releaseLease send cid leaseId s =
     (let s1 = (if jhas (lm_activeLeases s) leaseId
                then s\<lparr> lm_intervals := sdel leaseId (lm_intervals s), lm_activeLeases := jdel leaseId (lm_activeLeases s) \<rparr>
                else s)
      in case lm_send send (Lease_release cid leaseId) s1 of
           (Inl e, s2) \<Rightarrow> s2
         | (Inr _, s2) \<Rightarrow> s2\<lparr> lm_pendingReleases := sadd cid (lm_pendingReleases s2) \<rparr>)"

text \<open>The callback of a release's timer.\<close>

definition release_timer :: "string \<Rightarrow> 'w lease_manager \<Rightarrow> 'w lease_manager" where
  "release_timer cid s = s\<lparr> lm_pendingReleases := sdel cid (lm_pendingReleases s) \<rparr>"

definition response_result :: "lease_response \<Rightarrow> lease_request_result" where
  "response_result msg =
     (case ls_status msg of
        St_granted \<Rightarrow> if \<not> truthy (ls_leaseId msg) then Errored ''granted response missing leaseId''
                      else Granted (the (ls_leaseId msg))
      | St_denied \<Rightarrow> Denied (default_to ''denied'' (ls_reason msg))
      | St_released \<Rightarrow> Errored ''unexpected released status for lease_request''
      | St_error \<Rightarrow> Errored (default_to ''unknown cloud error'' (ls_message msg)))"

definition handleLeaseResponse :: "lease_response \<Rightarrow> 'w lease_manager \<Rightarrow> 'w lease_manager" where
  "handleLeaseResponse msg s =
     (let cid = ls_correlationId msg
      in if cid \<in> set (lm_pendingReleases s) then s\<lparr> lm_pendingReleases := sdel cid (lm_pendingReleases s) \<rparr>
         else if cid \<notin> set (lm_pendingRequests s) then s
         else
           (let s1 = s\<lparr> lm_timers := sdel cid (lm_timers s), lm_pendingRequests := sdel cid (lm_pendingRequests s) \<rparr>;
                s2 = (if ls_status msg = St_denied
                      then (case ls_limit msg of None \<Rightarrow> s1 | Some n \<Rightarrow> s1\<lparr> lm_userTierLimit := Some n \<rparr>) else s1)
            in lm_resolve cid (response_result msg) s2))"

definition lm_startHeartbeat ::
    "int \<Rightarrow> string \<Rightarrow> string \<Rightarrow> string \<Rightarrow> string \<Rightarrow> 'w lease_manager \<Rightarrow> 'w lease_manager" where
  "lm_startHeartbeat now leaseId userId queueItemId workerId s =
     s\<lparr> lm_intervals := sadd leaseId (lm_intervals s),
        lm_activeLeases := jset leaseId
          \<lparr> le_leaseId = leaseId, le_userId = userId, le_queueItemId = queueItemId, le_workerId = workerId,
            le_grantedAt = toISOString now, le_consecutiveFailures = 0 \<rparr> (lm_activeLeases s) \<rparr>"

definition handleSlotAvailable :: "string \<Rightarrow> 'w lease_manager \<Rightarrow> 'w lease_manager" where
  "handleSlotAvailable userId s = lm_emit (Slot_available userId) s"

definition handleTierInfo :: "int \<Rightarrow> 'w lease_manager \<Rightarrow> 'w lease_manager" where
  "handleTierInfo maxConcurrentWorkflows s = s\<lparr> lm_userTierLimit := Some maxConcurrentWorkflows \<rparr>"

definition handleClusterRejected :: "string \<Rightarrow> string option \<Rightarrow> 'w lease_manager \<Rightarrow> 'w lease_manager" where
  "handleClusterRejected reason tierName s =
     lm_emit (Cluster_rejected reason (default_to ''unknown'' tierName)) (s\<lparr> lm_clusterRejected := True \<rparr>)"

text \<open>\<open>shutdown\<close>; \<open>cids\<close> are the ids drawn for the release messages.\<close>

definition lm_shutdown :: "'w relay \<Rightarrow> (string \<Rightarrow> string) \<Rightarrow> 'w lease_manager \<Rightarrow> 'w lease_manager" where
  "lm_shutdown send cids s =
     (let s1 = fold (\<lambda>l. releaseLease send (cids l) l) (jkeys (lm_activeLeases s)) s;
          s2 = fold (\<lambda>cid s. lm_resolve cid Timed_out (s\<lparr> lm_timers := sdel cid (lm_timers s) \<rparr>)) (lm_pendingRequests s1) s1
      in s2\<lparr> lm_pendingRequests := [], lm_listeners := [] \<rparr>)"

text \<open>The callback of a lease's interval.\<close>

definition sendHeartbeat :: "'w relay \<Rightarrow> string \<Rightarrow> 'w lease_manager \<Rightarrow> 'w lease_manager" where
  "sendHeartbeat send leaseId s =
     (case jget (lm_activeLeases s) leaseId of
        None \<Rightarrow> s
      | Some l \<Rightarrow>
          (case lm_send send (Lease_heartbeat leaseId) s of
             (Inr _, s1) \<Rightarrow> s1\<lparr> lm_activeLeases := jset leaseId (l\<lparr> le_consecutiveFailures := 0 \<rparr>) (lm_activeLeases s1) \<rparr>
           | (Inl e, s1) \<Rightarrow>
               (let failures = le_consecutiveFailures l + 1
                in if failures \<ge> lc_maxHeartbeatFailures (lm_config s1)
                   then lm_emit (Lease_expired leaseId (le_queueItemId l) (le_workerId l))
                          (s1\<lparr> lm_intervals := sdel leaseId (lm_intervals s1),
                               lm_activeLeases := jdel leaseId (lm_activeLeases s1) \<rparr>)
                   else s1\<lparr> lm_activeLeases := jset leaseId (l\<lparr> le_consecutiveFailures := failures \<rparr>)
                                                (lm_activeLeases s1) \<rparr>)))"

lemmas lease_ops = lm_send_def lm_resolve_def lm_emit_def

section \<open>Heartbeats\<close>

text \<open>One tick of a lease's interval for every element: whether the message gets out.\<close>

definition ticks :: "(bool \<Rightarrow> 'w relay) \<Rightarrow> string \<Rightarrow> bool list \<Rightarrow> 'w lease_manager \<Rightarrow> 'w lease_manager" where
  "ticks relay leaseId bs s = fold (\<lambda>b. sendHeartbeat (relay b) leaseId) bs s"

definition gets_out :: "(bool \<Rightarrow> 'w relay) \<Rightarrow> bool" where
  "gets_out relay \<longleftrightarrow> (\<forall>b m w. \<exists>r w'. relay b m w = (r, w') \<and> (b \<longleftrightarrow> r = Inr ()))"

text \<open>\<open>m\<close> failures in a row, and the failures at the end.\<close>

definition has_run :: "nat \<Rightarrow> bool list \<Rightarrow> bool" where
  "has_run m bs \<longleftrightarrow> (\<exists>ys zs. bs = ys @ replicate m False @ zs)"

definition trailing :: "bool list \<Rightarrow> nat" where
  "trailing bs = length (takeWhile Not (rev bs))"

lemma trailing_snoc [simp]: "trailing (bs @ [b]) = (if b then 0 else Suc (trailing bs))"
  by (simp add: trailing_def)

lemma takeWhile_Not: "takeWhile Not xs = replicate (length (takeWhile Not xs)) False"
  by (induction xs) auto

lemma trailing_suffix: "m \<le> trailing bs \<longleftrightarrow> (\<exists>ys. bs = ys @ replicate m False)"
proof
  assume m: "m \<le> trailing bs"
  let ?t = "trailing bs"
  have "rev bs = replicate ?t False @ dropWhile Not (rev bs)"
    using takeWhile_dropWhile_id [of Not "rev bs"] takeWhile_Not [of "rev bs"] by (simp add: trailing_def)
  then have "bs = rev (dropWhile Not (rev bs)) @ replicate ?t False"
    by (metis rev_append rev_replicate rev_rev_ident)
  moreover have "replicate ?t False = replicate (?t - m) False @ replicate m False"
    using m by (simp flip: replicate_add)
  ultimately show "\<exists>ys. bs = ys @ replicate m False" by (metis append_assoc)
next
  assume "\<exists>ys. bs = ys @ replicate m False"
  then show "m \<le> trailing bs" by (auto simp: trailing_def takeWhile_append)
qed

lemma has_run_snoc:
  assumes "0 < m"
  shows "has_run m (bs @ [b]) \<longleftrightarrow> has_run m bs \<or> m \<le> trailing (bs @ [b])"
proof
  assume "has_run m (bs @ [b])"
  then obtain ys zs where e: "bs @ [b] = ys @ replicate m False @ zs" by (auto simp: has_run_def)
  show "has_run m bs \<or> m \<le> trailing (bs @ [b])"
  proof (cases zs rule: rev_cases)
    case Nil
    with e show ?thesis by (auto simp: trailing_suffix simp del: trailing_snoc)
  next
    case (snoc zs' z)
    with e have "bs = ys @ replicate m False @ zs'" by simp
    then show ?thesis by (auto simp: has_run_def)
  qed
next
  assume "has_run m bs \<or> m \<le> trailing (bs @ [b])"
  then show "has_run m (bs @ [b])"
    unfolding has_run_def trailing_suffix by (metis append.right_neutral append_assoc)
qed

lemma tick_active:
  assumes "gets_out relay" and "jget (lm_activeLeases s) i = Some l" and "M = lc_maxHeartbeatFailures (lm_config s)"
  shows "lm_config (sendHeartbeat (relay b) i s) = lm_config s"
    and "lm_listeners (sendHeartbeat (relay b) i s) = lm_listeners s"
    and "b \<or> Suc (le_consecutiveFailures l) < M \<Longrightarrow>
           jget (lm_activeLeases (sendHeartbeat (relay b) i s)) i
             = Some (l\<lparr> le_consecutiveFailures := if b then 0 else Suc (le_consecutiveFailures l) \<rparr>)
           \<and> lm_calls (sendHeartbeat (relay b) i s) = lm_calls s"
    and "\<not> b \<Longrightarrow> M \<le> Suc (le_consecutiveFailures l) \<Longrightarrow>
           jget (lm_activeLeases (sendHeartbeat (relay b) i s)) i = None
           \<and> lm_calls (sendHeartbeat (relay b) i s)
               = lm_calls s @ ls_emit (lm_listeners s) En_expired (Lease_expired i (le_queueItemId l) (le_workerId l))"
proof -
  obtain r w' where "relay b (Lease_heartbeat i) (lm_world s) = (r, w')" "b \<longleftrightarrow> r = Inr ()"
    using assms(1) unfolding gets_out_def by blast
  then show "lm_config (sendHeartbeat (relay b) i s) = lm_config s"
    and "lm_listeners (sendHeartbeat (relay b) i s) = lm_listeners s"
    and "b \<or> Suc (le_consecutiveFailures l) < M \<Longrightarrow>
           jget (lm_activeLeases (sendHeartbeat (relay b) i s)) i
             = Some (l\<lparr> le_consecutiveFailures := if b then 0 else Suc (le_consecutiveFailures l) \<rparr>)
           \<and> lm_calls (sendHeartbeat (relay b) i s) = lm_calls s"
    and "\<not> b \<Longrightarrow> M \<le> Suc (le_consecutiveFailures l) \<Longrightarrow>
           jget (lm_activeLeases (sendHeartbeat (relay b) i s)) i = None
           \<and> lm_calls (sendHeartbeat (relay b) i s)
               = lm_calls s @ ls_emit (lm_listeners s) En_expired (Lease_expired i (le_queueItemId l) (le_workerId l))"
    using assms(2,3) by (cases r; simp add: sendHeartbeat_def lease_ops Let_def lease_event_kind_def)+
qed

lemma tick_gone: "jget (lm_activeLeases s) i = None \<Longrightarrow> sendHeartbeat r i s = s"
  by (simp add: sendHeartbeat_def)

text \<open>
  A lease expires by failed heartbeats exactly as configured: after any sequence of
  ticks the lease is still active if and only if no \<open>maxHeartbeatFailures\<close> messages in a row
  have failed; while it is active its counter is the number of failures since the last
  success and nothing is emitted; once it has expired the listeners of \<open>lease:expired\<close> have
  been called exactly once, with the item and the worker of the lease.
\<close>

lemma lease_expires_after_failures:
  assumes "gets_out relay" and "jget (lm_activeLeases s) i = Some l" and "le_consecutiveFailures l = 0"
    and "M = lc_maxHeartbeatFailures (lm_config s)" and "0 < M"
  shows "if has_run M bs
     then jget (lm_activeLeases (ticks relay i bs s)) i = None
        \<and> lm_calls (ticks relay i bs s)
            = lm_calls s @ ls_emit (lm_listeners s) En_expired (Lease_expired i (le_queueItemId l) (le_workerId l))
     else jget (lm_activeLeases (ticks relay i bs s)) i = Some (l\<lparr> le_consecutiveFailures := trailing bs \<rparr>)
        \<and> trailing bs < M \<and> lm_calls (ticks relay i bs s) = lm_calls s"
proof -
  let ?t = "\<lambda>bs. ticks relay i bs s"
  have "lm_config (?t bs) = lm_config s \<and> lm_listeners (?t bs) = lm_listeners s \<and>
     (if has_run M bs
     then jget (lm_activeLeases (?t bs)) i = None
        \<and> lm_calls (?t bs) = lm_calls s @ ls_emit (lm_listeners s) En_expired (Lease_expired i (le_queueItemId l) (le_workerId l))
     else jget (lm_activeLeases (?t bs)) i = Some (l\<lparr> le_consecutiveFailures := trailing bs \<rparr>)
        \<and> trailing bs < M \<and> lm_calls (?t bs) = lm_calls s)"
  proof (induction bs rule: rev_induct)
    case Nil
    from assms show ?case by (simp add: ticks_def has_run_def trailing_def)
  next
    case (snoc b bs)
    have step: "?t (bs @ [b]) = sendHeartbeat (relay b) i (?t bs)" by (simp add: ticks_def)
    show ?case
    proof (cases "has_run M bs")
      case True
      with snoc step have "?t (bs @ [b]) = ?t bs" by (simp add: tick_gone)
      with snoc True show ?thesis by (simp add: has_run_snoc [OF assms(5)])
    next
      case False
      with snoc have act: "jget (lm_activeLeases (?t bs)) i = Some (l\<lparr> le_consecutiveFailures := trailing bs \<rparr>)" by simp
      have M: "M = lc_maxHeartbeatFailures (lm_config (?t bs))" using snoc assms(4) by simp
      note tk = tick_active [OF assms(1) act M, of b, folded step]
      show ?thesis
        using snoc False tk assms(5) unfolding has_run_snoc [OF assms(5)]
        by (cases "b \<or> Suc (trailing bs) < M") (auto simp: not_less)
    qed
  qed
  then show ?thesis by blast
qed

definition flaky_relay :: "bool \<Rightarrow> unit relay" where
  "flaky_relay b m w = ((if b then Inr () else Inl (Plain_error ''relay down'')), w)"

definition sample_lease_config :: lease_config where
  "sample_lease_config = \<lparr> lc_requestTimeoutMs = 30000, lc_heartbeatIntervalMs = 30000, lc_maxHeartbeatFailures = 3 \<rparr>"

lemma flaky_relay_gets_out: "gets_out flaky_relay"
  by (simp add: gets_out_def flaky_relay_def)

section \<open>Requests\<close>

text \<open>
  The turns of the event loop that concern requests: a request with a fresh id, a response
  from the cloud, the timer of a request that is armed, a release, a heartbeat, shutdown.
  \<open>used\<close> are the ids drawn so far.
\<close>

inductive lm_reachable :: "lease_config \<Rightarrow> 'w \<Rightarrow> string set \<Rightarrow> 'w lease_manager \<Rightarrow> bool" for c w where
  start: "lm_reachable c w {} (new_lease_manager c w)"
| request: "lm_reachable c w used s \<Longrightarrow> cid \<notin> used \<Longrightarrow>
     lm_reachable c w (insert cid used) (requestLease send cid u q j s)"
| response: "lm_reachable c w used s \<Longrightarrow> lm_reachable c w used (handleLeaseResponse msg s)"
| request_timer: "lm_reachable c w used s \<Longrightarrow> cid \<in> set (lm_timers s) \<Longrightarrow> lm_reachable c w used (request_timer cid s)"
| release: "lm_reachable c w used s \<Longrightarrow> lm_reachable c w used (releaseLease send cid l s)"
| release_timer: "lm_reachable c w used s \<Longrightarrow> lm_reachable c w used (release_timer cid s)"
| heartbeat: "lm_reachable c w used s \<Longrightarrow> lm_reachable c w used (sendHeartbeat send l s)"
| start_heartbeat: "lm_reachable c w used s \<Longrightarrow> lm_reachable c w used (lm_startHeartbeat now l u q i s)"
| slot: "lm_reachable c w used s \<Longrightarrow> lm_reachable c w used (handleSlotAvailable u s)"
| shutdown: "lm_reachable c w used s \<Longrightarrow> lm_reachable c w used (lm_shutdown send cids s)"

definition requests_ok :: "string set \<Rightarrow> 'w lease_manager \<Rightarrow> bool" where
  "requests_ok used s \<longleftrightarrow>
     distinct (map fst (lm_resolved s)) \<and> distinct (lm_pendingRequests s) \<and> set (lm_timers s) = set (lm_pendingRequests s) \<and>
     set (lm_pendingRequests s) \<inter> fst ` set (lm_resolved s) = {} \<and>
     set (lm_pendingRequests s) \<union> fst ` set (lm_resolved s) = used"

lemma releaseLease_requests [simp]:
  "lm_resolved (releaseLease send cid l s) = lm_resolved s"
  "lm_pendingRequests (releaseLease send cid l s) = lm_pendingRequests s"
  "lm_timers (releaseLease send cid l s) = lm_timers s"
  by (simp_all add: releaseLease_def lease_ops Let_def split: prod.split sum.split)

lemma sendHeartbeat_requests [simp]:
  "lm_resolved (sendHeartbeat send l s) = lm_resolved s"
  "lm_pendingRequests (sendHeartbeat send l s) = lm_pendingRequests s"
  "lm_timers (sendHeartbeat send l s) = lm_timers s"
  by (simp_all add: sendHeartbeat_def lease_ops Let_def split: option.split prod.split sum.split)

lemma settle_pending:
  assumes "requests_ok used s" and "cid \<in> set (lm_pendingRequests s)"
    and "lm_resolved s' = lm_resolved s @ [(cid, r)]" "lm_pendingRequests s' = sdel cid (lm_pendingRequests s)"
      "lm_timers s' = sdel cid (lm_timers s)"
  shows "requests_ok used s'"
  using assms unfolding requests_ok_def by auto

lemma fold_release_requests:
  "lm_resolved (fold (\<lambda>l. releaseLease send (cids l) l) ls s) = lm_resolved s"
  "lm_pendingRequests (fold (\<lambda>l. releaseLease send (cids l) l) ls s) = lm_pendingRequests s"
  "lm_timers (fold (\<lambda>l. releaseLease send (cids l) l) ls s) = lm_timers s"
  by (induction ls arbitrary: s) simp_all

lemma fold_timeouts:
  fixes s :: "'w lease_manager"
  shows "lm_resolved (fold (\<lambda>cid s. lm_resolve cid Timed_out (s\<lparr> lm_timers := sdel cid (lm_timers s) \<rparr>)) cs s)
       = lm_resolved s @ map (\<lambda>cid. (cid, Timed_out)) cs
     \<and> set (lm_timers (fold (\<lambda>cid s. lm_resolve cid Timed_out (s\<lparr> lm_timers := sdel cid (lm_timers s) \<rparr>)) cs s))
       = set (lm_timers s) - set cs"
  by (induction cs arbitrary: s) (auto simp: lm_resolve_def)

lemma shutdown_requests: "requests_ok used s \<Longrightarrow> requests_ok used (lm_shutdown send cids s)"
  using fold_timeouts [of "lm_pendingRequests s" "fold (\<lambda>l. releaseLease send (cids l) l) (jkeys (lm_activeLeases s)) s"]
  by (auto simp: requests_ok_def lm_shutdown_def Let_def fold_release_requests comp_def image_Un image_image)

lemma response_requests: "requests_ok used s \<Longrightarrow> requests_ok used (handleLeaseResponse msg s)"
proof (cases "ls_correlationId msg \<notin> set (lm_pendingReleases s) \<and> ls_correlationId msg \<in> set (lm_pendingRequests s)")
  case True
  assume ok: "requests_ok used s"
  show ?thesis
    by (rule settle_pending [OF ok conjunct2 [OF True], where r = "response_result msg"])
      (use True in \<open>simp_all add: handleLeaseResponse_def Let_def lm_resolve_def split: option.split\<close>)
next
  case False
  assume "requests_ok used s"
  with False show ?thesis by (auto simp: handleLeaseResponse_def Let_def requests_ok_def)
qed

lemma request_requests:
  assumes "requests_ok used s" and "cid \<notin> used"
  shows "requests_ok (insert cid used) (requestLease send cid u q j s)"
  using assms by (auto simp: requestLease_def requests_ok_def lease_ops split: prod.split sum.split)

lemma reachable_requests: "lm_reachable c w used s \<Longrightarrow> requests_ok used s"
proof (induction rule: lm_reachable.induct)
  case start
  then show ?case by (simp add: requests_ok_def new_lease_manager_def)
next
  case (request_timer used s cid)
  then have "cid \<in> set (lm_pendingRequests s)" by (simp add: requests_ok_def)
  from settle_pending [OF request_timer.IH this, of "request_timer cid s" Timed_out] show ?case
    by (simp add: request_timer_def lm_resolve_def)
next
  case (release used s send cid l)
  then show ?case by (simp add: requests_ok_def)
next
  case (heartbeat used s send l)
  then show ?case by (simp add: requests_ok_def)
next
  case (release_timer used s cid)
  then show ?case by (simp add: requests_ok_def release_timer_def)
next
  case (start_heartbeat used s now l u q i)
  then show ?case by (simp add: requests_ok_def lm_startHeartbeat_def)
next
  case (slot used s u)
  then show ?case by (simp add: requests_ok_def handleSlotAvailable_def lm_emit_def)
qed (simp_all add: request_requests response_requests shutdown_requests)

text \<open>
  C36. Every lease request is answered at most once: in every reachable state each request
  that was made is either pending, with its timer armed, or resolved exactly once, by the
  response, the timer, the failure to send or the shutdown.
\<close>

theorem lease_requests_settle_once:
  assumes "lm_reachable c w used s"
  shows "distinct (map fst (lm_resolved s)) \<and> set (lm_timers s) = set (lm_pendingRequests s)
     \<and> set (lm_pendingRequests s) \<inter> fst ` set (lm_resolved s) = {}
     \<and> set (lm_pendingRequests s) \<union> fst ` set (lm_resolved s) = used"
  using reachable_requests [OF assms] unfolding requests_ok_def by blast

theorem lease_requests_settle_once_witness:
  "\<exists>s. lm_reachable sample_lease_config () {''c1'', ''c2''} s \<and> lm_resolved s = [(''c1'', Granted ''l1'')]
     \<and> lm_pendingRequests s = [''c2''] \<and> lm_timers s = [''c2''] \<and> distinct (map fst (lm_resolved s))"
proof -
  let ?s1 = "requestLease (flaky_relay True) ''c1'' [] ''o/r#1'' ''o/r#1'' (new_lease_manager sample_lease_config ())"
  let ?s2 = "requestLease (flaky_relay True) ''c2'' [] ''o/r#2'' ''o/r#2'' ?s1"
  let ?m = "\<lparr> ls_correlationId = ''c1'', ls_status = St_granted, ls_leaseId = Some ''l1'', ls_reason = None, ls_limit = None,
              ls_message = None \<rparr>"
  let ?s3 = "handleLeaseResponse ?m ?s2"
  have r: "lm_reachable sample_lease_config () {''c2'', ''c1''} ?s3"
    by (intro lm_reachable.response lm_reachable.request lm_reachable.start) simp_all
  moreover have "lm_resolved ?s3 = [(''c1'', Granted ''l1'')] \<and> lm_pendingRequests ?s3 = [''c2''] \<and> lm_timers ?s3 = [''c2'']"
    by (simp add: requestLease_def new_lease_manager_def flaky_relay_def lease_ops handleLeaseResponse_def sadd_def
        response_result_def)
  ultimately show ?thesis using lease_requests_settle_once [OF r] by (intro exI [of _ ?s3]) (simp add: insert_commute)
qed

end
