(* ===== verification/WorkerDispatcher.thy ===== *)
theory WorkerDispatcher
  imports InMemoryQueue LeaseManager
begin

text \<open>
  The worker dispatcher (\<open>packages/orchestrator/src/services/worker-dispatcher.ts\<close>) over a queue
  with the interface \<open>queue_manager\<close> and a lease manager, with heartbeats kept in memory
  (the branch of the code for \<open>redis === null\<close>). A poll has three turns, since it awaits the
  claim and the lease; polls in flight and running handlers are part of the state, so turns
  can interleave. The handler's outcome and the answers of the cloud are parameters.
\<close>

section \<open>State\<close>

record dispatch_config =
  dc_pollIntervalMs :: int
  dc_heartbeatTtlMs :: int
  dc_heartbeatCheckIntervalMs :: int
  dc_shutdownTimeoutMs :: int
  dc_denialResumeMs :: int

text \<open>A poll that awaits: the claim of an item, or the lease for a claimed item.\<close>

datatype poll =
    Claiming string
  | Leasing string string queue_item

record ('q, 'w) dispatcher =
  wd_config :: dispatch_config
  wd_queue :: 'q
  wd_activeWorkers :: "(string, queue_item) jmap"
  wd_heartbeatTimestamps :: "(string, int) jmap"
  wd_aborting :: bool
  wd_started :: bool
  wd_leaseManager :: "'w lease_manager option"
  wd_workerLeases :: "(string, string) jmap"
  wd_pollingPaused :: bool
  wd_denialResumeTimer :: bool
  wd_polls :: "poll list"
  wd_running :: "(string, queue_item) jmap"

definition new_dispatcher :: "dispatch_config \<Rightarrow> 'q \<Rightarrow> ('q, 'w) dispatcher" where
  "new_dispatcher c q =
     \<lparr> wd_config = c, wd_queue = q, wd_activeWorkers = [], wd_heartbeatTimestamps = [], wd_aborting = False,
       wd_started = False, wd_leaseManager = None, wd_workerLeases = [], wd_pollingPaused = False,
       wd_denialResumeTimer = False, wd_polls = [], wd_running = [] \<rparr>"

definition on_queue :: "('q, 'a) js \<Rightarrow> (('q, 'w) dispatcher, 'a) js" where
  "on_queue f s = (case f (wd_queue s) of (r, q) \<Rightarrow> (r, s\<lparr> wd_queue := q \<rparr>))"

definition on_lease :: "('w lease_manager \<Rightarrow> 'w lease_manager) \<Rightarrow> ('q, 'w) dispatcher \<Rightarrow> ('q, 'w) dispatcher" where
  "on_lease f s = s\<lparr> wd_leaseManager := map_option f (wd_leaseManager s) \<rparr>"

text \<open>\<open>try { ... } finally { ... }\<close> with a last part that does not throw.\<close>

definition cfinally :: "('s, 'a) js \<Rightarrow> ('s \<Rightarrow> 's) \<Rightarrow> ('s, 'a) js" where
  "cfinally m f s = (case m s of (r, s') \<Rightarrow> (r, f s'))"

section \<open>Heartbeats\<close>

definition wd_startHeartbeat :: "int \<Rightarrow> string \<Rightarrow> ('q, 'w) dispatcher \<Rightarrow> ('q, 'w) dispatcher" where
  "wd_startHeartbeat now workerId s =
     s\<lparr> wd_heartbeatTimestamps := jset workerId now (wd_heartbeatTimestamps s) \<rparr>"

text \<open>The callback of the interval; \<open>clearInterval\<close> comes with \<open>clearHeartbeat\<close> everywhere.\<close>

definition heartbeat_tick :: "int \<Rightarrow> string \<Rightarrow> ('q, 'w) dispatcher \<Rightarrow> ('q, 'w) dispatcher" where
  "heartbeat_tick now workerId s =
     s\<lparr> wd_heartbeatTimestamps := jset workerId now (wd_heartbeatTimestamps s) \<rparr>"

definition isHeartbeatAlive :: "int \<Rightarrow> string \<Rightarrow> ('q, 'w) dispatcher \<Rightarrow> bool" where
  "isHeartbeatAlive now workerId s =
     (case jget (wd_heartbeatTimestamps s) workerId of
        None \<Rightarrow> False
      | Some lastHeartbeat \<Rightarrow> now - lastHeartbeat < dc_heartbeatTtlMs (wd_config s))"

definition clearHeartbeat :: "string \<Rightarrow> ('q, 'w) dispatcher \<Rightarrow> ('q, 'w) dispatcher" where
  "clearHeartbeat workerId s = s\<lparr> wd_heartbeatTimestamps := jdel workerId (wd_heartbeatTimestamps s) \<rparr>"

section \<open>Polling\<close>

definition pausePolling :: "('q, 'w) dispatcher \<Rightarrow> ('q, 'w) dispatcher" where
  "pausePolling s = s\<lparr> wd_pollingPaused := True, wd_denialResumeTimer := True \<rparr>"

text \<open>\<open>Math.min(1, limit)\<close>, or 1 without a limit.\<close>

definition maxWorkers :: "('q, 'w) dispatcher \<Rightarrow> int" where
  "maxWorkers s =
     (case wd_leaseManager s of
        None \<Rightarrow> 1
      | Some lm \<Rightarrow> (case lm_userTierLimit lm of None \<Rightarrow> 1 | Some n \<Rightarrow> min 1 n))"

definition cluster_rejected :: "('q, 'w) dispatcher \<Rightarrow> bool" where
  "cluster_rejected s = (case wd_leaseManager s of None \<Rightarrow> False | Some lm \<Rightarrow> lm_clusterRejected lm)"

text \<open>The first turn of \<open>pollOnce\<close>, up to awaiting the claim. \<open>w\<close> is \<open>randomUUID()\<close>.\<close>

definition poll_begin :: "string \<Rightarrow> ('q, 'w) dispatcher \<Rightarrow> ('q, 'w) dispatcher" where
  "poll_begin w s =
     (if wd_pollingPaused s then s
      else if cluster_rejected s then s
      else if int (length (wd_activeWorkers s)) \<ge> maxWorkers s then s
      else s\<lparr> wd_polls := wd_polls s @ [Claiming w] \<rparr>)"

definition resumePolling :: "string \<Rightarrow> ('q, 'w) dispatcher \<Rightarrow> ('q, 'w) dispatcher" where
  "resumePolling w s =
     (let s1 = s\<lparr> wd_denialResumeTimer := False \<rparr>
      in if \<not> wd_pollingPaused s1 then s1 else poll_begin w (s1\<lparr> wd_pollingPaused := False \<rparr>))"

text \<open>The end of \<open>pollOnce\<close>: the worker is started and registered.\<close>

definition dispatch_worker :: "int \<Rightarrow> string \<Rightarrow> queue_item \<Rightarrow> ('q, 'w) dispatcher \<Rightarrow> ('q, 'w) dispatcher" where
  "dispatch_worker now w item s =
     (let s1 = wd_startHeartbeat now w s
      in s1\<lparr> wd_running := jset w item (wd_running s1), wd_activeWorkers := jset w item (wd_activeWorkers s1) \<rparr>)"

definition end_poll :: "poll \<Rightarrow> ('q, 'w) dispatcher \<Rightarrow> ('q, 'w) dispatcher" where
  "end_poll p s = s\<lparr> wd_polls := remove1 p (wd_polls s) \<rparr>"

text \<open>
  The second turn: claim an item and, with a lease manager, request a lease for it. \<open>cid\<close> is
  the correlation id drawn by \<open>requestLease\<close>.
\<close>

definition poll_claim ::
    "'q queue_manager \<Rightarrow> 'w relay \<Rightarrow> int \<Rightarrow> string \<Rightarrow> string \<Rightarrow> (('q, 'w) dispatcher, unit) js" where
  "poll_claim Q send now w cid =
     cbind (cmod (end_poll (Claiming w))) (\<lambda>_.
     cbind (on_queue (qm_claim Q now w)) (\<lambda>r.
       case r of
         None \<Rightarrow> cret ()
       | Some item \<Rightarrow>
           cmod (\<lambda>s.
             if wd_leaseManager s = None then dispatch_worker now w item s
             else
               (let s1 = on_lease (requestLease send cid (default_to [] (qi_userId item)) (buildItemKey item) (buildItemKey item)) s
                in s1\<lparr> wd_polls := wd_polls s1 @ [Leasing w cid item] \<rparr>))))"

text \<open>The third turn: the lease request has been resolved.\<close>

definition poll_lease ::
    "'q queue_manager \<Rightarrow> int \<Rightarrow> string \<Rightarrow> string \<Rightarrow> queue_item \<Rightarrow> lease_request_result \<Rightarrow> (('q, 'w) dispatcher, unit) js" where
  "poll_lease Q now w cid item result =
     cbind (cmod (end_poll (Leasing w cid item))) (\<lambda>_.
       case result of
         Denied reason \<Rightarrow> cbind (on_queue (qm_release Q now w item)) (\<lambda>_. cmod pausePolling)
       | Errored message \<Rightarrow> on_queue (qm_release Q now w item)
       | Timed_out \<Rightarrow> cmod (dispatch_worker now w item)
       | Granted leaseId \<Rightarrow>
           cmod (\<lambda>s.
             let s1 = on_lease (lm_startHeartbeat now leaseId (default_to [] (qi_userId item)) (buildItemKey item) w) s
             in dispatch_worker now w item (s1\<lparr> wd_workerLeases := jset w leaseId (wd_workerLeases s1) \<rparr>)))"

text \<open>
  The rest of a poll that has begun, when its turns follow each other; \<open>answer\<close> is what the
  lease manager resolves the request with.
\<close>

definition finish_poll ::
    "'q queue_manager \<Rightarrow> 'w relay \<Rightarrow> int \<Rightarrow> string \<Rightarrow> string \<Rightarrow> lease_request_result \<Rightarrow> (('q, 'w) dispatcher, unit) js" where
  "finish_poll Q send now w cid answer s =
     (if Claiming w \<notin> set (wd_polls s) then (Inr (), s)
      else
        cbind (poll_claim Q send now w cid) (\<lambda>_ s2.
          case find (\<lambda>p. case p of Leasing w' _ _ \<Rightarrow> w' = w | _ \<Rightarrow> False) (wd_polls s2) of
            Some (Leasing _ c item) \<Rightarrow> poll_lease Q now w c item answer s2
          | _ \<Rightarrow> (Inr (), s2)) s)"

definition pollOnce ::
    "'q queue_manager \<Rightarrow> 'w relay \<Rightarrow> int \<Rightarrow> string \<Rightarrow> string \<Rightarrow> lease_request_result \<Rightarrow> (('q, 'w) dispatcher, unit) js" where
  "pollOnce Q send now w cid answer s = finish_poll Q send now w cid answer (poll_begin w s)"

section \<open>Workers\<close>

datatype handler_outcome =
    Completed_result "queue_item option"
  | Failed_terminal
  | Threw js_error

text \<open>The \<open>finally\<close> part of \<open>runWorker\<close>. \<open>rid\<close> is the id of the release message.\<close>

definition worker_cleanup :: "'w relay \<Rightarrow> string \<Rightarrow> string \<Rightarrow> ('q, 'w) dispatcher \<Rightarrow> ('q, 'w) dispatcher" where
  "worker_cleanup send rid w s =
     (let s1 = clearHeartbeat w s;
          s2 = (case jget (wd_workerLeases s1) w of
                  Some leaseId \<Rightarrow>
                    if leaseId \<noteq> [] \<and> wd_leaseManager s1 \<noteq> None
                    then (on_lease (releaseLease send rid leaseId) s1)\<lparr> wd_workerLeases := jdel w (wd_workerLeases s1) \<rparr>
                    else s1
                | None \<Rightarrow> s1)
      in s2\<lparr> wd_activeWorkers := jdel w (wd_activeWorkers s2), wd_running := jdel w (wd_running s2) \<rparr>)"

text \<open>
  \<open>runWorker\<close> from the moment the handler's promise settles. Only the queue calls can throw
  here: the failure handler, the call after a re-arm and its enqueue are caught.
\<close>

definition runWorker ::
    "'q queue_manager \<Rightarrow> 'w relay \<Rightarrow> int \<Rightarrow> string \<Rightarrow> string \<Rightarrow> queue_item \<Rightarrow> handler_outcome
       \<Rightarrow> (('q, 'w) dispatcher, unit) js" where
  "runWorker Q send now rid w item outcome =
     cfinally
       (ctry
         (case outcome of
            Threw e \<Rightarrow> cthrow e
          | Failed_terminal \<Rightarrow> on_queue (qm_complete Q w item)
          | Completed_result post \<Rightarrow>
              cbind (on_queue (qm_complete Q w item)) (\<lambda>_.
                case post of
                  None \<Rightarrow> cret ()
                | Some rearmItem \<Rightarrow>
                    ctry (cbind (on_queue (qm_enqueueIfAbsent Q now rearmItem)) (\<lambda>_. cret ())) (\<lambda>_. cret ())))
         (\<lambda>e. on_queue (qm_release Q now w item)))
       (worker_cleanup send rid w)"

section \<open>Events of the lease manager\<close>

definition worker_of_lease :: "string \<Rightarrow> ('q, 'w) dispatcher \<Rightarrow> string option" where
  "worker_of_lease leaseId s = map_option fst (find (\<lambda>(wid, l). l = leaseId) (wd_workerLeases s))"

definition handleLeaseExpired :: "'q queue_manager \<Rightarrow> int \<Rightarrow> string \<Rightarrow> (('q, 'w) dispatcher, unit) js" where
  "handleLeaseExpired Q now leaseId s =
     (case worker_of_lease leaseId s of
        None \<Rightarrow> (Inr (), s)
      | Some target \<Rightarrow>
          if target = [] then (Inr (), s)
          else
            (case jget (wd_activeWorkers s) target of
               None \<Rightarrow> (Inr (), s)
             | Some item \<Rightarrow>
                 (let s1 = clearHeartbeat target s;
                      s2 = s1\<lparr> wd_workerLeases := jdel target (wd_workerLeases s1),
                               wd_activeWorkers := jdel target (wd_activeWorkers s1) \<rparr>
                  in on_queue (qm_requeueForResume Q now target item) s2)))"

definition setLeaseManager :: "'w lease_manager \<Rightarrow> ('q, 'w) dispatcher \<Rightarrow> ('q, 'w) dispatcher" where
  "setLeaseManager manager s =
     s\<lparr> wd_leaseManager := Some (lm_on En_expired 1 (lm_on En_slot 0 manager)) \<rparr>"

text \<open>A tick of a lease's interval together with the dispatcher's reaction to what it emits.\<close>

definition lease_tick :: "'q queue_manager \<Rightarrow> 'w relay \<Rightarrow> int \<Rightarrow> string \<Rightarrow> (('q, 'w) dispatcher, unit) js" where
  "lease_tick Q send now leaseId s =
     (case wd_leaseManager s of
        None \<Rightarrow> (Inr (), s)
      | Some lm \<Rightarrow>
          (let lm' = sendHeartbeat send leaseId lm; s1 = s\<lparr> wd_leaseManager := Some lm' \<rparr>
           in if (\<exists>c\<in>set (drop (length (lm_calls lm)) (lm_calls lm')). fst c = 1)
              then handleLeaseExpired Q now leaseId s1 else (Inr (), s1)))"

section \<open>Reaping and stopping\<close>

definition reap_one :: "'q queue_manager \<Rightarrow> int \<Rightarrow> string \<times> queue_item \<Rightarrow> (('q, 'w) dispatcher, unit) js" where
  "reap_one Q now wi s =
     (case wi of (w, item) \<Rightarrow>
        if isHeartbeatAlive now w s then (Inr (), s)
        else
          ctry (cbind (cmod (clearHeartbeat w)) (\<lambda>_.
                cbind (on_queue (qm_release Q now w item)) (\<lambda>_.
                cmod (\<lambda>s. s\<lparr> wd_activeWorkers := jdel w (wd_activeWorkers s) \<rparr>))))
            (\<lambda>_. cret ()) s)"

definition reapStaleWorkers :: "'q queue_manager \<Rightarrow> int \<Rightarrow> (('q, 'w) dispatcher, unit) js" where
  "reapStaleWorkers Q now s = cfor (wd_activeWorkers s) (reap_one Q now) s"

text \<open>One round of \<open>reaperLoop\<close>; rejections of the sweeps are caught.\<close>

definition reaper_round :: "'q queue_manager \<Rightarrow> int \<Rightarrow> (('q, 'w) dispatcher, unit) js" where
  "reaper_round Q now =
     ctry (cbind (reapStaleWorkers Q now) (\<lambda>_.
           cbind (ctry (cbind (on_queue (qm_reapOrphanClaims Q now)) (\<lambda>_. cret ())) (\<lambda>_. cret ())) (\<lambda>_.
           ctry (cbind (on_queue (qm_reconcileInFlight Q now)) (\<lambda>_. cret ())) (\<lambda>_. cret ()))))
       (\<lambda>_. cret ())"

text \<open>\<open>start\<close> up to the loops: the boot sweep of the queue.\<close>

definition wd_start :: "'q queue_manager \<Rightarrow> int \<Rightarrow> (('q, 'w) dispatcher, unit) js" where
  "wd_start Q now s =
     (if wd_started s then (Inr (), s)
      else ctry (cbind (on_queue (qm_reconcileInFlight Q now)) (\<lambda>_. cret ())) (\<lambda>_. cret ())
             (s\<lparr> wd_started := True, wd_aborting := False \<rparr>))"

text \<open>
  \<open>stop\<close> after the wait for the workers: what is still active is released.
\<close>

definition release_remaining :: "'q queue_manager \<Rightarrow> int \<Rightarrow> string \<times> queue_item \<Rightarrow> (('q, 'w) dispatcher, unit) js" where
  "release_remaining Q now wi = ctry (on_queue (qm_release Q now (fst wi) (snd wi))) (\<lambda>_. cret ())"

definition wd_stop :: "'q queue_manager \<Rightarrow> int \<Rightarrow> (('q, 'w) dispatcher, unit) js" where
  "wd_stop Q now s =
     (if \<not> wd_started s \<or> wd_aborting s then (Inr (), s)
      else
        (let s1 = s\<lparr> wd_aborting := True, wd_denialResumeTimer := False \<rparr>
         in cbind (cfor (wd_activeWorkers s1) (release_remaining Q now)) (\<lambda>_.
            cmod (\<lambda>s. s\<lparr> wd_activeWorkers := [] \<rparr>)) s1))"

definition wd_getActiveWorkerCount :: "('q, 'w) dispatcher \<Rightarrow> nat" where
  "wd_getActiveWorkerCount s = length (wd_activeWorkers s)"

definition isRunning :: "('q, 'w) dispatcher \<Rightarrow> bool" where
  "isRunning s = wd_started s"

lemmas dispatcher_ops = on_queue_def on_lease_def end_poll_def dispatch_worker_def wd_startHeartbeat_def clearHeartbeat_def

section \<open>One job at a time\<close>

text \<open>
  The turns of the dispatcher in any order. With \<open>overlap\<close> a poll may begin while another one
  awaits, which the code allows when a resume triggers a poll beside the loop's.
\<close>

inductive wd_step :: "'q queue_manager \<Rightarrow> 'w relay \<Rightarrow> bool \<Rightarrow> ('q, 'w) dispatcher \<Rightarrow> ('q, 'w) dispatcher \<Rightarrow> bool"
  for Q send overlap where
  loop_poll: "overlap \<or> wd_polls s = [] \<Longrightarrow> wd_step Q send overlap s (poll_begin w s)"
| resume: "overlap \<or> wd_polls s = [] \<Longrightarrow> wd_step Q send overlap s (resumePolling w s)"
| claim: "Claiming w \<in> set (wd_polls s) \<Longrightarrow> wd_step Q send overlap s (snd (poll_claim Q send now w cid s))"
| lease: "Leasing w cid item \<in> set (wd_polls s) \<Longrightarrow> wd_step Q send overlap s (snd (poll_lease Q now w cid item r s))"
| worker: "jget (wd_running s) w = Some item \<Longrightarrow> wd_step Q send overlap s (snd (runWorker Q send now rid w item res s))"
| lease_beat: "wd_step Q send overlap s (snd (lease_tick Q send now l s))"
| beat: "wd_step Q send overlap s (heartbeat_tick now w s)"
| reap: "wd_step Q send overlap s (snd (reaper_round Q now s))"
| stop: "wd_step Q send overlap s (snd (wd_stop Q now s))"

definition busy :: "('q, 'w) dispatcher \<Rightarrow> nat" where
  "busy s = length (wd_activeWorkers s) + length (wd_polls s)"

lemma length_jset: "length (jset k v m) \<le> Suc (length m)"
  by (induction m) auto

lemma length_jdel: "length (jdel k m) \<le> length m"
  by (simp add: AList.delete_eq)

lemma on_queue_busy [simp]: "on_queue f s = (r, s') \<Longrightarrow> wd_activeWorkers s' = wd_activeWorkers s \<and> wd_polls s' = wd_polls s"
  by (auto simp: on_queue_def split: prod.splits)

lemma maxWorkers_le_1: "maxWorkers s \<le> 1"
  by (simp add: maxWorkers_def split: option.split)

lemma begin_busy:
  assumes "wd_polls s = []" and "busy s \<le> 1"
  shows "busy (poll_begin w s) \<le> 1"
proof (cases "poll_begin w s = s")
  case False
  then have "int (length (wd_activeWorkers s)) < maxWorkers s" by (auto simp: poll_begin_def split: if_splits)
  with maxWorkers_le_1 [of s] have "int (length (wd_activeWorkers s)) < 1" by linarith
  then have "wd_activeWorkers s = []" by simp
  with assms(1) show ?thesis by (simp add: poll_begin_def busy_def)
qed (use assms in simp)

lemma dispatch_busy: "busy (dispatch_worker now w item s) \<le> Suc (busy s)"
  using length_jset [of w item "wd_activeWorkers s"] by (simp add: busy_def dispatcher_ops Let_def)

lemma end_poll_busy: "p \<in> set (wd_polls s) \<Longrightarrow> Suc (busy (end_poll p s)) = busy s"
  using length_pos_if_in_set [of p "wd_polls s"] by (simp add: busy_def end_poll_def length_remove1)

lemma claim_busy:
  assumes "Claiming w \<in> set (wd_polls s)"
  shows "busy (snd (poll_claim Q send now w cid s)) \<le> busy s"
proof -
  obtain r s1 where q: "on_queue (qm_claim Q now w) (end_poll (Claiming w) s) = (r, s1)" by fastforce
  have b: "Suc (busy s1) = busy s"
    using on_queue_busy [OF q] end_poll_busy [OF assms] by (simp add: busy_def)
  have "busy (dispatch_worker now w item s1) \<le> busy s" for item
    using dispatch_busy [of now w item s1] b by simp
  with b q show ?thesis
    by (auto simp: poll_claim_def comp_simps Let_def busy_def on_lease_def split: sum.splits option.splits)
qed

lemma lease_busy:
  assumes "Leasing w cid item \<in> set (wd_polls s)"
  shows "busy (snd (poll_lease Q now w cid item r s)) \<le> busy s"
proof -
  let ?s = "end_poll (Leasing w cid item) s"
  have b: "Suc (busy ?s) = busy s" by (rule end_poll_busy [OF assms])
  have d: "busy t = busy ?s \<Longrightarrow> busy (dispatch_worker now w item t) \<le> busy s" for t
    using dispatch_busy [of now w item t] b by simp
  obtain x s1 where q: "on_queue (qm_release Q now w item) ?s = (x, s1)" by fastforce
  have "busy s1 = busy ?s" using on_queue_busy [OF q] by (simp add: busy_def)
  with b q d [of ?s] d [of "(on_lease f ?s)\<lparr> wd_workerLeases := l \<rparr>" for f l] show ?thesis
    by (cases r) (auto simp: poll_lease_def comp_simps Let_def busy_def on_lease_def pausePolling_def split: sum.splits)
qed

lemma cleanup_busy: "busy (worker_cleanup send rid w s) \<le> busy s"
  using length_jdel [of w "wd_activeWorkers s"]
  by (auto simp: worker_cleanup_def busy_def dispatcher_ops Let_def split: option.split)

text \<open>A computation that does not make the dispatcher busier.\<close>

definition calm :: "(('q, 'w) dispatcher, 'a) js \<Rightarrow> bool" where
  "calm m \<longleftrightarrow> (\<forall>s. busy (snd (m s)) \<le> busy s)"

lemma calm_intros:
  "calm (on_queue f)" "calm (cret x)" "calm (cthrow e)"
  "calm m \<Longrightarrow> (\<And>x. calm (h x)) \<Longrightarrow> calm (cbind m h)"
  "calm n \<Longrightarrow> (\<And>e. calm (k e)) \<Longrightarrow> calm (ctry n k)"
  "(\<And>s. busy (g s) \<le> busy s) \<Longrightarrow> calm (cmod g)"
proof -
  show "calm (on_queue f)" unfolding calm_def busy_def by (metis le_refl on_queue_busy prod.collapse)
  show "calm m \<Longrightarrow> (\<And>x. calm (h x)) \<Longrightarrow> calm (cbind m h)"
    by (auto simp: calm_def comp_simps split: prod.split sum.split) (metis order_trans snd_conv)+
  show "calm n \<Longrightarrow> (\<And>e. calm (k e)) \<Longrightarrow> calm (ctry n k)"
    by (auto simp: calm_def comp_simps split: prod.split sum.split) (metis order_trans snd_conv)+
qed (simp_all add: calm_def comp_simps)

lemma calm_cfor: "(\<And>x. calm (body x)) \<Longrightarrow> calm (cfor xs body)"
  by (induction xs) (auto intro!: calm_intros)

lemma calm_finally:
  assumes "calm m" and "\<And>s. busy (f s) \<le> busy s"
  shows "calm (cfinally m f)"
proof -
  have "busy (f (snd (m s))) \<le> busy s" for s
    using assms(1) assms(2) [of "snd (m s)"] unfolding calm_def by (meson order_trans)
  then show ?thesis by (simp add: calm_def cfinally_def split: prod.split) (metis snd_conv)
qed

lemma clear_busy [simp]: "busy (clearHeartbeat w s) = busy s"
  by (simp add: busy_def clearHeartbeat_def)

lemma calm_at: "calm m \<Longrightarrow> busy (snd (m s)) \<le> busy s"
  by (simp add: calm_def)

lemma drop_worker_busy: "busy (s\<lparr> wd_activeWorkers := jdel v (wd_activeWorkers s) \<rparr>) \<le> busy s"
  using length_jdel [of v "wd_activeWorkers s"] by (simp add: busy_def)

lemma calm_runWorker: "calm (runWorker Q send now rid w item res)"
  unfolding runWorker_def
  by (intro calm_finally cleanup_busy calm_intros) (auto intro!: calm_intros split: handler_outcome.split option.split)

lemma calm_reap_one: "calm (reap_one Q now wi)"
proof -
  have "calm (ctry (cbind (cmod (clearHeartbeat v)) (\<lambda>_. cbind (on_queue (qm_release Q now v item)) (\<lambda>_.
              cmod (\<lambda>s. s\<lparr> wd_activeWorkers := jdel v (wd_activeWorkers s) \<rparr>)))) (\<lambda>_. cret ()))" for v item
    by (intro calm_intros drop_worker_busy) simp_all
  then show ?thesis by (auto simp: calm_def reap_one_def split: prod.split)
qed

lemma calm_reapStaleWorkers: "calm (reapStaleWorkers Q now)"
  unfolding calm_def reapStaleWorkers_def by (intro allI calm_at calm_cfor calm_reap_one)

lemma calm_reaper_round: "calm (reaper_round Q now)"
  unfolding reaper_round_def by (intro calm_intros calm_reapStaleWorkers)

lemma calm_wd_stop: "calm (wd_stop Q now)"
  unfolding calm_def
proof
  fix s :: "('a, 'b) dispatcher"
  have c: "calm (cbind (cfor xs (release_remaining Q now)) (\<lambda>_. cmod (\<lambda>s. s\<lparr> wd_activeWorkers := [] \<rparr>)))" for xs
    unfolding release_remaining_def by (intro calm_intros calm_cfor) (simp add: busy_def)
  show "busy (snd (wd_stop Q now s)) \<le> busy s"
    using calm_at [OF c, of "wd_activeWorkers s" "s\<lparr> wd_aborting := True, wd_denialResumeTimer := False \<rparr>"]
    by (simp add: wd_stop_def Let_def busy_def)
qed

lemma calm_handleLeaseExpired: "calm (handleLeaseExpired Q now l)"
proof -
  have "busy (snd (on_queue f ((clearHeartbeat t s)\<lparr> wd_workerLeases := u, wd_activeWorkers := jdel t (wd_activeWorkers s) \<rparr>))) \<le> busy s"
    for f t u and s :: "('q, 'w) dispatcher"
    using calm_at [OF calm_intros(1), of f "(clearHeartbeat t s)\<lparr> wd_workerLeases := u, wd_activeWorkers := jdel t (wd_activeWorkers s) \<rparr>"]
      length_jdel [of t "wd_activeWorkers s"] by (simp add: busy_def clearHeartbeat_def)
  then show ?thesis by (auto simp: calm_def handleLeaseExpired_def Let_def clearHeartbeat_def split: option.split)
qed

lemma calm_lease_tick: "calm (lease_tick Q send now l)"
proof -
  have "busy (snd (handleLeaseExpired Q now l (s\<lparr> wd_leaseManager := x \<rparr>))) \<le> busy s" for s x
    using calm_at [OF calm_handleLeaseExpired, of Q now l "s\<lparr> wd_leaseManager := x \<rparr>"] by (simp add: busy_def)
  then show ?thesis by (auto simp: calm_def lease_tick_def Let_def busy_def split: option.split)
qed

lemmas calm_operations = calm_runWorker calm_reaper_round calm_wd_stop calm_lease_tick

lemma step_busy:
  assumes "wd_step Q send False s s'" and "busy s \<le> 1"
  shows "busy s' \<le> 1"
  using assms(1)
proof (cases rule: wd_step.cases)
  case (loop_poll w)
  then show ?thesis using begin_busy assms(2) by simp
next
  case (resume w)
  let ?s1 = "s\<lparr> wd_denialResumeTimer := False \<rparr>" and ?s2 = "s\<lparr> wd_denialResumeTimer := False, wd_pollingPaused := False \<rparr>"
  have "busy ?s1 = busy s" "busy ?s2 = busy s" by (simp_all add: busy_def)
  with resume begin_busy [of ?s2 w] assms(2) show ?thesis by (simp add: resumePolling_def Let_def)
next
  case (claim w now cid)
  then show ?thesis using claim_busy [OF claim(2), of Q send now cid] assms(2) by simp
next
  case (lease w cid item now r)
  then show ?thesis using lease_busy [OF lease(2), of Q now r] assms(2) by simp
next
  case (worker w item now rid res)
  then show ?thesis using calm_at [OF calm_runWorker, of Q send now rid w item res s] assms(2) by simp
next
  case (lease_beat now l)
  then show ?thesis using calm_at [OF calm_lease_tick, of Q send now l s] assms(2) by simp
next
  case (beat now w)
  then show ?thesis using assms(2) by (simp add: heartbeat_tick_def busy_def)
next
  case (reap now)
  then show ?thesis using calm_at [OF calm_reaper_round, of Q now s] assms(2) by simp
next
  case (stop now)
  then show ?thesis using calm_at [OF calm_wd_stop, of Q now s] assms(2) by simp
qed

lemma run_busy: "(wd_step Q send False)\<^sup>*\<^sup>* s s' \<Longrightarrow> busy s \<le> 1 \<Longrightarrow> busy s' \<le> 1"
  by (induction rule: rtranclp_induct) (auto dest: step_busy)


definition sample_dispatch_config :: dispatch_config where
  "sample_dispatch_config =
     \<lparr> dc_pollIntervalMs = 5000, dc_heartbeatTtlMs = 30000, dc_heartbeatCheckIntervalMs = 15000,
       dc_shutdownTimeoutMs = 60000, dc_denialResumeMs = 60000 \<rparr>"

definition sample_queue :: "int list \<Rightarrow> memory_queue" where
  "sample_queue ns =
     (new_memory_queue None None)\<lparr> im_pending := map (\<lambda>n. sample_serialized n 0) ns,
        im_inFlightSet := map (\<lambda>n. buildItemKey (sample_item n)) ns \<rparr>"

lemma claim_sample:
  "im_claim w (sample_queue (n # ns)) =
     (Inr (Some (claimed_view (sample_serialized n 0))),
      (sample_queue (n # ns))\<lparr> im_pending := map (\<lambda>n. sample_serialized n 0) ns,
        im_claimed := [(w, [(buildItemKey (sample_item n), sample_serialized n 0)])] \<rparr>)"
  by (simp add: im_claim_def sample_queue_def new_memory_queue_def) (simp add: sample_serialized_def)

lemma first_poll:
  assumes "wd_queue s = sample_queue (n # ns)" and "wd_leaseManager s = None" and "wd_activeWorkers s = []"
    and "wd_pollingPaused s = False" and "wd_polls s = []"
  shows "wd_polls (poll_begin w s) = [Claiming w]"
    and "wd_activeWorkers (snd (poll_claim memory_queue_ops send now w cid (poll_begin w s))) =
           [(w, claimed_view (sample_serialized n 0))]"
proof -
  have b: "poll_begin w s = s\<lparr> wd_polls := [Claiming w] \<rparr>"
    using assms by (simp add: poll_begin_def cluster_rejected_def maxWorkers_def)
  then show "wd_polls (poll_begin w s) = [Claiming w]" by simp
  show "wd_activeWorkers (snd (poll_claim memory_queue_ops send now w cid (poll_begin w s))) =
           [(w, claimed_view (sample_serialized n 0))]"
    unfolding b using assms
    by (simp add: poll_claim_def cbind_def cmod_def on_queue_def memory_queue_ops_def claim_sample end_poll_def
        dispatch_worker_def wd_startHeartbeat_def Let_def)
qed


section \<open>The work of one item\<close>


lemma sample_queue_ok: "im_ok (sample_queue [n])"
  by (simp add: sample_queue_def im_ok_def im_entries_def new_memory_queue_def sorted_items_def sample_serialized_def)


section \<open>Denied leases\<close>

text \<open>A replica that works on nothing and may dispatch one job once it polls again.\<close>

definition idle :: "('q, 'w) dispatcher \<Rightarrow> bool" where
  "idle s \<longleftrightarrow> wd_polls s = [] \<and> wd_activeWorkers s = [] \<and> wd_leaseManager s \<noteq> None \<and> \<not> cluster_rejected s \<and> maxWorkers s = 1"

text \<open>A resume after a denial, and the poll it triggers, which is denied again.\<close>

definition denied_round ::
    "'q queue_manager \<Rightarrow> 'w relay \<Rightarrow> int \<times> string \<times> string \<times> string \<Rightarrow> ('q, 'w) dispatcher \<Rightarrow> ('q, 'w) dispatcher" where
  "denied_round Q send x s =
     (case x of (now, w, cid, reason) \<Rightarrow> snd (finish_poll Q send now w cid (Denied reason) (resumePolling w s)))"

lemma requestLease_limits [simp]:
  "lm_clusterRejected (requestLease send cid u i j lm) = lm_clusterRejected lm"
  "lm_userTierLimit (requestLease send cid u i j lm) = lm_userTierLimit lm"
  by (simp_all add: requestLease_def lease_ops split: prod.split sum.split)

lemma poll_claim_item:
  assumes "idle s" and "qm_claim Q now w (wd_queue s) = (Inr (Some item), q)"
  shows "poll_claim Q send now w cid (s\<lparr> wd_polls := [Claiming w] \<rparr>) =
     (Inr (), (on_lease (requestLease send cid (default_to [] (qi_userId item)) (buildItemKey item) (buildItemKey item)) s)
        \<lparr> wd_queue := q, wd_polls := [Leasing w cid item] \<rparr>)"
  using assms by (auto simp: idle_def poll_claim_def cbind_def cmod_def on_queue_def end_poll_def on_lease_def Let_def)

lemma denied_round_item:
  assumes "idle s" and "wd_pollingPaused s"
    and "qm_claim Q now w (wd_queue s) = (Inr (Some item), q)" and "qm_release Q now w item q = (Inr (), q')"
  shows "\<exists>s'. denied_round Q send (now, w, cid, reason) s = s' \<and> idle s' \<and> wd_pollingPaused s' \<and> wd_queue s' = q'
           \<and> wd_running s' = wd_running s"
proof -
  let ?r = "s\<lparr> wd_denialResumeTimer := False, wd_pollingPaused := False \<rparr>"
  have i: "idle ?r" using assms(1) by (simp add: idle_def cluster_rejected_def maxWorkers_def)
  have b: "resumePolling w s = ?r\<lparr> wd_polls := [Claiming w] \<rparr>"
    using assms(1,2) by (simp add: resumePolling_def poll_begin_def idle_def Let_def cluster_rejected_def maxWorkers_def)
  have q: "qm_claim Q now w (wd_queue ?r) = (Inr (Some item), q)" using assms(3) by simp
  show ?thesis
    using assms(1,4) unfolding denied_round_def prod.case b finish_poll_def
    by (simp add: cbind_def poll_claim_item [OF i q])
      (auto simp: poll_lease_def cbind_def cmod_def end_poll_def on_queue_def on_lease_def pausePolling_def
        idle_def cluster_rejected_def maxWorkers_def split: option.splits)
qed

lemma denied_round_empty:
  assumes "idle s" and "qm_claim Q now w (wd_queue s) = (Inr None, q)"
  shows "\<exists>s'. denied_round Q send (now, w, cid, reason) s = s' \<and> idle s' \<and> (wd_queue s' = wd_queue s \<or> wd_queue s' = q)
           \<and> wd_running s' = wd_running s"
proof -
  have b: "resumePolling w s =
     (if wd_pollingPaused s then s\<lparr> wd_denialResumeTimer := False, wd_pollingPaused := False, wd_polls := [Claiming w] \<rparr>
      else s\<lparr> wd_denialResumeTimer := False \<rparr>)"
    using assms(1) by (simp add: resumePolling_def poll_begin_def idle_def Let_def cluster_rejected_def maxWorkers_def)
  show ?thesis
    using assms unfolding denied_round_def prod.case b finish_poll_def
    by (simp add: poll_claim_def cbind_def cmod_def cret_def on_queue_def end_poll_def idle_def cluster_rejected_def maxWorkers_def)
qed

text \<open>The only item of a queue after a number of attempts, gone at the limit.\<close>

definition lone :: "string \<Rightarrow> nat \<Rightarrow> nat \<Rightarrow> places \<Rightarrow> bool" where
  "lone k limit n P \<longleftrightarrow> (if n < limit then \<exists>sc. P = [k \<mapsto> Queued n sc] else P = Map.empty)"

lemma lone_round:
  assumes "work_queue Q places ok limit" and "idle s" and "ok (wd_queue s)"
    and "lone k L n (places (wd_queue s))" and "limit (wd_queue s) = L" and "n < L \<Longrightarrow> wd_pollingPaused s"
  shows "\<exists>s'. denied_round Q send x s = s' \<and> idle s' \<and> ok (wd_queue s') \<and> lone k L (Suc n) (places (wd_queue s'))
           \<and> limit (wd_queue s') = L \<and> (Suc n < L \<longrightarrow> wd_pollingPaused s') \<and> wd_running s' = wd_running s"
proof -
  obtain now w cid reason where x: "x = (now, w, cid, reason)" by (cases x) auto
  show ?thesis
  proof (cases "n < L")
    case True
    then obtain sc where p: "places (wd_queue s) = [k \<mapsto> Queued n sc]" using assms(4) by (auto simp: lone_def)
    then have "places (wd_queue s) k = Some (Queued n sc)" by simp
    from work_queue.claim_some [OF assms(1,3) this] obtain item n' s' q where c: "qm_claim Q now w (wd_queue s) = (Inr (Some item), q)"
      "ok q" "limit q = limit (wd_queue s)" "places (wd_queue s) (buildItemKey item) = Some (Queued n' s')"
      "places q = (places (wd_queue s))(buildItemKey item \<mapsto> Held w n')" by blast
    with p have k: "buildItemKey item = k" "n' = n" by (auto split: if_splits)
    then have "places q (buildItemKey item) = Some (Held w n)" using c(5) by simp
    from work_queue.release_held [OF assms(1) c(2) this, of now] obtain q' where r: "qm_release Q now w item q = (Inr (), q')" "ok q'"
      "limit q' = limit q" "places q' = (places q)(k := after_release (limit q) (getPriorityScore now (Some Reason_retry)) n)"
      using k by auto
    from denied_round_item [OF assms(2) assms(6) [OF True] c(1) r(1)] r c(3,5) k p assms(5) show ?thesis
      unfolding x by (auto simp: lone_def after_release_def)
  next
    case False
    then have p: "places (wd_queue s) = Map.empty" using assms(4) by (simp add: lone_def)
    then obtain q where c: "qm_claim Q now w (wd_queue s) = (Inr None, q)" "ok q" "limit q = limit (wd_queue s)" "places q = Map.empty"
      using work_queue.claim_none [OF assms(1,3), of now w] by auto
    from denied_round_empty [OF assms(2) c(1), of send cid reason] show ?thesis
      unfolding x using False assms(3,5) p c(2-4) by (auto simp: lone_def)
  qed
qed

lemma lone_rounds:
  assumes "work_queue Q places ok limit"
  shows "idle s \<Longrightarrow> ok (wd_queue s) \<Longrightarrow> lone k L n (places (wd_queue s)) \<Longrightarrow> limit (wd_queue s) = L
    \<Longrightarrow> (n < L \<longrightarrow> wd_pollingPaused s)
    \<Longrightarrow> lone k L (n + length xs) (places (wd_queue (fold (denied_round Q send) xs s)))
        \<and> wd_running (fold (denied_round Q send) xs s) = wd_running s"
proof (induction xs arbitrary: s n)
  case Nil
  then show ?case by simp
next
  case (Cons x xs)
  from lone_round [OF assms Cons.prems(1-4)] Cons.prems(5) obtain s' where s': "denied_round Q send x s = s'" "idle s'" "ok (wd_queue s')"
    "lone k L (Suc n) (places (wd_queue s'))" "limit (wd_queue s') = L" "Suc n < L \<longrightarrow> wd_pollingPaused s'" "wd_running s' = wd_running s"
    by blast
  with Cons.IH [OF s'(2-6)] show ?case by simp
qed

text \<open>
  C40. On every queue that keeps the contract, each lease the cloud denies costs the claimed
  item one attempt. When the only item of the queue has been denied as often as the limit of
  attempts, it is gone from the queue although no worker ever ran it.
\<close>

theorem denied_leases_bury_item:
  assumes "work_queue Q places ok limit" and "ok (wd_queue s)" and "idle s" and "wd_pollingPaused s"
    and "places (wd_queue s) = [k \<mapsto> Queued 0 sc]" and "0 < limit (wd_queue s)"
  shows "(length xs < limit (wd_queue s) \<longrightarrow>
            (\<exists>sc'. places (wd_queue (fold (denied_round Q send) xs s)) = [k \<mapsto> Queued (length xs) sc']))
       \<and> (limit (wd_queue s) \<le> length xs \<longrightarrow> places (wd_queue (fold (denied_round Q send) xs s)) = Map.empty)
       \<and> wd_running (fold (denied_round Q send) xs s) = wd_running s"
proof -
  have "lone k (limit (wd_queue s)) 0 (places (wd_queue s))" using assms(5,6) by (auto simp: lone_def)
  from lone_rounds [OF assms(1,3,2) this, of xs send] assms(4) show ?thesis by (simp add: lone_def)
qed

theorem denied_leases_bury_item_witness:
  "\<exists>s :: (memory_queue, unit) dispatcher. im_places (wd_queue s) = [buildItemKey (sample_item 1) \<mapsto> Queued 0 0]
     \<and> im_places (wd_queue (fold (denied_round memory_queue_ops (flaky_relay True))
          [(0, ''w1'', ''c1'', ''full''), (1, ''w2'', ''c2'', ''full''), (2, ''w3'', ''c3'', ''full'')] s)) = Map.empty"
proof -
  let ?s = "(setLeaseManager (new_lease_manager sample_lease_config ()) (new_dispatcher sample_dispatch_config (sample_queue [1])))
     \<lparr> wd_pollingPaused := True \<rparr>"
  let ?xs = "[(0, ''w1'', ''c1'', ''full''), (1, ''w2'', ''c2'', ''full''), (2, ''w3'', ''c3'', ''full'')] :: (int \<times> string \<times> string \<times> string) list"
  have s: "im_ok (wd_queue ?s)" "idle ?s" "wd_pollingPaused ?s" "im_places (wd_queue ?s) = [buildItemKey (sample_item 1) \<mapsto> Queued 0 0]"
    "im_maxRetries (wd_queue ?s) = 3"
    using sample_queue_ok [of 1]
    by (simp_all add: setLeaseManager_def new_dispatcher_def idle_def cluster_rejected_def maxWorkers_def lm_on_def new_lease_manager_def
        im_places_def im_entries_def sample_queue_def new_memory_queue_def sample_serialized_def)
  have "im_places (wd_queue (fold (denied_round memory_queue_ops (flaky_relay True)) ?xs ?s)) = Map.empty"
    using denied_leases_bury_item [OF imq.work_queue_axioms s(1-4), of ?xs "flaky_relay True"] s(5) by simp
  with s(4) show ?thesis by blast
qed

section \<open>Expired leases\<close>

lemma expire_only_worker:
  assumes "wd_activeWorkers s = [(w, item)]" and "wd_workerLeases s = [(w, l)]" and "w \<noteq> []"
    and "qm_requeueForResume Q now w item (wd_queue s) = (r, q)"
  shows "handleLeaseExpired Q now l s = (r, (clearHeartbeat w s)\<lparr> wd_workerLeases := [], wd_activeWorkers := [], wd_queue := q \<rparr>)"
  using assms by (simp add: handleLeaseExpired_def worker_of_lease_def clearHeartbeat_def on_queue_def Let_def)

lemma granted_poll:
  assumes "idle s" and "\<not> wd_pollingPaused s" and "qm_claim Q now w (wd_queue s) = (Inr (Some item), q)"
  shows "\<exists>s'. pollOnce Q send now w cid (Granted l) s = (Inr (), s') \<and> wd_running s' = jset w item (wd_running s)
           \<and> wd_activeWorkers s' = [(w, item)] \<and> wd_queue s' = q"
proof -
  have b: "poll_begin w s = s\<lparr> wd_polls := [Claiming w] \<rparr>" using assms(1,2) by (simp add: poll_begin_def idle_def)
  show ?thesis
    using assms(1) unfolding pollOnce_def b finish_poll_def
    by (simp add: cbind_def poll_claim_item [OF assms(1,3)])
      (auto simp: poll_lease_def cbind_def cmod_def end_poll_def on_queue_def on_lease_def dispatch_worker_def
        wd_startHeartbeat_def idle_def Let_def)
qed

text \<open>
  When a lease expires the worker is only forgotten, not cancelled: on every queue that
  keeps the contract, the next poll of the same replica hands the same issue to a second
  worker, and the handlers of both are running.
\<close>

lemma expired_lease_runs_item_twice:
  assumes "work_queue Q places ok limit" and "ok (wd_queue s)" and "places (wd_queue s) = [buildItemKey item \<mapsto> Held w n]"
    and "wd_activeWorkers s = [(w, item)]" and "wd_workerLeases s = [(w, l)]" and "jget (wd_running s) w = Some item"
    and "w \<noteq> []" and "w' \<noteq> w" and "idle (s\<lparr> wd_activeWorkers := [] \<rparr>)" and "\<not> wd_pollingPaused s"
  shows "\<exists>s1 s2 item'. handleLeaseExpired Q now l s = (Inr (), s1) \<and> pollOnce Q send now' w' cid (Granted l') s1 = (Inr (), s2)
     \<and> jget (wd_running s2) w = Some item \<and> jget (wd_running s2) w' = Some item' \<and> buildItemKey item' = buildItemKey item
     \<and> length (wd_activeWorkers s2) = 1"
proof -
  have h: "places (wd_queue s) (buildItemKey item) = Some (Held w n)" using assms(3) by simp
  from work_queue.resume_held [OF assms(1,2) h, of now] obtain q where r: "qm_requeueForResume Q now w item (wd_queue s) = (Inr (), q)" "ok q"
    "places q = [buildItemKey item \<mapsto> Queued n (getPriorityScore now (Some Reason_resume))]"
    unfolding assms(3) fun_upd_upd by blast
  define s1 where "s1 = (clearHeartbeat w s)\<lparr> wd_workerLeases := [], wd_activeWorkers := [], wd_queue := q \<rparr>"
  have e: "handleLeaseExpired Q now l s = (Inr (), s1)" unfolding s1_def by (rule expire_only_worker [OF assms(4,5,7) r(1)])
  have i: "idle s1" "\<not> wd_pollingPaused s1" "wd_running s1 = wd_running s" "wd_queue s1 = q"
    using assms(9,10) by (simp_all add: s1_def idle_def clearHeartbeat_def cluster_rejected_def maxWorkers_def)
  have "places q (buildItemKey item) = Some (Queued n (getPriorityScore now (Some Reason_resume)))" using r(3) by simp
  from work_queue.claim_some [OF assms(1) r(2) this, of now' w'] obtain item' n' sc q' where
    c: "qm_claim Q now' w' q = (Inr (Some item'), q')" "places q (buildItemKey item') = Some (Queued n' sc)" by blast
  then have k: "buildItemKey item' = buildItemKey item" using r(3) by (auto split: if_splits)
  have "qm_claim Q now' w' (wd_queue s1) = (Inr (Some item'), q')" using c(1) i(4) by simp
  from granted_poll [OF i(1,2) this, of send cid l', unfolded i(3)] obtain s2 where
    p: "pollOnce Q send now' w' cid (Granted l') s1 = (Inr (), s2)" "wd_running s2 = jset w' item' (wd_running s)"
    "wd_activeWorkers s2 = [(w', item')]" by blast
  have "jget (wd_running s2) w = Some item" "jget (wd_running s2) w' = Some item'" "length (wd_activeWorkers s2) = 1"
    using p(2,3) assms(6,8) by simp_all
  with e p(1) k show ?thesis by blast
qed

end
