(* ===== verification/QueueRedis.thy ===== *)
theory QueueRedis
  imports QueueItems "HOL-Library.Sublist"
begin

text \<open>
  The Redis server as the queue adapter of the orchestrator uses it
  (\<open>packages/orchestrator/src/services/redis-queue-adapter.ts\<close>): a parameter, with the documented
  behaviour of its commands as the hypothesis \<open>queue_redis_laws\<close>, and a small logic for
  computations that run on a server in a known state.
\<close>

section \<open>Values\<close>

text \<open>
  The text of an item as \<open>JSON.stringify\<close> or \<open>cjson.encode\<close> write it is represented by the
  item; any other text is malformed.
\<close>

datatype payload = Item serialized_item | Malformed string

datatype rval =
    Absent
  | Rset "string set"
  | Rzset "payload \<rightharpoonup> rat"
  | Rhash "string \<rightharpoonup> payload"
  | Rstring

type_synonym redis_db = "string \<Rightarrow> rval"

text \<open>Redis deletes a key whose collection becomes empty.\<close>

definition of_set :: "string set \<Rightarrow> rval" where
  "of_set A = (if A = {} then Absent else Rset A)"

definition of_zset :: "(payload \<rightharpoonup> rat) \<Rightarrow> rval" where
  "of_zset z = (if z = Map.empty then Absent else Rzset z)"

definition of_hash :: "(string \<rightharpoonup> payload) \<Rightarrow> rval" where
  "of_hash h = (if h = Map.empty then Absent else Rhash h)"

definition as_set :: "rval \<Rightarrow> string set" where
  "as_set v = (case v of Rset A \<Rightarrow> A | _ \<Rightarrow> {})"

definition as_zset :: "rval \<Rightarrow> payload \<rightharpoonup> rat" where
  "as_zset v = (case v of Rzset z \<Rightarrow> z | _ \<Rightarrow> Map.empty)"

definition as_hash :: "rval \<Rightarrow> string \<rightharpoonup> payload" where
  "as_hash v = (case v of Rhash h \<Rightarrow> h | _ \<Rightarrow> Map.empty)"

text \<open>Values on which the commands of a type do not answer WRONGTYPE.\<close>

definition is_set :: "rval \<Rightarrow> bool" where
  "is_set v \<longleftrightarrow> v = of_set (as_set v)"

definition is_zset :: "rval \<Rightarrow> bool" where
  "is_zset v \<longleftrightarrow> v = of_zset (as_zset v)"

definition is_hash :: "rval \<Rightarrow> bool" where
  "is_hash v \<longleftrightarrow> v = of_hash (as_hash v)"

lemma rval_views [simp]:
  "as_set (of_set A) = A" "as_zset (of_zset z) = z" "as_hash (of_hash h) = h"
  "is_set (of_set A)" "is_zset (of_zset z)" "is_hash (of_hash h)"
  "is_set Absent" "is_zset Absent" "is_hash Absent"
  "as_set Absent = {}" "as_zset Absent = Map.empty" "as_hash Absent = Map.empty"
  by (simp_all add: of_set_def of_zset_def of_hash_def as_set_def as_zset_def as_hash_def is_set_def is_zset_def is_hash_def)

lemma of_absent [simp]:
  "of_set A = Absent \<longleftrightarrow> A = {}" "of_zset z = Absent \<longleftrightarrow> z = Map.empty" "of_hash h = Absent \<longleftrightarrow> h = Map.empty"
  by (simp_all add: of_set_def of_zset_def of_hash_def)

section \<open>The client\<close>

text \<open>
  A call of the client sends a command or script (\<open>q_send\<close>) and waits for the answer
  (\<open>q_reply\<close>); either can fail, so a command may have run although its call is rejected.
  The cursors of a full iteration with SCAN or SSCAN, from \<open>0\<close> up to the last one, are
  given as a list. \<open>q_cjson\<close> is what decoding and encoding again with cjson make of a value.
\<close>

record 'r queue_redis =
  q_send :: "('r, unit) js"
  q_reply :: "('r, unit) js"
  q_sismember :: "string \<Rightarrow> string \<Rightarrow> ('r, bool) js"
  q_sadd :: "string \<Rightarrow> string \<Rightarrow> ('r, unit) js"
  q_srem :: "string \<Rightarrow> string \<Rightarrow> ('r, unit) js"
  q_scursors :: "string \<Rightarrow> 'r \<Rightarrow> string list"
  q_sscan :: "string \<Rightarrow> string \<Rightarrow> ('r, string list) js"
  q_zadd :: "string \<Rightarrow> rat \<Rightarrow> payload \<Rightarrow> ('r, unit) js"
  q_zpopmin :: "string \<Rightarrow> ('r, payload option) js"
  q_zcard :: "string \<Rightarrow> ('r, nat) js"
  q_zrange :: "string \<Rightarrow> int \<Rightarrow> int \<Rightarrow> ('r, (payload \<times> rat) list) js"
  q_hset :: "string \<Rightarrow> string \<Rightarrow> payload \<Rightarrow> ('r, unit) js"
  q_hget :: "string \<Rightarrow> string \<Rightarrow> ('r, payload option) js"
  q_hdel :: "string \<Rightarrow> string \<Rightarrow> ('r, unit) js"
  q_hlen :: "string \<Rightarrow> ('r, nat) js"
  q_hkeys :: "string \<Rightarrow> ('r, string list) js"
  q_hgetall :: "string \<Rightarrow> ('r, (string \<times> payload) list) js"
  q_exists :: "string \<Rightarrow> ('r, bool) js"
  q_del :: "string \<Rightarrow> ('r, unit) js"
  q_setex :: "string \<Rightarrow> int \<Rightarrow> ('r, unit) js"
  q_cursors :: "'r \<Rightarrow> string list"
  q_scan :: "string \<Rightarrow> string \<Rightarrow> ('r, string list) js"
  q_cjson :: "json \<Rightarrow> json"

section \<open>Computations on a server\<close>

text \<open>
  From the server state \<open>r\<close>, \<open>f\<close> returns \<open>x\<close> and reaches the database \<open>d\<close>; \<open>kv\<close> is the view of
  the data and \<open>up\<close> says that the connection works.
\<close>

definition does :: "('r \<Rightarrow> redis_db) \<Rightarrow> ('r \<Rightarrow> bool) \<Rightarrow> ('r, 'a) js \<Rightarrow> 'r \<Rightarrow> 'a \<Rightarrow> redis_db \<Rightarrow> bool" where
  "does kv up f r x d \<longleftrightarrow> (\<exists>r'. f r = (Inr x, r') \<and> up r' \<and> kv r' = d)"

lemma does_ret: "up r \<Longrightarrow> does kv up (cret x) r x (kv r)"
  by (simp add: does_def cret_def)

lemma does_bind:
  assumes "does kv up f r x d" and "\<And>r'. up r' \<Longrightarrow> kv r' = d \<Longrightarrow> does kv up (g x) r' y d'"
  shows "does kv up (cbind f g) r y d'"
  using assms by (fastforce simp: does_def comp_simps)

text \<open>ZRANGE with start and stop, where negative indices count from the end.\<close>

definition zslice :: "int \<Rightarrow> int \<Rightarrow> 'a list \<Rightarrow> 'a list" where
  "zslice start stop xs =
     (let n = int (length xs); a = (if start < 0 then max 0 (n + start) else start); b = (if stop < 0 then n + stop else stop)
      in if b < a then [] else take (nat (b + 1 - a)) (drop (nat a) xs))"

lemma zslice_all [simp]: "zslice 0 (-1) xs = xs"
  by (cases xs) (simp_all add: zslice_def Let_def)

text \<open>
  The documented behaviour of the commands on a working connection. A failing connection
  changes no data by itself. ZPOPMIN takes a member of least score; a full iteration returns
  every element that is there throughout.
\<close>

definition queue_redis_laws :: "'r queue_redis \<Rightarrow> ('r \<Rightarrow> redis_db) \<Rightarrow> ('r \<Rightarrow> bool) \<Rightarrow> bool" where
  "queue_redis_laws R kv up \<longleftrightarrow>
     (\<forall>r. up r \<longrightarrow> does kv up (q_send R) r () (kv r)) \<and>
     (\<forall>r. up r \<longrightarrow> does kv up (q_reply R) r () (kv r)) \<and>
     (\<forall>r. kv (snd (q_send R r)) = kv r \<and> kv (snd (q_reply R r)) = kv r) \<and>
     (\<forall>r k x. up r \<longrightarrow> is_set (kv r k) \<longrightarrow> does kv up (q_sismember R k x) r (x \<in> as_set (kv r k)) (kv r)) \<and>
     (\<forall>r k x. up r \<longrightarrow> is_set (kv r k) \<longrightarrow>
        does kv up (q_sadd R k x) r () ((kv r)(k := of_set (insert x (as_set (kv r k)))))) \<and>
     (\<forall>r k x. up r \<longrightarrow> is_set (kv r k) \<longrightarrow>
        does kv up (q_srem R k x) r () ((kv r)(k := of_set (as_set (kv r k) - {x})))) \<and>
     (\<forall>r k z m. up r \<longrightarrow> is_zset (kv r k) \<longrightarrow>
        does kv up (q_zadd R k z m) r () ((kv r)(k := of_zset ((as_zset (kv r k))(m \<mapsto> z))))) \<and>
     (\<forall>r k. up r \<longrightarrow> kv r k = Absent \<longrightarrow> does kv up (q_zpopmin R k) r None (kv r)) \<and>
     (\<forall>r k. up r \<longrightarrow> is_zset (kv r k) \<longrightarrow> kv r k \<noteq> Absent \<longrightarrow>
        (\<exists>m z. as_zset (kv r k) m = Some z \<and> (\<forall>m' z'. as_zset (kv r k) m' = Some z' \<longrightarrow> z \<le> z')
          \<and> does kv up (q_zpopmin R k) r (Some m) ((kv r)(k := of_zset ((as_zset (kv r k))(m := None)))))) \<and>
     (\<forall>r k. up r \<longrightarrow> is_zset (kv r k) \<longrightarrow>
        (\<exists>ms. distinct (map fst ms) \<and> map_of ms = as_zset (kv r k) \<and> sorted (map snd ms)
          \<and> (\<forall>a b. does kv up (q_zrange R k a b) r (zslice a b ms) (kv r))
          \<and> does kv up (q_zcard R k) r (length ms) (kv r))) \<and>
     (\<forall>r k f p. up r \<longrightarrow> is_hash (kv r k) \<longrightarrow>
        does kv up (q_hset R k f p) r () ((kv r)(k := of_hash ((as_hash (kv r k))(f \<mapsto> p))))) \<and>
     (\<forall>r k f. up r \<longrightarrow> is_hash (kv r k) \<longrightarrow> does kv up (q_hget R k f) r (as_hash (kv r k) f) (kv r)) \<and>
     (\<forall>r k f. up r \<longrightarrow> is_hash (kv r k) \<longrightarrow>
        does kv up (q_hdel R k f) r () ((kv r)(k := of_hash ((as_hash (kv r k))(f := None))))) \<and>
     (\<forall>r k. up r \<longrightarrow> is_hash (kv r k) \<longrightarrow>
        (\<exists>es. distinct (map fst es) \<and> map_of es = as_hash (kv r k) \<and> does kv up (q_hgetall R k) r es (kv r)
          \<and> does kv up (q_hkeys R k) r (map fst es) (kv r) \<and> does kv up (q_hlen R k) r (length es) (kv r))) \<and>
     (\<forall>r k. up r \<longrightarrow> does kv up (q_exists R k) r (kv r k \<noteq> Absent) (kv r)) \<and>
     (\<forall>r k. up r \<longrightarrow> does kv up (q_del R k) r () ((kv r)(k := Absent))) \<and>
     (\<forall>r k t. up r \<longrightarrow> 0 < t \<longrightarrow> does kv up (q_setex R k t) r () ((kv r)(k := Rstring))) \<and>
     (\<forall>r c p. up r \<longrightarrow> (\<exists>ks. does kv up (q_scan R c p) r ks (kv r) \<and> (\<forall>k\<in>set ks. prefix p k \<and> kv r k \<noteq> Absent))) \<and>
     (\<forall>r k p. prefix p k \<longrightarrow> kv r k \<noteq> Absent \<longrightarrow>
        (\<exists>c\<in>set (q_cursors R r). \<forall>r' ks r''. kv r' k \<noteq> Absent \<longrightarrow> q_scan R c p r' = (Inr ks, r'') \<longrightarrow> k \<in> set ks)) \<and>
     (\<forall>r k c. up r \<longrightarrow> is_set (kv r k) \<longrightarrow>
        (\<exists>xs. does kv up (q_sscan R k c) r xs (kv r) \<and> set xs \<subseteq> as_set (kv r k))) \<and>
     (\<forall>r k x. x \<in> as_set (kv r k) \<longrightarrow>
        (\<exists>c\<in>set (q_scursors R k r). \<forall>r' xs r''. x \<in> as_set (kv r' k) \<longrightarrow> q_sscan R k c r' = (Inr xs, r'') \<longrightarrow> x \<in> set xs))"

lemma queue_redis_lawsD:
  assumes "queue_redis_laws R kv up"
  shows q_send_law: "up r \<Longrightarrow> does kv up (q_send R) r () (kv r)"
    and q_reply_law: "up r \<Longrightarrow> does kv up (q_reply R) r () (kv r)"
    and q_link_law: "kv (snd (q_send R r)) = kv r" "kv (snd (q_reply R r)) = kv r"
    and q_sismember_law: "up r \<Longrightarrow> is_set (kv r k) \<Longrightarrow> does kv up (q_sismember R k x) r (x \<in> as_set (kv r k)) (kv r)"
    and q_sadd_law: "up r \<Longrightarrow> is_set (kv r k) \<Longrightarrow>
        does kv up (q_sadd R k x) r () ((kv r)(k := of_set (insert x (as_set (kv r k)))))"
    and q_srem_law: "up r \<Longrightarrow> is_set (kv r k) \<Longrightarrow>
        does kv up (q_srem R k x) r () ((kv r)(k := of_set (as_set (kv r k) - {x})))"
    and q_zadd_law: "up r \<Longrightarrow> is_zset (kv r k) \<Longrightarrow>
        does kv up (q_zadd R k z m) r () ((kv r)(k := of_zset ((as_zset (kv r k))(m \<mapsto> z))))"
    and q_zpopmin_none: "up r \<Longrightarrow> kv r k = Absent \<Longrightarrow> does kv up (q_zpopmin R k) r None (kv r)"
    and q_zpopmin_some: "up r \<Longrightarrow> is_zset (kv r k) \<Longrightarrow> kv r k \<noteq> Absent \<Longrightarrow>
        \<exists>m z. as_zset (kv r k) m = Some z \<and> (\<forall>m' z'. as_zset (kv r k) m' = Some z' \<longrightarrow> z \<le> z')
          \<and> does kv up (q_zpopmin R k) r (Some m) ((kv r)(k := of_zset ((as_zset (kv r k))(m := None))))"
    and q_zrange_law: "up r \<Longrightarrow> is_zset (kv r k) \<Longrightarrow>
        \<exists>ms. distinct (map fst ms) \<and> map_of ms = as_zset (kv r k) \<and> sorted (map snd ms)
          \<and> (\<forall>a b. does kv up (q_zrange R k a b) r (zslice a b ms) (kv r))
          \<and> does kv up (q_zcard R k) r (length ms) (kv r)"
    and q_hset_law: "up r \<Longrightarrow> is_hash (kv r k) \<Longrightarrow>
        does kv up (q_hset R k f p) r () ((kv r)(k := of_hash ((as_hash (kv r k))(f \<mapsto> p))))"
    and q_hget_law: "up r \<Longrightarrow> is_hash (kv r k) \<Longrightarrow> does kv up (q_hget R k f) r (as_hash (kv r k) f) (kv r)"
    and q_hdel_law: "up r \<Longrightarrow> is_hash (kv r k) \<Longrightarrow>
        does kv up (q_hdel R k f) r () ((kv r)(k := of_hash ((as_hash (kv r k))(f := None))))"
    and q_hash_law: "up r \<Longrightarrow> is_hash (kv r k) \<Longrightarrow>
        \<exists>es. distinct (map fst es) \<and> map_of es = as_hash (kv r k) \<and> does kv up (q_hgetall R k) r es (kv r)
          \<and> does kv up (q_hkeys R k) r (map fst es) (kv r) \<and> does kv up (q_hlen R k) r (length es) (kv r)"
    and q_exists_law: "up r \<Longrightarrow> does kv up (q_exists R k) r (kv r k \<noteq> Absent) (kv r)"
    and q_del_law: "up r \<Longrightarrow> does kv up (q_del R k) r () ((kv r)(k := Absent))"
    and q_setex_law: "up r \<Longrightarrow> 0 < t \<Longrightarrow> does kv up (q_setex R k t) r () ((kv r)(k := Rstring))"
    and q_scan_law: "up r \<Longrightarrow> \<exists>ks. does kv up (q_scan R c pre) r ks (kv r) \<and> (\<forall>k\<in>set ks. prefix pre k \<and> kv r k \<noteq> Absent)"
    and q_scan_complete: "prefix pre k \<Longrightarrow> kv r k \<noteq> Absent \<Longrightarrow>
        \<exists>c\<in>set (q_cursors R r). \<forall>r' ks r''. kv r' k \<noteq> Absent \<longrightarrow> q_scan R c pre r' = (Inr ks, r'') \<longrightarrow> k \<in> set ks"
    and q_sscan_law: "up r \<Longrightarrow> is_set (kv r k) \<Longrightarrow> \<exists>xs. does kv up (q_sscan R k c) r xs (kv r) \<and> set xs \<subseteq> as_set (kv r k)"
    and q_sscan_complete: "x \<in> as_set (kv r k) \<Longrightarrow>
        \<exists>c\<in>set (q_scursors R k r). \<forall>r' xs r''. x \<in> as_set (kv r' k) \<longrightarrow> q_sscan R k c r' = (Inr xs, r'') \<longrightarrow> x \<in> set xs"
  using assms unfolding queue_redis_laws_def by auto

section \<open>A reference server\<close>

text \<open>A server that keeps its data in lists, whose iterations have one page.\<close>

datatype mval = Mset "string list" | Mzset "(payload, rat) jmap" | Mhash "(string, payload) jmap" | Mstring

type_synonym mem_queue_redis = "(string, mval) jmap"

definition mset_at :: "string \<Rightarrow> mem_queue_redis \<Rightarrow> string list" where
  "mset_at k r = (case jget r k of Some (Mset xs) \<Rightarrow> xs | _ \<Rightarrow> [])"

definition mzset_at :: "string \<Rightarrow> mem_queue_redis \<Rightarrow> (payload \<times> rat) list" where
  "mzset_at k r = (case jget r k of Some (Mzset z) \<Rightarrow> sort_key snd (AList.clearjunk z) | _ \<Rightarrow> [])"

definition mhash_at :: "string \<Rightarrow> mem_queue_redis \<Rightarrow> (string, payload) jmap" where
  "mhash_at k r = (case jget r k of Some (Mhash h) \<Rightarrow> AList.clearjunk h | _ \<Rightarrow> [])"

definition mem_kv :: "mem_queue_redis \<Rightarrow> redis_db" where
  "mem_kv r k =
     (case jget r k of
        None \<Rightarrow> Absent
      | Some (Mset xs) \<Rightarrow> of_set (set xs)
      | Some (Mzset z) \<Rightarrow> of_zset (map_of z)
      | Some (Mhash h) \<Rightarrow> of_hash (map_of h)
      | Some Mstring \<Rightarrow> Rstring)"

definition mem_present :: "string \<Rightarrow> mem_queue_redis \<Rightarrow> bool" where
  "mem_present k r =
     (case jget r k of
        None \<Rightarrow> False | Some (Mset xs) \<Rightarrow> xs \<noteq> [] | Some (Mzset z) \<Rightarrow> z \<noteq> [] | Some (Mhash h) \<Rightarrow> h \<noteq> [] | Some Mstring \<Rightarrow> True)"

definition mem_queue_server :: "mem_queue_redis queue_redis" where
  "mem_queue_server =
     \<lparr> q_send = cret (), q_reply = cret (),
       q_sismember = (\<lambda>k x. cget (\<lambda>r. x \<in> set (mset_at k r))),
       q_sadd = (\<lambda>k x. cmod (\<lambda>r. jset k (Mset (sadd x (mset_at k r))) r)),
       q_srem = (\<lambda>k x. cmod (\<lambda>r. jset k (Mset (sdel x (mset_at k r))) r)),
       q_scursors = (\<lambda>k r. [''0'']),
       q_sscan = (\<lambda>k c. cget (mset_at k)),
       q_zadd = (\<lambda>k z m. cmod (\<lambda>r. jset k (Mzset (jset m z (mzset_at k r))) r)),
       q_zpopmin = (\<lambda>k r. case mzset_at k r of
          [] \<Rightarrow> (Inr None, r) | e # es \<Rightarrow> (Inr (Some (fst e)), jset k (Mzset es) r)),
       q_zcard = (\<lambda>k. cget (\<lambda>r. length (mzset_at k r))),
       q_zrange = (\<lambda>k a b. cget (\<lambda>r. zslice a b (mzset_at k r))),
       q_hset = (\<lambda>k f p. cmod (\<lambda>r. jset k (Mhash (jset f p (mhash_at k r))) r)),
       q_hget = (\<lambda>k f. cget (\<lambda>r. jget (mhash_at k r) f)),
       q_hdel = (\<lambda>k f. cmod (\<lambda>r. jset k (Mhash (jdel f (mhash_at k r))) r)),
       q_hlen = (\<lambda>k. cget (\<lambda>r. length (mhash_at k r))),
       q_hkeys = (\<lambda>k. cget (\<lambda>r. jkeys (mhash_at k r))),
       q_hgetall = (\<lambda>k. cget (mhash_at k)),
       q_exists = (\<lambda>k. cget (mem_present k)),
       q_del = (\<lambda>k. cmod (jdel k)),
       q_setex = (\<lambda>k t. cmod (jset k Mstring)),
       q_cursors = (\<lambda>r. [''0'']),
       q_scan = (\<lambda>c p. cget (\<lambda>r. filter (\<lambda>k. prefix p k \<and> mem_present k r) (jkeys r))),
       q_cjson = (\<lambda>j. j) \<rparr>"

lemma mem_kv_views:
  "as_set (mem_kv r k) = set (mset_at k r)"
  "as_zset (mem_kv r k) = map_of (mzset_at k r)"
  "as_hash (mem_kv r k) = map_of (mhash_at k r)"
proof -
  have "map_of (sort_key snd (AList.clearjunk z)) = map_of z" for z :: "(payload \<times> rat) list"
    by (metis distinct_clearjunk distinct_map distinct_sort map_of_clearjunk map_of_eqI map_of_inject_set set_sort set_map)
  then show "as_zset (mem_kv r k) = map_of (mzset_at k r)"
    by (auto simp: mem_kv_def mzset_at_def as_zset_def of_set_def of_zset_def of_hash_def split: option.split mval.split)
  show "as_set (mem_kv r k) = set (mset_at k r)"
    by (auto simp: mem_kv_def mset_at_def as_set_def of_set_def of_zset_def of_hash_def split: option.split mval.split)
  show "as_hash (mem_kv r k) = map_of (mhash_at k r)"
    by (auto simp: mem_kv_def mhash_at_def as_hash_def of_set_def of_zset_def of_hash_def map_of_clearjunk split: option.split mval.split)
qed

lemma mem_present_iff: "mem_present k r \<longleftrightarrow> mem_kv r k \<noteq> Absent"
proof -
  have "map_of z = Map.empty \<longleftrightarrow> z = []" for z :: "('x \<times> 'y) list"
    by (cases z) (auto simp: fun_eq_iff)
  then show ?thesis by (auto simp: mem_present_def mem_kv_def split: option.split mval.split)
qed

lemma mzset_at_ok: "distinct (map fst (mzset_at k r))" "sorted (map snd (mzset_at k r))"
proof -
  have "distinct (map fst (sort_key snd (AList.clearjunk z)))" for z :: "(payload \<times> rat) list"
    using distinct_clearjunk [of z] by (simp add: distinct_map)
  then show "distinct (map fst (mzset_at k r))" by (simp add: mzset_at_def split: option.split mval.split)
  show "sorted (map snd (mzset_at k r))" by (simp add: mzset_at_def split: option.split mval.split)
qed

lemma mhash_at_ok: "distinct (map fst (mhash_at k r))"
  by (simp add: mhash_at_def split: option.split mval.split)

lemma mem_kv_set:
  "mem_kv (jset k (Mset xs) r) = (mem_kv r)(k := of_set (set xs))"
  "mem_kv (jset k (Mzset z) r) = (mem_kv r)(k := of_zset (map_of z))"
  "mem_kv (jset k (Mhash h) r) = (mem_kv r)(k := of_hash (map_of h))"
  "mem_kv (jset k Mstring r) = (mem_kv r)(k := Rstring)"
  "mem_kv (jdel k r) = (mem_kv r)(k := Absent)"
  by (simp_all add: mem_kv_def fun_eq_iff)

lemma mem_zpopmin:
  assumes "mem_kv r k \<noteq> Absent" and "is_zset (mem_kv r k)"
  shows "\<exists>m z. map_of (mzset_at k r) m = Some z \<and> (\<forall>m' z'. map_of (mzset_at k r) m' = Some z' \<longrightarrow> z \<le> z')
     \<and> does mem_kv (\<lambda>_. True) (q_zpopmin mem_queue_server k) r (Some m) ((mem_kv r)(k := of_zset ((map_of (mzset_at k r))(m := None))))"
proof -
  have "mzset_at k r \<noteq> []" using assms by (auto simp: is_zset_def mem_kv_views)
  then obtain m z es where e: "mzset_at k r = (m, z) # es" by (cases "mzset_at k r") auto
  have n: "m \<notin> fst ` set es" "\<forall>e\<in>set es. z \<le> snd e" using mzset_at_ok [of k r] e by auto
  then have "map_of es m' = Some z' \<Longrightarrow> z \<le> z'" for m' z' by (auto dest!: map_of_SomeD)
  then have "\<forall>m' z'. map_of (mzset_at k r) m' = Some z' \<longrightarrow> z \<le> z'" by (simp add: e)
  moreover have u: "(map_of (mzset_at k r))(m := None) = map_of es"
    using n(1) map_of_eq_None_iff [of es m] by (auto simp: e fun_eq_iff)
  have "does mem_kv (\<lambda>_. True) (q_zpopmin mem_queue_server k) r (Some m) ((mem_kv r)(k := of_zset ((map_of (mzset_at k r))(m := None))))"
    unfolding u by (simp add: does_def mem_queue_server_def e mem_kv_set)
  moreover have "map_of (mzset_at k r) m = Some z" by (simp add: e)
  ultimately show ?thesis by blast
qed

lemma mem_queue_server_laws: "queue_redis_laws mem_queue_server mem_kv (\<lambda>_. True)"
proof -
  have z: "is_zset (mem_kv r k) \<Longrightarrow> \<exists>ms. distinct (map fst ms) \<and> map_of ms = map_of (mzset_at k r) \<and> sorted (map snd ms)
      \<and> (\<forall>a b. does mem_kv (\<lambda>_. True) (q_zrange mem_queue_server k a b) r (zslice a b ms) (mem_kv r))
      \<and> does mem_kv (\<lambda>_. True) (q_zcard mem_queue_server k) r (length ms) (mem_kv r)" for r k
    using mzset_at_ok [of k r] by (intro exI [of _ "mzset_at k r"]) (simp add: does_def mem_queue_server_def cget_def)
  have h: "is_hash (mem_kv r k) \<Longrightarrow> \<exists>es. distinct (map fst es) \<and> map_of es = map_of (mhash_at k r)
      \<and> does mem_kv (\<lambda>_. True) (q_hgetall mem_queue_server k) r es (mem_kv r)
      \<and> does mem_kv (\<lambda>_. True) (q_hkeys mem_queue_server k) r (map fst es) (mem_kv r)
      \<and> does mem_kv (\<lambda>_. True) (q_hlen mem_queue_server k) r (length es) (mem_kv r)" for r k
    using mhash_at_ok [of k r] by (intro exI [of _ "mhash_at k r"]) (simp add: does_def mem_queue_server_def cget_def)
  have s: "mem_kv r k \<noteq> Absent \<Longrightarrow> k \<in> set (jkeys r)" for r k
    using map_of_eq_None_iff [of r k] by (cases "jget r k") (auto simp: mem_kv_def)
  have p: "mem_kv r k = Absent \<Longrightarrow> mzset_at k r = []" for r k
    using mem_kv_views(2) [of r k] by (cases "mzset_at k r") (auto simp: fun_eq_iff split: if_splits)
  show ?thesis
    unfolding queue_redis_laws_def mem_kv_views
    apply (intro conjI allI impI mem_zpopmin z h)
    apply (auto simp: does_def mem_queue_server_def comp_simps mem_kv_set mem_present_iff p update_conv' delete_conv' dest: s)
    done
qed

end
