(* ===== verification/RedisQueue.thy ===== *)
theory RedisQueue
  imports WorkQueue QueueRedis
begin

text \<open>
  The Redis adapter of the orchestrator's work queue
  (\<open>packages/orchestrator/src/services/redis-queue-adapter.ts\<close>): its Lua scripts, run atomically on
  the server, the adapter's methods around them, and the proof that on a server with the
  documented behaviour it keeps the contract \<open>work_queue\<close>. The sweeps are in \<open>QueueSweeps\<close>. Of
  the log only the lines about dropped items are kept.
\<close>

section \<open>Keys\<close>

definition PENDING_KEY :: string where "PENDING_KEY = ''orchestrator:queue:pending''"
definition CLAIMED_KEY_PREFIX :: string where "CLAIMED_KEY_PREFIX = ''orchestrator:queue:claimed:''"
definition HEARTBEAT_KEY_PREFIX :: string where "HEARTBEAT_KEY_PREFIX = ''orchestrator:worker:''"
definition DEAD_LETTER_KEY :: string where "DEAD_LETTER_KEY = ''orchestrator:queue:dead-letter''"
definition IN_FLIGHT_KEY :: string where "IN_FLIGHT_KEY = ''orchestrator:queue:in-flight-items''"

definition buildClaimedKey :: "string \<Rightarrow> string" where
  "buildClaimedKey workerId = CLAIMED_KEY_PREFIX @ workerId"

definition buildHeartbeatKey :: "string \<Rightarrow> string" where
  "buildHeartbeatKey workerId = HEARTBEAT_KEY_PREFIX @ workerId @ '':heartbeat''"

section \<open>Scripts\<close>

text \<open>What \<open>cjson.decode\<close> followed by \<open>cjson.encode\<close> makes of an item.\<close>

definition cjson_item :: "'r queue_redis \<Rightarrow> serialized_item \<Rightarrow> serialized_item" where
  "cjson_item R s = s\<lparr> qi_metadata := map_option (q_cjson R) (qi_metadata s) \<rparr>"

definition cjson_decode :: "payload \<Rightarrow> ('r, serialized_item) js" where
  "cjson_decode p = (case p of Item s \<Rightarrow> cret s | Malformed _ \<Rightarrow> cthrow (Plain_error ''cjson''))"

definition ENQUEUE_IF_ABSENT_SCRIPT ::
    "'r queue_redis \<Rightarrow> string \<Rightarrow> string \<Rightarrow> string \<Rightarrow> rat \<Rightarrow> payload \<Rightarrow> ('r, nat) js" where
  "ENQUEUE_IF_ABSENT_SCRIPT R pending inFlight itemKey prio member =
     cbind (q_sismember R inFlight itemKey) (\<lambda>ex.
       if ex then cret 0
       else cbind (q_sadd R inFlight itemKey) (\<lambda>_. cbind (q_zadd R pending prio member) (\<lambda>_. cret 1)))"

definition CLAIM_SCRIPT ::
    "'r queue_redis \<Rightarrow> string \<Rightarrow> string \<Rightarrow> string \<Rightarrow> int \<Rightarrow> string \<Rightarrow> ('r, payload option) js" where
  "CLAIM_SCRIPT R pending claimed heartbeat ttlSeconds claimedAt =
     cbind (q_zpopmin R pending) (\<lambda>popped.
       case popped of
         None \<Rightarrow> cret None
       | Some member \<Rightarrow>
           cbind (cjson_decode member) (\<lambda>parsed.
             let reserialized = Item (cjson_item R (parsed\<lparr> si_claimedAt := Some claimedAt \<rparr>))
             in cbind (q_hset R claimed (si_itemKey parsed) reserialized) (\<lambda>_.
                cbind (q_setex R heartbeat ttlSeconds) (\<lambda>_. cret (Some reserialized)))))"

definition RECLAIM_ORPHAN_SCRIPT ::
    "'r queue_redis \<Rightarrow> string \<Rightarrow> string \<Rightarrow> string \<Rightarrow> string \<Rightarrow> int \<Rightarrow> int \<Rightarrow> rat \<Rightarrow> payload \<Rightarrow> ('r, nat) js" where
  "RECLAIM_ORPHAN_SCRIPT R claimed heartbeat pending itemKey ageMs graceWindowMs prio member =
     cbind (q_hget R claimed itemKey) (\<lambda>c.
       if c = None then cret 0
       else
         cbind (q_exists R heartbeat) (\<lambda>alive.
           if alive then cret 2
           else if ageMs < graceWindowMs then cret 3
           else
             cbind (q_hdel R claimed itemKey) (\<lambda>_.
             cbind (cbind (q_hlen R claimed) (\<lambda>n. if n = 0 then q_del R claimed else cret ())) (\<lambda>_.
             cbind (q_zadd R pending prio member) (\<lambda>_. cret 1)))))"

text \<open>The item that a worker gives back, with the fields the scripts write.\<close>

definition repend_item ::
    "'r queue_redis \<Rightarrow> queue_item \<Rightarrow> queue_reason option \<Rightarrow> rat \<Rightarrow> nat \<Rightarrow> string \<Rightarrow> serialized_item" where
  "repend_item R base reason prio attemptCount itemKey =
     cjson_item R (serialize_item base reason prio attemptCount itemKey)"

definition REQUEUE_FOR_RESUME_SCRIPT ::
    "'r queue_redis \<Rightarrow> string \<Rightarrow> string \<Rightarrow> string \<Rightarrow> string \<Rightarrow> rat \<Rightarrow> queue_item \<Rightarrow> ('r, nat \<times> int) js" where
  "REQUEUE_FOR_RESUME_SCRIPT R pending claimed heartbeat itemKey prio base =
     cbind (q_hget R claimed itemKey) (\<lambda>c.
       case c of
         None \<Rightarrow> cbind (q_del R heartbeat) (\<lambda>_. cret (0, -1))
       | Some p \<Rightarrow>
           cbind (cjson_decode p) (\<lambda>parsed.
             let repayload = Item (repend_item R base (Some Reason_resume) prio (si_attemptCount parsed) itemKey)
             in cbind (q_hdel R claimed itemKey) (\<lambda>_.
                cbind (q_del R heartbeat) (\<lambda>_.
                cbind (q_zadd R pending prio repayload) (\<lambda>_. cret (1, int (si_attemptCount parsed)))))))"

definition RELEASE_SCRIPT ::
    "'r queue_redis \<Rightarrow> string \<Rightarrow> string \<Rightarrow> string \<Rightarrow> string \<Rightarrow> string \<Rightarrow> string \<Rightarrow> rat \<Rightarrow> queue_item \<Rightarrow> nat \<Rightarrow> int
       \<Rightarrow> ('r, nat \<times> int) js" where
  "RELEASE_SCRIPT R pending claimed heartbeat deadLetter inFlight itemKey prio base maxRetries nowMs =
     cbind (q_hget R claimed itemKey) (\<lambda>c.
       case c of
         None \<Rightarrow> cbind (q_del R heartbeat) (\<lambda>_. cret (0, -1))
       | Some p \<Rightarrow>
           cbind (cjson_decode p) (\<lambda>parsed.
             let attemptCount = si_attemptCount parsed + 1
             in if attemptCount \<ge> maxRetries
                then
                  (let dlpayload = Item (repend_item R base (qi_queueReason base) (qi_priority base) attemptCount itemKey)
                   in cbind (q_hdel R claimed itemKey) (\<lambda>_.
                      cbind (q_del R heartbeat) (\<lambda>_.
                      cbind (q_zadd R deadLetter (of_int nowMs) dlpayload) (\<lambda>_.
                      cbind (q_srem R inFlight itemKey) (\<lambda>_. cret (2, int attemptCount))))))
                else
                  (let repayload = Item (repend_item R base (Some Reason_retry) prio attemptCount itemKey)
                   in cbind (q_hdel R claimed itemKey) (\<lambda>_.
                      cbind (q_del R heartbeat) (\<lambda>_.
                      cbind (q_zadd R pending prio repayload) (\<lambda>_. cret (1, int attemptCount)))))))"

definition RECONCILE_IN_FLIGHT_SCRIPT :: "'r queue_redis \<Rightarrow> string \<Rightarrow> string \<Rightarrow> ('r, nat) js" where
  "RECONCILE_IN_FLIGHT_SCRIPT R inFlight itemKey =
     cbind (q_sismember R inFlight itemKey) (\<lambda>ex.
       if \<not> ex then cret 0 else cbind (q_srem R inFlight itemKey) (\<lambda>_. cret 1))"

section \<open>State\<close>

text \<open>\<open>rq_defined\<close> lists the commands registered with the client by \<open>defineCommand\<close>.\<close>

record 'r redis_queue =
  rq_world :: 'r
  rq_maxRetries :: nat
  rq_maxRunDurationMs :: int
  rq_heartbeatCheckIntervalMs :: int
  rq_defined :: "string list"
  rq_reconcileTracker :: "(string, nat) jmap"
  rq_reconcileSweepCounter :: nat
  rq_dropLogState :: drop_state
  rq_enqueuedAtCache :: "(string, int) jmap"
  rq_log :: "log_line list"

definition new_redis_queue :: "'r \<Rightarrow> nat option \<Rightarrow> int option \<Rightarrow> int option \<Rightarrow> 'r redis_queue" where
  "new_redis_queue r maxRetries maxRunDurationMs heartbeatCheckIntervalMs =
     \<lparr> rq_world = r, rq_maxRetries = default_to 3 maxRetries, rq_maxRunDurationMs = default_to 1800000 maxRunDurationMs,
       rq_heartbeatCheckIntervalMs = default_to 15000 heartbeatCheckIntervalMs, rq_defined = [], rq_reconcileTracker = [],
       rq_reconcileSweepCounter = 0, rq_dropLogState = [], rq_enqueuedAtCache = [], rq_log = [] \<rparr>"

definition on_server :: "('r, 'a) js \<Rightarrow> ('r redis_queue, 'a) js" where
  "on_server f s = (case f (rq_world s) of (x, r) \<Rightarrow> (x, s\<lparr> rq_world := r \<rparr>))"

text \<open>A call of the client: the command or script reaches the server, runs, and is answered.\<close>

definition redis_call :: "'r queue_redis \<Rightarrow> ('r, 'a) js \<Rightarrow> ('r redis_queue, 'a) js" where
  "redis_call R f = on_server (cbind (q_send R) (\<lambda>_. cbind f (\<lambda>x. cbind (q_reply R) (\<lambda>_. cret x))))"

text \<open>The methods \<open>ensure...Command\<close>, and a call of a registered command.\<close>

definition ensure_command :: "string \<Rightarrow> 'r redis_queue \<Rightarrow> 'r redis_queue" where
  "ensure_command name s = (if name \<in> set (rq_defined s) then s else s\<lparr> rq_defined := rq_defined s @ [name] \<rparr>)"

definition script_call :: "'r queue_redis \<Rightarrow> string \<Rightarrow> ('r, 'a) js \<Rightarrow> ('r redis_queue, 'a) js" where
  "script_call R name f s =
     (if name \<in> set (rq_defined s) then redis_call R f s else (Inl (Plain_error (name @ '' is not a function'')), s))"

definition remember_age :: "string \<Rightarrow> string \<Rightarrow> 'r redis_queue \<Rightarrow> 'r redis_queue" where
  "remember_age itemKey enqueuedAt s =
     (case Date_parse enqueuedAt of
        None \<Rightarrow> s | Some ms \<Rightarrow> s\<lparr> rq_enqueuedAtCache := jset itemKey ms (rq_enqueuedAtCache s) \<rparr>)"

definition forget_item :: "string \<Rightarrow> 'r redis_queue \<Rightarrow> 'r redis_queue" where
  "forget_item itemKey s =
     s\<lparr> rq_dropLogState := jdel itemKey (rq_dropLogState s), rq_enqueuedAtCache := jdel itemKey (rq_enqueuedAtCache s) \<rparr>"

section \<open>Ages\<close>

text \<open>The age of a payload that was found, which is also put in the cache.\<close>

definition payload_age :: "int \<Rightarrow> string \<Rightarrow> payload \<Rightarrow> ('r redis_queue, int option) js" where
  "payload_age now itemKey p s =
     (case p of
        Malformed _ \<Rightarrow> (Inr None, s)
      | Item parsed \<Rightarrow>
          (case Date_parse (qi_enqueuedAt parsed) of
             None \<Rightarrow> (Inr None, s)
           | Some ms \<Rightarrow> (Inr (Some (now - ms)), s\<lparr> rq_enqueuedAtCache := jset itemKey ms (rq_enqueuedAtCache s) \<rparr>)))"

definition is_member_of :: "string \<Rightarrow> payload \<Rightarrow> bool" where
  "is_member_of itemKey p = (case p of Item parsed \<Rightarrow> si_itemKey parsed = itemKey | Malformed _ \<Rightarrow> False)"

primrec first_claim :: "'r queue_redis \<Rightarrow> string \<Rightarrow> string list \<Rightarrow> ('r redis_queue, payload option) js" where
  "first_claim R itemKey [] = cret None"
| "first_claim R itemKey (key # keys) =
     cbind (redis_call R (q_hget R key itemKey)) (\<lambda>p.
       if p = None \<or> p = Some (Malformed []) then first_claim R itemKey keys else cret p)"

primrec scan_claims :: "'r queue_redis \<Rightarrow> string \<Rightarrow> string list \<Rightarrow> ('r redis_queue, payload option) js" where
  "scan_claims R itemKey [] = cret None"
| "scan_claims R itemKey (cursor # cursors) =
     cbind (redis_call R (q_scan R cursor CLAIMED_KEY_PREFIX)) (\<lambda>keys.
     cbind (first_claim R itemKey keys) (\<lambda>p.
       case p of None \<Rightarrow> scan_claims R itemKey cursors | Some x \<Rightarrow> cret (Some x)))"

definition rq_hasInFlightAge :: "'r queue_redis \<Rightarrow> int \<Rightarrow> string \<Rightarrow> ('r redis_queue, int option) js" where
  "rq_hasInFlightAge R now itemKey s =
     (case jget (rq_enqueuedAtCache s) itemKey of
        Some cached \<Rightarrow> (Inr (Some (now - cached)), s)
      | None \<Rightarrow>
          ctry (cbind (redis_call R (q_zrange R PENDING_KEY 0 (-1))) (\<lambda>members.
                  case find (is_member_of itemKey) (map fst members) of
                    Some p \<Rightarrow> payload_age now itemKey p
                  | None \<Rightarrow>
                      (\<lambda>s. cbind (scan_claims R itemKey (q_cursors R (rq_world s))) (\<lambda>p.
                        case p of Some x \<Rightarrow> payload_age now itemKey x | None \<Rightarrow> cret None) s)))
            (\<lambda>_. cret None) s)"

definition rq_hasInFlight :: "'r queue_redis \<Rightarrow> string \<Rightarrow> ('r redis_queue, bool) js" where
  "rq_hasInFlight R itemKey = ctry (redis_call R (q_sismember R IN_FLIGHT_KEY itemKey)) (\<lambda>_. cret False)"

section \<open>Enqueueing\<close>

definition rq_drop :: "'r queue_redis \<Rightarrow> int \<Rightarrow> string \<Rightarrow> ('r redis_queue, unit) js" where
  "rq_drop R now itemKey =
     cbind (rq_hasInFlightAge R now itemKey) (\<lambda>ageMs. cmod (\<lambda>s.
       case classifyDropSeverity itemKey ageMs (rq_maxRunDurationMs s) (rq_dropLogState s) of
         (decision, st) \<Rightarrow> s\<lparr> rq_dropLogState := st, rq_log := rq_log s @ [emitDropLog decision itemKey] \<rparr>))"

text \<open>What \<open>enqueue\<close> and \<open>enqueueIfAbsent\<close> have in common; only the latter catches errors.\<close>

definition enqueue_checked :: "'r queue_redis \<Rightarrow> int \<Rightarrow> queue_item \<Rightarrow> ('r redis_queue, bool) js" where
  "enqueue_checked R now item =
     (let itemKey = buildItemKey item; prio = getPriorityScore now (qi_queueReason item);
          serialized = serialize_item item (qi_queueReason item) prio 0 itemKey
      in cbind (script_call R ''enqueueIfAbsent''
                 (ENQUEUE_IF_ABSENT_SCRIPT R PENDING_KEY IN_FLIGHT_KEY itemKey prio (Item serialized))) (\<lambda>res.
           if res = 1 then cbind (cmod (remember_age itemKey (qi_enqueuedAt item))) (\<lambda>_. cret True)
           else cbind (rq_drop R now itemKey) (\<lambda>_. cret False)))"

definition rq_enqueueIfAbsent :: "'r queue_redis \<Rightarrow> int \<Rightarrow> queue_item \<Rightarrow> ('r redis_queue, bool) js" where
  "rq_enqueueIfAbsent R now item =
     cbind (cmod (ensure_command ''enqueueIfAbsent'')) (\<lambda>_. ctry (enqueue_checked R now item) (\<lambda>_. cret False))"

definition rq_enqueue :: "'r queue_redis \<Rightarrow> int \<Rightarrow> queue_item \<Rightarrow> ('r redis_queue, bool) js" where
  "rq_enqueue R now item =
     cbind (cmod (ensure_command ''enqueueIfAbsent'')) (\<lambda>_. enqueue_checked R now item)"

section \<open>Claims\<close>

definition rq_claim :: "'r queue_redis \<Rightarrow> int \<Rightarrow> string \<Rightarrow> ('r redis_queue, queue_item option) js" where
  "rq_claim R now workerId =
     cbind (cmod (ensure_command ''claimItem'')) (\<lambda>_.
       ctry (cbind (script_call R ''claimItem''
                     (CLAIM_SCRIPT R PENDING_KEY (buildClaimedKey workerId) (buildHeartbeatKey workerId) 30 (toISOString now))) (\<lambda>res.
               case res of
                 None \<Rightarrow> cret None
               | Some (Item serialized) \<Rightarrow> cret (Some (claimed_view serialized))
               | Some (Malformed _) \<Rightarrow> cthrow (Plain_error ''JSON'')))
         (\<lambda>_. cret None))"

definition rq_release :: "'r queue_redis \<Rightarrow> int \<Rightarrow> string \<Rightarrow> queue_item \<Rightarrow> ('r redis_queue, unit) js" where
  "rq_release R now workerId item =
     (let itemKey = buildItemKey item
      in cbind (cmod (ensure_command ''releaseItem'')) (\<lambda>_.
           ctry (\<lambda>s. cbind (script_call R ''releaseItem''
                     (RELEASE_SCRIPT R PENDING_KEY (buildClaimedKey workerId) (buildHeartbeatKey workerId) DEAD_LETTER_KEY
                        IN_FLIGHT_KEY itemKey (getPriorityScore now (Some Reason_retry)) item (rq_maxRetries s) now)) (\<lambda>(code, n).
                   if code = 2 then cmod (forget_item itemKey) else cret ()) s)
             (\<lambda>_. cret ())))"

definition rq_requeueForResume :: "'r queue_redis \<Rightarrow> int \<Rightarrow> string \<Rightarrow> queue_item \<Rightarrow> ('r redis_queue, unit) js" where
  "rq_requeueForResume R now workerId item =
     (let itemKey = buildItemKey item
      in cbind (cmod (ensure_command ''requeueForResumeItem'')) (\<lambda>_.
           ctry (cbind (script_call R ''requeueForResumeItem''
                     (REQUEUE_FOR_RESUME_SCRIPT R PENDING_KEY (buildClaimedKey workerId) (buildHeartbeatKey workerId)
                        itemKey (getPriorityScore now (Some Reason_resume)) item)) (\<lambda>_. cret ()))
             (\<lambda>_. cret ())))"

text \<open>The transaction of \<open>complete\<close>.\<close>

definition complete_multi :: "'r queue_redis \<Rightarrow> string \<Rightarrow> string \<Rightarrow> ('r, unit) js" where
  "complete_multi R workerId itemKey =
     cbind (q_hdel R (buildClaimedKey workerId) itemKey) (\<lambda>_.
     cbind (q_del R (buildHeartbeatKey workerId)) (\<lambda>_.
     q_srem R IN_FLIGHT_KEY itemKey))"

definition rq_complete :: "'r queue_redis \<Rightarrow> string \<Rightarrow> queue_item \<Rightarrow> ('r redis_queue, unit) js" where
  "rq_complete R workerId item =
     (let itemKey = buildItemKey item
      in ctry (cbind (redis_call R (complete_multi R workerId itemKey)) (\<lambda>_. cmod (forget_item itemKey))) (\<lambda>_. cret ()))"

section \<open>Inspection\<close>

definition rq_getQueueDepth :: "'r queue_redis \<Rightarrow> ('r redis_queue, nat) js" where
  "rq_getQueueDepth R = ctry (redis_call R (q_zcard R PENDING_KEY)) (\<lambda>_. cret 0)"

primrec view_members :: "(payload \<times> rat) list \<Rightarrow> ('s, (queue_item \<times> rat) list) js" where
  "view_members [] = cret []"
| "view_members (e # es) =
     (case fst e of
        Malformed t \<Rightarrow> if t = [] then view_members es else cthrow (Plain_error ''JSON'')
      | Item serialized \<Rightarrow> cbind (view_members es) (\<lambda>rest. cret ((claimed_view serialized, snd e) # rest)))"

definition rq_getQueueItems :: "'r queue_redis \<Rightarrow> nat \<Rightarrow> nat \<Rightarrow> ('r redis_queue, (queue_item \<times> rat) list) js" where
  "rq_getQueueItems R offset limit =
     ctry (cbind (redis_call R (q_zrange R PENDING_KEY (int offset) (int offset + int limit - 1))) view_members) (\<lambda>_. cret [])"

primrec scan_keys :: "'r queue_redis \<Rightarrow> string list \<Rightarrow> ('r redis_queue, string list) js" where
  "scan_keys R [] = cret []"
| "scan_keys R (cursor # cursors) =
     cbind (redis_call R (q_scan R cursor CLAIMED_KEY_PREFIX)) (\<lambda>keys.
     cbind (scan_keys R cursors) (\<lambda>rest. cret (keys @ rest)))"

primrec sum_hlen :: "'r queue_redis \<Rightarrow> string list \<Rightarrow> nat \<Rightarrow> ('r redis_queue, nat) js" where
  "sum_hlen R [] count = cret count"
| "sum_hlen R (key # keys) count = cbind (redis_call R (q_hlen R key)) (\<lambda>n. sum_hlen R keys (count + n))"

definition rq_getActiveWorkerCount :: "'r queue_redis \<Rightarrow> ('r redis_queue, nat) js" where
  "rq_getActiveWorkerCount R =
     ctry (\<lambda>s. cbind (scan_keys R (q_cursors R (rq_world s))) (\<lambda>keys. sum_hlen R keys 0) s) (\<lambda>_. cret 0)"

section \<open>Reclaiming orphaned claims\<close>

text \<open>
  The sweeps never throw: they carry their report and go on, or stop, after an error. The
  item that is put back: counted in \<open>reclaimCount\<close>, at resume priority, without \<open>claimedAt\<close>.
\<close>

definition reclaim_item :: "rat \<Rightarrow> serialized_item \<Rightarrow> serialized_item" where
  "reclaim_item resumePriority parsed =
     parsed\<lparr> si_reclaimCount := Some (default_to 0 (si_reclaimCount parsed) + 1), qi_queueReason := Some Reason_resume,
             qi_priority := resumePriority, si_claimedAt := None \<rparr>"

definition reclaimed_entry :: "string \<Rightarrow> string \<Rightarrow> int \<Rightarrow> serialized_item \<Rightarrow> reclaimed_item" where
  "reclaimed_entry workerId itemKey ageMs parsed =
     \<lparr> ri_workerId = workerId, ri_itemKey = itemKey, ri_ageMs = ageMs,
       ri_attemptCountBefore = si_attemptCount parsed, ri_attemptCountAfter = si_attemptCount parsed,
       ri_reclaimCountBefore = default_to 0 (si_reclaimCount parsed),
       ri_reclaimCountAfter = default_to 0 (si_reclaimCount parsed) + 1 \<rparr>"

definition claim_age :: "int \<Rightarrow> serialized_item \<Rightarrow> int option" where
  "claim_age now parsed = map_option (\<lambda>ms. now - ms) (Date_parse (default_to (qi_enqueuedAt parsed) (si_claimedAt parsed)))"

definition reap_claim ::
    "'r queue_redis \<Rightarrow> int \<Rightarrow> string \<Rightarrow> string \<times> payload \<Rightarrow> reap_report \<times> 'r redis_queue \<Rightarrow> reap_report \<times> 'r redis_queue" where
  "reap_claim R now claimedKey e st =
     (case (e, st) of ((itemKey, p), (report0, s)) \<Rightarrow>
        (let workerId = drop (length CLAIMED_KEY_PREFIX) claimedKey;
             report = report0\<lparr> rr_scanned := rr_scanned report0 + 1 \<rparr>;
             resumePriority = getPriorityScore now (Some Reason_resume)
         in case p of
              Malformed _ \<Rightarrow> (report, s)
            | Item parsed \<Rightarrow>
                (case claim_age now parsed of
                   None \<Rightarrow> (report, s)
                 | Some ageMs \<Rightarrow>
                     (case script_call R ''reclaimOrphan''
                             (RECLAIM_ORPHAN_SCRIPT R claimedKey (buildHeartbeatKey workerId) PENDING_KEY itemKey ageMs
                                (2 * rq_heartbeatCheckIntervalMs s) resumePriority (Item (reclaim_item resumePriority parsed)))
                             (remember_age itemKey (qi_enqueuedAt parsed) s) of
                        (Inl e, s1) \<Rightarrow> (report, s1)
                      | (Inr res, s1) \<Rightarrow>
                          if res = 1
                          then (report\<lparr> rr_reclaimed := rr_reclaimed report @ [reclaimed_entry workerId itemKey ageMs parsed] \<rparr>,
                                s1\<lparr> rq_dropLogState := jdel itemKey (rq_dropLogState s1) \<rparr>)
                          else if res = 2
                          then (report\<lparr> rr_skippedRaceReappeared := rr_skippedRaceReappeared report + 1 \<rparr>, s1)
                          else if res = 3
                          then (report\<lparr> rr_skippedGraceWindow := rr_skippedGraceWindow report + 1 \<rparr>, s1)
                          else (report, s1)))))"

definition reap_worker ::
    "'r queue_redis \<Rightarrow> int \<Rightarrow> string \<Rightarrow> reap_report \<times> 'r redis_queue \<Rightarrow> reap_report \<times> 'r redis_queue" where
  "reap_worker R now claimedKey st =
     (case st of (report, s) \<Rightarrow>
        (let workerId = drop (length CLAIMED_KEY_PREFIX) claimedKey
         in case redis_call R (q_hgetall R claimedKey) s of
              (Inl e, s1) \<Rightarrow> (report, s1)
            | (Inr entries, s1) \<Rightarrow>
                if entries = [] then (report, s1)
                else
                  (case redis_call R (q_exists R (buildHeartbeatKey workerId)) s1 of
                     (Inl e, s2) \<Rightarrow> (report, s2)
                   | (Inr alive, s2) \<Rightarrow>
                       if alive then (report\<lparr> rr_scanned := rr_scanned report + length entries \<rparr>, s2)
                       else fold (reap_claim R now claimedKey) entries (report, s2))))"

primrec reap_pages ::
    "'r queue_redis \<Rightarrow> int \<Rightarrow> string list \<Rightarrow> reap_report \<times> 'r redis_queue \<Rightarrow> reap_report \<times> 'r redis_queue" where
  "reap_pages R now [] st = st"
| "reap_pages R now (cursor # cursors) st =
     (case redis_call R (q_scan R cursor CLAIMED_KEY_PREFIX) (snd st) of
        (Inl e, s1) \<Rightarrow> (fst st, s1)
      | (Inr keys, s1) \<Rightarrow> reap_pages R now cursors (fold (reap_worker R now) keys (fst st, s1)))"

definition rq_reapOrphanClaims :: "'r queue_redis \<Rightarrow> int \<Rightarrow> ('r redis_queue, reap_report) js" where
  "rq_reapOrphanClaims R now s =
     (case reap_pages R now (q_cursors R (rq_world s)) (no_reap, ensure_command ''reclaimOrphan'' s) of
        (report, s') \<Rightarrow> (Inr report, s'))"

section \<open>Reconciling the in-flight index\<close>

primrec sscan_all :: "'r queue_redis \<Rightarrow> string list \<Rightarrow> string list \<Rightarrow> ('r redis_queue, string list) js" where
  "sscan_all R [] acc = cret acc"
| "sscan_all R (cursor # cursors) acc =
     cbind (redis_call R (q_sscan R IN_FLIGHT_KEY cursor)) (\<lambda>batch. sscan_all R cursors (fold sadd batch acc))"

definition pending_keys :: "(payload \<times> rat) list \<Rightarrow> string list" where
  "pending_keys members =
     remdups (concat (map (\<lambda>(p, _). case p of Item parsed \<Rightarrow> if si_itemKey parsed = [] then [] else [si_itemKey parsed]
                                     | Malformed _ \<Rightarrow> []) members))"

primrec hkeys_all :: "'r queue_redis \<Rightarrow> string list \<Rightarrow> string list \<Rightarrow> ('r redis_queue, string list) js" where
  "hkeys_all R [] acc = cret acc"
| "hkeys_all R (key # keys) acc =
     cbind (redis_call R (q_hkeys R key)) (\<lambda>itemKeys. hkeys_all R keys (fold sadd itemKeys acc))"

primrec claimed_all :: "'r queue_redis \<Rightarrow> string list \<Rightarrow> string list \<Rightarrow> ('r redis_queue, string list) js" where
  "claimed_all R [] acc = cret acc"
| "claimed_all R (cursor # cursors) acc =
     cbind (redis_call R (q_scan R cursor CLAIMED_KEY_PREFIX)) (\<lambda>keys.
     cbind (hkeys_all R keys acc) (\<lambda>acc'. claimed_all R cursors acc'))"

definition live_snapshot :: "'r queue_redis \<Rightarrow> ('r redis_queue, string list) js" where
  "live_snapshot R =
     cbind (redis_call R (q_zrange R PENDING_KEY 0 (-1))) (\<lambda>members s.
     cbind (claimed_all R (q_cursors R (rq_world s)) []) (\<lambda>claimed. cret (pending_keys members @ claimed)) s)"

definition reconcile_one ::
    "'r queue_redis \<Rightarrow> nat \<Rightarrow> string \<Rightarrow> reconcile_report \<times> 'r redis_queue \<Rightarrow> reconcile_report \<times> 'r redis_queue" where
  "reconcile_one R sweepId itemKey st =
     (case st of (report, s) \<Rightarrow>
        (case jget (rq_reconcileTracker s) itemKey of
           None \<Rightarrow>
             (report\<lparr> rc_trackedFirstSeen := rc_trackedFirstSeen report + 1 \<rparr>,
              s\<lparr> rq_reconcileTracker := jset itemKey sweepId (rq_reconcileTracker s) \<rparr>)
         | Some firstSeenSweepId \<Rightarrow>
             if firstSeenSweepId \<ge> sweepId then (report, s)
             else
               (case script_call R ''reconcileInFlightItem'' (RECONCILE_IN_FLIGHT_SCRIPT R IN_FLIGHT_KEY itemKey) s of
                  (Inl e, s1) \<Rightarrow> (report, s1)
                | (Inr res, s1) \<Rightarrow>
                    if res = 1
                    then (report\<lparr> rc_reconciled := rc_reconciled report + 1 \<rparr>,
                          forget_item itemKey (s1\<lparr> rq_reconcileTracker := jdel itemKey (rq_reconcileTracker s1) \<rparr>))
                    else (report\<lparr> rc_skippedAlreadyGone := rc_skippedAlreadyGone report + 1 \<rparr>, s1))))"

definition rq_reconcileInFlight :: "'r queue_redis \<Rightarrow> int \<Rightarrow> ('r redis_queue, reconcile_report) js" where
  "rq_reconcileInFlight R now s =
     (let sweepId = rq_reconcileSweepCounter s + 1;
          s0 = ensure_command ''reconcileInFlightItem'' (s\<lparr> rq_reconcileSweepCounter := sweepId \<rparr>)
      in case sscan_all R (q_scursors R IN_FLIGHT_KEY (rq_world s0)) [] s0 of
           (Inl e, s1) \<Rightarrow> (Inr no_reconcile, s1)
         | (Inr inFlight, s1) \<Rightarrow>
             (let report = no_reconcile\<lparr> rc_scanned := length inFlight \<rparr>
              in case live_snapshot R s1 of
                   (Inl e, s2) \<Rightarrow> (Inr report, s2)
                 | (Inr live, s2) \<Rightarrow>
                     (let residue = filter (\<lambda>k. k \<notin> set live) inFlight
                      in case fold (reconcile_one R sweepId) residue (report, s2) of
                           (report', s3) \<Rightarrow>
                             (Inr report', s3\<lparr> rq_reconcileTracker :=
                                filter (\<lambda>e. fst e \<in> set residue) (rq_reconcileTracker s3) \<rparr>))))"

section \<open>The interface\<close>

definition redis_queue_ops :: "'r queue_redis \<Rightarrow> 'r redis_queue queue_manager" where
  "redis_queue_ops R =
     \<lparr> qm_enqueue = rq_enqueue R, qm_enqueueIfAbsent = rq_enqueueIfAbsent R, qm_claim = rq_claim R,
       qm_release = rq_release R, qm_requeueForResume = rq_requeueForResume R, qm_complete = rq_complete R,
       qm_getQueueDepth = rq_getQueueDepth R, qm_getQueueItems = rq_getQueueItems R,
       qm_getActiveWorkerCount = rq_getActiveWorkerCount R, qm_hasInFlight = rq_hasInFlight R,
       qm_hasInFlightAge = rq_hasInFlightAge R, qm_reapOrphanClaims = rq_reapOrphanClaims R,
       qm_reconcileInFlight = rq_reconcileInFlight R \<rparr>"

end
