(* ===== verification/RedisQueueContract.thy ===== *)
theory RedisQueueContract
  imports RedisQueue
begin

text \<open>
  The Redis adapter keeps the contract \<open>work_queue\<close> on every server with the documented
  behaviour: the place of an item is read off the pending sorted set and the claim hashes,
  and the in-flight index is exactly the set of items that have a place.
\<close>

section \<open>Places in a database\<close>

text \<open>
  \<open>P\<close> is the pending sorted set, \<open>C w\<close> the claim hash of worker \<open>w\<close>.
\<close>

definition placed :: "(payload \<rightharpoonup> rat) \<Rightarrow> (string \<Rightarrow> string \<rightharpoonup> payload) \<Rightarrow> string \<Rightarrow> place \<Rightarrow> bool" where
  "placed P C k p =
     (case p of
        Queued n z \<Rightarrow> (\<exists>s. P (Item s) = Some z \<and> si_itemKey s = k \<and> si_attemptCount s = n)
      | Held w n \<Rightarrow> (\<exists>s. C w k = Some (Item s) \<and> si_attemptCount s = n))"

definition data_places :: "(payload \<rightharpoonup> rat) \<Rightarrow> (string \<Rightarrow> string \<rightharpoonup> payload) \<Rightarrow> places" where
  "data_places P C k = (if \<exists>p. placed P C k p then Some (SOME p. placed P C k p) else None)"

definition well_keyed :: "string \<Rightarrow> payload \<Rightarrow> bool" where
  "well_keyed k m \<longleftrightarrow> (\<exists>s. m = Item s \<and> si_itemKey s = k \<and> buildItemKey s = k)"

text \<open>Every stored text is an item under its own key, and no key is stored twice.\<close>

definition shape :: "(payload \<rightharpoonup> rat) \<Rightarrow> (string \<Rightarrow> string \<rightharpoonup> payload) \<Rightarrow> bool" where
  "shape P C \<longleftrightarrow>
     (\<forall>m z. P m = Some z \<longrightarrow> (\<exists>k. well_keyed k m)) \<and>
     (\<forall>w k m. C w k = Some m \<longrightarrow> well_keyed k m) \<and>
     (\<forall>s s'. P (Item s) \<noteq> None \<longrightarrow> P (Item s') \<noteq> None \<longrightarrow> si_itemKey s = si_itemKey s' \<longrightarrow> s = s') \<and>
     (\<forall>w w' k. C w k \<noteq> None \<longrightarrow> C w' k \<noteq> None \<longrightarrow> w = w') \<and>
     (\<forall>s w. P (Item s) \<noteq> None \<longrightarrow> C w (si_itemKey s) = None)"

lemma placed_simps [simp]:
  "placed P C k (Queued n z) \<longleftrightarrow> (\<exists>s. P (Item s) = Some z \<and> si_itemKey s = k \<and> si_attemptCount s = n)"
  "placed P C k (Held w n) \<longleftrightarrow> (\<exists>s. C w k = Some (Item s) \<and> si_attemptCount s = n)"
  by (simp_all add: placed_def)

lemma shapeD:
  assumes "shape P C"
  shows "P m = Some z \<Longrightarrow> \<exists>s. m = Item s \<and> buildItemKey s = si_itemKey s"
    and "C w k = Some m \<Longrightarrow> \<exists>s. m = Item s \<and> si_itemKey s = k \<and> buildItemKey s = k"
    and "P (Item s) = Some x \<Longrightarrow> P (Item s') = Some y \<Longrightarrow> si_itemKey s = si_itemKey s' \<Longrightarrow> s = s'"
    and "C w k = Some m \<Longrightarrow> C w' k = Some m' \<Longrightarrow> w = w'"
    and "P (Item s) = Some z \<Longrightarrow> C w (si_itemKey s) = None"
  using assms unfolding shape_def well_keyed_def by blast+

lemma shapeI:
  assumes "\<And>m z. P m = Some z \<Longrightarrow> \<exists>k. well_keyed k m" and "\<And>w k m. C w k = Some m \<Longrightarrow> well_keyed k m"
    and "\<And>s s' x y. P (Item s) = Some x \<Longrightarrow> P (Item s') = Some y \<Longrightarrow> si_itemKey s = si_itemKey s' \<Longrightarrow> s = s'"
    and "\<And>w w' k x y. C w k = Some x \<Longrightarrow> C w' k = Some y \<Longrightarrow> w = w'"
    and "\<And>s w x. P (Item s) = Some x \<Longrightarrow> C w (si_itemKey s) = None"
  shows "shape P C"
  using assms unfolding shape_def by blast

lemma shape_keyed:
  assumes "shape P C"
  shows "P m = Some z \<Longrightarrow> \<exists>k. well_keyed k m" and "C w k = Some m \<Longrightarrow> well_keyed k m"
  using assms unfolding shape_def by blast+

lemma placed_unique:
  assumes "shape P C" and "placed P C k p" and "placed P C k p'"
  shows "p = p'"
proof (cases p; cases p')
  fix n z n' z' assume q: "p = Queued n z" "p' = Queued n' z'"
  with assms(2,3) obtain s s' where "P (Item s) = Some z" "P (Item s') = Some z'" "si_itemKey s = k" "si_itemKey s' = k"
    "si_attemptCount s = n" "si_attemptCount s' = n'" by auto
  moreover from this have "s = s'" using shapeD(3) [OF assms(1)] by simp
  ultimately show ?thesis using q by simp
next
  fix w n w' n' assume q: "p = Held w n" "p' = Held w' n'"
  with assms(2,3) obtain s s' where "C w k = Some (Item s)" "C w' k = Some (Item s')" "si_attemptCount s = n" "si_attemptCount s' = n'"
    by auto
  moreover from this have "w = w'" using shapeD(4) [OF assms(1)] by simp
  ultimately show ?thesis using q by simp
qed (use assms shapeD(5) [OF assms(1)] in auto)

lemma data_places_iff: "shape P C \<Longrightarrow> data_places P C k = Some p \<longleftrightarrow> placed P C k p"
  unfolding data_places_def by (auto intro: someI placed_unique)

lemma data_places_None: "shape P C \<Longrightarrow> data_places P C k = None \<longleftrightarrow> (\<forall>p. \<not> placed P C k p)"
  by (simp add: data_places_def)

lemma map_Some_eqI: "(\<And>k p. f k = Some p \<longleftrightarrow> g k = Some p) \<Longrightarrow> f = g"
  by (rule ext) (metis not_None_eq)

lemma no_place:
  assumes "shape P C" and "data_places P C k = None"
  shows "P (Item s) \<noteq> None \<Longrightarrow> si_itemKey s \<noteq> k" and "C w k = None"
proof -
  have n: "\<not> placed P C k p" for p using assms by (simp add: data_places_None)
  show "P (Item s) \<noteq> None \<Longrightarrow> si_itemKey s \<noteq> k" using n [of "Queued (si_attemptCount s) (the (P (Item s)))"] by auto
  show "C w k = None"
  proof (cases "C w k")
    case (Some m)
    with shapeD(2) [OF assms(1), of w k m] n [of "Held w _"] show ?thesis by auto
  qed simp
qed

lemma data_places_eqI:
  assumes "shape P C" and "shape P' C'" and "\<And>k' p. placed P' C' k' p \<longleftrightarrow> (if k' = k then new = Some p else placed P C k' p)"
  shows "data_places P' C' = (data_places P C)(k := new)"
proof (rule map_Some_eqI)
  fix k' p
  show "data_places P' C' k' = Some p \<longleftrightarrow> ((data_places P C)(k := new)) k' = Some p"
    using assms(3) [of k' p] data_places_iff [OF assms(1), of k' p] data_places_iff [OF assms(2), of k' p] by simp
qed

lemma queue_new:
  assumes "shape P C" and "data_places P C k = None" and "well_keyed k (Item s)"
  shows "shape (P(Item s \<mapsto> z)) C" and "data_places (P(Item s \<mapsto> z)) C = (data_places P C)(k \<mapsto> Queued (si_attemptCount s) z)"
proof -
  have n: "P (Item s') = Some x \<Longrightarrow> si_itemKey s' \<noteq> k" "C w' k = None" for s' x w' using no_place [OF assms(1,2)] by auto
  have s: "si_itemKey s = k" using assms(3) by (auto simp: well_keyed_def)
  have a: "P (Item s) = None" using n(1) [of s] s by (cases "P (Item s)") auto
  show sh: "shape (P(Item s \<mapsto> z)) C"
    by (rule shapeI) (use assms(3) in \<open>auto simp: n s split: if_splits dest: n(1) shape_keyed [OF assms(1)] shapeD(3-5) [OF assms(1)]\<close>)
  have "placed (P(Item s \<mapsto> z)) C k' p \<longleftrightarrow> (if k' = k then Some (Queued (si_attemptCount s) z) = Some p else placed P C k' p)" for k' p
    by (cases p) (auto simp: n(2) s a dest: n(1), metis s)
  then show "data_places (P(Item s \<mapsto> z)) C = (data_places P C)(k \<mapsto> Queued (si_attemptCount s) z)"
    by (rule data_places_eqI [OF assms(1) sh])
qed

lemma drop_claim_data:
  assumes "shape P C" and "C w k = Some m"
  shows "shape P (C(w := (C w)(k := None)))" and "data_places P (C(w := (C w)(k := None))) = (data_places P C)(k := None)"
proof -
  show sh: "shape P (C(w := (C w)(k := None)))"
    by (rule shapeI) (auto split: if_splits dest: shape_keyed [OF assms(1)] shapeD(3-5) [OF assms(1)])
  have u: "C w' k = None" if "w' \<noteq> w" for w' using shapeD(4) [OF assms(1,2), of w'] that by (cases "C w' k") auto
  have v: "si_itemKey s \<noteq> k" if "P (Item s) = Some x" for s x using shapeD(5) [OF assms(1) that, of w] assms(2) by auto
  have "placed P (C(w := (C w)(k := None))) k' p \<longleftrightarrow> (if k' = k then None = Some p else placed P C k' p)" for k' p
    by (cases p) (auto simp: u dest: v)
  then show "data_places P (C(w := (C w)(k := None))) = (data_places P C)(k := None)" by (rule data_places_eqI [OF assms(1) sh])
qed

lemma pop_pending:
  assumes "shape P C" and "P (Item s) = Some z"
  shows "shape (P(Item s := None)) C" and "data_places (P(Item s := None)) C = (data_places P C)(si_itemKey s := None)"
proof -
  show sh: "shape (P(Item s := None)) C"
    by (rule shapeI) (auto split: if_splits dest: shape_keyed [OF assms(1)] shapeD(3-5) [OF assms(1)])
  have u: "s' = s" if "P (Item s') = Some x" "si_itemKey s' = si_itemKey s" for s' x using shapeD(3) [OF assms(1) that(1) assms(2) that(2)] .
  have v: "C w (si_itemKey s) = None" for w using shapeD(5) [OF assms] .
  have "placed (P(Item s := None)) C k' p \<longleftrightarrow> (if k' = si_itemKey s then None = Some p else placed P C k' p)" for k' p
    by (cases p) (auto simp: v dest: u)
  then show "data_places (P(Item s := None)) C = (data_places P C)(si_itemKey s := None)" by (rule data_places_eqI [OF assms(1) sh])
qed

lemma claim_new:
  assumes "shape P C" and "data_places P C k = None" and "well_keyed k (Item s)"
  shows "shape P (C(w := (C w)(k \<mapsto> Item s)))" and "data_places P (C(w := (C w)(k \<mapsto> Item s))) = (data_places P C)(k \<mapsto> Held w (si_attemptCount s))"
proof -
  have n: "P (Item s') = Some x \<Longrightarrow> si_itemKey s' \<noteq> k" "C w' k = None" for s' x w' using no_place [OF assms(1,2)] by auto
  show sh: "shape P (C(w := (C w)(k \<mapsto> Item s)))"
    by (rule shapeI) (auto simp: n assms(3) split: if_splits dest: n(1) shape_keyed [OF assms(1)] shapeD(3-5) [OF assms(1)])
  have "placed P (C(w := (C w)(k \<mapsto> Item s))) k' p
      \<longleftrightarrow> (if k' = k then Some (Held w (si_attemptCount s)) = Some p else placed P C k' p)" for k' p
    by (cases p) (auto simp: n(2) dest: n(1))
  then show "data_places P (C(w := (C w)(k \<mapsto> Item s))) = (data_places P C)(k \<mapsto> Held w (si_attemptCount s))"
    by (rule data_places_eqI [OF assms(1) sh])
qed

section \<open>The database of the queue\<close>

definition pending_of :: "redis_db \<Rightarrow> payload \<rightharpoonup> rat" where
  "pending_of d = as_zset (d PENDING_KEY)"

definition claims_of :: "redis_db \<Rightarrow> string \<Rightarrow> string \<rightharpoonup> payload" where
  "claims_of d w = as_hash (d (buildClaimedKey w))"

definition dead_of :: "redis_db \<Rightarrow> payload \<rightharpoonup> rat" where
  "dead_of d = as_zset (d DEAD_LETTER_KEY)"

definition in_flight_of :: "redis_db \<Rightarrow> string set" where
  "in_flight_of d = as_set (d IN_FLIGHT_KEY)"

definition db_places :: "redis_db \<Rightarrow> places" where
  "db_places d = data_places (pending_of d) (claims_of d)"

definition typed :: "redis_db \<Rightarrow> bool" where
  "typed d \<longleftrightarrow> is_zset (d PENDING_KEY) \<and> is_zset (d DEAD_LETTER_KEY) \<and> is_set (d IN_FLIGHT_KEY) \<and> (\<forall>w. is_hash (d (buildClaimedKey w)))"

definition db_ok :: "redis_db \<Rightarrow> bool" where
  "db_ok d \<longleftrightarrow> typed d \<and> shape (pending_of d) (claims_of d) \<and> in_flight_of d = dom (db_places d)"

lemmas key_defs = PENDING_KEY_def CLAIMED_KEY_PREFIX_def HEARTBEAT_KEY_PREFIX_def DEAD_LETTER_KEY_def IN_FLIGHT_KEY_def

lemma keys_differ [simp]:
  "buildClaimedKey w = buildClaimedKey w' \<longleftrightarrow> w = w'"
  "buildClaimedKey w \<noteq> PENDING_KEY" "PENDING_KEY \<noteq> buildClaimedKey w"
  "buildClaimedKey w \<noteq> DEAD_LETTER_KEY" "DEAD_LETTER_KEY \<noteq> buildClaimedKey w"
  "buildClaimedKey w \<noteq> IN_FLIGHT_KEY" "IN_FLIGHT_KEY \<noteq> buildClaimedKey w"
  "buildHeartbeatKey w \<noteq> PENDING_KEY" "PENDING_KEY \<noteq> buildHeartbeatKey w"
  "buildHeartbeatKey w \<noteq> DEAD_LETTER_KEY" "DEAD_LETTER_KEY \<noteq> buildHeartbeatKey w"
  "buildHeartbeatKey w \<noteq> IN_FLIGHT_KEY" "IN_FLIGHT_KEY \<noteq> buildHeartbeatKey w"
  "buildHeartbeatKey w \<noteq> buildClaimedKey w'" "buildClaimedKey w' \<noteq> buildHeartbeatKey w"
  "PENDING_KEY \<noteq> DEAD_LETTER_KEY" "DEAD_LETTER_KEY \<noteq> PENDING_KEY"
  "PENDING_KEY \<noteq> IN_FLIGHT_KEY" "IN_FLIGHT_KEY \<noteq> PENDING_KEY"
  "DEAD_LETTER_KEY \<noteq> IN_FLIGHT_KEY" "IN_FLIGHT_KEY \<noteq> DEAD_LETTER_KEY"
  by (simp_all add: buildClaimedKey_def buildHeartbeatKey_def key_defs)

text \<open>The updates of a database that the commands of the scripts make.\<close>

definition set_pending :: "(payload \<rightharpoonup> rat) \<Rightarrow> redis_db \<Rightarrow> redis_db" where
  "set_pending P d = d(PENDING_KEY := of_zset P)"

definition set_claims :: "string \<Rightarrow> (string \<rightharpoonup> payload) \<Rightarrow> redis_db \<Rightarrow> redis_db" where
  "set_claims w h d = d(buildClaimedKey w := of_hash h)"

definition set_in_flight :: "string set \<Rightarrow> redis_db \<Rightarrow> redis_db" where
  "set_in_flight A d = d(IN_FLIGHT_KEY := of_set A)"

definition set_dead :: "(payload \<rightharpoonup> rat) \<Rightarrow> redis_db \<Rightarrow> redis_db" where
  "set_dead P d = d(DEAD_LETTER_KEY := of_zset P)"

definition set_heartbeat :: "string \<Rightarrow> rval \<Rightarrow> redis_db \<Rightarrow> redis_db" where
  "set_heartbeat w v d = d(buildHeartbeatKey w := v)"

lemmas db_updates = set_pending_def set_claims_def set_in_flight_def set_dead_def set_heartbeat_def

lemma db_views [simp]:
  "pending_of (set_pending P d) = P" "pending_of (set_claims w h d) = pending_of d" "pending_of (set_in_flight A d) = pending_of d"
  "pending_of (set_dead P d) = pending_of d" "pending_of (set_heartbeat w v d) = pending_of d"
  "claims_of (set_pending P d) = claims_of d" "claims_of (set_claims w h d) = (claims_of d)(w := h)"
  "claims_of (set_in_flight A d) = claims_of d" "claims_of (set_dead P d) = claims_of d" "claims_of (set_heartbeat w v d) = claims_of d"
  "dead_of (set_pending P d) = dead_of d" "dead_of (set_claims w h d) = dead_of d" "dead_of (set_in_flight A d) = dead_of d"
  "dead_of (set_dead P d) = P" "dead_of (set_heartbeat w v d) = dead_of d"
  "in_flight_of (set_pending P d) = in_flight_of d" "in_flight_of (set_claims w h d) = in_flight_of d"
  "in_flight_of (set_in_flight A d) = A" "in_flight_of (set_dead P d) = in_flight_of d" "in_flight_of (set_heartbeat w v d) = in_flight_of d"
  "typed d \<Longrightarrow> typed (set_pending P d)" "typed d \<Longrightarrow> typed (set_claims w h d)" "typed d \<Longrightarrow> typed (set_in_flight A d)"
  "typed d \<Longrightarrow> typed (set_dead P d)" "typed d \<Longrightarrow> typed (set_heartbeat w v d)"
  by (auto simp: pending_of_def claims_of_def in_flight_of_def dead_of_def db_updates typed_def)

lemma typedD:
  assumes "typed d"
  shows "is_zset (d PENDING_KEY)" "is_zset (d DEAD_LETTER_KEY)" "is_set (d IN_FLIGHT_KEY)" "is_hash (d (buildClaimedKey w))"
  using assms by (simp_all add: typed_def)

lemma db_okD:
  assumes "db_ok d"
  shows "typed d" "shape (pending_of d) (claims_of d)" "in_flight_of d = dom (db_places d)"
  using assms by (simp_all add: db_ok_def)

section \<open>The commands as updates\<close>

lemma does_if:
  assumes "b \<Longrightarrow> does kv up f r x d" and "\<not> b \<Longrightarrow> does kv up g r x d"
  shows "does kv up (if b then f else g) r x d"
  using assms by simp

lemma does_done: "up r \<Longrightarrow> x = y \<Longrightarrow> kv r = d \<Longrightarrow> does kv up (cret x) r y d"
  using does_ret [of up r kv x] by simp

lemma queue_commands:
  assumes "queue_redis_laws R kv up" and "up r" and "typed (kv r)"
  shows cmd_sismember: "does kv up (q_sismember R IN_FLIGHT_KEY k) r (k \<in> in_flight_of (kv r)) (kv r)"
    and cmd_sadd: "does kv up (q_sadd R IN_FLIGHT_KEY k) r () (set_in_flight (insert k (in_flight_of (kv r))) (kv r))"
    and cmd_srem: "does kv up (q_srem R IN_FLIGHT_KEY k) r () (set_in_flight (in_flight_of (kv r) - {k}) (kv r))"
    and cmd_zadd: "does kv up (q_zadd R PENDING_KEY z m) r () (set_pending ((pending_of (kv r))(m \<mapsto> z)) (kv r))"
    and cmd_zadd_dead: "does kv up (q_zadd R DEAD_LETTER_KEY z m) r () (set_dead ((dead_of (kv r))(m \<mapsto> z)) (kv r))"
    and cmd_hset: "does kv up (q_hset R (buildClaimedKey w) k p) r () (set_claims w ((claims_of (kv r) w)(k \<mapsto> p)) (kv r))"
    and cmd_hget: "does kv up (q_hget R (buildClaimedKey w) k) r (claims_of (kv r) w k) (kv r)"
    and cmd_hdel: "does kv up (q_hdel R (buildClaimedKey w) k) r () (set_claims w ((claims_of (kv r) w)(k := None)) (kv r))"
    and cmd_del: "does kv up (q_del R (buildHeartbeatKey w)) r () (set_heartbeat w Absent (kv r))"
    and cmd_setex: "0 < t \<Longrightarrow> does kv up (q_setex R (buildHeartbeatKey w) t) r () (set_heartbeat w Rstring (kv r))"
  unfolding in_flight_of_def pending_of_def claims_of_def dead_of_def db_updates
  using q_sismember_law [OF assms(1,2) typedD(3) [OF assms(3)]] q_sadd_law [OF assms(1,2) typedD(3) [OF assms(3)]]
    q_srem_law [OF assms(1,2) typedD(3) [OF assms(3)]] q_zadd_law [OF assms(1,2) typedD(1) [OF assms(3)]]
    q_zadd_law [OF assms(1,2) typedD(2) [OF assms(3)]] q_hset_law [OF assms(1,2) typedD(4) [OF assms(3)]]
    q_hget_law [OF assms(1,2) typedD(4) [OF assms(3)]] q_hdel_law [OF assms(1,2) typedD(4) [OF assms(3)]]
    q_del_law [OF assms(1,2)] q_setex_law [OF assms(1,2)]
  by blast+

lemmas script_steps = does_bind cmd_sismember cmd_sadd cmd_srem cmd_zadd cmd_zadd_dead cmd_hset cmd_hdel cmd_del cmd_setex does_done

section \<open>The scripts\<close>

lemma enqueue_script:
  assumes "queue_redis_laws R kv up" and "up r" and "typed (kv r)"
  shows "does kv up (ENQUEUE_IF_ABSENT_SCRIPT R PENDING_KEY IN_FLIGHT_KEY k z m) r
     (if k \<in> in_flight_of (kv r) then 0 else 1)
     (if k \<in> in_flight_of (kv r) then kv r
      else set_pending ((pending_of (kv r))(m \<mapsto> z)) (set_in_flight (insert k (in_flight_of (kv r))) (kv r)))"
  unfolding ENQUEUE_IF_ABSENT_SCRIPT_def
  by (rule does_if script_steps assms | simp add: assms; fail)+

text \<open>The database after a claim has been given up.\<close>

definition unclaimed :: "string \<Rightarrow> string \<Rightarrow> redis_db \<Rightarrow> redis_db" where
  "unclaimed w k d = set_heartbeat w Absent (set_claims w ((claims_of d w)(k := None)) d)"

lemma unclaimed_views [simp]:
  "pending_of (unclaimed w k d) = pending_of d" "in_flight_of (unclaimed w k d) = in_flight_of d" "dead_of (unclaimed w k d) = dead_of d"
  "claims_of (unclaimed w k d) = (claims_of d)(w := (claims_of d w)(k := None))" "typed d \<Longrightarrow> typed (unclaimed w k d)"
  by (simp_all add: unclaimed_def)

lemma release_script_retry:
  assumes "queue_redis_laws R kv up" and "up r" and d: "kv r = d" and "typed d" and "claims_of d w k = Some (Item s)"
    and "\<not> limit \<le> Suc (si_attemptCount s)"
  shows "does kv up (RELEASE_SCRIPT R PENDING_KEY (buildClaimedKey w) (buildHeartbeatKey w) DEAD_LETTER_KEY IN_FLIGHT_KEY
        k z base limit now) r (1, int (Suc (si_attemptCount s)))
     (set_pending ((pending_of d)(Item (repend_item R base (Some Reason_retry) z (Suc (si_attemptCount s)) k) \<mapsto> z))
        (unclaimed w k d))"
  unfolding d [symmetric] RELEASE_SCRIPT_def
  apply (rule does_bind [OF cmd_hget [OF assms(1,2) assms(4) [folded d]]])
  apply (simp add: assms(5) [folded d] cjson_decode_def)
  apply (rule does_bind [OF does_ret], assumption)
  apply (simp add: Let_def assms(6))
  apply (rule script_steps assms(1,2) | simp add: assms(4) [folded d] unclaimed_def; fail)+
  done

lemma release_script_dead:
  assumes "queue_redis_laws R kv up" and "up r" and d: "kv r = d" and "typed d" and "claims_of d w k = Some (Item s)"
    and "limit \<le> Suc (si_attemptCount s)"
  shows "does kv up (RELEASE_SCRIPT R PENDING_KEY (buildClaimedKey w) (buildHeartbeatKey w) DEAD_LETTER_KEY IN_FLIGHT_KEY
        k z base limit now) r (2, int (Suc (si_attemptCount s)))
     (set_in_flight (in_flight_of d - {k})
        (set_dead ((dead_of d)(Item (repend_item R base (qi_queueReason base) (qi_priority base) (Suc (si_attemptCount s)) k)
                                      \<mapsto> of_int now)) (unclaimed w k d)))"
  unfolding d [symmetric] RELEASE_SCRIPT_def
  apply (rule does_bind [OF cmd_hget [OF assms(1,2) assms(4) [folded d]]])
  apply (simp add: assms(5) [folded d] cjson_decode_def)
  apply (rule does_bind [OF does_ret], assumption)
  apply (simp add: Let_def assms(6))
  apply (rule script_steps assms(1,2) | simp add: assms(4) [folded d] unclaimed_def; fail)+
  done

lemma release_script_none:
  assumes "queue_redis_laws R kv up" and "up r" and d: "kv r = d" and "typed d" and "claims_of d w k = None"
  shows "does kv up (RELEASE_SCRIPT R PENDING_KEY (buildClaimedKey w) (buildHeartbeatKey w) DEAD_LETTER_KEY IN_FLIGHT_KEY
        k z base limit now) r (0, -1) (set_heartbeat w Absent d)"
  unfolding d [symmetric] RELEASE_SCRIPT_def
  apply (rule does_bind [OF cmd_hget [OF assms(1,2) assms(4) [folded d]]])
  apply (simp add: assms(5) [folded d])
  apply (rule script_steps assms(1,2) | simp add: assms(4) [folded d]; fail)+
  done

lemma resume_script_held:
  assumes "queue_redis_laws R kv up" and "up r" and d: "kv r = d" and "typed d" and "claims_of d w k = Some (Item s)"
  shows "does kv up (REQUEUE_FOR_RESUME_SCRIPT R PENDING_KEY (buildClaimedKey w) (buildHeartbeatKey w) k z base) r
     (1, int (si_attemptCount s))
     (set_pending ((pending_of d)(Item (repend_item R base (Some Reason_resume) z (si_attemptCount s) k) \<mapsto> z))
        (unclaimed w k d))"
  unfolding d [symmetric] REQUEUE_FOR_RESUME_SCRIPT_def
  apply (rule does_bind [OF cmd_hget [OF assms(1,2) assms(4) [folded d]]])
  apply (simp add: assms(5) [folded d] cjson_decode_def)
  apply (rule does_bind [OF does_ret], assumption)
  apply (simp add: Let_def)
  apply (rule script_steps assms(1,2) | simp add: assms(4) [folded d] unclaimed_def; fail)+
  done

lemma resume_script_none:
  assumes "queue_redis_laws R kv up" and "up r" and d: "kv r = d" and "typed d" and "claims_of d w k = None"
  shows "does kv up (REQUEUE_FOR_RESUME_SCRIPT R PENDING_KEY (buildClaimedKey w) (buildHeartbeatKey w) k z base) r
     (0, -1) (set_heartbeat w Absent d)"
  unfolding d [symmetric] REQUEUE_FOR_RESUME_SCRIPT_def
  apply (rule does_bind [OF cmd_hget [OF assms(1,2) assms(4) [folded d]]])
  apply (simp add: assms(5) [folded d])
  apply (rule script_steps assms(1,2) | simp add: assms(4) [folded d]; fail)+
  done

lemma complete_script:
  assumes "queue_redis_laws R kv up" and "up r" and "typed (kv r)"
  shows "does kv up (complete_multi R w k) r () (set_in_flight (in_flight_of (kv r) - {k}) (unclaimed w k (kv r)))"
proof -
  have s: "does kv up (q_srem R IN_FLIGHT_KEY k) r' () (set_in_flight (in_flight_of (kv r) - {k}) (unclaimed w k (kv r)))"
    if "up r'" and "kv r' = unclaimed w k (kv r)" for r'
    using cmd_srem [OF assms(1) that(1), of k] that(2) assms(3) by simp
  show ?thesis
    unfolding complete_multi_def
    by (rule does_bind cmd_hdel cmd_del s assms(1,2) | simp add: assms(3) unclaimed_def; fail | assumption)+
qed

lemma claim_script_none:
  assumes "queue_redis_laws R kv up" and "up r" and "typed (kv r)" and "pending_of (kv r) = Map.empty"
  shows "does kv up (CLAIM_SCRIPT R PENDING_KEY c h t stamp) r None (kv r)"
proof -
  have a: "kv r PENDING_KEY = Absent" using assms(3,4) by (simp add: typed_def is_zset_def pending_of_def)
  show ?thesis
    unfolding CLAIM_SCRIPT_def
    apply (rule does_bind [OF q_zpopmin_none [OF assms(1,2) a]])
    apply (simp add: does_done)
    done
qed

lemma claim_script_some:
  assumes "queue_redis_laws R kv up" and "up r" and "db_ok (kv r)" and "pending_of (kv r) \<noteq> Map.empty" and "0 < t"
  shows "\<exists>s z. pending_of (kv r) (Item s) = Some z \<and> (\<forall>m z'. pending_of (kv r) m = Some z' \<longrightarrow> z \<le> z')
     \<and> does kv up (CLAIM_SCRIPT R PENDING_KEY (buildClaimedKey w) (buildHeartbeatKey w) t stamp) r
         (Some (Item (cjson_item R (s\<lparr> si_claimedAt := Some stamp \<rparr>))))
         (set_heartbeat w Rstring
            (set_claims w ((claims_of (kv r) w)(si_itemKey s \<mapsto> Item (cjson_item R (s\<lparr> si_claimedAt := Some stamp \<rparr>))))
               (set_pending ((pending_of (kv r))(Item s := None)) (kv r))))"
proof -
  note d = db_okD [OF assms(3)]
  have "kv r PENDING_KEY \<noteq> Absent" using assms(4) by (auto simp: pending_of_def)
  from q_zpopmin_some [OF assms(1,2) typedD(1) [OF d(1)] this] obtain m z where
    m: "pending_of (kv r) m = Some z" "\<forall>m' z'. pending_of (kv r) m' = Some z' \<longrightarrow> z \<le> z'"
      "does kv up (q_zpopmin R PENDING_KEY) r (Some m) (set_pending ((pending_of (kv r))(m := None)) (kv r))"
    unfolding pending_of_def set_pending_def by blast
  from shapeD(1) [OF d(2) m(1)] obtain s where s: "m = Item s" by blast
  have "does kv up (CLAIM_SCRIPT R PENDING_KEY (buildClaimedKey w) (buildHeartbeatKey w) t stamp) r
         (Some (Item (cjson_item R (s\<lparr> si_claimedAt := Some stamp \<rparr>))))
         (set_heartbeat w Rstring
            (set_claims w ((claims_of (kv r) w)(si_itemKey s \<mapsto> Item (cjson_item R (s\<lparr> si_claimedAt := Some stamp \<rparr>))))
               (set_pending ((pending_of (kv r))(Item s := None)) (kv r))))"
    unfolding CLAIM_SCRIPT_def
    apply (rule does_bind [OF m(3) [unfolded s]])
    apply (simp add: cjson_decode_def)
    apply (rule does_bind [OF does_ret], assumption)
    apply (simp add: Let_def)
    apply (rule script_steps assms(1,2) | simp add: d(1) assms(5); fail)+
    done
  with m(1,2) show ?thesis unfolding s by blast
qed

section \<open>The adapter around the scripts\<close>

definition server_ok :: "('r \<Rightarrow> redis_db) \<Rightarrow> ('r \<Rightarrow> bool) \<Rightarrow> 'r redis_queue \<Rightarrow> bool" where
  "server_ok kv up s \<longleftrightarrow> up (rq_world s) \<and> typed (kv (rq_world s))"

text \<open>A computation that returns, with a result in \<open>Q\<close>, and changes no data on the server.\<close>

definition quiet :: "('r \<Rightarrow> redis_db) \<Rightarrow> ('r \<Rightarrow> bool) \<Rightarrow> ('r redis_queue, 'a) js \<Rightarrow> ('a \<Rightarrow> bool) \<Rightarrow> bool" where
  "quiet kv up f Q \<longleftrightarrow> (\<forall>s. server_ok kv up s \<longrightarrow>
     (\<exists>x s'. f s = (Inr x, s') \<and> Q x \<and> server_ok kv up s' \<and> kv (rq_world s') = kv (rq_world s) \<and> rq_maxRetries s' = rq_maxRetries s))"

lemma quietD:
  assumes "quiet kv up f Q" and "server_ok kv up s"
  obtains x s' where "f s = (Inr x, s')" and "Q x" and "server_ok kv up s'" and "kv (rq_world s') = kv (rq_world s)"
    and "rq_maxRetries s' = rq_maxRetries s"
  using assms unfolding quiet_def by blast

lemma quiet_rules:
  "Q x \<Longrightarrow> quiet kv up (cret x) Q"
  "(\<And>s. rq_world (g s) = rq_world s \<and> rq_maxRetries (g s) = rq_maxRetries s) \<Longrightarrow> quiet kv up (cmod g) (\<lambda>_. True)"
  "quiet kv up f Q' \<Longrightarrow> quiet kv up (ctry f h) Q'"
  "(\<And>s. quiet kv up (f' s) Q'') \<Longrightarrow> quiet kv up (\<lambda>s. f' s s) Q''"
  by (fastforce simp: quiet_def comp_simps server_ok_def)+

lemma quiet_bind:
  assumes "quiet kv up f Q" and "\<And>x. Q x \<Longrightarrow> quiet kv up (g x) Q'"
  shows "quiet kv up (cbind f g) Q'"
  unfolding quiet_def
proof (intro allI impI)
  fix s assume "server_ok kv up s"
  with assms(1) obtain x s' where f: "f s = (Inr x, s')" "Q x" "server_ok kv up s'" "kv (rq_world s') = kv (rq_world s)"
    "rq_maxRetries s' = rq_maxRetries s" unfolding quiet_def by blast
  with assms(2) obtain y s'' where "g x s' = (Inr y, s'')" "Q' y" "server_ok kv up s''" "kv (rq_world s'') = kv (rq_world s')"
    "rq_maxRetries s'' = rq_maxRetries s'" unfolding quiet_def by blast
  with f show "\<exists>x s'. cbind f g s = (Inr x, s') \<and> Q' x \<and> server_ok kv up s' \<and> kv (rq_world s') = kv (rq_world s)
      \<and> rq_maxRetries s' = rq_maxRetries s" by (simp add: comp_simps)
qed

text \<open>A call runs its command in the state the server has when the request arrives.\<close>

lemma redis_call_runs:
  assumes "queue_redis_laws R kv up" and "up (rq_world s)"
  obtains r where "up r" and "kv r = kv (rq_world s)"
    and "\<And>x d. does kv up f r x d \<Longrightarrow> \<exists>r'. redis_call R f s = (Inr x, s\<lparr> rq_world := r' \<rparr>) \<and> up r' \<and> kv r' = d"
proof -
  from q_send_law [OF assms] obtain r where r: "q_send R (rq_world s) = (Inr (), r)" "up r" "kv r = kv (rq_world s)"
    by (auto simp: does_def)
  have "\<exists>r'. redis_call R f s = (Inr x, s\<lparr> rq_world := r' \<rparr>) \<and> up r' \<and> kv r' = d" if d: "does kv up f r x d" for x d
  proof -
    from d obtain r1 where r1: "f r = (Inr x, r1)" "up r1" "kv r1 = d" by (auto simp: does_def)
    from q_reply_law [OF assms(1) r1(2)] obtain r2 where "q_reply R r1 = (Inr (), r2)" "up r2" "kv r2 = kv r1"
      by (auto simp: does_def)
    with r r1 show ?thesis by (intro exI [of _ r2]) (simp add: redis_call_def on_server_def comp_simps)
  qed
  with that r show ?thesis by blast
qed

lemma quiet_call:
  assumes "queue_redis_laws R kv up"
    and "\<And>r. up r \<Longrightarrow> typed (kv r) \<Longrightarrow> \<exists>x. does kv up f r x (kv r) \<and> Q x"
  shows "quiet kv up (redis_call R f) Q"
  unfolding quiet_def
proof (intro allI impI)
  fix s assume s: "server_ok kv up s"
  obtain r where r: "up r" "kv r = kv (rq_world s)"
    and run: "\<And>x d. does kv up f r x d \<Longrightarrow> \<exists>r'. redis_call R f s = (Inr x, s\<lparr> rq_world := r' \<rparr>) \<and> up r' \<and> kv r' = d"
    using redis_call_runs [OF assms(1), of s f] s by (auto simp: server_ok_def)
  obtain x where "does kv up f r x (kv r)" "Q x" using assms(2) [OF r(1)] r(2) s by (auto simp: server_ok_def)
  with run [of x "kv r"] r(2) s show "\<exists>x s'. redis_call R f s = (Inr x, s') \<and> Q x \<and> server_ok kv up s'
      \<and> kv (rq_world s') = kv (rq_world s) \<and> rq_maxRetries s' = rq_maxRetries s" by (auto simp: server_ok_def)
qed

lemma script_call_ensured:
  "redis_call R f (ensure_command name s) = (x, s') \<Longrightarrow> script_call R name f (ensure_command name s) = (x, s')"
  by (simp add: script_call_def ensure_command_def)

lemma ensure_world [simp]:
  "rq_world (ensure_command name s) = rq_world s" "rq_maxRetries (ensure_command name s) = rq_maxRetries s"
  by (simp_all add: ensure_command_def)

lemma item_updates_world [simp]:
  "rq_world (forget_item k s) = rq_world s" "rq_maxRetries (forget_item k s) = rq_maxRetries s"
  "rq_world (remember_age k t s) = rq_world s" "rq_maxRetries (remember_age k t s) = rq_maxRetries s"
  by (simp_all add: forget_item_def remember_age_def split: option.split)

lemma quiet_payload_age: "quiet kv up (payload_age now k p) (\<lambda>_. True)"
  by (auto simp: quiet_def payload_age_def server_ok_def split: payload.split option.split)

lemma quiet_first_claim:
  assumes "queue_redis_laws R kv up" and "\<forall>key\<in>set keys. prefix CLAIMED_KEY_PREFIX key"
  shows "quiet kv up (first_claim R k keys) (\<lambda>_. True)"
  using assms(2)
proof (induction keys)
  case Nil
  then show ?case by (simp add: quiet_rules)
next
  case (Cons key keys)
  from Cons.prems obtain w where w: "key = buildClaimedKey w" by (auto simp: prefix_def buildClaimedKey_def)
  have "quiet kv up (redis_call R (q_hget R key k)) (\<lambda>_. True)"
    by (rule quiet_call [OF assms(1)]) (use cmd_hget [OF assms(1)] w in blast)
  then show ?case
    using Cons by (auto intro!: quiet_bind quiet_rules(1))
qed

lemma quiet_scan:
  assumes "queue_redis_laws R kv up"
  shows "quiet kv up (redis_call R (q_scan R c CLAIMED_KEY_PREFIX)) (\<lambda>keys. \<forall>key\<in>set keys. prefix CLAIMED_KEY_PREFIX key)"
  by (rule quiet_call [OF assms]) (use q_scan_law [OF assms, of _ c CLAIMED_KEY_PREFIX] in blast)

lemma quiet_scan_claims:
  assumes "queue_redis_laws R kv up"
  shows "quiet kv up (scan_claims R k cursors) (\<lambda>_. True)"
  by (induction cursors)
    (auto intro!: quiet_rules(1) quiet_bind [OF quiet_scan [OF assms]] quiet_bind [OF quiet_first_claim [OF assms]] split: option.split)

lemma quiet_pending:
  assumes "queue_redis_laws R kv up"
  shows "quiet kv up (redis_call R (q_zrange R PENDING_KEY a b)) (\<lambda>_. True)"
  by (rule quiet_call [OF assms]) (use q_zrange_law [OF assms, of _ PENDING_KEY] typedD(1) in blast)

lemma quiet_hasInFlightAge:
  assumes "queue_redis_laws R kv up"
  shows "quiet kv up (rq_hasInFlightAge R now k) (\<lambda>_. True)"
proof -
  have "quiet kv up (\<lambda>s. cbind (scan_claims R k (q_cursors R (rq_world s)))
      (\<lambda>p. case p of None \<Rightarrow> cret None | Some x \<Rightarrow> payload_age now k x) s) (\<lambda>_. True)"
    by (rule quiet_rules(4)) (auto intro!: quiet_bind [OF quiet_scan_claims [OF assms]] quiet_rules(1) quiet_payload_age split: option.split)
  then have "quiet kv up (ctry (cbind (redis_call R (q_zrange R PENDING_KEY 0 (-1))) (\<lambda>members.
                  case find (is_member_of k) (map fst members) of
                    Some p \<Rightarrow> payload_age now k p
                  | None \<Rightarrow> (\<lambda>s. cbind (scan_claims R k (q_cursors R (rq_world s))) (\<lambda>p.
                        case p of Some x \<Rightarrow> payload_age now k x | None \<Rightarrow> cret None) s)))
            (\<lambda>_. cret None)) (\<lambda>_. True)"
    by (auto intro!: quiet_rules(3) quiet_bind [OF quiet_pending [OF assms]] quiet_payload_age split: option.split)
  then show ?thesis by (auto simp: quiet_def rq_hasInFlightAge_def split: option.split)
qed

lemma quiet_drop:
  assumes "queue_redis_laws R kv up"
  shows "quiet kv up (rq_drop R now k) (\<lambda>_. True)"
  unfolding rq_drop_def
  by (rule quiet_bind [OF quiet_hasInFlightAge [OF assms]], rule quiet_rules(2)) (simp split: prod.split)

section \<open>The operations keep the contract\<close>

definition rq_ok :: "('r \<Rightarrow> redis_db) \<Rightarrow> ('r \<Rightarrow> bool) \<Rightarrow> 'r redis_queue \<Rightarrow> bool" where
  "rq_ok kv up s \<longleftrightarrow> up (rq_world s) \<and> db_ok (kv (rq_world s))"

definition rq_places :: "('r \<Rightarrow> redis_db) \<Rightarrow> 'r redis_queue \<Rightarrow> places" where
  "rq_places kv s = db_places (kv (rq_world s))"

lemma rq_ok_server: "rq_ok kv up s \<Longrightarrow> server_ok kv up s"
  by (simp add: rq_ok_def server_ok_def db_okD(1))

lemma well_keyed_serialize: "well_keyed (buildItemKey item) (Item (serialize_item item reason z n (buildItemKey item)))"
  by (simp add: well_keyed_def)

lemma cjson_item_fields [simp]:
  "si_itemKey (cjson_item R s) = si_itemKey s" "si_attemptCount (cjson_item R s) = si_attemptCount s"
  "buildItemKey (cjson_item R s) = buildItemKey s"
  by (simp_all add: cjson_item_def buildItemKey_def)

lemma repend_item_fields [simp]:
  "si_itemKey (repend_item R base reason z n k) = k" "si_attemptCount (repend_item R base reason z n k) = n"
  "buildItemKey (repend_item R base reason z n k) = buildItemKey base"
  by (simp_all add: repend_item_def)

text \<open>What the three kinds of updates do to places.\<close>

lemma db_queue:
  assumes "db_ok d" and "db_places d k = None" and "well_keyed k (Item s)"
  shows "db_ok (set_pending ((pending_of d)(Item s \<mapsto> z)) (set_in_flight (insert k (in_flight_of d)) d))"
    and "db_places (set_pending ((pending_of d)(Item s \<mapsto> z)) (set_in_flight (insert k (in_flight_of d)) d))
           = (db_places d)(k \<mapsto> Queued (si_attemptCount s) z)"
  using assms queue_new [OF db_okD(2) [OF assms(1)], of k s z] by (auto simp: db_ok_def db_places_def)

lemma unclaimed_places:
  assumes "db_ok d" and "claims_of d w k = Some m"
  shows "shape (pending_of d) (claims_of (unclaimed w k d))"
    and "data_places (pending_of d) (claims_of (unclaimed w k d)) = (db_places d)(k := None)"
  using drop_claim_data [OF db_okD(2) [OF assms(1)] assms(2)] by (simp_all add: db_places_def)

lemma db_requeue:
  assumes "db_ok d" and "claims_of d w k = Some m" and "well_keyed k (Item s)"
  shows "db_ok (set_pending ((pending_of d)(Item s \<mapsto> z)) (unclaimed w k d))"
    and "db_places (set_pending ((pending_of d)(Item s \<mapsto> z)) (unclaimed w k d)) = (db_places d)(k \<mapsto> Queued (si_attemptCount s) z)"
proof -
  note u = unclaimed_places [OF assms(1,2)]
  have n: "data_places (pending_of d) (claims_of (unclaimed w k d)) k = None" using u(2) by simp
  have "k \<in> in_flight_of d"
    using shapeD(2) [OF db_okD(2) [OF assms(1)] assms(2)] assms(2) db_okD(3) [OF assms(1)]
      data_places_iff [OF db_okD(2) [OF assms(1)], of k "Held w _"] by (fastforce simp: db_places_def)
  then show "db_ok (set_pending ((pending_of d)(Item s \<mapsto> z)) (unclaimed w k d))"
    and "db_places (set_pending ((pending_of d)(Item s \<mapsto> z)) (unclaimed w k d)) = (db_places d)(k \<mapsto> Queued (si_attemptCount s) z)"
    using queue_new [OF u(1) n assms(3), of z] u(2) db_okD(1,3) [OF assms(1)] by (auto simp: db_ok_def db_places_def)
qed

lemma db_remove:
  assumes "db_ok d" and "claims_of d w k = Some m" and "D = unclaimed w k d \<or> D = set_dead x (unclaimed w k d)"
  shows "db_ok (set_in_flight (in_flight_of d - {k}) D)"
    and "db_places (set_in_flight (in_flight_of d - {k}) D) = (db_places d)(k := None)"
  using unclaimed_places [OF assms(1,2)] db_okD(1,3) [OF assms(1)] assms(3)
  by (auto simp: db_ok_def db_places_def split: if_splits)

lemma db_heartbeat:
  assumes "db_ok d"
  shows "db_ok (set_heartbeat w v d)" and "db_places (set_heartbeat w v d) = db_places d"
  using assms by (simp_all add: db_ok_def db_places_def)

lemma db_claim:
  fixes w :: string and v :: rval
  assumes "db_ok d" and "pending_of d (Item s) = Some z" and "s' = cjson_item R (s\<lparr> si_claimedAt := c \<rparr>)"
  defines "D \<equiv> set_heartbeat w v (set_claims w ((claims_of d w)(si_itemKey s \<mapsto> Item s')) (set_pending ((pending_of d)(Item s := None)) d))"
  shows "db_ok D" and "db_places D = (db_places d)(si_itemKey s \<mapsto> Held w (si_attemptCount s))"
proof -
  note sh = db_okD(2) [OF assms(1)]
  note p = pop_pending [OF sh assms(2)]
  have w: "well_keyed (si_itemKey s) (Item s')" "si_attemptCount s' = si_attemptCount s"
    using shapeD(1) [OF sh assms(2)] by (auto simp: well_keyed_def assms(3) buildItemKey_def cjson_item_def)
  have n: "data_places ((pending_of d)(Item s := None)) (claims_of d) (si_itemKey s) = None" using p(2) by simp
  have "db_places d (si_itemKey s) = Some (Queued (si_attemptCount s) z)"
    using data_places_iff [OF sh, of "si_itemKey s"] assms(2) by (auto simp: db_places_def)
  then have "si_itemKey s \<in> in_flight_of d" using db_okD(3) [OF assms(1)] by auto
  then show "db_ok D" and "db_places D = (db_places d)(si_itemKey s \<mapsto> Held w (si_attemptCount s))"
    using claim_new [OF p(1) n w(1), of w] p(2) w(2) db_okD(1,3) [OF assms(1)]
    by (auto simp: D_def db_ok_def db_places_def)
qed

lemma enqueue_checked_contract:
  fixes item :: queue_item
  assumes "queue_redis_laws R kv up" and "rq_ok kv up s"
  defines "k \<equiv> buildItemKey item"
  shows "\<exists>s'. enqueue_checked R now item (ensure_command ''enqueueIfAbsent'' s) = (Inr (rq_places kv s k = None), s')
     \<and> rq_ok kv up s' \<and> rq_maxRetries s' = rq_maxRetries s
     \<and> rq_places kv s' = put_absent k (Queued 0 (getPriorityScore now (qi_queueReason item))) (rq_places kv s)"
proof -
  let ?s = "ensure_command ''enqueueIfAbsent'' s"
  let ?z = "getPriorityScore now (qi_queueReason item)"
  let ?m = "serialize_item item (qi_queueReason item) ?z 0 k"
  let ?script = "ENQUEUE_IF_ABSENT_SCRIPT R PENDING_KEY IN_FLIGHT_KEY k ?z (Item ?m)"
  have d: "up (rq_world s)" "db_ok (kv (rq_world s))" using assms(2) by (simp_all add: rq_ok_def)
  obtain r where r: "up r" "kv r = kv (rq_world s)"
    and run: "\<And>x d. does kv up ?script r x d \<Longrightarrow> \<exists>r'. redis_call R ?script ?s = (Inr x, ?s\<lparr> rq_world := r' \<rparr>) \<and> up r' \<and> kv r' = d"
    using redis_call_runs [OF assms(1), of ?s ?script] d(1) by auto
  note e = run [OF enqueue_script [OF assms(1) r(1)], unfolded r(2), OF db_okD(1) [OF d(2)]]
  show ?thesis
  proof (cases "rq_places kv s k = None")
    case True
    then have n: "db_places (kv (rq_world s)) k = None" by (simp add: rq_places_def)
    then have "k \<notin> in_flight_of (kv (rq_world s))" using db_okD(3) [OF d(2)] by auto
    with e obtain r' where r': "redis_call R ?script ?s = (Inr 1, ?s\<lparr> rq_world := r' \<rparr>)" "up r'"
      "kv r' = set_pending ((pending_of (kv (rq_world s)))(Item ?m \<mapsto> ?z))
                 (set_in_flight (insert k (in_flight_of (kv (rq_world s)))) (kv (rq_world s)))" by auto
    have "well_keyed k (Item ?m)" unfolding k_def by (rule well_keyed_serialize)
    from db_queue [OF d(2) n this, of ?z] r'(2,3) script_call_ensured [OF r'(1)] True show ?thesis
      by (simp add: enqueue_checked_def Let_def comp_simps k_def [symmetric] rq_ok_def rq_places_def put_absent_def)
  next
    case False
    then have "k \<in> in_flight_of (kv (rq_world s))" using db_okD(3) [OF d(2)] by (auto simp: rq_places_def)
    with e obtain r' where r': "redis_call R ?script ?s = (Inr 0, ?s\<lparr> rq_world := r' \<rparr>)" "up r'"
      "kv r' = kv (rq_world s)" by auto
    then have "server_ok kv up (?s\<lparr> rq_world := r' \<rparr>)" using db_okD(1) [OF d(2)] by (simp add: server_ok_def)
    from quietD [OF quiet_drop [OF assms(1), of now k] this] obtain s' where
      "rq_drop R now k (?s\<lparr> rq_world := r' \<rparr>) = (Inr (), s')" "up (rq_world s')" "kv (rq_world s') = kv r'" "rq_maxRetries s' = rq_maxRetries s"
      by (auto simp: server_ok_def)
    with r'(3) script_call_ensured [OF r'(1)] d(2) False show ?thesis
      by (auto simp: enqueue_checked_def Let_def comp_simps k_def [symmetric] rq_ok_def rq_places_def put_absent_def)
  qed
qed

lemma rq_enqueue_contract:
  fixes item :: queue_item
  assumes "queue_redis_laws R kv up" and "rq_ok kv up s" and "f \<in> {rq_enqueue, rq_enqueueIfAbsent}"
  defines "k \<equiv> buildItemKey item"
  shows "\<exists>s'. f R now item s = (Inr (rq_places kv s k = None), s')
     \<and> rq_ok kv up s' \<and> rq_maxRetries s' = rq_maxRetries s
     \<and> rq_places kv s' = put_absent k (Queued 0 (getPriorityScore now (qi_queueReason item))) (rq_places kv s)"
  using enqueue_checked_contract [OF assms(1,2), of now item] assms(3)
  by (auto simp: k_def rq_enqueue_def rq_enqueueIfAbsent_def comp_simps)

text \<open>A script whose effect on the database is known, called after its command is ensured.\<close>

lemma ensured_script:
  assumes "queue_redis_laws R kv up" and "rq_ok kv up s"
    and "\<And>r. up r \<Longrightarrow> kv r = kv (rq_world s) \<Longrightarrow> does kv up f r x d"
  shows "\<exists>r. script_call R name f (ensure_command name s) = (Inr x, (ensure_command name s)\<lparr> rq_world := r \<rparr>) \<and> up r \<and> kv r = d"
proof -
  obtain r where "up r" "kv r = kv (rq_world s)"
    and "\<And>x d. does kv up f r x d \<Longrightarrow>
        \<exists>r'. redis_call R f (ensure_command name s) = (Inr x, (ensure_command name s)\<lparr> rq_world := r' \<rparr>) \<and> up r' \<and> kv r' = d"
    using redis_call_runs [OF assms(1), of "ensure_command name s" f] assms(2) by (auto simp: rq_ok_def)
  with assms(3) obtain r' where "redis_call R f (ensure_command name s) = (Inr x, (ensure_command name s)\<lparr> rq_world := r' \<rparr>)"
    "up r'" "kv r' = d" by blast
  with script_call_ensured show ?thesis by blast
qed

lemma held_claim:
  assumes "db_ok d" and "db_places d k = Some (Held w n)"
  obtains s where "claims_of d w k = Some (Item s)" and "si_attemptCount s = n"
  using assms data_places_iff [OF db_okD(2) [OF assms(1)], of k "Held w n"] by (auto simp: db_places_def)

lemma not_held_claim:
  assumes "db_ok d" and "\<And>n. db_places d k \<noteq> Some (Held w n)"
  shows "claims_of d w k = None"
proof (cases "claims_of d w k")
  case (Some m)
  with shapeD(2) [OF db_okD(2) [OF assms(1)] Some] obtain s where "claims_of d w k = Some (Item s)" by blast
  with data_places_iff [OF db_okD(2) [OF assms(1)], of k "Held w (si_attemptCount s)"] assms(2) show ?thesis
    by (auto simp: db_places_def)
qed

lemma well_keyed_repend: "well_keyed (buildItemKey item) (Item (repend_item R item reason z n (buildItemKey item)))"
  by (simp add: well_keyed_def)

lemma rq_release_held:
  assumes "queue_redis_laws R kv up" and "rq_ok kv up s" and "rq_places kv s (buildItemKey item) = Some (Held w n)"
  shows "\<exists>s'. rq_release R now w item s = (Inr (), s') \<and> rq_ok kv up s' \<and> rq_maxRetries s' = rq_maxRetries s
     \<and> rq_places kv s' = (rq_places kv s)(buildItemKey item :=
          after_release (rq_maxRetries s) (getPriorityScore now (Some Reason_retry)) n)"
proof -
  let ?k = "buildItemKey item" and ?z = "getPriorityScore now (Some Reason_retry)"
  let ?d = "kv (rq_world s)"
  have d: "up (rq_world s)" "db_ok ?d" using assms(2) by (simp_all add: rq_ok_def)
  have h: "db_places ?d ?k = Some (Held w n)" using assms(3) by (simp add: rq_places_def)
  obtain c where c: "claims_of ?d w ?k = Some (Item c)" "si_attemptCount c = n"
    by (rule held_claim [OF d(2) h])
  show ?thesis
  proof (cases "rq_maxRetries s \<le> Suc n")
    case True
    obtain r where r: "script_call R ''releaseItem'' (RELEASE_SCRIPT R PENDING_KEY (buildClaimedKey w) (buildHeartbeatKey w) DEAD_LETTER_KEY
         IN_FLIGHT_KEY ?k ?z item (rq_maxRetries s) now) (ensure_command ''releaseItem'' s)
         = (Inr (2, int (Suc (si_attemptCount c))), (ensure_command ''releaseItem'' s)\<lparr> rq_world := r \<rparr>)" "up r"
      "kv r = set_in_flight (in_flight_of ?d - {?k})
        (set_dead ((dead_of ?d)(Item (repend_item R item (qi_queueReason item) (qi_priority item) (Suc (si_attemptCount c)) ?k) \<mapsto> of_int now))
           (unclaimed w ?k ?d))"
      using ensured_script [OF assms(1,2) release_script_dead [OF assms(1) _ _ db_okD(1) [OF d(2)] c(1) True [folded c(2)]]] by blast
    from db_remove [OF d(2) c(1) disjI2 [OF refl]] r c(2) True show ?thesis
      by (auto simp: rq_release_def Let_def comp_simps rq_ok_def rq_places_def after_release_def)
  next
    case False
    obtain r where r: "script_call R ''releaseItem'' (RELEASE_SCRIPT R PENDING_KEY (buildClaimedKey w) (buildHeartbeatKey w) DEAD_LETTER_KEY
         IN_FLIGHT_KEY ?k ?z item (rq_maxRetries s) now) (ensure_command ''releaseItem'' s)
         = (Inr (1, int (Suc (si_attemptCount c))), (ensure_command ''releaseItem'' s)\<lparr> rq_world := r \<rparr>)" "up r"
      "kv r = set_pending ((pending_of ?d)(Item (repend_item R item (Some Reason_retry) ?z (Suc (si_attemptCount c)) ?k) \<mapsto> ?z)) (unclaimed w ?k ?d)"
      using ensured_script [OF assms(1,2) release_script_retry [OF assms(1) _ _ db_okD(1) [OF d(2)] c(1) False [folded c(2)]]] by blast
    from db_requeue [OF d(2) c(1) well_keyed_repend, of R "Some Reason_retry" ?z "Suc n" ?z] r c(2) False show ?thesis
      by (simp add: rq_release_def Let_def comp_simps rq_ok_def rq_places_def after_release_def)
  qed
qed

lemma rq_release_other:
  assumes "queue_redis_laws R kv up" and "rq_ok kv up s" and "\<And>n. rq_places kv s (buildItemKey item) \<noteq> Some (Held w n)"
  shows "\<exists>s'. rq_release R now w item s = (Inr (), s') \<and> rq_ok kv up s' \<and> rq_maxRetries s' = rq_maxRetries s
     \<and> rq_places kv s' = rq_places kv s"
proof -
  let ?k = "buildItemKey item" and ?d = "kv (rq_world s)"
  have d: "up (rq_world s)" "db_ok ?d" using assms(2) by (simp_all add: rq_ok_def)
  have n: "claims_of ?d w ?k = None" using not_held_claim [OF d(2)] assms(3) by (auto simp: rq_places_def)
  obtain r where r: "script_call R ''releaseItem'' (RELEASE_SCRIPT R PENDING_KEY (buildClaimedKey w) (buildHeartbeatKey w) DEAD_LETTER_KEY
       IN_FLIGHT_KEY ?k (getPriorityScore now (Some Reason_retry)) item (rq_maxRetries s) now) (ensure_command ''releaseItem'' s)
       = (Inr (0, -1), (ensure_command ''releaseItem'' s)\<lparr> rq_world := r \<rparr>)" "up r" "kv r = set_heartbeat w Absent ?d"
    using ensured_script [OF assms(1,2) release_script_none [OF assms(1) _ _ db_okD(1) [OF d(2)] n]] by blast
  then show ?thesis
    using db_heartbeat [OF d(2)] by (simp add: rq_release_def Let_def comp_simps rq_ok_def rq_places_def)
qed

lemma rq_resume_held:
  assumes "queue_redis_laws R kv up" and "rq_ok kv up s" and "rq_places kv s (buildItemKey item) = Some (Held w n)"
  shows "\<exists>s'. rq_requeueForResume R now w item s = (Inr (), s') \<and> rq_ok kv up s' \<and> rq_maxRetries s' = rq_maxRetries s
     \<and> rq_places kv s' = (rq_places kv s)(buildItemKey item \<mapsto> Queued n (getPriorityScore now (Some Reason_resume)))"
proof -
  let ?k = "buildItemKey item" and ?z = "getPriorityScore now (Some Reason_resume)" and ?d = "kv (rq_world s)"
  have d: "up (rq_world s)" "db_ok ?d" using assms(2) by (simp_all add: rq_ok_def)
  have h: "db_places ?d ?k = Some (Held w n)" using assms(3) by (simp add: rq_places_def)
  obtain c where c: "claims_of ?d w ?k = Some (Item c)" "si_attemptCount c = n"
    by (rule held_claim [OF d(2) h])
  obtain r where r: "script_call R ''requeueForResumeItem'' (REQUEUE_FOR_RESUME_SCRIPT R PENDING_KEY (buildClaimedKey w)
       (buildHeartbeatKey w) ?k ?z item) (ensure_command ''requeueForResumeItem'' s)
       = (Inr (1, int (si_attemptCount c)), (ensure_command ''requeueForResumeItem'' s)\<lparr> rq_world := r \<rparr>)" "up r"
    "kv r = set_pending ((pending_of ?d)(Item (repend_item R item (Some Reason_resume) ?z (si_attemptCount c) ?k) \<mapsto> ?z)) (unclaimed w ?k ?d)"
    using ensured_script [OF assms(1,2) resume_script_held [OF assms(1) _ _ db_okD(1) [OF d(2)] c(1)]] by blast
  from db_requeue [OF d(2) c(1) well_keyed_repend, of R "Some Reason_resume" ?z n ?z] r c(2) show ?thesis
    by (simp add: rq_requeueForResume_def Let_def comp_simps rq_ok_def rq_places_def)
qed

lemma rq_resume_other:
  assumes "queue_redis_laws R kv up" and "rq_ok kv up s" and "\<And>n. rq_places kv s (buildItemKey item) \<noteq> Some (Held w n)"
  shows "\<exists>s'. rq_requeueForResume R now w item s = (Inr (), s') \<and> rq_ok kv up s' \<and> rq_maxRetries s' = rq_maxRetries s
     \<and> rq_places kv s' = rq_places kv s"
proof -
  let ?k = "buildItemKey item" and ?d = "kv (rq_world s)"
  have d: "up (rq_world s)" "db_ok ?d" using assms(2) by (simp_all add: rq_ok_def)
  have n: "claims_of ?d w ?k = None" using not_held_claim [OF d(2)] assms(3) by (auto simp: rq_places_def)
  obtain r where r: "script_call R ''requeueForResumeItem'' (REQUEUE_FOR_RESUME_SCRIPT R PENDING_KEY (buildClaimedKey w)
       (buildHeartbeatKey w) ?k (getPriorityScore now (Some Reason_resume)) item) (ensure_command ''requeueForResumeItem'' s)
       = (Inr (0, -1), (ensure_command ''requeueForResumeItem'' s)\<lparr> rq_world := r \<rparr>)" "up r" "kv r = set_heartbeat w Absent ?d"
    using ensured_script [OF assms(1,2) resume_script_none [OF assms(1) _ _ db_okD(1) [OF d(2)] n]] by blast
  then show ?thesis
    using db_heartbeat [OF d(2)] by (simp add: rq_requeueForResume_def Let_def comp_simps rq_ok_def rq_places_def)
qed

lemma rq_complete_held:
  assumes "queue_redis_laws R kv up" and "rq_ok kv up s" and "rq_places kv s (buildItemKey item) = Some (Held w n)"
  shows "\<exists>s'. rq_complete R w item s = (Inr (), s') \<and> rq_ok kv up s' \<and> rq_maxRetries s' = rq_maxRetries s
     \<and> rq_places kv s' = (rq_places kv s)(buildItemKey item := None)"
proof -
  let ?k = "buildItemKey item" and ?d = "kv (rq_world s)"
  have d: "up (rq_world s)" "db_ok ?d" using assms(2) by (simp_all add: rq_ok_def)
  have h: "db_places ?d ?k = Some (Held w n)" using assms(3) by (simp add: rq_places_def)
  obtain c where c: "claims_of ?d w ?k = Some (Item c)" by (rule held_claim [OF d(2) h])
  obtain r0 where r0: "up r0" "kv r0 = ?d" "\<And>x d. does kv up (complete_multi R w ?k) r0 x d \<Longrightarrow>
      \<exists>r'. redis_call R (complete_multi R w ?k) s = (Inr x, s\<lparr> rq_world := r' \<rparr>) \<and> up r' \<and> kv r' = d"
    using redis_call_runs [OF assms(1) d(1)] by blast
  have "does kv up (complete_multi R w ?k) r0 () (set_in_flight (in_flight_of ?d - {?k}) (unclaimed w ?k ?d))"
    using complete_script [OF assms(1) r0(1), of w ?k] r0(2) db_okD(1) [OF d(2)] by simp
  with r0(3) obtain r where r: "redis_call R (complete_multi R w ?k) s = (Inr (), s\<lparr> rq_world := r \<rparr>)" "up r"
    "kv r = set_in_flight (in_flight_of ?d - {?k}) (unclaimed w ?k ?d)" by blast
  with db_remove [OF d(2) c disjI1 [OF refl]] show ?thesis
    by (simp add: rq_complete_def Let_def comp_simps rq_ok_def rq_places_def)
qed

lemma queued_member:
  assumes "db_ok d" and "pending_of d (Item c) = Some z"
  shows "db_places d (si_itemKey c) = Some (Queued (si_attemptCount c) z)" and "buildItemKey c = si_itemKey c"
  using data_places_iff [OF db_okD(2) [OF assms(1)], of "si_itemKey c"] assms shapeD(1) [OF db_okD(2) [OF assms(1)] assms(2)]
  by (auto simp: db_places_def)

lemma queued_pending:
  assumes "db_ok d" and "db_places d k = Some (Queued n z)"
  obtains c where "pending_of d (Item c) = Some z" and "si_itemKey c = k" and "si_attemptCount c = n"
  using assms data_places_iff [OF db_okD(2) [OF assms(1)], of k "Queued n z"] by (auto simp: db_places_def)

lemma rq_claim_none:
  assumes "queue_redis_laws R kv up" and "rq_ok kv up s" and "\<And>k n z. rq_places kv s k \<noteq> Some (Queued n z)"
  shows "\<exists>s'. rq_claim R now w s = (Inr None, s') \<and> rq_ok kv up s' \<and> rq_maxRetries s' = rq_maxRetries s \<and> rq_places kv s' = rq_places kv s"
proof -
  let ?d = "kv (rq_world s)"
  have d: "up (rq_world s)" "db_ok ?d" using assms(2) by (simp_all add: rq_ok_def)
  have "pending_of ?d m = None" for m
  proof (cases "pending_of ?d m")
    case (Some z)
    with shapeD(1) [OF db_okD(2) [OF d(2)] Some] obtain c where "pending_of ?d (Item c) = Some z" by blast
    from queued_member(1) [OF d(2) this] assms(3) show ?thesis by (simp add: rq_places_def)
  qed simp
  then have e: "pending_of ?d = Map.empty" by (rule ext)
  have c: "does kv up (CLAIM_SCRIPT R PENDING_KEY (buildClaimedKey w) (buildHeartbeatKey w) 30 (toISOString now)) r None ?d"
    if "up r" and "kv r = ?d" for r
    using claim_script_none [OF assms(1) that(1)] that(2) db_okD(1) [OF d(2)] e by simp
  from ensured_script [OF assms(1,2) c, of "''claimItem''"] d(2) show ?thesis
    by (auto simp: rq_claim_def comp_simps rq_ok_def rq_places_def)
qed

lemma rq_claim_some:
  assumes "queue_redis_laws R kv up" and "rq_ok kv up s" and "rq_places kv s k = Some (Queued n z)"
  shows "\<exists>item n z s'. rq_claim R now w s = (Inr (Some item), s') \<and> rq_ok kv up s' \<and> rq_maxRetries s' = rq_maxRetries s
     \<and> qi_userId item = None \<and> rq_places kv s (buildItemKey item) = Some (Queued n z)
     \<and> first_in_line (rq_places kv s) (buildItemKey item)
     \<and> rq_places kv s' = (rq_places kv s)(buildItemKey item \<mapsto> Held w n)"
proof -
  let ?d = "kv (rq_world s)" and ?s = "ensure_command ''claimItem'' s"
  let ?script = "CLAIM_SCRIPT R PENDING_KEY (buildClaimedKey w) (buildHeartbeatKey w) 30 (toISOString now)"
  have d: "up (rq_world s)" "db_ok ?d" using assms(2) by (simp_all add: rq_ok_def)
  obtain r where r: "up r" "kv r = ?d" and run: "\<And>x d. does kv up ?script r x d \<Longrightarrow>
      \<exists>r'. redis_call R ?script ?s = (Inr x, ?s\<lparr> rq_world := r' \<rparr>) \<and> up r' \<and> kv r' = d"
    using redis_call_runs [OF assms(1), of ?s ?script] d(1) by auto
  have "pending_of ?d \<noteq> Map.empty"
    using queued_pending [OF d(2)] assms(3) by (metis option.distinct(1) rq_places_def)
  then obtain c z where c: "pending_of ?d (Item c) = Some z" "\<forall>m z'. pending_of ?d m = Some z' \<longrightarrow> z \<le> z'"
    and sc: "does kv up ?script r (Some (Item (cjson_item R (c\<lparr> si_claimedAt := Some (toISOString now) \<rparr>))))
         (set_heartbeat w Rstring
            (set_claims w ((claims_of ?d w)(si_itemKey c \<mapsto> Item (cjson_item R (c\<lparr> si_claimedAt := Some (toISOString now) \<rparr>))))
               (set_pending ((pending_of ?d)(Item c := None)) ?d)))"
    using claim_script_some [OF assms(1) r(1), of 30 w "toISOString now"] r(2) d(2) by auto
  let ?c = "cjson_item R (c\<lparr> si_claimedAt := Some (toISOString now) \<rparr>)"
  from run [OF sc] obtain r' where r': "redis_call R ?script ?s = (Inr (Some (Item ?c)), ?s\<lparr> rq_world := r' \<rparr>)" "up r'"
    "kv r' = set_heartbeat w Rstring (set_claims w ((claims_of ?d w)(si_itemKey c \<mapsto> Item ?c))
               (set_pending ((pending_of ?d)(Item c := None)) ?d))" by blast
  note q = queued_member [OF d(2) c(1)]
  have k: "buildItemKey (claimed_view ?c) = si_itemKey c" using q(2) by (simp add: buildItemKey_def cjson_item_def claimed_view_def)
  have first: "first_in_line (db_places ?d) (si_itemKey c)"
    unfolding first_in_line_def using q(1) c(2) queued_pending [OF d(2)] by metis
  have run': "rq_claim R now w s = (Inr (Some (claimed_view ?c)), ?s\<lparr> rq_world := r' \<rparr>)"
    using script_call_ensured [OF r'(1)] by (simp add: rq_claim_def comp_simps)
  note db = db_claim [OF d(2) c(1) refl, where w = w and v = Rstring and R = R and c = "Some (toISOString now)"]
  have "rq_ok kv up (?s\<lparr> rq_world := r' \<rparr>)" using db(1) r'(2,3) by (simp add: rq_ok_def)
  moreover have "rq_places kv (?s\<lparr> rq_world := r' \<rparr>) = (rq_places kv s)(buildItemKey (claimed_view ?c) \<mapsto> Held w (si_attemptCount c))"
    using db(2) r'(3) unfolding k by (simp add: rq_places_def)
  moreover have "rq_places kv s (buildItemKey (claimed_view ?c)) = Some (Queued (si_attemptCount c) z)"
    "first_in_line (rq_places kv s) (buildItemKey (claimed_view ?c))"
    using q(1) first unfolding k by (simp_all add: rq_places_def)
  moreover have "rq_maxRetries (?s\<lparr> rq_world := r' \<rparr>) = rq_maxRetries s" "qi_userId (claimed_view ?c) = None" by simp_all
  ultimately show ?thesis using run' by blast
qed

lemma redis_work_queue:
  assumes "queue_redis_laws R kv up"
  shows "work_queue (redis_queue_ops R) (rq_places kv) (rq_ok kv up) rq_maxRetries"
proof -
  have e: "\<exists>n s'. rq_enqueue R now item s = (Inr (rq_places kv s (buildItemKey item) = None), s') \<and> rq_ok kv up s'
      \<and> rq_maxRetries s' = rq_maxRetries s
      \<and> rq_places kv s' = put_absent (buildItemKey item) (Queued n (getPriorityScore now (qi_queueReason item))) (rq_places kv s)"
    if "rq_ok kv up s" for now item s
    using rq_enqueue_contract [OF assms that, of rq_enqueue now item] by auto
  note rules = e rq_enqueue_contract [OF assms _ insertI2 [OF singletonI]] rq_claim_none [OF assms] rq_claim_some [OF assms]
    rq_release_held [OF assms] rq_release_other [OF assms] rq_resume_held [OF assms] rq_resume_other [OF assms] rq_complete_held [OF assms]
  show ?thesis
    by (unfold_locales, unfold redis_queue_ops_def queue_manager.simps) (rule rules; assumption)+
qed

lemma redis_observed_queue:
  assumes "queue_redis_laws R kv up"
  shows "observed_queue (redis_queue_ops R) (rq_places kv) (rq_ok kv up) rq_maxRetries"
proof (intro observed_queue.intro redis_work_queue [OF assms] observed_queue_axioms.intro)
  fix s now k assume ok: "rq_ok kv up s"
  from quietD [OF quiet_hasInFlightAge [OF assms] rq_ok_server [OF ok]]
  obtain x s' where "rq_hasInFlightAge R now k s = (Inr x, s')" "server_ok kv up s'" "kv (rq_world s') = kv (rq_world s)"
    "rq_maxRetries s' = rq_maxRetries s" by metis
  with ok show "\<exists>r s'. qm_hasInFlightAge (redis_queue_ops R) now k s = (Inr r, s') \<and> rq_ok kv up s'
      \<and> rq_maxRetries s' = rq_maxRetries s \<and> rq_places kv s' = rq_places kv s"
    by (auto simp: redis_queue_ops_def rq_ok_def server_ok_def rq_places_def)
qed

section \<open>Properties\<close>

text \<open>
  C14. On every Redis server with the documented behaviour the Redis adapter does what the
  interface promises: along every sequence of calls in which only the holder of an item
  completes it, each call is one of the allowed changes of the items' places, and the
  index of items in flight remains exactly the set of the items that are pending or claimed.
\<close>

theorem redis_queue_refines:
  assumes "queue_redis_laws R kv up" and "rq_ok kv up s"
    and "(queue_step (redis_queue_ops R) (rq_places kv))\<^sup>*\<^sup>* s s'"
  shows "(place_step (rq_maxRetries s))\<^sup>*\<^sup>* (rq_places kv s) (rq_places kv s')
     \<and> in_flight_of (kv (rq_world s')) = dom (rq_places kv s')
     \<and> rq_ok kv up s'"
proof -
  have "rq_ok kv up s' \<and> rq_maxRetries s' = rq_maxRetries s
      \<and> (place_step (rq_maxRetries s))\<^sup>*\<^sup>* (rq_places kv s) (rq_places kv s')"
    by (rule work_queue.run_simulated [OF redis_work_queue [OF assms(1)] assms(3,2)])
  then show ?thesis by (simp add: rq_ok_def rq_places_def db_okD(3))
qed

text \<open>An empty server.\<close>

definition empty_redis_queue :: "mem_queue_redis redis_queue" where
  "empty_redis_queue = new_redis_queue [] None None None"

lemma empty_redis_queue_ok:
  "rq_ok mem_kv (\<lambda>_. True) empty_redis_queue" "rq_places mem_kv empty_redis_queue = Map.empty" "rq_maxRetries empty_redis_queue = 3"
proof -
  have e: "mem_kv [] k = Absent" for k by (simp add: mem_kv_def)
  have sh: "shape Map.empty (\<lambda>w. Map.empty)" by (rule shapeI) simp_all
  have p: "data_places Map.empty (\<lambda>w. Map.empty) = Map.empty"
  proof (rule map_Some_eqI)
    fix k p
    show "data_places Map.empty (\<lambda>w. Map.empty) k = Some p \<longleftrightarrow> Map.empty k = Some p"
      by (cases p) (simp_all add: data_places_iff [OF sh])
  qed
  have v: "pending_of (mem_kv []) = Map.empty" "claims_of (mem_kv []) = (\<lambda>w. Map.empty)" "in_flight_of (mem_kv []) = {}"
    by (simp_all add: pending_of_def claims_of_def in_flight_of_def e fun_eq_iff)
  show "rq_ok mem_kv (\<lambda>_. True) empty_redis_queue"
    by (simp add: rq_ok_def db_ok_def db_places_def empty_redis_queue_def new_redis_queue_def v sh p typed_def e)
  show "rq_places mem_kv empty_redis_queue = Map.empty" "rq_maxRetries empty_redis_queue = 3"
    by (simp_all add: rq_places_def db_places_def empty_redis_queue_def new_redis_queue_def v p)
qed

lemma sample_claimed_run:
  obtains s where "(queue_step (redis_queue_ops mem_queue_server) (rq_places mem_kv))\<^sup>*\<^sup>* empty_redis_queue s"
    and "rq_places mem_kv s = [buildItemKey (sample_item n) \<mapsto> Held w 0]" and "rq_ok mem_kv (\<lambda>_. True) s"
proof -
  let ?Q = "redis_queue_ops mem_queue_server" and ?P = "rq_places mem_kv" and ?k = "buildItemKey (sample_item n)"
  note L = mem_queue_server_laws
  obtain s1 where s1: "rq_enqueue mem_queue_server 5 (sample_item n) empty_redis_queue = (Inr True, s1)" "rq_ok mem_kv (\<lambda>_. True) s1"
    "?P s1 = [?k \<mapsto> Queued 0 (getPriorityScore 5 None)]"
    using rq_enqueue_contract [OF L empty_redis_queue_ok(1), of rq_enqueue 5 "sample_item n"] empty_redis_queue_ok(2)
    by (auto simp: put_absent_def sample_item_def)
  have "?P s1 ?k = Some (Queued 0 (getPriorityScore 5 None))" using s1(3) by simp
  from rq_claim_some [OF L s1(2) this, of 6 w] obtain item m z s2 where
    s2: "rq_claim mem_queue_server 6 w s1 = (Inr (Some item), s2)" "rq_ok mem_kv (\<lambda>_. True) s2"
      "?P s1 (buildItemKey item) = Some (Queued m z)" "?P s2 = (?P s1)(buildItemKey item \<mapsto> Held w m)" by blast
  from s2(3) s1(3) have k: "buildItemKey item = ?k" "m = 0" by (auto split: if_splits)
  have "?P s2 = [?k \<mapsto> Held w 0]" unfolding s2(4) s1(3) k by simp
  moreover have "queue_step ?Q ?P empty_redis_queue s1" "queue_step ?Q ?P s1 s2"
    using queue_step.enqueue [of ?Q ?P empty_redis_queue 5 "sample_item n"] queue_step.claim [of ?Q ?P s1 6 w] s1(1) s2(1)
    by (simp_all add: redis_queue_ops_def)
  ultimately show thesis using that s2(2) by (meson rtranclp.rtrancl_into_rtrancl rtranclp.rtrancl_refl)
qed

theorem redis_queue_refines_witness:
  "\<exists>s. (queue_step (redis_queue_ops mem_queue_server) (rq_places mem_kv))\<^sup>*\<^sup>* empty_redis_queue s
     \<and> rq_places mem_kv s = [buildItemKey (sample_item 1) \<mapsto> Held ''w'' 0]
     \<and> in_flight_of (mem_kv (rq_world s)) = {buildItemKey (sample_item 1)}"
proof -
  obtain s where s: "(queue_step (redis_queue_ops mem_queue_server) (rq_places mem_kv))\<^sup>*\<^sup>* empty_redis_queue s"
    "rq_places mem_kv s = [buildItemKey (sample_item 1) \<mapsto> Held ''w'' 0]" by (rule sample_claimed_run)
  from redis_queue_refines [OF mem_queue_server_laws empty_redis_queue_ok(1) s(1)] s show ?thesis by auto
qed

text \<open>A connection on which requests do not get through, and one on which answers get lost.\<close>

definition no_requests :: "js_error \<Rightarrow> 'r queue_redis \<Rightarrow> 'r queue_redis" where
  "no_requests e R = R\<lparr> q_send := (\<lambda>r. (Inl e, r)) \<rparr>"

definition no_answers :: "js_error \<Rightarrow> 'r queue_redis \<Rightarrow> 'r queue_redis" where
  "no_answers e R = R\<lparr> q_reply := (\<lambda>r. (Inl e, r)) \<rparr>"

lemma call_no_requests: "redis_call (no_requests e R) f s = (Inl e, s)"
  by (simp add: redis_call_def on_server_def no_requests_def comp_simps)

lemma call_no_answers:
  assumes "queue_redis_laws R kv up" and "up (rq_world s)"
    and "\<And>r. up r \<Longrightarrow> kv r = kv (rq_world s) \<Longrightarrow> does kv up f r x d"
  shows "\<exists>r. redis_call (no_answers e R) f s = (Inl e, s\<lparr> rq_world := r \<rparr>) \<and> up r \<and> kv r = d"
proof -
  from q_send_law [OF assms(1,2)] obtain r where r: "q_send R (rq_world s) = (Inr (), r)" "up r" "kv r = kv (rq_world s)"
    by (auto simp: does_def)
  from assms(3) [OF r(2,3)] obtain r1 where "f r = (Inr x, r1)" "up r1" "kv r1 = d" by (auto simp: does_def)
  with r(1) show ?thesis by (intro exI [of _ r1]) (simp add: redis_call_def on_server_def no_answers_def comp_simps)
qed

text \<open>
  How enqueueing reports transport errors: \<open>enqueue\<close> throws the error and
  \<open>enqueueIfAbsent\<close> answers that the item was dropped. If the request does not get through
  nothing is stored; but if only the answer is lost the item is in the queue, although the
  caller is told that it failed or was dropped.
\<close>

lemma enqueue_errors:
  assumes "queue_redis_laws R kv up" and "rq_ok kv up s" and "rq_places kv s (buildItemKey item) = None"
  shows "(\<exists>s'. rq_enqueue (no_requests e R) now item s = (Inl e, s') \<and> rq_world s' = rq_world s)
     \<and> (\<exists>s'. rq_enqueueIfAbsent (no_requests e R) now item s = (Inr False, s') \<and> rq_world s' = rq_world s)
     \<and> (\<exists>s'. rq_enqueue (no_answers e R) now item s = (Inl e, s') \<and> rq_ok kv up s' \<and> rq_places kv s' (buildItemKey item) \<noteq> None)
     \<and> (\<exists>s'. rq_enqueueIfAbsent (no_answers e R) now item s = (Inr False, s') \<and> rq_ok kv up s' \<and> rq_places kv s' (buildItemKey item) \<noteq> None)"
proof -
  let ?s = "ensure_command ''enqueueIfAbsent'' s" and ?k = "buildItemKey item" and ?z = "getPriorityScore now (qi_queueReason item)"
  let ?m = "serialize_item item (qi_queueReason item) ?z 0 ?k"
  let ?script = "\<lambda>R. ENQUEUE_IF_ABSENT_SCRIPT R PENDING_KEY IN_FLIGHT_KEY ?k ?z (Item ?m)"
  have d: "up (rq_world s)" "db_ok (kv (rq_world s))" using assms(2) by (simp_all add: rq_ok_def)
  have n: "db_places (kv (rq_world s)) ?k = None" using assms(3) by (simp add: rq_places_def)
  then have "?k \<notin> in_flight_of (kv (rq_world s))" using db_okD(3) [OF d(2)] by auto
  then have "does kv up (?script R) r 1 (set_pending ((pending_of (kv (rq_world s)))(Item ?m \<mapsto> ?z))
      (set_in_flight (insert ?k (in_flight_of (kv (rq_world s)))) (kv (rq_world s))))" if "up r" "kv r = kv (rq_world s)" for r
    using enqueue_script [OF assms(1) that(1), of ?k ?z "Item ?m"] that(2) db_okD(1) [OF d(2)] by simp
  from call_no_answers [OF assms(1), of ?s, simplified, OF d(1) this] obtain r where
    r: "redis_call (no_answers e R) (?script R) ?s = (Inl e, ?s\<lparr> rq_world := r \<rparr>)" "up r"
      "kv r = set_pending ((pending_of (kv (rq_world s)))(Item ?m \<mapsto> ?z))
        (set_in_flight (insert ?k (in_flight_of (kv (rq_world s)))) (kv (rq_world s)))" by blast
  have same: "?script (no_answers e R) = ?script R" by (simp add: ENQUEUE_IF_ABSENT_SCRIPT_def no_answers_def cong: if_cong)
  have "script_call (no_requests e R) ''enqueueIfAbsent'' (?script (no_requests e R)) ?s = (Inl e, ?s)"
    by (rule script_call_ensured [OF call_no_requests])
  then have lost: "enqueue_checked (no_requests e R) now item ?s = (Inl e, ?s)"
    by (simp add: enqueue_checked_def Let_def comp_simps)
  have unanswered: "enqueue_checked (no_answers e R) now item ?s = (Inl e, ?s\<lparr> rq_world := r \<rparr>)"
    unfolding enqueue_checked_def Let_def same using script_call_ensured [OF r(1)] by (simp add: comp_simps)
  have "well_keyed ?k (Item ?m)" by (rule well_keyed_serialize)
  from db_queue [OF d(2) n this, of ?z] r(2,3) have "rq_ok kv up (?s\<lparr> rq_world := r \<rparr>)" "rq_places kv (?s\<lparr> rq_world := r \<rparr>) ?k \<noteq> None"
    by (simp_all add: rq_ok_def rq_places_def)
  with lost unanswered show ?thesis by (simp add: rq_enqueue_def rq_enqueueIfAbsent_def comp_simps)
qed

text \<open>
  A completion that comes late breaks the index: when a worker whose claim was put back by
  the sweep finishes after all, \<open>complete\<close> takes the key of the waiting item out of the
  in-flight index, so the same issue is accepted again and waits twice.
\<close>

lemma stale_completion_duplicates:
  assumes "queue_redis_laws R kv up" and "rq_ok kv up s"
    and "pending_of (kv (rq_world s)) (Item c) = Some z" and "si_itemKey c = buildItemKey item" and "si_reclaimCount c \<noteq> None"
  shows "\<exists>s1 s2 c'. rq_complete R w item s = (Inr (), s1) \<and> rq_enqueue R now item s1 = (Inr True, s2)
     \<and> c' \<noteq> c \<and> si_itemKey c' = si_itemKey c
     \<and> pending_of (kv (rq_world s2)) (Item c) \<noteq> None \<and> pending_of (kv (rq_world s2)) (Item c') \<noteq> None"
proof -
  let ?k = "buildItemKey item" and ?d = "kv (rq_world s)" and ?z = "getPriorityScore now (qi_queueReason item)"
  have d: "up (rq_world s)" "typed ?d" using assms(2) by (simp_all add: rq_ok_def db_okD(1))
  obtain r0 where r0: "up r0" "kv r0 = ?d" "\<And>x d. does kv up (complete_multi R w ?k) r0 x d \<Longrightarrow>
      \<exists>r'. redis_call R (complete_multi R w ?k) s = (Inr x, s\<lparr> rq_world := r' \<rparr>) \<and> up r' \<and> kv r' = d"
    using redis_call_runs [OF assms(1) d(1)] by blast
  let ?d1 = "set_in_flight (in_flight_of ?d - {?k}) (unclaimed w ?k ?d)"
  have "does kv up (complete_multi R w ?k) r0 () ?d1" using complete_script [OF assms(1) r0(1), of w ?k] r0(2) d(2) by simp
  with r0(3) obtain r1 where r1: "redis_call R (complete_multi R w ?k) s = (Inr (), s\<lparr> rq_world := r1 \<rparr>)" "up r1" "kv r1 = ?d1" by blast
  let ?s1 = "forget_item ?k (s\<lparr> rq_world := r1 \<rparr>)"
  have c1: "rq_complete R w item s = (Inr (), ?s1)" using r1(1) by (simp add: rq_complete_def Let_def comp_simps)
  let ?m = "serialize_item item (qi_queueReason item) ?z 0 ?k" and ?s2 = "ensure_command ''enqueueIfAbsent'' ?s1"
  let ?script = "ENQUEUE_IF_ABSENT_SCRIPT R PENDING_KEY IN_FLIGHT_KEY ?k ?z (Item ?m)"
  obtain r2 where r2: "up r2" "kv r2 = ?d1" "\<And>x d. does kv up ?script r2 x d \<Longrightarrow>
      \<exists>r'. redis_call R ?script ?s2 = (Inr x, ?s2\<lparr> rq_world := r' \<rparr>) \<and> up r' \<and> kv r' = d"
    using redis_call_runs [OF assms(1), of ?s2 ?script] r1(2,3) by auto
  have "does kv up ?script r2 1 (set_pending ((pending_of ?d)(Item ?m \<mapsto> ?z)) (set_in_flight (insert ?k (in_flight_of ?d1)) ?d1))"
    using enqueue_script [OF assms(1) r2(1), of ?k ?z "Item ?m"] r2(2) d(2) by simp
  with r2(3) obtain r3 where r3: "redis_call R ?script ?s2 = (Inr 1, ?s2\<lparr> rq_world := r3 \<rparr>)"
    "kv r3 = set_pending ((pending_of ?d)(Item ?m \<mapsto> ?z)) (set_in_flight (insert ?k (in_flight_of ?d1)) ?d1)" by blast
  have e: "rq_enqueue R now item ?s1 = (Inr True, remember_age ?k (qi_enqueuedAt item) (?s2\<lparr> rq_world := r3 \<rparr>))"
    using script_call_ensured [OF r3(1)] by (simp add: rq_enqueue_def enqueue_checked_def Let_def comp_simps)
  have n: "?m \<noteq> c" using assms(5) by auto
  have "pending_of (kv r3) (Item c) \<noteq> None" "pending_of (kv r3) (Item ?m) \<noteq> None" using r3(2) assms(3) n by auto
  moreover have "si_itemKey ?m = si_itemKey c" using assms(4) by simp
  ultimately show ?thesis using c1 e n by fastforce
qed

text \<open>The server with one item that the sweep has put back.\<close>

definition reclaimed_sample :: serialized_item where
  "reclaimed_sample = (sample_serialized 1 0)\<lparr> si_reclaimCount := Some 1 \<rparr>"

definition reclaimed_queue :: "mem_queue_redis redis_queue" where
  "reclaimed_queue = new_redis_queue (jset PENDING_KEY (Mzset [(Item reclaimed_sample, 0)])
     (jset IN_FLIGHT_KEY (Mset [buildItemKey (sample_item 1)]) [])) None None None"

lemma reclaimed_queue_ok:
  "rq_ok mem_kv (\<lambda>_. True) reclaimed_queue" "pending_of (mem_kv (rq_world reclaimed_queue)) (Item reclaimed_sample) = Some 0"
proof -
  let ?d = "mem_kv []" and ?k = "buildItemKey (sample_item 1)"
  have e: "db_ok ?d" "db_places ?d = Map.empty" "rq_world empty_redis_queue = []"
    using empty_redis_queue_ok by (simp_all add: rq_ok_def rq_places_def empty_redis_queue_def new_redis_queue_def)
  then have v: "pending_of ?d = Map.empty" "in_flight_of ?d = {}"
    by (simp_all add: pending_of_def in_flight_of_def mem_kv_def)
  have "mem_kv (rq_world reclaimed_queue)
      = set_pending ((pending_of ?d)(Item reclaimed_sample \<mapsto> 0)) (set_in_flight (insert ?k (in_flight_of ?d)) ?d)"
    unfolding reclaimed_queue_def new_redis_queue_def redis_queue.simps mem_kv_set v set_pending_def set_in_flight_def by simp
  moreover have "well_keyed ?k (Item reclaimed_sample)"
    by (simp add: well_keyed_def reclaimed_sample_def sample_serialized_def buildItemKey_def serialize_item_def queue_item.defs)
  ultimately show "rq_ok mem_kv (\<lambda>_. True) reclaimed_queue" "pending_of (mem_kv (rq_world reclaimed_queue)) (Item reclaimed_sample) = Some 0"
    using db_queue [OF e(1), of ?k reclaimed_sample 0] e(2) by (simp_all add: rq_ok_def)
qed

end
