(* ===== verification/QueueSweeps.thy ===== *)
theory QueueSweeps
  imports RedisQueueContract
begin

text \<open>
  The two sweeps of the Redis adapter (\<open>reapOrphanClaims\<close> and \<open>reconcileInFlight\<close> of
  \<open>packages/orchestrator/src/services/redis-queue-adapter.ts\<close>), run without interference on a
  server with the documented behaviour.
\<close>

section \<open>The reclaim script\<close>

lemma cmd_exists:
  assumes "queue_redis_laws R kv up" and "up r"
  shows "does kv up (q_exists R (buildHeartbeatKey w)) r (kv r (buildHeartbeatKey w) \<noteq> Absent) (kv r)"
  using q_exists_law [OF assms] .

text \<open>Removing the hash of a worker after its last field changes nothing more.\<close>

lemma drop_empty_hash:
  assumes "queue_redis_laws R kv up" and "up r" and "typed (kv r)"
  shows "does kv up (cbind (q_hlen R (buildClaimedKey w)) (\<lambda>n. if n = 0 then q_del R (buildClaimedKey w) else cret ())) r () (kv r)"
proof -
  let ?k = "buildClaimedKey w"
  obtain es where es: "map_of es = as_hash (kv r ?k)" "does kv up (q_hlen R ?k) r (length es) (kv r)"
    using q_hash_law [OF assms(1,2) typedD(4) [OF assms(3)]] by blast
  have del: "does kv up (q_del R ?k) r' () (kv r)" if "up r'" "kv r' = kv r" "es = []" for r'
  proof -
    have "as_hash (kv r ?k) = Map.empty" using es(1) that(3) by simp
    then have "kv r ?k = Absent" using typedD(4) [OF assms(3), of w] by (metis is_hash_def of_absent(3))
    then have "(kv r')(?k := Absent) = kv r" using that(2) by (simp add: fun_eq_iff)
    with q_del_law [OF assms(1) that(1), of ?k] show ?thesis by simp
  qed
  show ?thesis
    by (rule does_bind [OF es(2)], rule does_if) (auto intro: del does_done)
qed

lemma reclaim_script_none:
  assumes "queue_redis_laws R kv up" and "up r" and "kv r = d" and "typed d" and "claims_of d w k = None"
  shows "does kv up (RECLAIM_ORPHAN_SCRIPT R (buildClaimedKey w) (buildHeartbeatKey w) PENDING_KEY k a g z m) r 0 d"
  unfolding RECLAIM_ORPHAN_SCRIPT_def
  by (rule does_bind [OF cmd_hget [OF assms(1,2) assms(4) [folded assms(3)]]])
    (use assms(3,5) in \<open>auto intro: does_done\<close>)

lemma reclaim_script_young:
  assumes "queue_redis_laws R kv up" and "up r" and "kv r = d" and "typed d" and "claims_of d w k \<noteq> None"
    and "d (buildHeartbeatKey w) = Absent" and "a < g"
  shows "does kv up (RECLAIM_ORPHAN_SCRIPT R (buildClaimedKey w) (buildHeartbeatKey w) PENDING_KEY k a g z m) r 3 d"
  unfolding RECLAIM_ORPHAN_SCRIPT_def
  apply (rule does_bind [OF cmd_hget [OF assms(1,2) assms(4) [folded assms(3)]]])
  apply (simp add: assms(3,5,7))
  apply (rule does_bind [OF cmd_exists [OF assms(1)]], assumption)
  apply (use assms(3,6) in \<open>auto intro: does_done\<close>)
  done

lemma reclaim_script_done:
  assumes "queue_redis_laws R kv up" and "up r" and "kv r = d" and "typed d" and "claims_of d w k \<noteq> None"
    and "d (buildHeartbeatKey w) = Absent" and "\<not> a < g"
  shows "does kv up (RECLAIM_ORPHAN_SCRIPT R (buildClaimedKey w) (buildHeartbeatKey w) PENDING_KEY k a g z m) r 1
     (set_pending ((pending_of d)(m \<mapsto> z)) (set_claims w ((claims_of d w)(k := None)) d))"
  unfolding RECLAIM_ORPHAN_SCRIPT_def
  apply (rule does_bind [OF cmd_hget [OF assms(1,2) assms(4) [folded assms(3)]]])
  apply (simp add: assms(3,5,7))
  apply (rule does_bind [OF cmd_exists [OF assms(1)]], assumption)
  apply (simp add: assms(3,6,7))
  apply (rule drop_empty_hash does_bind cmd_hdel cmd_zadd assms(1) does_done | assumption | simp add: assms(4); fail)+
  done

section \<open>Orphans\<close>

text \<open>A claim whose worker has no heartbeat and which is older than the grace window.\<close>

definition orphan :: "int \<Rightarrow> int \<Rightarrow> redis_db \<Rightarrow> string \<Rightarrow> string \<Rightarrow> bool" where
  "orphan now grace d w k \<longleftrightarrow>
     d (buildHeartbeatKey w) = Absent
     \<and> (\<exists>c a. claims_of d w k = Some (Item c) \<and> claim_age now c = Some a \<and> grace \<le> a)"

text \<open>The places after the sweep.\<close>

definition reaped_places :: "int \<Rightarrow> int \<Rightarrow> redis_db \<Rightarrow> places" where
  "reaped_places now grace d k =
     (case db_places d k of
        Some (Held w n) \<Rightarrow> Some (if orphan now grace d w k then Queued n (getPriorityScore now (Some Reason_resume)) else Held w n)
      | p \<Rightarrow> p)"

definition reaping :: "int \<Rightarrow> int \<Rightarrow> redis_db \<Rightarrow> redis_db \<Rightarrow> bool" where
  "reaping now grace d0 d \<longleftrightarrow> db_ok d
     \<and> (\<forall>w. d (buildHeartbeatKey w) = d0 (buildHeartbeatKey w))
     \<and> (\<forall>w k. claims_of d w k = claims_of d0 w k \<or> (claims_of d w k = None \<and> orphan now grace d0 w k))
     \<and> (\<forall>k. db_places d k =
          (if \<exists>w. orphan now grace d0 w k \<and> claims_of d w k = None then reaped_places now grace d0 k else db_places d0 k))"

lemma reaping_start: "db_ok d \<Longrightarrow> reaping now grace d d"
  by (auto simp: reaping_def orphan_def)

lemma orphan_place:
  assumes "db_ok d" and "orphan now grace d w k"
  obtains c where "claims_of d w k = Some (Item c)" and "db_places d k = Some (Held w (si_attemptCount c))"
  using assms data_places_iff [OF db_okD(2) [OF assms(1)]] by (auto simp: orphan_def db_places_def)

lemma reaping_done:
  assumes "db_ok d0" and "reaping now grace d0 d" and "\<And>w k. orphan now grace d0 w k \<Longrightarrow> claims_of d w k = None"
  shows "db_places d = reaped_places now grace d0"
proof
  fix k
  show "db_places d k = reaped_places now grace d0 k"
  proof (cases "\<exists>w. orphan now grace d0 w k")
    case True
    with assms(2,3) show ?thesis by (auto simp: reaping_def)
  next
    case False
    then have "reaped_places now grace d0 k = db_places d0 k" by (auto simp: reaped_places_def split: option.split place.split)
    with False assms(2) show ?thesis by (auto simp: reaping_def)
  qed
qed

lemma reapingD:
  assumes "reaping now grace d0 d"
  shows "db_ok d" and "d (buildHeartbeatKey w) = d0 (buildHeartbeatKey w)"
    and "claims_of d w k = claims_of d0 w k \<or> claims_of d w k = None"
proof -
  show "db_ok d" "d (buildHeartbeatKey w) = d0 (buildHeartbeatKey w)" using assms by (simp_all add: reaping_def)
  have "\<forall>w k. claims_of d w k = claims_of d0 w k \<or> (claims_of d w k = None \<and> orphan now grace d0 w k)"
    using assms unfolding reaping_def by (elim conjE)
  from this [rule_format, of w k] show "claims_of d w k = claims_of d0 w k \<or> claims_of d w k = None" by (elim disjE) simp_all
qed

lemma reaping_step:
  assumes "db_ok d0" and "reaping now grace d0 d" and "orphan now grace d0 w k" and "claims_of d w k = Some (Item c)"
  defines "z \<equiv> getPriorityScore now (Some Reason_resume)"
  defines "d' \<equiv> set_pending ((pending_of d)(Item (reclaim_item z c) \<mapsto> z)) (set_claims w ((claims_of d w)(k := None)) d)"
  shows "reaping now grace d0 d'"
proof -
  have ok: "db_ok d" and "claims_of d w k = claims_of d0 w k \<or> claims_of d w k = None" by (rule reapingD [OF assms(2)])+
  then have same: "claims_of d0 w k = Some (Item c)" using assms(4) by auto
  note u = drop_claim_data [OF db_okD(2) [OF ok] assms(4)]
  have wk: "well_keyed k (Item (reclaim_item z c))" and a: "si_attemptCount (reclaim_item z c) = si_attemptCount c"
    using shapeD(2) [OF db_okD(2) [OF ok] assms(4)] by (auto simp: well_keyed_def reclaim_item_def buildItemKey_def)
  have n: "data_places (pending_of d) ((claims_of d)(w := (claims_of d w)(k := None))) k = None" using u(2) by simp
  have p0: "db_places d0 k = Some (Held w (si_attemptCount c))" and p: "db_places d k = Some (Held w (si_attemptCount c))"
    using orphan_place [OF assms(1,3)] same data_places_iff [OF db_okD(2) [OF ok], of k "Held w (si_attemptCount c)"] assms(4)
    by (auto simp: db_places_def)
  note q = queue_new [OF u(1) n wk, of z]
  have places: "db_places d' = (db_places d)(k \<mapsto> Queued (si_attemptCount c) z)"
    using q(2) u(2) a by (simp add: d'_def db_places_def)
  have "db_ok d'"
    using q(1) places p db_okD(1,3) [OF ok] by (auto simp: db_ok_def d'_def)
  moreover have "d' (buildHeartbeatKey v) = d0 (buildHeartbeatKey v)" for v
    using assms(2) by (simp add: reaping_def d'_def db_updates)
  moreover have "claims_of d' v j = claims_of d0 v j \<or> claims_of d' v j = None \<and> orphan now grace d0 v j" for v j
    using assms(2,3) by (auto simp: reaping_def d'_def)
  moreover have "db_places d' j =
      (if \<exists>v. orphan now grace d0 v j \<and> claims_of d' v j = None then reaped_places now grace d0 j else db_places d0 j)" for j
  proof (cases "j = k")
    case True
    have "reaped_places now grace d0 k = Some (Queued (si_attemptCount c) z)" using p0 assms(3) by (simp add: reaped_places_def z_def)
    moreover have ex: "\<exists>v. orphan now grace d0 v k \<and> claims_of d' v k = None" using assms(3) by (intro exI [of _ w]) (simp add: d'_def)
    ultimately show ?thesis unfolding True if_P [OF ex] by (simp add: places)
  next
    case False
    then have "claims_of d' v j = claims_of d v j" for v by (simp add: d'_def)
    moreover have "db_places d' j = db_places d j" using False places by simp
    ultimately show ?thesis using assms(2) by (simp add: reaping_def)
  qed
  ultimately show ?thesis by (simp add: reaping_def)
qed

section \<open>The sweep over the claims\<close>

definition gone :: "('r \<Rightarrow> redis_db) \<Rightarrow> 'a \<times> 'r redis_queue \<Rightarrow> string \<times> string \<Rightarrow> bool" where
  "gone kv st wk \<longleftrightarrow> claims_of (kv (rq_world (snd st))) (fst wk) (snd wk) = None"

definition reap_ok ::
    "('r \<Rightarrow> redis_db) \<Rightarrow> ('r \<Rightarrow> bool) \<Rightarrow> int \<Rightarrow> nat \<Rightarrow> int \<Rightarrow> redis_db \<Rightarrow> reap_report \<times> 'r redis_queue \<Rightarrow> bool" where
  "reap_ok kv up h L now d0 st \<longleftrightarrow>
     up (rq_world (snd st)) \<and> ''reclaimOrphan'' \<in> set (rq_defined (snd st)) \<and> rq_heartbeatCheckIntervalMs (snd st) = h
     \<and> rq_maxRetries (snd st) = L \<and> reaping now (2 * h) d0 (kv (rq_world (snd st)))
     \<and> (\<lambda>r. (ri_workerId r, ri_itemKey r)) ` set (rr_reclaimed (fst st)) = {(w, k). orphan now (2 * h) d0 w k \<and> gone kv st (w, k)}"

lemma fold_reap:
  assumes "\<And>x st. x \<in> set xs \<Longrightarrow> reap_ok kv up h L now d0 st \<Longrightarrow>
      reap_ok kv up h L now d0 (b x st) \<and> (\<forall>wk. gone kv st wk \<longrightarrow> gone kv (b x st) wk) \<and> (\<forall>wk\<in>need x. gone kv (b x st) wk)"
    and "reap_ok kv up h L now d0 st"
  shows "reap_ok kv up h L now d0 (fold b xs st) \<and> (\<forall>wk. gone kv st wk \<longrightarrow> gone kv (fold b xs st) wk)
     \<and> (\<forall>x\<in>set xs. \<forall>wk\<in>need x. gone kv (fold b xs st) wk)"
  using assms
proof (induction xs arbitrary: st)
  case Nil
  then show ?case by simp
next
  case (Cons x xs)
  from Cons.prems(1) [of x st] Cons.prems(2) have
    b: "reap_ok kv up h L now d0 (b x st)" "\<forall>wk. gone kv st wk \<longrightarrow> gone kv (b x st) wk" "\<forall>wk\<in>need x. gone kv (b x st) wk" by auto
  with Cons.IH [of "b x st"] Cons.prems(1) show ?case by auto
qed

lemma drop_claimed_prefix [simp]: "drop (length CLAIMED_KEY_PREFIX) (buildClaimedKey w) = w"
  by (simp add: buildClaimedKey_def)

lemma remember_age_other [simp]:
  "rq_defined (remember_age k t s) = rq_defined s" "rq_heartbeatCheckIntervalMs (remember_age k t s) = rq_heartbeatCheckIntervalMs s"
  by (simp_all add: remember_age_def split: option.split)

lemma script_call_does:
  assumes "queue_redis_laws R kv up" and "up (rq_world s)" and "name \<in> set (rq_defined s)"
    and "\<And>r. up r \<Longrightarrow> kv r = kv (rq_world s) \<Longrightarrow> does kv up f r x d"
  shows "\<exists>r. script_call R name f s = (Inr x, s\<lparr> rq_world := r \<rparr>) \<and> up r \<and> kv r = d"
proof -
  obtain r where "up r" "kv r = kv (rq_world s)"
    and "\<And>x d. does kv up f r x d \<Longrightarrow> \<exists>r'. redis_call R f s = (Inr x, s\<lparr> rq_world := r' \<rparr>) \<and> up r' \<and> kv r' = d"
    using redis_call_runs [OF assms(1,2)] by blast
  with assms(3,4) show ?thesis by (simp add: script_call_def)
qed

lemma reap_claim_step:
  assumes L: "queue_redis_laws R kv up" and d0: "db_ok d0" and st: "reap_ok kv up h L now d0 st"
    and hb: "d0 (buildHeartbeatKey w) = Absent" and p: "claims_of d0 w k = Some p"
  defines "st' \<equiv> reap_claim R now (buildClaimedKey w) (k, p) st"
  shows "reap_ok kv up h L now d0 st' \<and> (\<forall>wk. gone kv st wk \<longrightarrow> gone kv st' wk)
     \<and> (\<forall>wk\<in>(if orphan now (2 * h) d0 w k then {(w, k)} else {}). gone kv st' wk)"
proof -
  obtain report s where rs: "st = (report, s)" by (cases st)
  let ?d = "kv (rq_world s)" and ?z = "getPriorityScore now (Some Reason_resume)"
  obtain c where c: "p = Item c" using shapeD(2) [OF db_okD(2) [OF d0] p] by blast
  have s: "up (rq_world s)" "''reclaimOrphan'' \<in> set (rq_defined s)" "rq_heartbeatCheckIntervalMs s = h" "rq_maxRetries s = L"
    "reaping now (2 * h) d0 ?d"
    using st rs by (simp_all add: reap_ok_def)
  have d: "db_ok ?d" "?d (buildHeartbeatKey w) = Absent" and cl: "claims_of ?d w k = Some p \<or> claims_of ?d w k = None"
    using reapingD [OF s(5)] hb p by metis+
  have orph: "orphan now (2 * h) d0 w k \<longleftrightarrow> (\<exists>a. claim_age now c = Some a \<and> 2 * h \<le> a)"
    using hb p c by (auto simp: orphan_def)
  show ?thesis
  proof (cases "claim_age now c")
    case None
    then show ?thesis using st rs orph by (simp add: st'_def reap_claim_def c reap_ok_def gone_def)
  next
    case (Some a)
    let ?s = "remember_age k (qi_enqueuedAt c) s"
    let ?f = "RECLAIM_ORPHAN_SCRIPT R (buildClaimedKey w) (buildHeartbeatKey w) PENDING_KEY k a (2 * h) ?z (Item (reclaim_item ?z c))"
    have u: "up (rq_world ?s)" "''reclaimOrphan'' \<in> set (rq_defined ?s)" using s by simp_all
    note run = script_call_does [OF L u, of ?f, unfolded item_updates_world]
    consider (none) "claims_of ?d w k = None" | (young) "claims_of ?d w k = Some p" "a < 2 * h"
      | (old) "claims_of ?d w k = Some p" "\<not> a < 2 * h" using cl by (cases "a < 2 * h"; elim disjE) simp_all
    then show ?thesis
    proof cases
      case none
      obtain r where "script_call R ''reclaimOrphan'' ?f ?s = (Inr 0, ?s\<lparr> rq_world := r \<rparr>)" "up r" "kv r = ?d"
        using run [OF reclaim_script_none [OF L _ _ db_okD(1) [OF d(1)] none]] by blast
      then show ?thesis using st rs none Some s
        by (simp add: st'_def reap_claim_def c reap_ok_def gone_def Let_def)
    next
      case young
      obtain r where "script_call R ''reclaimOrphan'' ?f ?s = (Inr 3, ?s\<lparr> rq_world := r \<rparr>)" "up r" "kv r = ?d"
        using run [OF reclaim_script_young [OF L _ _ db_okD(1) [OF d(1)] _ d(2) young(2)]] young(1) by blast
      then show ?thesis using st rs young Some s orph
        by (simp add: st'_def reap_claim_def c reap_ok_def gone_def Let_def)
    next
      case old
      let ?d' = "set_pending ((pending_of ?d)(Item (reclaim_item ?z c) \<mapsto> ?z)) (set_claims w ((claims_of ?d w)(k := None)) ?d)"
      obtain r where r: "script_call R ''reclaimOrphan'' ?f ?s = (Inr 1, ?s\<lparr> rq_world := r \<rparr>)" "up r" "kv r = ?d'"
        using run [OF reclaim_script_done [OF L _ _ db_okD(1) [OF d(1)] _ d(2) old(2)]] old(1) by blast
      have o: "orphan now (2 * h) d0 w k" using orph Some old(2) by auto
      have "reaping now (2 * h) d0 ?d'" using reaping_step [OF d0 s(5) o] old(1) c by simp
      then show ?thesis using st rs Some s orph r o old
        by (auto simp: st'_def reap_claim_def c reap_ok_def gone_def Let_def reclaimed_entry_def split: if_splits)
    qed
  qed
qed

lemma redis_call_does:
  assumes "queue_redis_laws R kv up" and "up (rq_world s)"
    and "\<And>r. up r \<Longrightarrow> kv r = kv (rq_world s) \<Longrightarrow> does kv up f r x d"
  shows "\<exists>r. redis_call R f s = (Inr x, s\<lparr> rq_world := r \<rparr>) \<and> up r \<and> kv r = d"
  using redis_call_runs [OF assms(1,2), of f] assms(3) by metis

lemma reap_ok_world:
  assumes "reap_ok kv up h L now d0 (report, s)" and "up r" and "kv r = kv (rq_world s)"
  shows "reap_ok kv up h L now d0 (report\<lparr> rr_scanned := n \<rparr>, s\<lparr> rq_world := r \<rparr>)" "reap_ok kv up h L now d0 (report, s\<lparr> rq_world := r \<rparr>)"
  using assms by (simp_all add: reap_ok_def gone_def)

lemma reap_worker_step:
  assumes L: "queue_redis_laws R kv up" and d0: "db_ok d0" and st: "reap_ok kv up h L now d0 st" and key: "key = buildClaimedKey w"
  defines "st' \<equiv> reap_worker R now key st"
  shows "reap_ok kv up h L now d0 st' \<and> (\<forall>wk. gone kv st wk \<longrightarrow> gone kv st' wk)
     \<and> (\<forall>wk\<in>{(w, k) | k. orphan now (2 * h) d0 w k}. gone kv st' wk)"
proof -
  obtain report s where rs: "st = (report, s)" by (cases st)
  let ?d = "kv (rq_world s)"
  have s: "up (rq_world s)" "reaping now (2 * h) d0 ?d" using st rs by (simp_all add: reap_ok_def)
  note d = reapingD [OF s(2)]
  obtain r where r: "up r" "kv r = ?d" and run: "\<And>x d. does kv up (q_hgetall R key) r x d \<Longrightarrow>
      \<exists>r'. redis_call R (q_hgetall R key) s = (Inr x, s\<lparr> rq_world := r' \<rparr>) \<and> up r' \<and> kv r' = d"
    using redis_call_runs [OF L s(1)] by blast
  have "typed (kv r)" using db_okD(1) [OF d(1)] r(2) by simp
  from q_hash_law [OF L r(1) typedD(4) [OF this, of w]] obtain es where
    es: "map_of es = claims_of ?d w" "distinct (map fst es)" "does kv up (q_hgetall R key) r es (kv r)"
    unfolding key claims_of_def r(2) by blast
  from run [OF es(3)] obtain r1 where r1: "redis_call R (q_hgetall R key) s = (Inr es, s\<lparr> rq_world := r1 \<rparr>)" "up r1" "kv r1 = ?d"
    using r(2) by auto
  have orphans: "\<exists>p. (k, p) \<in> set es" if left: "orphan now (2 * h) d0 w k" "\<not> gone kv st (w, k)" for k
  proof -
    obtain p where "map_of es k = Some p" using left(2) es(1) rs by (auto simp: gone_def)
    then show ?thesis by (blast dest: map_of_SomeD)
  qed
  let ?s1 = "s\<lparr> rq_world := r1 \<rparr>"
  have st1: "reap_ok kv up h L now d0 (report, ?s1)" using reap_ok_world(2) [OF st [unfolded rs] r1(2,3)] .
  show ?thesis
  proof (cases "es = []")
    case True
    then have "claims_of ?d w k = None" for k using es(1) by (metis map_of.simps(1))
    then show ?thesis using st1 r1 rs True by (simp add: st'_def reap_worker_def gone_def)
  next
    case False
    have "does kv up (q_exists R (buildHeartbeatKey w)) r' (?d (buildHeartbeatKey w) \<noteq> Absent) ?d" if "up r'" "kv r' = ?d" for r'
      using cmd_exists [OF L that(1), of w] that(2) by simp
    with redis_call_does [OF L, of ?s1 "q_exists R (buildHeartbeatKey w)"] r1(2,3) obtain r2 where
      r2: "redis_call R (q_exists R (buildHeartbeatKey w)) ?s1 = (Inr (?d (buildHeartbeatKey w) \<noteq> Absent), ?s1\<lparr> rq_world := r2 \<rparr>)"
        "up r2" "kv r2 = ?d" by fastforce
    let ?s2 = "s\<lparr> rq_world := r2 \<rparr>"
    show ?thesis
    proof (cases "?d (buildHeartbeatKey w) = Absent")
      case False
      then have "\<not> orphan now (2 * h) d0 w k" for k using d(2) by (simp add: orphan_def)
      then show ?thesis
        using reap_ok_world(1) [OF st [unfolded rs] r2(2,3)] r1 r2 rs False \<open>es \<noteq> []\<close>
        by (simp add: st'_def reap_worker_def key gone_def Let_def)
    next
      case True
      then have hb: "d0 (buildHeartbeatKey w) = Absent" using d(2) by simp
      have st': "st' = fold (reap_claim R now key) es (report, ?s2)"
        using r1 r2 rs True \<open>es \<noteq> []\<close> by (simp add: st'_def reap_worker_def key Let_def)
      have st2: "reap_ok kv up h L now d0 (report, ?s2)" using reap_ok_world(2) [OF st [unfolded rs] r2(2,3)] .
      have p: "claims_of d0 w k = Some p" if "(k, p) \<in> set es" for k p
      proof -
        have "claims_of ?d w k = Some p" using that es(1,2) by (metis map_of_eq_Some_iff)
        with d(3) [of w k] show ?thesis by auto
      qed
      let ?need = "\<lambda>x. if orphan now (2 * h) d0 w (fst x) then {(w, fst x)} else {}"
      have step: "reap_ok kv up h L now d0 (reap_claim R now key x st) \<and> (\<forall>wk. gone kv st wk \<longrightarrow> gone kv (reap_claim R now key x st) wk)
          \<and> (\<forall>wk\<in>?need x. gone kv (reap_claim R now key x st) wk)" if "x \<in> set es" "reap_ok kv up h L now d0 st" for x st
        using reap_claim_step [OF L d0 that(2) hb p, of "fst x" "snd x"] that(1) unfolding key by simp
      have f: "reap_ok kv up h L now d0 st' \<and> (\<forall>wk. gone kv (report, ?s2) wk \<longrightarrow> gone kv st' wk)
          \<and> (\<forall>x\<in>set es. \<forall>wk\<in>?need x. gone kv st' wk)"
        unfolding st' by (rule fold_reap [OF _ st2]) (rule step)
      note f1 = f [THEN conjunct1] and f2 = f [THEN conjunct2, THEN conjunct1] and f3 = f [THEN conjunct2, THEN conjunct2]
      have same: "gone kv (report, ?s2) wk \<longleftrightarrow> gone kv st wk" for wk using r2(3) rs by (simp add: gone_def)
      have "gone kv st' (w, k)" if un: "orphan now (2 * h) d0 w k" for k
      proof (cases "gone kv st (w, k)")
        case True
        then have "gone kv (report, ?s2) (w, k)" by (simp only: same)
        then show ?thesis using spec [OF f2, of "(w, k)"] by (rule rev_mp)
      next
        case False
        obtain p where m: "(k, p) \<in> set es" using orphans [OF un False] by (elim exE)
        from bspec [OF f3 m] un show ?thesis by simp
      qed
      moreover have "\<forall>wk. gone kv st wk \<longrightarrow> gone kv st' wk" using f2 by (simp only: same)
      ultimately show ?thesis using f1 by simp
    qed
  qed
qed

text \<open>A page of the iteration that shows the claims of a worker as long as there are any.\<close>

definition shows_claims :: "'r queue_redis \<Rightarrow> ('r \<Rightarrow> redis_db) \<Rightarrow> string \<Rightarrow> string \<Rightarrow> bool" where
  "shows_claims R kv cursor w \<longleftrightarrow> (\<forall>r ks r'. kv r (buildClaimedKey w) \<noteq> Absent \<longrightarrow>
     q_scan R cursor CLAIMED_KEY_PREFIX r = (Inr ks, r') \<longrightarrow> buildClaimedKey w \<in> set ks)"

lemma reap_page_step:
  assumes L: "queue_redis_laws R kv up" and d0: "db_ok d0" and st: "reap_ok kv up h L now d0 st"
  shows "\<exists>keys s1. redis_call R (q_scan R cursor CLAIMED_KEY_PREFIX) (snd st) = (Inr keys, s1)
     \<and> reap_ok kv up h L now d0 (fold (reap_worker R now) keys (fst st, s1))
     \<and> (\<forall>wk. gone kv st wk \<longrightarrow> gone kv (fold (reap_worker R now) keys (fst st, s1)) wk)
     \<and> (\<forall>w k. shows_claims R kv cursor w \<longrightarrow> orphan now (2 * h) d0 w k \<longrightarrow> gone kv (fold (reap_worker R now) keys (fst st, s1)) (w, k))"
proof -
  obtain report s where rs: "st = (report, s)" by (cases st)
  have s: "up (rq_world s)" "reaping now (2 * h) d0 (kv (rq_world s))" using st rs by (simp_all add: reap_ok_def)
  let ?f = "q_scan R cursor CLAIMED_KEY_PREFIX"
  obtain r where r: "up r" "kv r = kv (rq_world s)" and run: "\<And>x d. does kv up ?f r x d \<Longrightarrow>
      \<exists>r'. redis_call R ?f s = (Inr x, s\<lparr> rq_world := r' \<rparr>) \<and> up r' \<and> kv r' = d"
    using redis_call_runs [OF L s(1)] by blast
  obtain keys where k: "does kv up ?f r keys (kv r)" "\<forall>key\<in>set keys. prefix CLAIMED_KEY_PREFIX key"
    using q_scan_law [OF L r(1)] by blast
  then obtain rx where rx: "?f r = (Inr keys, rx)" by (auto simp: does_def)
  from run [OF k(1)] obtain r1 where r1: "redis_call R ?f s = (Inr keys, s\<lparr> rq_world := r1 \<rparr>)" "up r1" "kv r1 = kv (rq_world s)"
    using r(2) by auto
  let ?s1 = "s\<lparr> rq_world := r1 \<rparr>"
  have st1: "reap_ok kv up h L now d0 (report, ?s1)" using reap_ok_world(2) [OF st [unfolded rs] r1(2,3)] .
  have g: "gone kv (report, ?s1) wk \<longleftrightarrow> gone kv st wk" for wk using r1(3) rs by (simp add: gone_def)
  define need where "need key = {(w, k). key = buildClaimedKey w \<and> orphan now (2 * h) d0 w k}" for key
  have "reap_ok kv up h L now d0 (reap_worker R now key st) \<and> (\<forall>wk. gone kv st wk \<longrightarrow> gone kv (reap_worker R now key st) wk)
      \<and> (\<forall>wk\<in>need key. gone kv (reap_worker R now key st) wk)" if "key \<in> set keys" "reap_ok kv up h L now d0 st" for key st
  proof -
    have "prefix CLAIMED_KEY_PREFIX key" using k(2) that(1) by blast
    then obtain w where w: "key = buildClaimedKey w" by (auto simp: prefix_def buildClaimedKey_def)
    have "need key = {(w, k) | k. orphan now (2 * h) d0 w k}" by (auto simp: need_def w)
    with reap_worker_step [OF L d0 that(2) w] show ?thesis by simp
  qed
  from fold_reap [where b = "reap_worker R now" and need = need, OF this st1] have
    f: "reap_ok kv up h L now d0 (fold (reap_worker R now) keys (report, ?s1))"
      "\<forall>wk. gone kv st wk \<longrightarrow> gone kv (fold (reap_worker R now) keys (report, ?s1)) wk"
      "\<forall>key\<in>set keys. \<forall>wk\<in>need key. gone kv (fold (reap_worker R now) keys (report, ?s1)) wk" unfolding g by blast+
  have "gone kv (fold (reap_worker R now) keys (report, ?s1)) (w, j)" if "shows_claims R kv cursor w" "orphan now (2 * h) d0 w j" for w j
  proof (cases "kv r (buildClaimedKey w) = Absent")
    case True
    then have "gone kv st (w, j)" using r(2) rs by (simp add: gone_def claims_of_def)
    with f(2) show ?thesis by blast
  next
    case False
    with that(1) rx have "buildClaimedKey w \<in> set keys" by (auto simp: shows_claims_def)
    with f(3) that(2) show ?thesis by (auto simp: need_def)
  qed
  with r1(1) f(1,2) rs show ?thesis by (intro exI [of _ keys] exI [of _ ?s1]) simp
qed

lemma reap_pages_done:
  assumes "queue_redis_laws R kv up" and "db_ok d0" and "reap_ok kv up h L now d0 st"
  shows "reap_ok kv up h L now d0 (reap_pages R now cursors st) \<and> (\<forall>wk. gone kv st wk \<longrightarrow> gone kv (reap_pages R now cursors st) wk)
     \<and> (\<forall>c\<in>set cursors. \<forall>w k. shows_claims R kv c w \<longrightarrow> orphan now (2 * h) d0 w k \<longrightarrow> gone kv (reap_pages R now cursors st) (w, k))"
  using assms(3)
proof (induction cursors arbitrary: st)
  case Nil
  then show ?case by simp
next
  case (Cons c cursors)
  from reap_page_step [OF assms(1,2) Cons.prems, of c] obtain keys s1 where
    k: "redis_call R (q_scan R c CLAIMED_KEY_PREFIX) (snd st) = (Inr keys, s1)"
      "reap_ok kv up h L now d0 (fold (reap_worker R now) keys (fst st, s1))"
      "\<forall>wk. gone kv st wk \<longrightarrow> gone kv (fold (reap_worker R now) keys (fst st, s1)) wk"
      "\<forall>w k. shows_claims R kv c w \<longrightarrow> orphan now (2 * h) d0 w k \<longrightarrow> gone kv (fold (reap_worker R now) keys (fst st, s1)) (w, k)"
    by blast
  from Cons.IH [OF k(2)] k(1,3,4) show ?case by simp
qed


text \<open>A server with one claim whose worker is gone.\<close>

definition orphaned_sample :: serialized_item where
  "orphaned_sample = cjson_item mem_queue_server ((sample_serialized 1 0)\<lparr> si_claimedAt := Some ''2026-01-01T00:00:00.000Z'' \<rparr>)"

definition orphaned_queue :: "mem_queue_redis redis_queue" where
  "orphaned_queue = new_redis_queue (jset (buildClaimedKey ''w'') (Mhash [(buildItemKey (sample_item 1), Item orphaned_sample)])
     (jset IN_FLIGHT_KEY (Mset [buildItemKey (sample_item 1)]) [])) None None None"

lemma empty_db:
  "db_ok (mem_kv [])" "db_places (mem_kv []) = Map.empty" "pending_of (mem_kv []) = Map.empty" "in_flight_of (mem_kv []) = {}"
  "claims_of (mem_kv []) w = Map.empty"
  using empty_redis_queue_ok
  by (simp_all add: rq_ok_def rq_places_def empty_redis_queue_def new_redis_queue_def pending_of_def in_flight_of_def claims_of_def mem_kv_def)

lemma orphaned_queue_ok:
  "rq_ok mem_kv (\<lambda>_. True) orphaned_queue" "rq_places mem_kv orphaned_queue = [buildItemKey (sample_item 1) \<mapsto> Held ''w'' 0]"
  "orphan 1767225700000 30000 (mem_kv (rq_world orphaned_queue)) ''w'' (buildItemKey (sample_item 1))"
proof -
  let ?d = "mem_kv []" and ?k = "buildItemKey (sample_item 1)" and ?s = "sample_serialized 1 0"
  let ?d1 = "set_pending ((pending_of ?d)(Item ?s \<mapsto> 0)) (set_in_flight (insert ?k (in_flight_of ?d)) ?d)"
  have "well_keyed ?k (Item ?s)" by (simp add: well_keyed_def sample_serialized_def)
  from db_queue [OF empty_db(1) _ this, of 0] have d1: "db_ok ?d1" "db_places ?d1 = [?k \<mapsto> Queued 0 0]"
    using empty_db(2) by (simp_all add: sample_serialized_def)
  have "pending_of ?d1 (Item ?s) = Some 0" by simp
  note c = db_claim [where w = "''w''" and v = Absent and R = mem_queue_server, OF d1(1) this orphaned_sample_def]
  let ?D = "set_heartbeat ''w'' Absent (set_claims ''w'' ((claims_of ?d1 ''w'')(si_itemKey ?s \<mapsto> Item orphaned_sample))
      (set_pending ((pending_of ?d1)(Item ?s := None)) ?d1))"
  have D: "mem_kv (rq_world orphaned_queue) = ?D"
    unfolding orphaned_queue_def new_redis_queue_def redis_queue.simps mem_kv_set db_views empty_db
    by (simp add: db_updates fun_eq_iff sample_serialized_def) (simp add: mem_kv_def of_zset_def)
  show "rq_ok mem_kv (\<lambda>_. True) orphaned_queue" "rq_places mem_kv orphaned_queue = [?k \<mapsto> Held ''w'' 0]"
    using c d1(2) by (simp_all add: rq_ok_def rq_places_def D orphaned_sample_def sample_serialized_def)
  have "Date_parse ''2026-01-01T00:00:00.000Z'' = Some 1767225600000" by code_simp
  then have "claim_age 1767225700000 orphaned_sample = Some 100000"
    by (simp add: claim_age_def orphaned_sample_def cjson_item_def default_to_def)
  moreover have "claims_of ?D ''w'' ?k = Some (Item orphaned_sample)" by (simp add: sample_serialized_def)
  moreover have "?D (buildHeartbeatKey ''w'') = Absent" by (simp add: set_heartbeat_def)
  ultimately show "orphan 1767225700000 30000 (mem_kv (rq_world orphaned_queue)) ''w'' ?k"
    unfolding D orphan_def by simp
qed


section \<open>Snapshots\<close>

text \<open>A computation that reads the database \<open>d\<close>: it changes nothing, and its result is in \<open>Q\<close>.\<close>

definition reads :: "('r \<Rightarrow> redis_db) \<Rightarrow> ('r \<Rightarrow> bool) \<Rightarrow> redis_db \<Rightarrow> ('r redis_queue, 'a) js \<Rightarrow> ('a \<Rightarrow> bool) \<Rightarrow> bool" where
  "reads kv up d f Q \<longleftrightarrow> (\<forall>s. up (rq_world s) \<longrightarrow> kv (rq_world s) = d \<longrightarrow>
     (\<exists>x r. f s = (Inr x, s\<lparr> rq_world := r \<rparr>) \<and> up r \<and> kv r = d \<and> Q x))"

lemma readsD:
  assumes "reads kv up d f Q" and "up (rq_world s)" and "kv (rq_world s) = d"
  obtains x r where "f s = (Inr x, s\<lparr> rq_world := r \<rparr>)" and "up r" and "kv r = d" and "Q x"
  using assms unfolding reads_def by blast

lemma reads_ret:
  assumes "Q x"
  shows "reads kv up d (cret x) Q"
  unfolding reads_def cret_def
proof (intro allI impI)
  fix s assume "up (rq_world s)" "kv (rq_world s) = d"
  with assms show "\<exists>y r. (Inr x, s) = (Inr y, s\<lparr> rq_world := r \<rparr>) \<and> up r \<and> kv r = d \<and> Q y"
    by (intro exI [of _ x] exI [of _ "rq_world s"]) simp
qed

lemma reads_weaken: "reads kv up d f Q \<Longrightarrow> (\<And>x. Q x \<Longrightarrow> Q' x) \<Longrightarrow> reads kv up d f Q'"
  unfolding reads_def by blast

lemma reads_bind:
  assumes "reads kv up d f Q" and "\<And>x. Q x \<Longrightarrow> reads kv up d (g x) Q'"
  shows "reads kv up d (cbind f g) Q'"
  unfolding reads_def
proof (intro allI impI)
  fix s :: "'a redis_queue" assume s: "up (rq_world s)" "kv (rq_world s) = d"
  obtain x r where f: "f s = (Inr x, s\<lparr> rq_world := r \<rparr>)" "up r" "kv r = d" "Q x" by (rule readsD [OF assms(1) s])
  from readsD [OF assms(2) [OF f(4)], of "s\<lparr> rq_world := r \<rparr>"] f(2,3) obtain y r' where
    "g x (s\<lparr> rq_world := r \<rparr>) = (Inr y, s\<lparr> rq_world := r' \<rparr>)" "up r'" "kv r' = d" "Q' y" by auto
  with f(1) show "\<exists>x r. cbind f g s = (Inr x, s\<lparr> rq_world := r \<rparr>) \<and> up r \<and> kv r = d \<and> Q' x" by (auto simp: comp_simps)
qed

lemma reads_call:
  assumes "queue_redis_laws R kv up" and "\<And>r. up r \<Longrightarrow> kv r = d \<Longrightarrow> \<exists>x. does kv up f r x d \<and> Q x"
  shows "reads kv up d (redis_call R f) Q"
  unfolding reads_def
proof (intro allI impI)
  fix s :: "'a redis_queue" assume s: "up (rq_world s)" "kv (rq_world s) = d"
  obtain r where r: "up r" "kv r = kv (rq_world s)"
    and run: "\<And>x d. does kv up f r x d \<Longrightarrow> \<exists>r'. redis_call R f s = (Inr x, s\<lparr> rq_world := r' \<rparr>) \<and> up r' \<and> kv r' = d"
    using redis_call_runs [OF assms(1) s(1)] by blast
  from assms(2) [OF r(1)] r(2) s(2) obtain x where "does kv up f r x d" "Q x" by auto
  with run show "\<exists>x r. redis_call R f s = (Inr x, s\<lparr> rq_world := r \<rparr>) \<and> up r \<and> kv r = d \<and> Q x" by blast
qed

definition shows_member :: "'r queue_redis \<Rightarrow> ('r \<Rightarrow> redis_db) \<Rightarrow> string \<Rightarrow> string \<Rightarrow> bool" where
  "shows_member R kv cursor x \<longleftrightarrow> (\<forall>r xs r'. x \<in> as_set (kv r IN_FLIGHT_KEY) \<longrightarrow> q_sscan R IN_FLIGHT_KEY cursor r = (Inr xs, r') \<longrightarrow> x \<in> set xs)"

lemma reads_sscan_all:
  assumes L: "queue_redis_laws R kv up" and d: "typed d"
  shows "distinct acc \<Longrightarrow> reads kv up d (sscan_all R cursors acc) (\<lambda>xs. distinct xs \<and> set acc \<subseteq> set xs \<and> set xs \<subseteq> set acc \<union> in_flight_of d
     \<and> (\<forall>c\<in>set cursors. \<forall>x. shows_member R kv c x \<longrightarrow> x \<in> in_flight_of d \<longrightarrow> x \<in> set xs))"
proof (induction cursors arbitrary: acc)
  case Nil
  then show ?case by (simp add: reads_ret)
next
  case (Cons c cursors)
  have "reads kv up d (redis_call R (q_sscan R IN_FLIGHT_KEY c))
     (\<lambda>xs. set xs \<subseteq> in_flight_of d \<and> (\<forall>x. shows_member R kv c x \<longrightarrow> x \<in> in_flight_of d \<longrightarrow> x \<in> set xs))"
  proof (rule reads_call [OF L])
    fix r assume r: "up r" "kv r = d"
    obtain xs where "does kv up (q_sscan R IN_FLIGHT_KEY c) r xs d" "set xs \<subseteq> in_flight_of d"
      using q_sscan_law [OF L r(1), of IN_FLIGHT_KEY c] typedD(3) [OF d] unfolding r(2) in_flight_of_def by blast
    then show "\<exists>xs. does kv up (q_sscan R IN_FLIGHT_KEY c) r xs d \<and> set xs \<subseteq> in_flight_of d
        \<and> (\<forall>x. shows_member R kv c x \<longrightarrow> x \<in> in_flight_of d \<longrightarrow> x \<in> set xs)"
      using r(2) by (auto simp: does_def shows_member_def in_flight_of_def)
  qed
  then show ?case
    unfolding sscan_all.simps
  proof (rule reads_bind)
    fix batch assume b: "set batch \<subseteq> in_flight_of d \<and> (\<forall>x. shows_member R kv c x \<longrightarrow> x \<in> in_flight_of d \<longrightarrow> x \<in> set batch)"
    show "reads kv up d (sscan_all R cursors (fold sadd batch acc)) (\<lambda>xs. distinct xs \<and> set acc \<subseteq> set xs \<and> set xs \<subseteq> set acc \<union> in_flight_of d
        \<and> (\<forall>c\<in>set (c # cursors). \<forall>x. shows_member R kv c x \<longrightarrow> x \<in> in_flight_of d \<longrightarrow> x \<in> set xs))"
      by (rule reads_weaken [OF Cons.IH [OF distinct_fold_sadd [OF Cons.prems], of batch]]) (use b in auto)
  qed
qed

definition claimed_keys :: "redis_db \<Rightarrow> string set" where
  "claimed_keys d = {k. \<exists>w. claims_of d w k \<noteq> None}"

lemma reads_hkeys_all:
  assumes L: "queue_redis_laws R kv up" and d: "typed d"
  shows "\<forall>key\<in>set keys. prefix CLAIMED_KEY_PREFIX key \<Longrightarrow>
     reads kv up d (hkeys_all R keys acc) (\<lambda>xs. set xs = set acc \<union> {k. \<exists>w. buildClaimedKey w \<in> set keys \<and> claims_of d w k \<noteq> None})"
proof (induction keys arbitrary: acc)
  case Nil
  then show ?case by (simp add: reads_ret)
next
  case (Cons key keys)
  then obtain w where w: "key = buildClaimedKey w" by (auto simp: prefix_def buildClaimedKey_def)
  have "reads kv up d (redis_call R (q_hkeys R key)) (\<lambda>ks. set ks = {k. claims_of d w k \<noteq> None})"
  proof (rule reads_call [OF L])
    fix r assume r: "up r" "kv r = d"
    have "typed (kv r)" using d r(2) by simp
    from q_hash_law [OF L r(1) typedD(4) [OF this, of w]] obtain es where
      "map_of es = claims_of d w" "does kv up (q_hkeys R key) r (map fst es) d" unfolding w claims_of_def r(2) by blast
    moreover from this(1) have "set (map fst es) = {k. claims_of d w k \<noteq> None}" by (metis dom_def dom_map_of_conv_image_fst list.set_map)
    ultimately show "\<exists>ks. does kv up (q_hkeys R key) r ks d \<and> set ks = {k. claims_of d w k \<noteq> None}" by blast
  qed
  then show ?case
    unfolding hkeys_all.simps
  proof (rule reads_bind)
    fix ks assume k: "set ks = {k. claims_of d w k \<noteq> None}"
    have "\<forall>key\<in>set keys. prefix CLAIMED_KEY_PREFIX key" using Cons.prems by simp
    from Cons.IH [OF this, of "fold sadd ks acc"]
    show "reads kv up d (hkeys_all R keys (fold sadd ks acc))
        (\<lambda>xs. set xs = set acc \<union> {k. \<exists>w. buildClaimedKey w \<in> set (key # keys) \<and> claims_of d w k \<noteq> None})"
      by (rule reads_weaken) (auto simp: k w)
  qed
qed

lemma reads_claimed_all:
  assumes L: "queue_redis_laws R kv up" and d: "typed d"
  shows "reads kv up d (claimed_all R cursors acc) (\<lambda>xs. set acc \<subseteq> set xs \<and> set xs \<subseteq> set acc \<union> claimed_keys d
     \<and> (\<forall>c\<in>set cursors. \<forall>w k. shows_claims R kv c w \<longrightarrow> claims_of d w k \<noteq> None \<longrightarrow> k \<in> set xs))"
proof (induction cursors arbitrary: acc)
  case Nil
  then show ?case by (simp add: reads_ret)
next
  case (Cons c cursors)
  have "reads kv up d (redis_call R (q_scan R c CLAIMED_KEY_PREFIX))
     (\<lambda>keys. (\<forall>key\<in>set keys. prefix CLAIMED_KEY_PREFIX key)
        \<and> (\<forall>w. shows_claims R kv c w \<longrightarrow> d (buildClaimedKey w) \<noteq> Absent \<longrightarrow> buildClaimedKey w \<in> set keys))"
  proof (rule reads_call [OF L])
    fix r assume r: "up r" "kv r = d"
    obtain keys where "does kv up (q_scan R c CLAIMED_KEY_PREFIX) r keys d" "\<forall>key\<in>set keys. prefix CLAIMED_KEY_PREFIX key"
      using q_scan_law [OF L r(1), of c CLAIMED_KEY_PREFIX] unfolding r(2) by blast
    then show "\<exists>keys. does kv up (q_scan R c CLAIMED_KEY_PREFIX) r keys d \<and> (\<forall>key\<in>set keys. prefix CLAIMED_KEY_PREFIX key)
        \<and> (\<forall>w. shows_claims R kv c w \<longrightarrow> d (buildClaimedKey w) \<noteq> Absent \<longrightarrow> buildClaimedKey w \<in> set keys)"
      using r(2) by (auto simp: does_def shows_claims_def)
  qed
  then show ?case
    unfolding claimed_all.simps
  proof (rule reads_bind)
    fix keys assume k: "(\<forall>key\<in>set keys. prefix CLAIMED_KEY_PREFIX key)
        \<and> (\<forall>w. shows_claims R kv c w \<longrightarrow> d (buildClaimedKey w) \<noteq> Absent \<longrightarrow> buildClaimedKey w \<in> set keys)"
    have p: "d (buildClaimedKey w) \<noteq> Absent" if "claims_of d w j = Some p" for w j p using that by (auto simp: claims_of_def)
    have "\<forall>key\<in>set keys. prefix CLAIMED_KEY_PREFIX key" using k by blast
    from reads_hkeys_all [OF L d this, of acc] show "reads kv up d (cbind (hkeys_all R keys acc) (claimed_all R cursors))
        (\<lambda>xs. set acc \<subseteq> set xs \<and> set xs \<subseteq> set acc \<union> claimed_keys d
          \<and> (\<forall>c\<in>set (c # cursors). \<forall>w k. shows_claims R kv c w \<longrightarrow> claims_of d w k \<noteq> None \<longrightarrow> k \<in> set xs))"
    proof (rule reads_bind)
      fix acc' assume a: "set acc' = set acc \<union> {k. \<exists>w. buildClaimedKey w \<in> set keys \<and> claims_of d w k \<noteq> None}"
      have sub: "set acc \<subseteq> set acc'" "set acc' \<subseteq> set acc \<union> claimed_keys d" unfolding a claimed_keys_def by blast+
      have cov: "j \<in> set acc'" if "shows_claims R kv c w" "claims_of d w j \<noteq> None" for w j
        using that k p a by auto
      show "reads kv up d (claimed_all R cursors acc')
          (\<lambda>xs. set acc \<subseteq> set xs \<and> set xs \<subseteq> set acc \<union> claimed_keys d
            \<and> (\<forall>c\<in>set (c # cursors). \<forall>w k. shows_claims R kv c w \<longrightarrow> claims_of d w k \<noteq> None \<longrightarrow> k \<in> set xs))"
        by (rule reads_weaken [OF Cons.IH [of acc']], unfold list.set ball_simps) (use sub cov in blast)
    qed
  qed
qed

lemma reads_at:
  assumes "\<And>s. up (rq_world s) \<Longrightarrow> kv (rq_world s) = d \<Longrightarrow> reads kv up d (g s) Q"
  shows "reads kv up d (\<lambda>s. g s s) Q"
  using assms unfolding reads_def by blast

lemma reads_claimed_keys:
  assumes L: "queue_redis_laws R kv up" and d: "typed d" and s: "kv (rq_world s) = d"
  shows "reads kv up d (claimed_all R (q_cursors R (rq_world s)) []) (\<lambda>xs. set xs = claimed_keys d)"
proof (rule reads_weaken [OF reads_claimed_all [OF L d]])
  fix xs assume x: "set [] \<subseteq> set xs \<and> set xs \<subseteq> set [] \<union> claimed_keys d
     \<and> (\<forall>c\<in>set (q_cursors R (rq_world s)). \<forall>w k. shows_claims R kv c w \<longrightarrow> claims_of d w k \<noteq> None \<longrightarrow> k \<in> set xs)"
  have "k \<in> set xs" if "claims_of d w k \<noteq> None" for w k
  proof -
    have "kv (rq_world s) (buildClaimedKey w) \<noteq> Absent" using that s by (auto simp: claims_of_def)
    from q_scan_complete [where r = "rq_world s" and pre = CLAIMED_KEY_PREFIX, OF L _ this] obtain c where
      "c \<in> set (q_cursors R (rq_world s))" "shows_claims R kv c w" by (auto simp: buildClaimedKey_def shows_claims_def)
    with x that show ?thesis by blast
  qed
  with x show "set xs = claimed_keys d" by (auto simp: claimed_keys_def)
qed

lemma claimed_keys_iff:
  assumes "shape (pending_of d) (claims_of d)"
  shows "k \<in> dom (db_places d) \<longleftrightarrow> (\<exists>c z. pending_of d (Item c) = Some z \<and> si_itemKey c = k) \<or> k \<in> claimed_keys d"
proof -
  have "k \<in> dom (db_places d) \<longleftrightarrow> (\<exists>p. placed (pending_of d) (claims_of d) k p)"
    using data_places_None [OF assms, of k] by (auto simp: db_places_def dom_def)
  also have "\<dots> \<longleftrightarrow> (\<exists>n z. placed (pending_of d) (claims_of d) k (Queued n z)) \<or> (\<exists>w n. placed (pending_of d) (claims_of d) k (Held w n))"
    by (metis place.exhaust)
  also have "(\<exists>w n. placed (pending_of d) (claims_of d) k (Held w n)) \<longleftrightarrow> k \<in> claimed_keys d"
    using shapeD(2) [OF assms] by (fastforce simp: claimed_keys_def)
  finally show ?thesis by auto
qed

lemma reads_live:
  assumes L: "queue_redis_laws R kv up" and d: "typed d" and sh: "shape (pending_of d) (claims_of d)"
  shows "reads kv up d (live_snapshot R) (\<lambda>xs. set xs = dom (db_places d))"
  unfolding live_snapshot_def
proof (rule reads_bind)
  show "reads kv up d (redis_call R (q_zrange R PENDING_KEY 0 (-1))) (\<lambda>ms. map_of ms = pending_of d \<and> distinct (map fst ms))"
  proof (rule reads_call [OF L])
    fix r assume r: "up r" "kv r = d"
    have "typed (kv r)" using d r(2) by simp
    from q_zrange_law [OF L r(1) typedD(1) [OF this]] obtain ms where "distinct (map fst ms)" "map_of ms = pending_of d"
      "does kv up (q_zrange R PENDING_KEY 0 (-1)) r (zslice 0 (-1) ms) d" unfolding r(2) pending_of_def by blast
    then show "\<exists>ms. does kv up (q_zrange R PENDING_KEY 0 (-1)) r ms d \<and> map_of ms = pending_of d \<and> distinct (map fst ms)" by auto
  qed
  fix ms assume ms: "map_of ms = pending_of d \<and> distinct (map fst ms)"
  then have m: "(m, z) \<in> set ms \<longleftrightarrow> pending_of d m = Some z" for m z by (metis map_of_eq_Some_iff)
  have keyed: "si_itemKey c \<noteq> []" if "pending_of d (Item c) = Some z" for c z
    using shapeD(1) [OF sh that] by (auto simp: buildItemKey_def)
  have pend: "set (pending_keys ms) = {k. \<exists>c z. pending_of d (Item c) = Some z \<and> si_itemKey c = k}"
  proof -
    have "k \<in> set (pending_keys ms) \<longleftrightarrow> (\<exists>c z. (Item c, z) \<in> set ms \<and> si_itemKey c = k \<and> k \<noteq> [])" for k
      unfolding pending_keys_def by (force split: payload.splits if_splits)
    then show ?thesis unfolding set_eq_iff mem_Collect_eq m using keyed by blast
  qed
  have dm: "dom (db_places d) = set (pending_keys ms) \<union> claimed_keys d"
    unfolding set_eq_iff Un_iff claimed_keys_iff [OF sh] pend mem_Collect_eq by blast
  show "reads kv up d (\<lambda>s. cbind (claimed_all R (q_cursors R (rq_world s)) []) (\<lambda>claimed. cret (pending_keys ms @ claimed)) s)
      (\<lambda>xs. set xs = dom (db_places d))"
    by (rule reads_at, rule reads_bind [OF reads_claimed_keys [OF L d]], assumption, rule reads_ret)
      (simp add: dm)
qed

section \<open>The sweep over the in-flight index\<close>

lemma set_in_flight_simps [simp]:
  "typed d \<Longrightarrow> set_in_flight (in_flight_of d) d = d" "set_in_flight A (set_in_flight B d) = set_in_flight A d"
  by (auto simp: set_in_flight_def typed_def is_set_def in_flight_of_def fun_eq_iff)

lemma reconcile_script:
  assumes "queue_redis_laws R kv up" and "up r" and "kv r = d" and "typed d" and "k \<in> in_flight_of d"
  shows "does kv up (RECONCILE_IN_FLIGHT_SCRIPT R IN_FLIGHT_KEY k) r 1 (set_in_flight (in_flight_of d - {k}) d)"
  unfolding RECONCILE_IN_FLIGHT_SCRIPT_def assms(3) [symmetric]
  by (rule does_if script_steps assms(1,2) | simp add: assms(3-5); fail)+

text \<open>The tracker entries that make an item be removed in the sweep \<open>n\<close>, and the tracker after it.\<close>

definition confirmed :: "nat \<Rightarrow> (string, nat) jmap \<Rightarrow> string \<Rightarrow> bool" where
  "confirmed n T k \<longleftrightarrow> (\<exists>m. jget T k = Some m \<and> m < n)"

definition tracked :: "nat \<Rightarrow> nat option \<Rightarrow> nat option" where
  "tracked n e = (case e of None \<Rightarrow> Some n | Some m \<Rightarrow> if m < n then None else Some m)"

lemma reconcile_one_step:
  assumes L: "queue_redis_laws R kv up" and u: "up (rq_world s)" "''reconcileInFlightItem'' \<in> set (rq_defined s)"
    and d: "kv (rq_world s) = set_in_flight A d" "typed d" "k \<in> A"
  shows "\<exists>report' s'. reconcile_one R n k (report, s) = (report', s') \<and> up (rq_world s') \<and> rq_defined s' = rq_defined s
     \<and> rq_maxRetries s' = rq_maxRetries s \<and> rq_reconcileSweepCounter s' = rq_reconcileSweepCounter s
     \<and> kv (rq_world s') = set_in_flight (if confirmed n (rq_reconcileTracker s) k then A - {k} else A) d
     \<and> (\<forall>j. jget (rq_reconcileTracker s') j = (if j = k then tracked n (jget (rq_reconcileTracker s) k) else jget (rq_reconcileTracker s) j))"
proof (cases "confirmed n (rq_reconcileTracker s) k")
  case False
  with u d show ?thesis by (auto simp: reconcile_one_def confirmed_def tracked_def split: option.split)
next
  case True
  then obtain m where m: "jget (rq_reconcileTracker s) k = Some m" "m < n" by (auto simp: confirmed_def)
  have "typed (set_in_flight A d)" "k \<in> in_flight_of (set_in_flight A d)" using d by simp_all
  from script_call_does [OF L u, of "RECONCILE_IN_FLIGHT_SCRIPT R IN_FLIGHT_KEY k", unfolded d(1), OF reconcile_script [OF L _ _ this]]
  obtain r where "script_call R ''reconcileInFlightItem'' (RECONCILE_IN_FLIGHT_SCRIPT R IN_FLIGHT_KEY k) s = (Inr 1, s\<lparr> rq_world := r \<rparr>)"
    "up r" "kv r = set_in_flight (A - {k}) d" by auto
  with m True show ?thesis by (auto simp: reconcile_one_def tracked_def forget_item_def)
qed

lemma reconcile_fold:
  assumes L: "queue_redis_laws R kv up"
  shows "up (rq_world s) \<Longrightarrow> ''reconcileInFlightItem'' \<in> set (rq_defined s) \<Longrightarrow> kv (rq_world s) = set_in_flight A d \<Longrightarrow> typed d
     \<Longrightarrow> set ks \<subseteq> A \<Longrightarrow> distinct ks \<Longrightarrow>
     \<exists>report' s'. fold (reconcile_one R n) ks (report, s) = (report', s') \<and> up (rq_world s') \<and> rq_maxRetries s' = rq_maxRetries s
     \<and> rq_reconcileSweepCounter s' = rq_reconcileSweepCounter s
     \<and> kv (rq_world s') = set_in_flight (A - {k \<in> set ks. confirmed n (rq_reconcileTracker s) k}) d
     \<and> (\<forall>j. jget (rq_reconcileTracker s') j = (if j \<in> set ks then tracked n (jget (rq_reconcileTracker s) j) else jget (rq_reconcileTracker s) j))"
proof (induction ks arbitrary: s A report)
  case Nil
  then show ?case by simp
next
  case (Cons k ks)
  let ?A = "if confirmed n (rq_reconcileTracker s) k then A - {k} else A"
  from Cons.prems have "k \<in> A" by simp
  from reconcile_one_step [OF L Cons.prems(1-4) this, of n report] obtain report' s' where
    s': "reconcile_one R n k (report, s) = (report', s')" "up (rq_world s')" "rq_defined s' = rq_defined s"
      "rq_maxRetries s' = rq_maxRetries s" "rq_reconcileSweepCounter s' = rq_reconcileSweepCounter s"
      "kv (rq_world s') = set_in_flight ?A d"
      "\<forall>j. jget (rq_reconcileTracker s') j = (if j = k then tracked n (jget (rq_reconcileTracker s) k) else jget (rq_reconcileTracker s) j)"
    by blast
  have "set ks \<subseteq> ?A" "distinct ks" "''reconcileInFlightItem'' \<in> set (rq_defined s')" using Cons.prems s'(3) by auto
  from Cons.IH [OF s'(2) this(3) s'(6) Cons.prems(4) this(1,2), of report'] obtain report'' s'' where
    s'': "fold (reconcile_one R n) ks (report', s') = (report'', s'')" "up (rq_world s'')" "rq_maxRetries s'' = rq_maxRetries s"
      "rq_reconcileSweepCounter s'' = rq_reconcileSweepCounter s"
      "kv (rq_world s'') = set_in_flight (?A - {k \<in> set ks. confirmed n (rq_reconcileTracker s') k}) d"
      "\<forall>j. jget (rq_reconcileTracker s'') j = (if j \<in> set ks then tracked n (jget (rq_reconcileTracker s') j) else jget (rq_reconcileTracker s') j)"
    using s'(4,5) by auto
  have c: "confirmed n (rq_reconcileTracker s') j = confirmed n (rq_reconcileTracker s) j" if "j \<in> set ks" for j
    using that s'(7) Cons.prems(6) by (auto simp: confirmed_def)
  have "?A - {k \<in> set ks. confirmed n (rq_reconcileTracker s') k} = A - {j \<in> set (k # ks). confirmed n (rq_reconcileTracker s) j}"
    using c by auto
  moreover have "jget (rq_reconcileTracker s'') j =
      (if j \<in> set (k # ks) then tracked n (jget (rq_reconcileTracker s) j) else jget (rq_reconcileTracker s) j)" for j
    using s''(6) s'(7) Cons.prems(6) by auto
  ultimately show ?case using s'(1) s'' by auto
qed

text \<open>A database whose in-flight index may have members that belong to no item.\<close>

definition nearly_ok :: "redis_db \<Rightarrow> bool" where
  "nearly_ok d \<longleftrightarrow> typed d \<and> shape (pending_of d) (claims_of d) \<and> dom (db_places d) \<subseteq> in_flight_of d"

lemma reconcile_sweep:
  assumes L: "queue_redis_laws R kv up" and u: "up (rq_world s)" and d: "nearly_ok (kv (rq_world s))"
  defines "d \<equiv> kv (rq_world s)" and "n \<equiv> rq_reconcileSweepCounter s + 1"
  defines "residue \<equiv> in_flight_of d - dom (db_places d)"
  shows "\<exists>report s'. rq_reconcileInFlight R now s = (Inr report, s') \<and> up (rq_world s') \<and> rq_maxRetries s' = rq_maxRetries s
     \<and> rq_reconcileSweepCounter s' = n
     \<and> kv (rq_world s') = set_in_flight (in_flight_of d - {k \<in> residue. confirmed n (rq_reconcileTracker s) k}) d
     \<and> (\<forall>j. jget (rq_reconcileTracker s') j = (if j \<in> residue then tracked n (jget (rq_reconcileTracker s) j) else None))"
proof -
  have ty: "typed d" and sh: "shape (pending_of d) (claims_of d)" and sub: "dom (db_places d) \<subseteq> in_flight_of d"
    using d by (simp_all add: nearly_ok_def d_def)
  let ?s0 = "ensure_command ''reconcileInFlightItem'' (s\<lparr> rq_reconcileSweepCounter := n \<rparr>)"
  have s0: "up (rq_world ?s0)" "kv (rq_world ?s0) = d" "rq_world ?s0 = rq_world s" using u by (simp_all add: d_def)
  obtain xs r1 where xs: "sscan_all R (q_scursors R IN_FLIGHT_KEY (rq_world s)) [] ?s0 = (Inr xs, ?s0\<lparr> rq_world := r1 \<rparr>)" "up r1" "kv r1 = d"
    "distinct xs" "set xs \<subseteq> in_flight_of d"
    "\<And>c x. c \<in> set (q_scursors R IN_FLIGHT_KEY (rq_world s)) \<Longrightarrow> shows_member R kv c x \<Longrightarrow> x \<in> in_flight_of d \<Longrightarrow> x \<in> set xs"
    by (rule readsD [OF reads_sscan_all [OF L ty, of "[]" "q_scursors R IN_FLIGHT_KEY (rq_world s)"] s0(1,2)]) auto
  have all: "set xs = in_flight_of d"
  proof (rule antisym [OF xs(5)], rule subsetI)
    fix x assume x: "x \<in> in_flight_of d"
    then have "x \<in> as_set (kv (rq_world s) IN_FLIGHT_KEY)" by (simp add: in_flight_of_def d_def)
    from q_sscan_complete [OF L this] obtain c where "c \<in> set (q_scursors R IN_FLIGHT_KEY (rq_world s))" "shows_member R kv c x"
      by (auto simp: shows_member_def)
    with xs(6) x show "x \<in> set xs" by blast
  qed
  let ?s1 = "?s0\<lparr> rq_world := r1 \<rparr>"
  obtain live r2 where live: "live_snapshot R ?s1 = (Inr live, ?s1\<lparr> rq_world := r2 \<rparr>)" "up r2" "kv r2 = d" "set live = dom (db_places d)"
    by (rule readsD [OF reads_live [OF L ty sh], of ?s1]) (use xs(2,3) in auto)
  let ?s2 = "?s0\<lparr> rq_world := r2 \<rparr>" and ?ks = "filter (\<lambda>k. k \<notin> set live) xs"
  have twice: "?s1\<lparr> rq_world := r2 \<rparr> = ?s2" by simp
  have ks: "set ?ks = residue" using all live(4) by (auto simp: residue_def)
  have s2: "up (rq_world ?s2)" "''reconcileInFlightItem'' \<in> set (rq_defined ?s2)" "kv (rq_world ?s2) = set_in_flight (in_flight_of d) d"
    "set ?ks \<subseteq> in_flight_of d" "distinct ?ks" "rq_reconcileTracker ?s2 = rq_reconcileTracker s" "rq_maxRetries ?s2 = rq_maxRetries s"
    "rq_reconcileSweepCounter ?s2 = n"
    using live(2,3) ty xs(4,5) by (auto simp: ensure_command_def)
  obtain report s3 where s3: "fold (reconcile_one R n) ?ks (no_reconcile\<lparr> rc_scanned := length xs \<rparr>, ?s2) = (report, s3)" "up (rq_world s3)"
    "rq_maxRetries s3 = rq_maxRetries s" "rq_reconcileSweepCounter s3 = n"
    "kv (rq_world s3) = set_in_flight (in_flight_of d - {k \<in> residue. confirmed n (rq_reconcileTracker s) k}) d"
    "\<forall>j. jget (rq_reconcileTracker s3) j = (if j \<in> residue then tracked n (jget (rq_reconcileTracker s) j) else jget (rq_reconcileTracker s) j)"
    using reconcile_fold [OF L s2(1-3) ty s2(4,5), of n] unfolding ks s2(6-8) by blast
  let ?s3 = "s3\<lparr> rq_reconcileTracker := filter (\<lambda>e. fst e \<in> set ?ks) (rq_reconcileTracker s3) \<rparr>"
  have "rq_reconcileInFlight R now s = (Inr report, ?s3)"
    unfolding rq_reconcileInFlight_def Let_def n_def [symmetric]
    by (simp only: s0(3) xs(1) live(1) twice s3(1) sum.case prod.case)
  moreover have "jget (filter (\<lambda>e. fst e \<in> residue) T) j = (if j \<in> residue then jget T j else None)" for T :: "(string, nat) jmap" and j
    by (induction T) auto
  ultimately show ?thesis using s3(2-6) ks by auto
qed

lemma nearly_ok_shrink:
  assumes "nearly_ok d" and "dom (db_places d) \<subseteq> A"
  shows "nearly_ok (set_in_flight A d)" and "db_places (set_in_flight A d) = db_places d"
  using assms by (simp_all add: nearly_ok_def db_places_def)

text \<open>
  C16. Two sweeps repair the in-flight index and never touch a live item: from a database
  whose index contains members that belong to no item, and a tracker that has not seen
  them, the first sweep removes nothing and the second one removes exactly these members,
  after which the queue is in order again; all items stay where they are.
\<close>

theorem reconcile_repairs_index:
  assumes "queue_redis_laws R kv up" and "up (rq_world s)" and "nearly_ok (kv (rq_world s))" and "rq_reconcileTracker s = []"
  shows "\<exists>report1 s1 report2 s2. rq_reconcileInFlight R now s = (Inr report1, s1) \<and> rq_reconcileInFlight R now' s1 = (Inr report2, s2)
     \<and> in_flight_of (kv (rq_world s1)) = in_flight_of (kv (rq_world s)) \<and> rq_places kv s1 = rq_places kv s
     \<and> rq_ok kv up s2 \<and> rq_places kv s2 = rq_places kv s"
proof -
  let ?d = "kv (rq_world s)" and ?n = "rq_reconcileSweepCounter s + 1"
  have ty: "typed ?d" and sub: "dom (db_places ?d) \<subseteq> in_flight_of ?d" using assms(3) by (simp_all add: nearly_ok_def)
  have e: "confirmed m (rq_reconcileTracker s) k = False" "jget (rq_reconcileTracker s) k = None" for m k
    by (simp_all add: confirmed_def assms(4))
  obtain report1 s1 where s1: "rq_reconcileInFlight R now s = (Inr report1, s1)" "up (rq_world s1)" "rq_reconcileSweepCounter s1 = ?n"
    "kv (rq_world s1) = ?d"
    "\<And>j. jget (rq_reconcileTracker s1) j = (if j \<in> in_flight_of ?d - dom (db_places ?d) then Some ?n else None)"
    using reconcile_sweep [OF assms(1-3), of now] ty unfolding e tracked_def option.case by auto
  have ne: "nearly_ok (kv (rq_world s1))" using assms(3) s1(4) by simp
  have c: "confirmed (rq_reconcileSweepCounter s1 + 1) (rq_reconcileTracker s1) k \<longleftrightarrow> k \<in> in_flight_of ?d - dom (db_places ?d)" for k
    by (auto simp: confirmed_def s1(3,5) split: if_splits)
  have a: "in_flight_of ?d - {k \<in> in_flight_of ?d - dom (db_places ?d). k \<in> in_flight_of ?d - dom (db_places ?d)} = dom (db_places ?d)"
    using sub by auto
  obtain report2 s2 where s2: "rq_reconcileInFlight R now' s1 = (Inr report2, s2)" "up (rq_world s2)"
    "kv (rq_world s2) = set_in_flight (dom (db_places ?d)) ?d"
    using reconcile_sweep [OF assms(1) s1(2) ne, of now'] unfolding c unfolding s1(4) a by blast
  have "rq_ok kv up s2" "rq_places kv s2 = rq_places kv s" "rq_places kv s1 = rq_places kv s"
    using s2(2,3) s1(4) assms(3) nearly_ok_shrink [OF assms(3) order_refl]
    by (auto simp: rq_ok_def db_ok_def rq_places_def nearly_ok_def)
  moreover have "in_flight_of (kv (rq_world s1)) = in_flight_of ?d" using s1(4) by simp
  ultimately show ?thesis using s1(1) s2(1) by blast
qed

text \<open>A server whose index has a member that belongs to no item.\<close>

definition residue_queue :: "mem_queue_redis redis_queue" where
  "residue_queue = new_redis_queue (jset IN_FLIGHT_KEY (Mset [''o/r#9'']) []) None None None"

lemma residue_queue_ok:
  "nearly_ok (mem_kv (rq_world residue_queue))" "rq_places mem_kv residue_queue = Map.empty" "rq_reconcileTracker residue_queue = []"
  "in_flight_of (mem_kv (rq_world residue_queue)) = {''o/r#9''}"
proof -
  have "mem_kv (rq_world residue_queue) = set_in_flight {''o/r#9''} (mem_kv [])"
    unfolding residue_queue_def new_redis_queue_def redis_queue.simps mem_kv_set set_in_flight_def by simp
  moreover have "nearly_ok (mem_kv [])" using empty_db(1) by (simp add: nearly_ok_def db_ok_def)
  ultimately show "nearly_ok (mem_kv (rq_world residue_queue))" "rq_places mem_kv residue_queue = Map.empty"
    "in_flight_of (mem_kv (rq_world residue_queue)) = {''o/r#9''}"
    using nearly_ok_shrink [of "mem_kv []" "{''o/r#9''}"] empty_db(2) by (simp_all add: rq_places_def)
  show "rq_reconcileTracker residue_queue = []" by (simp add: residue_queue_def new_redis_queue_def)
qed

theorem reconcile_repairs_index_witness:
  "\<exists>report1 s1 report2 s2. rq_reconcileInFlight mem_queue_server 5 residue_queue = (Inr report1, s1)
     \<and> rq_reconcileInFlight mem_queue_server 6 s1 = (Inr report2, s2)
     \<and> in_flight_of (mem_kv (rq_world s1)) = {''o/r#9''} \<and> in_flight_of (mem_kv (rq_world s2)) = {}"
proof -
  from reconcile_repairs_index [OF mem_queue_server_laws TrueI residue_queue_ok(1,3), of 5 6] residue_queue_ok(2,4)
  show ?thesis by (auto simp: rq_ok_def rq_places_def db_okD(3))
qed

end
