(* ===== verification/JsValues.thy ===== *)
theory JsValues
  imports Prelude
begin

text \<open>
  The part of the JavaScript library the workflow engine (\<open>src/packages/workflow-engine\<close>) works
  with: values of type \<open>unknown\<close>, property access, texts, \<open>JSON.stringify\<close> and \<open>JSON.parse\<close>.
  Characters are code units up to 255, numbers are rationals; a number is printed with at most
  17 digits after the point, which is exact for every decimal the engine reads.
\<close>

section \<open>Texts\<close>

definition is_space :: "char \<Rightarrow> bool" where
  "is_space c \<longleftrightarrow> of_char c \<in> {9, 10, 11, 12, 13, 32, 160 :: nat}"

definition trim :: "string \<Rightarrow> string" where
  "trim s = rev (dropWhile is_space (rev (dropWhile is_space s)))"

fun split_on :: "char \<Rightarrow> string \<Rightarrow> string list" where
  "split_on c [] = [[]]"
| "split_on c (x # xs) =
     (if x = c then [] # split_on c xs
      else (case split_on c xs of w # ws \<Rightarrow> (x # w) # ws | [] \<Rightarrow> [[x]]))"

definition starts_with :: "string \<Rightarrow> string \<Rightarrow> bool" where
  "starts_with p s \<longleftrightarrow> take (length p) s = p"

fun has_text :: "string \<Rightarrow> string \<Rightarrow> bool" where
  "has_text p [] \<longleftrightarrow> p = []"
| "has_text p (x # xs) \<longleftrightarrow> starts_with p (x # xs) \<or> has_text p xs"

text \<open>\<open>s.replace(/p/g, r)\<close> for a non-empty literal text \<open>p\<close>.\<close>

function replace_all :: "string \<Rightarrow> string \<Rightarrow> string \<Rightarrow> string" where
  "replace_all p r [] = []"
| "replace_all p r (x # xs) =
     (if p \<noteq> [] \<and> starts_with p (x # xs) then r @ replace_all p r (drop (length p) (x # xs))
      else x # replace_all p r xs)"
  by pat_completeness auto
termination
  by (relation "measure (\<lambda>(p, r, s). length s)") auto

text \<open>\<open>s.replace(p, r)\<close> for a literal text \<open>p\<close>: the first occurrence only.\<close>

fun replace_first :: "string \<Rightarrow> string \<Rightarrow> string \<Rightarrow> string" where
  "replace_first p r [] = (if p = [] then r else [])"
| "replace_first p r (x # xs) =
     (if starts_with p (x # xs) then r @ drop (length p) (x # xs) else x # replace_first p r xs)"

fun join_with :: "string \<Rightarrow> string list \<Rightarrow> string" where
  "join_with sep [] = []"
| "join_with sep [w] = w"
| "join_with sep (w # ws) = w @ sep @ join_with sep ws"

lemma split_on_nonempty [simp]: "split_on c s \<noteq> []"
  by (induction s) (auto split: list.split)

lemma join_split [simp]: "join_with [c] (split_on c s) = s"
proof (induction s)
  case (Cons x xs)
  obtain w ws where s: "split_on c xs = w # ws" using split_on_nonempty by (metis neq_Nil_conv)
  show ?case using Cons s by (cases ws) auto
qed simp

lemma starts_with_append [simp]: "starts_with p (p @ s)"
  by (simp add: starts_with_def)

lemma starts_with_iff: "starts_with p s \<longleftrightarrow> (\<exists>r. s = p @ r)"
  by (metis append_take_drop_id starts_with_append starts_with_def)

lemma has_text_iff: "has_text p s \<longleftrightarrow> (\<exists>a b. s = a @ p @ b)"
proof (induction s)
  case (Cons x xs)
  have "(\<exists>a b. x # xs = a @ p @ b) \<longleftrightarrow> (\<exists>b. x # xs = p @ b) \<or> (\<exists>a b. xs = a @ p @ b)"
    by (metis append_Cons append_Nil neq_Nil_conv list.inject)
  then show ?case using Cons by (simp add: starts_with_iff)
qed simp

lemma replace_all_absent: "\<not> has_text p s \<Longrightarrow> replace_all p r s = s"
  by (induction s) auto

section \<open>Values\<close>

text \<open>
  \<open>JsFun\<close> is a function a value inherits from its prototype, \<open>JsProto\<close> is \<open>Object.prototype\<close>,
  \<open>JsDate\<close> carries its ISO text.
\<close>

datatype jsval =
    JsUndefined
  | JsNull
  | JsBool bool
  | JsNum rat
  | JsStr string
  | JsArr "jsval list"
  | JsObj "(string \<times> jsval) list"
  | JsDate string
  | JsFun string
  | JsProto

definition js_int :: "int \<Rightarrow> jsval" where
  "js_int n = JsNum (of_int n)"

definition is_object :: "jsval \<Rightarrow> bool" where
  "is_object v = (case v of JsNull \<Rightarrow> True | JsArr _ \<Rightarrow> True | JsObj _ \<Rightarrow> True | JsDate _ \<Rightarrow> True | JsProto \<Rightarrow> True | _ \<Rightarrow> False)"

definition nullish :: "jsval \<Rightarrow> bool" where
  "nullish v \<longleftrightarrow> v = JsUndefined \<or> v = JsNull"

definition js_truthy :: "jsval \<Rightarrow> bool" where
  "js_truthy v = (case v of JsUndefined \<Rightarrow> False | JsNull \<Rightarrow> False | JsBool b \<Rightarrow> b | JsNum n \<Rightarrow> n \<noteq> 0 | JsStr s \<Rightarrow> s \<noteq> [] | _ \<Rightarrow> True)"

text \<open>\<open>a ?? b\<close>\<close>

definition js_default :: "jsval \<Rightarrow> jsval \<Rightarrow> jsval" where
  "js_default a b = (if nullish a then b else a)"

definition object_methods :: "string list" where
  "object_methods =
     [''hasOwnProperty'', ''isPrototypeOf'', ''propertyIsEnumerable'', ''toLocaleString'', ''toString'', ''valueOf'',
      ''__defineGetter__'', ''__defineSetter__'', ''__lookupGetter__'', ''__lookupSetter__'']"

definition array_methods :: "string list" where
  "array_methods =
     [''at'', ''concat'', ''copyWithin'', ''entries'', ''every'', ''fill'', ''filter'', ''find'', ''findIndex'', ''findLast'',
      ''findLastIndex'', ''flat'', ''flatMap'', ''forEach'', ''includes'', ''indexOf'', ''join'', ''keys'', ''lastIndexOf'',
      ''map'', ''pop'', ''push'', ''reduce'', ''reduceRight'', ''reverse'', ''shift'', ''slice'', ''some'', ''sort'',
      ''splice'', ''unshift'', ''values'', ''toReversed'', ''toSorted'', ''toSpliced'', ''with'']"

definition object_member :: "string \<Rightarrow> jsval" where
  "object_member k =
     (if k = ''constructor'' then JsFun ''Object'' else if k \<in> set object_methods then JsFun k else JsUndefined)"

text \<open>\<open>v[k]\<close> for an object \<open>v\<close> and a text \<open>k\<close>: own properties, then what the prototype has.\<close>

definition js_member :: "jsval \<Rightarrow> string \<Rightarrow> jsval" where
  "js_member v k =
     (case v of
        JsObj es \<Rightarrow> (case map_of es k of Some x \<Rightarrow> x | None \<Rightarrow> if k = ''__proto__'' then JsProto else object_member k)
      | JsProto \<Rightarrow> if k = ''__proto__'' then JsNull else object_member k
      | JsArr xs \<Rightarrow>
          if k = ''length'' then js_int (int (length xs))
          else if k \<noteq> [] \<and> list_all is_digit k \<and> show_nat (read_nat k) = k \<and> read_nat k < length xs then xs ! read_nat k
          else if k = ''constructor'' then JsFun ''Array''
          else if k \<in> set array_methods then JsFun k
          else object_member k
      | _ \<Rightarrow> JsUndefined)"

text \<open>\<open>xs[i]\<close>\<close>

definition js_index :: "jsval list \<Rightarrow> nat \<Rightarrow> jsval" where
  "js_index xs i = (if i < length xs then xs ! i else JsUndefined)"

section \<open>Numbers\<close>

text \<open>The digits of a fraction between 0 and 1, at most \<open>n\<close> of them, without trailing zeros.\<close>

fun fraction_digits :: "nat \<Rightarrow> rat \<Rightarrow> string" where
  "fraction_digits 0 q = []"
| "fraction_digits (Suc n) q =
     (if q = 0 then [] else digit_char (nat \<lfloor>10 * q\<rfloor>) # fraction_digits n (10 * q - of_int \<lfloor>10 * q\<rfloor>))"

definition show_number :: "rat \<Rightarrow> string" where
  "show_number q =
     (let a = \<bar>q\<bar>; ds = fraction_digits 17 (a - of_int \<lfloor>a\<rfloor>)
      in (if q < 0 then ''-'' else []) @ show_nat (nat \<lfloor>a\<rfloor>) @ (if ds = [] then [] else CHR ''.'' # ds))"

lemma fraction_digits_0 [simp]: "fraction_digits n 0 = []"
  by (cases n) simp_all

lemma show_number_int: "show_number (of_int n) = show_int n"
proof (cases "n < 0")
  case True
  then have "\<bar>of_int n\<bar> = (of_int (- n) :: rat)" by simp
  with True show ?thesis by (simp add: show_number_def show_int_def Let_def)
next
  case False
  then show ?thesis by (simp add: show_number_def show_int_def Let_def)
qed

section \<open>JSON\<close>

definition hex_char :: "nat \<Rightarrow> char" where
  "hex_char n = (if n < 10 then char_of (48 + n) else char_of (87 + n))"

definition json_char :: "char \<Rightarrow> string" where
  "json_char c =
     (let n = of_char c :: nat
      in if c = CHR 34 then [CHR 92, CHR 34]
         else if c = CHR 92 then [CHR 92, CHR 92]
         else if n = 8 then [CHR 92, CHR ''b'']
         else if n = 9 then [CHR 92, CHR ''t'']
         else if n = 10 then [CHR 92, CHR ''n'']
         else if n = 12 then [CHR 92, CHR ''f'']
         else if n = 13 then [CHR 92, CHR ''r'']
         else if n < 32 then [CHR 92, CHR ''u'', CHR ''0'', CHR ''0'', hex_char (n div 16), hex_char (n mod 16)]
         else [c])"

definition json_quote :: "string \<Rightarrow> string" where
  "json_quote s = CHR 34 # concat (map json_char s) @ [CHR 34]"

text \<open>
  \<open>JSON.stringify\<close>; \<open>None\<close> is \<open>undefined\<close>, which leaves a property out and stands as \<open>null\<close> in
  an array.
\<close>

fun JSON_stringify :: "jsval \<Rightarrow> string option" where
  "JSON_stringify JsUndefined = None"
| "JSON_stringify (JsFun _) = None"
| "JSON_stringify JsNull = Some ''null''"
| "JSON_stringify (JsBool b) = Some (if b then ''true'' else ''false'')"
| "JSON_stringify (JsNum q) = Some (show_number q)"
| "JSON_stringify (JsStr s) = Some (json_quote s)"
| "JSON_stringify (JsDate s) = Some (json_quote s)"
| "JSON_stringify JsProto = Some ''{}''"
| "JSON_stringify (JsArr xs) =
     Some (''['' @ join_with '','' (map (\<lambda>x. case JSON_stringify x of None \<Rightarrow> ''null'' | Some t \<Rightarrow> t) xs) @ '']'')"
| "JSON_stringify (JsObj es) =
     Some (''{'' @ join_with '',''
        (concat (map (\<lambda>e. case JSON_stringify (snd e) of None \<Rightarrow> [] | Some t \<Rightarrow> [json_quote (fst e) @ '':'' @ t]) es)) @ ''}'')"

definition json_skip :: "string \<Rightarrow> string" where
  "json_skip s = dropWhile (\<lambda>c. of_char c \<in> {9, 10, 13, 32 :: nat}) s"

definition hex_value :: "char \<Rightarrow> nat option" where
  "hex_value c =
     (let n = of_char c :: nat
      in if 48 \<le> n \<and> n \<le> 57 then Some (n - 48)
         else if 97 \<le> n \<and> n \<le> 102 then Some (n - 87)
         else if 65 \<le> n \<and> n \<le> 70 then Some (n - 55)
         else None)"

definition unescape :: "char \<Rightarrow> char option" where
  "unescape c =
     (if c \<in> {CHR 34, CHR 92, CHR ''/''} then Some c
      else if c = CHR ''b'' then Some (CHR 8) else if c = CHR ''f'' then Some (CHR 12)
      else if c = CHR ''n'' then Some (CHR 10) else if c = CHR ''r'' then Some (CHR 13)
      else if c = CHR ''t'' then Some (CHR 9) else None)"

definition hex_code :: "char \<Rightarrow> char \<Rightarrow> char \<Rightarrow> char \<Rightarrow> nat option" where
  "hex_code a b c d =
     (case (hex_value a, hex_value b, hex_value c, hex_value d) of
        (Some w, Some x, Some y, Some z) \<Rightarrow> Some (((w * 16 + x) * 16 + y) * 16 + z)
      | _ \<Rightarrow> None)"

text \<open>A text after its opening quote: the characters and what follows the closing quote.\<close>

function json_text :: "string \<Rightarrow> (string \<times> string) option" where
  "json_text [] = None"
| "json_text (c # cs) =
     (if c = CHR 34 then Some ([], cs)
      else if (of_char c :: nat) < 32 then None
      else if c = CHR 92 then
        (case cs of
           [] \<Rightarrow> None
         | e # rest \<Rightarrow>
             if e = CHR ''u'' then
               (case rest of
                  h1 # h2 # h3 # h4 # rest' \<Rightarrow>
                    (case hex_code h1 h2 h3 h4 of
                       None \<Rightarrow> None
                     | Some n \<Rightarrow> map_option (\<lambda>(t, r). (char_of n # t, r)) (json_text rest'))
                | _ \<Rightarrow> None)
             else
               (case unescape e of
                  None \<Rightarrow> None
                | Some x \<Rightarrow> map_option (\<lambda>(t, r). (x # t, r)) (json_text rest)))
      else map_option (\<lambda>(t, r). (c # t, r)) (json_text cs))"
  by pat_completeness auto
termination
  by (relation "measure length") auto

text \<open>A number: the optional minus, the integer part, the fraction and the exponent.\<close>

definition json_number :: "string \<Rightarrow> (rat \<times> string) option" where
  "json_number s =
     (let neg = starts_with ''-'' s; s0 = (if neg then tl s else s);
          whole = takeWhile is_digit s0; s1 = dropWhile is_digit s0;
          point = starts_with ''.'' s1; frac = (if point then takeWhile is_digit (tl s1) else []);
          s2 = (if point then dropWhile is_digit (tl s1) else s1);
          ex = starts_with ''e'' s2 \<or> starts_with ''E'' s2; s3 = (if ex then tl s2 else s2);
          exneg = ex \<and> starts_with ''-'' s3; s4 = (if ex \<and> (starts_with ''-'' s3 \<or> starts_with ''+'' s3) then tl s3 else s3);
          expo = (if ex then takeWhile is_digit s4 else []); s5 = (if ex then dropWhile is_digit s4 else s4);
          m = of_nat (read_nat whole) + of_nat (read_nat frac) / 10 ^ length frac;
          v = (if exneg then m / 10 ^ read_nat expo else m * 10 ^ read_nat expo)
      in if whole = [] \<or> (length whole > 1 \<and> starts_with ''0'' whole) \<or> (point \<and> frac = []) \<or> (ex \<and> expo = []) then None
         else Some (if neg then - v else v, s5))"

text \<open>
  A value after white space, with what follows. Each level of nesting takes two characters and
  two units of fuel, each further element two characters and one unit, so the length of the
  text is enough fuel. Of two members with one name the later wins.
\<close>

fun json_value :: "nat \<Rightarrow> string \<Rightarrow> (jsval \<times> string) option"
  and json_elements :: "nat \<Rightarrow> string \<Rightarrow> (jsval list \<times> string) option"
  and json_members :: "nat \<Rightarrow> string \<Rightarrow> ((string \<times> jsval) list \<times> string) option" where
  "json_value 0 s = None"
| "json_value (Suc n) s =
     (case json_skip s of
        [] \<Rightarrow> None
      | c # cs \<Rightarrow>
          if c = CHR 34 then map_option (\<lambda>(t, r). (JsStr t, r)) (json_text cs)
          else if c = CHR ''['' then
            (if starts_with '']'' (json_skip cs) then Some (JsArr [], tl (json_skip cs))
             else map_option (\<lambda>(xs, r). (JsArr xs, r)) (json_elements n cs))
          else if c = CHR ''{'' then
            (if starts_with ''}'' (json_skip cs) then Some (JsObj [], tl (json_skip cs))
             else map_option (\<lambda>(es, r). (JsObj (foldl (\<lambda>m (k, v). jset k v m) [] es), r)) (json_members n cs))
          else if starts_with ''null'' (c # cs) then Some (JsNull, drop 4 (c # cs))
          else if starts_with ''true'' (c # cs) then Some (JsBool True, drop 4 (c # cs))
          else if starts_with ''false'' (c # cs) then Some (JsBool False, drop 5 (c # cs))
          else map_option (\<lambda>(q, r). (JsNum q, r)) (json_number (c # cs)))"
| "json_elements 0 s = None"
| "json_elements (Suc n) s =
     (case json_value n s of
        None \<Rightarrow> None
      | Some (x, r) \<Rightarrow>
          (case json_skip r of
             c # cs \<Rightarrow>
               if c = CHR '']'' then Some ([x], cs)
               else if c = CHR '','' then map_option (\<lambda>(xs, r'). (x # xs, r')) (json_elements n cs)
               else None
           | [] \<Rightarrow> None))"
| "json_members 0 s = None"
| "json_members (Suc n) s =
     (case json_skip s of
        c # cs \<Rightarrow>
          if c \<noteq> CHR 34 then None
          else
            (case json_text cs of
               None \<Rightarrow> None
             | Some (k, r) \<Rightarrow>
                 (case json_skip r of
                    d # ds \<Rightarrow>
                      if d \<noteq> CHR '':'' then None
                      else
                        (case json_value n ds of
                           None \<Rightarrow> None
                         | Some (x, r') \<Rightarrow>
                             (case json_skip r' of
                                f # fs \<Rightarrow>
                                  if f = CHR ''}'' then Some ([(k, x)], fs)
                                  else if f = CHR '','' then map_option (\<lambda>(es, r''). ((k, x) # es, r'')) (json_members n fs)
                                  else None
                              | [] \<Rightarrow> None))
                  | [] \<Rightarrow> None))
      | [] \<Rightarrow> None)"

definition JSON_parse :: "string \<Rightarrow> jsval option" where
  "JSON_parse s =
     (case json_value (length s + 1) s of
        Some (v, r) \<Rightarrow> if json_skip r = [] then Some v else None
      | None \<Rightarrow> None)"

section \<open>Lists of results\<close>

text \<open>\<open>xs.map(f)\<close> where \<open>f\<close> may throw: the first error ends it.\<close>

primrec map_results :: "('a \<Rightarrow> 'e + 'b) \<Rightarrow> 'a list \<Rightarrow> 'e + 'b list" where
  "map_results f [] = Inr []"
| "map_results f (x # xs) =
     (case f x of
        Inl e \<Rightarrow> Inl e
      | Inr y \<Rightarrow> (case map_results f xs of Inl e \<Rightarrow> Inl e | Inr ys \<Rightarrow> Inr (y # ys)))"

lemma map_results_cong [fundef_cong]:
  "xs = ys \<Longrightarrow> (\<And>x. x \<in> set ys \<Longrightarrow> f x = g x) \<Longrightarrow> map_results f xs = map_results g ys"
  by (induction ys arbitrary: xs) (auto split: sum.split)

lemma map_results_append:
  "map_results f (xs @ ys) =
     (case map_results f xs of
        Inl e \<Rightarrow> Inl e
      | Inr us \<Rightarrow> (case map_results f ys of Inl e \<Rightarrow> Inl e | Inr vs \<Rightarrow> Inr (us @ vs)))"
  by (induction xs) (auto split: sum.split)

lemma map_results_ok: "(\<And>x. x \<in> set xs \<Longrightarrow> f x = Inr (g x)) \<Longrightarrow> map_results f xs = Inr (map g xs)"
  by (induction xs) auto

lemma map_results_Inr_iff: "map_results f xs = Inr ys \<longleftrightarrow> list_all2 (\<lambda>x y. f x = Inr y) xs ys"
proof (induction xs arbitrary: ys)
  case (Cons x xs)
  show ?case by (cases ys) (auto simp: Cons [symmetric] split: sum.split)
qed auto

end
