(* ===== verification/WorkflowTypes.thy ===== *)
theory WorkflowTypes
  imports JsValues
begin

text \<open>
  The data of the workflow engine: workflow definitions (\<open>types/workflow.ts\<close>), execution state
  (\<open>types/execution.ts\<close>), action results (\<open>types/action.ts\<close>), events (\<open>types/events.ts\<close>), and
  durations (\<open>retry/strategies.ts\<close>), all under \<open>src/packages/workflow-engine/src\<close>.
\<close>

section \<open>Workflow definitions\<close>

datatype backoff_strategy = Constant | Linear | Exponential

text \<open>A duration is a number of milliseconds or a text such as \<open>10s\<close>.\<close>

datatype duration_value = Millis rat | Duration string

record step_retry =
  sr_maxAttempts :: int
  sr_delay :: duration_value
  sr_backoff :: backoff_strategy
  sr_maxDelay :: "duration_value option"
  sr_jitter :: "rat option"

record step_definition =
  sd_name :: string
  sd_action :: string
  sd_uses :: "string option"
  sd_with :: "(string, jsval) jmap option"
  sd_command :: "string option"
  sd_script :: "string option"
  sd_timeout :: "rat option"
  sd_continueOnError :: bool
  sd_condition :: "string option"
  sd_env :: "(string, string) jmap option"
  sd_retry :: "step_retry option"
  sd_gate :: "string option"

record phase_definition =
  pd_name :: string
  pd_steps :: "step_definition list"
  pd_condition :: "string option"

datatype input_type = Type_string | Type_number | Type_boolean | Type_object | Type_array

record input_definition =
  id_name :: string
  id_description :: "string option"
  id_default :: jsval
  id_required :: bool
  id_type :: "input_type option"

record workflow_definition =
  wf_name :: string
  wf_description :: "string option"
  wf_version :: "string option"
  wf_inputs :: "input_definition list option"
  wf_phases :: "phase_definition list"
  wf_env :: "(string, string) jmap option"
  wf_timeout :: "rat option"
  wf_retry :: "step_retry option"

record executable_workflow =
  ew_name :: string
  ew_description :: "string option"
  ew_phases :: "phase_definition list"
  ew_env :: "(string, string) jmap option"
  ew_timeout :: "rat option"

section \<open>Execution\<close>

datatype execution_status = Exec_idle | Exec_running | Exec_paused | Exec_completed | Exec_failed | Exec_cancelled

datatype step_status = Step_pending | Step_running | Step_completed | Step_failed | Step_skipped

datatype execution_mode = Normal | Dry_run

record step_result =
  sres_stepName :: string
  sres_phaseName :: string
  sres_status :: step_status
  sres_startTime :: rat
  sres_endTime :: "rat option"
  sres_duration :: "rat option"
  sres_output :: "string option"
  sres_error :: "string option"
  sres_exitCode :: "int option"

record phase_result =
  pres_phaseName :: string
  pres_status :: step_status
  pres_startTime :: rat
  pres_endTime :: "rat option"
  pres_duration :: "rat option"
  pres_stepResults :: "step_result list"

record execution_result =
  er_workflowName :: string
  er_status :: execution_status
  er_mode :: execution_mode
  er_startTime :: rat
  er_endTime :: "rat option"
  er_duration :: "rat option"
  er_phaseResults :: "phase_result list"
  er_env :: "(string, string) jmap"

record execution_options =
  eo_mode :: execution_mode
  eo_env :: "(string, string) jmap option"
  eo_cwd :: "string option"
  eo_startPhase :: "string option"
  eo_startStep :: "string option"

record action_result =
  ar_success :: bool
  ar_output :: jsval
  ar_stdout :: "string option"
  ar_stderr :: "string option"
  ar_error :: "string option"
  ar_exitCode :: "int option"
  ar_duration :: rat

datatype event_type =
    Execution_start | Execution_complete | Execution_error | Execution_cancel
  | Phase_start | Phase_complete | Phase_error
  | Step_start | Step_complete | Step_error | Step_output
  | Action_start | Action_complete | Action_error | Action_retry | Log_append

text \<open>The data of an event is left out; its message is kept.\<close>

record execution_event =
  ev_type :: event_type
  ev_timestamp :: rat
  ev_workflowName :: string
  ev_phaseName :: "string option"
  ev_stepName :: "string option"
  ev_message :: "string option"

section \<open>Durations\<close>

definition to_lower :: "char \<Rightarrow> char" where
  "to_lower c = (let n = of_char c :: nat in if 65 \<le> n \<and> n \<le> 90 then char_of (n + 32) else c)"

text \<open>\<open>/^(\d+(?:\.\d+)?)\s*(ms|s|m|h)?$/i\<close>, then the value in milliseconds.\<close>

definition parseDuration :: "string \<Rightarrow> string + rat" where
  "parseDuration duration =
     (let whole = takeWhile is_digit duration; r = dropWhile is_digit duration;
          frac = (if starts_with ''.'' r then takeWhile is_digit (tl r) else []);
          r' = (if frac = [] then r else dropWhile is_digit (tl r));
          u = map to_lower (dropWhile is_space r');
          v = of_nat (read_nat whole) + of_nat (read_nat frac) / 10 ^ length frac
      in if whole = [] then Inl (''Invalid duration format: '' @ duration)
         else if u = ''h'' then Inr (v * 60 * 60 * 1000)
         else if u = ''m'' then Inr (v * 60 * 1000)
         else if u = ''s'' then Inr (v * 1000)
         else if u = ''ms'' \<or> u = [] then Inr v
         else Inl (''Invalid duration format: '' @ duration))"

text \<open>\<open>q.toFixed(1)\<close> for \<open>0 \<le> q\<close>: one digit after the point, halves rounded up.\<close>

definition toFixed1 :: "rat \<Rightarrow> string" where
  "toFixed1 q = (let n = nat \<lfloor>q * 10 + 1 / 2\<rfloor> in show_nat (n div 10) @ ''.'' @ show_nat (n mod 10))"

definition formatDuration :: "rat \<Rightarrow> string" where
  "formatDuration ms =
     (if ms < 1000 then show_number ms @ ''ms''
      else if ms < 60000 then toFixed1 (ms / 1000) @ ''s''
      else if ms < 3600000 then toFixed1 (ms / 60000) @ ''m''
      else toFixed1 (ms / 3600000) @ ''h'')"

definition duration_ms :: "duration_value \<Rightarrow> string + rat" where
  "duration_ms v = (case v of Millis ms \<Rightarrow> Inr ms | Duration t \<Rightarrow> parseDuration t)"

end
