(* ===== verification/StepRetry.thy ===== *)
theory StepRetry
  imports WorkflowTypes
begin

text \<open>
  Retries of the workflow engine: the backoff strategies (\<open>retry/strategies.ts\<close>), the retry
  manager and the timeout wrapper (\<open>retry/index.ts\<close>) of \<open>src/packages/workflow-engine/src\<close>.
  Time is explicit: an action takes the milliseconds its oracle says, a sleep takes what
  \<open>setTimeout\<close> gives it, and the signal is aborted from a given time on. Delays are rationals.
\<close>

section \<open>Backoff\<close>

definition capped :: "rat \<Rightarrow> rat option \<Rightarrow> rat" where
  "capped delay maxDelay = (case maxDelay of None \<Rightarrow> delay | Some m \<Rightarrow> min delay m)"

definition constantDelay :: "nat \<Rightarrow> rat \<Rightarrow> rat option \<Rightarrow> rat" where
  "constantDelay attempt baseDelay maxDelay = capped baseDelay maxDelay"

definition linearDelay :: "nat \<Rightarrow> rat \<Rightarrow> rat option \<Rightarrow> rat" where
  "linearDelay attempt baseDelay maxDelay = capped (baseDelay * of_nat attempt) maxDelay"

definition exponentialDelay :: "nat \<Rightarrow> rat \<Rightarrow> rat option \<Rightarrow> rat" where
  "exponentialDelay attempt baseDelay maxDelay = capped (baseDelay * 2 ^ (attempt - 1)) maxDelay"

text \<open>\<open>r\<close> is the value of \<open>Math.random()\<close>; \<open>Math.round(x)\<close> is the floor of \<open>x + 1/2\<close>.\<close>

definition addJitter :: "rat \<Rightarrow> rat \<Rightarrow> rat \<Rightarrow> rat" where
  "addJitter r delay jitterFactor =
     (let jitterAmount = delay * jitterFactor; jitter = (r * 2 - 1) * jitterAmount
      in max 0 (of_int \<lfloor>delay + jitter + 1 / 2\<rfloor>))"

definition calculateBackoffDelay :: "rat \<Rightarrow> backoff_strategy \<Rightarrow> nat \<Rightarrow> rat \<Rightarrow> rat option \<Rightarrow> rat option \<Rightarrow> rat" where
  "calculateBackoffDelay r strategy attempt baseDelay maxDelay jitterFactor =
     (let delay =
        (case strategy of
           Constant \<Rightarrow> constantDelay attempt baseDelay maxDelay
         | Linear \<Rightarrow> linearDelay attempt baseDelay maxDelay
         | Exponential \<Rightarrow> exponentialDelay attempt baseDelay maxDelay)
      in case jitterFactor of
           None \<Rightarrow> delay
         | Some j \<Rightarrow> if j > 0 then addJitter r delay j else delay)"

section \<open>Configuration\<close>

record retry_settings =
  rs_maxAttempts :: int
  rs_delay :: rat
  rs_backoff :: backoff_strategy
  rs_maxDelay :: "rat option"
  rs_jitter :: "rat option"

definition DEFAULT_STEP_RETRY :: retry_settings where
  "DEFAULT_STEP_RETRY =
     \<lparr> rs_maxAttempts = 1, rs_delay = 1000, rs_backoff = Exponential, rs_maxDelay = Some 60000, rs_jitter = Some (1 / 10) \<rparr>"

definition parseRetryConfig :: "step_definition \<Rightarrow> string + retry_settings" where
  "parseRetryConfig step =
     (case sd_retry step of
        None \<Rightarrow> Inr DEFAULT_STEP_RETRY
      | Some config \<Rightarrow>
          (case duration_ms (sr_delay config) of
             Inl e \<Rightarrow> Inl e
           | Inr delay \<Rightarrow>
               (case (case sr_maxDelay config of
                        None \<Rightarrow> Inr (rs_maxDelay DEFAULT_STEP_RETRY)
                      | Some m \<Rightarrow> (case duration_ms m of Inl e \<Rightarrow> Inl e | Inr ms \<Rightarrow> Inr (Some ms))) of
                  Inl e \<Rightarrow> Inl e
                | Inr maxDelay \<Rightarrow>
                    Inr \<lparr> rs_maxAttempts = sr_maxAttempts config, rs_delay = delay, rs_backoff = sr_backoff config,
                          rs_maxDelay = maxDelay,
                          rs_jitter = (case sr_jitter config of None \<Rightarrow> rs_jitter DEFAULT_STEP_RETRY | j \<Rightarrow> j) \<rparr>)))"

section \<open>Timers and the abort signal\<close>

text \<open>The delay of \<open>setTimeout\<close> in Node: truncated, and 1 if it is below 1 or above 2147483647.\<close>

definition timer_ms :: "rat \<Rightarrow> rat" where
  "timer_ms ms = (if 1 \<le> ms \<and> ms \<le> 2147483647 then of_int \<lfloor>ms\<rfloor> else 1)"

text \<open>The time from which on the signal is aborted, if ever.\<close>

definition aborted :: "rat option \<Rightarrow> rat \<Rightarrow> bool" where
  "aborted abortAt now = (case abortAt of None \<Rightarrow> False | Some a \<Rightarrow> a \<le> now)"

text \<open>\<open>sleep\<close>: the time at which the promise settles, and whether it resolves.\<close>

definition sleep :: "rat option \<Rightarrow> rat \<Rightarrow> rat \<Rightarrow> bool \<times> rat" where
  "sleep abortAt now ms =
     (if aborted abortAt now then (False, now)
      else
        (let t = now + timer_ms ms
         in case abortAt of Some a \<Rightarrow> (if a \<le> t then (False, a) else (True, t)) | None \<Rightarrow> (True, t)))"

section \<open>The retry manager\<close>

record retry_state =
  rst_attempt :: nat
  rst_previousErrors :: "string list"
  rst_canRetry :: bool
  rst_nextDelay :: "rat option"

record retry_result =
  rr_result :: action_result
  rr_attempts :: nat
  rr_totalDuration :: rat
  rr_errors :: "string list"

text \<open>A run: how the promise settles and when, the calls of \<open>onRetry\<close> with their time, and the results of the calls of the action.\<close>

record retry_run =
  run_outcome :: "string + retry_result"
  run_end :: rat
  run_retries :: "(rat \<times> retry_state \<times> string) list"
  run_calls :: "(string + action_result) list"

definition failed_result :: "string \<Rightarrow> rat \<Rightarrow> action_result" where
  "failed_result e d =
     \<lparr> ar_success = False, ar_output = JsNull, ar_stdout = None, ar_stderr = None, ar_error = Some e, ar_exitCode = None, ar_duration = d \<rparr>"

definition attempt_state :: "(nat \<Rightarrow> rat) \<Rightarrow> retry_settings \<Rightarrow> nat \<Rightarrow> string list \<Rightarrow> retry_state" where
  "attempt_state rnd config attempt errors =
     (let more = int attempt < rs_maxAttempts config
      in \<lparr> rst_attempt = attempt, rst_previousErrors = errors, rst_canRetry = more,
           rst_nextDelay =
             (if more then Some (calculateBackoffDelay (rnd attempt) (rs_backoff config) attempt (rs_delay config)
                                   (rs_maxDelay config) (rs_jitter config))
              else None) \<rparr>)"

definition is_cancellation :: "string \<Rightarrow> bool" where
  "is_cancellation e \<longleftrightarrow> has_text ''cancelled'' e \<or> has_text ''aborted'' e"

text \<open>
  One round of the loop: either the promise settles, or the loop goes on with the errors, the
  last result, the retries so far and the time. \<open>caught\<close> is the \<open>catch\<close> block.
\<close>

type_synonym retry_memory = "string list \<times> action_result option \<times> (rat \<times> retry_state \<times> string) list \<times> rat"

definition caught ::
    "rat option \<Rightarrow> retry_state \<Rightarrow> rat \<Rightarrow> string \<Rightarrow> retry_memory \<Rightarrow> ((string + retry_result) \<times> retry_memory) + retry_memory" where
  "caught abortAt state start e m =
     (case m of (errors, lastResult, retries, now) \<Rightarrow>
        (let errors = errors @ [e]
         in if is_cancellation e then
              Inl (Inr \<lparr> rr_result = (case lastResult of Some r \<Rightarrow> r | None \<Rightarrow> failed_result e (now - start)),
                         rr_attempts = rst_attempt state, rr_totalDuration = now - start, rr_errors = errors \<rparr>,
                   (errors, lastResult, retries, now))
            else
              (case rst_nextDelay state of
                 None \<Rightarrow> Inr (errors, lastResult, retries, now)
               | Some d \<Rightarrow>
                   (let retries = retries @ [(now, state, e)]
                    in case sleep abortAt now d of
                         (True, t) \<Rightarrow> Inr (errors, lastResult, retries, t)
                       | (False, t) \<Rightarrow> Inl (Inl ''Sleep aborted'', (errors, lastResult, retries, t))))))"

definition attempt_once ::
    "(nat \<Rightarrow> rat \<Rightarrow> (string + action_result) \<times> rat) \<Rightarrow> (nat \<Rightarrow> rat) \<Rightarrow> rat option \<Rightarrow> retry_settings \<Rightarrow> rat \<Rightarrow> nat
       \<Rightarrow> retry_memory \<Rightarrow> (((string + retry_result) \<times> retry_memory) + retry_memory) \<times> (string + action_result) list" where
  "attempt_once act rnd abortAt config start attempt m =
     (case m of (errors, lastResult, retries, now) \<Rightarrow>
        (let state = attempt_state rnd config attempt errors
         in if aborted abortAt now then (caught abortAt state start ''Execution cancelled'' m, [])
            else
              (case act attempt now of
                 (Inl e, d) \<Rightarrow> (caught abortAt state start e (errors, lastResult, retries, now + d), [Inl e])
               | (Inr r, d) \<Rightarrow>
                   (let now = now + d
                    in if ar_success r then
                         (Inl (Inr \<lparr> rr_result = r, rr_attempts = attempt, rr_totalDuration = now - start, rr_errors = errors \<rparr>,
                               (errors, Some r, retries, now)), [Inr r])
                       else
                         (let e = (case ar_error r of Some x \<Rightarrow> x | None \<Rightarrow> ''Action failed''); errors = errors @ [e]
                          in (case rst_nextDelay state of
                                None \<Rightarrow> (Inr (errors, Some r, retries, now), [Inr r])
                              | Some ms \<Rightarrow>
                                  (let retries = retries @ [(now, state, e)]
                                   in case sleep abortAt now ms of
                                        (True, t) \<Rightarrow> (Inr (errors, Some r, retries, t), [Inr r])
                                      | (False, t) \<Rightarrow>
                                          (caught abortAt state start ''Sleep aborted'' (errors, Some r, retries, t), [Inr r]))))))))"

function retry_rounds ::
    "(nat \<Rightarrow> rat \<Rightarrow> (string + action_result) \<times> rat) \<Rightarrow> (nat \<Rightarrow> rat) \<Rightarrow> rat option \<Rightarrow> retry_settings \<Rightarrow> rat \<Rightarrow> nat
       \<Rightarrow> retry_memory \<Rightarrow> retry_run" where
  "retry_rounds act rnd abortAt config start attempt m =
     (if int attempt \<le> rs_maxAttempts config then
        (case attempt_once act rnd abortAt config start attempt m of
           (Inl (outcome, (errors, lastResult, retries, now)), calls) \<Rightarrow>
             \<lparr> run_outcome = outcome, run_end = now, run_retries = retries, run_calls = calls \<rparr>
         | (Inr m', calls) \<Rightarrow>
             (let run = retry_rounds act rnd abortAt config start (attempt + 1) m' in run\<lparr> run_calls := calls @ run_calls run \<rparr>))
      else
        (case m of (errors, lastResult, retries, now) \<Rightarrow>
           \<lparr> run_outcome =
               Inr \<lparr> rr_result =
                       (case lastResult of
                          Some r \<Rightarrow> r
                        | None \<Rightarrow> failed_result (if errors = [] then ''Max retries exceeded'' else last errors) (now - start)),
                     rr_attempts = attempt - 1, rr_totalDuration = now - start, rr_errors = errors \<rparr>,
             run_end = now, run_retries = retries, run_calls = [] \<rparr>))"
  by pat_completeness auto
termination
  by (relation "measure (\<lambda>(act, rnd, abortAt, config, start, attempt, m). nat (rs_maxAttempts config + 1 - int attempt))") auto

declare retry_rounds.simps [simp del]

lemma rounds_stop:
  "\<not> int attempt \<le> rs_maxAttempts config \<Longrightarrow>
   retry_rounds act rnd abortAt config start attempt (errors, lastResult, retries, now) =
     \<lparr> run_outcome =
         Inr \<lparr> rr_result =
                 (case lastResult of
                    Some r \<Rightarrow> r
                  | None \<Rightarrow> failed_result (if errors = [] then ''Max retries exceeded'' else last errors) (now - start)),
               rr_attempts = attempt - 1, rr_totalDuration = now - start, rr_errors = errors \<rparr>,
       run_end = now, run_retries = retries, run_calls = [] \<rparr>"
  by (simp add: retry_rounds.simps)

lemma rounds_step:
  "int attempt \<le> rs_maxAttempts config \<Longrightarrow>
   retry_rounds act rnd abortAt config start attempt m =
     (case attempt_once act rnd abortAt config start attempt m of
        (Inl (outcome, (errors, lastResult, retries, now)), calls) \<Rightarrow>
          \<lparr> run_outcome = outcome, run_end = now, run_retries = retries, run_calls = calls \<rparr>
      | (Inr m', calls) \<Rightarrow>
          (let run = retry_rounds act rnd abortAt config start (attempt + 1) m' in run\<lparr> run_calls := calls @ run_calls run \<rparr>))"
  by (subst retry_rounds.simps) simp

definition executeWithRetry ::
    "(nat \<Rightarrow> rat \<Rightarrow> (string + action_result) \<times> rat) \<Rightarrow> (nat \<Rightarrow> rat) \<Rightarrow> rat option \<Rightarrow> retry_settings \<Rightarrow> rat \<Rightarrow> retry_run" where
  "executeWithRetry act rnd abortAt config now = retry_rounds act rnd abortAt config now 1 ([], None, [], now)"

text \<open>
  \<open>withTimeout\<close> around a run that has begun at the given time: it settles with the run, with
  the timer or with the abort, whichever comes first (at the same time in this order: abort,
  run, timer).
\<close>

definition withTimeout :: "retry_run \<Rightarrow> rat \<Rightarrow> rat option \<Rightarrow> rat \<Rightarrow> (string + retry_result) \<times> rat" where
  "withTimeout run timeoutMs abortAt now =
     (if aborted abortAt now then (Inl ''Operation aborted'', now)
      else
        (let timer = now + timer_ms timeoutMs
         in if run_end run \<le> timer \<and> \<not> aborted abortAt (run_end run) then (run_outcome run, run_end run)
            else if aborted abortAt timer then (Inl ''Operation aborted'', the abortAt)
            else (Inl (''Operation timed out after '' @ formatDuration timeoutMs), timer)))"

section \<open>What a run returns\<close>

text \<open>A call that ends the retries: a success, or an error that reads like a cancellation.\<close>

definition decides :: "string + action_result \<Rightarrow> bool" where
  "decides c = (case c of Inl e \<Rightarrow> is_cancellation e | Inr r \<Rightarrow> ar_success r)"

definition call_error :: "string + action_result \<Rightarrow> string" where
  "call_error c = (case c of Inl e \<Rightarrow> e | Inr r \<Rightarrow> (case ar_error r of Some x \<Rightarrow> x | None \<Rightarrow> ''Action failed''))"

definition call_failed :: "string + action_result \<Rightarrow> bool" where
  "call_failed c = (case c of Inl _ \<Rightarrow> True | Inr r \<Rightarrow> \<not> ar_success r)"

definition last_result :: "(string + action_result) list \<Rightarrow> action_result option" where
  "last_result cs = fold (\<lambda>c r. case c of Inl _ \<Rightarrow> r | Inr x \<Rightarrow> Some x) cs None"

lemma last_result_snoc [simp]:
  "last_result [] = None" "last_result (cs @ [Inl e]) = last_result cs" "last_result (cs @ [Inr r]) = Some r"
  by (simp_all add: last_result_def)

definition errors_of :: "(string + action_result) list \<Rightarrow> string list" where
  "errors_of cs = map call_error (filter call_failed cs)"

lemma errors_of_simps [simp]:
  "errors_of [] = []" "errors_of (cs @ [Inl e]) = errors_of cs @ [e]"
  "\<not> ar_success r \<Longrightarrow> errors_of (cs @ [Inr r]) = errors_of cs @ [call_error (Inr r)]"
  "ar_success r \<Longrightarrow> errors_of (cs @ [Inr r]) = errors_of cs"
  by (simp_all add: errors_of_def call_failed_def call_error_def)

text \<open>The result of a run that made the calls \<open>cs\<close> from the start time to the end time.\<close>

definition settled :: "(string + action_result) list \<Rightarrow> rat \<Rightarrow> rat \<Rightarrow> retry_result" where
  "settled cs start now =
     \<lparr> rr_result = (case last_result cs of
                      Some r \<Rightarrow> r
                    | None \<Rightarrow> failed_result (if cs = [] then ''Max retries exceeded'' else call_error (last cs)) (now - start)),
       rr_attempts = length cs, rr_totalDuration = now - start, rr_errors = errors_of cs \<rparr>"

lemma sleep_None [simp]: "sleep None now ms = (True, now + timer_ms ms)"
  by (simp add: sleep_def aborted_def)

text \<open>
  One round without abort after the calls \<open>cs\<close>, none of which decides: it makes one call; the
  promise settles exactly if the call decides.
\<close>

lemma round_unaborted:
  assumes "act (length cs + 1) now = (c, d)"
  shows "\<exists>retries' t. now + d \<le> t \<and>
     attempt_once act rnd None config start (length cs + 1) (errors_of cs, last_result cs, retries, now) =
       (if decides c
        then (Inl (Inr (settled (cs @ [c]) start (now + d)), (errors_of (cs @ [c]), last_result (cs @ [c]), retries, now + d)), [c])
        else (Inr (errors_of (cs @ [c]), last_result (cs @ [c]), retries', t), [c]))"
proof -
  have pos: "0 \<le> timer_ms ms" for ms by (simp add: timer_ms_def)
  let ?st = "attempt_state rnd config (length cs + 1) (errors_of cs)"
  show ?thesis
  proof (cases "rst_nextDelay ?st")
    case None
    then show ?thesis using assms
      by (intro exI [of _ retries] exI [of _ "now + d"])
        (auto simp: attempt_once_def caught_def decides_def settled_def call_error_def Let_def aborted_def attempt_state_def
          split: sum.splits option.splits)
  next
    case (Some ms)
    have "now + d \<le> now + d + timer_ms ms" using pos by simp
    with Some assms show ?thesis
      by (intro exI [of _ "retries @ [(now + d, ?st, call_error c)]"] exI [of _ "now + d + timer_ms ms"])
        (auto simp: attempt_once_def caught_def decides_def settled_def call_error_def Let_def aborted_def attempt_state_def
          split: sum.splits option.splits)
  qed
qed

definition run_ok :: "nat \<Rightarrow> (string + action_result) list \<Rightarrow> rat \<Rightarrow> retry_run \<Rightarrow> bool" where
  "run_ok n cs start run \<longleftrightarrow>
     length (cs @ run_calls run) \<le> n \<and> (\<forall>c\<in>set (butlast (cs @ run_calls run)). \<not> decides c)
     \<and> (length (cs @ run_calls run) < n \<longrightarrow> run_calls run \<noteq> [] \<and> decides (last (run_calls run)))
     \<and> run_outcome run = Inr (settled (cs @ run_calls run) start (run_end run))"

lemma errors_undecided:
  assumes "\<forall>c\<in>set cs. \<not> decides c"
  shows "errors_of cs = map call_error cs"
proof -
  have "filter call_failed cs = cs" using assms by (auto simp: filter_id_conv decides_def call_failed_def split: sum.splits)
  then show ?thesis by (simp add: errors_of_def)
qed

lemma rounds_unaborted:
  assumes "\<forall>c\<in>set cs. \<not> decides c" and "length cs \<le> nat (rs_maxAttempts config)"
  shows "run_ok (nat (rs_maxAttempts config)) cs start
     (retry_rounds act rnd None config start (length cs + 1) (errors_of cs, last_result cs, retries, now))"
  using assms
proof (induction "nat (rs_maxAttempts config) - length cs" arbitrary: cs retries now)
  case 0
  then have n: "\<not> int (length cs + 1) \<le> rs_maxAttempts config" "length cs = nat (rs_maxAttempts config)" by linarith+
  have u: "\<forall>c\<in>set (butlast cs). \<not> decides c" using 0(2) by (meson in_set_butlastD)
  have "last (errors_of cs) = call_error (last cs)" if "cs \<noteq> []" using errors_undecided [OF 0(2)] that by (simp add: last_map)
  then show ?case unfolding rounds_stop [OF n(1)] run_ok_def settled_def
    using n(2) u errors_undecided [OF 0(2)] by (auto split: option.split)
next
  case (Suc k)
  then have n: "int (length cs + 1) \<le> rs_maxAttempts config" by linarith
  obtain c d where a: "act (length cs + 1) now = (c, d)" by fastforce
  obtain retries' t where r: "attempt_once act rnd None config start (length cs + 1) (errors_of cs, last_result cs, retries, now) =
       (if decides c
        then (Inl (Inr (settled (cs @ [c]) start (now + d)), (errors_of (cs @ [c]), last_result (cs @ [c]), retries, now + d)), [c])
        else (Inr (errors_of (cs @ [c]), last_result (cs @ [c]), retries', t), [c]))"
    using round_unaborted [where act = act and cs = cs and now = now and config = config and rnd = rnd and start = start and retries = retries, OF a]
    by blast
  show ?case
  proof (cases "decides c")
    case True
    with r n Suc.prems show ?thesis unfolding rounds_step [OF n] by (simp add: run_ok_def)
  next
    case False
    then have "\<forall>c\<in>set (cs @ [c]). \<not> decides c" using Suc.prems by auto
    from Suc.hyps(1) [OF _ this, of retries' t] Suc.hyps(2) n have
      "run_ok (nat (rs_maxAttempts config)) (cs @ [c]) start
         (retry_rounds act rnd None config start (length cs + 1 + 1) (errors_of (cs @ [c]), last_result (cs @ [c]), retries', t))"
      by simp
    with False r show ?thesis unfolding rounds_step [OF n] by (simp add: run_ok_def Let_def)
  qed
qed

text \<open>
  C37. Unless it is aborted, a run with retries always settles with a result: it calls the action
  at most \<open>maxAttempts\<close> times, stops at the first call that succeeds or reports a cancellation
  and otherwise makes all its attempts. It returns the last result an attempt returned (so the
  success, if there is one), or a failure with the last error if every attempt threw; the
  errors are those of the failed calls in order.
\<close>

theorem retry_run_outcome:
  fixes act config rnd now
  defines "run \<equiv> executeWithRetry act rnd None config now" and "n \<equiv> nat (rs_maxAttempts config)"
  shows "length (run_calls run) \<le> n
     \<and> (\<forall>c\<in>set (butlast (run_calls run)). \<not> decides c)
     \<and> (length (run_calls run) < n \<longrightarrow> run_calls run \<noteq> [] \<and> decides (last (run_calls run)))
     \<and> run_outcome run = Inr (settled (run_calls run) now (run_end run))"
  using rounds_unaborted [of "[]" config now act rnd "[]" now]
  by (simp add: run_ok_def executeWithRetry_def run_def n_def)

text \<open>An action that fails at the first attempt and succeeds at the second.\<close>

definition sample_action :: "nat \<Rightarrow> rat \<Rightarrow> (string + action_result) \<times> rat" where
  "sample_action attempt t =
     (if attempt = 1 then (Inl ''no'', 10) else (Inr ((failed_result ''x'' 5)\<lparr> ar_success := True \<rparr>), 5))"

theorem retry_run_outcome_witness:
  "decides (last (run_calls (executeWithRetry sample_action (\<lambda>_. 0) None (DEFAULT_STEP_RETRY\<lparr> rs_maxAttempts := 3 \<rparr>) 0)))"
proof -
  have "length (run_calls (executeWithRetry sample_action (\<lambda>_. 0) None (DEFAULT_STEP_RETRY\<lparr> rs_maxAttempts := 3 \<rparr>) 0)) = 2"
    by code_simp
  then show ?thesis
    using retry_run_outcome [of sample_action "\<lambda>_. 0" "DEFAULT_STEP_RETRY\<lparr> rs_maxAttempts := 3 \<rparr>" 0] by simp
qed

section \<open>Bounds\<close>

lemma backoff_bounds:
  assumes "0 \<le> r" and "r < 1" and "0 \<le> base" and "0 \<le> M" and "0 \<le> j" and "j \<le> 1"
  shows "0 \<le> calculateBackoffDelay r strategy attempt base (Some M) (Some j)"
    and "calculateBackoffDelay r strategy attempt base (Some M) (Some j) \<le> M * (1 + j) + 1 / 2"
proof -
  define delay where "delay = (case strategy of Constant \<Rightarrow> constantDelay attempt base (Some M)
      | Linear \<Rightarrow> linearDelay attempt base (Some M) | Exponential \<Rightarrow> exponentialDelay attempt base (Some M))"
  have d: "0 \<le> delay" "delay \<le> M"
    using assms(3,4) by (auto simp: delay_def constantDelay_def linearDelay_def exponentialDelay_def capped_def split: backoff_strategy.split)
  have "(r * 2 - 1) * (delay * j) \<le> 1 * (delay * j)" using assms(2,5) d(1) by (intro mult_right_mono) auto
  also have "delay * j \<le> M * j" using d(2) assms(5) by (intro mult_right_mono) auto
  finally have "delay + (r * 2 - 1) * (delay * j) \<le> M * (1 + j)" using d(2) by (simp add: distrib_left)
  then have "rat_of_int \<lfloor>delay + (r * 2 - 1) * (delay * j) + 1 / 2\<rfloor> \<le> M * (1 + j) + 1 / 2"
    using of_int_floor_le [of "delay + (r * 2 - 1) * (delay * j) + 1 / 2"] by linarith
  moreover have "0 \<le> M * (1 + j)" using assms(4,5) by simp
  moreover have "0 \<le> M * j" using assms(4,5) by simp
  ultimately show "calculateBackoffDelay r strategy attempt base (Some M) (Some j) \<le> M * (1 + j) + 1 / 2"
    using d(2) by (auto simp: calculateBackoffDelay_def delay_def [symmetric] addJitter_def Let_def distrib_left)
  show "0 \<le> calculateBackoffDelay r strategy attempt base (Some M) (Some j)"
    using d(1) by (simp add: calculateBackoffDelay_def delay_def [symmetric] addJitter_def Let_def)
qed

lemma timer_pos: "0 < timer_ms ms"
  by (simp add: timer_ms_def)

lemma sleep_time: "snd (sleep abortAt now ms) \<ge> now"
  using timer_pos [of ms] by (auto simp: sleep_def aborted_def Let_def split: option.split)

lemma sleep_timeD: "sleep abortAt now ms = (b, t) \<Longrightarrow> now \<le> t"
  using sleep_time [of now abortAt ms] by simp

definition memory_time :: "retry_memory \<Rightarrow> rat" where
  "memory_time m = snd (snd (snd m))"

definition round_time :: "((string + retry_result) \<times> retry_memory) + retry_memory \<Rightarrow> rat" where
  "round_time x = (case x of Inl (_, m) \<Rightarrow> memory_time m | Inr m \<Rightarrow> memory_time m)"

lemma caught_time: "memory_time m \<le> round_time (caught abortAt st start e m)"
  by (cases m) (auto simp: caught_def round_time_def memory_time_def Let_def dest: sleep_timeD split: option.split prod.split bool.split)

lemma attempt_time:
  assumes "\<And>k t. 0 \<le> snd (act k t)"
  shows "memory_time m \<le> round_time (fst (attempt_once act rnd abortAt config start attempt m))"
proof -
  obtain errors lastResult retries now where m: "m = (errors, lastResult, retries, now)" by (cases m)
  obtain c d where a: "act attempt now = (c, d)" by fastforce
  have d: "now \<le> now + d" using assms [of attempt now] a by simp
  have s: "now \<le> t" if "sleep abortAt (now + d) ms = (b, t)" for ms b t
    using sleep_time [of "now + d" abortAt ms] that d by simp
  have c1: "now \<le> round_time (caught abortAt st start e (errs, l, rs, now))" for st e errs l rs
    using caught_time [of "(errs, l, rs, now)"] by (simp add: memory_time_def)
  have c2: "now \<le> round_time (caught abortAt st start e (errs, l, rs, t))" if "now \<le> t" for st e errs l rs t
    using caught_time [of "(errs, l, rs, t)"] that by (simp add: memory_time_def) (meson order_trans)
  show ?thesis
    using d s by (auto simp: m a attempt_once_def memory_time_def Let_def c1 c2 split: sum.split option.split prod.split bool.split)
      (auto simp: round_time_def memory_time_def)
qed

lemma rounds_time:
  assumes "\<And>k t. 0 \<le> snd (act k t)"
  shows "memory_time m \<le> run_end (retry_rounds act rnd abortAt config start attempt m)"
proof (induction "nat (rs_maxAttempts config + 1 - int attempt)" arbitrary: attempt m)
  case 0
  then have "\<not> int attempt \<le> rs_maxAttempts config" by linarith
  then show ?case by (cases m) (simp add: rounds_stop memory_time_def)
next
  case (Suc k)
  then have n: "int attempt \<le> rs_maxAttempts config" by linarith
  have step: "memory_time m \<le> round_time (fst (attempt_once act rnd abortAt config start attempt m))"
    by (rule attempt_time [OF assms])
  show ?case
  proof (cases "fst (attempt_once act rnd abortAt config start attempt m)")
    case (Inl x)
    with step n show ?thesis
      by (cases x) (auto simp: rounds_step [OF n] round_time_def memory_time_def split: prod.split)
  next
    case (Inr m')
    with Suc.hyps(1) [of "attempt + 1" m'] Suc.hyps(2) have "memory_time m' \<le> run_end (retry_rounds act rnd abortAt config start (attempt + 1) m')"
      by simp
    with step n Inr show ?thesis
      by (auto simp: rounds_step [OF n] round_time_def Let_def split: prod.split)
  qed
qed

lemma run_not_before:
  assumes "\<And>k t. 0 \<le> snd (act k t)"
  shows "now \<le> run_end (executeWithRetry act rnd abortAt config now)"
  using rounds_time [where m = "([], None, [], now)", OF assms] by (simp add: executeWithRetry_def memory_time_def)

text \<open>A wrapped run settles no later than its timer and no later than an abort.\<close>

lemma withTimeout_time:
  assumes "now \<le> run_end run" and "withTimeout run ms abortAt now = (x, t)"
  shows "now \<le> t" and "t \<le> now + timer_ms ms" and "abortAt = Some a \<Longrightarrow> t \<le> max now a"
  using assms timer_pos [of ms] by (auto simp: withTimeout_def aborted_def Let_def split: if_splits option.splits)

lemma withTimeout_result:
  assumes "withTimeout run ms None now = (x, t)"
  shows "run_end run \<le> now + timer_ms ms \<Longrightarrow> x = run_outcome run"
    and "now + timer_ms ms < run_end run \<Longrightarrow> x = Inl (''Operation timed out after '' @ formatDuration ms)"
  using assms by (auto simp: withTimeout_def aborted_def Let_def split: if_splits)

end
