(* ===== verification/Interpolation.thy ===== *)
theory Interpolation
  imports JsValues
begin

text \<open>
  Variable interpolation of the workflow engine (\<open>interpolation/index.ts\<close> and
  \<open>interpolation/context.ts\<close> of \<open>src/packages/workflow-engine/src\<close>): references such as
  \<open>${inputs.x}\<close> or \<open>${{ steps.build.output.version }}\<close> in texts, and the execution context
  they are resolved in.
\<close>

section \<open>References\<close>

datatype reference_type = Ref_inputs | Ref_steps | Ref_env | Ref_function | Ref_unknown

record variable_reference =
  vr_expression :: string
  vr_type :: reference_type
  vr_path :: "string list"

record step_output =
  so_raw :: "string option"
  so_parsed :: jsval
  so_exitCode :: int
  so_completedAt :: string

record interpolation_context =
  ic_inputs :: "(string, jsval) jmap"
  ic_steps :: "(string, step_output) jmap"
  ic_env :: "(string, string) jmap"
  ic_success :: bool
  ic_failure :: bool

definition reference_type_of :: "string \<Rightarrow> reference_type" where
  "reference_type_of t =
     (if t = ''inputs'' then Ref_inputs else if t = ''steps'' then Ref_steps else if t = ''env'' then Ref_env
      else if t \<in> {''success'', ''failure'', ''always''} then Ref_function else Ref_unknown)"

definition parseVariableReference :: "string \<Rightarrow> variable_reference" where
  "parseVariableReference expression =
     (let trimmed = trim expression; segments = split_on CHR ''.'' trimmed
      in \<lparr> vr_expression = trimmed, vr_type = reference_type_of (hd segments), vr_path = tl segments \<rparr>)"

section \<open>Paths\<close>

definition is_word :: "char \<Rightarrow> bool" where
  "is_word c \<longleftrightarrow> is_digit c \<or> (let n = of_char c :: nat in 65 \<le> n \<and> n \<le> 90 \<or> 97 \<le> n \<and> n \<le> 122 \<or> n = 95)"

text \<open>\<open>/^(\w+)\[(\d+)\]$/\<close>: the key and the index.\<close>

definition index_segment :: "string \<Rightarrow> (string \<times> nat) option" where
  "index_segment segment =
     (let key = takeWhile is_word segment; r = dropWhile is_word segment; ds = takeWhile is_digit (tl r)
      in if key \<noteq> [] \<and> starts_with ''['' r \<and> ds \<noteq> [] \<and> dropWhile is_digit (tl r) = '']'' then Some (key, read_nat ds)
         else None)"

primrec resolvePath :: "jsval \<Rightarrow> string list \<Rightarrow> jsval" where
  "resolvePath current [] = current"
| "resolvePath current (segment # path) =
     (if nullish current then JsUndefined
      else
        (case index_segment segment of
           Some (key, i) \<Rightarrow>
             if \<not> is_object current then JsUndefined
             else (case js_member current key of JsArr xs \<Rightarrow> resolvePath (js_index xs i) path | _ \<Rightarrow> JsUndefined)
         | None \<Rightarrow>
             (case current of
                JsArr xs \<Rightarrow>
                  if segment \<noteq> [] \<and> list_all is_digit segment then resolvePath (js_index xs (read_nat segment)) path
                  else resolvePath (js_member current segment) path
              | _ \<Rightarrow> if is_object current then resolvePath (js_member current segment) path else JsUndefined)))"

definition resolvePathSafe :: "jsval \<Rightarrow> string \<Rightarrow> jsval" where
  "resolvePathSafe obj path =
     (if nullish obj then JsUndefined else if \<not> is_object obj then JsUndefined else resolvePath obj (split_on CHR ''.'' path))"

definition raw_value :: "step_output \<Rightarrow> jsval" where
  "raw_value output = (case so_raw output of None \<Rightarrow> JsUndefined | Some r \<Rightarrow> JsStr r)"

text \<open>\<open>typeof output.parsed === 'object'\<close> and not \<open>null\<close>: the path in it.\<close>

definition parsed_path :: "step_output \<Rightarrow> string list \<Rightarrow> jsval" where
  "parsed_path output path =
     (if so_parsed output \<noteq> JsNull \<and> is_object (so_parsed output) then resolvePath (so_parsed output) path else JsUndefined)"

definition step_value :: "step_output \<Rightarrow> string list \<Rightarrow> jsval" where
  "step_value output fieldPath =
     (case fieldPath of
        [] \<Rightarrow> js_default (so_parsed output) (raw_value output)
      | f # path \<Rightarrow>
          if f = ''output'' then (if path = [] then js_default (so_parsed output) (raw_value output) else parsed_path output path)
          else if f = ''raw'' then raw_value output
          else if f = ''exitCode'' then js_int (so_exitCode output)
          else if f = ''completedAt'' then JsDate (so_completedAt output)
          else if f = ''parsed'' then (if path = [] then so_parsed output else parsed_path output path)
          else parsed_path output fieldPath)"

text \<open>A key of an object whose values are texts.\<close>

definition env_member :: "(string, string) jmap \<Rightarrow> string \<Rightarrow> jsval" where
  "env_member env k = js_member (JsObj (map (\<lambda>(k, v). (k, JsStr v)) env)) k"

definition resolveVariableReference :: "variable_reference \<Rightarrow> interpolation_context \<Rightarrow> jsval" where
  "resolveVariableReference ref context =
     (case vr_type ref of
        Ref_inputs \<Rightarrow> resolvePath (JsObj (ic_inputs context)) (vr_path ref)
      | Ref_steps \<Rightarrow>
          (case vr_path ref of
             [] \<Rightarrow> JsUndefined
           | stepId # fieldPath \<Rightarrow>
               if stepId = [] then JsUndefined
               else (case jget (ic_steps context) stepId of None \<Rightarrow> JsUndefined | Some output \<Rightarrow> step_value output fieldPath))
      | Ref_env \<Rightarrow> (case vr_path ref of [] \<Rightarrow> JsUndefined | k # _ \<Rightarrow> env_member (ic_env context) k)
      | Ref_function \<Rightarrow>
          (let funcName = trim (replace_first ''()'' [] (vr_expression ref))
           in if funcName = ''success'' then JsBool (ic_success context)
              else if funcName = ''failure'' then JsBool (ic_failure context)
              else if funcName = ''always'' then JsBool True
              else JsUndefined)
      | Ref_unknown \<Rightarrow> JsUndefined)"

section \<open>Templates\<close>

record interpolate_options =
  io_strict :: bool
  io_defaultValue :: string
  io_coerceToString :: bool

definition default_options :: interpolate_options where
  "default_options = \<lparr> io_strict = False, io_defaultValue = [], io_coerceToString = True \<rparr>"

definition valueToString :: "jsval \<Rightarrow> string" where
  "valueToString value =
     (case value of
        JsUndefined \<Rightarrow> []
      | JsNull \<Rightarrow> []
      | JsStr s \<Rightarrow> s
      | JsNum q \<Rightarrow> show_number q
      | JsBool b \<Rightarrow> (if b then ''true'' else ''false'')
      | JsFun name \<Rightarrow> ''function '' @ name @ ''() { [native code] }''
      | _ \<Rightarrow> (case JSON_stringify value of Some t \<Rightarrow> t | None \<Rightarrow> []))"

text \<open>
  A match of \<open>VARIABLE_PATTERN\<close> at the head of a text: the matched text, the expression (which
  every use trims, so that it does not matter how much white space the pattern gives to the
  group) and the rest. \<open>${{ e }}\<close> is tried before \<open>${e}\<close>.
\<close>

definition brace_match :: "string \<Rightarrow> string \<Rightarrow> string \<Rightarrow> (string \<times> string \<times> string) option" where
  "brace_match opening closing s =
     (let s' = drop (length opening) s; e = takeWhile (\<lambda>c. c \<noteq> CHR ''}'') s'; r = dropWhile (\<lambda>c. c \<noteq> CHR ''}'') s'
      in if starts_with opening s \<and> e \<noteq> [] \<and> starts_with closing r
         then Some (opening @ e @ closing, e, drop (length closing) r) else None)"

definition variable_match :: "string \<Rightarrow> (string \<times> string \<times> string) option" where
  "variable_match s =
     (case brace_match ''${{'' ''}}'' s of Some m \<Rightarrow> Some m | None \<Rightarrow> brace_match ''${'' ''}'' s)"

lemma brace_match_rest:
  assumes "brace_match opening closing s = Some (m, e, r)" and "opening \<noteq> []"
  shows "s = m @ r" and "length r < length s"
proof -
  let ?s' = "drop (length opening) s"
  have s: "s = opening @ ?s'" "e = takeWhile (\<lambda>c. c \<noteq> CHR ''}'') ?s'" "m = opening @ e @ closing"
    "starts_with closing (dropWhile (\<lambda>c. c \<noteq> CHR ''}'') ?s')" "r = drop (length closing) (dropWhile (\<lambda>c. c \<noteq> CHR ''}'') ?s')"
    using assms(1) by (auto simp: brace_match_def Let_def starts_with_iff split: if_splits)
  have "?s' = e @ closing @ r"
    using s(2,4,5) by (metis append_take_drop_id starts_with_def takeWhile_dropWhile_id)
  with s(1,3) show "s = m @ r" by (metis append_assoc)
  then show "length r < length s" using assms(2) s(3) by simp
qed

lemma variable_match_rest:
  assumes "variable_match s = Some (m, e, r)"
  shows "s = m @ r" and "length r < length s"
  using assms brace_match_rest [of "''${{''"] brace_match_rest [of "''${''"]
  by (auto simp: variable_match_def split: option.splits)

datatype piece = Literal char | Variable string string

function pieces :: "string \<Rightarrow> piece list" where
  "pieces [] = []"
| "pieces (c # cs) =
     (case variable_match (c # cs) of
        Some (m, e, r) \<Rightarrow> Variable m e # pieces r
      | None \<Rightarrow> Literal c # pieces cs)"
  by pat_completeness auto
termination
  by (relation "measure length") (auto dest: variable_match_rest(2))

definition replace_match :: "interpolation_context \<Rightarrow> interpolate_options \<Rightarrow> string \<Rightarrow> string \<Rightarrow> string + string" where
  "replace_match context opts match e =
     (let expression = trim e; value = resolveVariableReference (parseVariableReference expression) context
      in if value = JsUndefined then
           (if io_strict opts then Inl (''Unresolved variable: '' @ expression) else Inr (io_defaultValue opts))
         else if io_coerceToString opts then Inr (valueToString value)
         else (case value of JsStr s \<Rightarrow> Inr s | _ \<Rightarrow> Inr match))"

definition replace_piece :: "interpolation_context \<Rightarrow> interpolate_options \<Rightarrow> piece \<Rightarrow> string + string" where
  "replace_piece context opts p =
     (case p of Literal c \<Rightarrow> Inr [c] | Variable match e \<Rightarrow> replace_match context opts match e)"

definition interpolate :: "string \<Rightarrow> interpolation_context \<Rightarrow> interpolate_options \<Rightarrow> string + string" where
  "interpolate template context opts =
     (case map_results (replace_piece context opts) (pieces template) of Inl e \<Rightarrow> Inl e | Inr ts \<Rightarrow> Inr (concat ts))"

fun interpolateValue :: "jsval \<Rightarrow> interpolation_context \<Rightarrow> interpolate_options \<Rightarrow> string + jsval" where
  "interpolateValue (JsStr s) context opts = (case interpolate s context opts of Inl e \<Rightarrow> Inl e | Inr t \<Rightarrow> Inr (JsStr t))"
| "interpolateValue (JsArr xs) context opts =
     (case map_results (\<lambda>x. interpolateValue x context opts) xs of Inl e \<Rightarrow> Inl e | Inr ys \<Rightarrow> Inr (JsArr ys))"
| "interpolateValue (JsObj es) context opts =
     (case map_results (\<lambda>e. case interpolateValue (snd e) context opts of Inl x \<Rightarrow> Inl x | Inr v \<Rightarrow> Inr (fst e, v)) es of
        Inl e \<Rightarrow> Inl e | Inr fs \<Rightarrow> Inr (JsObj fs))"
| "interpolateValue (JsDate d) context opts = Inr (JsObj [])"
| "interpolateValue JsProto context opts = Inr (JsObj [])"
| "interpolateValue v context opts = Inr v"

definition extractVariableReferences :: "string \<Rightarrow> variable_reference list" where
  "extractVariableReferences template =
     concat (map (\<lambda>p. case p of Literal _ \<Rightarrow> [] | Variable _ e \<Rightarrow> [parseVariableReference (trim e)]) (pieces template))"

definition hasVariables :: "string \<Rightarrow> bool" where
  "hasVariables template = list_ex (\<lambda>p. case p of Literal _ \<Rightarrow> False | Variable _ _ \<Rightarrow> True) (pieces template)"

section \<open>The execution context\<close>

record execution_context =
  ec_stepOutputs :: "(string, step_output) jmap"
  ec_workflowInputs :: "(string, jsval) jmap"
  ec_environmentVars :: "(string, string) jmap"
  ec_lastStepSuccess :: bool
  ec_hasAnyFailure :: bool

definition new_context :: "(string, jsval) jmap option \<Rightarrow> (string, string) jmap option \<Rightarrow> execution_context" where
  "new_context inputs env =
     \<lparr> ec_stepOutputs = [], ec_workflowInputs = (case inputs of None \<Rightarrow> [] | Some i \<Rightarrow> i),
       ec_environmentVars = (case env of None \<Rightarrow> [] | Some e \<Rightarrow> e), ec_lastStepSuccess = True, ec_hasAnyFailure = False \<rparr>"

definition setInputs :: "(string, jsval) jmap \<Rightarrow> execution_context \<Rightarrow> execution_context" where
  "setInputs inputs c = c\<lparr> ec_workflowInputs := inputs \<rparr>"

definition getInputs :: "execution_context \<Rightarrow> (string, jsval) jmap" where
  "getInputs c = ec_workflowInputs c"

definition setInput :: "string \<Rightarrow> jsval \<Rightarrow> execution_context \<Rightarrow> execution_context" where
  "setInput k v c = c\<lparr> ec_workflowInputs := jset k v (ec_workflowInputs c) \<rparr>"

definition getInput :: "execution_context \<Rightarrow> string \<Rightarrow> jsval" where
  "getInput c k = js_member (JsObj (ec_workflowInputs c)) k"

definition setEnvironment :: "(string, string) jmap \<Rightarrow> execution_context \<Rightarrow> execution_context" where
  "setEnvironment env c = c\<lparr> ec_environmentVars := env \<rparr>"

definition getEnvironment :: "execution_context \<Rightarrow> (string, string) jmap" where
  "getEnvironment c = ec_environmentVars c"

definition setEnv :: "string \<Rightarrow> string \<Rightarrow> execution_context \<Rightarrow> execution_context" where
  "setEnv k v c = c\<lparr> ec_environmentVars := jset k v (ec_environmentVars c) \<rparr>"

definition getEnv :: "execution_context \<Rightarrow> string \<Rightarrow> jsval" where
  "getEnv c k = env_member (ec_environmentVars c) k"

definition setStepOutput :: "string \<Rightarrow> step_output \<Rightarrow> execution_context \<Rightarrow> execution_context" where
  "setStepOutput stepId output c =
     (let ok = (so_exitCode output = 0)
      in c\<lparr> ec_stepOutputs := jset stepId output (ec_stepOutputs c), ec_lastStepSuccess := ok,
            ec_hasAnyFailure := (ec_hasAnyFailure c \<or> \<not> ok) \<rparr>)"

definition getStepOutput :: "execution_context \<Rightarrow> string \<Rightarrow> step_output option" where
  "getStepOutput c stepId = jget (ec_stepOutputs c) stepId"

definition hasStepOutput :: "execution_context \<Rightarrow> string \<Rightarrow> bool" where
  "hasStepOutput c stepId \<longleftrightarrow> jhas (ec_stepOutputs c) stepId"

definition getAllStepOutputs :: "execution_context \<Rightarrow> (string, step_output) jmap" where
  "getAllStepOutputs c = ec_stepOutputs c"

definition clearStepOutput :: "string \<Rightarrow> execution_context \<Rightarrow> execution_context" where
  "clearStepOutput stepId c = c\<lparr> ec_stepOutputs := jdel stepId (ec_stepOutputs c) \<rparr>"

definition clearAllStepOutputs :: "execution_context \<Rightarrow> execution_context" where
  "clearAllStepOutputs c = c\<lparr> ec_stepOutputs := [], ec_lastStepSuccess := True, ec_hasAnyFailure := False \<rparr>"

definition getInterpolationContext :: "execution_context \<Rightarrow> interpolation_context" where
  "getInterpolationContext c =
     \<lparr> ic_inputs = ec_workflowInputs c, ic_steps = ec_stepOutputs c, ic_env = ec_environmentVars c,
       ic_success = ec_lastStepSuccess c, ic_failure = (\<not> ec_lastStepSuccess c) \<rparr>"

text \<open>
  The method \<open>resolveVariable\<close> resolves a path without trimming it and without the functions; the
  fields of a step are the same as in \<open>resolveVariableReference\<close>.
\<close>

definition resolveVariable :: "execution_context \<Rightarrow> string \<Rightarrow> jsval" where
  "resolveVariable c path =
     (let segments = split_on CHR ''.'' path; t = hd segments; rest = tl segments
      in if t = ''inputs'' then resolvePath (JsObj (ec_workflowInputs c)) rest
         else if t = ''steps'' then
           (if rest = [] \<or> hd rest = [] then JsUndefined
            else (case jget (ec_stepOutputs c) (hd rest) of
                    None \<Rightarrow> JsUndefined
                  | Some output \<Rightarrow> step_value output (tl rest)))
         else if t = ''env'' then (if rest = [] then JsUndefined else env_member (ec_environmentVars c) (hd rest))
         else JsUndefined)"

definition createChildContext :: "execution_context \<Rightarrow> execution_context" where
  "createChildContext c =
     (let child = new_context (Some (ec_workflowInputs c)) (Some (ec_environmentVars c))
      in child\<lparr> ec_stepOutputs := fold (\<lambda>(k, v). jset k v) (ec_stepOutputs c) (ec_stepOutputs child),
                ec_lastStepSuccess := ec_lastStepSuccess c, ec_hasAnyFailure := ec_hasAnyFailure c \<rparr>)"

section \<open>Interpolation reads a template once\<close>

text \<open>A template as its author writes it: text, references in single and in double braces.\<close>

datatype template_part = Text string | Single string | Double string

primrec render :: "template_part \<Rightarrow> string" where
  "render (Text s) = s"
| "render (Single e) = ''${'' @ e @ ''}''"
| "render (Double e) = ''${{'' @ e @ ''}}''"

primrec part_ok :: "template_part \<Rightarrow> bool" where
  "part_ok (Text s) \<longleftrightarrow> CHR ''$'' \<notin> set s"
| "part_ok (Single e) \<longleftrightarrow> e \<noteq> [] \<and> CHR ''}'' \<notin> set e \<and> hd e \<noteq> CHR ''{''"
| "part_ok (Double e) \<longleftrightarrow> e \<noteq> [] \<and> CHR ''}'' \<notin> set e"

primrec part_pieces :: "template_part \<Rightarrow> piece list" where
  "part_pieces (Text s) = map Literal s"
| "part_pieces (Single e) = [Variable (render (Single e)) e]"
| "part_pieces (Double e) = [Variable (render (Double e)) e]"

lemma takeWhile_until: "x \<notin> set e \<Longrightarrow> takeWhile (\<lambda>c. c \<noteq> x) (e @ x # r) = e" "x \<notin> set e \<Longrightarrow> dropWhile (\<lambda>c. c \<noteq> x) (e @ x # r) = x # r"
  by (induction e) auto

lemma pieces_text: "CHR ''$'' \<notin> set s \<Longrightarrow> pieces (s @ t) = map Literal s @ pieces t"
  by (induction s) (auto simp: variable_match_def brace_match_def starts_with_def)

lemma pieces_variable:
  assumes "part_ok p" and "p = Single e \<or> p = Double e"
  shows "pieces (render p @ t) = Variable (render p) e # pieces t"
proof -
  have "variable_match (render p @ t) = Some (render p, e, t)"
    using assms takeWhile_until [of "CHR ''}''" e]
    by (cases e) (auto simp: variable_match_def brace_match_def starts_with_def)
  moreover have "render p @ t \<noteq> []" using assms(2) by auto
  ultimately show ?thesis by (cases "render p @ t") auto
qed

lemma pieces_render:
  assumes "\<forall>p\<in>set parts. part_ok p"
  shows "pieces (concat (map render parts)) = concat (map part_pieces parts)"
  using assms
proof (induction parts)
  case (Cons p ps)
  then show ?case
    using pieces_text pieces_variable [of p] by (cases p) (auto simp del: render.simps simp: render.simps(1))
qed simp

definition part_reference :: "template_part \<Rightarrow> string list" where
  "part_reference p = (case p of Text _ \<Rightarrow> [] | Single e \<Rightarrow> [trim e] | Double e \<Rightarrow> [trim e])"

definition reference_value :: "interpolation_context \<Rightarrow> string \<Rightarrow> jsval" where
  "reference_value context e = resolveVariableReference (parseVariableReference e) context"

definition part_text :: "interpolation_context \<Rightarrow> interpolate_options \<Rightarrow> template_part \<Rightarrow> string" where
  "part_text context opts p =
     (case p of
        Text s \<Rightarrow> s
      | _ \<Rightarrow> (case reference_value context (hd (part_reference p)) of
                JsUndefined \<Rightarrow> io_defaultValue opts
              | JsStr s \<Rightarrow> s
              | v \<Rightarrow> if io_coerceToString opts then valueToString v else render p))"

lemma replace_part:
  "map_results (replace_piece ctx opts) (part_pieces p) =
     (if io_strict opts \<and> (\<exists>e\<in>set (part_reference p). reference_value ctx e = JsUndefined)
      then Inl (''Unresolved variable: '' @ hd (part_reference p))
      else Inr (case p of Text s \<Rightarrow> map (\<lambda>c. [c]) s | _ \<Rightarrow> [part_text ctx opts p]))"
proof (cases p)
  case (Text s)
  have "map_results (replace_piece ctx opts) (map Literal s) = Inr (map (\<lambda>c. [c]) s)"
    by (induction s) (auto simp: replace_piece_def)
  with Text show ?thesis by (simp add: part_reference_def)
qed (auto simp: replace_piece_def replace_match_def part_reference_def reference_value_def part_text_def Let_def valueToString_def
       split: jsval.split)

lemma replace_parts:
  fixes ctx opts
  defines "missing \<equiv> filter (\<lambda>e. reference_value ctx e = JsUndefined)"
  shows "(case map_results (replace_piece ctx opts) (concat (map part_pieces parts)) of Inl e \<Rightarrow> Inl e | Inr ts \<Rightarrow> Inr (concat ts)) =
     (if io_strict opts \<and> missing (concat (map part_reference parts)) \<noteq> []
      then Inl (''Unresolved variable: '' @ hd (missing (concat (map part_reference parts))))
      else Inr (concat (map (part_text ctx opts) parts)))"
proof (induction parts)
  case (Cons p ps)
  have one: "concat (case p of Text s \<Rightarrow> map (\<lambda>c. [c]) s | _ \<Rightarrow> [part_text ctx opts p]) = part_text ctx opts p"
    by (cases p) (simp_all add: part_text_def)
  have m: "missing (part_reference p) = (if \<exists>e\<in>set (part_reference p). reference_value ctx e = JsUndefined then part_reference p else [])"
    by (cases p) (auto simp: missing_def part_reference_def)
  have app: "missing (xs @ ys) = missing xs @ missing ys" for xs ys by (simp add: missing_def)
  show ?case
  proof (cases "io_strict opts \<and> (\<exists>e\<in>set (part_reference p). reference_value ctx e = JsUndefined)")
    case True
    then have "part_reference p \<noteq> []" by auto
    with True show ?thesis by (simp add: map_results_append replace_part app m)
  next
    case False
    then have "io_strict opts \<Longrightarrow> missing (part_reference p) = []" using m by simp
    with False Cons show ?thesis by (auto simp: map_results_append replace_part app one split: sum.splits if_splits)
  qed
qed (simp add: missing_def)


definition sample_context :: interpolation_context where
  "sample_context = \<lparr> ic_inputs = [(''x'', JsStr ''${inputs.x}'')], ic_steps = [], ic_env = [], ic_success = True, ic_failure = False \<rparr>"


text \<open>A method of the context and the function of the module resolve a path alike.\<close>

lemma resolveVariable_agrees:
  assumes "trim path = path" and "reference_type_of (hd (split_on CHR ''.'' path)) \<noteq> Ref_function"
  shows "resolveVariable c path = resolveVariableReference (parseVariableReference path) (getInterpolationContext c)"
  using assms
  by (auto simp: resolveVariable_def resolveVariableReference_def parseVariableReference_def getInterpolationContext_def
      reference_type_of_def Let_def split: list.split option.split if_splits)

end
