(* ===== verification/ActionRegistry.thy ===== *)
theory ActionRegistry
  imports WorkflowTypes Interpolation
begin

text \<open>
  Action handlers of the workflow engine: the type of a step (\<open>types/action.ts\<close>), the registry
  of handlers and namespaces (\<open>actions/index.ts\<close>) and the wrapper every built-in handler runs
  in (\<open>actions/base-action.ts\<close>), under \<open>src/packages/workflow-engine/src\<close>. What a handler does
  is a parameter: for a step, a context, the number of the attempt and the time it says how the
  call ends and how long it takes.
\<close>

section \<open>Identifiers\<close>

definition isNamespacedAction :: "string \<Rightarrow> bool" where
  "isNamespacedAction identifier \<longleftrightarrow> CHR ''.'' \<in> set identifier \<and> \<not> starts_with ''.'' identifier"

definition parseNamespacedAction :: "string \<Rightarrow> (string \<times> string) option" where
  "parseNamespacedAction identifier =
     (if \<not> isNamespacedAction identifier then None
      else Some (takeWhile (\<lambda>c. c \<noteq> CHR ''.'') identifier, tl (dropWhile (\<lambda>c. c \<noteq> CHR ''.'') identifier)))"

definition uses_type :: "string \<Rightarrow> string option" where
  "uses_type uses =
     (if starts_with ''speckit.'' uses \<or> starts_with ''speckit/'' uses then Some ''speckit''
      else if has_text ''workspace.prepare'' uses \<or> has_text ''workspace/prepare'' uses then Some ''workspace.prepare''
      else if has_text ''agent.invoke'' uses \<or> has_text ''agent/invoke'' uses \<or> has_text ''claude'' uses then Some ''agent.invoke''
      else if has_text ''verification.check'' uses \<or> has_text ''verification/check'' uses \<or> has_text ''test'' uses \<or> has_text ''lint'' uses
           then Some ''verification.check''
      else if has_text ''pr.create'' uses \<or> has_text ''pr/create'' uses \<or> has_text ''pull-request'' uses then Some ''pr.create''
      else if has_text ''humancy.request_review'' uses \<or> has_text ''humancy/request_review'' uses \<or> has_text ''humancy'' uses
           then Some ''humancy.request_review''
      else if isNamespacedAction uses then Some uses
      else None)"

definition action_type :: "string \<Rightarrow> string option" where
  "action_type action =
     (if starts_with ''speckit.'' action \<or> starts_with ''speckit/'' action then Some ''speckit''
      else if action = ''workspace.prepare'' \<or> action = ''workspace-prepare'' then Some ''workspace.prepare''
      else if action = ''agent.invoke'' \<or> action = ''agent-invoke'' then Some ''agent.invoke''
      else if action \<in> {''verification.check'', ''verification-check'', ''test'', ''lint''} then Some ''verification.check''
      else if action = ''pr.create'' \<or> action = ''pr-create'' then Some ''pr.create''
      else if action = ''humancy.request_review'' \<or> action = ''humancy-request-review'' then Some ''humancy.request_review''
      else if action = ''shell'' \<or> action = ''run'' then Some ''shell''
      else if isNamespacedAction action then Some action
      else None)"

definition parseActionType :: "step_definition \<Rightarrow> string" where
  "parseActionType step =
     (case (if truthy (sd_uses step) then uses_type (the (sd_uses step)) else None) of
        Some t \<Rightarrow> t
      | None \<Rightarrow>
          (case (if sd_action step \<noteq> [] then action_type (sd_action step) else None) of
             Some t \<Rightarrow> t
           | None \<Rightarrow> ''shell''))"

section \<open>Handlers\<close>

record action_context =
  ac_workflow :: executable_workflow
  ac_phase :: phase_definition
  ac_step :: step_definition
  ac_inputs :: "(string, jsval) jmap"
  ac_stepOutputs :: "(string, step_output) jmap"
  ac_env :: "(string, string) jmap"
  ac_workdir :: "string option"
  ac_abortAt :: "rat option"

record action_handler =
  ah_type :: string
  ah_canHandle :: "step_definition \<Rightarrow> bool"
  ah_execute :: "step_definition \<Rightarrow> action_context \<Rightarrow> nat \<Rightarrow> rat \<Rightarrow> (string + action_result) \<times> rat"

record action_namespace =
  ns_namespace :: string
  ns_description :: "string option"
  ns_handlers :: "action_handler list"

record action_registry =
  areg_actions :: "(string, action_handler) jmap"
  areg_namespaces :: "(string, action_namespace) jmap"

definition add_handler :: "action_handler \<Rightarrow> action_handler list \<Rightarrow> action_handler list" where
  "add_handler h hs = (if list_ex (\<lambda>x. ah_type x = ah_type h) hs then hs else hs @ [h])"

definition registerActionHandler :: "action_handler \<Rightarrow> action_registry \<Rightarrow> action_registry" where
  "registerActionHandler h r =
     (let r = r\<lparr> areg_actions := jset (ah_type h) h (areg_actions r) \<rparr>
      in case parseNamespacedAction (ah_type h) of
           None \<Rightarrow> r
         | Some (n, _) \<Rightarrow>
             (let ns = (case jget (areg_namespaces r) n of
                          Some ns \<Rightarrow> ns | None \<Rightarrow> \<lparr> ns_namespace = n, ns_description = None, ns_handlers = [] \<rparr>)
              in r\<lparr> areg_namespaces := jset n (ns\<lparr> ns_handlers := add_handler h (ns_handlers ns) \<rparr>) (areg_namespaces r) \<rparr>))"

definition registerNamespace :: "action_namespace \<Rightarrow> action_registry \<Rightarrow> action_registry" where
  "registerNamespace ns r =
     (let actions = fold (\<lambda>h. jset (ah_type h) h) (ns_handlers ns) (areg_actions r)
      in case jget (areg_namespaces r) (ns_namespace ns) of
           Some ex \<Rightarrow>
             (let ex = ex\<lparr> ns_handlers := fold add_handler (ns_handlers ns) (ns_handlers ex),
                           ns_description := (if truthy (ns_description ns) \<and> \<not> truthy (ns_description ex)
                                              then ns_description ns else ns_description ex) \<rparr>
              in r\<lparr> areg_actions := actions, areg_namespaces := jset (ns_namespace ns) ex (areg_namespaces r) \<rparr>)
         | None \<Rightarrow> r\<lparr> areg_actions := actions, areg_namespaces := jset (ns_namespace ns) ns (areg_namespaces r) \<rparr>)"

definition unregisterActionHandler :: "string \<Rightarrow> action_registry \<Rightarrow> action_registry" where
  "unregisterActionHandler t r =
     (let r = r\<lparr> areg_actions := jdel t (areg_actions r) \<rparr>
      in case parseNamespacedAction t of
           None \<Rightarrow> r
         | Some (n, _) \<Rightarrow>
             (case jget (areg_namespaces r) n of
                None \<Rightarrow> r
              | Some ns \<Rightarrow>
                  r\<lparr> areg_namespaces :=
                       jset n (ns\<lparr> ns_handlers := filter (\<lambda>h. ah_type h \<noteq> t) (ns_handlers ns) \<rparr>) (areg_namespaces r) \<rparr>))"

definition unregisterNamespace :: "string \<Rightarrow> action_registry \<Rightarrow> action_registry" where
  "unregisterNamespace n r =
     (case jget (areg_namespaces r) n of
        None \<Rightarrow> r
      | Some ns \<Rightarrow>
          r\<lparr> areg_actions := fold (\<lambda>h. jdel (ah_type h)) (ns_handlers ns) (areg_actions r),
             areg_namespaces := jdel n (areg_namespaces r) \<rparr>)"

definition getActionHandler :: "action_registry \<Rightarrow> step_definition \<Rightarrow> action_handler option" where
  "getActionHandler r step =
     (case find (\<lambda>h. ah_canHandle h step) (jvals (areg_actions r)) of
        Some h \<Rightarrow> Some h
      | None \<Rightarrow> jget (areg_actions r) (parseActionType step))"

definition getActionHandlerByType :: "action_registry \<Rightarrow> string \<Rightarrow> action_handler option" where
  "getActionHandlerByType r t = jget (areg_actions r) t"

definition getActionHandlerByNamespace :: "action_registry \<Rightarrow> string \<Rightarrow> string \<Rightarrow> action_handler option" where
  "getActionHandlerByNamespace r n name = jget (areg_actions r) (n @ ''.'' @ name)"

definition hasActionHandler :: "action_registry \<Rightarrow> string \<Rightarrow> bool" where
  "hasActionHandler r t \<longleftrightarrow> jhas (areg_actions r) t"

definition hasNamespace :: "action_registry \<Rightarrow> string \<Rightarrow> bool" where
  "hasNamespace r n \<longleftrightarrow> jhas (areg_namespaces r) n"

definition getRegisteredActionTypes :: "action_registry \<Rightarrow> string list" where
  "getRegisteredActionTypes r = jkeys (areg_actions r)"

definition getRegisteredNamespaces :: "action_registry \<Rightarrow> string list" where
  "getRegisteredNamespaces r = jkeys (areg_namespaces r)"

definition getNamespace :: "action_registry \<Rightarrow> string \<Rightarrow> action_namespace option" where
  "getNamespace r n = jget (areg_namespaces r) n"

definition getNamespaceHandlers :: "action_registry \<Rightarrow> string \<Rightarrow> action_handler list" where
  "getNamespaceHandlers r n = (case jget (areg_namespaces r) n of None \<Rightarrow> [] | Some ns \<Rightarrow> ns_handlers ns)"

definition clearActionRegistry :: "action_registry \<Rightarrow> action_registry" where
  "clearActionRegistry r = \<lparr> areg_actions = [], areg_namespaces = [] \<rparr>"

definition empty_registry :: action_registry where
  "empty_registry = \<lparr> areg_actions = [], areg_namespaces = [] \<rparr>"

section \<open>The wrapper of the built-in actions\<close>

text \<open>\<open>internal\<close> is \<open>executeInternal\<close>; it may throw, \<open>execute\<close> does not.\<close>

definition base_execute ::
    "(step_definition \<Rightarrow> action_context \<Rightarrow> nat \<Rightarrow> rat \<Rightarrow> (string + action_result) \<times> rat)
       \<Rightarrow> step_definition \<Rightarrow> action_context \<Rightarrow> nat \<Rightarrow> rat \<Rightarrow> (string + action_result) \<times> rat" where
  "base_execute internal step ctx attempt now =
     (if (case ac_abortAt ctx of None \<Rightarrow> False | Some a \<Rightarrow> a \<le> now)
      then (Inr \<lparr> ar_success = False, ar_output = JsNull, ar_stdout = None, ar_stderr = None,
                  ar_error = Some ''Action cancelled before execution'', ar_exitCode = None, ar_duration = 0 \<rparr>, 0)
      else
        (case internal step ctx attempt now of
           (Inr r, d) \<Rightarrow> (Inr (r\<lparr> ar_duration := d \<rparr>), d)
         | (Inl e, d) \<Rightarrow>
             (Inr \<lparr> ar_success = False, ar_output = JsNull, ar_stdout = None, ar_stderr = None,
                    ar_error = Some e, ar_exitCode = None, ar_duration = d \<rparr>, d)))"

text \<open>\<open>k in o\<close> for a plain object.\<close>

definition js_in :: "string \<Rightarrow> (string, jsval) jmap \<Rightarrow> bool" where
  "js_in k m \<longleftrightarrow> k \<in> set (jkeys m) \<or> k = ''__proto__'' \<or> object_member k \<noteq> JsUndefined"

definition action_input :: "step_definition \<Rightarrow> action_context \<Rightarrow> string \<Rightarrow> jsval \<Rightarrow> jsval" where
  "action_input step ctx key defaultValue =
     (if (case sd_with step of None \<Rightarrow> False | Some m \<Rightarrow> js_in key m) then js_member (JsObj (the (sd_with step))) key
      else if js_in key (ac_inputs ctx) then js_member (JsObj (ac_inputs ctx)) key
      else defaultValue)"

definition required_input :: "step_definition \<Rightarrow> action_context \<Rightarrow> string \<Rightarrow> string + jsval" where
  "required_input step ctx key =
     (let v = action_input step ctx key JsUndefined
      in if v = JsUndefined then Inl (''Required input '' @ [CHR 39] @ key @ [CHR 39] @ '' not provided for step '' @ [CHR 39] @ sd_name step @ [CHR 39]) else Inr v)"

end
