(* ===== verification/Executor.thy ===== *)
theory Executor
  imports StepRetry ActionRegistry Dates
begin

text \<open>
  The workflow executor (\<open>executor/index.ts\<close> and \<open>executor/events.ts\<close> of
  \<open>src/packages/workflow-engine/src\<close>). Time is part of the state; \<open>cancel\<close> may be called at one
  point of time given in advance and takes effect when the clock reaches it. What a handler
  leaves running after its step has timed out or was cancelled is not followed.
\<close>

section \<open>State\<close>

record pending_review =
  prv_reviewId :: string
  prv_artifact :: string
  prv_requestedAt :: string

record workflow_state =
  ws_workflowId :: string
  ws_workflowFile :: string
  ws_currentPhase :: string
  ws_currentStep :: string
  ws_inputs :: "(string, jsval) jmap"
  ws_stepOutputs :: "(string, step_output) jmap"
  ws_pendingReview :: "pending_review option"

text \<open>The store is the map that \<open>WorkflowStore\<close> stands for; the abort controller is its abort time.\<close>

record executor =
  ex_currentExecution :: "execution_result option"
  ex_executionContext :: "execution_context option"
  ex_abortedAt :: "rat option"
  ex_events :: "execution_event list"
  ex_store :: "(string, workflow_state) jmap"
  ex_now :: rat

text \<open>
  What the executor is run in: the handlers, the random numbers of a step that starts at a
  time, the time of a call of \<open>cancel\<close>, the branches that git reports for a directory (or its
  error).
\<close>

record executor_env =
  xe_registry :: action_registry
  xe_random :: "rat \<Rightarrow> nat \<Rightarrow> rat"
  xe_cancelAt :: "rat option"
  xe_git :: "string \<Rightarrow> rat \<Rightarrow> string + string \<times> string"

definition executor_getStatus :: "executor \<Rightarrow> execution_status" where
  "executor_getStatus s = (case ex_currentExecution s of None \<Rightarrow> Exec_idle | Some r \<Rightarrow> er_status r)"

definition executor_isRunning :: "executor \<Rightarrow> bool" where
  "executor_isRunning s \<longleftrightarrow> (case ex_currentExecution s of None \<Rightarrow> False | Some r \<Rightarrow> er_status r = Exec_running)"

definition emitEvent ::
    "event_type \<Rightarrow> string \<Rightarrow> string option \<Rightarrow> string option \<Rightarrow> string option \<Rightarrow> executor \<Rightarrow> executor" where
  "emitEvent t workflowName phaseName stepName msg s =
     s\<lparr> ex_events := ex_events s @ [\<lparr> ev_type = t, ev_timestamp = ex_now s, ev_workflowName = workflowName,
          ev_phaseName = phaseName, ev_stepName = stepName, ev_message = msg \<rparr>] \<rparr>"

definition set_status :: "execution_status \<Rightarrow> executor \<Rightarrow> executor" where
  "set_status st s = s\<lparr> ex_currentExecution := map_option (\<lambda>r. r\<lparr> er_status := st \<rparr>) (ex_currentExecution s) \<rparr>"

definition executor_cancel :: "executor \<Rightarrow> executor" where
  "executor_cancel s =
     (if executor_isRunning s then
        emitEvent Execution_cancel (case ex_currentExecution s of None \<Rightarrow> ''unknown'' | Some r \<Rightarrow> er_workflowName r)
          None None (Some ''Execution cancelled by user'')
          (set_status Exec_cancelled (s\<lparr> ex_abortedAt := Some (ex_now s) \<rparr>))
      else s)"

text \<open>The clock moves to a later time; a call of \<open>cancel\<close> in between takes effect when it is due.\<close>

definition advance_to :: "executor_env \<Rightarrow> rat \<Rightarrow> executor \<Rightarrow> executor" where
  "advance_to X t s =
     (case xe_cancelAt X of
        None \<Rightarrow> s\<lparr> ex_now := t \<rparr>
      | Some c \<Rightarrow>
          if ex_now s < c \<and> c \<le> t then (executor_cancel (s\<lparr> ex_now := c \<rparr>))\<lparr> ex_now := t \<rparr>
          else s\<lparr> ex_now := t \<rparr>)"

definition signal_aborted :: "executor \<Rightarrow> bool" where
  "signal_aborted s \<longleftrightarrow> ex_abortedAt s \<noteq> None"

text \<open>The abort time of the signal of a step: in the past or to come.\<close>

definition step_abortAt :: "executor_env \<Rightarrow> executor \<Rightarrow> rat option" where
  "step_abortAt X s =
     (case ex_abortedAt s of
        Some a \<Rightarrow> Some a
      | None \<Rightarrow>
          (case xe_cancelAt X of
             Some c \<Rightarrow> if ex_now s < c \<and> executor_isRunning s then Some c else None
           | None \<Rightarrow> None))"

section \<open>Conditions\<close>

text \<open>
  Without a context, \<open>$KEY\<close>, \<open>${KEY}\<close> and the forms with one brace stand for environment variables
  (for names made of word characters and values without dollar signs, as the pattern and the
  replacement text are not escaped).
\<close>

function replace_variable :: "string \<Rightarrow> string \<Rightarrow> string \<Rightarrow> string" where
  "replace_variable key v [] = []"
| "replace_variable key v (c # cs) =
     (let r = (if starts_with ''{'' cs then tl cs else cs); r' = drop (length key) r
      in if c = CHR ''$'' \<and> starts_with key r
         then v @ replace_variable key v (if starts_with ''}'' r' then tl r' else r')
         else c # replace_variable key v cs)"
  by pat_completeness auto
termination
proof (relation "measure (\<lambda>(key, v, s). length s)", goal_cases)
  case (2 key v c cs r r')
  have "length (tl cs) \<le> length cs" "length (tl r') \<le> length r'" by simp_all
  with 2 show ?case by (auto intro: le_imp_less_Suc split: if_splits)
qed simp_all

definition call_values :: "execution_context option \<Rightarrow> string \<Rightarrow> string" where
  "call_values c s =
     (let ok = (case c of None \<Rightarrow> True | Some x \<Rightarrow> ic_success (getInterpolationContext x));
          bad = (case c of None \<Rightarrow> False | Some x \<Rightarrow> ic_failure (getInterpolationContext x));
          s1 = (if has_text ''success()'' s then replace_all ''success()'' (if ok then ''true'' else ''false'') s else s);
          s2 = (if has_text ''failure()'' s1 then replace_all ''failure()'' (if bad then ''true'' else ''false'') s1 else s1)
      in if has_text ''always()'' s2 then replace_all ''always()'' ''true'' s2 else s2)"

definition evaluateCondition :: "string \<Rightarrow> execution_options \<Rightarrow> executor \<Rightarrow> bool" where
  "evaluateCondition condition options s =
     (case (case ex_executionContext s of
              Some c \<Rightarrow> interpolate condition (getInterpolationContext c) default_options
            | None \<Rightarrow>
                Inr (fold (\<lambda>(k, v). replace_variable k v) (case eo_env options of None \<Rightarrow> [] | Some e \<Rightarrow> e) condition)) of
        Inl _ \<Rightarrow> True
      | Inr e0 \<Rightarrow>
          (let evaluated = call_values (ex_executionContext s) e0
           in if evaluated = ''true'' \<or> evaluated = ''1'' then True
              else if evaluated = ''false'' \<or> evaluated = ''0'' \<or> evaluated = [] then False
              else trim evaluated \<noteq> []))"

text \<open>The guard of phases and steps: an absent or empty condition holds, and so does every one in a dry run.\<close>

definition should_run :: "string option \<Rightarrow> execution_options \<Rightarrow> executor \<Rightarrow> bool" where
  "should_run condition options s \<longleftrightarrow>
     \<not> (truthy condition \<and> eo_mode options \<noteq> Dry_run) \<or> evaluateCondition (the condition) options s"

section \<open>Steps\<close>

definition merge_env :: "(string, string) jmap option \<Rightarrow> (string, string) jmap option \<Rightarrow> (string, string) jmap" where
  "merge_env a b = fold (\<lambda>(k, v). jset k v) (case b of None \<Rightarrow> [] | Some e \<Rightarrow> e) (case a of None \<Rightarrow> [] | Some e \<Rightarrow> e)"

definition createActionContext ::
    "executor_env \<Rightarrow> executable_workflow \<Rightarrow> phase_definition \<Rightarrow> step_definition \<Rightarrow> execution_options \<Rightarrow> executor \<Rightarrow> action_context" where
  "createActionContext X workflow phase step options s =
     \<lparr> ac_workflow = workflow, ac_phase = phase, ac_step = step,
       ac_inputs = (case ex_executionContext s of None \<Rightarrow> [] | Some c \<Rightarrow> getInputs c),
       ac_stepOutputs = (case ex_executionContext s of None \<Rightarrow> [] | Some c \<Rightarrow> getAllStepOutputs c),
       ac_env = merge_env (Some (merge_env (ew_env workflow) (eo_env options))) (sd_env step),
       ac_workdir = eo_cwd options, ac_abortAt = step_abortAt X s \<rparr>"

definition interpolate_text :: "string option \<Rightarrow> interpolation_context \<Rightarrow> string + string option" where
  "interpolate_text t ctx =
     (if truthy t then (case interpolate (the t) ctx default_options of Inl e \<Rightarrow> Inl e | Inr x \<Rightarrow> Inr (Some x)) else Inr t)"

definition interpolate_object :: "(string, jsval) jmap \<Rightarrow> interpolation_context \<Rightarrow> string + (string, jsval) jmap" where
  "interpolate_object m ctx =
     (case interpolateValue (JsObj m) ctx default_options of
        Inl e \<Rightarrow> Inl e | Inr (JsObj m') \<Rightarrow> Inr m' | Inr _ \<Rightarrow> Inr [])"

definition interpolateStep :: "step_definition \<Rightarrow> executor \<Rightarrow> string + step_definition" where
  "interpolateStep step s =
     (case ex_executionContext s of
        None \<Rightarrow> Inr step
      | Some c \<Rightarrow>
          (let ctx = getInterpolationContext c
           in case interpolate_text (sd_command step) ctx of
                Inl e \<Rightarrow> Inl e
              | Inr command \<Rightarrow>
                  (case interpolate_text (sd_script step) ctx of
                     Inl e \<Rightarrow> Inl e
                   | Inr script \<Rightarrow>
                       (case (case sd_with step of None \<Rightarrow> Inr None | Some m \<Rightarrow> map_sum id Some (interpolate_object m ctx)) of
                          Inl e \<Rightarrow> Inl e
                        | Inr w \<Rightarrow>
                            (case (case sd_env step of
                                     None \<Rightarrow> Inr None
                                   | Some m \<Rightarrow> map_sum id (\<lambda>m. Some (map (\<lambda>(k, v). (k, valueToString v)) m))
                                       (interpolate_object (map (\<lambda>(k, v). (k, JsStr v)) m) ctx)) of
                               Inl e \<Rightarrow> Inl e
                             | Inr env \<Rightarrow>
                                 Inr (step\<lparr> sd_command := command, sd_script := script, sd_with := w, sd_env := env \<rparr>))))))"

definition storeStepOutput :: "string \<Rightarrow> action_result \<Rightarrow> executor \<Rightarrow> executor" where
  "storeStepOutput stepId result s =
     (case ex_executionContext s of
        None \<Rightarrow> s
      | Some c \<Rightarrow>
          (let raw = (case ar_stdout result of
                        Some t \<Rightarrow> Some t
                      | None \<Rightarrow> (case ar_output result of JsStr t \<Rightarrow> Some t | v \<Rightarrow> JSON_stringify v));
               parsed = (if is_object (ar_output result) then ar_output result
                         else (case ar_output result of
                                 JsStr t \<Rightarrow> (case JSON_parse t of Some v \<Rightarrow> v | None \<Rightarrow> JsNull)
                               | _ \<Rightarrow> JsNull));
               output = \<lparr> so_raw = raw, so_parsed = parsed,
                          so_exitCode = (case ar_exitCode result of Some n \<Rightarrow> n | None \<Rightarrow> if ar_success result then 0 else 1),
                          so_completedAt = toISOString \<lfloor>ex_now s\<rfloor> \<rparr>
           in s\<lparr> ex_executionContext := Some (setStepOutput stepId output c) \<rparr>))"

definition retry_event :: "string \<Rightarrow> string \<Rightarrow> string \<Rightarrow> rat \<times> retry_state \<times> string \<Rightarrow> execution_event" where
  "retry_event w p st r =
     (case r of (t, state, e) \<Rightarrow>
        \<lparr> ev_type = Action_retry, ev_timestamp = t, ev_workflowName = w, ev_phaseName = Some p, ev_stepName = Some st,
          ev_message = Some (''Retrying action (attempt '' @ show_nat (rst_attempt state + 1) @ ''): '' @ e) \<rparr>)"

definition DEFAULT_STEP_TIMEOUT :: rat where
  "DEFAULT_STEP_TIMEOUT = 300000"

definition step_timeout :: "step_definition \<Rightarrow> rat" where
  "step_timeout step = (case sd_timeout step of Some t \<Rightarrow> t | None \<Rightarrow> DEFAULT_STEP_TIMEOUT)"

definition executeWithActionHandler ::
    "executor_env \<Rightarrow> executable_workflow \<Rightarrow> phase_definition \<Rightarrow> step_definition \<Rightarrow> action_handler \<Rightarrow> execution_options
       \<Rightarrow> executor \<Rightarrow> (string + action_result) \<times> executor" where
  "executeWithActionHandler X workflow phase step handler options s =
     (let ctx = createActionContext X workflow phase step options s; abortAt = ac_abortAt ctx; w = ew_name workflow;
          p = pd_name phase; n = sd_name step;
          s1 = emitEvent Action_start w (Some p) (Some n) (Some (''Starting action ['' @ ah_type handler @ '']'')) s
      in case parseRetryConfig step of
           Inl e \<Rightarrow> (Inl e, s1)
         | Inr config \<Rightarrow>
             (let run = executeWithRetry (ah_execute handler step ctx) (xe_random X (ex_now s)) abortAt config (ex_now s);
                  (outcome, t) = withTimeout run (step_timeout step) abortAt (ex_now s);
                  s2 = s1\<lparr> ex_events := ex_events s1 @ map (retry_event w p n) (filter (\<lambda>r. fst r \<le> t) (run_retries run)) \<rparr>;
                  s3 = advance_to X t s2
              in case outcome of
                   Inl e \<Rightarrow> (Inl e, s3)
                 | Inr res \<Rightarrow>
                     (let r = rr_result res
                      in (Inr r,
                          emitEvent (if ar_success r then Action_complete else Action_error) w (Some p) (Some n)
                            (Some (if ar_success r then ''Action ['' @ ah_type handler @ ''] completed''
                                   else ''Action ['' @ ah_type handler @ ''] failed: '' @
                                        (case ar_error r of Some e \<Rightarrow> e | None \<Rightarrow> ''undefined''))) s3))))"

definition new_step_result :: "step_definition \<Rightarrow> phase_definition \<Rightarrow> rat \<Rightarrow> step_result" where
  "new_step_result step phase now =
     \<lparr> sres_stepName = sd_name step, sres_phaseName = pd_name phase, sres_status = Step_running, sres_startTime = now,
       sres_endTime = None, sres_duration = None, sres_output = None, sres_error = None, sres_exitCode = None \<rparr>"

text \<open>The body of the \<open>try\<close> block of \<open>executeStep\<close> and its \<open>catch\<close>.\<close>

definition perform_step ::
    "executor_env \<Rightarrow> executable_workflow \<Rightarrow> phase_definition \<Rightarrow> step_definition \<Rightarrow> execution_options \<Rightarrow> step_result
       \<Rightarrow> executor \<Rightarrow> step_result \<times> executor" where
  "perform_step X workflow phase step options result s =
     (case interpolateStep step s of
        Inl e \<Rightarrow> (result\<lparr> sres_status := Step_failed, sres_error := Some e \<rparr>, s)
      | Inr istep \<Rightarrow>
          (case getActionHandler (xe_registry X) istep of
             None \<Rightarrow>
               (result\<lparr> sres_status := Step_failed,
                        sres_error := Some (''No action handler found for step '' @ [CHR 34] @ sd_name step @ [CHR 34]) \<rparr>, s)
           | Some handler \<Rightarrow>
               (case executeWithActionHandler X workflow phase istep handler options s of
                  (Inl e, s1) \<Rightarrow> (result\<lparr> sres_status := Step_failed, sres_error := Some e \<rparr>, s1)
                | (Inr r, s1) \<Rightarrow>
                    (let s2 = storeStepOutput (sd_name step) r s1
                     in (result\<lparr> sres_output := (case ar_output r of JsStr t \<Rightarrow> Some t | v \<Rightarrow> JSON_stringify v),
                                 sres_exitCode := ar_exitCode r, sres_error := ar_error r,
                                 sres_status := (if ar_success r then Step_completed else Step_failed) \<rparr>,
                         if truthy (ar_stdout r)
                         then emitEvent Step_output (ew_name workflow) (Some (pd_name phase)) (Some (sd_name step)) (ar_stdout r) s2
                         else s2)))))"

definition executeStep ::
    "executor_env \<Rightarrow> executable_workflow \<Rightarrow> phase_definition \<Rightarrow> step_definition \<Rightarrow> execution_options \<Rightarrow> executor
       \<Rightarrow> step_result \<times> executor" where
  "executeStep X workflow phase step options s =
     (let w = ew_name workflow; p = pd_name phase; n = sd_name step; result = new_step_result step phase (ex_now s);
          s0 = emitEvent Step_start w (Some p) (Some n) (Some (''Starting step: '' @ n)) s
      in if \<not> should_run (sd_condition step) options s0 then
           (result\<lparr> sres_status := Step_skipped, sres_endTime := Some (ex_now s0), sres_duration := Some 0 \<rparr>, s0)
         else if eo_mode options = Dry_run then
           (result\<lparr> sres_status := Step_completed, sres_output := Some (''[DRY-RUN] Would execute step: '' @ n),
                    sres_endTime := Some (ex_now s0), sres_duration := Some (ex_now s0 - sres_startTime result) \<rparr>, s0)
         else
           (case perform_step X workflow phase step options result s0 of
              (r, s1) \<Rightarrow>
                (let r = r\<lparr> sres_endTime := Some (ex_now s1), sres_duration := Some (ex_now s1 - sres_startTime r) \<rparr>
                 in (r, emitEvent (if sres_status r = Step_completed then Step_complete else Step_error) w (Some p) (Some n)
                          (Some (''Step '' @ (if sres_status r = Step_completed then ''completed'' else ''failed'') @ '': '' @ n)) s1))))"

section \<open>Phases\<close>

text \<open>\<open>findIndex\<close> by name, from 0 if there is no name or no match: what is left to run.\<close>

definition start_from :: "('a \<Rightarrow> string) \<Rightarrow> string option \<Rightarrow> 'a list \<Rightarrow> 'a list" where
  "start_from f name xs =
     (if truthy name then (case dropWhile (\<lambda>x. f x \<noteq> the name) xs of [] \<Rightarrow> xs | ys \<Rightarrow> ys) else xs)"

primrec run_steps ::
    "executor_env \<Rightarrow> executable_workflow \<Rightarrow> phase_definition \<Rightarrow> execution_options \<Rightarrow> step_definition list
       \<Rightarrow> phase_result \<Rightarrow> executor \<Rightarrow> phase_result \<times> executor" where
  "run_steps X workflow phase options [] result s = (result, s)"
| "run_steps X workflow phase options (step # steps) result s =
     (if signal_aborted s then (result\<lparr> pres_status := Step_failed \<rparr>, s)
      else
        (case executeStep X workflow phase step options s of
           (r, s') \<Rightarrow>
             (let result = result\<lparr> pres_stepResults := pres_stepResults result @ [r] \<rparr>
              in if sres_status r = Step_failed \<and> \<not> sd_continueOnError step then (result\<lparr> pres_status := Step_failed \<rparr>, s')
                 else run_steps X workflow phase options steps result s')))"

definition new_phase_result :: "phase_definition \<Rightarrow> rat \<Rightarrow> phase_result" where
  "new_phase_result phase now =
     \<lparr> pres_phaseName = pd_name phase, pres_status = Step_running, pres_startTime = now, pres_endTime = None,
       pres_duration = None, pres_stepResults = [] \<rparr>"

definition end_phase :: "executable_workflow \<Rightarrow> phase_definition \<Rightarrow> phase_result \<Rightarrow> executor \<Rightarrow> phase_result \<times> executor" where
  "end_phase workflow phase r0 s =
     (let r1 = (if pres_status r0 = Step_running then r0\<lparr> pres_status := Step_completed \<rparr> else r0);
          r = r1\<lparr> pres_endTime := Some (ex_now s), pres_duration := Some (ex_now s - pres_startTime r1) \<rparr>
      in (r, emitEvent (if pres_status r = Step_completed then Phase_complete else Phase_error) (ew_name workflow) (Some (pd_name phase)) None
               (Some (''Phase '' @ (if pres_status r = Step_completed then ''completed'' else ''failed'') @ '': '' @ pd_name phase)) s))"

definition executePhase ::
    "executor_env \<Rightarrow> executable_workflow \<Rightarrow> phase_definition \<Rightarrow> execution_options \<Rightarrow> string option \<Rightarrow> executor
       \<Rightarrow> phase_result \<times> executor" where
  "executePhase X workflow phase options startStep s =
     (let w = ew_name workflow; p = pd_name phase; result = new_phase_result phase (ex_now s);
          s0 = emitEvent Phase_start w (Some p) None (Some (''Starting phase: '' @ p)) s
      in if \<not> should_run (pd_condition phase) options s0 then
           (result\<lparr> pres_status := Step_skipped, pres_endTime := Some (ex_now s0), pres_duration := Some 0 \<rparr>, s0)
         else
           (case run_steps X workflow phase options (start_from sd_name startStep (pd_steps phase)) result s0 of
              (r, s1) \<Rightarrow> end_phase workflow phase r s1))"

section \<open>Workflows\<close>

text \<open>\<open>validateBranchState\<close>: \<open>None\<close> is a normal return.\<close>

definition validateBranchState :: "executor_env \<Rightarrow> string \<Rightarrow> rat \<Rightarrow> string option" where
  "validateBranchState X cwd now =
     (case xe_git X cwd now of
        Inl e \<Rightarrow> Some e
      | Inr (currentBranch, defaultBranch) \<Rightarrow>
          if trim currentBranch = defaultBranch
          then Some (''Branch validation failed: still on default branch '' @ [CHR 34] @ trim currentBranch @ [CHR 34] @
                     '' after setup phase. The create-feature step likely failed to create/checkout the feature branch.'')
          else None)"

definition push_phase :: "phase_result \<Rightarrow> executor \<Rightarrow> executor" where
  "push_phase r s =
     s\<lparr> ex_currentExecution := map_option (\<lambda>x. x\<lparr> er_phaseResults := er_phaseResults x @ [r] \<rparr>) (ex_currentExecution s) \<rparr>"

definition branch_error :: "executor_env \<Rightarrow> execution_options \<Rightarrow> phase_definition \<Rightarrow> phase_result \<Rightarrow> rat \<Rightarrow> string option" where
  "branch_error X options phase r now =
     (if pd_name phase = ''setup'' \<and> pres_status r = Step_completed \<and> truthy (eo_cwd options)
      then validateBranchState X (the (eo_cwd options)) now else None)"

text \<open>The loop over the phases; \<open>Some e\<close> is an error that leaves it.\<close>

fun run_phases ::
    "executor_env \<Rightarrow> executable_workflow \<Rightarrow> execution_options \<Rightarrow> string option \<Rightarrow> phase_definition list \<Rightarrow> executor
       \<Rightarrow> string option \<times> executor" where
  "run_phases X workflow options startStep [] s = (None, s)"
| "run_phases X workflow options startStep (phase # phases) s =
     (if signal_aborted s then (None, set_status Exec_cancelled s)
      else
        (case executePhase X workflow phase options startStep s of
           (r, s') \<Rightarrow>
             (let s' = push_phase r s'
              in case branch_error X options phase r (ex_now s') of
                   Some e \<Rightarrow> (Some e, s')
                 | None \<Rightarrow>
                     if pres_status r = Step_failed then (None, set_status Exec_failed s')
                     else run_phases X workflow options None phases s')))"

definition new_execution :: "executable_workflow \<Rightarrow> execution_options \<Rightarrow> rat \<Rightarrow> execution_result" where
  "new_execution workflow options now =
     \<lparr> er_workflowName = ew_name workflow, er_status = Exec_running, er_mode = eo_mode options, er_startTime = now,
       er_endTime = None, er_duration = None, er_phaseResults = [], er_env = merge_env (ew_env workflow) (eo_env options) \<rparr>"

definition status_text :: "execution_status \<Rightarrow> string" where
  "status_text st =
     (case st of Exec_idle \<Rightarrow> ''idle'' | Exec_running \<Rightarrow> ''running'' | Exec_paused \<Rightarrow> ''paused'' | Exec_completed \<Rightarrow> ''completed''
      | Exec_failed \<Rightarrow> ''failed'' | Exec_cancelled \<Rightarrow> ''cancelled'')"

definition finish_execution :: "string \<Rightarrow> executor \<Rightarrow> executor" where
  "finish_execution w s =
     (let s = s\<lparr> ex_currentExecution := map_option (\<lambda>r. r\<lparr> er_endTime := Some (ex_now s),
                  er_duration := Some (ex_now s - er_startTime r) \<rparr>) (ex_currentExecution s) \<rparr>
      in (emitEvent (if executor_getStatus s = Exec_completed then Execution_complete else Execution_error) w None None
            (Some (''Workflow '' @ status_text (executor_getStatus s) @ '': '' @ w)) s)\<lparr> ex_abortedAt := None \<rparr>)"

definition execute ::
    "executor_env \<Rightarrow> executable_workflow \<Rightarrow> execution_options \<Rightarrow> (string, jsval) jmap option \<Rightarrow> executor
       \<Rightarrow> (string + execution_result) \<times> executor" where
  "execute X workflow options inputs s =
     (if executor_isRunning s then (Inl ''A workflow is already running. Cancel it first.'', s)
      else
        (let w = ew_name workflow;
             s0 = s\<lparr> ex_executionContext := Some (new_context inputs (Some (merge_env (ew_env workflow) (eo_env options)))),
                     ex_currentExecution := Some (new_execution workflow options (ex_now s)), ex_abortedAt := None \<rparr>;
             s1 = emitEvent Execution_start w None None (Some (''Starting workflow: '' @ w)) s0
         in case run_phases X workflow options (eo_startStep options)
                   (start_from pd_name (eo_startPhase options) (ew_phases workflow)) s1 of
              (e, s2) \<Rightarrow>
                (let s3 = (case e of
                             None \<Rightarrow> if executor_getStatus s2 = Exec_running then set_status Exec_completed s2 else s2
                           | Some msg \<Rightarrow> emitEvent Execution_error w None None (Some msg) (set_status Exec_failed s2));
                     s4 = finish_execution w s3
                 in (Inr (the (ex_currentExecution s4)), s4))))"

definition validate ::
    "executor_env \<Rightarrow> executable_workflow \<Rightarrow> (string, string) jmap option \<Rightarrow> executor
       \<Rightarrow> (string + execution_result) \<times> executor" where
  "validate X workflow env =
     execute X workflow \<lparr> eo_mode = Dry_run, eo_env = env, eo_cwd = None, eo_startPhase = None, eo_startStep = None \<rparr> None"

section \<open>Resuming\<close>

definition hasPendingState :: "executor \<Rightarrow> string \<Rightarrow> bool" where
  "hasPendingState s workflowId =
     (case jget (ex_store s) workflowId of None \<Rightarrow> False | Some st \<Rightarrow> ws_pendingReview st \<noteq> None)"

definition listPendingWorkflows :: "executor \<Rightarrow> workflow_state list" where
  "listPendingWorkflows s = filter (\<lambda>st. ws_pendingReview st \<noteq> None) (jvals (ex_store s))"

definition loadWorkflowState :: "executor \<Rightarrow> string \<Rightarrow> workflow_state option" where
  "loadWorkflowState s workflowId = jget (ex_store s) workflowId"

record review_decision =
  rd_approved :: bool
  rd_comments :: "string option"
  rd_respondedBy :: string
  rd_respondedAt :: string

definition decision_fields :: "review_decision \<Rightarrow> (string \<times> jsval) list" where
  "decision_fields d =
     [(''approved'', JsBool (rd_approved d)),
      (''comments'', (case rd_comments d of None \<Rightarrow> JsUndefined | Some c \<Rightarrow> JsStr c)),
      (''respondedBy'', JsStr (rd_respondedBy d)), (''respondedAt'', JsStr (rd_respondedAt d))]"

definition decision_output :: "review_decision \<Rightarrow> pending_review \<Rightarrow> rat \<Rightarrow> step_output" where
  "decision_output d pr now =
     \<lparr> so_raw = JSON_stringify (JsObj (decision_fields d)),
       so_parsed = JsObj (decision_fields d @ [(''reviewId'', JsStr (prv_reviewId pr))]),
       so_exitCode = 0, so_completedAt = toISOString \<lfloor>now\<rfloor> \<rparr>"

text \<open>The position after the step under review: \<open>None\<close> if it is not found, \<open>Some None\<close> if nothing follows.\<close>

fun next_position ::
    "string \<Rightarrow> string \<Rightarrow> phase_definition list \<Rightarrow> (phase_definition \<times> step_definition option) option option" where
  "next_position p n [] = None"
| "next_position p n (phase # phases) =
     (case (if pd_name phase = p then dropWhile (\<lambda>st. sd_name st \<noteq> n) (pd_steps phase) else []) of
        [] \<Rightarrow> next_position p n phases
      | _ # rest \<Rightarrow>
          (case rest of
             st # _ \<Rightarrow> Some (Some (phase, Some st))
           | [] \<Rightarrow>
               (case phases of
                  [] \<Rightarrow> Some None
                | q # _ \<Rightarrow> Some (Some (q, case pd_steps q of [] \<Rightarrow> None | st # _ \<Rightarrow> Some st)))))"

definition resume ::
    "executor_env \<Rightarrow> executable_workflow \<Rightarrow> string \<Rightarrow> review_decision option \<Rightarrow> execution_options \<Rightarrow> executor
       \<Rightarrow> (string + execution_result) \<times> executor" where
  "resume X workflow workflowId decision options s =
     (case jget (ex_store s) workflowId of
        None \<Rightarrow> (Inl (''No saved workflow state found for ID: '' @ workflowId), s)
      | Some saved \<Rightarrow>
          (case ws_pendingReview saved of
             None \<Rightarrow> (Inl (''Workflow '' @ workflowId @ '' does not have a pending review''), s)
           | Some review \<Rightarrow>
               (let c0 = new_context (Some (ws_inputs saved)) (Some (merge_env (ew_env workflow) (eo_env options)));
                    c1 = fold (\<lambda>(k, out). setStepOutput k out) (ws_stepOutputs saved) c0;
                    c2 = (case decision of
                            None \<Rightarrow> c1
                          | Some d \<Rightarrow> setStepOutput (ws_currentStep saved) (decision_output d review (ex_now s)) c1);
                    s1 = s\<lparr> ex_executionContext := Some c2, ex_store := jdel workflowId (ex_store s) \<rparr>
                in case next_position (ws_currentPhase saved) (ws_currentStep saved) (ew_phases workflow) of
                     None \<Rightarrow> (Inl (''Could not find current step '' @ ws_currentStep saved @ '' in workflow''), s1)
                   | Some None \<Rightarrow>
                       (Inr \<lparr> er_workflowName = ew_name workflow, er_status = Exec_completed, er_mode = eo_mode options,
                              er_startTime = ex_now s, er_endTime = Some (ex_now s), er_duration = Some 0, er_phaseResults = [],
                              er_env = merge_env (ew_env workflow) (eo_env options) \<rparr>, s1)
                   | Some (Some (phase, step)) \<Rightarrow>
                       execute X workflow
                         (options\<lparr> eo_startPhase := Some (pd_name phase), eo_startStep := map_option sd_name step \<rparr>)
                         (Some (ws_inputs saved)) s1)))"

definition executor_dispose :: "executor \<Rightarrow> executor" where
  "executor_dispose s = (executor_cancel s)\<lparr> ex_currentExecution := None, ex_executionContext := None \<rparr>"

end
