(* ===== verification/ExecutorRuns.thy ===== *)
theory ExecutorRuns
  imports Executor
begin

text \<open>
  What the executor of the workflow engine does: the shape of every result, the order and the
  outcome of phases and steps, the time a run takes, cancellation, and conditions.
\<close>

section \<open>What a step changes\<close>

text \<open>
  While steps run, the current execution stays as it is, except that a call of \<open>cancel\<close> may
  have marked it.
\<close>

definition exec_frame :: "executor \<Rightarrow> executor \<Rightarrow> bool" where
  "exec_frame s s' \<longleftrightarrow>
     ex_abortedAt s' = ex_abortedAt s \<and> ex_currentExecution s' = ex_currentExecution s
     \<or> executor_isRunning s \<and> ex_abortedAt s' \<noteq> None \<and> ex_currentExecution s' = ex_currentExecution (set_status Exec_cancelled s)"

lemma exec_frame_refl [simp, intro]: "exec_frame s s"
  by (simp add: exec_frame_def)

lemma exec_frame_trans:
  assumes "exec_frame s s'" and "exec_frame s' s''"
  shows "exec_frame s s''"
  using assms by (auto simp: exec_frame_def executor_isRunning_def set_status_def split: option.splits)

lemma exec_frame_cong:
  "ex_currentExecution t = ex_currentExecution s' \<Longrightarrow> ex_abortedAt t = ex_abortedAt s' \<Longrightarrow> exec_frame s t \<longleftrightarrow> exec_frame s s'"
  by (simp add: exec_frame_def)

lemma emit_fields [simp]:
  "ex_currentExecution (emitEvent t w p n m s) = ex_currentExecution s" "ex_abortedAt (emitEvent t w p n m s) = ex_abortedAt s"
  "ex_executionContext (emitEvent t w p n m s) = ex_executionContext s" "ex_now (emitEvent t w p n m s) = ex_now s"
  "ex_store (emitEvent t w p n m s) = ex_store s"
  by (simp_all add: emitEvent_def)

lemma emit_frame [simp]: "exec_frame s (emitEvent t w p n m s') \<longleftrightarrow> exec_frame s s'" "exec_frame (emitEvent t w p n m s) s' \<longleftrightarrow> exec_frame s s'"
  by (simp_all add: exec_frame_def executor_isRunning_def set_status_def)

lemma store_fields [simp]:
  "ex_currentExecution (storeStepOutput n r s) = ex_currentExecution s" "ex_abortedAt (storeStepOutput n r s) = ex_abortedAt s"
  "ex_now (storeStepOutput n r s) = ex_now s" "ex_store (storeStepOutput n r s) = ex_store s"
  by (simp_all add: storeStepOutput_def Let_def split: option.split)

lemma advance_fields [simp]:
  "ex_now (advance_to X t s) = t" "ex_store (advance_to X t s) = ex_store s" "ex_executionContext (advance_to X t s) = ex_executionContext s"
  by (simp_all add: advance_to_def executor_cancel_def set_status_def emitEvent_def split: option.split)

lemma advance_frame: "exec_frame s (advance_to X t s)"
  by (auto simp: advance_to_def exec_frame_def executor_cancel_def executor_isRunning_def set_status_def emitEvent_def split: option.split)

lemma advance_events [simp]:
  "ex_abortedAt (advance_to X t (s\<lparr> ex_events := evs \<rparr>)) = ex_abortedAt (advance_to X t s)"
  "ex_currentExecution (advance_to X t (s\<lparr> ex_events := evs \<rparr>)) = ex_currentExecution (advance_to X t s)"
  by (simp_all add: advance_to_def executor_cancel_def executor_isRunning_def set_status_def emitEvent_def split: option.split)

lemma advance_uncancelled:
  "xe_cancelAt X = None \<Longrightarrow> ex_currentExecution (advance_to X t s) = ex_currentExecution s \<and> ex_abortedAt (advance_to X t s) = ex_abortedAt s"
  by (simp add: advance_to_def)

lemma interpolateStep_fields:
  assumes "interpolateStep step s = Inr istep"
  shows "sd_name istep = sd_name step" "sd_timeout istep = sd_timeout step" "sd_retry istep = sd_retry step"
  using assms by (auto simp: interpolateStep_def Let_def split: option.splits sum.splits)

text \<open>Handlers that take time forwards.\<close>

definition handlers_ok :: "executor_env \<Rightarrow> bool" where
  "handlers_ok X \<longleftrightarrow> (\<forall>h\<in>set (jvals (areg_actions (xe_registry X))). \<forall>st c k t. 0 \<le> snd (ah_execute h st c k t))"

lemma getActionHandler_in:
  assumes "getActionHandler r step = Some h"
  shows "h \<in> set (jvals (areg_actions r))"
proof (cases "find (\<lambda>h. ah_canHandle h step) (jvals (areg_actions r))")
  case None
  with assms show ?thesis by (force simp: getActionHandler_def dest: map_of_SomeD)
next
  case (Some h')
  with assms show ?thesis by (auto simp: getActionHandler_def find_Some_iff)
qed

lemma action_run:
  assumes "executeWithActionHandler X workflow phase step h options s = (x, s')"
  shows "exec_frame s s'"
    and "xe_cancelAt X = None \<Longrightarrow> ex_currentExecution s' = ex_currentExecution s \<and> ex_abortedAt s' = ex_abortedAt s"
    and "(\<And>st c k t. 0 \<le> snd (ah_execute h st c k t)) \<Longrightarrow> ex_now s \<le> ex_now s' \<and> ex_now s' \<le> ex_now s + timer_ms (step_timeout step)"
proof -
  let ?ctx = "createActionContext X workflow phase step options s"
  have "exec_frame s s' \<and> (xe_cancelAt X = None \<longrightarrow> ex_currentExecution s' = ex_currentExecution s \<and> ex_abortedAt s' = ex_abortedAt s)
      \<and> ((\<forall>st c k t. 0 \<le> snd (ah_execute h st c k t)) \<longrightarrow> ex_now s \<le> ex_now s' \<and> ex_now s' \<le> ex_now s + timer_ms (step_timeout step))"
  proof (cases "parseRetryConfig step")
    case (Inl e)
    with assms timer_pos [of "step_timeout step"] show ?thesis
      by (auto simp: executeWithActionHandler_def Let_def less_imp_le)
  next
    case (Inr config)
    let ?run = "executeWithRetry (ah_execute h step ?ctx) (xe_random X (ex_now s)) (ac_abortAt ?ctx) config (ex_now s)"
    obtain outcome t where w: "withTimeout ?run (step_timeout step) (ac_abortAt ?ctx) (ex_now s) = (outcome, t)" by fastforce
    have s': "\<exists>evs s3. s3 = advance_to X t (s\<lparr> ex_events := evs \<rparr>) \<and> ex_currentExecution s' = ex_currentExecution s3
        \<and> ex_abortedAt s' = ex_abortedAt s3 \<and> ex_now s' = t"
      using assms Inr w by (auto simp: executeWithActionHandler_def Let_def emitEvent_def [of Action_start] split: sum.splits)
    then obtain evs where e: "ex_currentExecution s' = ex_currentExecution (advance_to X t (s\<lparr> ex_events := evs \<rparr>))"
      "ex_abortedAt s' = ex_abortedAt (advance_to X t (s\<lparr> ex_events := evs \<rparr>))" "ex_now s' = t" by blast
    have "exec_frame (s\<lparr> ex_events := evs \<rparr>) s'" using advance_frame e exec_frame_cong by metis
    then have "exec_frame s s'" by (simp add: exec_frame_def executor_isRunning_def set_status_def)
    moreover have "ex_now s \<le> t \<and> t \<le> ex_now s + timer_ms (step_timeout step)" if "\<forall>st c k t. 0 \<le> snd (ah_execute h st c k t)"
      using withTimeout_time(1,2) [OF run_not_before w] that by blast
    ultimately show ?thesis using e advance_uncancelled by simp
  qed
  then show "exec_frame s s'"
    and "xe_cancelAt X = None \<Longrightarrow> ex_currentExecution s' = ex_currentExecution s \<and> ex_abortedAt s' = ex_abortedAt s"
    and "(\<And>st c k t. 0 \<le> snd (ah_execute h st c k t)) \<Longrightarrow> ex_now s \<le> ex_now s' \<and> ex_now s' \<le> ex_now s + timer_ms (step_timeout step)"
    by blast+
qed

section \<open>Steps\<close>

text \<open>The result of a step that is over.\<close>

definition step_result_ok :: "step_result \<Rightarrow> bool" where
  "step_result_ok r \<longleftrightarrow>
     sres_status r \<in> {Step_completed, Step_failed, Step_skipped}
     \<and> (\<exists>e. sres_endTime r = Some e \<and> sres_duration r = Some (e - sres_startTime r))"

lemma perform_run:
  assumes "perform_step X workflow phase step options result s = (r, s')"
  shows "exec_frame s s'" and "sres_status r \<in> {Step_completed, Step_failed}"
    and "sres_stepName r = sres_stepName result" and "sres_startTime r = sres_startTime result"
    and "xe_cancelAt X = None \<Longrightarrow> ex_currentExecution s' = ex_currentExecution s \<and> ex_abortedAt s' = ex_abortedAt s"
    and "handlers_ok X \<Longrightarrow> ex_now s \<le> ex_now s' \<and> ex_now s' \<le> ex_now s + timer_ms (step_timeout step)"
proof -
  have pos: "ex_now s \<le> ex_now s + timer_ms (step_timeout step)" using timer_pos [of "step_timeout step"] by simp
  have "exec_frame s s' \<and> sres_status r \<in> {Step_completed, Step_failed} \<and> sres_stepName r = sres_stepName result
      \<and> sres_startTime r = sres_startTime result
      \<and> (xe_cancelAt X = None \<longrightarrow> ex_currentExecution s' = ex_currentExecution s \<and> ex_abortedAt s' = ex_abortedAt s)
      \<and> (handlers_ok X \<longrightarrow> ex_now s \<le> ex_now s' \<and> ex_now s' \<le> ex_now s + timer_ms (step_timeout step))"
  proof (cases "interpolateStep step s")
    case (Inl e)
    with assms pos show ?thesis by (auto simp: perform_step_def)
  next
    case (Inr istep)
    note i = interpolateStep_fields [OF Inr]
    show ?thesis
    proof (cases "getActionHandler (xe_registry X) istep")
      case None
      with assms pos Inr show ?thesis by (auto simp: perform_step_def)
    next
      case (Some h)
      obtain x s1 where a: "executeWithActionHandler X workflow phase istep h options s = (x, s1)" by fastforce
      note run = action_run [OF a]
      have t: "step_timeout istep = step_timeout step" using i(2) by (simp add: step_timeout_def)
      have "ex_now s \<le> ex_now s1 \<and> ex_now s1 \<le> ex_now s + timer_ms (step_timeout step)" if "handlers_ok X"
        using run(3) getActionHandler_in [OF Some] that t by (auto simp: handlers_ok_def)
      moreover have "ex_currentExecution s' = ex_currentExecution s1 \<and> ex_abortedAt s' = ex_abortedAt s1 \<and> ex_now s' = ex_now s1
          \<and> sres_status r \<in> {Step_completed, Step_failed} \<and> sres_stepName r = sres_stepName result \<and> sres_startTime r = sres_startTime result"
        using assms Inr Some a by (auto simp: perform_step_def Let_def split: sum.splits if_splits)
      ultimately show ?thesis using run(1,2) exec_frame_cong by metis
    qed
  qed
  then show "exec_frame s s'" and "sres_status r \<in> {Step_completed, Step_failed}"
    and "sres_stepName r = sres_stepName result" and "sres_startTime r = sres_startTime result"
    and "xe_cancelAt X = None \<Longrightarrow> ex_currentExecution s' = ex_currentExecution s \<and> ex_abortedAt s' = ex_abortedAt s"
    and "handlers_ok X \<Longrightarrow> ex_now s \<le> ex_now s' \<and> ex_now s' \<le> ex_now s + timer_ms (step_timeout step)"
    by blast+
qed

lemma step_run:
  assumes "executeStep X workflow phase step options s = (r, s')"
  shows "exec_frame s s'" and "step_result_ok r" and "sres_stepName r = sd_name step"
    and "xe_cancelAt X = None \<Longrightarrow> ex_currentExecution s' = ex_currentExecution s \<and> ex_abortedAt s' = ex_abortedAt s"
    and "handlers_ok X \<Longrightarrow> ex_now s \<le> ex_now s' \<and> ex_now s' \<le> ex_now s + timer_ms (step_timeout step)"
proof -
  let ?n = "sd_name step" and ?p = "pd_name phase" and ?w = "ew_name workflow" and ?r = "new_step_result step phase (ex_now s)"
  let ?s = "emitEvent Step_start ?w (Some ?p) (Some ?n) (Some (''Starting step: '' @ ?n)) s"
  have pos: "ex_now s \<le> ex_now s + timer_ms (step_timeout step)" using timer_pos [of "step_timeout step"] by simp
  have "exec_frame s s' \<and> step_result_ok r \<and> sres_stepName r = sd_name step
      \<and> (xe_cancelAt X = None \<longrightarrow> ex_currentExecution s' = ex_currentExecution s \<and> ex_abortedAt s' = ex_abortedAt s)
      \<and> (handlers_ok X \<longrightarrow> ex_now s \<le> ex_now s' \<and> ex_now s' \<le> ex_now s + timer_ms (step_timeout step))"
  proof (cases "should_run (sd_condition step) options ?s \<and> eo_mode options \<noteq> Dry_run")
    case False
    with assms pos show ?thesis
      by (auto simp: executeStep_def Let_def step_result_ok_def new_step_result_def split: if_splits)
  next
    case True
    obtain r1 s1 where p: "perform_step X workflow phase step options ?r ?s = (r1, s1)" by fastforce
    note run = perform_run [OF p]
    have "ex_currentExecution s' = ex_currentExecution s1 \<and> ex_abortedAt s' = ex_abortedAt s1 \<and> ex_now s' = ex_now s1
        \<and> r = r1\<lparr> sres_endTime := Some (ex_now s1), sres_duration := Some (ex_now s1 - sres_startTime r1) \<rparr>"
      using assms True p by (auto simp: executeStep_def Let_def)
    with run show ?thesis
      by (auto simp: step_result_ok_def new_step_result_def exec_frame_def executor_isRunning_def set_status_def)
  qed
  then show "exec_frame s s'" and "step_result_ok r" and "sres_stepName r = sd_name step"
    and "xe_cancelAt X = None \<Longrightarrow> ex_currentExecution s' = ex_currentExecution s \<and> ex_abortedAt s' = ex_abortedAt s"
    and "handlers_ok X \<Longrightarrow> ex_now s \<le> ex_now s' \<and> ex_now s' \<le> ex_now s + timer_ms (step_timeout step)"
    by blast+
qed

text \<open>A step during which \<open>cancel\<close> takes effect fails.\<close>

lemma cancel_in_action:
  assumes "executeWithActionHandler X workflow phase step h options s = (x, s')"
    and "ex_abortedAt s = None" and "ex_abortedAt s' \<noteq> None"
  shows "\<exists>e. x = Inl e"
proof -
  let ?ctx = "createActionContext X workflow phase step options s"
  obtain config where c: "parseRetryConfig step = Inr config"
    using assms by (cases "parseRetryConfig step") (auto simp: executeWithActionHandler_def Let_def)
  let ?run = "executeWithRetry (ah_execute h step ?ctx) (xe_random X (ex_now s)) (ac_abortAt ?ctx) config (ex_now s)"
  obtain outcome t where w: "withTimeout ?run (step_timeout step) (ac_abortAt ?ctx) (ex_now s) = (outcome, t)" by fastforce
  have "ex_abortedAt s' = ex_abortedAt (advance_to X t s)"
    using assms(1) c w by (auto simp: executeWithActionHandler_def Let_def emitEvent_def [of Action_start] split: sum.splits)
  with assms(2,3) obtain a where a: "xe_cancelAt X = Some a" "ex_now s < a" "a \<le> t" "executor_isRunning s"
    by (auto simp: advance_to_def executor_cancel_def executor_isRunning_def split: option.splits if_splits)
  then have "ac_abortAt ?ctx = Some a" using assms(2) by (simp add: createActionContext_def step_abortAt_def)
  with w a(3) have "\<exists>e. outcome = Inl e" by (auto simp: withTimeout_def aborted_def Let_def split: if_splits)
  with assms(1) c w show ?thesis by (auto simp: executeWithActionHandler_def Let_def)
qed

lemma cancel_in_step:
  assumes "executeStep X workflow phase step options s = (r, s')"
    and "ex_abortedAt s = None" and "ex_abortedAt s' \<noteq> None"
  shows "sres_status r = Step_failed"
proof -
  let ?n = "sd_name step" and ?p = "pd_name phase" and ?w = "ew_name workflow" and ?r = "new_step_result step phase (ex_now s)"
  let ?s = "emitEvent Step_start ?w (Some ?p) (Some ?n) (Some (''Starting step: '' @ ?n)) s"
  obtain r1 s1 where p: "perform_step X workflow phase step options ?r ?s = (r1, s1)" by fastforce
  have s1: "ex_abortedAt s1 \<noteq> None" "sres_status r = sres_status r1"
    using assms p by (auto simp: executeStep_def Let_def split: if_splits)
  have "sres_status r1 = Step_failed"
  proof (rule ccontr)
    assume "sres_status r1 \<noteq> Step_failed"
    then obtain istep h x s2 where e: "executeWithActionHandler X workflow phase istep h options ?s = (Inr x, s2)"
      "ex_abortedAt s1 = ex_abortedAt s2"
      using p by (auto simp: perform_step_def Let_def split: sum.splits option.splits prod.splits if_splits)
    from cancel_in_action [OF e(1)] e(2) s1(1) assms(2) show False by simp
  qed
  with s1(2) show ?thesis by simp
qed

section \<open>Phases\<close>

text \<open>
  A run of steps, described: the results follow the steps in order, each is over, and the run
  stops at the first failure that is not tolerated. \<open>c\<close> says whether \<open>cancel\<close> may have cut
  it short.
\<close>

fun steps_ran :: "bool \<Rightarrow> step_definition list \<Rightarrow> step_result list \<Rightarrow> step_status \<Rightarrow> bool" where
  "steps_ran c [] rs st \<longleftrightarrow> rs = [] \<and> st = Step_running"
| "steps_ran c (x # xs) [] st \<longleftrightarrow> c \<and> st = Step_failed"
| "steps_ran c (x # xs) (r # rs) st \<longleftrightarrow>
     step_result_ok r \<and> sres_stepName r = sd_name x \<and>
     (if sres_status r = Step_failed \<and> \<not> sd_continueOnError x then rs = [] \<and> st = Step_failed else steps_ran c xs rs st)"

definition steps_time :: "step_definition list \<Rightarrow> rat" where
  "steps_time steps = (\<Sum>step\<leftarrow>steps. timer_ms (step_timeout step))"

lemma steps_time_simps [simp]: "steps_time [] = 0" "steps_time (x # xs) = timer_ms (step_timeout x) + steps_time xs"
  by (simp_all add: steps_time_def)

lemma steps_time_pos: "0 \<le> steps_time steps"
  by (induction steps) (auto simp: less_imp_le timer_pos)

lemma steps_run_all:
  assumes "run_steps X workflow phase options steps result s = (result', s')" and "pres_status result = Step_running"
  shows "exec_frame s s' \<and> pres_phaseName result' = pres_phaseName result \<and> pres_startTime result' = pres_startTime result
    \<and> (\<exists>rs. pres_stepResults result' = pres_stepResults result @ rs
         \<and> steps_ran (xe_cancelAt X \<noteq> None \<or> ex_abortedAt s \<noteq> None) steps rs (pres_status result'))
    \<and> (xe_cancelAt X = None \<longrightarrow> ex_currentExecution s' = ex_currentExecution s \<and> ex_abortedAt s' = ex_abortedAt s)
    \<and> (handlers_ok X \<longrightarrow> ex_now s \<le> ex_now s' \<and> ex_now s' \<le> ex_now s + steps_time steps)
    \<and> ((\<forall>step\<in>set steps. \<not> sd_continueOnError step) \<longrightarrow> ex_abortedAt s = None \<longrightarrow> ex_abortedAt s' \<noteq> None
         \<longrightarrow> pres_status result' = Step_failed)"
  using assms
proof (induction steps arbitrary: result s)
  case Nil
  then show ?case by auto
next
  case (Cons step steps)
  obtain r s1 where e: "executeStep X workflow phase step options s = (r, s1)" by fastforce
  note run = step_run [OF e]
  define result1 where "result1 = result\<lparr> pres_stepResults := pres_stepResults result @ [r] \<rparr>"
  have r1: "pres_phaseName result1 = pres_phaseName result" "pres_startTime result1 = pres_startTime result"
    "pres_status result1 = Step_running" "pres_stepResults result1 = pres_stepResults result @ [r]"
    using Cons.prems(2) by (simp_all add: result1_def)
  have pos: "0 \<le> steps_time steps" "0 \<le> timer_ms (step_timeout step)" using steps_time_pos timer_pos by (auto intro: less_imp_le)
  consider (aborted) "ex_abortedAt s \<noteq> None" "result' = result\<lparr> pres_status := Step_failed \<rparr>" "s' = s"
    | (failed) "ex_abortedAt s = None" "sres_status r = Step_failed" "\<not> sd_continueOnError step"
        "result' = result1\<lparr> pres_status := Step_failed \<rparr>" "s' = s1"
    | (goes_on) "ex_abortedAt s = None" "\<not> (sres_status r = Step_failed \<and> \<not> sd_continueOnError step)"
        "run_steps X workflow phase options steps result1 s1 = (result', s')"
    using Cons.prems(1) e by (auto simp: signal_aborted_def Let_def result1_def split: if_splits)
  then show ?case
  proof cases
    case aborted
    with pos show ?thesis by (auto intro!: exI [of _ "[]"])
  next
    case failed
    with run r1 pos show ?thesis by (auto intro!: exI [of _ "[r]"])
  next
    case goes_on
    note ih = Cons.IH [OF goes_on(3) r1(3)]
    then obtain rs where rs: "pres_stepResults result' = pres_stepResults result @ r # rs"
      "steps_ran (xe_cancelAt X \<noteq> None \<or> ex_abortedAt s1 \<noteq> None) steps rs (pres_status result')" using r1(4) by auto
    have "xe_cancelAt X \<noteq> None \<or> ex_abortedAt s1 = None" using run(4) goes_on(1) by metis
    then have ran: "steps_ran (xe_cancelAt X \<noteq> None \<or> ex_abortedAt s \<noteq> None) (step # steps) (r # rs) (pres_status result')"
      using rs(2) goes_on(1,2) run(2,3) by (auto split: if_splits)
    have c: "ex_abortedAt s1 = None" if "\<not> sd_continueOnError step" using cancel_in_step [OF e goes_on(1)] goes_on(2) that by blast
    have "exec_frame s s'" using ih run(1) exec_frame_trans by blast
    moreover have "handlers_ok X \<longrightarrow> ex_now s \<le> ex_now s' \<and> ex_now s' \<le> ex_now s + steps_time (step # steps)"
      using ih run(5) by auto
    moreover have "xe_cancelAt X = None \<longrightarrow> ex_currentExecution s' = ex_currentExecution s \<and> ex_abortedAt s' = ex_abortedAt s"
      using ih run(4) by metis
    moreover have "(\<forall>x\<in>set (step # steps). \<not> sd_continueOnError x) \<longrightarrow> ex_abortedAt s = None \<longrightarrow> ex_abortedAt s' \<noteq> None
        \<longrightarrow> pres_status result' = Step_failed"
      using ih c by simp
    moreover have "pres_phaseName result' = pres_phaseName result" "pres_startTime result' = pres_startTime result"
      using ih r1(1,2) by simp_all
    ultimately show ?thesis using rs(1) ran by blast
  qed
qed

text \<open>The result of a phase that is over.\<close>

definition phase_result_ok :: "bool \<Rightarrow> string option \<Rightarrow> phase_definition \<Rightarrow> phase_result \<Rightarrow> bool" where
  "phase_result_ok c startStep phase r \<longleftrightarrow>
     pres_phaseName r = pd_name phase
     \<and> (\<exists>e. pres_endTime r = Some e \<and> pres_duration r = Some (e - pres_startTime r))
     \<and> (pres_status r = Step_skipped \<and> pres_stepResults r = []
        \<or> pres_status r = Step_completed \<and> steps_ran c (start_from sd_name startStep (pd_steps phase)) (pres_stepResults r) Step_running
        \<or> pres_status r = Step_failed \<and> steps_ran c (start_from sd_name startStep (pd_steps phase)) (pres_stepResults r) Step_failed)"

lemma steps_ran_status: "steps_ran c xs rs st \<Longrightarrow> st = Step_running \<or> st = Step_failed"
  by (induction c xs rs st rule: steps_ran.induct) (auto split: if_splits)

lemma start_from_cases:
  obtains "start_from f n xs = xs" | P where "start_from f n xs = dropWhile P xs"
proof (cases "truthy n \<and> dropWhile (\<lambda>x. f x \<noteq> the n) xs \<noteq> []")
  case True
  then have "start_from f n xs = dropWhile (\<lambda>x. f x \<noteq> the n) xs" by (cases "dropWhile (\<lambda>x. f x \<noteq> the n) xs") (simp_all add: start_from_def)
  then show thesis by (rule that(2))
next
  case False
  then have "start_from f n xs = xs" unfolding start_from_def by (metis list.simps(4))
  then show thesis by (rule that(1))
qed

lemma start_from_subset: "set (start_from f n xs) \<subseteq> set xs"
  by (rule start_from_cases [of f n xs]) (auto dest: set_dropWhileD)

lemma steps_time_start: "steps_time (start_from sd_name n xs) \<le> steps_time xs"
proof -
  have "steps_time (dropWhile P xs) \<le> steps_time xs" for P
  proof (induction xs)
    case (Cons x xs)
    have "0 \<le> timer_ms (step_timeout x)" by (simp add: less_imp_le timer_pos)
    with Cons show ?case by simp
  qed simp
  then show ?thesis by (metis start_from_cases order_refl)
qed

lemma end_phase_fields:
  assumes "end_phase workflow phase r1 s1 = (r, s')"
  shows "pres_status r = (if pres_status r1 = Step_running then Step_completed else pres_status r1)"
    and "pres_stepResults r = pres_stepResults r1" and "pres_phaseName r = pres_phaseName r1" and "pres_startTime r = pres_startTime r1"
    and "pres_endTime r = Some (ex_now s1)" and "pres_duration r = Some (ex_now s1 - pres_startTime r1)"
    and "ex_currentExecution s' = ex_currentExecution s1" and "ex_abortedAt s' = ex_abortedAt s1" and "ex_now s' = ex_now s1"
  using assms by (auto simp: end_phase_def Let_def)

lemma phase_run:
  assumes "executePhase X workflow phase options startStep s = (r, s')"
  shows "exec_frame s s'" and "phase_result_ok (xe_cancelAt X \<noteq> None \<or> ex_abortedAt s \<noteq> None) startStep phase r"
    and "xe_cancelAt X = None \<Longrightarrow> ex_currentExecution s' = ex_currentExecution s \<and> ex_abortedAt s' = ex_abortedAt s"
    and "handlers_ok X \<Longrightarrow> ex_now s \<le> ex_now s' \<and> ex_now s' \<le> ex_now s + steps_time (pd_steps phase)"
    and "\<forall>step\<in>set (pd_steps phase). \<not> sd_continueOnError step \<Longrightarrow> ex_abortedAt s = None \<Longrightarrow> ex_abortedAt s' \<noteq> None
         \<Longrightarrow> pres_status r = Step_failed"
proof -
  let ?s = "emitEvent Phase_start (ew_name workflow) (Some (pd_name phase)) None (Some (''Starting phase: '' @ pd_name phase)) s"
  let ?steps = "start_from sd_name startStep (pd_steps phase)"
  have "exec_frame s s' \<and> phase_result_ok (xe_cancelAt X \<noteq> None \<or> ex_abortedAt s \<noteq> None) startStep phase r
    \<and> (xe_cancelAt X = None \<longrightarrow> ex_currentExecution s' = ex_currentExecution s \<and> ex_abortedAt s' = ex_abortedAt s)
    \<and> (handlers_ok X \<longrightarrow> ex_now s \<le> ex_now s' \<and> ex_now s' \<le> ex_now s + steps_time (pd_steps phase))
    \<and> ((\<forall>step\<in>set (pd_steps phase). \<not> sd_continueOnError step) \<longrightarrow> ex_abortedAt s = None \<longrightarrow> ex_abortedAt s' \<noteq> None
         \<longrightarrow> pres_status r = Step_failed)"
  proof (cases "should_run (pd_condition phase) options ?s")
    case False
    with assms steps_time_pos show ?thesis
      by (auto simp: executePhase_def Let_def phase_result_ok_def new_phase_result_def)
  next
    case True
    obtain r1 s1 where e: "run_steps X workflow phase options ?steps (new_phase_result phase (ex_now ?s)) ?s = (r1, s1)" by fastforce
    have "pres_status (new_phase_result phase (ex_now ?s)) = Step_running" by (simp add: new_phase_result_def)
    note run = steps_run_all [OF e this]
    then obtain rs where rs: "pres_stepResults r1 = rs"
      "steps_ran (xe_cancelAt X \<noteq> None \<or> ex_abortedAt s \<noteq> None) ?steps rs (pres_status r1)" by (auto simp: new_phase_result_def)
    have r: "pres_status r = (if pres_status r1 = Step_running then Step_completed else pres_status r1)"
      "pres_stepResults r = rs" "pres_phaseName r = pd_name phase" "pres_startTime r = pres_startTime r1"
      "pres_endTime r = Some (ex_now s1)" "pres_duration r = Some (ex_now s1 - pres_startTime r1)"
      "ex_currentExecution s' = ex_currentExecution s1" "ex_abortedAt s' = ex_abortedAt s1" "ex_now s' = ex_now s1"
    proof -
      have n: "pres_phaseName r1 = pd_name phase" using run by (simp add: new_phase_result_def)
      have "end_phase workflow phase r1 s1 = (r, s')" using assms True e by (simp add: executePhase_def Let_def)
      from end_phase_fields [OF this] n rs(1) show "pres_status r = (if pres_status r1 = Step_running then Step_completed else pres_status r1)"
        "pres_stepResults r = rs" "pres_phaseName r = pd_name phase" "pres_startTime r = pres_startTime r1"
        "pres_endTime r = Some (ex_now s1)" "pres_duration r = Some (ex_now s1 - pres_startTime r1)"
        "ex_currentExecution s' = ex_currentExecution s1" "ex_abortedAt s' = ex_abortedAt s1" "ex_now s' = ex_now s1"
        by simp_all
    qed
    have "phase_result_ok (xe_cancelAt X \<noteq> None \<or> ex_abortedAt s \<noteq> None) startStep phase r"
    proof (cases "pres_status r1 = Step_running")
      case True
      with rs(2) show ?thesis unfolding phase_result_ok_def r by (intro conjI exI disjI2 disjI1) simp_all
    next
      case False
      with steps_ran_status [OF rs(2)] have "pres_status r1 = Step_failed" by blast
      with rs(2) show ?thesis unfolding phase_result_ok_def r by (intro conjI exI disjI2) simp_all
    qed
    moreover have "exec_frame s s'" using conjunct1 [OF run] unfolding emit_frame exec_frame_cong [OF r(7,8)] .
    moreover have "(\<forall>step\<in>set (pd_steps phase). \<not> sd_continueOnError step) \<longrightarrow> (\<forall>step\<in>set ?steps. \<not> sd_continueOnError step)"
      using start_from_subset [of sd_name startStep "pd_steps phase"] by blast
    moreover have "handlers_ok X \<longrightarrow> ex_now s \<le> ex_now s1 \<and> ex_now s1 \<le> ex_now s + steps_time ?steps"
      using run unfolding emit_fields by blast
    then have "handlers_ok X \<longrightarrow> ex_now s \<le> ex_now s' \<and> ex_now s' \<le> ex_now s + steps_time (pd_steps phase)"
      using steps_time_start [of startStep "pd_steps phase"] unfolding r(9) by linarith
    moreover have "xe_cancelAt X = None \<longrightarrow> ex_currentExecution s' = ex_currentExecution s \<and> ex_abortedAt s' = ex_abortedAt s"
      using run unfolding r(7,8) emit_fields by blast
    moreover have "(\<forall>step\<in>set ?steps. \<not> sd_continueOnError step) \<longrightarrow> ex_abortedAt s = None \<longrightarrow> ex_abortedAt s' \<noteq> None
        \<longrightarrow> pres_status r1 = Step_failed"
      using run unfolding r(8) emit_fields by blast
    then have "(\<forall>step\<in>set ?steps. \<not> sd_continueOnError step) \<longrightarrow> ex_abortedAt s = None \<longrightarrow> ex_abortedAt s' \<noteq> None
        \<longrightarrow> pres_status r = Step_failed"
      unfolding r(1) by simp
    ultimately show ?thesis by blast
  qed
  then show "exec_frame s s'" and "phase_result_ok (xe_cancelAt X \<noteq> None \<or> ex_abortedAt s \<noteq> None) startStep phase r"
    and "xe_cancelAt X = None \<Longrightarrow> ex_currentExecution s' = ex_currentExecution s \<and> ex_abortedAt s' = ex_abortedAt s"
    and "handlers_ok X \<Longrightarrow> ex_now s \<le> ex_now s' \<and> ex_now s' \<le> ex_now s + steps_time (pd_steps phase)"
    and "\<forall>step\<in>set (pd_steps phase). \<not> sd_continueOnError step \<Longrightarrow> ex_abortedAt s = None \<Longrightarrow> ex_abortedAt s' \<noteq> None
         \<Longrightarrow> pres_status r = Step_failed"
    by blast+
qed

section \<open>Workflows\<close>

text \<open>
  A run of phases, described: the results follow the phases in order, and the run stops at the
  first phase that fails, after a setup phase that leaves the directory on its default branch
  (if \<open>b\<close>, that is, a directory is given), or when it is cancelled (if \<open>c\<close>).
\<close>

fun phases_ran :: "bool \<Rightarrow> bool \<Rightarrow> string option \<Rightarrow> phase_definition list \<Rightarrow> phase_result list \<Rightarrow> execution_status \<Rightarrow> bool" where
  "phases_ran c b startStep [] rs st \<longleftrightarrow> rs = [] \<and> (st = Exec_completed \<or> c \<and> st = Exec_cancelled)"
| "phases_ran c b startStep (p # ps) [] st \<longleftrightarrow> c \<and> st = Exec_cancelled"
| "phases_ran c b startStep (p # ps) (r # rs) st \<longleftrightarrow>
     phase_result_ok c startStep p r \<and>
     (if pres_status r = Step_failed then rs = [] \<and> st = Exec_failed
      else b \<and> pd_name p = ''setup'' \<and> pres_status r = Step_completed \<and> rs = [] \<and> st = Exec_failed
           \<or> phases_ran c b None ps rs st)"

text \<open>The current execution while its phases run.\<close>

definition live :: "executor \<Rightarrow> execution_result \<Rightarrow> bool" where
  "live s r \<longleftrightarrow>
     ex_currentExecution s = Some r
     \<and> (ex_abortedAt s = None \<and> er_status r = Exec_running \<or> ex_abortedAt s \<noteq> None \<and> er_status r = Exec_cancelled)"

lemma live_frame:
  assumes "live s r" and "exec_frame s s'"
  obtains r' where "live s' r'" and "er_phaseResults r' = er_phaseResults r" and "er_startTime r' = er_startTime r"
  using assms by (auto simp: live_def exec_frame_def executor_isRunning_def set_status_def)

lemma live_push:
  "live s r \<Longrightarrow> live (push_phase p s) (r\<lparr> er_phaseResults := er_phaseResults r @ [p] \<rparr>)"
  "ex_now (push_phase p s) = ex_now s" "ex_abortedAt (push_phase p s) = ex_abortedAt s"
  by (auto simp: live_def push_phase_def)

definition loop_outcome :: "string option \<Rightarrow> execution_result \<Rightarrow> execution_status" where
  "loop_outcome e r = (if e \<noteq> None then Exec_failed else if er_status r = Exec_running then Exec_completed else er_status r)"

definition phases_time :: "phase_definition list \<Rightarrow> rat" where
  "phases_time ps = (\<Sum>p\<leftarrow>ps. steps_time (pd_steps p))"

lemma phases_time_simps [simp]: "phases_time [] = 0" "phases_time (p # ps) = steps_time (pd_steps p) + phases_time ps"
  by (simp_all add: phases_time_def)

lemma phases_time_pos: "0 \<le> phases_time ps"
  by (induction ps) (auto simp: steps_time_pos)

definition strict_steps :: "phase_definition list \<Rightarrow> bool" where
  "strict_steps ps \<longleftrightarrow> (\<forall>p\<in>set ps. \<forall>step\<in>set (pd_steps p). \<not> sd_continueOnError step)"

lemma phases_run:
  assumes "run_phases X workflow options startStep ps s = (e, s')" and "live s r0"
    and "ex_abortedAt s = None \<or> xe_cancelAt X \<noteq> None"
  shows "\<exists>r1 rs. ex_currentExecution s' = Some r1 \<and> er_phaseResults r1 = er_phaseResults r0 @ rs \<and> er_startTime r1 = er_startTime r0
     \<and> phases_ran (xe_cancelAt X \<noteq> None) (truthy (eo_cwd options)) startStep ps rs (loop_outcome e r1)
     \<and> (handlers_ok X \<longrightarrow> ex_now s \<le> ex_now s' \<and> ex_now s' \<le> ex_now s + phases_time ps)
     \<and> (strict_steps ps \<longrightarrow> ex_abortedAt s = None \<longrightarrow> ex_abortedAt s' \<noteq> None \<longrightarrow> loop_outcome e r1 = Exec_failed)
     \<and> (loop_outcome e r1 = Exec_cancelled \<longrightarrow> ex_abortedAt s' \<noteq> None)"
  using assms
proof (induction ps arbitrary: startStep s r0)
  case Nil
  then have s': "e = None" "s' = s" by simp_all
  have "er_status r0 = Exec_running \<or> xe_cancelAt X \<noteq> None \<and> er_status r0 = Exec_cancelled"
    using Nil.prems(2,3) by (auto simp: live_def)
  then show ?case using Nil.prems(2) s' by (intro exI [of _ r0] exI [of _ "[]"]) (auto simp: live_def loop_outcome_def)
next
  case (Cons p ps)
  show ?case
  proof (cases "ex_abortedAt s = None")
    case False
    then have "e = None" "s' = set_status Exec_cancelled s" using Cons.prems(1) by (simp_all add: signal_aborted_def)
    then show ?thesis using Cons.prems(2,3) False phases_time_pos [of "p # ps"]
      by (intro exI [of _ "r0\<lparr> er_status := Exec_cancelled \<rparr>"] exI [of _ "[]"]) (auto simp: live_def set_status_def loop_outcome_def)
  next
    case True
    obtain r s1 where e: "executePhase X workflow p options startStep s = (r, s1)" by fastforce
    note run = phase_run [OF e]
    obtain r1 where r1: "live s1 r1" "er_phaseResults r1 = er_phaseResults r0" "er_startTime r1 = er_startTime r0"
      using live_frame [OF Cons.prems(2) run(1)] by blast
    define s2 where "s2 = push_phase r s1"
    define r2 where "r2 = r1\<lparr> er_phaseResults := er_phaseResults r1 @ [r] \<rparr>"
    have r2: "live s2 r2" "er_phaseResults r2 = er_phaseResults r0 @ [r]" "er_startTime r2 = er_startTime r0"
      "ex_currentExecution s2 = Some r2" "ex_now s2 = ex_now s1" "ex_abortedAt s2 = ex_abortedAt s1"
      using live_push(1) [OF r1(1), of r] live_push(2,3) [of r s1] r1 by (simp_all add: s2_def r2_def live_def)
    have a2: "ex_abortedAt s2 = None \<or> xe_cancelAt X \<noteq> None" using run(3) True r2(6) by metis
    have ok: "phase_result_ok (xe_cancelAt X \<noteq> None) startStep p r" using run(2) True by simp
    have time: "handlers_ok X \<longrightarrow> ex_now s \<le> ex_now s2 \<and> ex_now s2 \<le> ex_now s + steps_time (pd_steps p)" using run(4) r2(5) by simp
    have strict: "pres_status r = Step_failed" if "strict_steps (p # ps)" "ex_abortedAt s2 \<noteq> None"
      using run(5) True that r2(6) by (simp add: strict_steps_def)
    have time0: "handlers_ok X \<longrightarrow> ex_now s \<le> ex_now s2 \<and> ex_now s2 \<le> ex_now s + phases_time (p # ps)"
      using time phases_time_pos [of ps] by auto
    have loop: "run_phases X workflow options startStep (p # ps) s =
        (case branch_error X options p r (ex_now s2) of
           Some m \<Rightarrow> (Some m, s2)
         | None \<Rightarrow> if pres_status r = Step_failed then (None, set_status Exec_failed s2) else run_phases X workflow options None ps s2)"
      using True e unfolding s2_def by (auto simp: signal_aborted_def Let_def split: option.split)
    consider (branch) m where "branch_error X options p r (ex_now s2) = Some m" "e = Some m" "s' = s2"
      | (failed) "pres_status r = Step_failed" "e = None" "s' = set_status Exec_failed s2"
      | (goes_on) "pres_status r \<noteq> Step_failed" "run_phases X workflow options None ps s2 = (e, s')"
      using Cons.prems(1) unfolding loop by (auto split: option.splits if_splits)
    then show ?thesis
    proof cases
      case branch
      then have "pd_name p = ''setup''" "pres_status r = Step_completed" "truthy (eo_cwd options)"
        by (auto simp: branch_error_def split: if_splits)
      with branch(2,3) ok r2 time0 show ?thesis
        by (intro exI [of _ r2] exI [of _ "[r]"]) (auto simp: loop_outcome_def)
    next
      case failed
      with ok r2 time0 show ?thesis
        by (intro exI [of _ "r2\<lparr> er_status := Exec_failed \<rparr>"] exI [of _ "[r]"]) (auto simp: loop_outcome_def set_status_def)
    next
      case goes_on
      from Cons.IH [OF goes_on(2) r2(1) a2] obtain r3 rs where
        r3: "ex_currentExecution s' = Some r3" "er_phaseResults r3 = er_phaseResults r2 @ rs" "er_startTime r3 = er_startTime r2"
          "phases_ran (xe_cancelAt X \<noteq> None) (truthy (eo_cwd options)) None ps rs (loop_outcome e r3)"
          "handlers_ok X \<longrightarrow> ex_now s2 \<le> ex_now s' \<and> ex_now s' \<le> ex_now s2 + phases_time ps"
          "strict_steps ps \<longrightarrow> ex_abortedAt s2 = None \<longrightarrow> ex_abortedAt s' \<noteq> None \<longrightarrow> loop_outcome e r3 = Exec_failed"
          "loop_outcome e r3 = Exec_cancelled \<longrightarrow> ex_abortedAt s' \<noteq> None" by (elim exE conjE)
      have "strict_steps (p # ps) \<Longrightarrow> strict_steps ps" by (simp add: strict_steps_def)
      with strict goes_on(1) r3(6) have "strict_steps (p # ps) \<longrightarrow> ex_abortedAt s = None \<longrightarrow> ex_abortedAt s' \<noteq> None \<longrightarrow> loop_outcome e r3 = Exec_failed"
        by blast
      moreover have "handlers_ok X \<longrightarrow> ex_now s \<le> ex_now s' \<and> ex_now s' \<le> ex_now s + phases_time (p # ps)"
        using time r3(5) by auto
      moreover have "phases_ran (xe_cancelAt X \<noteq> None) (truthy (eo_cwd options)) startStep (p # ps) (r # rs) (loop_outcome e r3)"
        using ok goes_on(1) r3(4) by simp
      moreover have "er_phaseResults r3 = er_phaseResults r0 @ r # rs" using r3(2) r2(2) by simp
      ultimately show ?thesis using r3(1,3,7) r2(3) by (metis (no_types))
    qed
  qed
qed

section \<open>Cancellation is noticed\<close>

text \<open>The call of \<open>cancel\<close> at time \<open>c\<close> is still to come.\<close>

definition cancel_pending :: "rat \<Rightarrow> executor \<Rightarrow> bool" where
  "cancel_pending c s \<longleftrightarrow> ex_abortedAt s = None \<and> executor_isRunning s \<and> ex_now s < c"

lemma cancel_pending_cong:
  "ex_currentExecution t = ex_currentExecution s \<Longrightarrow> ex_abortedAt t = ex_abortedAt s \<Longrightarrow> ex_now t = ex_now s \<Longrightarrow>
   cancel_pending c t = cancel_pending c s"
  by (simp add: cancel_pending_def executor_isRunning_def)

lemma pending_advance:
  assumes "xe_cancelAt X = Some c" and "cancel_pending c s" and "ex_abortedAt (advance_to X t s) = None"
  shows "cancel_pending c (advance_to X t s)"
  using assms
  by (auto simp: cancel_pending_def advance_to_def executor_cancel_def executor_isRunning_def set_status_def split: if_splits option.splits)

lemma pending_action:
  assumes X: "xe_cancelAt X = Some c" and "cancel_pending c s" and "executeWithActionHandler X workflow phase step h options s = (x, s')"
    and "ex_abortedAt s' = None"
  shows "cancel_pending c s'"
proof -
  let ?ctx = "createActionContext X workflow phase step options s"
  show ?thesis
  proof (cases "parseRetryConfig step")
    case (Inl e)
    with assms(2,3) show ?thesis by (auto simp: executeWithActionHandler_def Let_def cancel_pending_def executor_isRunning_def)
  next
    case (Inr config)
    let ?run = "executeWithRetry (ah_execute h step ?ctx) (xe_random X (ex_now s)) (ac_abortAt ?ctx) config (ex_now s)"
    obtain outcome t where w: "withTimeout ?run (step_timeout step) (ac_abortAt ?ctx) (ex_now s) = (outcome, t)" by fastforce
    have "ex_abortedAt s' = ex_abortedAt (advance_to X t s) \<and> ex_currentExecution s' = ex_currentExecution (advance_to X t s) \<and> ex_now s' = t"
      using assms(3) Inr w by (auto simp: executeWithActionHandler_def Let_def emitEvent_def [of Action_start] split: sum.splits)
    then have s': "ex_abortedAt s' = ex_abortedAt (advance_to X t s)" "ex_currentExecution s' = ex_currentExecution (advance_to X t s)"
      "ex_now s' = ex_now (advance_to X t s)" by simp_all
    have "cancel_pending c (advance_to X t s)" using pending_advance [OF X assms(2)] assms(4) s'(1) by simp
    then show ?thesis using cancel_pending_cong [OF s'(2,1,3)] by simp
  qed
qed

lemma pending_step:
  assumes X: "xe_cancelAt X = Some c" and "cancel_pending c s" and "executeStep X workflow phase step options s = (r, s')"
    and "ex_abortedAt s' = None"
  shows "cancel_pending c s'"
proof -
  let ?n = "sd_name step" and ?p = "pd_name phase" and ?w = "ew_name workflow" and ?r = "new_step_result step phase (ex_now s)"
  let ?s = "emitEvent Step_start ?w (Some ?p) (Some ?n) (Some (''Starting step: '' @ ?n)) s"
  have p: "cancel_pending c ?s" using assms(2) by (simp add: cancel_pending_def executor_isRunning_def)
  obtain r1 s1 where e: "perform_step X workflow phase step options ?r ?s = (r1, s1)" by fastforce
  have "s' = ?s \<or> ex_currentExecution s' = ex_currentExecution s1 \<and> ex_abortedAt s' = ex_abortedAt s1 \<and> ex_now s' = ex_now s1"
    using assms(3) e by (auto simp: executeStep_def Let_def split: if_splits)
  moreover have "cancel_pending c s1" if "ex_abortedAt s1 = None"
  proof -
    consider "s1 = ?s" | istep h x s2 where "executeWithActionHandler X workflow phase istep h options ?s = (x, s2)"
        "ex_currentExecution s1 = ex_currentExecution s2" "ex_abortedAt s1 = ex_abortedAt s2" "ex_now s1 = ex_now s2"
      using e by (auto simp: perform_step_def Let_def split: sum.splits option.splits prod.splits if_splits)
    then show ?thesis
    proof cases
      case 2
      from pending_action [OF X p 2(1)] that 2(3) have "cancel_pending c s2" by simp
      then show ?thesis using cancel_pending_cong [OF 2(2-4)] by simp
    qed (use p in simp)
  qed
  ultimately show ?thesis using p assms(4) cancel_pending_cong [of s' s1] by metis
qed

lemma pending_steps:
  assumes X: "xe_cancelAt X = Some c"
  shows "run_steps X workflow phase options steps result s = (result', s') \<Longrightarrow> cancel_pending c s \<Longrightarrow> ex_abortedAt s' = None
     \<Longrightarrow> cancel_pending c s'"
proof (induction steps arbitrary: result s)
  case (Cons step steps)
  obtain r s1 where e: "executeStep X workflow phase step options s = (r, s1)" by fastforce
  have a: "ex_abortedAt s = None" using Cons.prems(2) by (simp add: cancel_pending_def)
  consider "s' = s1" | result1 where "run_steps X workflow phase options steps result1 s1 = (result', s')"
    using Cons.prems(1) e a by (auto simp: signal_aborted_def Let_def split: if_splits)
  then show ?case
  proof cases
    case 1
    with pending_step [OF X Cons.prems(2) e] Cons.prems(3) show ?thesis by simp
  next
    case (2 result1)
    have "exec_frame s1 s'" if "pres_status result1 = Step_running" using steps_run_all [OF 2 that] by blast
    show ?thesis
    proof (cases "ex_abortedAt s1 = None")
      case True
      from Cons.IH [OF 2 pending_step [OF X Cons.prems(2) e True] Cons.prems(3)] show ?thesis .
    next
      case False
      then have "s' = s1"
        using 2 by (cases steps) (auto simp: signal_aborted_def)
      with False Cons.prems(3) show ?thesis by simp
    qed
  qed
qed simp

lemma pending_phase:
  assumes X: "xe_cancelAt X = Some c" and "cancel_pending c s" and "executePhase X workflow phase options startStep s = (r, s')"
    and "ex_abortedAt s' = None"
  shows "cancel_pending c s'"
proof -
  let ?s = "emitEvent Phase_start (ew_name workflow) (Some (pd_name phase)) None (Some (''Starting phase: '' @ pd_name phase)) s"
  have p: "cancel_pending c ?s" using assms(2) by (simp add: cancel_pending_def executor_isRunning_def)
  obtain r1 s1 where e: "run_steps X workflow phase options (start_from sd_name startStep (pd_steps phase)) (new_phase_result phase (ex_now ?s)) ?s = (r1, s1)"
    by fastforce
  have "s' = ?s \<or> end_phase workflow phase r1 s1 = (r, s')"
    using assms(3) e by (auto simp: executePhase_def Let_def split: if_splits)
  then show ?thesis
  proof
    assume "end_phase workflow phase r1 s1 = (r, s')"
    note f = end_phase_fields(7-9) [OF this]
    from pending_steps [OF X e p] f(2) assms(4) have "cancel_pending c s1" by simp
    then show ?thesis using cancel_pending_cong [OF f] by simp
  qed (use p in simp)
qed

lemma pending_phases:
  assumes X: "xe_cancelAt X = Some c"
  shows "run_phases X workflow options startStep ps s = (e, s') \<Longrightarrow> cancel_pending c s \<Longrightarrow> ex_abortedAt s' = None \<Longrightarrow> ex_now s' < c"
proof (induction ps arbitrary: startStep s)
  case Nil
  then show ?case by (simp add: cancel_pending_def)
next
  case (Cons p ps)
  obtain r s1 where e: "executePhase X workflow p options startStep s = (r, s1)" by fastforce
  have a: "ex_abortedAt s = None" using Cons.prems(2) by (simp add: cancel_pending_def)
  have f: "ex_abortedAt (push_phase r s1) = ex_abortedAt s1" "ex_now (push_phase r s1) = ex_now s1" by (simp_all add: push_phase_def)
  consider "ex_abortedAt s' = ex_abortedAt s1 \<and> ex_now s' = ex_now s1" | "run_phases X workflow options None ps (push_phase r s1) = (e, s')"
    using Cons.prems(1) e a f by (auto simp: signal_aborted_def Let_def set_status_def split: if_splits option.splits)
  then show ?case
  proof cases
    case 1
    with pending_phase [OF X Cons.prems(2) e] Cons.prems(3) show ?thesis by (simp add: cancel_pending_def)
  next
    case 2
    have "cancel_pending c (push_phase r s1)" if "ex_abortedAt s1 = None"
      using pending_phase [OF X Cons.prems(2) e that]
      by (auto simp: cancel_pending_def executor_isRunning_def push_phase_def split: option.splits)
    moreover have "ex_abortedAt s' \<noteq> None" if "ex_abortedAt s1 \<noteq> None"
      using 2 that f(1) by (cases ps) (auto simp: signal_aborted_def set_status_def)
    ultimately show ?thesis using Cons.IH [OF 2] Cons.prems(3) by blast
  qed
qed

end
