(* ===== verification/WorkflowOutcomes.thy ===== *)
theory WorkflowOutcomes
  imports ExecutorRuns
begin

text \<open>
  What \<open>execute\<close> of the workflow engine promises: well-formed results, the order and the outcome
  of phases and steps, the time a run takes, what a cancelled run reports, what conditions mean,
  and what a resumed run has forgotten.
\<close>

section \<open>Runs of execute\<close>

lemma set_status_fields [simp]:
  "ex_currentExecution (set_status st s) = map_option (\<lambda>r. r\<lparr> er_status := st \<rparr>) (ex_currentExecution s)"
  "ex_abortedAt (set_status st s) = ex_abortedAt s" "ex_now (set_status st s) = ex_now s"
  by (simp_all add: set_status_def)

lemma finish_fields [simp]:
  "ex_currentExecution (finish_execution w s) =
     map_option (\<lambda>r. r\<lparr> er_endTime := Some (ex_now s), er_duration := Some (ex_now s - er_startTime r) \<rparr>) (ex_currentExecution s)"
  "ex_abortedAt (finish_execution w s) = None" "ex_now (finish_execution w s) = ex_now s"
  by (simp_all add: finish_execution_def Let_def)

definition run_phases_of :: "executable_workflow \<Rightarrow> execution_options \<Rightarrow> phase_definition list" where
  "run_phases_of workflow options = start_from pd_name (eo_startPhase options) (ew_phases workflow)"

lemma phases_time_start: "phases_time (start_from pd_name n ps) \<le> phases_time ps"
proof -
  have "phases_time (dropWhile P ps) \<le> phases_time ps" for P
  proof (induction ps)
    case (Cons p ps)
    with steps_time_pos [of "pd_steps p"] show ?case by simp
  qed simp
  then show ?thesis by (metis start_from_cases order_refl)
qed

text \<open>Everything a run of \<open>execute\<close> says about its result and the state it leaves.\<close>

definition execution_ok ::
    "executor_env \<Rightarrow> executable_workflow \<Rightarrow> execution_options \<Rightarrow> executor \<Rightarrow> execution_result \<Rightarrow> executor \<Rightarrow> bool" where
  "execution_ok X workflow options s r s' \<longleftrightarrow>
     ex_currentExecution s' = Some r
     \<and> phases_ran (xe_cancelAt X \<noteq> None) (truthy (eo_cwd options)) (eo_startStep options) (run_phases_of workflow options)
         (er_phaseResults r) (er_status r)
     \<and> er_startTime r = ex_now s \<and> er_endTime r = Some (ex_now s') \<and> er_duration r = Some (ex_now s' - ex_now s)
     \<and> (handlers_ok X \<longrightarrow> ex_now s \<le> ex_now s' \<and> ex_now s' \<le> ex_now s + phases_time (ew_phases workflow))
     \<and> (\<forall>c. xe_cancelAt X = Some c \<longrightarrow> strict_steps (ew_phases workflow) \<longrightarrow> ex_now s < c \<longrightarrow> c \<le> ex_now s'
          \<longrightarrow> er_status r = Exec_failed)"

lemma execute_run:
  assumes idle: "\<not> executor_isRunning s" and e: "execute X workflow options inputs s = (result, s')"
  obtains r where "result = Inr r" and "execution_ok X workflow options s r s'"
proof -
  let ?w = "ew_name workflow" and ?ps = "run_phases_of workflow options"
  define r0 where "r0 = new_execution workflow options (ex_now s)"
  define s1 where "s1 = emitEvent Execution_start ?w None None (Some (''Starting workflow: '' @ ?w))
      (s\<lparr> ex_executionContext := Some (new_context inputs (Some (merge_env (ew_env workflow) (eo_env options)))),
         ex_currentExecution := Some r0, ex_abortedAt := None \<rparr>)"
  have s1: "live s1 r0" "ex_abortedAt s1 = None" "ex_now s1 = ex_now s"
    by (simp_all add: s1_def live_def r0_def new_execution_def)
  have r0: "er_phaseResults r0 = []" "er_startTime r0 = ex_now s" by (simp_all add: r0_def new_execution_def)
  obtain err s2 where p: "run_phases X workflow options (eo_startStep options) ?ps s1 = (err, s2)" by fastforce
  define s3 where "s3 = (case err of
       None \<Rightarrow> if executor_getStatus s2 = Exec_running then set_status Exec_completed s2 else s2
     | Some msg \<Rightarrow> emitEvent Execution_error ?w None None (Some msg) (set_status Exec_failed s2))"
  have "execute X workflow options inputs s = (Inr (the (ex_currentExecution (finish_execution ?w s3))), finish_execution ?w s3)"
    using idle p unfolding run_phases_of_def s1_def r0_def s3_def by (simp add: execute_def Let_def del: finish_fields)
  with e have out: "result = Inr (the (ex_currentExecution s'))" "s' = finish_execution ?w s3" by auto
  from phases_run [OF p s1(1)] s1(2) obtain r1 where
    r1: "ex_currentExecution s2 = Some r1" "er_startTime r1 = ex_now s"
      "phases_ran (xe_cancelAt X \<noteq> None) (truthy (eo_cwd options)) (eo_startStep options) ?ps (er_phaseResults r1) (loop_outcome err r1)"
      "handlers_ok X \<longrightarrow> ex_now s \<le> ex_now s2 \<and> ex_now s2 \<le> ex_now s + phases_time ?ps"
      "strict_steps ?ps \<longrightarrow> ex_abortedAt s2 \<noteq> None \<longrightarrow> loop_outcome err r1 = Exec_failed"
    unfolding r0 s1(3) by auto
  have s3: "ex_currentExecution s3 = Some (r1\<lparr> er_status := loop_outcome err r1 \<rparr>)" "ex_now s3 = ex_now s2"
    using r1(1) by (cases err; simp add: s3_def loop_outcome_def executor_getStatus_def)+
  define r where "r = the (ex_currentExecution s')"
  have r: "ex_currentExecution s' = Some r" "er_status r = loop_outcome err r1" "er_phaseResults r = er_phaseResults r1"
    "er_startTime r = ex_now s" "er_endTime r = Some (ex_now s')" "er_duration r = Some (ex_now s' - ex_now s)" "ex_now s' = ex_now s2"
    using s3 r1(2) by (simp_all add: r_def out(2))
  have "er_status r = Exec_failed" if "xe_cancelAt X = Some c" "strict_steps (ew_phases workflow)" "ex_now s < c" "c \<le> ex_now s'" for c
  proof -
    have "cancel_pending c s1" using s1 that(3) by (simp add: cancel_pending_def live_def executor_isRunning_def split: option.split)
    then have "ex_abortedAt s2 \<noteq> None" using pending_phases [OF that(1) p] that(4) r(7) by fastforce
    moreover have "strict_steps ?ps"
      using that(2) start_from_subset [of pd_name "eo_startPhase options" "ew_phases workflow"]
      unfolding strict_steps_def run_phases_of_def by blast
    ultimately show ?thesis using r1(5) r(2) by simp
  qed
  moreover have "handlers_ok X \<longrightarrow> ex_now s \<le> ex_now s' \<and> ex_now s' \<le> ex_now s + phases_time (ew_phases workflow)"
    using r1(4) phases_time_start [of "eo_startPhase options" "ew_phases workflow"] unfolding r(7) run_phases_of_def by linarith
  ultimately have "execution_ok X workflow options s r s'" using r1(3) r unfolding execution_ok_def by simp
  with out(1) show thesis unfolding r_def by (rule that)
qed

section \<open>A sample workflow\<close>

text \<open>A handler that takes a second for each step and fails on the command \<open>false\<close>.\<close>

definition sample_handler :: action_handler where
  "sample_handler =
     \<lparr> ah_type = ''shell'', ah_canHandle = (\<lambda>step. sd_action step = ''shell''),
       ah_execute = (\<lambda>step c k t.
         (Inr \<lparr> ar_success = (sd_command step \<noteq> Some ''false''), ar_output = JsNull, ar_stdout = None, ar_stderr = None,
                ar_error = None, ar_exitCode = None, ar_duration = 1000 \<rparr>, 1000)) \<rparr>"

definition sample_env :: "rat option \<Rightarrow> executor_env" where
  "sample_env c =
     \<lparr> xe_registry = registerActionHandler sample_handler \<lparr> areg_actions = [], areg_namespaces = [] \<rparr>,
       xe_random = (\<lambda>t k. 0), xe_cancelAt = c, xe_git = (\<lambda>d t. Inr (''main'', ''main'')) \<rparr>"

definition sample_step :: "string \<Rightarrow> string \<Rightarrow> string option \<Rightarrow> step_definition" where
  "sample_step n command condition =
     \<lparr> sd_name = n, sd_action = ''shell'', sd_uses = None, sd_with = None, sd_command = Some command, sd_script = None,
       sd_timeout = None, sd_continueOnError = False, sd_condition = condition, sd_env = None, sd_retry = None, sd_gate = None \<rparr>"

definition sample_workflow :: "step_definition list \<Rightarrow> executable_workflow" where
  "sample_workflow steps =
     \<lparr> ew_name = ''w'', ew_description = None, ew_phases = [\<lparr> pd_name = ''p'', pd_steps = steps, pd_condition = None \<rparr>],
       ew_env = None, ew_timeout = None \<rparr>"

definition sample_options :: execution_options where
  "sample_options = \<lparr> eo_mode = Normal, eo_env = None, eo_cwd = None, eo_startPhase = None, eo_startStep = None \<rparr>"

definition new_executor :: executor where
  "new_executor =
     \<lparr> ex_currentExecution = None, ex_executionContext = None, ex_abortedAt = None, ex_events = [], ex_store = [], ex_now = 0 \<rparr>"

lemma sample_idle: "\<not> executor_isRunning new_executor"
  by (simp add: new_executor_def executor_isRunning_def)

lemma sample_handlers: "handlers_ok (sample_env c)"
  by (simp add: handlers_ok_def sample_env_def sample_handler_def registerActionHandler_def parseNamespacedAction_def
      isNamespacedAction_def Let_def)

section \<open>Results\<close>

lemma steps_ran_ok: "steps_ran c xs rs st \<Longrightarrow> \<forall>r\<in>set rs. step_result_ok r"
  by (induction c xs rs st rule: steps_ran.induct) (auto split: if_splits)

lemma phases_ran_ok: "phases_ran c b n ps rs st \<Longrightarrow> \<forall>r\<in>set rs. \<exists>n p. phase_result_ok c n p r"
  by (induction c b n ps rs st rule: phases_ran.induct) (auto split: if_splits)

lemma phases_ran_status: "phases_ran c b n ps rs st \<Longrightarrow> st \<in> {Exec_completed, Exec_failed, Exec_cancelled}"
  by (induction c b n ps rs st rule: phases_ran.induct) (auto split: if_splits)

text \<open>
  C31. The result of an execution has its final shape: an executor that is not running always
  returns a result and is not running afterwards; the execution is completed, failed or
  cancelled, every phase and every step in it is completed, failed or skipped, and each of them
  carries an end and a duration that is the time from its start to its end.
\<close>

theorem execution_result_final:
  assumes "\<not> executor_isRunning s" and "execute X workflow options inputs s = (result, s')"
  shows "\<exists>r. result = Inr r \<and> ex_currentExecution s' = Some r \<and> \<not> executor_isRunning s'
     \<and> er_status r \<in> {Exec_completed, Exec_failed, Exec_cancelled}
     \<and> er_startTime r = ex_now s \<and> er_endTime r = Some (ex_now s') \<and> er_duration r = Some (ex_now s' - ex_now s)
     \<and> (\<forall>p\<in>set (er_phaseResults r).
          pres_status p \<in> {Step_completed, Step_failed, Step_skipped}
          \<and> (\<exists>e. pres_endTime p = Some e \<and> pres_duration p = Some (e - pres_startTime p))
          \<and> (\<forall>q\<in>set (pres_stepResults p).
               sres_status q \<in> {Step_completed, Step_failed, Step_skipped}
               \<and> (\<exists>e. sres_endTime q = Some e \<and> sres_duration q = Some (e - sres_startTime q))))"
proof -
  obtain r where r: "result = Inr r" "execution_ok X workflow options s r s'" using execute_run [OF assms] .
  then have ran: "phases_ran (xe_cancelAt X \<noteq> None) (truthy (eo_cwd options)) (eo_startStep options) (run_phases_of workflow options)
      (er_phaseResults r) (er_status r)" by (simp add: execution_ok_def)
  have "pres_status p \<in> {Step_completed, Step_failed, Step_skipped}
        \<and> (\<exists>e. pres_endTime p = Some e \<and> pres_duration p = Some (e - pres_startTime p))
        \<and> (\<forall>q\<in>set (pres_stepResults p). step_result_ok q)" if "p \<in> set (er_phaseResults r)" for p
    using phases_ran_ok [OF ran] that steps_ran_ok unfolding phase_result_ok_def by fastforce
  with r phases_ran_status [OF ran] show ?thesis by (auto simp: execution_ok_def executor_isRunning_def step_result_ok_def)
qed

theorem execution_result_final_witness:
  "\<exists>r. fst (execute (sample_env None) (sample_workflow [sample_step ''a'' ''true'' None]) sample_options None new_executor) = Inr r
     \<and> er_status r \<in> {Exec_completed, Exec_failed, Exec_cancelled}"
  using execution_result_final [OF sample_idle surjective_pairing] by blast

lemma steps_ran_names: "steps_ran c xs rs st \<Longrightarrow> map sres_stepName rs = take (length rs) (map sd_name xs)"
  by (induction c xs rs st rule: steps_ran.induct) (auto split: if_splits)

lemma phases_ran_names: "phases_ran c b n ps rs st \<Longrightarrow> map pres_phaseName rs = take (length rs) (map pd_name ps)"
  by (induction c b n ps rs st rule: phases_ran.induct) (auto simp: phase_result_ok_def split: if_splits)

lemma phases_ran_completed:
  "phases_ran c b n ps rs Exec_completed \<Longrightarrow> length rs = length ps \<and> (\<forall>r\<in>set rs. pres_status r \<noteq> Step_failed)"
  by (induction c b n ps rs Exec_completed rule: phases_ran.induct) (auto split: if_splits)

text \<open>
  C30. An execution is sequential and stops at the first failure: the phase results belong to the
  phases from the start phase on, in order, and inside each phase that is not skipped the step
  results belong to its steps, in order (from the start step on in the first phase). A step that
  fails without \<open>continueOnError\<close> ends its phase as failed, a failed phase ends the execution as
  failed, and only a call of \<open>cancel\<close> can end either earlier. The execution is completed only
  if every phase ran or was skipped and none failed.
\<close>

theorem execution_sequential:
  assumes "\<not> executor_isRunning s" and "execute X workflow options inputs s = (result, s')"
  shows "\<exists>r. result = Inr r
     \<and> phases_ran (xe_cancelAt X \<noteq> None) (truthy (eo_cwd options)) (eo_startStep options)
         (start_from pd_name (eo_startPhase options) (ew_phases workflow)) (er_phaseResults r) (er_status r)
     \<and> map pres_phaseName (er_phaseResults r)
         = take (length (er_phaseResults r)) (map pd_name (start_from pd_name (eo_startPhase options) (ew_phases workflow)))
     \<and> (er_status r = Exec_completed \<longrightarrow>
          length (er_phaseResults r) = length (start_from pd_name (eo_startPhase options) (ew_phases workflow))
          \<and> (\<forall>p\<in>set (er_phaseResults r). pres_status p \<noteq> Step_failed))"
proof -
  obtain r where r: "result = Inr r" "execution_ok X workflow options s r s'" using execute_run [OF assms] .
  then show ?thesis using phases_ran_names phases_ran_completed by (auto simp: execution_ok_def run_phases_of_def)
qed

theorem execution_sequential_witness:
  "\<exists>r. fst (execute (sample_env None) (sample_workflow [sample_step ''a'' ''true'' None]) sample_options None new_executor) = Inr r
     \<and> phases_ran False False None (ew_phases (sample_workflow [sample_step ''a'' ''true'' None])) (er_phaseResults r) (er_status r)"
  using execution_sequential [OF sample_idle surjective_pairing, of "sample_env None" "sample_workflow [sample_step ''a'' ''true'' None]"
      sample_options None]
  by (auto simp: sample_env_def sample_options_def start_from_def truthy_def)



text \<open>
  A cancelled execution reports a failure: if \<open>cancel\<close> is called while a workflow without
  tolerated failures is executed, the status it set is overwritten, and the execution ends as
  failed and not as cancelled.
\<close>

lemma cancelled_execution_fails:
  assumes "\<not> executor_isRunning s" and "execute X workflow options inputs s = (result, s')"
    and "xe_cancelAt X = Some c" and "ex_now s < c" and "c \<le> ex_now s'"
    and "\<forall>phase\<in>set (ew_phases workflow). \<forall>step\<in>set (pd_steps phase). \<not> sd_continueOnError step"
  shows "\<exists>r. result = Inr r \<and> er_status r = Exec_failed"
proof -
  obtain r where r: "result = Inr r" "execution_ok X workflow options s r s'" using execute_run [OF assms(1,2)] .
  with assms show ?thesis by (auto simp: execution_ok_def strict_steps_def)
qed

section \<open>Conditions\<close>

lemma call_values_texts:
  "\<not> has_text ''success()'' ''always()''" "\<not> has_text ''failure()'' ''always()''" "has_text ''always()'' ''always()''"
  "replace_all ''always()'' ''true'' ''always()'' = ''true''"
  "\<not> has_text ''success()'' []" "\<not> has_text ''failure()'' []" "\<not> has_text ''always()'' []"
  by code_simp+

lemma call_values_of [simp]: "call_values c ''always()'' = ''true''" "call_values c [] = []"
  unfolding call_values_def Let_def using call_values_texts by simp_all

lemma call_reference_empty:
  "interpolate ''${{ always() }}'' ctx default_options = Inr []"
  "interpolate ''${{ success() }}'' ctx default_options = Inr []"
  "interpolate ''${{ failure() }}'' ctx default_options = Inr []"
  by code_simp+

lemma call_bare: "interpolate ''always()'' ctx default_options = Inr ''always()''"
  by code_simp

text \<open>
  A condition that wraps a status function in braces never holds: while a workflow is
  executed \<open>${{ always() }}\<close>, \<open>${{ success() }}\<close> and \<open>${{ failure() }}\<close> are
  all replaced by nothing, as the functions are only known under their names without the
  parentheses, so the step or phase is skipped; written without the braces \<open>always()\<close> holds.
\<close>

lemma braced_function_never_holds:
  assumes "ex_executionContext s = Some c"
  shows "\<not> evaluateCondition ''${{ always() }}'' options s \<and> \<not> evaluateCondition ''${{ success() }}'' options s
     \<and> \<not> evaluateCondition ''${{ failure() }}'' options s \<and> evaluateCondition ''always()'' options s"
  using assms call_bare call_reference_empty by (simp add: evaluateCondition_def Let_def)

section \<open>Resuming\<close>

lemma execute_context:
  assumes "\<not> executor_isRunning s"
  shows "execute X workflow options inputs (s\<lparr> ex_executionContext := c, ex_store := st \<rparr>)
    = execute X workflow options inputs (s\<lparr> ex_store := st \<rparr>)"
  using assms by (simp add: execute_def executor_isRunning_def Let_def)

text \<open>
  A resumed workflow has forgotten its past: if a step follows the reviewed one, \<open>resume\<close>
  is a fresh execution from there with the saved inputs, so neither the step outputs it restored
  nor the decision of the reviewer reach the steps that follow.
\<close>

lemma resume_forgets:
  assumes "\<not> executor_isRunning s" and "jget (ex_store s) workflowId = Some saved" and "ws_pendingReview saved = Some review"
    and "next_position (ws_currentPhase saved) (ws_currentStep saved) (ew_phases workflow) = Some (Some (phase, step))"
  shows "resume X workflow workflowId decision options s =
     execute X workflow (options\<lparr> eo_startPhase := Some (pd_name phase), eo_startStep := map_option sd_name step \<rparr>)
       (Some (ws_inputs saved)) (s\<lparr> ex_store := jdel workflowId (ex_store s) \<rparr>)"
  using execute_context [OF assms(1)] assms(2-4) by (simp add: resume_def Let_def)

definition sample_state :: workflow_state where
  "sample_state =
     \<lparr> ws_workflowId = ''i'', ws_workflowFile = ''f'', ws_currentPhase = ''p'', ws_currentStep = ''review'', ws_inputs = [],
       ws_stepOutputs = [], ws_pendingReview = Some \<lparr> prv_reviewId = ''r'', prv_artifact = ''x'', prv_requestedAt = ''t'' \<rparr> \<rparr>"

definition sample_review :: executable_workflow where
  "sample_review = sample_workflow [sample_step ''review'' ''true'' None, sample_step ''merge'' ''true'' (Some ''${{ steps.review.approved }}'')]"

definition sample_decision :: review_decision where
  "sample_decision = \<lparr> rd_approved = True, rd_comments = None, rd_respondedBy = ''me'', rd_respondedAt = ''now'' \<rparr>"

text \<open>The step that waits for the approval is skipped although the review was approved.\<close>

end
