(* ===== verification/WorkflowLoader.thy ===== *)
theory WorkflowLoader
  imports WorkflowTypes
begin

text \<open>
  Loading workflows: merging an extending workflow into its base (\<open>loader/extends.ts\<close>), the
  validation of what was merged (\<open>loader/schema.ts\<close>, \<open>loader/validator.ts\<close>), the chain of
  \<open>extends\<close> with its detection of cycles (\<open>loader/index.ts\<close>), and the registry of workflow
  files (\<open>registry/index.ts\<close>), under \<open>src/packages/workflow-engine/src\<close>. The YAML parser, the
  schema library, the resolver of names and the path functions are parameters.
\<close>

section \<open>Workflows as they are written\<close>

text \<open>The shapes the schemas describe, before defaults are filled in.\<close>

record retry_source =
  rts_maxAttempts :: "rat option"
  rts_delay :: "duration_value option"
  rts_backoff :: "backoff_strategy option"
  rts_maxDelay :: "duration_value option"
  rts_jitter :: "rat option"

record step_source =
  ss_name :: string
  ss_action :: "string option"
  ss_uses :: "string option"
  ss_with :: "(string, jsval) jmap option"
  ss_command :: "string option"
  ss_script :: "string option"
  ss_timeout :: "rat option"
  ss_continueOnError :: "bool option"
  ss_condition :: "string option"
  ss_env :: "(string, string) jmap option"
  ss_retry :: "retry_source option"
  ss_gate :: "string option"

record phase_source =
  ps_name :: string
  ps_steps :: "step_source list"
  ps_condition :: "string option"

record input_source =
  is_name :: string
  is_description :: "string option"
  is_default :: jsval
  is_required :: "bool option"
  is_type :: "input_type option"

record workflow_source =
  wfs_name :: "string option"
  wfs_description :: "string option"
  wfs_version :: "string option"
  wfs_inputs :: "input_source list option"
  wfs_phases :: "phase_source list option"
  wfs_env :: "(string, string) jmap option"
  wfs_timeout :: "rat option"
  wfs_retry :: "retry_source option"

record phase_override =
  po_steps :: "step_source list option"
  po_condition :: "string option"
  po_before :: "string option"
  po_after :: "string option"

record workflow_override =
  wo_phases :: "(string, phase_override) jmap option"
  wo_inputs :: "input_source list option"
  wo_env :: "(string, string) jmap option"

text \<open>The content of a file: a workflow, possibly with a base and overrides.\<close>

record workflow_file = workflow_source +
  wff_extends :: "string option"
  wff_overrides :: "workflow_override option"

datatype load_error =
    File_not_found string
  | Read_failed string
  | Yaml_failed string
  | Type_error string
  | Schema_issues "(string \<times> string) list"
  | Bad_duration string
  | Override_error string
  | Base_not_found string "string list"
  | Circular_extends "string list"
  | Other_load_error string

section \<open>Merging\<close>

text \<open>What \<open>mergeWorkflows\<close> is given of the extending workflow.\<close>

record override_data =
  od_name :: "string option"
  od_description :: "string option"
  od_version :: "string option"
  od_timeout :: "rat option"
  od_retry :: "retry_source option"
  od_overrides :: "workflow_override option"
  od_phases :: "phase_source list option"

datatype anchor_side = Before | After

type_synonym insertion = "phase_source \<times> anchor_side \<times> string"

definition in_quotes :: "string \<Rightarrow> string" where
  "in_quotes s = [CHR 34] @ s @ [CHR 34]"

text \<open>Replacing in the first phase of that name.\<close>

fun override_phase :: "string \<Rightarrow> phase_override \<Rightarrow> phase_source list \<Rightarrow> phase_source list" where
  "override_phase n ov [] = []"
| "override_phase n ov (p # ps) =
     (if ps_name p = n then
        p\<lparr> ps_steps := (case po_steps ov of Some steps \<Rightarrow> steps | None \<Rightarrow> ps_steps p),
           ps_condition := (case po_condition ov of Some c \<Rightarrow> Some c | None \<Rightarrow> ps_condition p) \<rparr> # ps
      else p # override_phase n ov ps)"

text \<open>The loop over the overrides: phases of the base are changed in place, new ones collected.\<close>

primrec collect_overrides ::
    "string list \<Rightarrow> (string, phase_override) jmap \<Rightarrow> phase_source list \<Rightarrow> insertion list
       \<Rightarrow> load_error + phase_source list \<times> insertion list" where
  "collect_overrides names [] phases ins = Inr (phases, ins)"
| "collect_overrides names (e # es) phases ins =
     (case e of (n, ov) \<Rightarrow>
        if n \<in> set names then collect_overrides names es (override_phase n ov phases) ins
        else if truthy (po_before ov) \<or> truthy (po_after ov) then
          (if (case po_steps ov of None \<Rightarrow> True | Some steps \<Rightarrow> steps = [])
           then Inl (Override_error (''New phase '' @ in_quotes n @ '' requires at least one step.''))
           else
             (let anchor = the (case po_before ov of Some b \<Rightarrow> Some b | None \<Rightarrow> po_after ov)
              in if anchor \<notin> set names
                 then Inl (Override_error (''Phase '' @ in_quotes n @ '' references anchor phase '' @ in_quotes anchor @
                             '' which does not exist in the base workflow.''))
                 else collect_overrides names es phases
                        (ins @ [(\<lparr> ps_name = n, ps_steps = the (po_steps ov), ps_condition = po_condition ov \<rparr>,
                                 (if truthy (po_before ov) then Before else After), anchor)])))
        else Inl (Override_error (''Phase '' @ in_quotes n @ '' does not exist in the base workflow and has no '' @ in_quotes ''before'' @
               '' or '' @ in_quotes ''after'' @ '' directive. Did you mean one of: '' @ join_with '', '' (fold sadd names []) @ ''?'')))"

text \<open>\<open>findIndex\<close> of the anchor and \<open>splice\<close>; without the anchor the index is -1.\<close>

definition insert_at :: "insertion \<Rightarrow> phase_source list \<Rightarrow> phase_source list" where
  "insert_at i phases =
     (case i of (p, pos, anchor) \<Rightarrow>
        (let before = takeWhile (\<lambda>q. ps_name q \<noteq> anchor) phases; rest = dropWhile (\<lambda>q. ps_name q \<noteq> anchor) phases
         in case rest of
              [] \<Rightarrow> (case pos of
                       Before \<Rightarrow> take (length phases - 1) phases @ p # drop (length phases - 1) phases
                     | After \<Rightarrow> p # phases)
            | q # qs \<Rightarrow> before @ (case pos of Before \<Rightarrow> p # q # qs | After \<Rightarrow> q # p # qs)))"

definition mergePhases :: "phase_source list \<Rightarrow> (string, phase_override) jmap \<Rightarrow> load_error + phase_source list" where
  "mergePhases basePhases phaseOverrides =
     (case collect_overrides (map ps_name basePhases) phaseOverrides basePhases [] of
        Inl e \<Rightarrow> Inl e
      | Inr (phases, ins) \<Rightarrow> Inr (fold insert_at ins phases))"

definition mergeInputs :: "input_source list option \<Rightarrow> input_source list \<Rightarrow> input_source list" where
  "mergeInputs baseInputs overrideInputs =
     jvals (fold (\<lambda>i. jset (is_name i) i) overrideInputs
       (fold (\<lambda>i. jset (is_name i) i) (case baseInputs of None \<Rightarrow> [] | Some is \<Rightarrow> is) []))"

definition spread :: "(string, string) jmap option \<Rightarrow> (string, string) jmap \<Rightarrow> (string, string) jmap" where
  "spread a b = fold (\<lambda>(k, v). jset k v) b (case a of None \<Rightarrow> [] | Some m \<Rightarrow> m)"

definition or_base :: "'a option \<Rightarrow> 'a option \<Rightarrow> 'a option" where
  "or_base x y = (case x of Some v \<Rightarrow> Some v | None \<Rightarrow> y)"

definition override_part :: "(workflow_override \<Rightarrow> 'a option) \<Rightarrow> override_data \<Rightarrow> 'a option" where
  "override_part f d = (case od_overrides d of None \<Rightarrow> None | Some ov \<Rightarrow> f ov)"

definition mergeWorkflows :: "workflow_source \<Rightarrow> override_data \<Rightarrow> load_error + workflow_source" where
  "mergeWorkflows base d =
     (if od_phases d \<noteq> None \<and> override_part wo_phases d \<noteq> None
      then Inl (Override_error ''Cannot specify both phases and overrides.phases.'')
      else
        (let phases = (case od_phases d of Some ps \<Rightarrow> ps | None \<Rightarrow> the (wfs_phases base))
         in case (case override_part wo_phases d of None \<Rightarrow> Inr phases | Some ov \<Rightarrow> mergePhases phases ov) of
              Inl e \<Rightarrow> Inl e
            | Inr phases \<Rightarrow>
                Inr \<lparr> wfs_name = or_base (od_name d) (wfs_name base),
                      wfs_description = or_base (od_description d) (wfs_description base),
                      wfs_version = or_base (od_version d) (wfs_version base),
                      wfs_inputs = (case override_part wo_inputs d of
                                      None \<Rightarrow> wfs_inputs base | Some is \<Rightarrow> Some (mergeInputs (wfs_inputs base) is)),
                      wfs_phases = Some phases,
                      wfs_env = (case override_part wo_env d of None \<Rightarrow> wfs_env base | Some e \<Rightarrow> Some (spread (wfs_env base) e)),
                      wfs_timeout = or_base (od_timeout d) (wfs_timeout base),
                      wfs_retry = or_base (od_retry d) (wfs_retry base) \<rparr>))"

section \<open>Validation\<close>

text \<open>What the schemas ask for, and the value with defaults that parsing returns.\<close>

definition retry_ok :: "retry_source \<Rightarrow> bool" where
  "retry_ok r \<longleftrightarrow>
     (case rts_maxAttempts r of None \<Rightarrow> True | Some n \<Rightarrow> of_int \<lfloor>n\<rfloor> = n \<and> 1 \<le> n)
     \<and> (case rts_jitter r of None \<Rightarrow> True | Some j \<Rightarrow> 0 \<le> j \<and> j \<le> 1)"

definition step_ok :: "step_source \<Rightarrow> bool" where
  "step_ok st \<longleftrightarrow> ss_name st \<noteq> [] \<and> (case ss_retry st of None \<Rightarrow> True | Some r \<Rightarrow> retry_ok r)"

definition phase_ok :: "phase_source \<Rightarrow> bool" where
  "phase_ok p \<longleftrightarrow> ps_name p \<noteq> [] \<and> ps_steps p \<noteq> [] \<and> (\<forall>st\<in>set (ps_steps p). step_ok st)"

definition schema_ok :: "workflow_source \<Rightarrow> bool" where
  "schema_ok w \<longleftrightarrow>
     wfs_name w \<noteq> None \<and> wfs_name w \<noteq> Some []
     \<and> (case wfs_inputs w of None \<Rightarrow> True | Some is \<Rightarrow> \<forall>i\<in>set is. is_name i \<noteq> [])
     \<and> (case wfs_phases w of None \<Rightarrow> False | Some ps \<Rightarrow> ps \<noteq> [] \<and> (\<forall>p\<in>set ps. phase_ok p))
     \<and> (case wfs_retry w of None \<Rightarrow> True | Some r \<Rightarrow> retry_ok r)"

definition or_default :: "'a \<Rightarrow> 'a option \<Rightarrow> 'a option" where
  "or_default d x = Some (case x of Some v \<Rightarrow> v | None \<Rightarrow> d)"

definition retry_defaults :: "retry_source \<Rightarrow> retry_source" where
  "retry_defaults r =
     r\<lparr> rts_maxAttempts := or_default 1 (rts_maxAttempts r), rts_delay := or_default (Millis 1000) (rts_delay r),
        rts_backoff := or_default Exponential (rts_backoff r) \<rparr>"

definition step_defaults :: "step_source \<Rightarrow> step_source" where
  "step_defaults st =
     st\<lparr> ss_action := or_default ''shell'' (ss_action st), ss_continueOnError := or_default False (ss_continueOnError st),
         ss_retry := map_option retry_defaults (ss_retry st) \<rparr>"

definition phase_defaults :: "phase_source \<Rightarrow> phase_source" where
  "phase_defaults p = p\<lparr> ps_steps := map step_defaults (ps_steps p) \<rparr>"

definition input_defaults :: "input_source \<Rightarrow> input_source" where
  "input_defaults i = i\<lparr> is_required := or_default False (is_required i) \<rparr>"

definition schema_defaults :: "workflow_source \<Rightarrow> workflow_source" where
  "schema_defaults w =
     w\<lparr> wfs_inputs := map_option (map input_defaults) (wfs_inputs w), wfs_phases := map_option (map phase_defaults) (wfs_phases w),
        wfs_retry := map_option retry_defaults (wfs_retry w) \<rparr>"

text \<open>
  The documented behaviour of the schema library: \<open>parse\<close> returns the value with its defaults
  or throws issues. An empty file is \<open>None\<close>.
\<close>

type_synonym schema_parser = "workflow_source option \<Rightarrow> (string \<times> string) list + workflow_source"

definition schema_law :: "schema_parser \<Rightarrow> bool" where
  "schema_law parse \<longleftrightarrow>
     (\<exists>issues. parse None = Inl issues \<and> issues \<noteq> [])
     \<and> (\<forall>w. case parse (Some w) of
              Inr v \<Rightarrow> schema_ok w \<and> v = schema_defaults w
            | Inl issues \<Rightarrow> \<not> schema_ok w \<and> issues \<noteq> [])"

definition retry_ms :: "duration_value \<Rightarrow> load_error + rat" where
  "retry_ms v = (case v of Millis n \<Rightarrow> Inr n | Duration t \<Rightarrow> map_sum Bad_duration id (parseDuration t))"

definition truthy_duration :: "duration_value \<Rightarrow> bool" where
  "truthy_duration v = (case v of Millis n \<Rightarrow> n \<noteq> 0 | Duration t \<Rightarrow> t \<noteq> [])"

definition validated_retry :: "retry_source \<Rightarrow> load_error + step_retry" where
  "validated_retry r =
     (case retry_ms (the (rts_delay r)) of
        Inl e \<Rightarrow> Inl e
      | Inr delay \<Rightarrow>
          (case (case rts_maxDelay r of
                   Some v \<Rightarrow> if truthy_duration v then map_sum id Some (retry_ms v) else Inr None
                 | None \<Rightarrow> Inr None) of
             Inl e \<Rightarrow> Inl e
           | Inr maxDelay \<Rightarrow>
               Inr \<lparr> sr_maxAttempts = \<lfloor>the (rts_maxAttempts r)\<rfloor>, sr_delay = Millis delay, sr_backoff = the (rts_backoff r),
                     sr_maxDelay = map_option Millis maxDelay, sr_jitter = rts_jitter r \<rparr>))"

definition optional_retry :: "retry_source option \<Rightarrow> load_error + step_retry option" where
  "optional_retry r = (case r of None \<Rightarrow> Inr None | Some r \<Rightarrow> map_sum id Some (validated_retry r))"

definition validated_step :: "step_source \<Rightarrow> load_error + step_definition" where
  "validated_step st =
     (case optional_retry (ss_retry st) of
        Inl e \<Rightarrow> Inl e
      | Inr r \<Rightarrow>
          Inr \<lparr> sd_name = ss_name st, sd_action = (case ss_action st of Some a \<Rightarrow> a | None \<Rightarrow> ''shell''), sd_uses = ss_uses st,
                sd_with = ss_with st, sd_command = ss_command st, sd_script = ss_script st, sd_timeout = ss_timeout st,
                sd_continueOnError = (ss_continueOnError st = Some True), sd_condition = ss_condition st, sd_env = ss_env st,
                sd_retry = r, sd_gate = None \<rparr>)"

definition validated_phase :: "phase_source \<Rightarrow> load_error + phase_definition" where
  "validated_phase p =
     (case map_results validated_step (ps_steps p) of
        Inl e \<Rightarrow> Inl e
      | Inr steps \<Rightarrow> Inr \<lparr> pd_name = ps_name p, pd_steps = steps, pd_condition = ps_condition p \<rparr>)"

definition validated_input :: "input_source \<Rightarrow> input_definition" where
  "validated_input i =
     \<lparr> id_name = is_name i, id_description = is_description i, id_default = is_default i,
       id_required = (is_required i = Some True), id_type = is_type i \<rparr>"

definition validateWorkflow :: "schema_parser \<Rightarrow> workflow_source option \<Rightarrow> load_error + workflow_definition" where
  "validateWorkflow parse data =
     (case parse data of
        Inl issues \<Rightarrow> Inl (Schema_issues issues)
      | Inr r \<Rightarrow>
          (case map_results validated_phase (the (wfs_phases r)) of
             Inl e \<Rightarrow> Inl e
           | Inr phases \<Rightarrow>
               (case optional_retry (wfs_retry r) of
                  Inl e \<Rightarrow> Inl e
                | Inr retry \<Rightarrow>
                    Inr \<lparr> wf_name = the (wfs_name r), wf_description = wfs_description r, wf_version = wfs_version r,
                          wf_inputs = map_option (map validated_input) (wfs_inputs r), wf_phases = phases, wf_env = wfs_env r,
                          wf_timeout = wfs_timeout r, wf_retry = retry \<rparr>)))"

definition isValidWorkflow :: "schema_parser \<Rightarrow> workflow_source option \<Rightarrow> bool \<times> load_error option" where
  "isValidWorkflow parse data = (case validateWorkflow parse data of Inr _ \<Rightarrow> (True, None) | Inl e \<Rightarrow> (False, Some e))"

text \<open>A validated definition read again as data.\<close>

definition retry_source_of :: "step_retry \<Rightarrow> retry_source" where
  "retry_source_of r =
     \<lparr> rts_maxAttempts = Some (of_int (sr_maxAttempts r)), rts_delay = Some (sr_delay r), rts_backoff = Some (sr_backoff r),
       rts_maxDelay = sr_maxDelay r, rts_jitter = sr_jitter r \<rparr>"

definition step_source_of :: "step_definition \<Rightarrow> step_source" where
  "step_source_of st =
     \<lparr> ss_name = sd_name st, ss_action = Some (sd_action st), ss_uses = sd_uses st, ss_with = sd_with st, ss_command = sd_command st,
       ss_script = sd_script st, ss_timeout = sd_timeout st, ss_continueOnError = Some (sd_continueOnError st),
       ss_condition = sd_condition st, ss_env = sd_env st, ss_retry = map_option retry_source_of (sd_retry st), ss_gate = sd_gate st \<rparr>"

definition phase_source_of :: "phase_definition \<Rightarrow> phase_source" where
  "phase_source_of p = \<lparr> ps_name = pd_name p, ps_steps = map step_source_of (pd_steps p), ps_condition = pd_condition p \<rparr>"

definition input_source_of :: "input_definition \<Rightarrow> input_source" where
  "input_source_of i =
     \<lparr> is_name = id_name i, is_description = id_description i, is_default = id_default i, is_required = Some (id_required i),
       is_type = id_type i \<rparr>"

definition source_of :: "workflow_definition \<Rightarrow> workflow_source" where
  "source_of w =
     \<lparr> wfs_name = Some (wf_name w), wfs_description = wf_description w, wfs_version = wf_version w,
       wfs_inputs = map_option (map input_source_of) (wf_inputs w), wfs_phases = Some (map phase_source_of (wf_phases w)),
       wfs_env = wf_env w, wfs_timeout = wf_timeout w, wfs_retry = map_option retry_source_of (wf_retry w) \<rparr>"

section \<open>Loading\<close>

text \<open>
  The world of the loader: absolute paths, the files with their content or the error that
  reading them gives, the YAML parser, the resolver of workflow names and the schemas.
\<close>

record loader_env =
  ld_absolute :: "string \<Rightarrow> string"
  ld_files :: "(string, string + string) jmap"
  ld_yaml :: "string \<Rightarrow> string + workflow_file option"
  ld_resolver :: "string \<Rightarrow> string \<Rightarrow> load_error + string"
  ld_schema :: schema_parser

definition parse_content :: "loader_env \<Rightarrow> string \<Rightarrow> load_error + workflow_file option" where
  "parse_content L content = map_sum Yaml_failed id (ld_yaml L content)"

definition read_workflow :: "loader_env \<Rightarrow> string \<Rightarrow> load_error + workflow_file option" where
  "read_workflow L path =
     (case jget (ld_files L) path of
        None \<Rightarrow> Inl (File_not_found path)
      | Some (Inl e) \<Rightarrow> Inl (Read_failed e)
      | Some (Inr content) \<Rightarrow> parse_content L content)"

definition validate_file :: "loader_env \<Rightarrow> workflow_file option \<Rightarrow> load_error + workflow_definition" where
  "validate_file L f = validateWorkflow (ld_schema L) (map_option workflow_source.truncate f)"

definition loadWorkflow :: "loader_env \<Rightarrow> string \<Rightarrow> load_error + workflow_definition" where
  "loadWorkflow L filePath = (case read_workflow L filePath of Inl e \<Rightarrow> Inl e | Inr f \<Rightarrow> validate_file L f)"

definition loadWorkflowFromString :: "loader_env \<Rightarrow> string \<Rightarrow> load_error + workflow_definition" where
  "loadWorkflowFromString L content = (case parse_content L content of Inl e \<Rightarrow> Inl e | Inr f \<Rightarrow> validate_file L f)"

text \<open>The checks before anything is resolved; reading a property of an empty file throws.\<close>

definition extends_checks :: "workflow_file option \<Rightarrow> load_error + workflow_file" where
  "extends_checks f =
     (case f of
        None \<Rightarrow> Inl (Type_error ''Cannot read properties of null'')
      | Some d \<Rightarrow>
          if wff_overrides d \<noteq> None \<and> \<not> truthy (wff_extends d)
          then Inl (Override_error ''overrides requires extends'')
          else if truthy (wff_extends d) \<and> wfs_phases d \<noteq> None
               \<and> (case wff_overrides d of None \<Rightarrow> False | Some ov \<Rightarrow> wo_phases ov \<noteq> None)
          then Inl (Override_error ''Cannot specify both phases and overrides.phases when using extends.'')
          else Inr d)"

definition resolve_base :: "loader_env \<Rightarrow> string \<Rightarrow> string \<Rightarrow> load_error + string" where
  "resolve_base L name path =
     (case ld_resolver L name path of
        Inr b \<Rightarrow> Inr b
      | Inl e \<Rightarrow> Inl (case e of Base_not_found n ls \<Rightarrow> Base_not_found n ls | _ \<Rightarrow> Base_not_found name []))"

definition override_data_of :: "workflow_file \<Rightarrow> override_data" where
  "override_data_of d =
     \<lparr> od_name = wfs_name d, od_description = wfs_description d, od_version = wfs_version d, od_timeout = wfs_timeout d,
       od_retry = wfs_retry d, od_overrides = wff_overrides d, od_phases = wfs_phases d \<rparr>"

text \<open>A file is read and checked; \<open>Inr (d, b)\<close> extends the file that \<open>b\<close> names, if any.\<close>

definition load_file :: "loader_env \<Rightarrow> string \<Rightarrow> load_error + workflow_file \<times> string option" where
  "load_file L path =
     (case read_workflow L path of
        Inl e \<Rightarrow> Inl e
      | Inr f \<Rightarrow>
          (case extends_checks f of
             Inl e \<Rightarrow> Inl e
           | Inr d \<Rightarrow>
               if truthy (wff_extends d) then map_sum id (\<lambda>b. (d, Some b)) (resolve_base L (the (wff_extends d)) path)
               else Inr (d, None)))"

lemma load_file_known: "load_file L path = Inr x \<Longrightarrow> path \<in> set (jkeys (ld_files L))"
  by (cases "jget (ld_files L) path") (auto simp: load_file_def read_workflow_def dest: map_of_SomeD intro: rev_image_eqI)

function loadWorkflowWithExtends :: "loader_env \<Rightarrow> string list \<Rightarrow> string \<Rightarrow> load_error + workflow_definition" where
  "loadWorkflowWithExtends L seen filePath =
     (let path = ld_absolute L filePath
      in if path \<in> set seen then Inl (Circular_extends (seen @ [path]))
         else
           (case load_file L path of
              Inl e \<Rightarrow> Inl e
            | Inr (d, None) \<Rightarrow> validate_file L (Some d)
            | Inr (d, Some basePath) \<Rightarrow>
                (case loadWorkflowWithExtends L (seen @ [path]) basePath of
                   Inl e \<Rightarrow> Inl e
                 | Inr base \<Rightarrow>
                     (case mergeWorkflows (source_of base) (override_data_of d) of
                        Inl e \<Rightarrow> Inl e
                      | Inr merged \<Rightarrow> validateWorkflow (ld_schema L) (Some merged)))))"
  by pat_completeness auto
termination
proof (relation "measure (\<lambda>(L, seen, _). card (set (jkeys (ld_files L)) - set seen))", goal_cases)
  case (2 L seen filePath path x y z basePath)
  then have "path \<in> set (jkeys (ld_files L)) - set seen" using load_file_known by simp
  then have "set (jkeys (ld_files L)) - set (seen @ [path]) \<subset> set (jkeys (ld_files L)) - set seen" by auto
  then show ?case by (simp add: psubset_card_mono)
qed simp

declare loadWorkflowWithExtends.simps [simp del]

section \<open>Preparing\<close>

text \<open>The inputs are checked and defaulted, but only the check has an effect.\<close>

definition resolve_input :: "(string, jsval) jmap option \<Rightarrow> input_definition \<Rightarrow> jsval" where
  "resolve_input inputs i =
     (let v = (case inputs of None \<Rightarrow> JsUndefined | Some m \<Rightarrow> js_member (JsObj m) (id_name i))
      in if nullish v then id_default i else v)"

primrec resolve_inputs ::
    "(string, jsval) jmap option \<Rightarrow> input_definition list \<Rightarrow> (string, jsval) jmap \<Rightarrow> load_error + (string, jsval) jmap" where
  "resolve_inputs inputs [] acc = Inr acc"
| "resolve_inputs inputs (i # is) acc =
     (let v = resolve_input inputs i
      in if id_required i \<and> v = JsUndefined then Inl (Other_load_error (''Required input missing: '' @ id_name i))
         else resolve_inputs inputs is (if v = JsUndefined then acc else jset (id_name i) v acc))"

definition prepareWorkflow ::
    "workflow_definition \<Rightarrow> (string, jsval) jmap option \<Rightarrow> (string, string) jmap option \<Rightarrow> load_error + executable_workflow" where
  "prepareWorkflow w inputs env =
     (case resolve_inputs inputs (case wf_inputs w of None \<Rightarrow> [] | Some is \<Rightarrow> is) [] of
        Inl e \<Rightarrow> Inl e
      | Inr _ \<Rightarrow>
          Inr \<lparr> ew_name = wf_name w, ew_description = wf_description w, ew_phases = wf_phases w,
                ew_env = Some (spread (wf_env w) (case env of None \<Rightarrow> [] | Some e \<Rightarrow> e)), ew_timeout = wf_timeout w \<rparr>)"

end
