(* ===== verification/WorkflowInheritance.thy ===== *)
theory WorkflowInheritance
  imports WorkflowLoader
begin

text \<open>
  What loading promises: a chain of \<open>extends\<close> is followed to its end or reported as the cycle it
  is, merged phases stand where their directives put them, a validated workflow validates again
  to itself, and what validation and preparation drop.
\<close>

section \<open>Chains of extends\<close>

text \<open>The file a file extends.\<close>

definition base_file :: "loader_env \<Rightarrow> string \<Rightarrow> string option" where
  "base_file L path = (case load_file L path of Inr (d, Some b) \<Rightarrow> Some (ld_absolute L b) | _ \<Rightarrow> None)"

fun extends_chain :: "loader_env \<Rightarrow> string list \<Rightarrow> bool" where
  "extends_chain L (p # q # ps) \<longleftrightarrow> base_file L p = Some q \<and> extends_chain L (q # ps)"
| "extends_chain L _ \<longleftrightarrow> True"

lemma map_sum_Inl_iff [simp]: "map_sum f g x = Inl y \<longleftrightarrow> (\<exists>e. x = Inl e \<and> y = f e)"
  by (cases x) auto

lemma map_sum_Inr_iff [simp]: "map_sum f g x = Inr y \<longleftrightarrow> (\<exists>e. x = Inr e \<and> y = g e)"
  by (cases x) auto

lemma validate_not_circular: "validateWorkflow parse data \<noteq> Inl (Circular_extends ps)"
proof
  have retry: "retry_ms v \<noteq> Inl (Circular_extends ps)" for v by (auto simp: retry_ms_def split: duration_value.splits sum.splits)
  have opt: "optional_retry r \<noteq> Inl (Circular_extends ps)" for r
    using retry by (auto simp: optional_retry_def validated_retry_def split: option.splits sum.splits if_splits)
  have steps: "map_results validated_step xs \<noteq> Inl (Circular_extends ps)" for xs
    using opt by (induction xs) (auto simp: validated_step_def split: sum.splits)
  have phases: "map_results validated_phase xs \<noteq> Inl (Circular_extends ps)" for xs
    using steps by (induction xs) (auto simp: validated_phase_def split: sum.splits)
  assume "validateWorkflow parse data = Inl (Circular_extends ps)"
  then show False using phases opt by (auto simp: validateWorkflow_def split: sum.splits)
qed

lemma merge_not_circular: "mergeWorkflows base d \<noteq> Inl (Circular_extends ps)"
proof -
  have "collect_overrides names es phases ins \<noteq> Inl (Circular_extends ps)" for names es phases ins
    by (induction es arbitrary: phases ins) (auto simp: Let_def split: if_splits option.splits)
  then show ?thesis by (auto simp: mergeWorkflows_def mergePhases_def Let_def split: option.splits sum.splits)
qed

lemma load_file_not_circular: "load_file L path \<noteq> Inl (Circular_extends ps)"
  by (auto simp: load_file_def read_workflow_def parse_content_def extends_checks_def resolve_base_def map_sum.simps
      split: option.splits sum.splits if_splits load_error.splits)

lemma load_circular_iff:
  "distinct seen \<Longrightarrow>
   loadWorkflowWithExtends L seen filePath = Inl (Circular_extends chain) \<longleftrightarrow>
     (\<exists>rest. chain = seen @ rest \<and> rest \<noteq> [] \<and> hd rest = ld_absolute L filePath \<and> extends_chain L rest
        \<and> distinct (seen @ butlast rest) \<and> last rest \<in> set (seen @ butlast rest))"
proof (induction L seen filePath rule: loadWorkflowWithExtends.induct)
  case (1 L seen filePath)
  let ?path = "ld_absolute L filePath"
  let ?is = "\<lambda>seen path rest. rest \<noteq> [] \<and> hd rest = path \<and> extends_chain L rest
        \<and> distinct (seen @ butlast rest) \<and> last rest \<in> set (seen @ butlast rest)"
  show ?case
  proof (cases "?path \<in> set seen")
    case True
    then have "?is seen ?path rest \<longleftrightarrow> rest = [?path]" for rest using 1(2) by (cases rest) auto
    with True show ?thesis by (auto simp: loadWorkflowWithExtends.simps [of L seen filePath] Let_def)
  next
    case False
    show ?thesis
    proof (cases "base_file L ?path")
      case None
      have "\<not> ?is seen ?path rest" for rest
        using False None by (cases rest; cases "tl rest") auto
      moreover have "loadWorkflowWithExtends L seen filePath \<noteq> Inl (Circular_extends chain)"
        using False None load_file_not_circular validate_not_circular
        by (auto simp: loadWorkflowWithExtends.simps [of L seen filePath] Let_def base_file_def validate_file_def
            split: sum.splits option.splits)
      ultimately show ?thesis by blast
    next
      case (Some q)
      then obtain d b where b: "load_file L ?path = Inr (d, Some b)" "ld_absolute L b = q"
        by (auto simp: base_file_def split: sum.splits option.splits)
      have "loadWorkflowWithExtends L seen filePath = Inl (Circular_extends chain)
          \<longleftrightarrow> loadWorkflowWithExtends L (seen @ [?path]) b = Inl (Circular_extends chain)"
        using False b merge_not_circular validate_not_circular
        by (auto simp: loadWorkflowWithExtends.simps [of L seen filePath] Let_def split: sum.splits)
      also have "\<dots> \<longleftrightarrow> (\<exists>rest. chain = (seen @ [?path]) @ rest \<and> ?is (seen @ [?path]) q rest)"
        using 1(1) [OF refl False b(1) refl refl] 1(2) False b(2) by simp
      also have "\<dots> \<longleftrightarrow> (\<exists>rest. chain = seen @ rest \<and> ?is seen ?path rest)"
      proof
        assume "\<exists>rest. chain = (seen @ [?path]) @ rest \<and> ?is (seen @ [?path]) q rest"
        then obtain rest where "chain = (seen @ [?path]) @ rest" "?is (seen @ [?path]) q rest" by blast
        then show "\<exists>rest. chain = seen @ rest \<and> ?is seen ?path rest" using Some
          by (intro exI [of _ "?path # rest"]) (cases rest; auto)
      next
        assume "\<exists>rest. chain = seen @ rest \<and> ?is seen ?path rest"
        then obtain rest where r: "chain = seen @ rest" "?is seen ?path rest" by blast
        then obtain q' rest' where "rest = ?path # q' # rest'" using False by (cases rest; cases "tl rest") auto
        with r Some show "\<exists>rest. chain = (seen @ [?path]) @ rest \<and> ?is (seen @ [?path]) q rest"
          by (intro exI [of _ "q' # rest'"]) auto
      qed
      finally show ?thesis .
    qed
  qed
qed

text \<open>
  C26. Loading follows \<open>extends\<close> to its end and reports exactly the cycles: loading always
  returns, and it returns a circularity error just if the files reached from the first by
  \<open>extends\<close> come back to one of them; the error then lists the files in the order they extend each
  other, each once, and at the end the file that closes the cycle.
\<close>

theorem circular_extends_detected:
  "loadWorkflowWithExtends L [] filePath = Inl (Circular_extends chain) \<longleftrightarrow>
     chain \<noteq> [] \<and> hd chain = ld_absolute L filePath \<and> extends_chain L chain
     \<and> distinct (butlast chain) \<and> last chain \<in> set (butlast chain)"
  using load_circular_iff [of "[]" L filePath chain] by simp

section \<open>Merged phases\<close>

definition apply_override :: "phase_override \<Rightarrow> phase_source \<Rightarrow> phase_source" where
  "apply_override ov p =
     p\<lparr> ps_steps := (case po_steps ov of Some steps \<Rightarrow> steps | None \<Rightarrow> ps_steps p),
        ps_condition := (case po_condition ov of Some c \<Rightarrow> Some c | None \<Rightarrow> ps_condition p) \<rparr>"

definition overridden :: "(string, phase_override) jmap \<Rightarrow> phase_source \<Rightarrow> phase_source" where
  "overridden es p = (case jget es (ps_name p) of None \<Rightarrow> p | Some ov \<Rightarrow> apply_override ov p)"

definition anchor_of :: "phase_override \<Rightarrow> string" where
  "anchor_of ov = the (case po_before ov of Some b \<Rightarrow> Some b | None \<Rightarrow> po_after ov)"

definition insertion_of :: "string \<times> phase_override \<Rightarrow> insertion" where
  "insertion_of e =
     (\<lparr> ps_name = fst e, ps_steps = the (po_steps (snd e)), ps_condition = po_condition (snd e) \<rparr>,
      (if truthy (po_before (snd e)) then Before else After), anchor_of (snd e))"

text \<open>An override is accepted if it names a phase of the base, or is a phase with steps and an anchor there.\<close>

definition accepted :: "string list \<Rightarrow> string \<times> phase_override \<Rightarrow> bool" where
  "accepted names e \<longleftrightarrow>
     fst e \<in> set names
     \<or> (truthy (po_before (snd e)) \<or> truthy (po_after (snd e))) \<and> po_steps (snd e) \<noteq> None \<and> po_steps (snd e) \<noteq> Some []
       \<and> anchor_of (snd e) \<in> set names"

text \<open>The new phases that go right before and right after a phase of the base, in the order of the file.\<close>

definition new_phases :: "anchor_side \<Rightarrow> string list \<Rightarrow> (string, phase_override) jmap \<Rightarrow> string \<Rightarrow> phase_source list" where
  "new_phases pos names es a =
     map (\<lambda>e. fst (insertion_of e)) (filter (\<lambda>e. fst e \<notin> set names \<and> snd (insertion_of e) = (pos, a)) es)"

lemma override_phase_map:
  "distinct (map ps_name phases) \<Longrightarrow>
   override_phase n ov phases = map (\<lambda>p. if ps_name p = n then apply_override ov p else p) phases"
proof (induction phases)
  case (Cons p ps)
  have "map (\<lambda>q. if ps_name q = ps_name p then apply_override ov q else q) ps = ps"
  proof (rule map_idI)
    fix q assume "q \<in> set ps"
    then have "ps_name q \<in> set (map ps_name ps)" by simp
    moreover have "ps_name p \<notin> set (map ps_name ps)" using Cons.prems by simp
    ultimately show "(if ps_name q = ps_name p then apply_override ov q else q) = q" by metis
  qed
  with Cons show ?case by (auto simp: apply_override_def)
qed simp

lemma apply_override_name [simp]: "ps_name (apply_override ov p) = ps_name p"
  by (simp add: apply_override_def)

lemma overridden_name [simp]: "ps_name (overridden es p) = ps_name p"
  by (simp add: overridden_def split: option.split)

lemma collect_overrides_eq:
  assumes "distinct (map ps_name phases)" and "jok es"
  shows "if \<forall>e\<in>set es. accepted names e
    then collect_overrides names es phases ins
      = Inr (map (\<lambda>p. if ps_name p \<in> set names then overridden es p else p) phases,
             ins @ map insertion_of (filter (\<lambda>e. fst e \<notin> set names) es))
    else \<exists>m. collect_overrides names es phases ins = Inl (Override_error m)"
  using assms
proof (induction es arbitrary: phases ins)
  case Nil
  have "map (\<lambda>p. if ps_name p \<in> set names then overridden [] p else p) phases = phases"
    by (rule map_idI) (simp add: overridden_def)
  then show ?case by simp
next
  case (Cons e es)
  obtain n ov where e: "e = (n, ov)" by fastforce
  show ?case
  proof (cases "n \<in> set names")
    case True
    let ?phases = "override_phase n ov phases"
    have m: "?phases = map (\<lambda>p. if ps_name p = n then apply_override ov p else p) phases"
      using override_phase_map [OF Cons.prems(1)] .
    have "map ps_name ?phases = map ps_name phases" unfolding m by simp
    then have d: "distinct (map ps_name ?phases)" using Cons.prems(1) by simp
    have "overridden (e # es) p = overridden es (if ps_name p = n then apply_override ov p else p)" for p
    proof -
      have "jget es n = None" using Cons.prems(2) e by (simp add: jget_None_iff)
      then show ?thesis using e by (auto simp: overridden_def)
    qed
    then have "map (\<lambda>p. if ps_name p \<in> set names then overridden (e # es) p else p) phases
        = map (\<lambda>p. if ps_name p \<in> set names then overridden es p else p) ?phases"
      unfolding m using True by auto
    moreover have "accepted names e" using True e by (simp add: accepted_def)
    ultimately show ?thesis using Cons.IH [OF d, of ins] Cons.prems(2) True e by simp
  next
    case False
    show ?thesis
    proof (cases "accepted names e")
      case True
      have "overridden (e # es) p = overridden es p" if "ps_name p \<in> set names" for p
        using that False e by (auto simp: overridden_def)
      then have same: "map (\<lambda>p. if ps_name p \<in> set names then overridden (e # es) p else p) phases
          = map (\<lambda>p. if ps_name p \<in> set names then overridden es p else p) phases" by simp
      have step: "collect_overrides names (e # es) phases ins = collect_overrides names es phases (ins @ [insertion_of e])"
        using True False e by (auto simp: accepted_def insertion_of_def anchor_of_def Let_def split: option.splits)
      have "fst e \<notin> set names" "jok es" using False e Cons.prems(2) by simp_all
      with Cons.IH [OF Cons.prems(1), of "ins @ [insertion_of e]"] True show ?thesis unfolding step same by simp
    next
      case False': False
      have "\<exists>m. collect_overrides names (e # es) phases ins = Inl (Override_error m)"
        using False' False e by (auto simp: accepted_def anchor_of_def Let_def split: option.splits)
      then show ?thesis using False' by (simp del: collect_overrides.simps)
    qed
  qed
qed

text \<open>The base with phases inserted around each of its own.\<close>

definition layout :: "(string \<Rightarrow> phase_source list) \<Rightarrow> (string \<Rightarrow> phase_source list) \<Rightarrow> phase_source list \<Rightarrow> phase_source list" where
  "layout bs as base = concat (map (\<lambda>p. bs (ps_name p) @ p # as (ps_name p)) base)"

lemma insert_at_append:
  assumes "a \<notin> ps_name ` set xs" and "a \<in> ps_name ` set ys"
  shows "insert_at (x, pos, a) (xs @ ys) = xs @ insert_at (x, pos, a) ys"
proof -
  have "dropWhile (\<lambda>q. ps_name q \<noteq> a) ys \<noteq> []" using assms(2) by (auto simp: dropWhile_eq_Nil_conv)
  then obtain q qs where q: "dropWhile (\<lambda>q. ps_name q \<noteq> a) ys = q # qs" by (cases "dropWhile (\<lambda>q. ps_name q \<noteq> a) ys") auto
  have "takeWhile (\<lambda>q. ps_name q \<noteq> a) (xs @ ys) = xs @ takeWhile (\<lambda>q. ps_name q \<noteq> a) ys"
    "dropWhile (\<lambda>q. ps_name q \<noteq> a) (xs @ ys) = dropWhile (\<lambda>q. ps_name q \<noteq> a) ys"
    using assms(1) by (auto simp: takeWhile_append dropWhile_append)
  then show ?thesis unfolding insert_at_def Let_def prod.case q by simp
qed

lemma layout_names: "a \<in> ps_name ` set base \<Longrightarrow> a \<in> ps_name ` set (layout bs as base)"
  by (auto simp: layout_def)

lemma insert_at_layout:
  assumes "distinct (map ps_name base)" and "a \<in> ps_name ` set base"
    and "\<And>n. a \<notin> ps_name ` set (bs n)" and "\<And>n. a \<notin> ps_name ` set (as n)"
  shows "insert_at (x, pos, a) (layout bs as base) =
     (case pos of Before \<Rightarrow> layout (bs(a := bs a @ [x])) as base | After \<Rightarrow> layout bs (as(a := x # as a)) base)"
  using assms(1,2)
proof (induction base)
  case (Cons p ps)
  have split: "layout bs as (p # ps) = bs (ps_name p) @ p # as (ps_name p) @ layout bs as ps" for bs as
    by (simp add: layout_def)
  show ?case
  proof (cases "ps_name p = a")
    case True
    then have other: "\<forall>q\<in>set ps. ps_name q \<noteq> a" using Cons.prems(1) by (auto simp: image_iff)
    then have "layout (bs(a := u)) as ps = layout bs as ps" "layout bs (as(a := u)) ps = layout bs as ps" for u
      by (auto simp: layout_def intro!: arg_cong [where f = concat] map_cong)
    moreover have "insert_at (x, pos, a) (p # as a @ layout bs as ps)
        = (case pos of Before \<Rightarrow> x # p # as a @ layout bs as ps | After \<Rightarrow> p # x # as a @ layout bs as ps)"
      using True by (simp add: insert_at_def split: anchor_side.split)
    ultimately show ?thesis
      unfolding split True using insert_at_append [of a "bs a" "p # as a @ layout bs as ps" x pos] assms(3) True
      by (cases pos) simp_all
  next
    case False
    have "a \<notin> ps_name ` set (bs (ps_name p) @ p # as (ps_name p))" using assms(3,4) False by auto
    moreover have "a \<in> ps_name ` set (layout bs as ps)" using Cons.prems(2) False layout_names by auto
    ultimately have "insert_at (x, pos, a) (layout bs as (p # ps))
        = (bs (ps_name p) @ p # as (ps_name p)) @ insert_at (x, pos, a) (layout bs as ps)"
      unfolding split using insert_at_append [of a "bs (ps_name p) @ p # as (ps_name p)" "layout bs as ps" x pos] by simp
    with Cons.IH Cons.prems False show ?thesis unfolding split by (cases pos) simp_all
  qed
qed simp

lemma fold_insert_at:
  assumes "distinct (map ps_name base)" and "\<forall>(x, pos, a)\<in>set ins. a \<in> ps_name ` set base \<and> ps_name x \<notin> ps_name ` set base"
    and "\<forall>n. \<forall>q\<in>set (bs n). ps_name q \<notin> ps_name ` set base" and "\<forall>n. \<forall>q\<in>set (as n). ps_name q \<notin> ps_name ` set base"
  shows "fold insert_at ins (layout bs as base) =
     layout (\<lambda>a. bs a @ map fst (filter (\<lambda>i. snd i = (Before, a)) ins))
            (\<lambda>a. rev (map fst (filter (\<lambda>i. snd i = (After, a)) ins)) @ as a) base"
  using assms(2-4)
proof (induction ins arbitrary: bs as)
  case (Cons i ins)
  obtain x pos a where i: "i = (x, pos, a)" by (cases i) auto
  have n: "a \<in> ps_name ` set base" "ps_name x \<notin> ps_name ` set base" using Cons.prems(1) i by auto
  have "a \<notin> ps_name ` set (bs n)" "a \<notin> ps_name ` set (as n)" for n using Cons.prems(2,3) n(1) by (auto simp: image_iff) metis+
  from insert_at_layout [OF assms(1) n(1) this]
  have step: "insert_at i (layout bs as base) =
     (case pos of Before \<Rightarrow> layout (bs(a := bs a @ [x])) as base | After \<Rightarrow> layout bs (as(a := x # as a)) base)"
    unfolding i .
  show ?case
  proof (cases pos)
    case Before
    have "fold insert_at ins (layout (bs(a := bs a @ [x])) as base) =
     layout (\<lambda>b. (bs(a := bs a @ [x])) b @ map fst (filter (\<lambda>i. snd i = (Before, b)) ins))
            (\<lambda>b. rev (map fst (filter (\<lambda>i. snd i = (After, b)) ins)) @ as b) base"
      by (rule Cons.IH) (use Cons.prems n(2) in auto)
    then show ?thesis using step Before i by (simp add: layout_def) (rule arg_cong [where f = concat], rule map_cong, auto)
  next
    case After
    have "fold insert_at ins (layout bs (as(a := x # as a)) base) =
     layout (\<lambda>b. bs b @ map fst (filter (\<lambda>i. snd i = (Before, b)) ins))
            (\<lambda>b. rev (map fst (filter (\<lambda>i. snd i = (After, b)) ins)) @ (as(a := x # as a)) b) base"
      by (rule Cons.IH) (use Cons.prems n(2) in auto)
    then show ?thesis using step After i by (simp add: layout_def) (rule arg_cong [where f = concat], rule map_cong, auto)
  qed
qed simp

lemma new_phases_filter:
  "map fst (filter (\<lambda>i. snd i = (pos, a)) (map insertion_of (filter (\<lambda>e. fst e \<notin> set names) es))) = new_phases pos names es a"
  by (induction es) (auto simp: new_phases_def)


definition sample_phase :: "string \<Rightarrow> phase_source" where
  "sample_phase n =
     \<lparr> ps_name = n,
       ps_steps = [\<lparr> ss_name = ''s'', ss_action = None, ss_uses = None, ss_with = None, ss_command = None, ss_script = None,
         ss_timeout = None, ss_continueOnError = None, ss_condition = None, ss_env = None, ss_retry = None, ss_gate = None \<rparr>],
       ps_condition = None \<rparr>"

definition sample_after :: "string \<Rightarrow> phase_override" where
  "sample_after a = \<lparr> po_steps = Some (ps_steps (sample_phase a)), po_condition = None, po_before = None, po_after = Some a \<rparr>"


section \<open>Validated workflows\<close>

definition retry_in_range :: "step_retry \<Rightarrow> bool" where
  "retry_in_range r \<longleftrightarrow>
     1 \<le> sr_maxAttempts r \<and> (case sr_jitter r of None \<Rightarrow> True | Some j \<Rightarrow> 0 \<le> j \<and> j \<le> 1)
     \<and> (\<exists>n. sr_delay r = Millis n) \<and> (case sr_maxDelay r of None \<Rightarrow> True | Some v \<Rightarrow> \<exists>n. v = Millis n)"

definition step_in_range :: "step_definition \<Rightarrow> bool" where
  "step_in_range st \<longleftrightarrow>
     sd_name st \<noteq> [] \<and> sd_gate st = None \<and> (case sd_retry st of None \<Rightarrow> True | Some r \<Rightarrow> retry_in_range r)"

definition phase_in_range :: "phase_definition \<Rightarrow> bool" where
  "phase_in_range p \<longleftrightarrow> pd_name p \<noteq> [] \<and> pd_steps p \<noteq> [] \<and> (\<forall>st\<in>set (pd_steps p). step_in_range st)"

definition workflow_in_range :: "workflow_definition \<Rightarrow> bool" where
  "workflow_in_range w \<longleftrightarrow>
     wf_name w \<noteq> [] \<and> wf_phases w \<noteq> [] \<and> (\<forall>p\<in>set (wf_phases w). phase_in_range p)
     \<and> (case wf_inputs w of None \<Rightarrow> True | Some is \<Rightarrow> \<forall>i\<in>set is. id_name i \<noteq> [])
     \<and> (case wf_retry w of None \<Rightarrow> True | Some r \<Rightarrow> retry_in_range r)"

lemma map_results_Inr:
  "map_results f xs = Inr ys \<Longrightarrow> list_all2 (\<lambda>x y. f x = Inr y) xs ys"
  by (induction xs arbitrary: ys) (auto split: sum.splits)

lemma map_results_all: "list_all2 (\<lambda>x y. f x = Inr y) xs ys \<Longrightarrow> map_results f xs = Inr ys"
  by (induction xs ys rule: list_all2_induct) auto

lemma validated_retry_in_range:
  assumes "retry_ok r" and "validated_retry (retry_defaults r) = Inr v"
  shows "retry_in_range v"
  using assms
  by (auto simp: validated_retry_def retry_defaults_def retry_in_range_def retry_ok_def or_default_def le_floor_iff
      split: option.splits sum.splits if_splits)

lemma optional_retry_in_range:
  assumes "case r of None \<Rightarrow> True | Some r \<Rightarrow> retry_ok r" and "optional_retry (map_option retry_defaults r) = Inr v"
  shows "case v of None \<Rightarrow> True | Some r \<Rightarrow> retry_in_range r"
  using assms validated_retry_in_range by (auto simp: optional_retry_def split: option.splits)

lemma validated_step_in_range:
  assumes "step_ok st" and "validated_step (step_defaults st) = Inr v"
  shows "step_in_range v"
  using assms optional_retry_in_range [of "ss_retry st"]
  by (auto simp: validated_step_def step_ok_def step_in_range_def step_defaults_def split: sum.splits)

lemma validated_phase_in_range:
  assumes "phase_ok p" and "validated_phase (phase_defaults p) = Inr v"
  shows "phase_in_range v"
proof -
  obtain steps where v: "map_results validated_step (map step_defaults (ps_steps p)) = Inr steps"
      "v = \<lparr> pd_name = ps_name p, pd_steps = steps, pd_condition = ps_condition p \<rparr>"
    using assms(2) by (auto simp: validated_phase_def phase_defaults_def split: sum.splits)
  from map_results_Inr [OF v(1)] have "list_all2 (\<lambda>st y. validated_step (step_defaults st) = Inr y) (ps_steps p) steps"
    by (simp add: list_all2_map1)
  then have "\<forall>y\<in>set steps. step_in_range y" "steps \<noteq> []"
    using assms(1) validated_step_in_range by (auto simp: phase_ok_def list_all2_conv_all_nth in_set_conv_nth) fastforce
  with v(2) assms(1) show ?thesis by (simp add: phase_in_range_def phase_ok_def)
qed

lemma validate_schema:
  assumes "schema_law parse" and "validateWorkflow parse data = Inr d"
  obtains w where "data = Some w" and "schema_ok w" and "parse (Some w) = Inr (schema_defaults w)"
proof -
  obtain r where r: "parse data = Inr r" using assms(2) by (auto simp: validateWorkflow_def split: sum.splits)
  with assms(1) obtain w where w: "data = Some w" by (cases data) (auto simp: schema_law_def)
  have "case parse (Some w) of Inr v \<Rightarrow> schema_ok w \<and> v = schema_defaults w | Inl issues \<Rightarrow> \<not> schema_ok w \<and> issues \<noteq> []"
    using assms(1) unfolding schema_law_def by blast
  with r w show thesis using that by simp
qed

lemma validated_in_range:
  assumes "schema_law parse" and "validateWorkflow parse data = Inr d"
  shows "workflow_in_range d"
proof -
  from validate_schema [OF assms] obtain w where w: "data = Some w" "schema_ok w" "parse (Some w) = Inr (schema_defaults w)" .
  obtain ps where ps: "wfs_phases w = Some ps" "ps \<noteq> []" "\<forall>p\<in>set ps. phase_ok p" using w(2) by (auto simp: schema_ok_def split: option.splits)
  obtain phases retry where p: "map_results validated_phase (map phase_defaults ps) = Inr phases"
      "optional_retry (map_option retry_defaults (wfs_retry w)) = Inr retry"
      "wf_phases d = phases" "wf_retry d = retry" "wf_name d = the (wfs_name w)"
      "wf_inputs d = map_option (map validated_input) (map_option (map input_defaults) (wfs_inputs w))"
    using assms(2) w(1,3) ps(1) by (auto simp: validateWorkflow_def schema_defaults_def split: sum.splits)
  have "list_all2 (\<lambda>x y. validated_phase (phase_defaults x) = Inr y) ps phases"
    using map_results_Inr [OF p(1)] by (simp add: list_all2_map1)
  then have "\<forall>y\<in>set phases. phase_in_range y" "phases \<noteq> []"
    using ps(2,3) validated_phase_in_range by (auto simp: list_all2_conv_all_nth in_set_conv_nth) fastforce
  moreover have "case retry of None \<Rightarrow> True | Some r \<Rightarrow> retry_in_range r"
    using optional_retry_in_range [OF _ p(2)] w(2) by (simp add: schema_ok_def)
  ultimately show ?thesis using w(2) p(3-6)
    by (auto simp: workflow_in_range_def schema_ok_def validated_input_def input_defaults_def split: option.splits)
qed

lemma load_validated:
  "loadWorkflowWithExtends L seen filePath = Inr d \<Longrightarrow> \<exists>data. validateWorkflow (ld_schema L) data = Inr d"
  by (subst (asm) loadWorkflowWithExtends.simps) (auto simp: Let_def validate_file_def split: if_splits sum.splits option.splits)


text \<open>A schema library that does what it documents, and a file whose step has a gate.\<close>

definition sample_schema :: schema_parser where
  "sample_schema data =
     (case data of
        None \<Rightarrow> Inl [([], ''Required'')]
      | Some w \<Rightarrow> if schema_ok w then Inr (schema_defaults w) else Inl [([], ''Invalid'')])"

definition sample_file :: workflow_file where
  "sample_file =
     \<lparr> wfs_name = Some ''w'', wfs_description = None, wfs_version = None, wfs_inputs = None,
       wfs_phases = Some [(sample_phase ''p'')\<lparr> ps_steps := map (ss_gate_update (\<lambda>_. Some ''spec-review'')) (ps_steps (sample_phase ''p'')) \<rparr>],
       wfs_env = None, wfs_timeout = None, wfs_retry = None, wff_extends = None, wff_overrides = None \<rparr>"

definition sample_loader :: loader_env where
  "sample_loader =
     \<lparr> ld_absolute = id, ld_files = [(''f'', Inr ''text'')], ld_yaml = (\<lambda>_. Inr (Some sample_file)),
       ld_resolver = (\<lambda>_ _. Inl (Other_load_error [])), ld_schema = sample_schema \<rparr>"

lemma sample_schema_law: "schema_law sample_schema"
  by (simp add: schema_law_def sample_schema_def)


section \<open>Validating again\<close>

lemma validated_retry_again:
  assumes "retry_in_range v" and "sr_maxDelay v \<noteq> Some (Millis 0)"
  shows "retry_ok (retry_source_of v)" and "validated_retry (retry_defaults (retry_source_of v)) = Inr v"
  using assms
  by (auto simp: retry_ok_def retry_source_of_def retry_in_range_def validated_retry_def retry_defaults_def or_default_def
      retry_ms_def truthy_duration_def map_sum.simps split: option.splits)

lemma optional_retry_again:
  assumes "case r of None \<Rightarrow> True | Some v \<Rightarrow> retry_in_range v \<and> sr_maxDelay v \<noteq> Some (Millis 0)"
  shows "case map_option retry_source_of r of None \<Rightarrow> True | Some r \<Rightarrow> retry_ok r"
    and "optional_retry (map_option retry_defaults (map_option retry_source_of r)) = Inr r"
  using assms validated_retry_again by (auto simp: optional_retry_def map_sum.simps split: option.splits)

definition retries_of :: "workflow_definition \<Rightarrow> step_retry set" where
  "retries_of w = {v. wf_retry w = Some v \<or> (\<exists>p\<in>set (wf_phases w). \<exists>st\<in>set (pd_steps p). sd_retry st = Some v)}"

lemma validated_step_again:
  assumes "step_in_range st" and "\<forall>v. sd_retry st = Some v \<longrightarrow> sr_maxDelay v \<noteq> Some (Millis 0)"
  shows "step_ok (step_source_of st)" and "validated_step (step_defaults (step_source_of st)) = Inr st"
proof -
  have c: "case sd_retry st of None \<Rightarrow> True | Some v \<Rightarrow> retry_in_range v \<and> sr_maxDelay v \<noteq> Some (Millis 0)"
    using assms by (auto simp: step_in_range_def split: option.splits)
  show "step_ok (step_source_of st)" using optional_retry_again(1) [OF c] assms(1)
    by (simp add: step_ok_def step_source_of_def step_in_range_def)
  show "validated_step (step_defaults (step_source_of st)) = Inr st" using optional_retry_again(2) [OF c] assms(1)
    by (simp add: validated_step_def step_source_of_def step_defaults_def or_default_def step_in_range_def)
qed

lemma validated_phase_again:
  assumes "phase_in_range p" and "\<forall>st\<in>set (pd_steps p). \<forall>v. sd_retry st = Some v \<longrightarrow> sr_maxDelay v \<noteq> Some (Millis 0)"
  shows "phase_ok (phase_source_of p)" and "validated_phase (phase_defaults (phase_source_of p)) = Inr p"
proof -
  have st: "step_ok (step_source_of st)" "validated_step (step_defaults (step_source_of st)) = Inr st" if "st \<in> set (pd_steps p)" for st
    using validated_step_again that assms by (auto simp: phase_in_range_def)
  then show "phase_ok (phase_source_of p)" using assms(1) by (simp add: phase_ok_def phase_source_of_def phase_in_range_def)
  have "map_results validated_step (map (step_defaults \<circ> step_source_of) (pd_steps p)) = Inr (pd_steps p)"
    using st(2) by (intro map_results_all) (simp add: list_all2_map1 list.rel_refl_strong)
  then show "validated_phase (phase_defaults (phase_source_of p)) = Inr p"
    by (simp add: validated_phase_def phase_defaults_def phase_source_of_def)
qed

lemma validated_input_again: "validated_input (input_defaults (input_source_of i)) = i"
  by (simp add: validated_input_def input_defaults_def input_source_of_def or_default_def)

text \<open>
  C2. Validation is a round trip: a validated workflow, read again as data, validates to itself,
  so the bases of an extending workflow are not changed by being validated at every step of the
  chain; the exception is a maximal delay written as a text of zero length, which the second
  validation drops.
\<close>

theorem validated_workflow_again:
  assumes "schema_law parse" and "validateWorkflow parse data = Inr d"
    and "\<forall>v\<in>retries_of d. sr_maxDelay v \<noteq> Some (Millis 0)"
  shows "validateWorkflow parse (Some (source_of d)) = Inr d"
proof -
  have d: "workflow_in_range d" using validated_in_range [OF assms(1,2)] .
  have r: "\<And>v. wf_retry d = Some v \<Longrightarrow> sr_maxDelay v \<noteq> Some (Millis 0)"
      "\<And>p st v. p \<in> set (wf_phases d) \<Longrightarrow> st \<in> set (pd_steps p) \<Longrightarrow> sd_retry st = Some v \<Longrightarrow> sr_maxDelay v \<noteq> Some (Millis 0)"
    using assms(3) by (auto simp: retries_of_def)
  have ph: "phase_ok (phase_source_of p)" "validated_phase (phase_defaults (phase_source_of p)) = Inr p" if "p \<in> set (wf_phases d)" for p
    using validated_phase_again that d r(2) by (auto simp: workflow_in_range_def)
  have c: "case wf_retry d of None \<Rightarrow> True | Some v \<Rightarrow> retry_in_range v \<and> sr_maxDelay v \<noteq> Some (Millis 0)"
    using d r(1) by (auto simp: workflow_in_range_def split: option.splits)
  have "schema_ok (source_of d)"
    using d ph(1) optional_retry_again(1) [OF c]
    by (auto simp: schema_ok_def source_of_def workflow_in_range_def input_source_of_def split: option.splits)
  moreover have "case parse (Some (source_of d)) of Inr v \<Rightarrow> schema_ok (source_of d) \<and> v = schema_defaults (source_of d)
      | Inl issues \<Rightarrow> \<not> schema_ok (source_of d) \<and> issues \<noteq> []"
    using assms(1) unfolding schema_law_def by blast
  ultimately have "parse (Some (source_of d)) = Inr (schema_defaults (source_of d))" by (auto split: sum.splits)
  moreover have "map_results validated_phase (map (phase_defaults \<circ> phase_source_of) (wf_phases d)) = Inr (wf_phases d)"
    using ph(2) by (intro map_results_all) (simp add: list_all2_map1 list.rel_refl_strong)
  moreover have "map_option (map validated_input) (map_option (map input_defaults) (map_option (map input_source_of) (wf_inputs d))) = wf_inputs d"
    by (cases "wf_inputs d") (simp_all add: validated_input_again comp_def)
  ultimately show ?thesis using optional_retry_again(2) [OF c]
    by (simp add: validateWorkflow_def schema_defaults_def source_of_def)
qed

theorem validated_workflow_again_witness:
  "\<exists>d. validateWorkflow sample_schema (Some (workflow_source.truncate sample_file)) = Inr d
     \<and> validateWorkflow sample_schema (Some (source_of d)) = Inr d"
proof -
  obtain d where d: "validateWorkflow sample_schema (Some (workflow_source.truncate sample_file)) = Inr d" "retries_of d = {}"
    by (simp add: sample_file_def validateWorkflow_def sample_schema_def schema_ok_def phase_ok_def
        step_ok_def sample_phase_def schema_defaults_def phase_defaults_def step_defaults_def validated_phase_def validated_step_def
        optional_retry_def workflow_source.truncate_def map_sum.simps or_default_def retries_of_def)
  with validated_workflow_again [OF sample_schema_law d(1)] show ?thesis by simp
qed

section \<open>What preparation drops\<close>

text \<open>The inputs and their defaults are checked, and are not part of the prepared workflow.\<close>

lemma prepareWorkflow_drops_inputs:
  assumes "prepareWorkflow w inputs env = Inr x" and "prepareWorkflow w inputs' env = Inr y"
  shows "x = y"
  using assms by (auto simp: prepareWorkflow_def split: sum.splits)

end
