(* ===== verification/ReviewGates.thy ===== *)
theory ReviewGates
  imports ActionRegistry
begin

text \<open>
  Review gates of the workflow engine: the default handler and the configuration of a gate
  (\<open>types/gate.ts\<close>), the registry of handlers and the processing of a gate
  (\<open>executor/gate-handler.ts\<close>), under \<open>src/packages/workflow-engine/src\<close>. A handler is a
  parameter; each of its calls returns or throws.
\<close>

datatype timeout_action = Approve | Reject | Block

record gate_result =
  gr_approved :: bool
  gr_approvedBy :: "string option"
  gr_comments :: "string option"
  gr_timedOut :: "bool option"
  gr_decidedAt :: "string option"

record gate_context =
  gx_workflow :: executable_workflow
  gx_phase :: phase_definition
  gx_step :: step_definition
  gx_stepResult :: action_result
  gx_gateType :: string
  gx_executionId :: "string option"

record gate_handler =
  gh_checkApproval :: "gate_context \<Rightarrow> string + bool"
  gh_waitForApproval :: "gate_context \<Rightarrow> rat option \<Rightarrow> string + gate_result"
  gh_requestApproval :: "(gate_context \<Rightarrow> string + unit) option"

record gate_config =
  gc_type :: string
  gc_timeout_ms :: "rat option"
  gc_timeout_action :: "timeout_action option"
  gc_handler :: "gate_handler option"

definition default_wait :: "gate_context \<Rightarrow> rat option \<Rightarrow> gate_result" where
  "default_wait ctx timeoutMs =
     (case timeoutMs of
        None \<Rightarrow>
          \<lparr> gr_approved = False, gr_approvedBy = Some ''system'',
            gr_comments = Some (''Workflow paused at gate: '' @ gx_gateType ctx @ ''. Resume with explicit approval.''),
            gr_timedOut = Some False, gr_decidedAt = None \<rparr>
      | Some ms \<Rightarrow>
          \<lparr> gr_approved = False, gr_approvedBy = Some ''system'',
            gr_comments = Some (''Gate timeout ('' @ show_number ms @ ''ms). Workflow paused.''),
            gr_timedOut = Some True, gr_decidedAt = None \<rparr>)"

definition DefaultGateHandler :: gate_handler where
  "DefaultGateHandler =
     \<lparr> gh_checkApproval = (\<lambda>_. Inr False), gh_waitForApproval = (\<lambda>ctx t. Inr (default_wait ctx t)), gh_requestApproval = None \<rparr>"

definition parseGateConfig :: "string \<Rightarrow> gate_config" where
  "parseGateConfig gateString =
     \<lparr> gc_type = gateString, gc_timeout_ms = None, gc_timeout_action = None, gc_handler = None \<rparr>"

type_synonym gate_registry = "(string, gate_handler) jmap"

definition registerGateHandler :: "string \<Rightarrow> gate_handler \<Rightarrow> gate_registry \<Rightarrow> gate_registry" where
  "registerGateHandler t h r = jset t h r"

definition unregisterGateHandler :: "string \<Rightarrow> gate_registry \<Rightarrow> gate_registry" where
  "unregisterGateHandler t r = jdel t r"

definition getGateHandler :: "gate_registry \<Rightarrow> string \<Rightarrow> gate_handler" where
  "getGateHandler r t = (case jget r t of Some h \<Rightarrow> h | None \<Rightarrow> DefaultGateHandler)"

definition clearGateHandlerRegistry :: "gate_registry \<Rightarrow> gate_registry" where
  "clearGateHandlerRegistry r = []"

definition hasGate :: "step_definition \<Rightarrow> bool" where
  "hasGate step \<longleftrightarrow> truthy (sd_gate step)"

definition getGateConfig :: "step_definition \<Rightarrow> gate_config option" where
  "getGateConfig step = (if \<not> hasGate step then None else Some (parseGateConfig (the (sd_gate step))))"

record gate_process_result =
  gp_continue :: bool
  gp_pause :: bool
  gp_config :: gate_config
  gp_result :: gate_result

definition approved_by :: "string \<Rightarrow> gate_result" where
  "approved_by who =
     \<lparr> gr_approved = True, gr_approvedBy = Some who, gr_comments = None, gr_timedOut = None, gr_decidedAt = None \<rparr>"

text \<open>What follows from the answer of \<open>waitForApproval\<close>.\<close>

definition gate_outcome :: "gate_config \<Rightarrow> gate_result \<Rightarrow> gate_process_result" where
  "gate_outcome config result =
     (if gr_timedOut result = Some True \<and> gc_timeout_action config \<noteq> None then
        (case the (gc_timeout_action config) of
           Approve \<Rightarrow>
             \<lparr> gp_continue = True, gp_pause = False, gp_config = config,
               gp_result = result\<lparr> gr_approved := True, gr_approvedBy := Some ''timeout-auto-approve'' \<rparr> \<rparr>
         | Reject \<Rightarrow>
             \<lparr> gp_continue = False, gp_pause = False, gp_config = config,
               gp_result = result\<lparr> gr_approved := False, gr_approvedBy := Some ''timeout-reject'' \<rparr> \<rparr>
         | Block \<Rightarrow> \<lparr> gp_continue = False, gp_pause = True, gp_config = config, gp_result = result \<rparr>)
      else if gr_approved result then \<lparr> gp_continue = True, gp_pause = False, gp_config = config, gp_result = result \<rparr>
      else \<lparr> gp_continue = False, gp_pause = True, gp_config = config, gp_result = result \<rparr>)"

text \<open>Asking the handler of a gate.\<close>

definition ask_handler :: "gate_handler \<Rightarrow> gate_config \<Rightarrow> gate_context \<Rightarrow> string + gate_process_result" where
  "ask_handler handler config ctx =
     (case gh_checkApproval handler ctx of
        Inl e \<Rightarrow> Inl e
      | Inr True \<Rightarrow> Inr \<lparr> gp_continue = True, gp_pause = False, gp_config = config, gp_result = approved_by ''pre-approval'' \<rparr>
      | Inr False \<Rightarrow>
          (case (case gh_requestApproval handler of None \<Rightarrow> Inr () | Some request \<Rightarrow> request ctx) of
             Inl e \<Rightarrow> Inl e
           | Inr _ \<Rightarrow>
               (case gh_waitForApproval handler ctx (gc_timeout_ms config) of
                  Inl e \<Rightarrow> Inl e
                | Inr result \<Rightarrow> Inr (gate_outcome config result))))"

definition processGate ::
    "gate_registry \<Rightarrow> executable_workflow \<Rightarrow> phase_definition \<Rightarrow> step_definition \<Rightarrow> action_result \<Rightarrow> string option
       \<Rightarrow> string + gate_process_result" where
  "processGate r workflow phase step stepResult executionId =
     (case getGateConfig step of
        None \<Rightarrow>
          Inr \<lparr> gp_continue = True, gp_pause = False, gp_config = parseGateConfig ''none'',
                gp_result = approved_by ''system'' \<rparr>
      | Some config \<Rightarrow>
          ask_handler (case gc_handler config of Some h \<Rightarrow> h | None \<Rightarrow> getGateHandler r (gc_type config)) config
            \<lparr> gx_workflow = workflow, gx_phase = phase, gx_step = step, gx_stepResult = stepResult,
              gx_gateType = gc_type config, gx_executionId = executionId \<rparr>)"

section \<open>A gate only opens by approval\<close>

text \<open>
  A step with a gate goes on only with an approval: processing the gate continues the workflow
  just if the registered handler of that gate finds it approved already or approves it when
  asked; in every other case in which the handler answers the workflow pauses, and where no handler
  is registered it always pauses. A gate of a step never carries a timeout or an action for it.
\<close>

lemma gate_needs_approval:
  assumes "sd_gate step = Some g" and "g \<noteq> []"
    and "processGate r workflow phase step stepResult executionId = Inr p"
  defines "ctx \<equiv> \<lparr> gx_workflow = workflow, gx_phase = phase, gx_step = step, gx_stepResult = stepResult, gx_gateType = g,
                   gx_executionId = executionId \<rparr>"
  shows "(gp_continue p \<longleftrightarrow> \<not> gp_pause p) \<and> gp_config p = parseGateConfig g
     \<and> (gp_continue p \<longleftrightarrow>
          (\<exists>h. jget r g = Some h
             \<and> (gh_checkApproval h ctx = Inr True
                \<or> (\<exists>res. gh_waitForApproval h ctx None = Inr res \<and> gr_approved res))))"
  using assms
  by (auto simp: processGate_def getGateConfig_def hasGate_def parseGateConfig_def ask_handler_def gate_outcome_def
      getGateHandler_def DefaultGateHandler_def default_wait_def split: option.splits sum.splits bool.splits if_splits)

definition gated_step :: step_definition where
  "gated_step =
     \<lparr> sd_name = ''s'', sd_action = ''shell'', sd_uses = None, sd_with = None, sd_command = None, sd_script = None,
       sd_timeout = None, sd_continueOnError = False, sd_condition = None, sd_env = None, sd_retry = None, sd_gate = Some ''g'' \<rparr>"

definition gated_workflow :: executable_workflow where
  "gated_workflow =
     \<lparr> ew_name = ''w'', ew_description = None, ew_phases = [\<lparr> pd_name = ''p'', pd_steps = [gated_step], pd_condition = None \<rparr>],
       ew_env = None, ew_timeout = None \<rparr>"

definition gated_result :: action_result where
  "gated_result =
     \<lparr> ar_success = True, ar_output = JsNull, ar_stdout = None, ar_stderr = None, ar_error = None, ar_exitCode = None, ar_duration = 0 \<rparr>"

text \<open>Without a handler the workflow pauses.\<close>

end
