(* ===== verification/PhaseTracker.thy ===== *)
theory PhaseTracker
  imports Messages
begin

text \<open>
  The tracker of events that were handled (\<open>services/phase-tracker-service.ts\<close> of
  \<open>packages/orchestrator/src\<close>): keys in Redis with a time to live, with the answer that lets work
  go on whenever Redis is not there. The Redis client is a parameter whose calls may fail; its
  documented behaviour is \<open>tracker_laws\<close>.
\<close>

section \<open>The tracker\<close>

record 'r tracker_client =
  tr_exists :: "string \<Rightarrow> (string, 'r, nat) comp"
  tr_get :: "string \<Rightarrow> (string, 'r, string option) comp"
  tr_set :: "string \<Rightarrow> string \<Rightarrow> nat \<Rightarrow> (string, 'r, unit) comp"
  tr_set_nx :: "string \<Rightarrow> string \<Rightarrow> nat \<Rightarrow> (string, 'r, bool) comp"
  tr_del :: "string \<Rightarrow> (string, 'r, unit) comp"

record 'r phase_tracker =
  pt_redis :: "'r tracker_client option"
  pt_ttlSeconds :: nat

definition DEFAULT_TTL_SECONDS :: nat where
  "DEFAULT_TTL_SECONDS = 86400"

definition new_tracker :: "'r tracker_client option \<Rightarrow> nat option \<Rightarrow> 'r phase_tracker" where
  "new_tracker redis ttlSeconds = \<lparr> pt_redis = redis, pt_ttlSeconds = default_to DEFAULT_TTL_SECONDS ttlSeconds \<rparr>"

definition tracker_key :: "string \<Rightarrow> string \<Rightarrow> int \<Rightarrow> string \<Rightarrow> string" where
  "tracker_key owner repo issue phase =
     ''phase-tracker:'' @ owner @ '':'' @ repo @ '':'' @ show_int issue @ '':'' @ phase"

text \<open>A call with the answer that stands for it without Redis or on an error.\<close>

definition or_else :: "'r phase_tracker \<Rightarrow> 'a \<Rightarrow> ('r tracker_client \<Rightarrow> (string, 'r, 'a) comp) \<Rightarrow> 'r \<Rightarrow> 'a \<times> 'r" where
  "or_else T d m r =
     (case pt_redis T of
        None \<Rightarrow> (d, r)
      | Some redis \<Rightarrow> (case m redis r of (Inl _, r') \<Rightarrow> (d, r') | (Inr x, r') \<Rightarrow> (x, r')))"

definition isDuplicateRaw :: "'r phase_tracker \<Rightarrow> string \<Rightarrow> 'r \<Rightarrow> bool \<times> 'r" where
  "isDuplicateRaw T key = or_else T False (\<lambda>redis. cbind (tr_exists redis key) (\<lambda>n. cret (n = 1)))"

definition markProcessedRaw :: "'r phase_tracker \<Rightarrow> string \<Rightarrow> 'r \<Rightarrow> unit \<times> 'r" where
  "markProcessedRaw T key = or_else T () (\<lambda>redis. tr_set redis key ''1'' (pt_ttlSeconds T))"

definition getValueRaw :: "'r phase_tracker \<Rightarrow> string \<Rightarrow> 'r \<Rightarrow> string option \<times> 'r" where
  "getValueRaw T key = or_else T None (\<lambda>redis. tr_get redis key)"

definition setValueRaw :: "'r phase_tracker \<Rightarrow> string \<Rightarrow> string \<Rightarrow> nat \<Rightarrow> 'r \<Rightarrow> unit \<times> 'r" where
  "setValueRaw T key v ttlSeconds = or_else T () (\<lambda>redis. tr_set redis key v ttlSeconds)"

definition clearRaw :: "'r phase_tracker \<Rightarrow> string \<Rightarrow> 'r \<Rightarrow> unit \<times> 'r" where
  "clearRaw T key = or_else T () (\<lambda>redis. tr_del redis key)"

definition isDuplicate :: "'r phase_tracker \<Rightarrow> string \<Rightarrow> string \<Rightarrow> int \<Rightarrow> string \<Rightarrow> 'r \<Rightarrow> bool \<times> 'r" where
  "isDuplicate T owner repo issue phase =
     or_else T False (\<lambda>redis. cbind (tr_exists redis (tracker_key owner repo issue phase)) (\<lambda>n. cret (n = 1)))"

definition clear_tracked :: "'r phase_tracker \<Rightarrow> string \<Rightarrow> string \<Rightarrow> int \<Rightarrow> string \<Rightarrow> 'r \<Rightarrow> unit \<times> 'r" where
  "clear_tracked T owner repo issue phase = or_else T () (\<lambda>redis. tr_del redis (tracker_key owner repo issue phase))"

definition tryMarkProcessed :: "'r phase_tracker \<Rightarrow> string \<Rightarrow> string \<Rightarrow> int \<Rightarrow> string \<Rightarrow> 'r \<Rightarrow> bool \<times> 'r" where
  "tryMarkProcessed T owner repo issue phase =
     or_else T True (\<lambda>redis. tr_set_nx redis (tracker_key owner repo issue phase) ''1'' (pt_ttlSeconds T))"

definition markProcessed :: "'r phase_tracker \<Rightarrow> string \<Rightarrow> string \<Rightarrow> int \<Rightarrow> string \<Rightarrow> 'r \<Rightarrow> unit \<times> 'r" where
  "markProcessed T owner repo issue phase =
     or_else T () (\<lambda>redis. tr_set redis (tracker_key owner repo issue phase) ''1'' (pt_ttlSeconds T))"

section \<open>Redis as documented\<close>

text \<open>
  \<open>kv\<close> reads the live keys off the state of Redis. A call that fails may have been performed
  or not; one that answers has been performed. No key expires during a call.
\<close>

definition tracker_laws :: "'r tracker_client \<Rightarrow> ('r \<Rightarrow> string \<rightharpoonup> string) \<Rightarrow> bool" where
  "tracker_laws C kv \<longleftrightarrow>
     (\<forall>k r x r'. tr_exists C k r = (x, r') \<longrightarrow> kv r' = kv r \<and> (\<forall>n. x = Inr n \<longrightarrow> n = (if kv r k = None then 0 else 1)))
     \<and> (\<forall>k r x r'. tr_get C k r = (x, r') \<longrightarrow> kv r' = kv r \<and> (\<forall>v. x = Inr v \<longrightarrow> v = kv r k))
     \<and> (\<forall>k v t r x r'. tr_set C k v t r = (x, r') \<longrightarrow> kv r' \<in> {kv r, (kv r)(k \<mapsto> v)} \<and> (x = Inr () \<longrightarrow> kv r' = (kv r)(k \<mapsto> v)))
     \<and> (\<forall>k v t r x r'. tr_set_nx C k v t r = (x, r') \<longrightarrow>
          kv r' \<in> {kv r, (if kv r k = None then (kv r)(k \<mapsto> v) else kv r)}
          \<and> (\<forall>b. x = Inr b \<longrightarrow> b = (kv r k = None) \<and> kv r' = (if kv r k = None then (kv r)(k \<mapsto> v) else kv r)))
     \<and> (\<forall>k r x r'. tr_del C k r = (x, r') \<longrightarrow> kv r' \<in> {kv r, (kv r)(k := None)} \<and> (x = Inr () \<longrightarrow> kv r' = (kv r)(k := None)))"

definition tracks :: "'r phase_tracker \<Rightarrow> ('r \<Rightarrow> string \<rightharpoonup> string) \<Rightarrow> bool" where
  "tracks T kv \<longleftrightarrow> (\<forall>C. pt_redis T = Some C \<longrightarrow> tracker_laws C kv)"

lemma tracker_lawsD:
  assumes "tracker_laws C kv"
  shows "tr_exists C k r = (x, r') \<Longrightarrow> kv r' = kv r \<and> (\<forall>n. x = Inr n \<longrightarrow> n = (if kv r k = None then 0 else 1))"
    and "tr_del C k r = (u, r') \<Longrightarrow> kv r' \<in> {kv r, (kv r)(k := None)} \<and> (u = Inr () \<longrightarrow> kv r' = (kv r)(k := None))"
    and "tr_set C k v t r = (u, r') \<Longrightarrow> kv r' \<in> {kv r, (kv r)(k \<mapsto> v)} \<and> (u = Inr () \<longrightarrow> kv r' = (kv r)(k \<mapsto> v))"
    and "tr_set_nx C k v t r = (b, r') \<Longrightarrow>
          kv r' \<in> {kv r, (if kv r k = None then (kv r)(k \<mapsto> v) else kv r)}
          \<and> (\<forall>won. b = Inr won \<longrightarrow> won = (kv r k = None) \<and> kv r' = (if kv r k = None then (kv r)(k \<mapsto> v) else kv r))"
  using assms unfolding tracker_laws_def by (elim conjE, metis)+

section \<open>Marking decides once\<close>

text \<open>
  With Redis answering, a mark is won exactly if the key was not there, and is there afterwards: of
  several callers between two clears only the first one wins. Without an answer every caller wins.
\<close>

lemma tryMarkProcessed_won:
  assumes "pt_redis T = Some C" and "tracker_laws C kv"
    and "tr_set_nx C (tracker_key owner repo issue phase) ''1'' (pt_ttlSeconds T) r = (Inr won, r')"
  shows "tryMarkProcessed T owner repo issue phase r = (kv r (tracker_key owner repo issue phase) = None, r')
    \<and> kv r' (tracker_key owner repo issue phase) \<noteq> None"
  using assms(1,3) tracker_lawsD(4) [OF assms(2,3)] by (auto simp: tryMarkProcessed_def or_else_def)

text \<open>A key that was cleared is no duplicate, so clearing first makes the question pointless.\<close>

lemma cleared_is_no_duplicate:
  assumes "pt_redis T = Some C" and "tracker_laws C kv"
    and "tr_del C (tracker_key owner repo issue phase) r = (Inr (), r')"
  shows "\<not> fst (isDuplicate T owner repo issue phase (snd (clear_tracked T owner repo issue phase r)))"
proof -
  let ?k = "tracker_key owner repo issue phase"
  have c: "clear_tracked T owner repo issue phase r = ((), r')" using assms(1,3) by (simp add: clear_tracked_def or_else_def)
  have "kv r' ?k = None" using tracker_lawsD(2) [OF assms(2,3)] by simp
  moreover obtain x r'' where e: "tr_exists C ?k r' = (x, r'')" by fastforce
  ultimately have "\<forall>n. x = Inr n \<longrightarrow> n = 0" using tracker_lawsD(1) [OF assms(2) e] by simp
  then show ?thesis using assms(1) e by (cases x) (auto simp: c isDuplicate_def or_else_def comp_simps)
qed

end
