(* ===== verification/AdaptivePoll.thy ===== *)
theory AdaptivePoll
  imports Prelude
begin

text \<open>
  How often a monitor polls GitHub: \<open>services/adaptive-poll-controller.ts\<close> and the part of
  \<open>services/label-monitor-service.ts\<close> (both under \<open>packages/orchestrator/src\<close>) that keeps the
  state of its polling.
\<close>

section \<open>The decision\<close>

record poll_params =
  pp_webhooksConfigured :: bool
  pp_adaptivePolling :: bool
  pp_basePollIntervalMs :: int
  pp_currentPollIntervalMs :: int
  pp_lastWebhookEvent :: "int option"
  pp_webhookHealthy :: bool
  pp_adaptiveDivisor :: int
  pp_minPollIntervalMs :: int
  pp_nowMs :: int

datatype poll_transition = To_fast | To_base | No_transition

datatype poll_reason = Webhooks_not_configured | Operator_opt_out | Webhook_stale | Webhook_recovered | Quiet

record poll_decision =
  pl_currentPollIntervalMs :: int
  pl_webhookHealthy :: bool
  pl_transition :: poll_transition
  pl_reason :: poll_reason

definition computeFastInterval :: "int \<Rightarrow> int \<Rightarrow> int \<Rightarrow> int" where
  "computeFastInterval basePollIntervalMs adaptiveDivisor minPollIntervalMs =
     max minPollIntervalMs (basePollIntervalMs div adaptiveDivisor)"

definition poll_decided :: "int \<Rightarrow> bool \<Rightarrow> poll_transition \<Rightarrow> poll_reason \<Rightarrow> poll_decision" where
  "poll_decided i h t r = \<lparr> pl_currentPollIntervalMs = i, pl_webhookHealthy = h, pl_transition = t, pl_reason = r \<rparr>"

definition decideAdaptivePoll :: "poll_params \<Rightarrow> poll_decision" where
  "decideAdaptivePoll p =
     (let fast = computeFastInterval (pp_basePollIntervalMs p) (pp_adaptiveDivisor p) (pp_minPollIntervalMs p)
      in if \<not> pp_webhooksConfigured p then
           (if \<not> pp_adaptivePolling p then poll_decided (pp_basePollIntervalMs p) True No_transition Operator_opt_out
            else poll_decided fast False (if pp_webhookHealthy p then To_fast else No_transition) Webhooks_not_configured)
         else
           (case pp_lastWebhookEvent p of
              None \<Rightarrow> poll_decided (pp_currentPollIntervalMs p) (pp_webhookHealthy p) No_transition Quiet
            | Some t \<Rightarrow>
                if pp_webhookHealthy p \<and> pp_currentPollIntervalMs p \<noteq> pp_basePollIntervalMs p
                then poll_decided (pp_basePollIntervalMs p) True To_base Webhook_recovered
                else if pp_nowMs p - t > pp_basePollIntervalMs p * 2 \<and> pp_webhookHealthy p
                then poll_decided fast False To_fast Webhook_stale
                else poll_decided (pp_currentPollIntervalMs p) (pp_webhookHealthy p) No_transition Quiet))"

section \<open>The state of polling\<close>

record monitor_state =
  ms_isPolling :: bool
  ms_webhookHealthy :: bool
  ms_lastWebhookEvent :: "int option"
  ms_currentPollIntervalMs :: int
  ms_basePollIntervalMs :: int
  ms_webhooksConfigured :: bool

definition MIN_POLL_INTERVAL_MS :: int where
  "MIN_POLL_INTERVAL_MS = 10000"

definition ADAPTIVE_DIVISOR :: int where
  "ADAPTIVE_DIVISOR = 3"

definition new_monitor_state :: "int \<Rightarrow> bool \<Rightarrow> monitor_state" where
  "new_monitor_state pollIntervalMs webhooksConfigured =
     \<lparr> ms_isPolling = False, ms_webhookHealthy = True, ms_lastWebhookEvent = None, ms_currentPollIntervalMs = pollIntervalMs,
       ms_basePollIntervalMs = pollIntervalMs, ms_webhooksConfigured = webhooksConfigured \<rparr>"

definition params_of :: "bool \<Rightarrow> int \<Rightarrow> monitor_state \<Rightarrow> poll_params" where
  "params_of adaptivePolling now s =
     \<lparr> pp_webhooksConfigured = ms_webhooksConfigured s, pp_adaptivePolling = adaptivePolling,
       pp_basePollIntervalMs = ms_basePollIntervalMs s, pp_currentPollIntervalMs = ms_currentPollIntervalMs s,
       pp_lastWebhookEvent = ms_lastWebhookEvent s, pp_webhookHealthy = ms_webhookHealthy s,
       pp_adaptiveDivisor = ADAPTIVE_DIVISOR, pp_minPollIntervalMs = MIN_POLL_INTERVAL_MS, pp_nowMs = now \<rparr>"

definition updateAdaptivePolling :: "bool \<Rightarrow> int \<Rightarrow> monitor_state \<Rightarrow> monitor_state" where
  "updateAdaptivePolling adaptivePolling now s =
     (let d = decideAdaptivePoll (params_of adaptivePolling now s)
      in s\<lparr> ms_currentPollIntervalMs := pl_currentPollIntervalMs d, ms_webhookHealthy := pl_webhookHealthy d \<rparr>)"

definition recordWebhookEvent :: "bool \<Rightarrow> int \<Rightarrow> int \<Rightarrow> monitor_state \<Rightarrow> monitor_state" where
  "recordWebhookEvent adaptivePolling t now s =
     updateAdaptivePolling adaptivePolling now (s\<lparr> ms_lastWebhookEvent := Some t, ms_webhookHealthy := True \<rparr>)"

definition setWebhooksConfigured :: "int option \<Rightarrow> monitor_state \<Rightarrow> monitor_state" where
  "setWebhooksConfigured basePollIntervalMs s =
     (let s1 = s\<lparr> ms_webhooksConfigured := True \<rparr>
      in case basePollIntervalMs of
           None \<Rightarrow> s1
         | Some b \<Rightarrow> s1\<lparr> ms_basePollIntervalMs := b, ms_currentPollIntervalMs := b \<rparr>)"

definition startPolling :: "monitor_state \<Rightarrow> monitor_state" where
  "startPolling s = s\<lparr> ms_isPolling := True \<rparr>"

text \<open>The loop of \<open>startPolling\<close> updates the interval only where polling is adaptive.\<close>

definition after_poll :: "bool \<Rightarrow> int \<Rightarrow> monitor_state \<Rightarrow> monitor_state" where
  "after_poll adaptivePolling now s = (if adaptivePolling then updateAdaptivePolling adaptivePolling now s else s)"

definition polling_stopped :: "monitor_state \<Rightarrow> monitor_state" where
  "polling_stopped s = s\<lparr> ms_isPolling := False \<rparr>"

section \<open>What happens to a monitor\<close>

inductive monitor_step :: "bool \<Rightarrow> monitor_state \<Rightarrow> monitor_state \<Rightarrow> bool" for adaptive where
  start: "monitor_step adaptive s (startPolling s)"
| polled: "monitor_step adaptive s (after_poll adaptive now s)"
| webhook: "monitor_step adaptive s (recordWebhookEvent adaptive t now s)"
| configured: "monitor_step adaptive s (setWebhooksConfigured b s)"
| stopped: "monitor_step adaptive s (polling_stopped s)"

definition fast_interval :: "monitor_state \<Rightarrow> int" where
  "fast_interval s = computeFastInterval (ms_basePollIntervalMs s) ADAPTIVE_DIVISOR MIN_POLL_INTERVAL_MS"

lemmas monitor_defs = updateAdaptivePolling_def recordWebhookEvent_def setWebhooksConfigured_def startPolling_def after_poll_def
  polling_stopped_def decideAdaptivePoll_def params_of_def poll_decided_def fast_interval_def

lemma monitor_step_interval:
  assumes "monitor_step adaptive s s'" and "ms_currentPollIntervalMs s \<in> {ms_basePollIntervalMs s, fast_interval s}"
  shows "ms_currentPollIntervalMs s' \<in> {ms_basePollIntervalMs s', fast_interval s'}"
  using assms by cases (auto simp: monitor_defs Let_def split: option.splits)

lemma monitor_interval:
  assumes "(monitor_step adaptive)\<^sup>*\<^sup>* (new_monitor_state i w) s"
  shows "ms_currentPollIntervalMs s \<in> {ms_basePollIntervalMs s, fast_interval s}"
  using assms
proof (induction rule: rtranclp_induct)
  case base
  then show ?case by (simp add: new_monitor_state_def)
next
  case (step y z)
  show ?case by (rule monitor_step_interval [OF step.hyps(2) step.IH])
qed

text \<open>
  However polls, webhook events and the late configuration of webhooks interleave, a monitor
  polls at its base interval or at its fast one, which is a third of it but not below ten seconds;
  an event that arrives while webhooks are configured always brings it back to the base interval.
\<close>

lemma poll_interval_bounds:
  assumes "(monitor_step adaptive)\<^sup>*\<^sup>* (new_monitor_state i w) s"
  shows "(ms_currentPollIntervalMs s = ms_basePollIntervalMs s
          \<or> ms_currentPollIntervalMs s = max 10000 (ms_basePollIntervalMs s div 3))
    \<and> (ms_webhooksConfigured s \<and> now - t \<le> ms_basePollIntervalMs s * 2 \<longrightarrow>
         ms_currentPollIntervalMs (recordWebhookEvent adaptive t now s) = ms_basePollIntervalMs s)"
  using monitor_interval [OF assms]
  by (auto simp: fast_interval_def computeFastInterval_def ADAPTIVE_DIVISOR_def MIN_POLL_INTERVAL_MS_def monitor_defs Let_def)

text \<open>For a base interval below ten seconds, which the configuration allows, the fast interval is the slower one.\<close>

lemma fast_interval_slower: "5000 \<le> b \<Longrightarrow> b < 10000 \<Longrightarrow> b < computeFastInterval b ADAPTIVE_DIVISOR MIN_POLL_INTERVAL_MS"
  by (simp add: computeFastInterval_def MIN_POLL_INTERVAL_MS_def)

end
