(* ===== verification/PhaseResolver.thy ===== *)
theory PhaseResolver
  imports JsValues
begin

text \<open>
  Where work on an issue starts or resumes: the phases of a workflow (\<open>worker/types.ts\<close>), the
  gates and the phases they resume from (\<open>worker/phase-resolver.ts\<close>), and the gates that are
  configured after a phase (\<open>worker/gate-checker.ts\<close>), under \<open>src/packages/orchestrator/src\<close>.
  Workflow names are not names that every JavaScript object inherits.
\<close>

section \<open>Phases\<close>

datatype workflow_phase = Specify | Clarify | Plan | Tasks | Implement | Review | Validate | Remediate

primrec phase_name :: "workflow_phase \<Rightarrow> string" where
  "phase_name Specify = ''specify''"
| "phase_name Clarify = ''clarify''"
| "phase_name Plan = ''plan''"
| "phase_name Tasks = ''tasks''"
| "phase_name Implement = ''implement''"
| "phase_name Review = ''review''"
| "phase_name Validate = ''validate''"
| "phase_name Remediate = ''remediate''"

lemma phase_name_inj [simp]: "phase_name p = phase_name q \<longleftrightarrow> p = q"
  by (cases p; cases q) simp_all

definition PHASE_SEQUENCE :: "workflow_phase list" where
  "PHASE_SEQUENCE = [Specify, Clarify, Plan, Tasks, Implement, Review, Validate]"

definition WORKFLOW_PHASE_SEQUENCES :: "(string, workflow_phase list) jmap" where
  "WORKFLOW_PHASE_SEQUENCES =
     [(''speckit-feature'', PHASE_SEQUENCE), (''speckit-bugfix'', PHASE_SEQUENCE),
      (''speckit-epic'', [Specify, Clarify, Plan, Tasks])]"

definition getPhaseSequence :: "string \<Rightarrow> bool \<Rightarrow> workflow_phase list" where
  "getPhaseSequence workflowName reviewPhaseEnabled =
     (case jget WORKFLOW_PHASE_SEQUENCES workflowName of
        None \<Rightarrow> filter (\<lambda>p. p \<noteq> Review) PHASE_SEQUENCE
      | Some known \<Rightarrow> if reviewPhaseEnabled then known else filter (\<lambda>p. p \<noteq> Review) known)"

section \<open>Gates\<close>

record gate_entry =
  ge_phase :: workflow_phase
  ge_resumeFrom :: workflow_phase

definition gate_at :: "workflow_phase \<Rightarrow> workflow_phase \<Rightarrow> gate_entry" where
  "gate_at p r = \<lparr> ge_phase = p, ge_resumeFrom = r \<rparr>"

definition GATE_MAPPING :: "(string, gate_entry) jmap" where
  "GATE_MAPPING =
     [(''clarification'', gate_at Clarify Clarify),
      (''spec-review'', gate_at Specify Clarify),
      (''clarification-review'', gate_at Clarify Clarify),
      (''plan-review'', gate_at Plan Tasks),
      (''tasks-review'', gate_at Tasks Implement),
      (''implementation-review'', gate_at Implement Validate),
      (''manual-validation'', gate_at Validate Validate),
      (''remediation-limit'', gate_at Review Review),
      (''dependencies'', gate_at Implement Implement),
      (''dependency-limit'', gate_at Implement Implement),
      (''ci'', gate_at Validate Validate)]"

definition WORKFLOW_GATE_MAPPING :: "(string, (string, gate_entry) jmap) jmap" where
  "WORKFLOW_GATE_MAPPING =
     [(''speckit-epic'',
        [(''tasks-review'', gate_at Tasks Tasks), (''children-complete'', gate_at Tasks Tasks),
         (''epic-approval'', gate_at Tasks Tasks)])]"

definition getEffectiveGateMapping :: "string option \<Rightarrow> bool \<Rightarrow> (string, gate_entry) jmap" where
  "getEffectiveGateMapping workflowName ciMergeGateEnabled =
     (let base = (case (if truthy workflowName then jget WORKFLOW_GATE_MAPPING (the workflowName) else None) of
                    None \<Rightarrow> GATE_MAPPING
                  | Some m \<Rightarrow> fold (\<lambda>(k, v). jset k v) m GATE_MAPPING)
      in if \<not> ciMergeGateEnabled then base else jset ''implementation-review'' (gate_at Validate Validate) base)"

section \<open>Resolving\<close>

text \<open>\<open>label.slice(prefix.length)\<close> of the labels with a prefix.\<close>

definition suffixes :: "string \<Rightarrow> string list \<Rightarrow> string list" where
  "suffixes prefix labels = map (drop (length prefix)) (filter (starts_with prefix) labels)"

definition sequence_of :: "string option \<Rightarrow> bool \<Rightarrow> workflow_phase list" where
  "sequence_of workflowName reviewPhaseEnabled =
     getPhaseSequence (case workflowName of None \<Rightarrow> [] | Some n \<Rightarrow> n) reviewPhaseEnabled"

text \<open>The names and, for gates, their phases that the \<open>completed:\<close> labels stand for.\<close>

definition completed_phases :: "(string, gate_entry) jmap \<Rightarrow> string list \<Rightarrow> string list" where
  "completed_phases gates labels =
     concat (map (\<lambda>n. n # (case jget gates n of None \<Rightarrow> [] | Some e \<Rightarrow> [phase_name (ge_phase e)])) (suffixes ''completed:'' labels))"

definition resolveFromProcess :: "string list \<Rightarrow> string option \<Rightarrow> bool \<Rightarrow> bool \<Rightarrow> workflow_phase" where
  "resolveFromProcess labels workflowName reviewPhaseEnabled ciMergeGateEnabled =
     (let sequence = sequence_of workflowName reviewPhaseEnabled;
          gates = getEffectiveGateMapping workflowName ciMergeGateEnabled
      in case List.find (\<lambda>n. n \<in> phase_name ` set sequence) (suffixes ''phase:'' labels) of
           Some n \<Rightarrow> the (List.find (\<lambda>p. phase_name p = n) sequence)
         | None \<Rightarrow>
             (let completed = completed_phases gates labels
              in if completed \<noteq> [] then
                   (case List.find (\<lambda>p. phase_name p \<notin> set completed) sequence of
                      Some p \<Rightarrow> p
                    | None \<Rightarrow> last sequence)
                 else Specify))"

text \<open>The gates that the labels complete: each once, in the order of the labels.\<close>

definition completed_gates :: "(string, gate_entry) jmap \<Rightarrow> string list \<Rightarrow> string list" where
  "completed_gates gates labels = fold sadd (filter (jhas gates) (suffixes ''completed:'' labels)) []"

primrec most_advanced :: "workflow_phase list \<Rightarrow> gate_entry list \<Rightarrow> workflow_phase option" where
  "most_advanced [] es = None"
| "most_advanced (p # ps) es =
     (case List.find (\<lambda>e. ge_phase e = p) es of Some e \<Rightarrow> Some (ge_resumeFrom e) | None \<Rightarrow> most_advanced ps es)"

definition resolveFromContinue :: "string list \<Rightarrow> string option \<Rightarrow> bool \<Rightarrow> bool \<Rightarrow> workflow_phase" where
  "resolveFromContinue labels workflowName reviewPhaseEnabled ciMergeGateEnabled =
     (let sequence = sequence_of workflowName reviewPhaseEnabled;
          gates = getEffectiveGateMapping workflowName ciMergeGateEnabled
      in case most_advanced (rev sequence) (map (\<lambda>n. the (jget gates n)) (completed_gates gates labels)) of
           Some p \<Rightarrow> p
         | None \<Rightarrow> resolveFromProcess labels workflowName reviewPhaseEnabled ciMergeGateEnabled)"

datatype resolve_command = Process_command | Continue_command

definition resolveStartPhase :: "string list \<Rightarrow> resolve_command \<Rightarrow> string option \<Rightarrow> bool \<Rightarrow> bool \<Rightarrow> workflow_phase" where
  "resolveStartPhase labels command workflowName reviewPhaseEnabled ciMergeGateEnabled =
     (case command of
        Continue_command \<Rightarrow> resolveFromContinue labels workflowName reviewPhaseEnabled ciMergeGateEnabled
      | Process_command \<Rightarrow> resolveFromProcess labels workflowName reviewPhaseEnabled ciMergeGateEnabled)"

section \<open>Configured gates\<close>

record gate_definition =
  gd_phase :: workflow_phase
  gd_gateLabel :: string
  gd_condition :: string

type_synonym gate_settings = "(string, gate_definition list) jmap"

definition checkGate :: "workflow_phase \<Rightarrow> string \<Rightarrow> gate_settings \<Rightarrow> gate_definition option" where
  "checkGate phase workflowName gates =
     (case jget gates workflowName of None \<Rightarrow> None | Some gs \<Rightarrow> List.find (\<lambda>g. gd_phase g = phase) gs)"

definition checkGates :: "workflow_phase \<Rightarrow> string \<Rightarrow> gate_settings \<Rightarrow> gate_definition list" where
  "checkGates phase workflowName gates =
     (case jget gates workflowName of None \<Rightarrow> [] | Some gs \<Rightarrow> filter (\<lambda>g. gd_phase g = phase) gs)"

section \<open>The phase resolved to is one of the workflow\<close>

lemma sequence_cases:
  "sequence_of w r = PHASE_SEQUENCE \<or> sequence_of w r = [Specify, Clarify, Plan, Tasks, Implement, Validate]
   \<or> w = Some ''speckit-epic'' \<and> sequence_of w r = [Specify, Clarify, Plan, Tasks]"
  by (cases w) (auto simp: sequence_of_def getPhaseSequence_def WORKFLOW_PHASE_SEQUENCES_def PHASE_SEQUENCE_def split: if_splits)

lemma mapping_cases:
  assumes "jget (getEffectiveGateMapping w ci) n = Some e"
  shows "w \<noteq> Some ''speckit-epic'' \<and> jget GATE_MAPPING n = Some e
     \<or> ge_phase e = Tasks \<and> ge_resumeFrom e = Tasks
     \<or> w = Some ''speckit-epic'' \<and> jget GATE_MAPPING n = Some e \<and> n \<noteq> ''tasks-review''
     \<or> ge_phase e = Validate \<and> ge_resumeFrom e = Validate"
  using assms
  by (cases w) (auto simp: getEffectiveGateMapping_def WORKFLOW_GATE_MAPPING_def gate_at_def Let_def split: if_splits)

lemma resume_in_sequence:
  assumes "jget (getEffectiveGateMapping w ci) n = Some e" and "ge_phase e \<in> set (sequence_of w r)"
  shows "ge_resumeFrom e \<in> set (sequence_of w r)"
proof -
  have global: "ge_resumeFrom e \<in> set (sequence_of w r)" if "jget GATE_MAPPING n = Some e" "n = ''tasks-review'' \<longrightarrow> w \<noteq> Some ''speckit-epic''"
    using that assms(2) sequence_cases [of w r]
    by (auto simp: GATE_MAPPING_def gate_at_def PHASE_SEQUENCE_def split: if_splits)
  from mapping_cases [OF assms(1)] global assms(2) show ?thesis by auto
qed

lemma most_advanced_some:
  assumes "most_advanced ps es = Some p"
  obtains e qs rs where "e \<in> set es" and "ps = qs @ ge_phase e # rs" and "ge_resumeFrom e = p"
    and "\<forall>e\<in>set es. ge_phase e \<notin> set qs"
  using assms
proof (induction ps arbitrary: thesis)
  case (Cons q ps)
  show ?case
  proof (cases "List.find (\<lambda>e. ge_phase e = q) es")
    case (Some e)
    then have "e \<in> set es" "ge_phase e = q" by (auto simp: find_Some_iff)
    with Some Cons.prems show ?thesis by (intro Cons.prems(1) [of e "[]" ps]) auto
  next
    case None
    with Cons.prems(2) have "most_advanced ps es = Some p" by simp
    from Cons.IH [OF _ this] obtain e qs rs where "e \<in> set es" "ps = qs @ ge_phase e # rs" "ge_resumeFrom e = p"
      "\<forall>e\<in>set es. ge_phase e \<notin> set qs" by blast
    with None show ?thesis by (intro Cons.prems(1) [of e "q # qs" rs]) (auto simp: find_None_iff)
  qed
qed simp

lemma find_SomeD: "List.find P xs = Some x \<Longrightarrow> x \<in> set xs \<and> P x"
  by (auto simp: find_Some_iff)

lemma most_advanced_none: "most_advanced ps es = None \<longleftrightarrow> (\<forall>e\<in>set es. ge_phase e \<notin> set ps)"
proof (induction ps)
  case (Cons p ps)
  then show ?case by (auto simp: find_None_iff split: option.split dest!: find_SomeD)
qed simp

lemma completed_gates_set: "n \<in> set (completed_gates gates labels) \<longleftrightarrow> n \<in> set (suffixes ''completed:'' labels) \<and> jhas gates n"
  by (auto simp: completed_gates_def)

lemma process_in_sequence: "resolveFromProcess labels w r ci \<in> set (sequence_of w r)"
proof -
  have s: "Specify \<in> set (sequence_of w r)" "sequence_of w r \<noteq> []" using sequence_cases [of w r] by (auto simp: PHASE_SEQUENCE_def)
  show ?thesis
  proof (cases "List.find (\<lambda>n. n \<in> phase_name ` set (sequence_of w r)) (suffixes ''phase:'' labels)")
    case (Some n)
    then have "\<exists>p\<in>set (sequence_of w r). phase_name p = n" by (auto simp: find_Some_iff)
    then obtain p where "List.find (\<lambda>p. phase_name p = n) (sequence_of w r) = Some p"
      by (cases "List.find (\<lambda>p. phase_name p = n) (sequence_of w r)") (auto simp: find_None_iff)
    with Some show ?thesis by (auto simp: resolveFromProcess_def Let_def dest!: find_SomeD)
  next
    case None
    then show ?thesis using s
      by (auto simp: resolveFromProcess_def Let_def split: option.split dest!: find_SomeD)
  qed
qed

text \<open>
  C22. Work always starts at a phase of its workflow: whatever labels an issue carries and whatever
  is switched on, the phase resolved to is in the effective sequence of the workflow. On resuming,
  it is the phase that a completed gate resumes from, where no gate of a later phase is completed;
  only if no completed gate belongs to a phase of the workflow, the labels of phases decide.
\<close>

theorem start_phase_in_sequence:
  "resolveStartPhase labels command w r ci \<in> set (sequence_of w r)
   \<and> ((\<exists>n e. n \<in> set (suffixes ''completed:'' labels) \<and> jget (getEffectiveGateMapping w ci) n = Some e \<and> ge_phase e \<in> set (sequence_of w r)
        \<and> resolveStartPhase labels Continue_command w r ci = ge_resumeFrom e
        \<and> (\<exists>qs rs. sequence_of w r = qs @ ge_phase e # rs
             \<and> \<not> (\<exists>m e'. m \<in> set (suffixes ''completed:'' labels) \<and> jget (getEffectiveGateMapping w ci) m = Some e' \<and> ge_phase e' \<in> set rs)))
      \<or> resolveStartPhase labels Continue_command w r ci = resolveStartPhase labels Process_command w r ci
        \<and> \<not> (\<exists>n e. n \<in> set (suffixes ''completed:'' labels) \<and> jget (getEffectiveGateMapping w ci) n = Some e \<and> ge_phase e \<in> set (sequence_of w r)))"
proof -
  let ?gates = "getEffectiveGateMapping w ci" and ?seq = "sequence_of w r"
  let ?es = "map (\<lambda>n. the (jget ?gates n)) (completed_gates ?gates labels)"
  have es: "e \<in> set ?es \<longleftrightarrow> (\<exists>n. n \<in> set (suffixes ''completed:'' labels) \<and> jget ?gates n = Some e)" for e
  proof
    assume "e \<in> set ?es"
    then obtain n where "n \<in> set (completed_gates ?gates labels)" "e = the (jget ?gates n)" by auto
    then show "\<exists>n. n \<in> set (suffixes ''completed:'' labels) \<and> jget ?gates n = Some e" unfolding completed_gates_set by auto
  next
    assume "\<exists>n. n \<in> set (suffixes ''completed:'' labels) \<and> jget ?gates n = Some e"
    then obtain n where "n \<in> set (completed_gates ?gates labels)" "jget ?gates n = Some e" unfolding completed_gates_set by auto
    then show "e \<in> set ?es" by (auto intro!: rev_image_eqI [of n])
  qed
  show ?thesis
  proof (cases "most_advanced (rev ?seq) ?es")
    case None
    then have c: "resolveStartPhase labels Continue_command w r ci = resolveStartPhase labels Process_command w r ci"
      by (simp add: resolveStartPhase_def resolveFromContinue_def Let_def)
    have "\<not> (\<exists>n e. n \<in> set (suffixes ''completed:'' labels) \<and> jget ?gates n = Some e \<and> ge_phase e \<in> set ?seq)"
      using None es unfolding most_advanced_none set_rev by blast
    moreover have "resolveStartPhase labels command w r ci \<in> set ?seq"
      using c process_in_sequence by (cases command) (simp_all add: resolveStartPhase_def)
    ultimately show ?thesis using c by blast
  next
    case (Some p)
    then obtain e qs rs where e: "e \<in> set ?es" "rev ?seq = qs @ ge_phase e # rs" "ge_resumeFrom e = p" "\<forall>e\<in>set ?es. ge_phase e \<notin> set qs"
      by (rule most_advanced_some)
    then obtain n where n: "n \<in> set (suffixes ''completed:'' labels)" "jget ?gates n = Some e" using es by blast
    have c: "resolveStartPhase labels Continue_command w r ci = ge_resumeFrom e"
      using Some e(3) by (simp add: resolveStartPhase_def resolveFromContinue_def Let_def)
    have seq: "?seq = rev rs @ ge_phase e # rev qs" using arg_cong [OF e(2), of rev] by simp
    then have in_seq: "ge_phase e \<in> set ?seq" by simp
    have "\<not> (\<exists>m e'. m \<in> set (suffixes ''completed:'' labels) \<and> jget ?gates m = Some e' \<and> ge_phase e' \<in> set (rev qs))"
      using e(4) es unfolding set_rev by blast
    moreover have "resolveStartPhase labels command w r ci \<in> set ?seq"
      using c process_in_sequence resume_in_sequence [OF n(2) in_seq] by (cases command) (simp_all add: resolveStartPhase_def)
    ultimately show ?thesis using n c in_seq
      by (intro conjI disjI1 exI [of _ n] exI [of _ e] exI [of _ "rev rs"] exI [of _ "rev qs"]) (simp_all add: seq)
  qed
qed

text \<open>Two gates of one phase that resume from different phases: the order of the labels decides.\<close>

lemma label_order_decides:
  "resolveStartPhase [''completed:implementation-review'', ''completed:dependencies''] Continue_command (Some ''speckit-feature'') True False = Validate"
  "resolveStartPhase [''completed:dependencies'', ''completed:implementation-review''] Continue_command (Some ''speckit-feature'') True False = Implement"
  by code_simp+

end
