(* ===== verification/WorkflowLabels.thy ===== *)
theory WorkflowLabels
  imports PhaseResolver
begin

text \<open>
  The names of the labels that the workflows know
  (\<open>actions/github/label-definitions.ts\<close> of \<open>packages/workflow-engine/src\<close>), without their
  colours and descriptions.
\<close>

definition WORKFLOW_LABEL_NAMES :: "string list" where
  "WORKFLOW_LABEL_NAMES =
     [''phase:specify'', ''phase:clarify'', ''phase:plan'', ''phase:tasks'', ''phase:implement'',
      ''phase:review'', ''phase:validate'', ''phase:remediate'', ''waiting-for:spec-review'',
      ''waiting-for:clarification'', ''waiting-for:clarification-review'', ''waiting-for:plan-review'',
      ''waiting-for:tasks-review'', ''waiting-for:implementation-review'', ''waiting-for:sibling-review'',
      ''waiting-for:manual-validation'', ''waiting-for:pr-feedback'', ''waiting-for:address-pr-feedback'',
      ''waiting-for:children-complete'', ''waiting-for:epic-approval'', ''waiting-for:dependencies'',
      ''waiting-for:dependency-limit'', ''waiting-for:merge-conflicts'', ''waiting-for:remediation-limit'',
      ''waiting-for:ci'', ''completed:spec-review'', ''completed:clarification'',
      ''completed:clarification-review'', ''completed:plan-review'', ''completed:tasks-review'',
      ''completed:implementation-review'', ''completed:manual-validation'', ''completed:merge-conflicts'',
      ''completed:setup'', ''completed:specify'', ''completed:clarify'', ''completed:plan'',
      ''completed:tasks'', ''completed:implement'', ''completed:review'', ''completed:validate'',
      ''completed:remediate'', ''completed:remediation-limit'', ''completed:ci'',
      ''completed:children-complete'', ''completed:epic-approval'', ''completed:dependencies'',
      ''completed:dependency-limit'', ''failed:specify'', ''failed:clarify'', ''failed:plan'',
      ''failed:tasks'', ''failed:implement'', ''failed:review'', ''failed:validate'', ''failed:remediate'',
      ''failed:specify-repeated'', ''failed:clarify-repeated'', ''failed:plan-repeated'',
      ''failed:tasks-repeated'', ''failed:implement-repeated'', ''failed:review-repeated'',
      ''failed:validate-repeated'', ''failed:remediate-repeated'', ''type:feature'', ''type:bug'',
      ''type:epic'', ''agent:dispatched'', ''agent:in-progress'', ''agent:paused'', ''agent:error'',
      ''needs:epic-approval'', ''needs:human-review'', ''process:speckit-feature'',
      ''process:speckit-bugfix'', ''process:speckit-epic'', ''workflow:speckit-feature'',
      ''workflow:speckit-bugfix'', ''workflow:speckit-epic'', ''epic-child'',
      ''blocked:stuck-feedback-loop'', ''blocked:fixer-timeout'', ''blocked:fixer-timeout-no-progress'',
      ''blocked:fixer-timeout-repeat'', ''blocked:resolve-failed'', ''blocked:stuck-validate-fix'',
      ''blocked:stuck-merge-conflicts'', ''blocked:ambiguous-linked-prs'']"

text \<open>
  Every gate that the resolver of phases knows can be waited for and completed by labels of the
  list, and every phase can be shown as running, completed and failed.
\<close>

lemma gate_labels_known:
  "\<forall>g\<in>set (jkeys GATE_MAPPING @ concat (map jkeys (jvals WORKFLOW_GATE_MAPPING))).
     ''waiting-for:'' @ g \<in> set WORKFLOW_LABEL_NAMES \<and> ''completed:'' @ g \<in> set WORKFLOW_LABEL_NAMES"
  by code_simp

lemma phase_labels_known:
  "''phase:'' @ phase_name p \<in> set WORKFLOW_LABEL_NAMES \<and> ''completed:'' @ phase_name p \<in> set WORKFLOW_LABEL_NAMES
   \<and> ''failed:'' @ phase_name p \<in> set WORKFLOW_LABEL_NAMES"
  by (cases p) (simp_all add: WORKFLOW_LABEL_NAMES_def)

text \<open>Three gates can be waited for, but their completion is no label of the list.\<close>

lemma uncompletable_gates:
  "filter (\<lambda>g. ''completed:'' @ g \<notin> set WORKFLOW_LABEL_NAMES) (suffixes ''waiting-for:'' WORKFLOW_LABEL_NAMES)
     = [''sibling-review'', ''pr-feedback'', ''address-pr-feedback'']"
  by code_simp

end
