(* ===== verification/LabelManager.thy ===== *)
theory LabelManager
  imports PhaseResolver WorkflowTypes
begin

text \<open>
  The labels of an issue while a worker runs its phases: \<open>worker/label-manager.ts\<close>,
  \<open>worker/terminal-label-op-error.ts\<close> and \<open>worker/provisioning-failure.ts\<close> of
  \<open>src/packages/orchestrator/src\<close>, and the classification of provisioning errors
  (\<open>actions/github/classify-label-provisioning-error.ts\<close> of \<open>src/packages/workflow-engine/src\<close>).
  GitHub is a client with a state of its own, any of whose calls may fail; what is asked of it is
  stated in \<open>gh_laws\<close>. The manager is used by one worker at a time.
\<close>

section \<open>Errors\<close>

datatype label_site =
    Site_gate_hit | Site_phase_start | Site_phase_complete | Site_phase_executed_no_completion
  | Site_error | Site_error_repeated | Site_resume_start | Site_workflow_complete

datatype label_error =
    Gh_error string
  | Unauthorized_gate_completion string
  | Terminal_label_op label_site string

primrec label_error_text :: "label_error \<Rightarrow> string" where
  "label_error_text (Gh_error m) = m"
| "label_error_text (Unauthorized_gate_completion l) =
     ''refused to add '' @ [CHR 34] @ l @ [CHR 34] @ '': writing completed:<human-gate> requires an AllowGateComplete token''"
| "label_error_text (Terminal_label_op site m) = m"

fun spaced_match :: "string \<Rightarrow> string \<Rightarrow> string \<Rightarrow> bool" where
  "spaced_match a b [] \<longleftrightarrow> False"
| "spaced_match a b (c # cs) \<longleftrightarrow>
     (let r = drop (length a) (c # cs)
      in starts_with a (c # cs) \<and> r \<noteq> [] \<and> is_space (hd r) \<and> starts_with b (dropWhile is_space r))
     \<or> spaced_match a b cs"

definition is_not_found :: "string \<Rightarrow> bool" where
  "is_not_found m \<longleftrightarrow> spaced_match ''HTTP'' ''404'' m \<or> spaced_match ''Not'' ''Found'' m"

fun http_status :: "string \<Rightarrow> nat option" where
  "http_status [] = None"
| "http_status (c # cs) =
     (let r = drop 4 (c # cs); d = dropWhile is_space r
      in if starts_with ''HTTP'' (c # cs) \<and> r \<noteq> [] \<and> is_space (hd r) \<and> 3 \<le> length (takeWhile is_digit d)
         then Some (read_nat (take 3 d)) else http_status cs)"

text \<open>\<open>/^Failed to create label [^:]+: /\<close> is cut off.\<close>

definition strip_create_prefix :: "string \<Rightarrow> string" where
  "strip_create_prefix m =
     (let r = drop (length ''Failed to create label '') m; n = takeWhile (\<lambda>c. c \<noteq> CHR '':'') r; r' = dropWhile (\<lambda>c. c \<noteq> CHR '':'') r
      in if starts_with ''Failed to create label '' m \<and> n \<noteq> [] \<and> starts_with '': '' r' then drop 2 r' else m)"

record provisioning_error =
  pe_cause :: string
  pe_statusCode :: "nat option"

text \<open>\<open>None\<close> is a label that exists already.\<close>

definition classifyLabelProvisioningError :: "string \<Rightarrow> provisioning_error option" where
  "classifyLabelProvisioningError m =
     (if has_text ''already exists'' (map to_lower m) \<or> has_text ''already_exists'' (map to_lower m) then None
      else Some \<lparr> pe_cause = strip_create_prefix m, pe_statusCode = http_status m \<rparr>)"

section \<open>GitHub\<close>

record label_def =
  lbl_name :: string
  lbl_color :: string
  lbl_description :: string

text \<open>The calls the manager makes about its issue and its repository.\<close>

record 'g gh_client =
  gh_issueLabels :: "(string, 'g, string list) comp"
  gh_addLabels :: "string list \<Rightarrow> (string, 'g, unit) comp"
  gh_removeLabels :: "string list \<Rightarrow> (string, 'g, unit) comp"
  gh_listLabels :: "(string, 'g, string list) comp"
  gh_createLabel :: "label_def \<Rightarrow> (string, 'g, unit) comp"

record 'g label_world =
  lw_github :: 'g
  lw_ensuredRepos :: "string list"
  lw_provisioningFailures :: "(string, (string, provisioning_error) jmap) jmap"
  lw_cleared :: "string list"

record 'g label_manager =
  lbm_client :: "'g gh_client"
  lbm_repo :: string
  lbm_labels :: "label_def list"
  lbm_clearResumeDedupe :: bool

type_synonym ('g, 'a) labelling = "(label_error, 'g label_world, 'a) comp"

definition gh_call :: "(string, 'g, 'a) comp \<Rightarrow> ('g, 'a) labelling" where
  "gh_call f = (\<lambda>w. case f (lw_github w) of (r, g) \<Rightarrow> (map_sum Gh_error id r, w\<lparr> lw_github := g \<rparr>))"

section \<open>Human gates\<close>

definition SUPPLEMENTAL_HUMAN_GATE_SUFFIXES :: "string list" where
  "SUPPLEMENTAL_HUMAN_GATE_SUFFIXES = [''sibling-review'', ''merge-conflicts'']"

definition HUMAN_GATE_SUFFIXES :: "string list" where
  "HUMAN_GATE_SUFFIXES =
     jkeys GATE_MAPPING @ concat (map jkeys (jvals WORKFLOW_GATE_MAPPING)) @ SUPPLEMENTAL_HUMAN_GATE_SUFFIXES"

definition isHumanGateCompletion :: "string \<Rightarrow> bool" where
  "isHumanGateCompletion label \<longleftrightarrow>
     starts_with ''completed:'' label \<and> drop (length ''completed:'') label \<in> set HUMAN_GATE_SUFFIXES"

definition DEFAULT_RESUME_RETAIN_SUFFIXES :: "string list" where
  "DEFAULT_RESUME_RETAIN_SUFFIXES = [''remediation-limit'', ''dependency-limit'']"

definition resolveResumeRetainSuffixes :: "bool \<Rightarrow> string list" where
  "resolveResumeRetainSuffixes ciMergeGateEnabled =
     DEFAULT_RESUME_RETAIN_SUFFIXES @ (if ciMergeGateEnabled then [''implementation-review''] else [])"

section \<open>Provisioning and applying\<close>

definition note_failure :: "string \<Rightarrow> string \<Rightarrow> provisioning_error \<Rightarrow> 'g label_world \<Rightarrow> 'g label_world" where
  "note_failure repo name e w =
     (let repoMap = (case jget (lw_provisioningFailures w) repo of None \<Rightarrow> [] | Some m \<Rightarrow> m)
      in w\<lparr> lw_provisioningFailures := jset repo (jset name e repoMap) (lw_provisioningFailures w) \<rparr>)"

text \<open>The labels that were created or existed already, and whether creating one failed otherwise.\<close>

primrec create_missing :: "'g label_manager \<Rightarrow> label_def list \<Rightarrow> ('g, string list \<times> bool) labelling" where
  "create_missing M [] = cret ([], False)"
| "create_missing M (l # ls) =
     (\<lambda>w. case gh_call (gh_createLabel (lbm_client M) l) w of
        (Inr _, w') \<Rightarrow> cbind (create_missing M ls) (\<lambda>(ok, bad). cret (lbl_name l # ok, bad)) w'
      | (Inl e, w') \<Rightarrow>
          (case classifyLabelProvisioningError (label_error_text e) of
             None \<Rightarrow> cbind (create_missing M ls) (\<lambda>(ok, bad). cret (lbl_name l # ok, bad)) w'
           | Some pe \<Rightarrow>
               cbind (create_missing M ls) (\<lambda>(ok, bad). cret (ok, True)) (note_failure (lbm_repo M) (lbl_name l) pe w')))"

definition clear_lineage :: "string \<Rightarrow> string list \<Rightarrow> 'g label_world \<Rightarrow> 'g label_world" where
  "clear_lineage repo names w =
     (case jget (lw_provisioningFailures w) repo of
        None \<Rightarrow> w
      | Some m \<Rightarrow>
          (let m' = fold jdel names m
           in w\<lparr> lw_provisioningFailures :=
                  (if m' = [] then jdel repo (lw_provisioningFailures w) else jset repo m' (lw_provisioningFailures w)) \<rparr>))"

definition ensureRepoLabelsExist :: "'g label_manager \<Rightarrow> ('g, unit) labelling" where
  "ensureRepoLabelsExist M =
     (\<lambda>w. if lbm_repo M \<in> set (lw_ensuredRepos w) then (Inr (), w)
      else
        cbind (gh_call (gh_listLabels (lbm_client M)))
          (\<lambda>existing. cbind (create_missing M (filter (\<lambda>l. lbl_name l \<notin> set existing) (lbm_labels M)))
             (\<lambda>(ok, bad). cmod (\<lambda>w.
                (let w' = clear_lineage (lbm_repo M) ok w
                 in if bad then w' else w'\<lparr> lw_ensuredRepos := sadd (lbm_repo M) (lw_ensuredRepos w') \<rparr>)))) w)"

definition enrichments :: "'g label_manager \<Rightarrow> string list \<Rightarrow> 'g label_world \<Rightarrow> string list" where
  "enrichments M labels w =
     (case jget (lw_provisioningFailures w) (lbm_repo M) of
        None \<Rightarrow> []
      | Some m \<Rightarrow>
          concat (map (\<lambda>n. if n \<notin> lbl_name ` set (lbm_labels M) then []
                           else (case jget m n of
                                   None \<Rightarrow> []
                                 | Some e \<Rightarrow> [''label '' @ [CHR 34] @ n @ [CHR 34] @ '': '' @ pe_cause e @
                                     (case pe_statusCode e of None \<Rightarrow> [] | Some c \<Rightarrow> '' (HTTP '' @ show_nat c @ '')'')])) labels))"

definition applyLabels :: "'g label_manager \<Rightarrow> string list \<Rightarrow> bool \<Rightarrow> ('g, unit) labelling" where
  "applyLabels M labels allow =
     (case (if allow then None else List.find isHumanGateCompletion labels) of
        Some l \<Rightarrow> cthrow (Unauthorized_gate_completion l)
      | None \<Rightarrow>
          ctry (gh_call (gh_addLabels (lbm_client M) labels))
            (\<lambda>e w. (let m = label_error_text e; es = enrichments M labels w
                    in if \<not> is_not_found m \<or> es = [] then (Inl e, w)
                       else (Inl (Gh_error (join_with [CHR 10] es @ [CHR 10] @ m)), w))))"

text \<open>At most \<open>n\<close> attempts; the sleeps in between do nothing else.\<close>

primrec retry_label :: "nat \<Rightarrow> label_site \<Rightarrow> ('g, unit) labelling \<Rightarrow> ('g, unit) labelling" where
  "retry_label 0 site f = cthrow (Gh_error ''retryWithBackoff: unexpected exit'')"
| "retry_label (Suc n) site f =
     ctry f (\<lambda>e. if n = 0 then cthrow (Terminal_label_op site (label_error_text e)) else retry_label n site f)"

definition retryWithBackoff :: "label_site \<Rightarrow> ('g, unit) labelling \<Rightarrow> ('g, unit) labelling" where
  "retryWithBackoff site f = retry_label 3 site f"

section \<open>Transitions\<close>

definition phase_label :: "workflow_phase \<Rightarrow> string" where
  "phase_label p = ''phase:'' @ phase_name p"

definition completed_label :: "workflow_phase \<Rightarrow> string" where
  "completed_label p = ''completed:'' @ phase_name p"

definition issue_labels :: "'g label_manager \<Rightarrow> ('g, string list) labelling" where
  "issue_labels M = gh_call (gh_issueLabels (lbm_client M))"

definition remove_labels :: "'g label_manager \<Rightarrow> string list \<Rightarrow> ('g, unit) labelling" where
  "remove_labels M ls = gh_call (gh_removeLabels (lbm_client M) ls)"

definition getCurrentPhaseLabels :: "'g label_manager \<Rightarrow> ('g, string list) labelling" where
  "getCurrentPhaseLabels M = cbind (issue_labels M) (\<lambda>ls. cret (filter (starts_with ''phase:'') ls))"

definition onPhaseStart :: "'g label_manager \<Rightarrow> workflow_phase \<Rightarrow> ('g, unit) labelling" where
  "onPhaseStart M p =
     retryWithBackoff Site_phase_start
       (cbind (ensureRepoLabelsExist M) (\<lambda>_.
        cbind (getCurrentPhaseLabels M) (\<lambda>current.
          (let labelsToRemove = filter (\<lambda>l. l \<noteq> phase_label p) current
           in cbind (if labelsToRemove = [] then cret () else remove_labels M labelsToRemove)
                (\<lambda>_. applyLabels M [phase_label p] False)))))"

definition onPhaseComplete :: "'g label_manager \<Rightarrow> workflow_phase \<Rightarrow> ('g, unit) labelling" where
  "onPhaseComplete M p =
     retryWithBackoff Site_phase_complete
       (cbind (ensureRepoLabelsExist M) (\<lambda>_.
        cbind (remove_labels M [phase_label p]) (\<lambda>_. applyLabels M [completed_label p] False)))"

definition onPhaseExecutedWithoutCompletion :: "'g label_manager \<Rightarrow> workflow_phase \<Rightarrow> ('g, unit) labelling" where
  "onPhaseExecutedWithoutCompletion M p =
     retryWithBackoff Site_phase_executed_no_completion
       (cbind (ensureRepoLabelsExist M) (\<lambda>_. remove_labels M [phase_label p]))"

definition onGateHit :: "'g label_manager \<Rightarrow> workflow_phase \<Rightarrow> string \<Rightarrow> ('g, unit) labelling" where
  "onGateHit M p gateLabel =
     cbind (retryWithBackoff Site_gate_hit
        (cbind (ensureRepoLabelsExist M) (\<lambda>_.
         cbind (remove_labels M [phase_label p]) (\<lambda>_. applyLabels M [gateLabel, ''agent:paused''] False))))
       (\<lambda>_. if lbm_clearResumeDedupe M
             then cmod (\<lambda>w. w\<lparr> lw_cleared := lw_cleared w @
                [if starts_with ''waiting-for:'' gateLabel then drop (length ''waiting-for:'') gateLabel else gateLabel] \<rparr>)
             else cret ())"

definition onError :: "'g label_manager \<Rightarrow> workflow_phase \<Rightarrow> ('g, unit) labelling" where
  "onError M p =
     retryWithBackoff Site_error
       (cbind (ensureRepoLabelsExist M) (\<lambda>_.
        cbind (remove_labels M [phase_label p, ''agent:in-progress''])
          (\<lambda>_. applyLabels M [''failed:'' @ phase_name p, ''agent:error''] False)))"

definition onRepeatedError :: "'g label_manager \<Rightarrow> workflow_phase \<Rightarrow> ('g, unit) labelling" where
  "onRepeatedError M p =
     retryWithBackoff Site_error_repeated
       (cbind (ensureRepoLabelsExist M) (\<lambda>_. applyLabels M [''failed:'' @ phase_name p @ ''-repeated''] False))"

definition onWorkflowComplete :: "'g label_manager \<Rightarrow> ('g, unit) labelling" where
  "onWorkflowComplete M =
     retryWithBackoff Site_workflow_complete
       (cbind (ensureRepoLabelsExist M) (\<lambda>_. remove_labels M [''agent:in-progress'']))"

text \<open>The labels that a resume removes, in the order in which they are collected.\<close>

definition stripped_labels :: "string list \<Rightarrow> string list \<Rightarrow> string list" where
  "stripped_labels retain current =
     fold (\<lambda>g acc. let c = ''completed:'' @ g in if c \<in> set current \<and> g \<notin> set retain then sadd c acc else acc)
       (suffixes ''waiting-for:'' current)
       (filter (\<lambda>l. starts_with ''waiting-for:'' l \<or> l = ''agent:paused'') current)"

definition onResumeStart :: "'g label_manager \<Rightarrow> string list option \<Rightarrow> ('g, unit) labelling" where
  "onResumeStart M retainCompletedSuffixes =
     (let retain = (case retainCompletedSuffixes of None \<Rightarrow> DEFAULT_RESUME_RETAIN_SUFFIXES | Some r \<Rightarrow> r)
      in retryWithBackoff Site_resume_start
           (cbind (ensureRepoLabelsExist M) (\<lambda>_.
            cbind (issue_labels M) (\<lambda>current.
              (let ls = stripped_labels retain current
               in cbind (if ls = [] then cret () else remove_labels M ls)
                    (\<lambda>_. applyLabels M [''agent:in-progress''] False))))))"

definition ensureCleanup :: "'g label_manager \<Rightarrow> ('g, unit) labelling" where
  "ensureCleanup M =
     ctry (cbind (getCurrentPhaseLabels M) (\<lambda>current.
             retryWithBackoff Site_error (remove_labels M (''agent:in-progress'' # current))))
       (\<lambda>_. cret ())"

end
