(* ===== verification/IssueLabels.thy ===== *)
theory IssueLabels
  imports LabelManager
begin

text \<open>
  What the label manager does to an issue, on a GitHub whose calls may fail at any time: it never
  completes a human gate and never touches labels of others, a transition that returns has
  happened, and the phase resolver finds from the labels where to go on after a crash and after
  a pause.
\<close>

section \<open>GitHub as documented\<close>

text \<open>
  \<open>gl\<close> reads the labels of the issue off the state of GitHub and \<open>gr\<close> those of the repository.
  A call that fails may have done a part of its work; reading and provisioning leave the labels of
  the issue alone, and no label of the repository is deleted. The client takes a removal that GitHub
  refuses because the repository does not have one of the labels for done.
\<close>

definition between :: "string set \<Rightarrow> string set \<Rightarrow> string set \<Rightarrow> bool" where
  "between A X B \<longleftrightarrow> A \<subseteq> X \<and> X \<subseteq> B"

definition gh_laws :: "'g gh_client \<Rightarrow> ('g \<Rightarrow> string set) \<Rightarrow> ('g \<Rightarrow> string set) \<Rightarrow> bool" where
  "gh_laws C gl gr \<longleftrightarrow>
     (\<forall>g. gl g \<subseteq> gr g)
     \<and> (\<forall>g r g'. gh_issueLabels C g = (r, g') \<longrightarrow> gl g' = gl g \<and> gr g \<subseteq> gr g' \<and> (\<forall>ls. r = Inr ls \<longrightarrow> set ls = gl g))
     \<and> (\<forall>ls g r g'. gh_addLabels C ls g = (r, g') \<longrightarrow>
          between (gl g) (gl g') (gl g \<union> set ls) \<and> gr g \<subseteq> gr g' \<and> (r = Inr () \<longrightarrow> set ls \<subseteq> gl g'))
     \<and> (\<forall>ls g r g'. gh_removeLabels C ls g = (r, g') \<longrightarrow>
          between (gl g - set ls) (gl g') (gl g) \<and> gr g \<subseteq> gr g' \<and> (r = Inr () \<and> set ls \<subseteq> gr g \<longrightarrow> gl g' \<inter> set ls = {}))
     \<and> (\<forall>g r g'. gh_listLabels C g = (r, g') \<longrightarrow> gl g' = gl g \<and> gr g \<subseteq> gr g')
     \<and> (\<forall>l g r g'. gh_createLabel C l g = (r, g') \<longrightarrow> gl g' = gl g \<and> gr g \<subseteq> gr g')"

lemma gh_laws_issue: "gh_laws C gl gr \<Longrightarrow> gh_issueLabels C g = (r, g') \<Longrightarrow> gl g' = gl g \<and> gr g \<subseteq> gr g' \<and> (\<forall>ls. r = Inr ls \<longrightarrow> set ls = gl g)"
  unfolding gh_laws_def by (elim conjE) metis

lemma gh_laws_add: "gh_laws C gl gr \<Longrightarrow> gh_addLabels C ls g = (r, g') \<Longrightarrow>
    between (gl g) (gl g') (gl g \<union> set ls) \<and> gr g \<subseteq> gr g' \<and> (r = Inr () \<longrightarrow> set ls \<subseteq> gl g')"
  unfolding gh_laws_def by (elim conjE) metis

lemma gh_laws_remove: "gh_laws C gl gr \<Longrightarrow> gh_removeLabels C ls g = (r, g') \<Longrightarrow>
    between (gl g - set ls) (gl g') (gl g) \<and> gr g \<subseteq> gr g' \<and> (r = Inr () \<and> set ls \<subseteq> gr g \<longrightarrow> gl g' \<inter> set ls = {}) \<and> gl g \<subseteq> gr g"
  unfolding gh_laws_def by (elim conjE) metis

lemma gh_laws_list: "gh_laws C gl gr \<Longrightarrow> gh_listLabels C g = (r, g') \<Longrightarrow> gl g' = gl g \<and> gr g \<subseteq> gr g'"
  unfolding gh_laws_def by (elim conjE) metis

lemma gh_laws_create: "gh_laws C gl gr \<Longrightarrow> gh_createLabel C l g = (r, g') \<Longrightarrow> gl g' = gl g \<and> gr g \<subseteq> gr g'"
  unfolding gh_laws_def by (elim conjE) metis

section \<open>Reasoning about computations\<close>

text \<open>
  From a state with \<open>P\<close> the computation ends with \<open>Q\<close> of its value if it returns and with
  \<open>E\<close> if it throws.
\<close>

definition runs :: "('s \<Rightarrow> bool) \<Rightarrow> ('e, 's, 'a) comp \<Rightarrow> ('a \<Rightarrow> 's \<Rightarrow> bool) \<Rightarrow> ('s \<Rightarrow> bool) \<Rightarrow> bool" where
  "runs P m Q E \<longleftrightarrow> (\<forall>s. P s \<longrightarrow> (case m s of (Inr x, s') \<Rightarrow> Q x s' | (Inl _, s') \<Rightarrow> E s'))"

lemma runs_bind:
  assumes "runs P m R E" and "\<And>x. runs (R x) (f x) Q E"
  shows "runs P (cbind m f) Q E"
  unfolding runs_def
proof (intro allI impI)
  fix s assume "P s"
  then have m: "case m s of (Inr x, s') \<Rightarrow> R x s' | (Inl _, s') \<Rightarrow> E s'" using assms(1) by (simp add: runs_def)
  show "case cbind m f s of (Inr x, s') \<Rightarrow> Q x s' | (Inl _, s') \<Rightarrow> E s'"
  proof (cases "m s")
    case (Pair r s')
    with m assms(2) show ?thesis by (cases r) (simp_all add: comp_simps runs_def)
  qed
qed

lemma runs_ret: "(\<And>s. P s \<Longrightarrow> Q x s) \<Longrightarrow> runs P (cret x) Q E"
  by (simp add: runs_def comp_simps)

lemma runs_mod: "(\<And>s. P s \<Longrightarrow> Q () (f s)) \<Longrightarrow> runs P (cmod f) Q E"
  by (simp add: runs_def comp_simps)

lemma runs_if: "(b \<Longrightarrow> runs P m Q E) \<Longrightarrow> (\<not> b \<Longrightarrow> runs P m' Q E) \<Longrightarrow> runs P (if b then m else m') Q E"
  by simp

lemma runs_weaken:
  assumes "runs P m Q E" and "\<And>s. P' s \<Longrightarrow> P s" and "\<And>x s. Q x s \<Longrightarrow> Q' x s" and "\<And>s. E s \<Longrightarrow> E' s"
  shows "runs P' m Q' E'"
  using assms unfolding runs_def by (fastforce split: prod.splits sum.splits)

lemma runs_ctry:
  assumes "runs P m Q R" and "\<And>e. runs R (h e) Q E"
  shows "runs P (ctry m h) Q E"
  unfolding runs_def
proof (intro allI impI)
  fix s assume "P s"
  then have m: "case m s of (Inr x, s') \<Rightarrow> Q x s' | (Inl _, s') \<Rightarrow> R s'" using assms(1) by (simp add: runs_def)
  show "case ctry m h s of (Inr x, s') \<Rightarrow> Q x s' | (Inl _, s') \<Rightarrow> E s'"
  proof (cases "m s")
    case (Pair r s')
    with m assms(2) show ?thesis by (cases r) (simp_all add: comp_simps runs_def)
  qed
qed

lemma runs_state: "(\<And>s. P s \<Longrightarrow> \<exists>e. m s = (Inl e, s)) \<Longrightarrow> (\<And>s. P s \<Longrightarrow> E s) \<Longrightarrow> runs P m Q E"
  unfolding runs_def by fastforce

lemma runs_ex: "(\<And>X. runs (P X) m Q E) \<Longrightarrow> runs (\<lambda>s. \<exists>X. P X s) m Q E"
  unfolding runs_def by (intro allI impI, elim exE) meson

text \<open>An attempt that fails leaves a state from which the next one starts.\<close>

lemma runs_retry_label: "runs P f Q P \<Longrightarrow> runs P (retry_label n site f) Q P"
proof (induction n)
  case (Suc n)
  show ?case unfolding retry_label.simps
  proof (rule runs_ctry [OF Suc.prems])
    show "runs P (if n = 0 then cthrow (Terminal_label_op site (label_error_text e)) else retry_label n site f) Q P" for e
      using Suc by (simp add: runs_def comp_simps)
  qed
qed (simp add: runs_def comp_simps)

lemma runs_retry: "runs P f Q P \<Longrightarrow> runs P (retryWithBackoff site f) Q P"
  unfolding retryWithBackoff_def by (rule runs_retry_label)

section \<open>Calls\<close>

text \<open>The issue has the labels \<open>X\<close>, and the repository has at least those in \<open>R\<close>.\<close>

definition issue_at :: "('g \<Rightarrow> string set) \<Rightarrow> ('g \<Rightarrow> string set) \<Rightarrow> string set \<Rightarrow> string set \<Rightarrow> 'g label_world \<Rightarrow> bool" where
  "issue_at gl gr R X w \<longleftrightarrow> gl (lw_github w) = X \<and> R \<subseteq> gr (lw_github w)"

definition issue_between :: "('g \<Rightarrow> string set) \<Rightarrow> ('g \<Rightarrow> string set) \<Rightarrow> string set \<Rightarrow> string set \<Rightarrow> string set \<Rightarrow> 'g label_world \<Rightarrow> bool" where
  "issue_between gl gr R A B w \<longleftrightarrow> (\<exists>X. between A X B \<and> issue_at gl gr R X w)"

lemma gh_call_runs:
  assumes "\<And>g r g'. f g = (r, g') \<Longrightarrow> P g \<Longrightarrow> (\<forall>x. r = Inr x \<longrightarrow> Q x g') \<and> ((\<exists>e. r = Inl e) \<longrightarrow> E g')"
  shows "runs (\<lambda>w. P (lw_github w)) (gh_call f) (\<lambda>x w. Q x (lw_github w)) (\<lambda>w. E (lw_github w))"
  unfolding runs_def gh_call_def
proof (intro allI impI)
  fix w :: "'a label_world" assume P: "P (lw_github w)"
  obtain r g' where f: "f (lw_github w) = (r, g')" by fastforce
  from assms [OF f P] show "case case f (lw_github w) of (r, g) \<Rightarrow> (map_sum Gh_error id r, w\<lparr>lw_github := g\<rparr>) of
      (Inl x, s') \<Rightarrow> E (lw_github s') | (Inr x, s') \<Rightarrow> Q x (lw_github s')"
    by (cases r) (simp_all add: f)
qed

lemma issue_labels_run:
  assumes "gh_laws (lbm_client M) gl gr"
  shows "runs (issue_at gl gr R X) (issue_labels M) (\<lambda>ls w. issue_at gl gr R X w \<and> set ls = X) (issue_at gl gr R X)"
  unfolding issue_labels_def issue_at_def
  by (rule gh_call_runs) (auto dest!: gh_laws_issue [OF assms])

lemma list_labels_run:
  assumes "gh_laws (lbm_client M) gl gr"
  shows "runs (issue_at gl gr R X) (gh_call (gh_listLabels (lbm_client M))) (\<lambda>_. issue_at gl gr R X) (issue_at gl gr R X)"
  unfolding issue_at_def
  by (rule gh_call_runs) (auto dest!: gh_laws_list [OF assms])

lemma add_labels_run:
  assumes "gh_laws (lbm_client M) gl gr"
  shows "runs (issue_at gl gr R X) (gh_call (gh_addLabels (lbm_client M) ls)) (\<lambda>_. issue_at gl gr R (X \<union> set ls))
    (issue_between gl gr R X (X \<union> set ls))"
  unfolding issue_at_def issue_between_def
  by (rule gh_call_runs) (auto simp: between_def dest!: gh_laws_add [OF assms])

text \<open>A label that the repository does not have is on no issue of it.\<close>

lemma remove_labels_run:
  assumes "gh_laws (lbm_client M) gl gr" and "set ls \<subseteq> X \<union> R \<or> (\<exists>l. ls = [l])"
  shows "runs (issue_at gl gr R X) (remove_labels M ls) (\<lambda>_. issue_at gl gr R (X - set ls))
    (issue_between gl gr R (X - set ls) X)"
  unfolding issue_at_def issue_between_def remove_labels_def
proof (rule gh_call_runs)
  fix g r g' assume f: "gh_removeLabels (lbm_client M) ls g = (r, g')" and P: "gl g = X \<and> R \<subseteq> gr g"
  note l = gh_laws_remove [OF assms(1) f]
  have "gl g' = X - set ls" if "r = Inr ()"
  proof (cases "set ls \<subseteq> gr g")
    case True
    with l that P show ?thesis unfolding between_def by blast
  next
    case False
    then have "\<not> set ls \<subseteq> X \<union> R" using P l by blast
    then obtain x where x: "ls = [x]" using assms(2) by blast
    with False have "x \<notin> gr g" by simp
    note this x
    then show ?thesis using l P unfolding between_def by auto
  qed
  with l P show "(\<forall>x. r = Inr x \<longrightarrow> gl g' = X - set ls \<and> R \<subseteq> gr g')
      \<and> ((\<exists>e. r = Inl e) \<longrightarrow> (\<exists>Y. between (X - set ls) Y X \<and> gl g' = Y \<and> R \<subseteq> gr g'))"
    by auto
qed

text \<open>Without knowing the labels of the repository, the labels are between.\<close>

lemma remove_labels_bounds:
  assumes "gh_laws (lbm_client M) gl gr"
  shows "runs (issue_at gl gr R X) (remove_labels M ls) (\<lambda>_. issue_between gl gr R (X - set ls) X) (issue_between gl gr R (X - set ls) X)"
  unfolding issue_at_def issue_between_def remove_labels_def
  by (rule gh_call_runs) (auto dest!: gh_laws_remove [OF assms])

text \<open>Labels are applied only if no human gate is completed by them.\<close>

lemma apply_labels_run:
  assumes "gh_laws (lbm_client M) gl gr"
  shows "runs (issue_at gl gr R X) (applyLabels M ls False)
    (\<lambda>_ w. issue_at gl gr R (X \<union> set ls) w \<and> (\<forall>l\<in>set ls. \<not> isHumanGateCompletion l))
    (issue_between gl gr R X (X \<union> {l \<in> set ls. \<not> isHumanGateCompletion l}))"
proof (cases "List.find isHumanGateCompletion ls")
  case (Some l)
  then show ?thesis by (auto simp: applyLabels_def runs_def comp_simps between_def issue_between_def)
next
  case None
  then have none: "\<forall>l\<in>set ls. \<not> isHumanGateCompletion l" by (auto simp: find_None_iff)
  then have all: "{l \<in> set ls. \<not> isHumanGateCompletion l} = set ls" by auto
  have "runs (issue_at gl gr R X) (applyLabels M ls False) (\<lambda>_. issue_at gl gr R (X \<union> set ls)) (issue_between gl gr R X (X \<union> set ls))"
    using None unfolding applyLabels_def
    by (auto simp: Let_def intro!: runs_ctry [OF add_labels_run [OF assms]] runs_state)
  then show ?thesis unfolding all by (rule runs_weaken) (use none in auto)
qed

lemma create_missing_run:
  assumes "gh_laws (lbm_client M) gl gr"
  shows "runs (issue_at gl gr R X) (create_missing M ls) (\<lambda>_. issue_at gl gr R X) (\<lambda>_. False)"
proof (induction ls)
  case (Cons l ls)
  have rest: "runs (issue_at gl gr R X) (cbind (create_missing M ls) (\<lambda>(ok, bad). cret (h ok bad))) (\<lambda>_. issue_at gl gr R X) (\<lambda>_. False)"
    for h :: "string list \<Rightarrow> bool \<Rightarrow> string list \<times> bool"
    using Cons by (rule runs_bind) (auto intro!: runs_ret split: prod.split)
  have call: "runs (issue_at gl gr R X) (gh_call (gh_createLabel (lbm_client M) l)) (\<lambda>_. issue_at gl gr R X) (issue_at gl gr R X)"
    unfolding issue_at_def by (rule gh_call_runs) (auto dest!: gh_laws_create [OF assms])
  have failed: "issue_at gl gr R X w \<Longrightarrow> issue_at gl gr R X (note_failure r n e w)" for r n e w
    by (simp add: issue_at_def note_failure_def Let_def)
  show ?case unfolding runs_def
  proof (intro allI impI)
    fix w :: "'a label_world" assume w: "issue_at gl gr R X w"
    obtain r w' where r: "gh_call (gh_createLabel (lbm_client M) l) w = (r, w')" by fastforce
    with call w have w': "issue_at gl gr R X w'" by (cases r) (auto simp: runs_def)
    from rest [unfolded runs_def, rule_format, OF w'] rest [unfolded runs_def, rule_format, OF failed [OF w']]
    show "case create_missing M (l # ls) w of (Inl b, s') \<Rightarrow> False | (Inr x, s') \<Rightarrow> issue_at gl gr R X s'"
      by (cases r) (simp_all add: r split: option.split)
  qed
qed (simp add: runs_ret)

lemma ensure_run:
  assumes "gh_laws (lbm_client M) gl gr"
  shows "runs (issue_at gl gr R X) (ensureRepoLabelsExist M) (\<lambda>_. issue_at gl gr R X) (issue_at gl gr R X)"
proof -
  have clear: "lw_github (clear_lineage r ns w) = lw_github w" for r ns and w :: "'a label_world"
    by (simp add: clear_lineage_def Let_def split: option.split)
  have "runs (issue_at gl gr R X)
      (cbind (gh_call (gh_listLabels (lbm_client M)))
        (\<lambda>existing. cbind (create_missing M (filter (\<lambda>l. lbl_name l \<notin> set existing) (lbm_labels M)))
           (\<lambda>(ok, bad). cmod (\<lambda>w. (let w' = clear_lineage (lbm_repo M) ok w
                in if bad then w' else w'\<lparr> lw_ensuredRepos := sadd (lbm_repo M) (lw_ensuredRepos w') \<rparr>)))))
      (\<lambda>_. issue_at gl gr R X) (issue_at gl gr R X)"
  proof (rule runs_bind [OF list_labels_run [OF assms]], rule runs_bind)
    fix existing
    show "runs (issue_at gl gr R X) (create_missing M (filter (\<lambda>l. lbl_name l \<notin> set existing) (lbm_labels M)))
        (\<lambda>_. issue_at gl gr R X) (issue_at gl gr R X)"
      by (rule runs_weaken [OF create_missing_run [OF assms]]) auto
  next
    fix x :: "string list \<times> bool"
    show "runs (issue_at gl gr R X)
       (case x of (ok, bad) \<Rightarrow> cmod (\<lambda>w. let w' = clear_lineage (lbm_repo M) ok w
                in if bad then w' else w'\<lparr> lw_ensuredRepos := sadd (lbm_repo M) (lw_ensuredRepos w') \<rparr>))
       (\<lambda>_. issue_at gl gr R X) (issue_at gl gr R X)"
      using clear by (cases x) (auto intro!: runs_mod simp: Let_def issue_at_def)
  qed
  then show ?thesis by (auto simp: runs_def ensureRepoLabelsExist_def)
qed

section \<open>Transitions\<close>

text \<open>The calls of the worker on its label manager.\<close>

datatype label_op =
    Phase_start workflow_phase | Phase_complete workflow_phase | Phase_executed workflow_phase
  | Gate_hit workflow_phase string | Phase_error workflow_phase | Phase_repeated_error workflow_phase
  | Workflow_complete | Resume_start "string list option" | Cleanup

primrec perform :: "'g label_manager \<Rightarrow> label_op \<Rightarrow> ('g, unit) labelling" where
  "perform M (Phase_start p) = onPhaseStart M p"
| "perform M (Phase_complete p) = onPhaseComplete M p"
| "perform M (Phase_executed p) = onPhaseExecutedWithoutCompletion M p"
| "perform M (Gate_hit p g) = onGateHit M p g"
| "perform M (Phase_error p) = onError M p"
| "perform M (Phase_repeated_error p) = onRepeatedError M p"
| "perform M Workflow_complete = onWorkflowComplete M"
| "perform M (Resume_start retain) = onResumeStart M retain"
| "perform M Cleanup = ensureCleanup M"

text \<open>A worker goes on whatever a call returns or throws.\<close>

primrec perform_all :: "'g label_manager \<Rightarrow> label_op list \<Rightarrow> 'g label_world \<Rightarrow> 'g label_world" where
  "perform_all M [] w = w"
| "perform_all M (op # ops) w = perform_all M ops (snd (perform M op w))"

text \<open>What a call is for: the labels that it takes off an issue with labels \<open>X\<close> and those it puts on it.\<close>

definition retained :: "string list option \<Rightarrow> string list" where
  "retained retain = (case retain of None \<Rightarrow> DEFAULT_RESUME_RETAIN_SUFFIXES | Some r \<Rightarrow> r)"

primrec takes :: "label_op \<Rightarrow> string set \<Rightarrow> string set" where
  "takes (Phase_start p) X = {l \<in> X. starts_with ''phase:'' l \<and> l \<noteq> phase_label p}"
| "takes (Phase_complete p) X = {phase_label p}"
| "takes (Phase_executed p) X = {phase_label p}"
| "takes (Gate_hit p g) X = {phase_label p}"
| "takes (Phase_error p) X = {phase_label p, ''agent:in-progress''}"
| "takes (Phase_repeated_error p) X = {}"
| "takes Workflow_complete X = {''agent:in-progress''}"
| "takes (Resume_start retain) X =
     {l \<in> X. starts_with ''waiting-for:'' l \<or> l = ''agent:paused''
        \<or> (\<exists>g. l = ''completed:'' @ g \<and> ''waiting-for:'' @ g \<in> X \<and> g \<notin> set (retained retain))}"
| "takes Cleanup X = {l \<in> X. starts_with ''phase:'' l} \<union> {''agent:in-progress''}"

primrec puts :: "label_op \<Rightarrow> string list" where
  "puts (Phase_start p) = [phase_label p]"
| "puts (Phase_complete p) = [completed_label p]"
| "puts (Phase_executed p) = []"
| "puts (Gate_hit p g) = [g, ''agent:paused'']"
| "puts (Phase_error p) = [''failed:'' @ phase_name p, ''agent:error'']"
| "puts (Phase_repeated_error p) = [''failed:'' @ phase_name p @ ''-repeated'']"
| "puts Workflow_complete = []"
| "puts (Resume_start retain) = [''agent:in-progress'']"
| "puts Cleanup = []"

section \<open>Between two sets of labels\<close>

text \<open>Every step keeps the labels between \<open>A\<close> and \<open>B\<close> if it takes none of \<open>A\<close> and puts only some of \<open>B\<close>.\<close>

lemma issue_between_mono: "issue_between gl gr R A' B' w \<Longrightarrow> A \<subseteq> A' \<Longrightarrow> B' \<subseteq> B \<Longrightarrow> issue_between gl gr R A B w"
  unfolding issue_between_def between_def by (meson subset_trans)

lemma issue_between_at: "issue_at gl gr R X w \<Longrightarrow> A \<subseteq> X \<Longrightarrow> X \<subseteq> B \<Longrightarrow> issue_between gl gr R A B w"
  unfolding issue_between_def between_def by blast

lemma runs_between:
  assumes "\<And>X. A \<subseteq> X \<Longrightarrow> X \<subseteq> B \<Longrightarrow> runs (issue_at gl gr R X) m Q E"
  shows "runs (issue_between gl gr R A B) m Q E"
  unfolding issue_between_def
proof (rule runs_ex)
  fix X
  show "runs (\<lambda>w. between A X B \<and> issue_at gl gr R X w) m Q E"
  proof (cases "between A X B")
    case True
    then have "runs (issue_at gl gr R X) m Q E" by (intro assms) (simp_all add: between_def)
    with True show ?thesis by simp
  qed (simp add: runs_def)
qed

lemma runs_and: "runs P m Q E \<Longrightarrow> runs P m Q' E' \<Longrightarrow> runs P m (\<lambda>x w. Q x w \<and> Q' x w) (\<lambda>w. E w \<and> E' w)"
  unfolding runs_def
proof (intro allI impI)
  fix s assume m: "\<forall>s. P s \<longrightarrow> (case m s of (Inr x, s') \<Rightarrow> Q x s' | (Inl _, s') \<Rightarrow> E s')"
    "\<forall>s. P s \<longrightarrow> (case m s of (Inr x, s') \<Rightarrow> Q' x s' | (Inl _, s') \<Rightarrow> E' s')" and s: "P s"
  obtain r s' where r: "m s = (r, s')" by fastforce
  from m [THEN spec [of _ s]] s show "case m s of (Inr x, s') \<Rightarrow> Q x s' \<and> Q' x s' | (Inl _, s') \<Rightarrow> E s' \<and> E' s'"
    by (cases r) (simp_all add: r)
qed

lemma runs_assume: "(c \<Longrightarrow> runs P m Q E) \<Longrightarrow> runs (\<lambda>w. P w \<and> c) m Q E"
  by (simp add: runs_def)

lemma current_run:
  assumes "gh_laws (lbm_client M) gl gr"
  shows "runs (issue_at gl gr R X) (getCurrentPhaseLabels M)
    (\<lambda>ls w. issue_at gl gr R X w \<and> set ls = {l \<in> X. starts_with ''phase:'' l}) (issue_at gl gr R X)"
  unfolding getCurrentPhaseLabels_def
  by (rule runs_bind [OF issue_labels_run [OF assms]]) (auto intro!: runs_ret)

lemma suffixes_mem: "g \<in> set (suffixes pre ls) \<longleftrightarrow> pre @ g \<in> set ls"
  unfolding suffixes_def
  by (auto simp: starts_with_def take_all_iff intro: rev_image_eqI [of "pre @ g"] dest: arg_cong [of _ _ "take (length pre)"])
     (metis append_take_drop_id)

lemma stripped_labels_set:
  "set (stripped_labels (retained retain) ls) = takes (Resume_start retain) (set ls)"
proof -
  have "set (fold (\<lambda>g acc. let c = ''completed:'' @ g in if c \<in> set ls \<and> g \<notin> set r then sadd c acc else acc) gs acc)
      = set acc \<union> {''completed:'' @ g | g. g \<in> set gs \<and> ''completed:'' @ g \<in> set ls \<and> g \<notin> set r}" for gs acc and r :: "string list"
    by (induction gs arbitrary: acc) (auto simp: Let_def)
  then show ?thesis by (auto simp: stripped_labels_def suffixes_mem)
qed

lemma onResumeStart_retained:
  "onResumeStart M retain = retryWithBackoff Site_resume_start
     (cbind (ensureRepoLabelsExist M) (\<lambda>_.
      cbind (issue_labels M) (\<lambda>current.
        (let ls = stripped_labels (retained retain) current
         in cbind (if ls = [] then cret () else remove_labels M ls)
              (\<lambda>_. applyLabels M [''agent:in-progress''] False)))))"
  by (simp add: onResumeStart_def retained_def Let_def)

text \<open>
  A call ends between \<open>A\<close> and \<open>B\<close>, and one that returns has taken and put its labels. Of two labels
  that are taken together without having been read, the repository must have both.
\<close>

definition precise :: "label_op \<Rightarrow> string set \<Rightarrow> bool" where
  "precise op R \<longleftrightarrow> op \<noteq> Cleanup \<and> (\<forall>p. op = Phase_error p \<longrightarrow> takes op {} \<subseteq> R)"

definition done_from :: "('g \<Rightarrow> string set) \<Rightarrow> ('g \<Rightarrow> string set) \<Rightarrow> string set \<Rightarrow> label_op \<Rightarrow> string set \<Rightarrow> 'g label_world \<Rightarrow> bool" where
  "done_from gl gr R op Y w \<longleftrightarrow>
     issue_at gl gr R (Y - takes op Y \<union> set (puts op)) w \<and> (\<forall>l\<in>set (puts op). \<not> isHumanGateCompletion l)"

lemma remove_step:
  assumes "gh_laws (lbm_client M) gl gr" and "A \<subseteq> X" and "X \<subseteq> B" and "set ls \<inter> A = {}"
  shows "runs (issue_at gl gr R X) (if skip \<and> ls = [] then cret () else remove_labels M ls)
    (\<lambda>_ w. issue_between gl gr R A B w \<and> (set ls \<subseteq> X \<union> R \<or> (\<exists>l. ls = [l]) \<longrightarrow> issue_at gl gr R (X - set ls) w))
    (issue_between gl gr R A B)"
proof -
  have bounds: "runs (issue_at gl gr R X) (remove_labels M ls) (\<lambda>_. issue_between gl gr R A B) (issue_between gl gr R A B)"
    by (rule runs_weaken [OF remove_labels_bounds [OF assms(1)]]) (use assms(2-4) in \<open>auto elim!: issue_between_mono\<close>)
  have "runs (issue_at gl gr R X) (remove_labels M ls)
    (\<lambda>_ w. set ls \<subseteq> X \<union> R \<or> (\<exists>l. ls = [l]) \<longrightarrow> issue_at gl gr R (X - set ls) w) (\<lambda>_. True)"
  proof (cases "set ls \<subseteq> X \<union> R \<or> (\<exists>l. ls = [l])")
    case True
    from remove_labels_run [OF assms(1) this] show ?thesis by (rule runs_weaken) auto
  next
    case False
    then show ?thesis by (auto simp: runs_def split: sum.split)
  qed
  from runs_and [OF bounds this] assms(2,3) show ?thesis
    by (auto intro!: runs_ret intro: issue_between_at)
qed

lemma apply_step:
  assumes "gh_laws (lbm_client M) gl gr" and "A \<subseteq> X" and "X \<subseteq> B" and "\<forall>l\<in>set ads. \<not> isHumanGateCompletion l \<longrightarrow> l \<in> B"
  shows "runs (issue_at gl gr R X) (applyLabels M ads False)
    (\<lambda>_ w. issue_between gl gr R A B w \<and> issue_at gl gr R (X \<union> set ads) w \<and> (\<forall>l\<in>set ads. \<not> isHumanGateCompletion l))
    (issue_between gl gr R A B)"
  by (rule runs_weaken [OF apply_labels_run [OF assms(1)]])
     (use assms(2-4) in \<open>auto elim!: issue_between_mono intro: issue_between_at\<close>)

lemma change_step:
  assumes laws: "gh_laws (lbm_client M) gl gr" and X: "A \<subseteq> X" "X \<subseteq> B" and ls: "set ls \<inter> A = {}"
    and ads: "\<forall>l\<in>set ads. \<not> isHumanGateCompletion l \<longrightarrow> l \<in> B"
  shows "runs (issue_at gl gr R X) (cbind (if skip \<and> ls = [] then cret () else remove_labels M ls) (\<lambda>_. applyLabels M ads False))
    (\<lambda>_ w. issue_between gl gr R A B w \<and> (\<forall>l\<in>set ads. \<not> isHumanGateCompletion l)
       \<and> (set ls \<subseteq> X \<union> R \<or> (\<exists>l. ls = [l]) \<longrightarrow> issue_at gl gr R (X - set ls \<union> set ads) w))
    (issue_between gl gr R A B)"
proof (rule runs_bind [OF remove_step [OF laws X ls]])
  let ?C = "set ls \<subseteq> X \<union> R \<or> (\<exists>l. ls = [l])"
  show "runs (\<lambda>w. issue_between gl gr R A B w \<and> (?C \<longrightarrow> issue_at gl gr R (X - set ls) w)) (applyLabels M ads False)
      (\<lambda>_ w. issue_between gl gr R A B w \<and> (\<forall>l\<in>set ads. \<not> isHumanGateCompletion l)
         \<and> (?C \<longrightarrow> issue_at gl gr R (X - set ls \<union> set ads) w)) (issue_between gl gr R A B)" for x
  proof (cases ?C)
    case True
    have "runs (issue_at gl gr R (X - set ls)) (applyLabels M ads False)
       (\<lambda>_ w. issue_between gl gr R A B w \<and> issue_at gl gr R (X - set ls \<union> set ads) w \<and> (\<forall>l\<in>set ads. \<not> isHumanGateCompletion l))
       (issue_between gl gr R A B)"
      by (rule apply_step [OF laws _ _ ads]) (use X ls in blast)+
    then show ?thesis by (rule runs_weaken) (use True in auto)
  next
    case False
    have "runs (issue_between gl gr R A B) (applyLabels M ads False)
       (\<lambda>_ w. issue_between gl gr R A B w \<and> (\<forall>l\<in>set ads. \<not> isHumanGateCompletion l)) (issue_between gl gr R A B)"
      by (rule runs_between, rule runs_weaken [OF apply_step [OF laws _ _ ads]]) auto
    then show ?thesis by (rule runs_weaken) (use False in auto)
  qed
qed

text \<open>An attempt, from whatever the ones before have left.\<close>

definition ends_in :: "('g \<Rightarrow> string set) \<Rightarrow> ('g \<Rightarrow> string set) \<Rightarrow> string set \<Rightarrow> string set \<Rightarrow> string set \<Rightarrow> label_op \<Rightarrow> 'g label_world \<Rightarrow> bool" where
  "ends_in gl gr R A B op w \<longleftrightarrow>
     issue_between gl gr R A B w \<and> (precise op R \<longrightarrow> (\<exists>Y. between A Y B \<and> done_from gl gr R op Y w))"

lemma ensured_retry:
  assumes "gh_laws (lbm_client M) gl gr"
    and "\<And>Y. A \<subseteq> Y \<Longrightarrow> Y \<subseteq> B \<Longrightarrow> runs (issue_at gl gr R Y) m Q (issue_between gl gr R A B)"
  shows "runs (issue_between gl gr R A B) (retryWithBackoff site (cbind (ensureRepoLabelsExist M) (\<lambda>_. m))) Q (issue_between gl gr R A B)"
proof (rule runs_retry, rule runs_between, rule runs_bind)
  fix Y assume Y: "A \<subseteq> Y" "Y \<subseteq> B"
  show "runs (issue_at gl gr R Y) (ensureRepoLabelsExist M) (\<lambda>_. issue_at gl gr R Y) (issue_between gl gr R A B)"
    by (rule runs_weaken [OF ensure_run [OF assms(1)]]) (auto intro: issue_between_at [OF _ Y])
  show "runs (issue_at gl gr R Y) m Q (issue_between gl gr R A B)" for x by (rule assms(2) [OF Y])
qed

lemma ends_inI:
  assumes "A \<subseteq> Y" and "Y \<subseteq> B" and "issue_between gl gr R A B w" and "precise op R \<Longrightarrow> done_from gl gr R op Y w"
  shows "ends_in gl gr R A B op w"
  using assms unfolding ends_in_def between_def by blast

lemma perform_runs:
  assumes laws: "gh_laws (lbm_client M) gl gr"
    and takes: "\<And>X. X \<subseteq> B \<Longrightarrow> takes op X \<inter> A = {}"
    and puts: "\<forall>l\<in>set (puts op). \<not> isHumanGateCompletion l \<longrightarrow> l \<in> B"
  shows "runs (issue_between gl gr R A B) (perform M op) (\<lambda>_. ends_in gl gr R A B op) (issue_between gl gr R A B)"
proof -
  let ?J = "issue_between gl gr R A B"
  have change: "runs (issue_at gl gr R Y)
      (cbind (if skip \<and> ls = [] then cret () else remove_labels M ls) (\<lambda>_. applyLabels M (puts op) False)) (\<lambda>_. ends_in gl gr R A B op) ?J"
    if Y: "A \<subseteq> Y" "Y \<subseteq> B" and ls: "set ls = takes op Y" and pr: "precise op R \<Longrightarrow> set ls \<subseteq> Y \<union> R \<or> (\<exists>l. ls = [l])" for Y ls skip
    by (rule runs_weaken [OF change_step [OF laws Y _ puts]])
       (use takes [OF Y(2)] ls pr Y in \<open>auto intro!: ends_inI [OF Y] simp: done_from_def\<close>)
  have remove: "runs (issue_at gl gr R Y) (remove_labels M ls) (\<lambda>_. ends_in gl gr R A B op) ?J"
    if Y: "A \<subseteq> Y" "Y \<subseteq> B" and ls: "set ls = takes op Y" and pr: "precise op R \<Longrightarrow> set ls \<subseteq> Y \<union> R \<or> (\<exists>l. ls = [l])" and "puts op = []" for Y ls
    by (rule runs_weaken [OF remove_step [OF laws Y, where skip = False, simplified]])
       (use takes [OF Y(2)] ls pr Y \<open>puts op = []\<close> in \<open>auto intro!: ends_inI [OF Y] simp: done_from_def\<close>)
  show ?thesis
  proof (cases op)
    case (Phase_start p)
    show ?thesis unfolding Phase_start perform.simps onPhaseStart_def
    proof (rule ensured_retry [OF laws], rule runs_bind)
      fix Y assume Y: "A \<subseteq> Y" "Y \<subseteq> B"
      show "runs (issue_at gl gr R Y) (getCurrentPhaseLabels M)
          (\<lambda>ls w. issue_at gl gr R Y w \<and> set ls = {l \<in> Y. starts_with ''phase:'' l}) ?J"
        by (rule runs_weaken [OF current_run [OF laws]]) (auto intro: issue_between_at [OF _ Y])
      show "runs (\<lambda>w. issue_at gl gr R Y w \<and> set cur = {l \<in> Y. starts_with ''phase:'' l})
          (let ls = filter (\<lambda>l. l \<noteq> phase_label p) cur
           in cbind (if ls = [] then cret () else remove_labels M ls) (\<lambda>_. applyLabels M [phase_label p] False))
          (\<lambda>_. ends_in gl gr R A B (Phase_start p)) ?J" for cur
        unfolding Let_def
        by (rule runs_assume, rule change [where skip = True, unfolded Phase_start, simplified]) (use Y in auto)
    qed
  next
    case (Resume_start retain)
    show ?thesis unfolding Resume_start perform.simps onResumeStart_retained
    proof (rule ensured_retry [OF laws], rule runs_bind)
      fix Y assume Y: "A \<subseteq> Y" "Y \<subseteq> B"
      show "runs (issue_at gl gr R Y) (issue_labels M) (\<lambda>ls w. issue_at gl gr R Y w \<and> set ls = Y) ?J"
        by (rule runs_weaken [OF issue_labels_run [OF laws]]) (auto intro: issue_between_at [OF _ Y])
      show "runs (\<lambda>w. issue_at gl gr R Y w \<and> set cur = Y)
          (let ls = stripped_labels (retained retain) cur
           in cbind (if ls = [] then cret () else remove_labels M ls) (\<lambda>_. applyLabels M [''agent:in-progress''] False))
          (\<lambda>_. ends_in gl gr R A B (Resume_start retain)) ?J" for cur
        unfolding Let_def
        by (rule runs_assume, rule change [where skip = True, unfolded Resume_start puts.simps, unfolded HOL.simp_thms])
           (use Y in \<open>auto simp: stripped_labels_set\<close>)
    qed
  next
    case (Phase_complete p)
    show ?thesis unfolding Phase_complete perform.simps onPhaseComplete_def
      by (rule ensured_retry [OF laws], rule change [where skip = False, unfolded Phase_complete, simplified]) auto
  next
    case (Gate_hit p g)
    have "runs ?J (retryWithBackoff Site_gate_hit (cbind (ensureRepoLabelsExist M) (\<lambda>_.
         cbind (remove_labels M [phase_label p]) (\<lambda>_. applyLabels M [g, ''agent:paused''] False)))) (\<lambda>_. ends_in gl gr R A B op) ?J"
      unfolding Gate_hit
      by (rule ensured_retry [OF laws], rule change [where skip = False, unfolded Gate_hit, simplified]) auto
    then show ?thesis unfolding Gate_hit perform.simps onGateHit_def
      by (rule runs_bind) (auto intro!: runs_ret runs_mod simp: ends_in_def issue_between_def done_from_def issue_at_def)
  next
    case (Phase_error p)
    show ?thesis unfolding Phase_error perform.simps onError_def
      by (rule ensured_retry [OF laws], rule change [where skip = False, unfolded Phase_error puts.simps, unfolded HOL.simp_thms if_False])
         (auto simp: precise_def)
  next
    case (Phase_repeated_error p)
    have "runs (issue_at gl gr R Y) (applyLabels M (puts op) False) (\<lambda>_. ends_in gl gr R A B op) ?J" if Y: "A \<subseteq> Y" "Y \<subseteq> B" for Y
      by (rule runs_weaken [OF apply_step [OF laws Y puts]])
         (auto intro!: ends_inI [OF Y] simp: done_from_def Phase_repeated_error)
    then show ?thesis unfolding Phase_repeated_error perform.simps onRepeatedError_def puts.simps
      by (rule ensured_retry [OF laws])
  next
    case (Phase_executed p)
    show ?thesis unfolding Phase_executed perform.simps onPhaseExecutedWithoutCompletion_def
      by (rule ensured_retry [OF laws], rule remove [unfolded Phase_executed]) auto
  next
    case Workflow_complete
    show ?thesis unfolding Workflow_complete perform.simps onWorkflowComplete_def
      by (rule ensured_retry [OF laws], rule remove [unfolded Workflow_complete]) auto
  next
    case Cleanup
    have current: "runs ?J (getCurrentPhaseLabels M) (\<lambda>ls w. ?J w \<and> (\<exists>Y. Y \<subseteq> B \<and> set ls = {l \<in> Y. starts_with ''phase:'' l})) ?J"
      by (rule runs_between, rule runs_weaken [OF current_run [OF laws]]) (auto intro: issue_between_at)
    have "runs (\<lambda>w. ?J w \<and> (\<exists>Y. Y \<subseteq> B \<and> set cur = {l \<in> Y. starts_with ''phase:'' l}))
        (retryWithBackoff Site_error (remove_labels M (''agent:in-progress'' # cur))) (\<lambda>_. ?J) ?J" for cur
    proof (rule runs_assume, rule runs_retry, rule runs_between)
      fix X assume "\<exists>Y. Y \<subseteq> B \<and> set cur = {l \<in> Y. starts_with ''phase:'' l}" and X: "A \<subseteq> X" "X \<subseteq> B"
      then obtain Y where Y: "Y \<subseteq> B" "set cur = {l \<in> Y. starts_with ''phase:'' l}" by blast
      then have "set (''agent:in-progress'' # cur) \<inter> A = {}" using takes [OF Y(1)] by (auto simp: Cleanup)
      from remove_step [OF laws X this, where skip = False, simplified]
      show "runs (issue_at gl gr R X) (remove_labels M (''agent:in-progress'' # cur)) (\<lambda>_. ?J) ?J" by (rule runs_weaken) auto
    qed
    then have "runs ?J (perform M Cleanup) (\<lambda>_. ?J) ?J" unfolding perform.simps ensureCleanup_def
      by (intro runs_ctry [where R = ?J] runs_bind [OF current]) (auto intro: runs_ret)
    then show ?thesis unfolding Cleanup by (rule runs_weaken) (auto simp: ends_in_def precise_def)
  qed
qed

section \<open>Human gates stay human\<close>

definition worker_label :: "string \<Rightarrow> bool" where
  "worker_label l \<longleftrightarrow> list_ex (\<lambda>pre. starts_with pre l) [''phase:'', ''completed:'', ''waiting-for:'', ''failed:'', ''agent:'']"

lemma taken_worker_label: "takes op X \<subseteq> {l. worker_label l}"
  by (cases op) (auto simp: worker_label_def starts_with_def phase_label_def)

lemma put_worker_label: "l \<in> set (puts op) \<Longrightarrow> worker_label l \<or> (\<exists>p. op = Gate_hit p l)"
  by (cases op) (auto simp: worker_label_def starts_with_def phase_label_def completed_label_def)

lemma perform_all_keeps:
  assumes "\<And>op. op \<in> set ops \<Longrightarrow> runs P (perform M op) (\<lambda>_. P) P" and "P w"
  shows "P (perform_all M ops w)"
  using assms
proof (induction ops arbitrary: w)
  case (Cons op ops)
  obtain r w' where r: "perform M op w = (r, w')" by fastforce
  with Cons.prems(1) [of op] Cons.prems(2) have "P w'" by (cases r) (auto simp: runs_def)
  with Cons r show ?case by simp
qed simp

lemma perform_all_range:
  fixes gl :: "'g \<Rightarrow> string set" and w :: "'g label_world"
  defines "L \<equiv> gl (lw_github w)"
  assumes laws: "gh_laws (lbm_client M) gl gr"
  shows "{l \<in> L. \<not> worker_label l} \<subseteq> gl (lw_github (perform_all M ops w))"
    and "gl (lw_github (perform_all M ops w)) \<subseteq>
      L \<union> {l. \<not> isHumanGateCompletion l \<and> (worker_label l \<or> (\<exists>p. Gate_hit p l \<in> set ops))}"
proof -
  let ?A = "{l \<in> L. \<not> worker_label l}"
  let ?B = "L \<union> {l. \<not> isHumanGateCompletion l \<and> (worker_label l \<or> (\<exists>p. Gate_hit p l \<in> set ops))}"
  let ?J = "issue_between gl gr {} ?A ?B"
  have "?J (perform_all M ops w)"
  proof (rule perform_all_keeps)
    fix op assume op: "op \<in> set ops"
    have "runs ?J (perform M op) (\<lambda>_. ends_in gl gr {} ?A ?B op) ?J"
    proof (rule perform_runs [OF laws])
      show "takes op X \<inter> ?A = {}" for X using taken_worker_label by blast
      show "\<forall>l\<in>set (puts op). \<not> isHumanGateCompletion l \<longrightarrow> l \<in> ?B" using put_worker_label op by blast
    qed
    then show "runs ?J (perform M op) (\<lambda>_. ?J) ?J" by (rule runs_weaken) (simp_all add: ends_in_def)
  qed (auto simp: L_def issue_between_def issue_at_def between_def)
  then show "?A \<subseteq> gl (lw_github (perform_all M ops w))" "gl (lw_github (perform_all M ops w)) \<subseteq> ?B"
    by (auto simp: issue_between_def issue_at_def between_def)
qed


section \<open>What a call that returns has done\<close>

lemma taken_grows: "X \<subseteq> L \<union> set (puts op) \<Longrightarrow> takes op X \<subseteq> takes op L"
  by (cases op) (auto simp: phase_label_def starts_with_def)

lemma taken_local: "l \<in> takes op L \<Longrightarrow> l \<in> Y \<Longrightarrow> \<forall>retain. op \<noteq> Resume_start retain \<Longrightarrow> l \<in> takes op Y"
  by (cases op) auto

lemma done_target:
  assumes "between (L - takes op L) Y (L \<union> set (puts op))" and "\<And>retain. op \<noteq> Resume_start retain"
  shows "Y - takes op Y \<union> set (puts op) = L - takes op L \<union> set (puts op)"
proof -
  have "takes op Y \<subseteq> takes op L" using assms(1) unfolding between_def by (intro taken_grows) (rule conjunct2)
  moreover have "takes op L \<inter> Y \<subseteq> takes op Y" using taken_local assms(2) by blast
  ultimately show ?thesis using assms(1) unfolding between_def by blast
qed

lemma perform_outcome:
  assumes "gh_laws (lbm_client M) gl gr" and "perform M op w = (r, w')"
  defines "L \<equiv> gl (lw_github w)" and "L' \<equiv> gl (lw_github w')"
  shows "between (L - takes op L) L' (L \<union> set (puts op))"
    and "r = Inr () \<Longrightarrow> precise op (gr (lw_github w)) \<Longrightarrow>
      \<exists>Y. between (L - takes op L) Y (L \<union> set (puts op)) \<and> L' = Y - takes op Y \<union> set (puts op) \<and> (\<forall>l\<in>set (puts op). \<not> isHumanGateCompletion l)"
proof -
  let ?A = "L - takes op L" and ?B = "L \<union> set (puts op)" and ?R = "gr (lw_github w)"
  have "runs (issue_between gl gr ?R ?A ?B) (perform M op) (\<lambda>_. ends_in gl gr ?R ?A ?B op) (issue_between gl gr ?R ?A ?B)"
    by (rule perform_runs [OF assms(1)]) (use taken_grows in blast)+
  moreover have "issue_between gl gr ?R ?A ?B w" by (auto simp: issue_between_def issue_at_def between_def L_def)
  ultimately have fin: "case r of Inr _ \<Rightarrow> ends_in gl gr ?R ?A ?B op w' | Inl _ \<Rightarrow> issue_between gl gr ?R ?A ?B w'"
    using assms(2) by (cases r) (auto simp: runs_def)
  then show "between ?A L' ?B" by (cases r) (auto simp: ends_in_def issue_between_def issue_at_def L'_def)
  show "\<exists>Y. between ?A Y ?B \<and> L' = Y - takes op Y \<union> set (puts op) \<and> (\<forall>l\<in>set (puts op). \<not> isHumanGateCompletion l)"
    if "r = Inr ()" "precise op ?R"
    using fin that by (auto simp: ends_in_def done_from_def issue_at_def L'_def)
qed

lemma perform_done:
  assumes "gh_laws (lbm_client M) gl gr" and "perform M op w = (Inr (), w')"
    and "precise op (gr (lw_github w))" and "\<forall>retain. op \<noteq> Resume_start retain"
  shows "gl (lw_github w') = gl (lw_github w) - takes op (gl (lw_github w)) \<union> set (puts op)"
  using perform_outcome(2) [OF assms(1,2) _ assms(3)] done_target assms(4) by fastforce


section \<open>Work goes on where it stopped\<close>

text \<open>Of several completed gates the one whose phase is the latest decides.\<close>

lemma most_advanced_skip:
  "\<forall>e\<in>set es. ge_phase e \<notin> set ps \<Longrightarrow> most_advanced (ps @ qs) es = most_advanced qs es"
proof (induction ps)
  case (Cons p ps)
  then have "List.find (\<lambda>e. ge_phase e = p) es = None" by (auto simp: find_None_iff)
  with Cons show ?case by simp
qed simp

lemma most_advanced_latest:
  assumes "e \<in> set es" and "\<forall>e'\<in>set es. ge_phase e' \<notin> set rs" and "\<forall>e'\<in>set es. ge_phase e' = ge_phase e \<longrightarrow> e' = e"
  shows "most_advanced (rev (qs @ ge_phase e # rs)) es = Some (ge_resumeFrom e)"
proof -
  have "List.find (\<lambda>e'. ge_phase e' = ge_phase e) es = Some e"
  proof (cases "List.find (\<lambda>e'. ge_phase e' = ge_phase e) es")
    case None
    with assms(1) show ?thesis by (auto simp: find_None_iff)
  next
    case (Some e')
    with find_SomeD [OF Some] assms(3) show ?thesis by auto
  qed
  then have "most_advanced (ge_phase e # rev qs) es = Some (ge_resumeFrom e)" by simp
  moreover have "most_advanced (rev rs @ ge_phase e # rev qs) es = most_advanced (ge_phase e # rev qs) es"
    by (rule most_advanced_skip) (use assms(2) in simp)
  ultimately show ?thesis by simp
qed

lemma continue_latest:
  assumes g: "''completed:'' @ g \<in> set labels" "jget (getEffectiveGateMapping wfn ci) g = Some e"
    and seq: "sequence_of wfn r = qs @ ge_phase e # rs"
    and others: "\<forall>n e'. ''completed:'' @ n \<in> set labels \<and> n \<noteq> g \<and> jget (getEffectiveGateMapping wfn ci) n = Some e' \<longrightarrow>
      ge_phase e' \<notin> set (ge_phase e # rs)"
    and once: "ge_phase e \<notin> set rs"
  shows "resolveStartPhase labels Continue_command wfn r ci = ge_resumeFrom e"
proof -
  let ?gates = "getEffectiveGateMapping wfn ci"
  let ?es = "map (\<lambda>n. the (jget ?gates n)) (completed_gates ?gates labels)"
  have es: "e' \<in> set ?es \<Longrightarrow> e' = e \<or> ge_phase e' \<notin> set (ge_phase e # rs)" for e'
  proof -
    assume "e' \<in> set ?es"
    then obtain n where "n \<in> set (completed_gates ?gates labels)" "e' = the (jget ?gates n)" by auto
    then have n: "''completed:'' @ n \<in> set labels" "jget ?gates n = Some e'"
      unfolding completed_gates_set suffixes_mem by auto
    with g(2) others show "e' = e \<or> ge_phase e' \<notin> set (ge_phase e # rs)" by (cases "n = g") auto
  qed
  have "g \<in> set (completed_gates ?gates labels)" unfolding completed_gates_set suffixes_mem using g by auto
  then have "e \<in> set ?es" using g(2) by (auto intro!: rev_image_eqI [of g])
  then have "most_advanced (rev (sequence_of wfn r)) ?es = Some (ge_resumeFrom e)"
    unfolding seq by (rule most_advanced_latest) (use es once in auto)
  then show ?thesis by (simp add: resolveStartPhase_def resolveFromContinue_def Let_def)
qed

lemma process_only_phase:
  assumes "phase_label p \<in> set labels" and "\<forall>l\<in>set labels. starts_with ''phase:'' l \<longrightarrow> l = phase_label p" and "p \<in> set (sequence_of wfn r)"
  shows "resolveStartPhase labels Process_command wfn r ci = p"
proof -
  have only: "n \<in> set (suffixes ''phase:'' labels) \<longleftrightarrow> n = phase_name p" for n
    using assms(1,2) unfolding suffixes_mem by (auto simp: phase_label_def starts_with_def)
  have "List.find (\<lambda>n. n \<in> phase_name ` set (sequence_of wfn r)) (suffixes ''phase:'' labels) = Some (phase_name p)"
  proof (cases "List.find (\<lambda>n. n \<in> phase_name ` set (sequence_of wfn r)) (suffixes ''phase:'' labels)")
    case None
    with only [of "phase_name p"] assms(3) show ?thesis by (auto simp: find_None_iff)
  next
    case (Some n)
    with find_SomeD [OF Some] only show ?thesis by simp
  qed
  moreover have "List.find (\<lambda>q. q = p) (sequence_of wfn r) = Some p"
    using assms(3) by (cases "List.find (\<lambda>q. q = p) (sequence_of wfn r)") (auto simp: find_None_iff dest: find_SomeD)
  ultimately show ?thesis by (simp add: resolveStartPhase_def resolveFromProcess_def Let_def)
qed


section \<open>GitHub in memory\<close>

text \<open>An issue whose calls fail as a script says, without doing anything then.\<close>

record memory_github =
  mg_labels :: "string list"
  mg_faults :: "bool list"

definition scripted :: "(memory_github \<Rightarrow> 'a \<times> memory_github) \<Rightarrow> (string, memory_github, 'a) comp" where
  "scripted f = (\<lambda>g. let g' = g\<lparr> mg_faults := tl (mg_faults g) \<rparr>
     in if mg_faults g \<noteq> [] \<and> hd (mg_faults g) then (Inl ''HTTP 502'', g')
        else (case f g' of (x, g'') \<Rightarrow> (Inr x, g'')))"

definition memory_client :: "memory_github gh_client" where
  "memory_client =
     \<lparr> gh_issueLabels = scripted (\<lambda>g. (mg_labels g, g)),
       gh_addLabels = (\<lambda>ls. scripted (\<lambda>g. ((), g\<lparr> mg_labels := fold sadd ls (mg_labels g) \<rparr>))),
       gh_removeLabels = (\<lambda>ls. scripted (\<lambda>g. ((), g\<lparr> mg_labels := filter (\<lambda>l. l \<notin> set ls) (mg_labels g) \<rparr>))),
       gh_listLabels = scripted (\<lambda>g. (mg_labels g, g)),
       gh_createLabel = (\<lambda>l. scripted (\<lambda>g. ((), g))) \<rparr>"

lemma memory_laws: "gh_laws memory_client (\<lambda>g. set (mg_labels g)) (\<lambda>g. UNIV)"
  by (auto simp: gh_laws_def memory_client_def scripted_def Let_def between_def split: if_splits)

definition memory_manager :: "memory_github label_manager" where
  "memory_manager = \<lparr> lbm_client = memory_client, lbm_repo = ''generacy-ai/generacy'',
     lbm_labels = [\<lparr> lbl_name = ''phase:plan'', lbl_color = ''C5DEF5'', lbl_description = [] \<rparr>], lbm_clearResumeDedupe = True \<rparr>"

definition memory_world :: "string list \<Rightarrow> bool list \<Rightarrow> memory_github label_world" where
  "memory_world ls fs = \<lparr> lw_github = \<lparr> mg_labels = ls, mg_faults = fs \<rparr>, lw_ensuredRepos = [],
     lw_provisioningFailures = [], lw_cleared = [] \<rparr>"

lemma memory_manager_laws: "gh_laws (lbm_client memory_manager) (\<lambda>g. set (mg_labels g)) (\<lambda>g. UNIV)"
  using memory_laws by (simp add: memory_manager_def)

definition demo_ops :: "label_op list" where
  "demo_ops = [Phase_start Plan, Gate_hit Plan ''waiting-for:plan-review'', Gate_hit Plan ''completed:plan-review'', Resume_start None]"

lemma demo_human_gate: "isHumanGateCompletion ''completed:plan-review''"
  by code_simp


lemma demo_gate_hit:
  "perform memory_manager (Gate_hit Plan ''waiting-for:plan-review'') (memory_world [''phase:plan'', ''bug''] [False, True])
     = (Inr (), (memory_world [''bug'', ''waiting-for:plan-review'', ''agent:paused''] [])\<lparr> lw_ensuredRepos := [''generacy-ai/generacy''],
          lw_cleared := [''plan-review''] \<rparr>)"
  by code_simp



end
