(* ===== verification/Commands.thy ===== *)
theory Commands
  imports JsValues
begin

text \<open>
  Running a command (\<open>actions/cli-utils.ts\<close> of \<open>src/packages/workflow-engine/src\<close>): what
  \<open>executeCommand\<close> and \<open>executeShellCommand\<close> make of the events of a child process, its deadline
  and an abort signal. Output arrives as the texts the decoders deliver.
\<close>

record command_result =
  cr_exitCode :: int
  cr_stdout :: string
  cr_stderr :: string

text \<open>
  The end of a process brings its exit code, which is absent after a signal, and what the decoders
  of the two streams still hold.
\<close>

datatype child_event =
    Out_data string
  | Err_data string
  | Timer_due
  | Abort_fired
  | Spawn_failed string
  | Process_ended "int option" string string

record process_run =
  pr_stdout :: string
  pr_stderr :: string
  pr_killed :: bool
  pr_signals :: nat
  pr_timer :: bool
  pr_listening :: bool
  pr_outcome :: "(string + command_result) option"

text \<open>A process is killed once, as a group.\<close>

definition killProcessGroup :: "process_run \<Rightarrow> process_run" where
  "killProcessGroup p = (if pr_killed p then p else p\<lparr> pr_killed := True, pr_signals := Suc (pr_signals p) \<rparr>)"

text \<open>A promise is settled by the first of \<open>resolve\<close> and \<open>reject\<close>.\<close>

definition settle_run :: "string + command_result \<Rightarrow> process_run \<Rightarrow> process_run" where
  "settle_run r p = p\<lparr> pr_outcome := (case pr_outcome p of None \<Rightarrow> Some r | Some x \<Rightarrow> Some x) \<rparr>"

definition ended_result :: "int option \<Rightarrow> process_run \<Rightarrow> command_result" where
  "ended_result code p =
     (if pr_killed p
      then \<lparr> cr_exitCode = 124, cr_stdout = pr_stdout p, cr_stderr = pr_stderr p @ CHR 10 # ''Process killed due to timeout'' \<rparr>
      else \<lparr> cr_exitCode = (case code of None \<Rightarrow> 0 | Some c \<Rightarrow> c), cr_stdout = pr_stdout p, cr_stderr = pr_stderr p \<rparr>)"

primrec on_process :: "child_event \<Rightarrow> process_run \<Rightarrow> process_run" where
  "on_process (Out_data s) p = p\<lparr> pr_stdout := pr_stdout p @ s \<rparr>"
| "on_process (Err_data s) p = p\<lparr> pr_stderr := pr_stderr p @ s \<rparr>"
| "on_process Timer_due p = (if pr_timer p then killProcessGroup (p\<lparr> pr_timer := False \<rparr>) else p)"
| "on_process Abort_fired p = (if pr_listening p then killProcessGroup (p\<lparr> pr_listening := False \<rparr>) else p)"
| "on_process (Spawn_failed e) p = settle_run (Inl e) (p\<lparr> pr_timer := False \<rparr>)"
| "on_process (Process_ended code out err) p =
     (let q = p\<lparr> pr_timer := False, pr_stdout := pr_stdout p @ out, pr_stderr := pr_stderr p @ err \<rparr>
      in settle_run (Inr (ended_result code q)) q)"

definition new_run :: "nat option \<Rightarrow> bool \<Rightarrow> process_run" where
  "new_run timeout signal =
     \<lparr> pr_stdout = [], pr_stderr = [], pr_killed = False, pr_signals = 0, pr_timer = (\<exists>t. timeout = Some t \<and> 0 < t),
       pr_listening = signal, pr_outcome = None \<rparr>"

text \<open>\<open>signal\<close> is \<open>Some True\<close> for a signal that is aborted already.\<close>

definition executeCommand :: "nat option \<Rightarrow> bool option \<Rightarrow> child_event list \<Rightarrow> process_run" where
  "executeCommand timeout signal events =
     (if signal = Some True
      then settle_run (Inr \<lparr> cr_exitCode = 130, cr_stdout = [], cr_stderr = ''Aborted before start'' \<rparr>) (new_run None False)
      else fold on_process events (new_run timeout (signal \<noteq> None)))"

text \<open>The shell variant decodes chunk by chunk, so nothing is left at the end.\<close>

primrec shell_event :: "child_event \<Rightarrow> child_event" where
  "shell_event (Out_data s) = Out_data s"
| "shell_event (Err_data s) = Err_data s"
| "shell_event Timer_due = Timer_due"
| "shell_event Abort_fired = Abort_fired"
| "shell_event (Spawn_failed e) = Spawn_failed e"
| "shell_event (Process_ended code out err) = Process_ended code [] []"

definition executeShellCommand :: "nat option \<Rightarrow> bool option \<Rightarrow> child_event list \<Rightarrow> process_run" where
  "executeShellCommand timeout signal events = executeCommand timeout signal (map shell_event events)"

text \<open>Parsing of output.\<close>

definition parseJSONSafe :: "string \<Rightarrow> jsval" where
  "parseJSONSafe output = (case JSON_parse output of Some v \<Rightarrow> v | None \<Rightarrow> JsNull)"

definition index_of :: "char \<Rightarrow> string \<Rightarrow> nat option" where
  "index_of c s = (if c \<in> set s then Some (length (takeWhile (\<lambda>x. x \<noteq> c) s)) else None)"

definition extractJSON :: "string \<Rightarrow> jsval" where
  "extractJSON output =
     (let direct = parseJSONSafe output
      in if direct \<noteq> JsNull then direct
         else (case (index_of (CHR ''{'') output, index_of (CHR ''['') output) of
                 (Some i, Some j) \<Rightarrow> parseJSONSafe (drop (min i j) output)
               | (Some i, None) \<Rightarrow> parseJSONSafe (drop i output)
               | (None, Some j) \<Rightarrow> parseJSONSafe (drop j output)
               | (None, None) \<Rightarrow> JsNull))"

section \<open>What a command returns\<close>

definition out_text :: "child_event list \<Rightarrow> string" where
  "out_text es = concat (map (\<lambda>e. case e of Out_data s \<Rightarrow> s | _ \<Rightarrow> []) es)"

definition err_text :: "child_event list \<Rightarrow> string" where
  "err_text es = concat (map (\<lambda>e. case e of Err_data s \<Rightarrow> s | _ \<Rightarrow> []) es)"

text \<open>The events before the end: output, the deadline and the signal.\<close>

definition running_event :: "child_event \<Rightarrow> bool" where
  "running_event e \<longleftrightarrow> (case e of Spawn_failed _ \<Rightarrow> False | Process_ended _ _ _ \<Rightarrow> False | _ \<Rightarrow> True)"

lemma settled_stays:
  "pr_outcome p = Some r \<Longrightarrow> pr_outcome (fold on_process es p) = Some r"
proof (induction es arbitrary: p)
  case (Cons e es)
  then have "pr_outcome (on_process e p) = Some r"
    by (cases e) (simp_all add: settle_run_def killProcessGroup_def Let_def)
  with Cons.IH show ?case by simp
qed simp

lemma running_run:
  assumes "list_all running_event es"
  shows "pr_stdout (fold on_process es p) = pr_stdout p @ out_text es \<and> pr_stderr (fold on_process es p) = pr_stderr p @ err_text es
    \<and> pr_outcome (fold on_process es p) = pr_outcome p
    \<and> (pr_killed (fold on_process es p) \<longleftrightarrow> pr_killed p \<or> pr_timer p \<and> Timer_due \<in> set es \<or> pr_listening p \<and> Abort_fired \<in> set es)
    \<and> pr_signals (fold on_process es p) = pr_signals p + (if pr_killed (fold on_process es p) \<and> \<not> pr_killed p then 1 else 0)"
  using assms
proof (induction es arbitrary: p)
  case (Cons e es)
  then show ?case
    by (cases e) (auto simp: running_event_def out_text_def err_text_def killProcessGroup_def)
qed (simp add: out_text_def err_text_def)

text \<open>
  A command that ends after some output returns all of it, with its own exit code, unless its
  deadline or the abort signal came before: then the code is 124 and its process group was sent one
  signal. Nothing that happens later changes the result.
\<close>

lemma command_outcome:
  fixes timeout :: "nat option" and signal :: "bool option"
  assumes "list_all running_event es" and "signal \<noteq> Some True"
  defines "killed \<equiv> (\<exists>t. timeout = Some t \<and> 0 < t) \<and> Timer_due \<in> set es \<or> signal \<noteq> None \<and> Abort_fired \<in> set es"
  shows "pr_outcome (executeCommand timeout signal (es @ Process_ended code out err # later)) =
    Some (Inr \<lparr> cr_exitCode = (if killed then 124 else case code of None \<Rightarrow> 0 | Some c \<Rightarrow> c),
      cr_stdout = out_text es @ out,
      cr_stderr = err_text es @ err @ (if killed then CHR 10 # ''Process killed due to timeout'' else []) \<rparr>)"
proof -
  define p where "p = fold on_process es (new_run timeout (signal \<noteq> None))"
  have r: "pr_stdout p = out_text es" "pr_stderr p = err_text es" "pr_outcome p = None" "pr_killed p \<longleftrightarrow> killed"
    using running_run [OF assms(1), of "new_run timeout (signal \<noteq> None)"] by (auto simp: p_def new_run_def killed_def)
  then have "pr_outcome (on_process (Process_ended code out err) p) =
    Some (Inr \<lparr> cr_exitCode = (if killed then 124 else case code of None \<Rightarrow> 0 | Some c \<Rightarrow> c),
      cr_stdout = out_text es @ out,
      cr_stderr = err_text es @ err @ (if killed then CHR 10 # ''Process killed due to timeout'' else []) \<rparr>)"
    by (simp add: settle_run_def ended_result_def Let_def)
  note ended = settled_stays [OF this, of later]
  have "executeCommand timeout signal (es @ Process_ended code out err # later)
      = fold on_process later (on_process (Process_ended code out err) p)"
    using assms(2) by (simp only: executeCommand_def p_def if_False fold_append fold_Cons comp_apply)
  with ended show ?thesis by (simp only:)
qed

text \<open>The listener of the signal outlives the command: an abort after the end still signals the group of the process.\<close>

lemma late_abort_signals:
  "pr_signals (executeCommand None (Some False) [Process_ended (Some 0) [] [], Abort_fired]) = 1"
  by (simp add: executeCommand_def new_run_def settle_run_def killProcessGroup_def Let_def)

lemma null_is_no_json: "parseJSONSafe ''null'' = parseJSONSafe ''{''"
  by code_simp

end
