(* ===== verification/GhCli.thy ===== *)
theory GhCli
  imports Commands LabelManager
begin

text \<open>
  The GitHub client of the repository: \<open>actions/github/client/gh-cli.ts\<close> of
  \<open>src/packages/workflow-engine/src\<close>, as far as issues, labels, comments and the pull request of a
  branch are concerned. Every operation runs the command line tool \<open>gh\<close> with arguments that are modelled
  as the code builds them; the tool is a parameter with a state of its own. Values read from JSON
  are kept as they are, because casts check nothing.
\<close>

section \<open>Failures\<close>

text \<open>
  An authentication failure with its status and the error text of \<open>gh\<close>, a token that could not be
  fetched, or any other error with its message.
\<close>

datatype gh_failure = Auth_failure nat string | Jit_failure string string | Other_failure string

definition type_error :: gh_failure where
  "type_error = Other_failure ''TypeError''"

definition failure_text :: "gh_failure \<Rightarrow> string" where
  "failure_text f =
     (case f of
        Auth_failure c e \<Rightarrow> ''gh authentication failed (HTTP '' @ show_nat c @ ''): '' @ e
      | Jit_failure c m \<Rightarrow> m
      | Other_failure m \<Rightarrow> m)"

section \<open>Reading JSON\<close>

text \<open>\<open>v[k]\<close>, \<open>v.map(f)\<close> and \<open>v.toLowerCase()\<close>\<close>

definition js_get :: "jsval \<Rightarrow> string \<Rightarrow> gh_failure + jsval" where
  "js_get v k = (if nullish v then Inl type_error else Inr (js_member v k))"

definition js_map :: "(jsval \<Rightarrow> gh_failure + 'a) \<Rightarrow> jsval \<Rightarrow> gh_failure + 'a list" where
  "js_map f v = (case v of JsArr xs \<Rightarrow> map_results f xs | _ \<Rightarrow> Inl type_error)"

definition js_lower :: "jsval \<Rightarrow> gh_failure + string" where
  "js_lower v = (case v of JsStr s \<Rightarrow> Inr (map to_lower s) | _ \<Rightarrow> Inl type_error)"

definition sbind :: "'e + 'a \<Rightarrow> ('a \<Rightarrow> 'e + 'b) \<Rightarrow> 'e + 'b" where
  "sbind r f = (case r of Inl e \<Rightarrow> Inl e | Inr x \<Rightarrow> f x)"

definition cresult :: "'e + 'a \<Rightarrow> ('e, 's, 'a) comp" where
  "cresult r s = (r, s)"

section \<open>Running gh\<close>

text \<open>
  \<open>gc_run args token\<close> runs \<open>gh\<close>, \<open>gc_git args\<close> runs \<open>git\<close>; a token is passed in the environment. Starting a
  command may fail. Numbers are given as the texts they are printed as.
\<close>

record 'g gh_cli =
  gc_run :: "string list \<Rightarrow> string option \<Rightarrow> (string, 'g, command_result) comp"
  gc_git :: "string list \<Rightarrow> (string, 'g, command_result) comp"
  gc_token :: "(gh_failure, 'g, string option) comp option"

type_synonym ('g, 'a) gh = "(gh_failure, 'g, 'a) comp"

definition to_upper :: "char \<Rightarrow> char" where
  "to_upper c = (let n = of_char c :: nat in if 97 \<le> n \<and> n \<le> 122 then char_of (n - 32) else c)"

definition parseGhStatusCode :: "string \<Rightarrow> nat option" where
  "parseGhStatusCode stderr = http_status (map to_upper stderr)"

definition resolveTokenEnv :: "'g gh_cli \<Rightarrow> ('g, string option) gh" where
  "resolveTokenEnv C =
     (case gc_token C of
        None \<Rightarrow> cret None
      | Some provider \<Rightarrow> cbind provider (\<lambda>token. cret (Some (case token of Some t \<Rightarrow> t | None \<Rightarrow> []))))"

definition run_gh :: "'g gh_cli \<Rightarrow> string list \<Rightarrow> string option \<Rightarrow> ('g, command_result) gh" where
  "run_gh C args env g = (case gc_run C args env g of (r, g') \<Rightarrow> (map_sum Other_failure id r, g'))"

definition auth_code :: "command_result \<Rightarrow> nat option" where
  "auth_code result =
     (if cr_exitCode result \<noteq> 0
      then (case parseGhStatusCode (cr_stderr result) of
              Some code \<Rightarrow> if code = 401 \<or> code = 403 then Some code else None
            | None \<Rightarrow> None)
      else None)"

definition executeGh :: "'g gh_cli \<Rightarrow> string list \<Rightarrow> ('g, command_result) gh" where
  "executeGh C args =
     cbind (resolveTokenEnv C) (\<lambda>env.
     cbind (run_gh C args env) (\<lambda>result.
       case auth_code result of
         Some code \<Rightarrow> cthrow (Auth_failure code (cr_stderr result))
       | None \<Rightarrow> cret result))"

text \<open>Most calls throw an error with a prefix unless \<open>gh\<close> succeeded.\<close>

definition gh_ok :: "'g gh_cli \<Rightarrow> string \<Rightarrow> string list \<Rightarrow> ('g, command_result) gh" where
  "gh_ok C what args =
     cbind (executeGh C args) (\<lambda>result.
       if cr_exitCode result \<noteq> 0 then cthrow (Other_failure (what @ '': '' @ cr_stderr result)) else cret result)"

definition repo_arg :: "string \<Rightarrow> string \<Rightarrow> string" where
  "repo_arg owner repo = owner @ ''/'' @ repo"

section \<open>Repositories and issues\<close>

record gh_label =
  gl_name :: jsval
  gl_color :: jsval
  gl_description :: jsval

record issue_data =
  isd_number :: jsval
  isd_title :: jsval
  isd_body :: jsval
  isd_state :: string
  isd_labels :: "gh_label list"
  isd_assignees :: "jsval list"
  isd_milestone :: "(jsval \<times> jsval) option"
  isd_created :: jsval
  isd_updated :: jsval

record repo_info =
  ri_owner :: jsval
  ri_repo :: jsval
  ri_default_branch :: jsval

definition read_repo_info :: "jsval \<Rightarrow> gh_failure + repo_info" where
  "read_repo_info data =
     sbind (js_get (js_member data ''owner'') ''login'') (\<lambda>owner.
     sbind (js_get (js_member data ''defaultBranchRef'') ''name'') (\<lambda>branch.
     Inr \<lparr> ri_owner = owner, ri_repo = js_member data ''name'', ri_default_branch = branch \<rparr>))"

definition getRepoInfo :: "'g gh_cli \<Rightarrow> ('g, repo_info) gh" where
  "getRepoInfo C =
     cbind (gh_ok C ''Failed to get repo info'' [''repo'', ''view'', ''--json'', ''owner,name,defaultBranchRef'']) (\<lambda>result.
       let data = parseJSONSafe (cr_stdout result)
       in if \<not> js_truthy data then cthrow (Other_failure ''Failed to parse repo info'') else cresult (read_repo_info data))"

definition read_label :: "jsval \<Rightarrow> gh_failure + gh_label" where
  "read_label l =
     sbind (js_get l ''name'') (\<lambda>n.
     Inr \<lparr> gl_name = n, gl_color = js_member l ''color'', gl_description = js_member l ''description'' \<rparr>)"

definition ISSUE_FIELDS :: string where
  "ISSUE_FIELDS = ''number,title,body,state,labels,assignees,milestone,createdAt,updatedAt''"

definition read_issue :: "jsval \<Rightarrow> jsval \<Rightarrow> gh_failure + issue_data" where
  "read_issue state data =
     sbind (js_lower state) (\<lambda>st.
     sbind (js_map read_label (js_default (js_member data ''labels'') (JsArr []))) (\<lambda>labels.
     sbind (js_map (\<lambda>a. js_get a ''login'') (js_default (js_member data ''assignees'') (JsArr []))) (\<lambda>assignees.
     (let m = js_member data ''milestone''
      in Inr \<lparr> isd_number = js_member data ''number'', isd_title = js_member data ''title'',
           isd_body = js_default (js_member data ''body'') (JsStr []), isd_state = st, isd_labels = labels, isd_assignees = assignees,
           isd_milestone = (if js_truthy m then Some (js_member m ''number'', js_member m ''title'') else None),
           isd_created = js_member data ''createdAt'', isd_updated = js_member data ''updatedAt'' \<rparr>))))"

definition view_args :: "string \<Rightarrow> string \<Rightarrow> string \<Rightarrow> string list" where
  "view_args owner repo number = [''issue'', ''view'', number, ''-R'', repo_arg owner repo, ''--json'', ISSUE_FIELDS]"

definition getIssue :: "'g gh_cli \<Rightarrow> string \<Rightarrow> string \<Rightarrow> string \<Rightarrow> ('g, issue_data) gh" where
  "getIssue C owner repo number =
     cbind (gh_ok C (''Failed to get issue #'' @ number) (view_args owner repo number)) (\<lambda>result.
       let data = parseJSONSafe (cr_stdout result)
       in if \<not> js_truthy data then cthrow (Other_failure ''Failed to parse issue data'')
          else cresult (read_issue (js_member data ''state'') data))"

text \<open>\<open>(v as string)?.toLowerCase()\<close> is undefined for an absent state.\<close>

definition ref_state :: "jsval \<Rightarrow> gh_failure + string option" where
  "ref_state v = (if nullish v then Inr None else sbind (js_lower v) (\<lambda>s. Inr (Some s)))"

definition getIssueRefState :: "'g gh_cli \<Rightarrow> string \<Rightarrow> string \<Rightarrow> string \<Rightarrow> ('g, string option \<times> jsval \<times> bool \<times> bool option) gh" where
  "getIssueRefState C owner repo number =
     (let ref = owner @ ''/'' @ repo @ ''#'' @ number
      in cbind (gh_ok C (''Failed to get issue ref state for '' @ ref)
             [''api'', ''repos/'' @ owner @ ''/'' @ repo @ ''/issues/'' @ number,
              ''--jq'', ''{state, state_reason, pull_request: .pull_request != null}'']) (\<lambda>result.
         let data = parseJSONSafe (cr_stdout result)
         in if \<not> js_truthy data then cthrow (Other_failure (''Failed to parse issue ref state for '' @ ref))
            else
              cbind (cresult (ref_state (js_member data ''state''))) (\<lambda>state.
              let stateReason = js_default (js_member data ''state_reason'') JsNull;
                  isPullRequest = js_member data ''pull_request'' = JsBool True
              in if isPullRequest then
                   cbind (gh_ok C (''Failed to get PR merged state for '' @ ref)
                       [''api'', ''repos/'' @ owner @ ''/'' @ repo @ ''/pulls/'' @ number, ''--jq'', ''.merged'']) (\<lambda>pr.
                     let prData = parseJSONSafe (cr_stdout pr);
                         merged = prData = JsBool True \<or> (\<exists>t. prData = JsStr t \<and> trim t = ''true'')
                     in cret (state, stateReason, True, Some merged))
                 else cret (state, stateReason, False, None))))"

definition getIssueLabels :: "'g gh_cli \<Rightarrow> string \<Rightarrow> string \<Rightarrow> string \<Rightarrow> ('g, jsval list) gh" where
  "getIssueLabels C owner repo number =
     cbind (gh_ok C (''Failed to get labels for issue #'' @ number)
              [''issue'', ''view'', number, ''-R'', repo_arg owner repo, ''--json'', ''labels'']) (\<lambda>result.
       let data = parseJSONSafe (cr_stdout result)
       in if \<not> js_truthy data then cthrow (Other_failure ''Failed to parse issue label data'')
          else cresult (js_map (\<lambda>l. js_get l ''name'') (js_default (js_member data ''labels'') (JsArr []))))"

definition listIssuesWithLabel :: "'g gh_cli \<Rightarrow> string \<Rightarrow> string \<Rightarrow> string \<Rightarrow> ('g, issue_data list) gh" where
  "listIssuesWithLabel C owner repo label =
     cbind (gh_ok C (''Failed to list issues with label '' @ [CHR 34] @ label @ [CHR 34])
              [''issue'', ''list'', ''-R'', repo_arg owner repo, ''--label'', label, ''--state'', ''open'',
               ''--json'', ISSUE_FIELDS, ''--limit'', ''100'']) (\<lambda>result.
       let data = parseJSONSafe (cr_stdout result)
       in if \<not> js_truthy data then cret []
          else cresult (js_map (\<lambda>i. sbind (js_get i ''state'') (\<lambda>st. read_issue (js_default st (JsStr ''open'')) i)) data))"

text \<open>What an issue may be updated to.\<close>

record issue_update =
  iu_title :: "string option"
  iu_body :: "string option"
  iu_state :: "string option"
  iu_labels :: "string list option"
  iu_assignees :: "string list option"

definition flagged :: "string \<Rightarrow> string list \<Rightarrow> string list" where
  "flagged flag values = concat (map (\<lambda>v. [flag, v]) values)"

definition edit_args :: "string \<Rightarrow> string \<Rightarrow> string \<Rightarrow> string list" where
  "edit_args owner repo number = [''issue'', ''edit'', number, ''-R'', repo_arg owner repo]"

definition update_args :: "issue_update \<Rightarrow> string list" where
  "update_args data =
     (if truthy (iu_title data) then [''--title'', the (iu_title data)] else [])
     @ (case iu_body data of Some b \<Rightarrow> [''--body'', b] | None \<Rightarrow> [])
     @ (case iu_labels data of Some ls \<Rightarrow> [''--remove-label'', ''*''] @ flagged ''--add-label'' ls | None \<Rightarrow> [])
     @ (case iu_assignees data of Some as \<Rightarrow> flagged ''--add-assignee'' as | None \<Rightarrow> [])"

definition updateIssue :: "'g gh_cli \<Rightarrow> string \<Rightarrow> string \<Rightarrow> string \<Rightarrow> issue_update \<Rightarrow> ('g, unit) gh" where
  "updateIssue C owner repo number data =
     cbind (gh_ok C (''Failed to update issue #'' @ number) (edit_args owner repo number @ update_args data))
       (\<lambda>_. cret ())"

section \<open>Comments\<close>

record comment_data =
  cm_id :: jsval
  cm_body :: jsval
  cm_author :: jsval
  cm_created :: jsval
  cm_updated :: jsval
  cm_association :: jsval

definition read_comment :: "jsval \<Rightarrow> gh_failure + comment_data" where
  "read_comment c =
     sbind (js_get c ''id'') (\<lambda>i.
     sbind (js_get (js_member c ''user'') ''login'') (\<lambda>author.
     Inr \<lparr> cm_id = i, cm_body = js_member c ''body'', cm_author = author, cm_created = js_member c ''created_at'',
       cm_updated = js_member c ''updated_at'', cm_association = js_member c ''author_association'' \<rparr>))"

definition comments_args :: "string \<Rightarrow> string \<Rightarrow> string \<Rightarrow> string list" where
  "comments_args owner repo number =
     [''api'', ''/repos/'' @ owner @ ''/'' @ repo @ ''/issues/'' @ number @ ''/comments'', ''--paginate'']"

definition getIssueComments :: "'g gh_cli \<Rightarrow> string \<Rightarrow> string \<Rightarrow> string \<Rightarrow> ('g, comment_data list) gh" where
  "getIssueComments C owner repo number =
     cbind (gh_ok C (''Failed to get comments for issue #'' @ number) (comments_args owner repo number)) (\<lambda>result.
       let data = parseJSONSafe (cr_stdout result)
       in if \<not> js_truthy data then cret [] else cresult (js_map read_comment data))"

definition comment_args :: "string \<Rightarrow> string \<Rightarrow> string \<Rightarrow> string \<Rightarrow> string list" where
  "comment_args owner repo number body = [''issue'', ''comment'', number, ''-R'', repo_arg owner repo, ''--body'', body]"

definition addIssueComment :: "'g gh_cli \<Rightarrow> string \<Rightarrow> string \<Rightarrow> string \<Rightarrow> string \<Rightarrow> ('g, comment_data) gh" where
  "addIssueComment C owner repo number body =
     cbind (gh_ok C (''Failed to add comment to issue #'' @ number) (comment_args owner repo number body)) (\<lambda>_.
     cbind (getIssueComments C owner repo number) (\<lambda>comments.
       if comments = [] then cthrow (Other_failure ''Failed to get created comment'') else cret (last comments)))"

definition update_comment_args :: "string \<Rightarrow> string \<Rightarrow> string \<Rightarrow> string \<Rightarrow> string list" where
  "update_comment_args owner repo commentId body =
     [''api'', ''-X'', ''PATCH'', ''/repos/'' @ owner @ ''/'' @ repo @ ''/issues/comments/'' @ commentId, ''-f'', ''body='' @ body]"

text \<open>The id of a comment is printed into the path.\<close>

definition updateComment :: "'g gh_cli \<Rightarrow> string \<Rightarrow> string \<Rightarrow> string \<Rightarrow> string \<Rightarrow> ('g, unit) gh" where
  "updateComment C owner repo commentId body =
     cbind (gh_ok C (''Failed to update comment '' @ commentId) (update_comment_args owner repo commentId body)) (\<lambda>_. cret ())"

section \<open>Labels\<close>

definition addLabels :: "'g gh_cli \<Rightarrow> string \<Rightarrow> string \<Rightarrow> string \<Rightarrow> string list \<Rightarrow> ('g, unit) gh" where
  "addLabels C owner repo number labels =
     (if labels = [] then cret ()
      else cbind (gh_ok C ''Failed to add labels'' (edit_args owner repo number @ flagged ''--add-label'' labels)) (\<lambda>_. cret ()))"

text \<open>A label that \<open>gh\<close> does not find is not an error.\<close>

definition removeLabels :: "'g gh_cli \<Rightarrow> string \<Rightarrow> string \<Rightarrow> string \<Rightarrow> string list \<Rightarrow> ('g, unit) gh" where
  "removeLabels C owner repo number labels =
     (if labels = [] then cret ()
      else cbind (executeGh C (edit_args owner repo number @ flagged ''--remove-label'' labels)) (\<lambda>result.
        if cr_exitCode result \<noteq> 0 \<and> \<not> has_text ''not found'' (cr_stderr result)
        then cthrow (Other_failure (''Failed to remove labels: '' @ cr_stderr result))
        else cret ()))"

definition list_args :: "string \<Rightarrow> string \<Rightarrow> string list" where
  "list_args owner repo = [''label'', ''list'', ''-R'', repo_arg owner repo, ''--json'', ''name,color,description'', ''--limit'', ''1000'']"

text \<open>The labels are returned as they were parsed.\<close>

definition getRepoLabels :: "'g gh_cli \<Rightarrow> string \<Rightarrow> string \<Rightarrow> ('g, jsval) gh" where
  "getRepoLabels C owner repo =
     cbind (gh_ok C ''Failed to get labels'' (list_args owner repo)) (\<lambda>result.
       cret (js_default (parseJSONSafe (cr_stdout result)) (JsArr [])))"

definition create_args :: "string \<Rightarrow> string \<Rightarrow> string \<Rightarrow> string \<Rightarrow> string option \<Rightarrow> string list" where
  "create_args owner repo name color description =
     [''label'', ''create'', name, ''-R'', repo_arg owner repo, ''--color'', replace_first ''#'' [] color]
     @ (if truthy description then [''--description'', the description] else [])"

definition createLabel :: "'g gh_cli \<Rightarrow> string \<Rightarrow> string \<Rightarrow> string \<Rightarrow> string \<Rightarrow> string option \<Rightarrow> ('g, unit) gh" where
  "createLabel C owner repo name color description =
     cbind (gh_ok C (''Failed to create label '' @ name) (create_args owner repo name color description)) (\<lambda>_. cret ())"

definition edit_label_args :: "string \<Rightarrow> string \<Rightarrow> string \<Rightarrow> string option \<Rightarrow> string option \<Rightarrow> string list" where
  "edit_label_args owner repo name color description =
     [''label'', ''edit'', name, ''-R'', repo_arg owner repo]
     @ (if truthy color then [''--color'', replace_first ''#'' [] (the color)] else [])
     @ (case description of Some d \<Rightarrow> [''--description'', d] | None \<Rightarrow> [])"

definition updateLabel :: "'g gh_cli \<Rightarrow> string \<Rightarrow> string \<Rightarrow> string \<Rightarrow> string option \<Rightarrow> string option \<Rightarrow> ('g, unit) gh" where
  "updateLabel C owner repo name color description =
     cbind (gh_ok C (''Failed to update label '' @ name) (edit_label_args owner repo name color description)) (\<lambda>_. cret ())"

text \<open>\<open>existing.some(l => l.name === name)\<close>\<close>

fun some_named :: "string \<Rightarrow> jsval list \<Rightarrow> gh_failure + bool" where
  "some_named name [] = Inr False"
| "some_named name (l # ls) =
     sbind (js_get l ''name'') (\<lambda>n. if n = JsStr name then Inr True else some_named name ls)"

definition createOrUpdateLabel :: "'g gh_cli \<Rightarrow> string \<Rightarrow> string \<Rightarrow> string \<Rightarrow> string \<Rightarrow> string option \<Rightarrow> ('g, bool) gh" where
  "createOrUpdateLabel C owner repo name color description =
     cbind (getRepoLabels C owner repo) (\<lambda>existing.
     cbind (cresult (case existing of JsArr ls \<Rightarrow> some_named name ls | _ \<Rightarrow> Inl type_error)) (\<lambda>exists.
       if exists then
         cbind (gh_ok C (''Failed to update label '' @ name)
                  ([''label'', ''edit'', name, ''-R'', repo_arg owner repo, ''--color'', replace_first ''#'' [] color]
                   @ (if truthy description then [''--description'', the description] else []))) (\<lambda>_. cret False)
       else
         cbind (gh_ok C (''Failed to create label '' @ name) (create_args owner repo name color description)) (\<lambda>_. cret True)))"

definition listLabels :: "'g gh_cli \<Rightarrow> string \<Rightarrow> string \<Rightarrow> ('g, jsval) gh" where
  "listLabels C owner repo = getRepoLabels C owner repo"

section \<open>Pull requests\<close>

record pull_request =
  pr_number :: jsval
  pr_title :: jsval
  pr_body :: jsval
  pr_state :: string
  pr_draft :: jsval
  pr_head :: jsval
  pr_base :: jsval
  pr_labels :: "(jsval \<times> jsval) list"
  pr_created :: jsval
  pr_updated :: jsval

definition read_pull_request :: "(string \<Rightarrow> string) \<Rightarrow> jsval \<Rightarrow> gh_failure + pull_request" where
  "read_pull_request state_of pr =
     sbind (js_lower (js_member pr ''state'')) (\<lambda>st.
     sbind (js_map (\<lambda>l. sbind (js_get l ''name'') (\<lambda>n. Inr (n, js_member l ''color''))) (js_default (js_member pr ''labels'') (JsArr []))) (\<lambda>labels.
     Inr \<lparr> pr_number = js_member pr ''number'', pr_title = js_member pr ''title'', pr_body = js_default (js_member pr ''body'') (JsStr []),
       pr_state = state_of st, pr_draft = js_default (js_member pr ''isDraft'') (JsBool False), pr_head = js_member pr ''headRefName'',
       pr_base = js_member pr ''baseRefName'', pr_labels = labels, pr_created = js_member pr ''createdAt'', pr_updated = js_member pr ''updatedAt'' \<rparr>))"

definition find_pr_args :: "string \<Rightarrow> string \<Rightarrow> string \<Rightarrow> string list" where
  "find_pr_args owner repo branch =
     [''pr'', ''list'', ''-R'', repo_arg owner repo, ''--head'', branch,
      ''--json'', ''number,title,body,state,isDraft,headRefName,baseRefName,labels,createdAt,updatedAt'', ''--limit'', ''1'']"

definition findPRForBranch :: "'g gh_cli \<Rightarrow> string \<Rightarrow> string \<Rightarrow> string \<Rightarrow> ('g, pull_request option) gh" where
  "findPRForBranch C owner repo branch =
     cbind (executeGh C (find_pr_args owner repo branch)) (\<lambda>result.
       if cr_exitCode result \<noteq> 0 then cret None
       else (let data = parseJSONSafe (cr_stdout result)
             in if \<not> js_truthy data \<or> js_member data ''length'' = js_int 0 then cret None
                else cresult (sbind (js_get (js_member data ''0'') ''state'') (\<lambda>_.
                       map_sum id Some (read_pull_request (\<lambda>s. if s = ''merged'' then ''merged'' else ''open'') (js_member data ''0''))))))"

definition getPRForBranch :: "'g gh_cli \<Rightarrow> string \<Rightarrow> string \<Rightarrow> string \<Rightarrow> ('g, pull_request option) gh" where
  "getPRForBranch C owner repo branch = findPRForBranch C owner repo branch"

definition getPullRequest :: "'g gh_cli \<Rightarrow> string \<Rightarrow> string \<Rightarrow> string \<Rightarrow> ('g, pull_request \<times> jsval) gh" where
  "getPullRequest C owner repo number =
     cbind (gh_ok C (''Failed to get PR #'' @ number)
              [''pr'', ''view'', number, ''-R'', repo_arg owner repo,
               ''--json'', ''number,title,body,state,isDraft,headRefName,baseRefName,labels,mergeable,createdAt,updatedAt'']) (\<lambda>result.
       let data = parseJSONSafe (cr_stdout result)
       in if \<not> js_truthy data then cthrow (Other_failure ''Failed to parse PR data'')
          else cresult (map_sum id (\<lambda>p. (p, js_member data ''mergeable''))
                 (read_pull_request (\<lambda>s. if s = ''merged'' then ''merged'' else if s = ''closed'' then ''closed'' else ''open'') data)))"

definition updatePullRequest :: "'g gh_cli \<Rightarrow> string \<Rightarrow> string \<Rightarrow> string \<Rightarrow> issue_update \<Rightarrow> ('g, unit) gh" where
  "updatePullRequest C owner repo number data =
     cbind (gh_ok C (''Failed to update PR #'' @ number)
              ([''pr'', ''edit'', number, ''-R'', repo_arg owner repo]
               @ (if truthy (iu_title data) then [''--title'', the (iu_title data)] else [])
               @ (case iu_body data of Some b \<Rightarrow> [''--body'', b] | None \<Rightarrow> []))) (\<lambda>_.
       if iu_state data = Some ''closed''
       then cbind (gh_ok C (''Failed to close PR #'' @ number)
                     [''pr'', ''close'', number, ''-R'', repo_arg owner repo]) (\<lambda>_. cret ())
       else cret ())"

definition markPRReady :: "'g gh_cli \<Rightarrow> string \<Rightarrow> string \<Rightarrow> string \<Rightarrow> ('g, unit) gh" where
  "markPRReady C owner repo number =
     cbind (gh_ok C (''Failed to mark PR #'' @ number @ '' as ready'') [''pr'', ''ready'', number, ''-R'', repo_arg owner repo])
       (\<lambda>_. cret ())"

definition listPrCommentBodies :: "'g gh_cli \<Rightarrow> string \<Rightarrow> string \<Rightarrow> string \<Rightarrow> ('g, string list) gh" where
  "listPrCommentBodies C owner repo number =
     cbind (gh_ok C (''Failed to list PR comments for '' @ owner @ ''/'' @ repo @ ''#'' @ number)
              [''pr'', ''view'', number, ''--repo'', repo_arg owner repo, ''--json'', ''comments'']) (\<lambda>result.
       let data = parseJSONSafe (cr_stdout result)
       in case (if js_truthy data then js_member data ''comments'' else JsUndefined) of
            JsArr cs \<Rightarrow>
              cbind (cresult (map_results (\<lambda>c. sbind (js_get c ''body'') (\<lambda>b. Inr (case b of JsStr t \<Rightarrow> t | _ \<Rightarrow> []))) cs)) (\<lambda>bodies.
                cret (filter (\<lambda>b. b \<noteq> []) bodies))
          | _ \<Rightarrow> cret [])"

definition postPrComment :: "'g gh_cli \<Rightarrow> string \<Rightarrow> string \<Rightarrow> string \<Rightarrow> string \<Rightarrow> ('g, unit) gh" where
  "postPrComment C owner repo number body =
     cbind (gh_ok C (''Failed to post PR comment on '' @ owner @ ''/'' @ repo @ ''#'' @ number)
              [''pr'', ''comment'', number, ''--repo'', repo_arg owner repo, ''--body'', body]) (\<lambda>_. cret ())"

text \<open>Branches of the repository, or of the checkout if \<open>gh\<close> fails.\<close>

definition lines_of :: "string \<Rightarrow> string list" where
  "lines_of t = filter (\<lambda>b. b \<noteq> []) (split_on (CHR 10) t)"

definition listBranches :: "'g gh_cli \<Rightarrow> string \<Rightarrow> string \<Rightarrow> ('g, string list) gh" where
  "listBranches C owner repo =
     cbind (executeGh C [''api'', ''--paginate'', ''/repos/'' @ owner @ ''/'' @ repo @ ''/branches?per_page=100'', ''--jq'', ''.[].name'']) (\<lambda>result.
       if cr_exitCode result \<noteq> 0 then
         cbind (\<lambda>g. case gc_git C [''branch'', ''-r'', ''--format=%(refname:short)''] g of (r, g') \<Rightarrow> (map_sum Other_failure id r, g'))
           (\<lambda>git. cret (map (replace_first ''origin/'' []) (lines_of (cr_stdout git))))
       else cret (lines_of (cr_stdout result)))"

end
