(* ===== verification/LabelMonitor.thy ===== *)
theory LabelMonitor
  imports PhaseTracker AdaptivePoll WorkflowLabels IssueLabels GhCli InMemoryQueue Dates
begin

text \<open>
  The monitor that turns labels into work (\<open>services/label-monitor-service.ts\<close>,
  \<open>services/identity.ts\<close> and the label events of \<open>types/monitor.ts\<close>, under
  \<open>packages/orchestrator/src\<close>). The queue is any implementation of the interface of WorkQueue, the
  GitHub client a parameter with a state of its own, any of whose calls may fail; every reading of
  the clock is the next value of a sequence. Repositories are polled one after the other.
\<close>

section \<open>Events\<close>

datatype label_event_type = Process_event | Resume_event

datatype event_source = From_webhook | From_poll

record label_event =
  le_type :: label_event_type
  le_owner :: string
  le_repo :: string
  le_issueNumber :: int
  le_labelName :: string
  le_parsedName :: string
  le_source :: event_source
  le_issueLabels :: "string list"

definition parseLabelEvent :: "string \<Rightarrow> string \<Rightarrow> string \<Rightarrow> int \<Rightarrow> string list \<Rightarrow> event_source \<Rightarrow> label_event option" where
  "parseLabelEvent labelName owner repo issueNumber issueLabels detected =
     (if starts_with ''process:'' labelName then
        (let workflowName = drop (length ''process:'') labelName
         in if workflowName = [] then None
            else Some \<lparr> le_type = Process_event, le_owner = owner, le_repo = repo, le_issueNumber = issueNumber,
              le_labelName = labelName, le_parsedName = workflowName, le_source = detected, le_issueLabels = issueLabels \<rparr>)
      else if starts_with ''completed:'' labelName then
        (let phaseName = drop (length ''completed:'') labelName
         in if phaseName = [] then None
            else if ''waiting-for:'' @ phaseName \<in> set issueLabels
            then Some \<lparr> le_type = Resume_event, le_owner = owner, le_repo = repo, le_issueNumber = issueNumber,
              le_labelName = labelName, le_parsedName = phaseName, le_source = detected, le_issueLabels = issueLabels \<rparr>
            else None)
      else None)"

definition resolveWorkflowFromLabels :: "string list \<Rightarrow> string" where
  "resolveWorkflowFromLabels issueLabels =
     (case List.find (starts_with ''workflow:'') issueLabels of
        Some l \<Rightarrow> drop (length ''workflow:'') l
      | None \<Rightarrow> ''speckit-feature'')"

section \<open>The monitor and its world\<close>

record gh_issue =
  ghi_number :: int
  ghi_title :: string
  ghi_body :: string
  ghi_closed :: bool
  ghi_labels :: "string list"
  ghi_assignees :: "string list"

record 'g issue_client =
  ic_getIssue :: "string \<Rightarrow> string \<Rightarrow> int \<Rightarrow> (gh_failure, 'g, gh_issue) comp"
  ic_listIssuesWithLabel :: "string \<Rightarrow> string \<Rightarrow> string \<Rightarrow> (gh_failure, 'g, gh_issue list) comp"
  ic_addLabels :: "string \<Rightarrow> string \<Rightarrow> int \<Rightarrow> string list \<Rightarrow> (gh_failure, 'g, unit) comp"
  ic_removeLabels :: "string \<Rightarrow> string \<Rightarrow> int \<Rightarrow> string list \<Rightarrow> (gh_failure, 'g, unit) comp"

datatype auth_result = Auth_ok | Auth_failed nat

record ('q, 'g, 'r) monitor_world =
  mw_queue :: 'q
  mw_github :: 'g
  mw_redis :: 'r
  mw_clock :: "nat \<Rightarrow> int"
  mw_readings :: nat
  mw_dropState :: drop_state
  mw_dropLog :: "log_line list"
  mw_authResults :: "(string \<times> auth_result) list"
  mw_pollCycleCount :: nat

record ('q, 'g, 'r) label_monitor =
  lmn_queue :: "'q queue_manager"
  lmn_github :: "'g issue_client"
  lmn_tracker :: "'r phase_tracker"
  lmn_clusterGithubUsername :: "string option"
  lmn_githubAppCredentialId :: "string option"
  lmn_maxRunDurationMs :: int
  lmn_repositories :: "(string \<times> string) list"

datatype monitor_error = Queue_failure js_error | Github_failure gh_failure

type_synonym ('q, 'g, 'r, 'a) monitoring = "(monitor_error, ('q, 'g, 'r) monitor_world, 'a) comp"

definition on_mqueue :: "('q, 'a) js \<Rightarrow> ('q, 'g, 'r, 'a) monitoring" where
  "on_mqueue f w = (case f (mw_queue w) of (x, q) \<Rightarrow> (map_sum Queue_failure id x, w\<lparr> mw_queue := q \<rparr>))"

definition on_github :: "(gh_failure, 'g, 'a) comp \<Rightarrow> ('q, 'g, 'r, 'a) monitoring" where
  "on_github f w = (case f (mw_github w) of (x, g) \<Rightarrow> (map_sum Github_failure id x, w\<lparr> mw_github := g \<rparr>))"

definition on_tracker :: "('r \<Rightarrow> 'a \<times> 'r) \<Rightarrow> ('q, 'g, 'r, 'a) monitoring" where
  "on_tracker f w = (case f (mw_redis w) of (x, r) \<Rightarrow> (Inr x, w\<lparr> mw_redis := r \<rparr>))"

definition date_now :: "('q, 'g, 'r, int) monitoring" where
  "date_now w = (Inr (mw_clock w (mw_readings w)), w\<lparr> mw_readings := Suc (mw_readings w) \<rparr>)"

section \<open>Processing an event\<close>

text \<open>The issue, unless it cannot be fetched.\<close>

definition fetch_issue :: "('q, 'g, 'r) label_monitor \<Rightarrow> label_event \<Rightarrow> ('q, 'g, 'r, gh_issue option) monitoring" where
  "fetch_issue S ev =
     ctry (cbind (on_github (ic_getIssue (lmn_github S) (le_owner ev) (le_repo ev) (le_issueNumber ev))) (\<lambda>i. cret (Some i)))
       (\<lambda>_. cret None)"

definition description_of :: "label_event \<Rightarrow> gh_issue option \<Rightarrow> string" where
  "description_of ev fetched =
     (case fetched of
        None \<Rightarrow> ''Issue #'' @ show_int (le_issueNumber ev)
      | Some i \<Rightarrow> if ghi_body i \<noteq> [] then ghi_body i else ghi_title i)"

definition workflow_of :: "label_event \<Rightarrow> string" where
  "workflow_of ev = (if le_type ev = Resume_event then resolveWorkflowFromLabels (le_issueLabels ev) else le_parsedName ev)"

definition event_item :: "label_event \<Rightarrow> gh_issue option \<Rightarrow> int \<Rightarrow> int \<Rightarrow> queue_item" where
  "event_item ev fetched now now' =
     \<lparr> qi_owner = le_owner ev, qi_repo = le_repo ev, qi_issueNumber = le_issueNumber ev, qi_workflowName = workflow_of ev,
       qi_command = (if le_type ev = Process_event then Process else Continue), qi_priority = of_int now,
       qi_enqueuedAt = toISOString now', qi_metadata = Some (JObj [(''description'', JStr (description_of ev fetched))]),
       qi_queueReason = Some (if le_type ev = Process_event then Reason_new else Reason_resume), qi_userId = None \<rparr>"

definition new_item :: "label_event \<Rightarrow> gh_issue option \<Rightarrow> ('q, 'g, 'r, queue_item) monitoring" where
  "new_item ev fetched = cbind date_now (\<lambda>now. cbind date_now (\<lambda>now'. cret (event_item ev fetched now now')))"

definition event_key :: "label_event \<Rightarrow> string" where
  "event_key ev = le_owner ev @ ''/'' @ le_repo ev @ ''#'' @ show_int (le_issueNumber ev)"

definition drop_resume :: "('q, 'g, 'r) label_monitor \<Rightarrow> label_event \<Rightarrow> ('q, 'g, 'r, bool) monitoring" where
  "drop_resume S ev =
     cbind date_now (\<lambda>now. cbind (on_mqueue (qm_hasInFlightAge (lmn_queue S) now (event_key ev))) (\<lambda>ageMs.
       cbind (cmod (\<lambda>w. case classifyDropSeverity (event_key ev) ageMs (lmn_maxRunDurationMs S) (mw_dropState w) of
           (decision, st) \<Rightarrow> w\<lparr> mw_dropState := st, mw_dropLog := mw_dropLog w @ [emitDropLog decision (event_key ev)] \<rparr>))
         (\<lambda>_. cret False)))"

definition resume_event :: "('q, 'g, 'r) label_monitor \<Rightarrow> label_event \<Rightarrow> queue_item \<Rightarrow> ('q, 'g, 'r, bool) monitoring" where
  "resume_event S ev item =
     cbind date_now (\<lambda>now. cbind (on_mqueue (qm_enqueueIfAbsent (lmn_queue S) now item)) (\<lambda>enqueued.
       if enqueued then cret True else drop_resume S ev))"

definition stale_run_labels :: "string list \<Rightarrow> string list" where
  "stale_run_labels = filter (\<lambda>l. starts_with ''completed:'' l \<or> starts_with ''failed:'' l \<or> starts_with ''waiting-for:'' l)"

definition relabel :: "('q, 'g, 'r) label_monitor \<Rightarrow> label_event \<Rightarrow> gh_issue option \<Rightarrow> ('q, 'g, 'r, unit) monitoring" where
  "relabel S ev fetched =
     cbind (case fetched of
              Some i \<Rightarrow> cret i
            | None \<Rightarrow> on_github (ic_getIssue (lmn_github S) (le_owner ev) (le_repo ev) (le_issueNumber ev)))
       (\<lambda>i. cbind (on_github (ic_removeLabels (lmn_github S) (le_owner ev) (le_repo ev) (le_issueNumber ev)
                (le_labelName ev # ''agent:error'' # stale_run_labels (ghi_labels i))))
         (\<lambda>_. on_github (ic_addLabels (lmn_github S) (le_owner ev) (le_repo ev) (le_issueNumber ev)
                [''agent:in-progress'', ''workflow:'' @ le_parsedName ev])))"

definition process_event :: "('q, 'g, 'r) label_monitor \<Rightarrow> label_event \<Rightarrow> gh_issue option \<Rightarrow> queue_item \<Rightarrow> ('q, 'g, 'r, bool) monitoring" where
  "process_event S ev fetched item =
     cbind (ctry (cbind date_now (\<lambda>now. cbind (on_mqueue (qm_enqueue (lmn_queue S) now item)) (\<lambda>_. cret True))) (\<lambda>_. cret False))
       (\<lambda>stored.
          if \<not> stored then cret False
          else
            cbind (on_tracker (markProcessed (lmn_tracker S) (le_owner ev) (le_repo ev) (le_issueNumber ev) (le_parsedName ev))) (\<lambda>_.
            cbind (ctry (relabel S ev fetched) (\<lambda>_. cret ())) (\<lambda>_. cret True)))"

definition event_duplicate :: "('q, 'g, 'r) label_monitor \<Rightarrow> label_event \<Rightarrow> ('q, 'g, 'r, bool) monitoring" where
  "event_duplicate S ev =
     (if le_type ev = Process_event then
        cbind (on_tracker (clear_tracked (lmn_tracker S) (le_owner ev) (le_repo ev) (le_issueNumber ev) (le_parsedName ev))) (\<lambda>_.
          on_tracker (isDuplicate (lmn_tracker S) (le_owner ev) (le_repo ev) (le_issueNumber ev) (le_parsedName ev)))
      else cret False)"

definition processLabelEvent :: "('q, 'g, 'r) label_monitor \<Rightarrow> label_event \<Rightarrow> ('q, 'g, 'r, bool) monitoring" where
  "processLabelEvent S ev =
     cbind (event_duplicate S ev) (\<lambda>duplicate.
       if duplicate then cret False
       else
         cbind (fetch_issue S ev) (\<lambda>fetched.
           if (case fetched of Some i \<Rightarrow> ghi_closed i | None \<Rightarrow> False) then cret False
           else
             cbind (new_item ev fetched) (\<lambda>item.
               if le_type ev = Resume_event then resume_event S ev item else process_event S ev fetched item)))"

definition verifyAndProcessCompletedLabel ::
    "('q, 'g, 'r) label_monitor \<Rightarrow> string \<Rightarrow> string \<Rightarrow> int \<Rightarrow> string \<Rightarrow> ('q, 'g, 'r, bool) monitoring" where
  "verifyAndProcessCompletedLabel S owner repo issueNumber labelName =
     cbind (ctry (cbind (on_github (ic_getIssue (lmn_github S) owner repo issueNumber)) (\<lambda>i. cret (Some (ghi_labels i))))
              (\<lambda>_. cret None))
       (\<lambda>freshLabels.
          case freshLabels of
            None \<Rightarrow> cret False
          | Some ls \<Rightarrow>
              (case parseLabelEvent labelName owner repo issueNumber ls From_webhook of
                 None \<Rightarrow> cret False
               | Some ev \<Rightarrow> processLabelEvent S ev))"

section \<open>Polling\<close>

definition filterByAssignee :: "gh_issue list \<Rightarrow> string option \<Rightarrow> gh_issue list" where
  "filterByAssignee issues clusterGithubUsername =
     (if \<not> truthy clusterGithubUsername then issues
      else filter (\<lambda>i. ghi_assignees i \<noteq> [] \<and> the clusterGithubUsername \<in> set (ghi_assignees i)) issues)"

definition KNOWN_PROCESS_LABELS :: "string list" where
  "KNOWN_PROCESS_LABELS = filter (starts_with ''process:'') WORKFLOW_LABEL_NAMES"

definition KNOWN_COMPLETED_LABELS :: "string list" where
  "KNOWN_COMPLETED_LABELS = filter (starts_with ''completed:'') WORKFLOW_LABEL_NAMES"

definition poll_label :: "('q, 'g, 'r) label_monitor \<Rightarrow> string \<Rightarrow> string \<Rightarrow> string \<Rightarrow> ('q, 'g, 'r, unit) monitoring" where
  "poll_label S owner repo label =
     cbind (on_github (ic_listIssuesWithLabel (lmn_github S) owner repo label)) (\<lambda>allIssues.
       cfor (filterByAssignee allIssues (lmn_clusterGithubUsername S)) (\<lambda>i.
         case parseLabelEvent label owner repo (ghi_number i) (ghi_labels i) From_poll of
           None \<Rightarrow> cret ()
         | Some ev \<Rightarrow> cbind (processLabelEvent S ev) (\<lambda>_. cret ())))"

definition record_auth :: "('q, 'g, 'r) label_monitor \<Rightarrow> auth_result \<Rightarrow> ('q, 'g, 'r, unit) monitoring" where
  "record_auth S result =
     (if truthy (lmn_githubAppCredentialId S)
      then cmod (\<lambda>w. w\<lparr> mw_authResults := mw_authResults w @ [(the (lmn_githubAppCredentialId S), result)] \<rparr>)
      else cret ())"

definition pollRepo :: "('q, 'g, 'r) label_monitor \<Rightarrow> bool \<Rightarrow> string \<times> string \<Rightarrow> ('q, 'g, 'r, unit) monitoring" where
  "pollRepo S checkCompleted = (\<lambda>(owner, repo).
     ctry
       (cbind (cfor KNOWN_PROCESS_LABELS (poll_label S owner repo)) (\<lambda>_.
        cbind (if checkCompleted then cfor KNOWN_COMPLETED_LABELS (poll_label S owner repo) else cret ()) (\<lambda>_.
        record_auth S Auth_ok)))
       (\<lambda>e. case e of Github_failure (Auth_failure _ _) \<Rightarrow> record_auth S (Auth_failed 401) | _ \<Rightarrow> cret ()))"

definition COMPLETED_CHECK_INTERVAL :: nat where
  "COMPLETED_CHECK_INTERVAL = 3"

definition poll_monitor :: "('q, 'g, 'r) label_monitor \<Rightarrow> ('q, 'g, 'r, unit) monitoring" where
  "poll_monitor S =
     (if lmn_repositories S = [] then cret ()
      else
        cbind (cmod (\<lambda>w. w\<lparr> mw_pollCycleCount := Suc (mw_pollCycleCount w) \<rparr>)) (\<lambda>_.
        cbind (cget (\<lambda>w. mw_pollCycleCount w mod COMPLETED_CHECK_INTERVAL = 0)) (\<lambda>checkCompleted.
        cfor (lmn_repositories S) (pollRepo S checkCompleted))))"

section \<open>What an event does\<close>

definition fetched_issue :: "('q, 'g, 'r) label_monitor \<Rightarrow> label_event \<Rightarrow> 'g \<Rightarrow> gh_issue option" where
  "fetched_issue S ev g =
     (case fst (ic_getIssue (lmn_github S) (le_owner ev) (le_repo ev) (le_issueNumber ev) g) of Inr i \<Rightarrow> Some i | Inl _ \<Rightarrow> None)"

definition closed_issue :: "('q, 'g, 'r) label_monitor \<Rightarrow> label_event \<Rightarrow> 'g \<Rightarrow> bool" where
  "closed_issue S ev g \<longleftrightarrow> (\<exists>i. fetched_issue S ev g = Some i \<and> ghi_closed i)"

lemma fetch_issue_run:
  "fetch_issue S ev w = (Inr (fetched_issue S ev (mw_github w)),
     w\<lparr> mw_github := snd (ic_getIssue (lmn_github S) (le_owner ev) (le_repo ev) (le_issueNumber ev) (mw_github w)) \<rparr>)"
  by (auto simp: fetch_issue_def fetched_issue_def on_github_def comp_simps split: prod.splits sum.splits)

lemma new_item_run:
  "new_item ev fetched w = (Inr (event_item ev fetched (mw_clock w (mw_readings w)) (mw_clock w (Suc (mw_readings w)))),
     w\<lparr> mw_readings := Suc (Suc (mw_readings w)) \<rparr>)"
  by (simp add: new_item_def date_now_def comp_simps)

lemma event_item_key [simp]: "buildItemKey (event_item ev f t t') = event_key ev"
  by (simp add: buildItemKey_def event_item_def event_key_def)

lemma event_item_reason:
  "qi_queueReason (event_item ev f t t') = Some (if le_type ev = Process_event then Reason_new else Reason_resume)"
  "qi_command (event_item ev f t t') = (if le_type ev = Process_event then Process else Continue)"
  by (simp_all add: event_item_def)

lemma event_duplicate_run:
  "\<exists>d rd. event_duplicate S ev w = (Inr d, w\<lparr> mw_redis := rd \<rparr>) \<and> (le_type ev = Resume_event \<longrightarrow> \<not> d)"
proof -
  let ?c = "clear_tracked (lmn_tracker S) (le_owner ev) (le_repo ev) (le_issueNumber ev) (le_parsedName ev) (mw_redis w)"
  have "\<exists>rd. w = w\<lparr> mw_redis := rd \<rparr>" by (rule exI [of _ "mw_redis w"]) simp
  then show ?thesis by (auto simp: event_duplicate_def on_tracker_def comp_simps split: prod.split label_event_type.split)
qed

lemma drop_resume_run:
  assumes "observed_queue (lmn_queue S) places ok limit" and "ok (mw_queue w)"
  shows "\<exists>w'. drop_resume S ev w = (Inr False, w') \<and> ok (mw_queue w') \<and> places (mw_queue w') = places (mw_queue w)"
proof -
  from observed_queue.age_quiet [OF assms, of "mw_clock w (mw_readings w)" "event_key ev"]
  obtain a q' where "qm_hasInFlightAge (lmn_queue S) (mw_clock w (mw_readings w)) (event_key ev) (mw_queue w) = (Inr a, q')"
    "ok q'" "places q' = places (mw_queue w)" by blast
  then show ?thesis by (auto simp: drop_resume_def date_now_def on_mqueue_def comp_simps split: prod.split)
qed

lemma resume_event_run:
  assumes "observed_queue (lmn_queue S) places ok limit" and "ok (mw_queue w)"
  shows "\<exists>w' now. resume_event S ev item w = (Inr (places (mw_queue w) (buildItemKey item) = None), w') \<and> ok (mw_queue w')
    \<and> places (mw_queue w') =
        put_absent (buildItemKey item) (Queued 0 (getPriorityScore now (qi_queueReason item))) (places (mw_queue w))"
proof -
  let ?now = "mw_clock w (mw_readings w)"
  have wq: "work_queue (lmn_queue S) places ok limit" by (rule observed_queue.axioms(1) [OF assms(1)])
  from work_queue.enqueueIfAbsent [OF wq assms(2), of ?now item]
  obtain q' where q': "qm_enqueueIfAbsent (lmn_queue S) ?now item (mw_queue w) = (Inr (places (mw_queue w) (buildItemKey item) = None), q')"
    "ok q'" "places q' = put_absent (buildItemKey item) (Queued 0 (getPriorityScore ?now (qi_queueReason item))) (places (mw_queue w))" by blast
  let ?w = "w\<lparr> mw_readings := Suc (mw_readings w), mw_queue := q' \<rparr>"
  from drop_resume_run [OF assms(1), of ?w ev] q'(2)
  obtain w' where w': "drop_resume S ev ?w = (Inr False, w')" "ok (mw_queue w')" "places (mw_queue w') = places q'" by auto
  show ?thesis
  proof (cases "places (mw_queue w) (buildItemKey item) = None")
    case True
    with q' have "resume_event S ev item w = (Inr True, ?w)"
      by (simp add: resume_event_def date_now_def on_mqueue_def comp_simps)
    with True q' show ?thesis by auto
  next
    case False
    with q' w' have "resume_event S ev item w = (Inr False, w')"
      by (simp add: resume_event_def date_now_def on_mqueue_def comp_simps)
    with False q' w' show ?thesis by auto
  qed
qed

lemma relabel_queue: "mw_queue (snd (relabel S ev fetched w)) = mw_queue w"
  by (cases fetched) (simp_all add: relabel_def on_github_def comp_simps split: prod.split sum.split)

lemma process_event_run:
  assumes "work_queue (lmn_queue S) places ok limit" and "ok (mw_queue w)"
  shows "\<exists>w' now n. process_event S ev fetched item w = (Inr True, w') \<and> ok (mw_queue w')
    \<and> places (mw_queue w') =
        put_absent (buildItemKey item) (Queued n (getPriorityScore now (qi_queueReason item))) (places (mw_queue w))"
proof -
  let ?now = "mw_clock w (mw_readings w)"
  from work_queue.enqueue [OF assms, of ?now item]
  obtain n q' where q': "qm_enqueue (lmn_queue S) ?now item (mw_queue w) = (Inr (places (mw_queue w) (buildItemKey item) = None), q')"
    "ok q'" "places q' = put_absent (buildItemKey item) (Queued n (getPriorityScore ?now (qi_queueReason item))) (places (mw_queue w))" by blast
  obtain rd where t: "markProcessed (lmn_tracker S) (le_owner ev) (le_repo ev) (le_issueNumber ev) (le_parsedName ev) (mw_redis w) = ((), rd)"
    by (cases "markProcessed (lmn_tracker S) (le_owner ev) (le_repo ev) (le_issueNumber ev) (le_parsedName ev) (mw_redis w)") auto
  let ?w = "w\<lparr> mw_readings := Suc (mw_readings w), mw_queue := q', mw_redis := rd \<rparr>"
  obtain x w' where r: "relabel S ev fetched ?w = (x, w')" by fastforce
  have "process_event S ev fetched item w = (Inr True, w')"
    using q'(1) t r by (cases x) (simp_all add: process_event_def date_now_def on_mqueue_def on_tracker_def comp_simps)
  moreover have "mw_queue w' = q'" using relabel_queue [of S ev fetched ?w] r by simp
  ultimately show ?thesis using q' by auto
qed

lemma processLabelEvent_run:
  assumes "event_duplicate S ev w = (Inr d, w\<lparr> mw_redis := rd \<rparr>)"
  defines "f \<equiv> fetched_issue S ev (mw_github w)"
    and "v \<equiv> w\<lparr> mw_redis := rd, mw_github := snd (ic_getIssue (lmn_github S) (le_owner ev) (le_repo ev) (le_issueNumber ev) (mw_github w)) \<rparr>"
  defines "item \<equiv> event_item ev f (mw_clock w (mw_readings w)) (mw_clock w (Suc (mw_readings w)))"
    and "u \<equiv> v\<lparr> mw_readings := Suc (Suc (mw_readings w)) \<rparr>"
  shows "processLabelEvent S ev w =
      (if d then (Inr False, w\<lparr> mw_redis := rd \<rparr>)
       else if closed_issue S ev (mw_github w) then (Inr False, v)
       else if le_type ev = Resume_event then resume_event S ev item u else process_event S ev f item u)"
proof -
  have "closed_issue S ev (mw_github w) \<longleftrightarrow> (case f of Some i \<Rightarrow> ghi_closed i | None \<Rightarrow> False)"
    by (simp add: closed_issue_def f_def split: option.split)
  then show ?thesis
    by (simp add: processLabelEvent_def assms(1) comp_simps fetch_issue_run new_item_run f_def v_def item_def u_def)
qed

lemma resume_processed:
  assumes "observed_queue (lmn_queue S) places ok limit" and "ok (mw_queue w)" and "le_type ev = Resume_event"
    and "\<not> closed_issue S ev (mw_github w)"
  shows "\<exists>w' now. processLabelEvent S ev w = (Inr (places (mw_queue w) (event_key ev) = None), w') \<and> ok (mw_queue w')
    \<and> places (mw_queue w') = put_absent (event_key ev) (Queued 0 (getPriorityScore now (Some Reason_resume))) (places (mw_queue w))"
proof -
  from event_duplicate_run [of S ev w] assms(3) obtain rd where d: "event_duplicate S ev w = (Inr False, w\<lparr> mw_redis := rd \<rparr>)" by auto
  let ?item = "event_item ev (fetched_issue S ev (mw_github w)) (mw_clock w (mw_readings w)) (mw_clock w (Suc (mw_readings w)))"
  let ?u = "w\<lparr> mw_redis := rd, mw_github := snd (ic_getIssue (lmn_github S) (le_owner ev) (le_repo ev) (le_issueNumber ev) (mw_github w)),
      mw_readings := Suc (Suc (mw_readings w)) \<rparr>"
  have "processLabelEvent S ev w = resume_event S ev ?item ?u" using assms(3,4) by (simp add: processLabelEvent_run [OF d])
  with resume_event_run [OF assms(1), of ?u ev ?item] assms(2,3) show ?thesis by (auto simp: event_item_reason)
qed


section \<open>An answered gate is worked on once\<close>

lemma parse_completed:
  "g \<noteq> [] \<Longrightarrow> parseLabelEvent (''completed:'' @ g) owner repo n labels src =
     (if ''waiting-for:'' @ g \<in> set labels
      then Some \<lparr> le_type = Resume_event, le_owner = owner, le_repo = repo, le_issueNumber = n,
        le_labelName = ''completed:'' @ g, le_parsedName = g, le_source = src, le_issueLabels = labels \<rparr>
      else None)"
  by (simp add: parseLabelEvent_def starts_with_def)

lemma resumed_not_waiting:
  assumes "gh_laws (lbm_client M) gl gr" and "perform M (Resume_start retain) w = (Inr (), w')"
  shows "''waiting-for:'' @ g \<notin> gl (lw_github w')"
proof -
  obtain Y where Y: "gl (lw_github w') = Y - takes (Resume_start retain) Y \<union> set (puts (Resume_start retain))"
    using perform_outcome(2) [OF assms refl] unfolding precise_def by blast
  have "starts_with ''waiting-for:'' (''waiting-for:'' @ g)" by (simp add: starts_with_def)
  then have "''waiting-for:'' @ g \<notin> Y - takes (Resume_start retain) Y" unfolding takes.simps by blast
  moreover have "''waiting-for:'' @ g \<notin> set (puts (Resume_start retain))" by simp
  ultimately show ?thesis unfolding Y by blast
qed

text \<open>
  C20. A gate that a human answers is resumed once. After a gate was hit and completed, the monitor
  recognises the completion, and if the issue is open and not in flight, the issue is put in
  the queue to be resumed while all others keep their places. Once the worker's resume has returned,
  the same completion is no event any more.
\<close>

theorem answered_gate_resumed_once:
  assumes "gh_laws (lbm_client M) gl gr" and "perform M (Gate_hit p (''waiting-for:'' @ g)) w = (Inr (), w1)" and "g \<noteq> []"
    and "set labels = insert (''completed:'' @ g) (gl (lw_github w1))"
    and "observed_queue (lmn_queue S) places ok limit" and "ok (mw_queue m)"
    and "places (mw_queue m) (owner @ ''/'' @ repo @ ''#'' @ show_int n) = None"
    and "\<forall>i. fst (ic_getIssue (lmn_github S) owner repo n (mw_github m)) = Inr i \<longrightarrow> \<not> ghi_closed i"
  shows "\<exists>ev m' now. parseLabelEvent (''completed:'' @ g) owner repo n labels src = Some ev
      \<and> processLabelEvent S ev m = (Inr True, m')
      \<and> places (mw_queue m') =
          (places (mw_queue m))(owner @ ''/'' @ repo @ ''#'' @ show_int n \<mapsto> Queued 0 (getPriorityScore now (Some Reason_resume)))
      \<and> (\<forall>retain w2 w3 labels'. gl (lw_github w2) = set labels \<and> perform M (Resume_start retain) w2 = (Inr (), w3)
            \<and> set labels' = gl (lw_github w3) \<longrightarrow>
          parseLabelEvent (''completed:'' @ g) owner repo n labels' src = None)"
proof -
  let ?ev = "\<lparr> le_type = Resume_event, le_owner = owner, le_repo = repo, le_issueNumber = n,
        le_labelName = ''completed:'' @ g, le_parsedName = g, le_source = src, le_issueLabels = labels \<rparr>"
  have "''waiting-for:'' @ g \<in> set labels"
    using perform_done [OF assms(1,2)] assms(4) by (auto simp: precise_def)
  then have parsed: "parseLabelEvent (''completed:'' @ g) owner repo n labels src = Some ?ev"
    unfolding parse_completed [OF assms(3)] by simp
  have "\<not> closed_issue S ?ev (mw_github m)"
    using assms(8) by (auto simp: closed_issue_def fetched_issue_def split: sum.splits)
  from resume_processed [OF assms(5,6) _ this] assms(7)
  obtain m' now where m': "processLabelEvent S ?ev m = (Inr True, m')"
    "places (mw_queue m') = put_absent (event_key ?ev) (Queued 0 (getPriorityScore now (Some Reason_resume))) (places (mw_queue m))"
    by (auto simp: event_key_def)
  have "parseLabelEvent (''completed:'' @ g) owner repo n labels' src = None"
    if "perform M (Resume_start retain) w2 = (Inr (), w3)" "set labels' = gl (lw_github w3)" for retain w2 w3 labels'
    using resumed_not_waiting [OF assms(1) that(1), of g] unfolding parse_completed [OF assms(3)] that(2) by simp
  with parsed m' assms(7) show ?thesis by (fastforce simp: event_key_def put_absent_def)
qed

section \<open>Polling goes on\<close>

lemma ctry_returns: "(\<And>e v. \<exists>w'. h e v = (Inr (), w')) \<Longrightarrow> \<exists>w'. ctry m h w = (Inr (), w')"
  by (cases "m w"; cases "fst (m w)") (auto simp: comp_simps)

text \<open>A poll throws nothing, and counts itself; every third one looks at completions.\<close>

lemma pollRepo_returns: "\<exists>w'. pollRepo S c r w = (Inr (), w')"
proof -
  obtain owner repo where r: "r = (owner, repo)" by fastforce
  have auth: "\<exists>w'. record_auth S a v = (Inr (), w')" for a v by (simp add: record_auth_def comp_simps)
  then have handler: "\<exists>w'. (case e of Github_failure (Auth_failure _ _) \<Rightarrow> record_auth S (Auth_failed 401) | _ \<Rightarrow> cret ()) v = (Inr (), w')" for e v
    by (auto simp: comp_simps split: monitor_error.split gh_failure.split)
  show ?thesis unfolding pollRepo_def r prod.case
    by (rule ctry_returns) (rule handler)
qed

lemma poll_returns: "\<exists>w'. poll_monitor S w = (Inr (), w')"
proof -
  have "\<exists>w'. cfor rs (pollRepo S c) v = (Inr (), w')" for rs c v
  proof (induction rs arbitrary: v)
    case (Cons r rs)
    obtain v' where "pollRepo S c r v = (Inr (), v')" using pollRepo_returns by blast
    with Cons show ?case by (simp add: comp_simps)
  qed (simp add: comp_simps)
  then show ?thesis by (simp add: poll_monitor_def comp_simps)
qed

section \<open>A monitor in memory\<close>

definition memory_issue :: "int \<Rightarrow> memory_github \<Rightarrow> gh_issue" where
  "memory_issue n g = \<lparr> ghi_number = n, ghi_title = ''t'', ghi_body = [], ghi_closed = False, ghi_labels = mg_labels g,
     ghi_assignees = [] \<rparr>"

definition memory_issue_client :: "memory_github issue_client" where
  "memory_issue_client =
     \<lparr> ic_getIssue = (\<lambda>owner repo n g. (Inr (memory_issue n g), g)),
       ic_listIssuesWithLabel = (\<lambda>owner repo l g. (Inr (if l \<in> set (mg_labels g) then [memory_issue 7 g] else []), g)),
       ic_addLabels = (\<lambda>owner repo n ls g. (Inr (), g\<lparr> mg_labels := fold sadd ls (mg_labels g) \<rparr>)),
       ic_removeLabels = (\<lambda>owner repo n ls g. (Inr (), g\<lparr> mg_labels := filter (\<lambda>l. l \<notin> set ls) (mg_labels g) \<rparr>)) \<rparr>"

definition memory_label_monitor :: "(memory_queue, memory_github, unit) label_monitor" where
  "memory_label_monitor =
     \<lparr> lmn_queue = memory_queue_ops, lmn_github = memory_issue_client, lmn_tracker = new_tracker None None,
       lmn_clusterGithubUsername = None, lmn_githubAppCredentialId = None, lmn_maxRunDurationMs = 1800000,
       lmn_repositories = [(''o'', ''r'')] \<rparr>"

definition memory_monitor_world :: "string list \<Rightarrow> (memory_queue, memory_github, unit) monitor_world" where
  "memory_monitor_world ls =
     \<lparr> mw_queue = new_memory_queue None None, mw_github = \<lparr> mg_labels = ls, mg_faults = [] \<rparr>, mw_redis = (), mw_clock = int,
       mw_readings = 0, mw_dropState = [], mw_dropLog = [], mw_authResults = [], mw_pollCycleCount = 0 \<rparr>"

definition answered_labels :: "string list" where
  "answered_labels = [''completed:plan-review'', ''bug'', ''waiting-for:plan-review'', ''agent:paused'']"

definition answered_event :: label_event where
  "answered_event = \<lparr> le_type = Resume_event, le_owner = ''o'', le_repo = ''r'', le_issueNumber = 7,
     le_labelName = ''completed:plan-review'', le_parsedName = ''plan-review'', le_source = From_poll, le_issueLabels = answered_labels \<rparr>"

lemma memory_monitor_ready:
  "observed_queue (lmn_queue memory_label_monitor) im_places im_ok im_maxRetries"
  "im_ok (mw_queue (memory_monitor_world ls))" "im_places (mw_queue (memory_monitor_world ls)) = Map.empty"
  by (simp_all add: memory_label_monitor_def memory_monitor_world_def new_memory_queue_ok imo.observed_queue_axioms)

lemma memory_issue_open: "\<forall>i. fst (ic_getIssue (lmn_github memory_label_monitor) owner repo n g) = Inr i \<longrightarrow> \<not> ghi_closed i"
  by (auto simp: memory_label_monitor_def memory_issue_client_def memory_issue_def)


theorem answered_gate_resumed_once_witness:
  "parseLabelEvent ''completed:plan-review'' ''o'' ''r'' 7 answered_labels From_poll \<noteq> None
   \<and> fst (processLabelEvent memory_label_monitor (the (parseLabelEvent ''completed:plan-review'' ''o'' ''r'' 7 answered_labels From_poll))
       (memory_monitor_world answered_labels)) = Inr True"
proof -
  have hit: "perform memory_manager (Gate_hit Plan (''waiting-for:'' @ ''plan-review'')) (memory_world [''phase:plan'', ''bug''] [False, True])
     = (Inr (), (memory_world [''bug'', ''waiting-for:plan-review'', ''agent:paused''] [])\<lparr> lw_ensuredRepos := [''generacy-ai/generacy''],
          lw_cleared := [''plan-review''] \<rparr>)"
    using demo_gate_hit by simp
  have labels: "set answered_labels = insert (''completed:'' @ ''plan-review'') (set (mg_labels (lw_github
      ((memory_world [''bug'', ''waiting-for:plan-review'', ''agent:paused''] [])\<lparr> lw_ensuredRepos := [''generacy-ai/generacy''],
          lw_cleared := [''plan-review''] \<rparr>))))"
    by (auto simp: answered_labels_def memory_world_def)
  have places: "im_places (mw_queue (memory_monitor_world answered_labels)) (''o'' @ ''/'' @ ''r'' @ ''#'' @ show_int 7) = None"
    by (simp add: memory_monitor_ready(3))
  have g: "''plan-review'' \<noteq> []" by simp
  obtain ev m' where ev: "parseLabelEvent (''completed:'' @ ''plan-review'') ''o'' ''r'' 7 answered_labels From_poll = Some ev"
    "processLabelEvent memory_label_monitor ev (memory_monitor_world answered_labels) = (Inr True, m')"
    using answered_gate_resumed_once [OF memory_manager_laws hit g labels memory_monitor_ready(1) memory_monitor_ready(2) places memory_issue_open,
        where src = From_poll] by (elim exE conjE) simp
  have c: "''completed:'' @ ''plan-review'' = ''completed:plan-review''" by simp
  show ?thesis using ev unfolding c by simp
qed

end
