(* ===== verification/GithubActions.thy ===== *)
theory GithubActions
  imports GhCli ActionRegistry WorkflowLabels Dates
begin

text \<open>
  Built-in actions that work on GitHub (under \<open>src/packages/workflow-engine/src/actions\<close>): closing
  an epic, checking its completion and dispatching its children (\<open>epic\<close>), gates, phase labels
  and stage comments (\<open>workflow\<close>), and the synchronisation of labels
  (\<open>github/sync-labels.ts\<close>). Each is its \<open>executeInternal\<close>: it throws if an input is
  missing, everything later becomes a failed result. What they log is left out. Pictographs in
  comments, which are no characters of the model, are arguments.
\<close>

section \<open>Results and inputs\<close>

text \<open>\<open>String(v)\<close>\<close>

fun js_text :: "jsval \<Rightarrow> string" where
  "js_text JsUndefined = ''undefined''"
| "js_text JsNull = ''null''"
| "js_text (JsBool b) = (if b then ''true'' else ''false'')"
| "js_text (JsNum n) = show_number n"
| "js_text (JsStr s) = s"
| "js_text (JsArr xs) = join_with '','' (map (\<lambda>x. if nullish x then [] else js_text x) xs)"
| "js_text (JsObj es) = ''[object Object]''"
| "js_text (JsDate d) = d"
| "js_text (JsFun f) = ''function '' @ f @ ''() { [native code] }''"
| "js_text JsProto = ''[object Object]''"

type_synonym 'g acting = "(string, 'g, action_result) comp"

definition successResult :: "jsval \<Rightarrow> action_result" where
  "successResult output = \<lparr> ar_success = True, ar_output = output, ar_stdout = None, ar_stderr = None,
     ar_error = None, ar_exitCode = Some 0, ar_duration = 0 \<rparr>"

definition failureResult :: "string \<Rightarrow> action_result" where
  "failureResult error = \<lparr> ar_success = False, ar_output = JsNull, ar_stdout = None, ar_stderr = None,
     ar_error = Some error, ar_exitCode = Some 1, ar_duration = 0 \<rparr>"

text \<open>The outer \<open>try\<close> of every action.\<close>

definition or_failure :: "('g, action_result) gh \<Rightarrow> 'g acting" where
  "or_failure m g = (case m g of (Inr r, g') \<Rightarrow> (Inr r, g') | (Inl e, g') \<Rightarrow> (Inr (failureResult (failure_text e)), g'))"

definition need :: "step_definition \<Rightarrow> action_context \<Rightarrow> string \<Rightarrow> (string, 'g, jsval) comp" where
  "need step ctx key = cresult (required_input step ctx key)"

definition owner_of :: "repo_info \<Rightarrow> string" where
  "owner_of i = js_text (ri_owner i)"

definition repo_of :: "repo_info \<Rightarrow> string" where
  "repo_of i = js_text (ri_repo i)"

definition label_names :: "issue_data \<Rightarrow> jsval list" where
  "label_names i = map gl_name (isd_labels i)"

text \<open>The arguments of a command must be texts.\<close>

definition label_args :: "jsval list \<Rightarrow> gh_failure + string list" where
  "label_args = map_results (\<lambda>v. case v of JsStr s \<Rightarrow> Inr s | _ \<Rightarrow> Inl type_error)"

text \<open>Whether a step is for the action of a type.\<close>

definition can_handle :: "string \<Rightarrow> step_definition \<Rightarrow> bool" where
  "can_handle type step =
     (let uses = (case sd_uses step of Some u \<Rightarrow> u | None \<Rightarrow> sd_action step)
      in uses \<noteq> [] \<and> (uses = type \<or> isNamespacedAction uses \<and> uses = type))"

section \<open>Checking a gate\<close>

definition gate_output :: "jsval \<Rightarrow> jsval list \<Rightarrow> jsval" where
  "gate_output phase labels =
     (let hasNeeds = JsStr (''needs:'' @ js_text phase) \<in> set labels;
          hasWaiting = JsStr (''waiting-for:'' @ js_text phase) \<in> set labels;
          hasCompleted = JsStr (''completed:'' @ js_text phase) \<in> set labels;
          gateActive = hasNeeds \<or> hasWaiting; blocked = gateActive \<and> \<not> hasCompleted
      in JsObj [(''can_proceed'', JsBool (\<not> blocked)), (''gate_active'', JsBool gateActive),
           (''waiting_for'', if blocked then phase else JsUndefined), (''completed'', if hasCompleted then phase else JsUndefined),
           (''blocked_reason'', if blocked then JsStr (''Waiting for '' @ js_text phase @ '' approval'') else JsUndefined)])"

definition check_gate :: "'g gh_cli \<Rightarrow> step_definition \<Rightarrow> action_context \<Rightarrow> 'g acting" where
  "check_gate C step ctx =
     cbind (need step ctx ''issue_number'') (\<lambda>issueNumber.
     cbind (need step ctx ''phase'') (\<lambda>phase.
       or_failure (cbind (getRepoInfo C) (\<lambda>r.
         cbind (getIssue C (owner_of r) (repo_of r) (js_text issueNumber)) (\<lambda>issue.
           cret (successResult (gate_output phase (label_names issue))))))))"

section \<open>Phase labels\<close>

definition PHASE_LABELS :: "(string, jsval) jmap" where
  "PHASE_LABELS = map (\<lambda>p. (p, JsStr (''phase:'' @ p))) [''specify'', ''clarify'', ''plan'', ''tasks'', ''implement'', ''validate'']"

definition COMPLETED_LABELS :: "(string, jsval) jmap" where
  "COMPLETED_LABELS = map (\<lambda>p. (p, JsStr (''completed:'' @ p))) [''specify'', ''clarify'', ''plan'', ''tasks'', ''implement'', ''validate'']"

definition WAITING_FOR_LABELS :: "(string, jsval) jmap" where
  "WAITING_FOR_LABELS = map (\<lambda>p. (p, JsStr (''waiting-for:'' @ p)))
     [''spec-review'', ''clarification'', ''clarification-review'', ''plan-review'', ''tasks-review'', ''implementation-review'',
      ''manual-validation'', ''address-pr-feedback'', ''children-complete'']"

text \<open>\<open>TABLE[phase]\<close>, if that is truthy\<close>

definition table_label :: "(string, jsval) jmap \<Rightarrow> jsval \<Rightarrow> jsval option" where
  "table_label table phase = (let v = js_member (JsObj table) (js_text phase) in if js_truthy v then Some v else None)"

definition add_values :: "'g gh_cli \<Rightarrow> string \<Rightarrow> string \<Rightarrow> string \<Rightarrow> jsval list \<Rightarrow> ('g, unit) gh" where
  "add_values C owner repo number labels = cbind (cresult (label_args labels)) (addLabels C owner repo number)"

text \<open>A removal that fails is passed over; the labels are then not reported as removed.\<close>

definition try_remove :: "'g gh_cli \<Rightarrow> string \<Rightarrow> string \<Rightarrow> string \<Rightarrow> jsval list \<Rightarrow> ('g, jsval list) gh" where
  "try_remove C owner repo number labels =
     ctry (cbind (cresult (label_args labels)) (\<lambda>ls. cbind (removeLabels C owner repo number ls) (\<lambda>_. cret labels))) (\<lambda>_. cret [])"

definition remove_waiting :: "'g gh_cli \<Rightarrow> string \<Rightarrow> string \<Rightarrow> string \<Rightarrow> jsval \<Rightarrow> ('g, jsval list) gh" where
  "remove_waiting C owner repo number phase =
     (case table_label WAITING_FOR_LABELS phase of None \<Rightarrow> cret [] | Some w \<Rightarrow> try_remove C owner repo number [w])"

definition add_from :: "(string, jsval) jmap \<Rightarrow> 'g gh_cli \<Rightarrow> string \<Rightarrow> string \<Rightarrow> string \<Rightarrow> jsval \<Rightarrow> ('g, jsval list) gh" where
  "add_from table C owner repo number phase =
     (case table_label table phase of None \<Rightarrow> cret [] | Some l \<Rightarrow> cbind (add_values C owner repo number [l]) (\<lambda>_. cret [l]))"

text \<open>The labels added and removed; \<open>None\<close> for an unknown action.\<close>

definition update_labels ::
    "'g gh_cli \<Rightarrow> string \<Rightarrow> string \<Rightarrow> string \<Rightarrow> jsval \<Rightarrow> jsval \<Rightarrow> ('g, (jsval list \<times> jsval list) option) gh" where
  "update_labels C owner repo number phase action =
     (if action = JsStr ''start'' then
        cbind (remove_waiting C owner repo number phase) (\<lambda>rm. cret (Some ([], rm)))
      else if action = JsStr ''complete'' then
        (let c = JsStr (''completed:'' @ js_text phase)
         in cbind (add_values C owner repo number [c]) (\<lambda>_.
            cbind (remove_waiting C owner repo number phase) (\<lambda>rm. cret (Some ([c], rm)))))
      else if action = JsStr ''block'' then
        cbind (add_from WAITING_FOR_LABELS C owner repo number phase) (\<lambda>ad. cret (Some (ad, [])))
      else if action = JsStr ''set_current'' then
        (case table_label PHASE_LABELS phase of
           None \<Rightarrow> cret (Some ([], []))
         | Some l \<Rightarrow>
             cbind (try_remove C owner repo number (filter (\<lambda>x. x \<noteq> l) (jvals PHASE_LABELS))) (\<lambda>rm.
             cbind (add_values C owner repo number [l]) (\<lambda>_. cret (Some ([l], rm)))))
      else if action = JsStr ''add_completion'' then
        cbind (add_from COMPLETED_LABELS C owner repo number phase) (\<lambda>ad. cret (Some (ad, [])))
      else cret None)"

definition update_phase :: "'g gh_cli \<Rightarrow> step_definition \<Rightarrow> action_context \<Rightarrow> 'g acting" where
  "update_phase C step ctx =
     cbind (need step ctx ''issue_number'') (\<lambda>issueNumber.
     cbind (need step ctx ''phase'') (\<lambda>phase.
     cbind (need step ctx ''action'') (\<lambda>action.
       or_failure (cbind (getRepoInfo C) (\<lambda>r.
         cbind (update_labels C (owner_of r) (repo_of r) (js_text issueNumber) phase action) (\<lambda>changed.
           case changed of
             None \<Rightarrow> cret (failureResult (''Unknown action: '' @ js_text action))
           | Some (added, removed) \<Rightarrow>
               cret (successResult (JsObj [(''success'', JsBool True), (''phase'', phase), (''action'', action),
                 (''labels_added'', JsArr added), (''labels_removed'', JsArr removed)]))))))))"

section \<open>Stage comments\<close>

definition STAGE_MARKERS :: "(string, jsval) jmap" where
  "STAGE_MARKERS = map (\<lambda>s. (s, JsStr (''<!-- stage:'' @ s @ '' -->''))) [''specification'', ''planning'', ''implementation'']"

definition STAGE_TITLES :: "(string, jsval) jmap" where
  "STAGE_TITLES = [(''specification'', JsStr ''Specification''), (''planning'', JsStr ''Planning''), (''implementation'', JsStr ''Implementation'')]"

definition STATUS_ICONS :: "(string, jsval) jmap" where
  "STATUS_ICONS = map (\<lambda>s. (s, JsStr [])) [''pending'', ''in_progress'', ''complete'', ''blocked'']"

definition entry_text :: "(string, jsval) jmap \<Rightarrow> jsval \<Rightarrow> string" where
  "entry_text table k = js_text (js_member (JsObj table) (js_text k))"

definition progress_line :: "jsval \<Rightarrow> gh_failure + string" where
  "progress_line item =
     sbind (js_get item ''status'') (\<lambda>status.
     Inr (''- '' @ entry_text STATUS_ICONS status @ '' **'' @ js_text (js_member item ''command'') @ ''**: ''
       @ (if status = JsStr ''complete'' then ''Done'' else if status = JsStr ''in_progress'' then ''In Progress'' else ''Pending'')
       @ (if js_truthy (js_member item ''summary'') then '' - '' @ js_text (js_member item ''summary'') else []) @ [CHR 10]))"

record stage_inputs =
  st_stage :: jsval
  st_status :: jsval
  st_progress :: jsval
  st_branch :: jsval
  st_prNumber :: jsval
  st_nextStep :: jsval
  st_blockedReason :: jsval

definition generateStageComment :: "stage_inputs \<Rightarrow> int \<Rightarrow> gh_failure + string" where
  "generateStageComment i now =
     sbind (js_map progress_line (st_progress i)) (\<lambda>items.
     Inr (entry_text STAGE_MARKERS (st_stage i) @ [CHR 10] @ ''## '' @ entry_text STATUS_ICONS (st_status i) @ '' ''
       @ entry_text STAGE_TITLES (st_stage i) @ [CHR 10, CHR 10]
       @ (if js_truthy (st_branch i) then ''**Branch:** '' @ [CHR 96] @ js_text (st_branch i) @ [CHR 96, CHR 10] else [])
       @ (if js_truthy (st_prNumber i) then ''**PR:** #'' @ js_text (st_prNumber i) @ [CHR 10] else [])
       @ (if js_truthy (st_branch i) \<or> js_truthy (st_prNumber i) then [CHR 10] else [])
       @ ''### Progress'' @ [CHR 10, CHR 10] @ concat items
       @ (if st_status i = JsStr ''blocked'' \<and> js_truthy (st_blockedReason i)
          then [CHR 10] @ ''**Blocked:** '' @ js_text (st_blockedReason i) @ [CHR 10]
          else if js_truthy (st_nextStep i) then [CHR 10] @ ''**Next:** '' @ js_text (st_nextStep i) @ [CHR 10] else [])
       @ [CHR 10] @ ''---'' @ [CHR 10] @ ''*Updated: '' @ toISOString now @ ''*'' @ [CHR 10]))"

text \<open>\<open>comments.find(c => c.body.includes(marker))\<close>\<close>

fun find_comment :: "string \<Rightarrow> comment_data list \<Rightarrow> gh_failure + comment_data option" where
  "find_comment marker [] = Inr None"
| "find_comment marker (c # cs) =
     (case cm_body c of
        JsStr b \<Rightarrow> if has_text marker b then Inr (Some c) else find_comment marker cs
      | _ \<Rightarrow> Inl type_error)"

text \<open>The id of the comment and whether it was created.\<close>

definition put_comment :: "'g gh_cli \<Rightarrow> string \<Rightarrow> string \<Rightarrow> string \<Rightarrow> string \<Rightarrow> string \<Rightarrow> ('g, jsval \<times> bool) gh" where
  "put_comment C owner repo number marker body =
     cbind (getIssueComments C owner repo number) (\<lambda>comments.
     cbind (cresult (find_comment marker comments)) (\<lambda>existing.
       case existing of
         Some c \<Rightarrow> cbind (updateComment C owner repo (js_text (cm_id c)) body) (\<lambda>_. cret (cm_id c, False))
       | None \<Rightarrow> cbind (addIssueComment C owner repo number body) (\<lambda>c. cret (cm_id c, True))))"

definition comment_url :: "repo_info \<Rightarrow> string \<Rightarrow> jsval \<Rightarrow> string" where
  "comment_url r number commentId =
     ''https://github.com/'' @ owner_of r @ ''/'' @ repo_of r @ ''/issues/'' @ number @ ''#issuecomment-'' @ js_text commentId"

definition stage_inputs_of :: "step_definition \<Rightarrow> action_context \<Rightarrow> jsval \<Rightarrow> jsval \<Rightarrow> jsval \<Rightarrow> stage_inputs" where
  "stage_inputs_of step ctx stage status progress =
     (let get = (\<lambda>k. action_input step ctx k JsUndefined)
      in \<lparr> st_stage = stage, st_status = status, st_progress = progress, st_branch = get ''branch'', st_prNumber = get ''pr_number'',
           st_nextStep = get ''next_step'', st_blockedReason = get ''blocked_reason'' \<rparr>)"

definition update_stage :: "'g gh_cli \<Rightarrow> int \<Rightarrow> step_definition \<Rightarrow> action_context \<Rightarrow> 'g acting" where
  "update_stage C now step ctx =
     cbind (need step ctx ''issue_number'') (\<lambda>issueNumber.
     cbind (need step ctx ''stage'') (\<lambda>stage.
     cbind (need step ctx ''status'') (\<lambda>status.
     cbind (need step ctx ''progress'') (\<lambda>progress.
       or_failure (cbind (getRepoInfo C) (\<lambda>r.
         cbind (cresult (generateStageComment (stage_inputs_of step ctx stage status progress) now)) (\<lambda>body.
         cbind (put_comment C (owner_of r) (repo_of r) (js_text issueNumber) (entry_text STAGE_MARKERS stage) body) (\<lambda>(commentId, created).
           cret (successResult (JsObj [(''success'', JsBool True), (''comment_id'', commentId),
             (''comment_url'', JsStr (comment_url r (js_text issueNumber) commentId)), (''created'', JsBool created)]))))))))))"

end
