(* ===== verification/EpicActions.thy ===== *)
theory EpicActions
  imports GithubActions
begin

text \<open>
  The actions on epics (\<open>actions/epic/find-children.ts\<close>, \<open>check-completion.ts\<close>, \<open>dispatch-children.ts\<close>,
  \<open>close.ts\<close>) and the synchronisation of labels (\<open>actions/github/sync-labels.ts\<close>), under
  \<open>src/packages/workflow-engine/src\<close>.
\<close>

section \<open>The children of an epic\<close>

datatype child_filter = All_issues | Open_issues | Closed_issues

record epic_child =
  ec_number :: jsval
  ec_title :: jsval
  ec_state :: string
  ec_pr_merged :: bool
  ec_pr_number :: jsval
  ec_labels :: "jsval list"

definition merged_pr_args :: "string \<Rightarrow> string \<Rightarrow> string \<Rightarrow> string list" where
  "merged_pr_args owner repo number =
     [''pr'', ''list'', ''-R'', repo_arg owner repo, ''--search'', ''closes:#'' @ number, ''--state'', ''merged'',
      ''--json'', ''number'', ''--limit'', ''1'']"

text \<open>Whether a merged pull request closes the issue, and its number; these calls pass no token.\<close>

definition checkPrMerged :: "'g gh_cli \<Rightarrow> string \<Rightarrow> string \<Rightarrow> string \<Rightarrow> ('g, bool \<times> jsval) gh" where
  "checkPrMerged C owner repo number =
     cbind (run_gh C (merged_pr_args owner repo number) None) (\<lambda>result.
       cret (if cr_exitCode result \<noteq> 0 \<or> trim (cr_stdout result) = ''[]'' then (False, JsNull)
             else (case JSON_parse (cr_stdout result) of
                     Some (JsArr (pr # _)) \<Rightarrow> if js_truthy pr then (True, js_member pr ''number'') else (False, JsNull)
                   | Some (JsStr s) \<Rightarrow> if s \<noteq> [] then (True, JsUndefined) else (False, JsNull)
                   | _ \<Rightarrow> (False, JsNull))))"

definition children_args :: "string \<Rightarrow> string \<Rightarrow> string \<Rightarrow> child_filter \<Rightarrow> string list" where
  "children_args owner repo epicNumber state =
     [''issue'', ''list'', ''-R'', repo_arg owner repo, ''--search'', [CHR 34] @ ''epic-parent: '' @ epicNumber @ [CHR 34] @ '' in:body'',
      ''--json'', ''number,title,state,labels'', ''--limit'', ''100'']
     @ (case state of Open_issues \<Rightarrow> [] | All_issues \<Rightarrow> [''--state'', ''all''] | Closed_issues \<Rightarrow> [''--state'', ''closed''])"

definition read_child :: "jsval \<Rightarrow> bool \<times> jsval \<Rightarrow> gh_failure + epic_child" where
  "read_child i pr =
     sbind (js_lower (js_member i ''state'')) (\<lambda>state.
     sbind (js_map (\<lambda>l. js_get l ''name'') (js_member i ''labels'')) (\<lambda>labels.
     Inr \<lparr> ec_number = js_member i ''number'', ec_title = js_member i ''title'', ec_state = state, ec_pr_merged = fst pr,
       ec_pr_number = snd pr, ec_labels = labels \<rparr>))"

primrec read_children :: "'g gh_cli \<Rightarrow> string \<Rightarrow> string \<Rightarrow> bool \<Rightarrow> jsval list \<Rightarrow> ('g, epic_child list) gh" where
  "read_children C owner repo includePrStatus [] = cret []"
| "read_children C owner repo includePrStatus (i # issues) =
     cbind (cresult (js_get i ''number'')) (\<lambda>number.
     cbind (if includePrStatus then checkPrMerged C owner repo (js_text number) else cret (False, JsNull)) (\<lambda>pr.
     cbind (cresult (read_child i pr)) (\<lambda>c.
     cbind (read_children C owner repo includePrStatus issues) (\<lambda>cs. cret (c # cs)))))"

text \<open>Output that is JSON but no array is a type error.\<close>

definition findChildIssues :: "'g gh_cli \<Rightarrow> string \<Rightarrow> string \<Rightarrow> string \<Rightarrow> child_filter \<Rightarrow> bool \<Rightarrow> ('g, epic_child list) gh" where
  "findChildIssues C owner repo epicNumber state includePrStatus =
     cbind (run_gh C (children_args owner repo epicNumber state) None) (\<lambda>result.
       if cr_exitCode result \<noteq> 0 then cret []
       else (case JSON_parse (cr_stdout result) of
               None \<Rightarrow> cret []
             | Some (JsArr issues) \<Rightarrow> read_children C owner repo includePrStatus issues
             | Some _ \<Rightarrow> cthrow type_error))"

section \<open>Completion\<close>

definition label_starts :: "string \<Rightarrow> jsval \<Rightarrow> gh_failure + bool" where
  "label_starts p l = (case l of JsStr s \<Rightarrow> Inr (starts_with p s) | _ \<Rightarrow> Inl type_error)"

fun some_label :: "string \<Rightarrow> jsval list \<Rightarrow> gh_failure + bool" where
  "some_label p [] = Inr False"
| "some_label p (l # ls) = sbind (label_starts p l) (\<lambda>b. if b then Inr True else some_label p ls)"

definition js_round :: "rat \<Rightarrow> int" where
  "js_round q = \<lfloor>q + 1 / 2\<rfloor>"

record completion =
  cp_percentage :: int
  cp_ready :: bool
  cp_total :: nat
  cp_completed :: nat
  cp_inProgress :: nat
  cp_blocked :: nat

definition child_done :: "epic_child \<Rightarrow> bool" where
  "child_done c \<longleftrightarrow> ec_state c = ''closed'' \<and> ec_pr_merged c"

definition completion_of :: "epic_child list \<Rightarrow> gh_failure + completion" where
  "completion_of children =
     (let total = length children; done_children = length (filter child_done children);
          inProgress = length (filter (\<lambda>c. ec_state c = ''open'' \<and> JsStr ''agent:in-progress'' \<in> set (ec_labels c)) children)
      in sbind (map_results (\<lambda>c. some_label ''waiting-for:'' (ec_labels c)) children) (\<lambda>blocked.
         Inr \<lparr> cp_percentage = (if 0 < total then js_round (of_nat done_children / of_nat total * 100) else 0),
           cp_ready = (0 < total \<and> done_children = total), cp_total = total, cp_completed = done_children,
           cp_inProgress = inProgress, cp_blocked = length (filter id blocked) \<rparr>))"

definition child_value :: "epic_child \<Rightarrow> jsval" where
  "child_value c = JsObj [(''issue_number'', ec_number c), (''title'', ec_title c), (''state'', JsStr (ec_state c)),
     (''pr_merged'', JsBool (ec_pr_merged c)), (''pr_number'', ec_pr_number c), (''labels'', JsArr (ec_labels c))]"

definition completion_value :: "completion \<Rightarrow> epic_child list \<Rightarrow> jsval" where
  "completion_value s children = JsObj [(''percentage'', js_int (cp_percentage s)), (''ready_for_pr'', JsBool (cp_ready s)),
     (''total_children'', js_int (int (cp_total s))), (''completed_children'', js_int (int (cp_completed s))),
     (''in_progress_children'', js_int (int (cp_inProgress s))), (''blocked_children'', js_int (int (cp_blocked s))),
     (''children'', JsArr (map child_value children))]"

definition check_completion :: "'g gh_cli \<Rightarrow> step_definition \<Rightarrow> action_context \<Rightarrow> 'g acting" where
  "check_completion C step ctx =
     cbind (need step ctx ''epic_issue_number'') (\<lambda>epic.
       or_failure (cbind (getRepoInfo C) (\<lambda>r.
         cbind (findChildIssues C (owner_of r) (repo_of r) (js_text epic) All_issues True) (\<lambda>children.
         cbind (cresult (completion_of children)) (\<lambda>s. cret (successResult (completion_value s children)))))))"

section \<open>Dispatching children\<close>

definition AGENT_ACCOUNT :: string where
  "AGENT_ACCOUNT = ''generacy-bot''"

definition DISPATCHED_LABEL :: string where
  "DISPATCHED_LABEL = ''agent:dispatched''"

definition only_assignees :: "string list \<Rightarrow> issue_update" where
  "only_assignees as = \<lparr> iu_title = None, iu_body = None, iu_state = None, iu_labels = None, iu_assignees = Some as \<rparr>"

text \<open>Why an issue is not dispatched; \<open>None\<close> if it is.\<close>

definition dispatch_child :: "'g gh_cli \<Rightarrow> string \<Rightarrow> string \<Rightarrow> string \<Rightarrow> jsval \<Rightarrow> 'g \<Rightarrow> string option \<times> 'g" where
  "dispatch_child C owner repo account number g =
     (let n = js_text number
      in case cbind (getIssue C owner repo n) (\<lambda>i.
           if isd_state i \<noteq> ''open'' then cret (Some (''Issue is '' @ isd_state i @ '', not open''))
           else if JsStr DISPATCHED_LABEL \<in> set (label_names i) then cret (Some ''Already dispatched'')
           else cbind (updateIssue C owner repo n (only_assignees [account])) (\<lambda>_.
                cbind (addLabels C owner repo n [DISPATCHED_LABEL]) (\<lambda>_. cret None))) g of
         (Inr x, g') \<Rightarrow> (x, g')
       | (Inl e, g') \<Rightarrow> (Some (failure_text e), g'))"

primrec dispatch_loop :: "'g gh_cli \<Rightarrow> string \<Rightarrow> string \<Rightarrow> string \<Rightarrow> jsval list \<Rightarrow> 'g \<Rightarrow> (jsval list \<times> (jsval \<times> string) list) \<times> 'g" where
  "dispatch_loop C owner repo account [] g = (([], []), g)"
| "dispatch_loop C owner repo account (n # ns) g =
     (case dispatch_child C owner repo account n g of (x, g1) \<Rightarrow>
        (case dispatch_loop C owner repo account ns g1 of ((dispatched, failed), g2) \<Rightarrow>
           (case x of None \<Rightarrow> ((n # dispatched, failed), g2) | Some why \<Rightarrow> ((dispatched, (n, why) # failed), g2))))"

definition dispatch_result :: "string \<Rightarrow> jsval list \<Rightarrow> (jsval \<times> string) list \<Rightarrow> action_result" where
  "dispatch_result account dispatched failed =
     (if dispatched = [] \<and> failed \<noteq> []
      then failureResult (''Failed to dispatch any children: ''
             @ join_with '', '' (map (\<lambda>(n, why). ''#'' @ js_text n @ '': '' @ why) failed))
      else successResult (JsObj [(''dispatched'', JsArr dispatched),
             (''failed'', JsArr (map (\<lambda>(n, why). JsObj [(''issue_number'', n), (''reason'', JsStr why)]) failed)),
             (''agent_account'', JsStr account)]))"

text \<open>\<open>account\<close> is the variable \<open>GENERACY_AGENT_ACCOUNT\<close> of the environment.\<close>

definition dispatch_children :: "'g gh_cli \<Rightarrow> string option \<Rightarrow> step_definition \<Rightarrow> action_context \<Rightarrow> 'g acting" where
  "dispatch_children C account step ctx =
     cbind (need step ctx ''epic_issue_number'') (\<lambda>epic.
     cbind (need step ctx ''child_issues'') (\<lambda>childIssues.
       case childIssues of
         JsArr (n # ns) \<Rightarrow>
           or_failure (cbind (getRepoInfo C) (\<lambda>r.
             let acc = (case account of Some a \<Rightarrow> a | None \<Rightarrow> AGENT_ACCOUNT)
             in cbind (\<lambda>g. case dispatch_loop C (owner_of r) (repo_of r) acc (n # ns) g of (x, g') \<Rightarrow> (Inr x, g')) (\<lambda>(dispatched, failed).
                cret (dispatch_result acc dispatched failed))))
       | _ \<Rightarrow> cret (failureResult ''child_issues must be a non-empty array of issue numbers'')))"

section \<open>Closing an epic\<close>

definition only_state :: "string \<Rightarrow> issue_update" where
  "only_state st = \<lparr> iu_title = None, iu_body = None, iu_state = Some st, iu_labels = None, iu_assignees = None \<rparr>"

text \<open>The pull request of a branch named after the epic, if it says that it is merged.\<close>

definition find_merged_pr :: "'g gh_cli \<Rightarrow> string \<Rightarrow> string \<Rightarrow> string \<Rightarrow> jsval \<Rightarrow> ('g, jsval) gh" where
  "find_merged_pr C owner repo epic prNumber =
     (if js_truthy prNumber then cret prNumber
      else cbind (listBranches C owner repo) (\<lambda>branches.
        case List.find (starts_with (epic @ ''-'')) branches of
          None \<Rightarrow> cret prNumber
        | Some b \<Rightarrow>
            cbind (getPRForBranch C owner repo b) (\<lambda>pr.
              cret (case pr of Some p \<Rightarrow> if pr_state p = ''merged'' then pr_number p else prNumber | None \<Rightarrow> prNumber))))"

definition generateCompletionComment :: "string \<Rightarrow> jsval \<Rightarrow> int \<Rightarrow> string" where
  "generateCompletionComment icon prNumber now =
     ''## '' @ icon @ '' Epic Completed'' @ [CHR 10, CHR 10] @ ''This epic has been successfully completed and closed.'' @ [CHR 10, CHR 10]
     @ (if js_truthy prNumber then ''**Merged via:** #'' @ js_text prNumber @ [CHR 10, CHR 10] else [])
     @ ''---'' @ [CHR 10] @ ''*Closed by Generacy workflow engine at '' @ toISOString now @ ''*'' @ [CHR 10]"

definition close_epic :: "'g gh_cli \<Rightarrow> string \<Rightarrow> int \<Rightarrow> step_definition \<Rightarrow> action_context \<Rightarrow> 'g acting" where
  "close_epic C icon now step ctx =
     cbind (need step ctx ''epic_issue_number'') (\<lambda>epic.
       or_failure (cbind (getRepoInfo C) (\<lambda>r.
         cbind (find_merged_pr C (owner_of r) (repo_of r) (js_text epic) (action_input step ctx ''pr_number'' JsUndefined)) (\<lambda>mergedPR.
         cbind (addIssueComment C (owner_of r) (repo_of r) (js_text epic) (generateCompletionComment icon mergedPR now)) (\<lambda>_.
         cbind (updateIssue C (owner_of r) (repo_of r) (js_text epic) (only_state ''closed'')) (\<lambda>_.
           cret (successResult (JsObj [(''closed'', JsBool True),
             (''issue_url'', JsStr (''https://github.com/'' @ owner_of r @ ''/'' @ repo_of r @ ''/issues/'' @ js_text epic))]))))))))"

section \<open>Synchronising labels\<close>

datatype sync_action = Created | Updated | Unchanged

text \<open>\<open>new Map(existing.map(l => [l.name, l]))\<close>\<close>

definition label_map :: "jsval \<Rightarrow> gh_failure + (jsval, jsval) jmap" where
  "label_map existing =
     sbind (js_map (\<lambda>l. sbind (js_get l ''name'') (\<lambda>n. Inr (n, l))) existing) (\<lambda>ps. Inr (fold (\<lambda>(n, l). jset n l) ps []))"

definition sync_label :: "'g gh_cli \<Rightarrow> string \<Rightarrow> string \<Rightarrow> bool \<Rightarrow> (jsval, jsval) jmap \<Rightarrow> label_def \<Rightarrow> ('g, string \<times> sync_action) gh" where
  "sync_label C owner repo dryRun existingMap l =
     (let name = lbl_name l
      in case jget existingMap (JsStr name) of
           None \<Rightarrow>
             cbind (if dryRun then cret () else createLabel C owner repo name (lbl_color l) (Some (lbl_description l)))
               (\<lambda>_. cret (name, Created))
         | Some e \<Rightarrow>
             if js_member e ''color'' \<noteq> JsStr (lbl_color l) \<or> js_member e ''description'' \<noteq> JsStr (lbl_description l) then
               cbind (if dryRun then cret () else updateLabel C owner repo name (Some (lbl_color l)) (Some (lbl_description l)))
                 (\<lambda>_. cret (name, Updated))
             else cret (name, Unchanged))"

primrec sync_loop :: "('g, string \<times> sync_action) gh list \<Rightarrow> ('g, (string \<times> sync_action) list) gh" where
  "sync_loop [] = cret []"
| "sync_loop (m # ms) = cbind m (\<lambda>x. cbind (sync_loop ms) (\<lambda>xs. cret (x # xs)))"

definition action_name :: "sync_action \<Rightarrow> string" where
  "action_name a = (case a of Created \<Rightarrow> ''created'' | Updated \<Rightarrow> ''updated'' | Unchanged \<Rightarrow> ''unchanged'')"

definition sync_value :: "(string \<times> sync_action) list \<Rightarrow> jsval" where
  "sync_value results =
     (let named = (\<lambda>a. JsArr (map (JsStr \<circ> fst) (filter (\<lambda>r. snd r = a) results)))
      in JsObj [(''created'', named Created), (''updated'', named Updated), (''unchanged'', named Unchanged),
           (''results'', JsArr (map (\<lambda>(n, a). JsObj [(''name'', JsStr n), (''action'', JsStr (action_name a))]) results))])"

definition sync_repo :: "'g gh_cli \<Rightarrow> string \<Rightarrow> string \<Rightarrow> bool \<Rightarrow> label_def list \<Rightarrow> ('g, (string \<times> sync_action) list) gh" where
  "sync_repo C owner repo dryRun labels =
     cbind (listLabels C owner repo) (\<lambda>existing.
     cbind (cresult (label_map existing)) (\<lambda>existingMap.
       sync_loop (map (sync_label C owner repo dryRun existingMap) labels)))"

text \<open>\<open>labels\<close> are the labels to have; their names are \<open>WORKFLOW_LABEL_NAMES\<close> in the program.\<close>

definition sync_labels :: "'g gh_cli \<Rightarrow> label_def list \<Rightarrow> step_definition \<Rightarrow> action_context \<Rightarrow> 'g acting" where
  "sync_labels C labels step ctx =
     (let dryRun = js_truthy (action_input step ctx ''dry_run'' (JsBool True))
      in or_failure (cbind (getRepoInfo C) (\<lambda>r.
           cbind (sync_repo C (owner_of r) (repo_of r) dryRun labels) (\<lambda>results. cret (successResult (sync_value results))))))"

end
