(* ===== verification/ActionOutcomes.thy ===== *)
theory ActionOutcomes
  imports EpicActions IssueLabels
begin

text \<open>
  What the built-in actions do to GitHub. The behaviour of the command line tool is assumed in
  \<open>issue_edit_laws\<close>, \<open>comment_laws\<close> and \<open>repo_label_laws\<close>: a command that exits with 0 did what its
  manual says, any other one may have done it in part.
\<close>

section \<open>Runs of gh\<close>

text \<open>Fetching a token leaves \<open>f\<close> of GitHub as it is.\<close>

definition token_quiet :: "'g gh_cli \<Rightarrow> ('g \<Rightarrow> 'a) \<Rightarrow> bool" where
  "token_quiet C f \<longleftrightarrow> (\<forall>p g r g'. gc_token C = Some p \<longrightarrow> p g = (r, g') \<longrightarrow> f g' = f g)"

lemma token_env_quiet:
  assumes "token_quiet C f" and "resolveTokenEnv C g = (r, g')"
  shows "f g' = f g"
  using assms
  by (auto simp: token_quiet_def resolveTokenEnv_def comp_simps split: option.splits prod.splits sum.splits)

text \<open>Either nothing was run, or the command was, and its result is passed on unless it is an authentication failure.\<close>

lemma executeGh_run:
  assumes "token_quiet C f" and "executeGh C args g = (x, g')"
  shows "\<exists>g1. f g1 = f g \<and> ((\<exists>e. x = Inl e) \<and> g' = g1
    \<or> (\<exists>env r. gc_run C args env g1 = (r, g') \<and> (\<forall>res. x = Inr res \<longrightarrow> r = Inr res)))"
proof -
  obtain t g1 where t: "resolveTokenEnv C g = (t, g1)" by fastforce
  have quiet: "f g1 = f g" by (rule token_env_quiet [OF assms(1) t])
  show ?thesis
  proof (cases t)
    case (Inl e)
    with assms(2) t have "x = Inl e \<and> g' = g1" by (simp add: executeGh_def comp_simps)
    with quiet show ?thesis by blast
  next
    case (Inr env)
    obtain r g2 where r: "gc_run C args env g1 = (r, g2)" by fastforce
    have "g' = g2 \<and> (\<forall>res. x = Inr res \<longrightarrow> r = Inr res)"
      using assms(2) t Inr r
      by (cases r) (auto simp: executeGh_def run_gh_def comp_simps split: option.splits)
    with r quiet show ?thesis by blast
  qed
qed

lemma gh_ok_run:
  assumes "token_quiet C f" and "gh_ok C what args g = (x, g')"
  shows "\<exists>g1. f g1 = f g \<and> ((\<exists>e. x = Inl e) \<and> g' = g1
    \<or> (\<exists>env r. gc_run C args env g1 = (r, g') \<and> (\<forall>res. x = Inr res \<longrightarrow> r = Inr res \<and> cr_exitCode res = 0)))"
proof -
  obtain y g2 where y: "executeGh C args g = (y, g2)" by fastforce
  then have "g' = g2 \<and> (\<forall>res. x = Inr res \<longrightarrow> y = Inr res \<and> cr_exitCode res = 0) \<and> ((\<exists>e. y = Inl e) \<longrightarrow> (\<exists>e. x = Inl e))"
    using assms(2) by (cases y) (auto simp: gh_ok_def comp_simps split: if_splits)
  with executeGh_run [OF assms(1) y] show ?thesis by blast
qed

text \<open>A command that fails has an effect or none, one that succeeds has it.\<close>

lemma gh_ok_effect:
  assumes "token_quiet C f" and "gh_ok C what args g = (x, g')"
    and effect: "\<And>env g r g'. gc_run C args env g = (r, g') \<Longrightarrow> P (f g) (f g') \<or> f g' = f g \<and> (\<forall>res. r = Inr res \<longrightarrow> cr_exitCode res \<noteq> 0)"
  shows "P (f g) (f g') \<or> f g' = f g \<and> (\<exists>e. x = Inl e)"
proof -
  from gh_ok_run [OF assms(1,2)] obtain g1 where g1: "f g1 = f g" and "(\<exists>e. x = Inl e) \<and> g' = g1
    \<or> (\<exists>env r. gc_run C args env g1 = (r, g') \<and> (\<forall>res. x = Inr res \<longrightarrow> r = Inr res \<and> cr_exitCode res = 0))" by blast
  then consider "\<exists>e. x = Inl e" "g' = g1"
    | env r where "gc_run C args env g1 = (r, g')" "\<forall>res. x = Inr res \<longrightarrow> r = Inr res \<and> cr_exitCode res = 0" by blast
  then show ?thesis
  proof cases
    case 1
    with g1 show ?thesis by simp
  next
    case 2
    from effect [OF 2(1)] 2(2) g1 show ?thesis by (cases x) auto
  qed
qed

section \<open>Closing an epic\<close>

text \<open>\<open>gh issue edit\<close> without a flag fails when nobody can be asked.\<close>

definition edit_needs_field :: "'g gh_cli \<Rightarrow> bool" where
  "edit_needs_field C \<longleftrightarrow>
     (\<forall>owner repo n env g res g'. gc_run C (edit_args owner repo n) env g = (Inr res, g') \<longrightarrow> cr_exitCode res \<noteq> 0)"

lemma update_ignores_state: "updateIssue C owner repo n (d\<lparr> iu_state := st \<rparr>) = updateIssue C owner repo n d"
  by (simp add: updateIssue_def update_args_def)

text \<open>Computations that always throw.\<close>

definition always_throws :: "('e, 's, 'a) comp \<Rightarrow> bool" where
  "always_throws m \<longleftrightarrow> (\<forall>s. \<exists>e s'. m s = (Inl e, s'))"

lemma throws_first: "always_throws m \<Longrightarrow> always_throws (cbind m f)"
  unfolding always_throws_def
proof
  fix s assume "\<forall>s. \<exists>e s'. m s = (Inl e, s')"
  then obtain e s' where "m s = (Inl e, s')" by blast
  then show "\<exists>e s'. cbind m f s = (Inl e, s')" by (simp add: comp_simps)
qed

lemma throws_after: "(\<And>x. always_throws (f x)) \<Longrightarrow> always_throws (cbind m f)"
  unfolding always_throws_def by (auto simp: comp_simps split: prod.split sum.split)

lemma failed_result: "always_throws m \<Longrightarrow> or_failure m g = (Inr r, g') \<Longrightarrow> \<not> ar_success r"
  unfolding always_throws_def by (auto simp: or_failure_def failureResult_def split: prod.splits sum.splits dest!: spec [of _ g])

lemma state_update_fails:
  assumes "edit_needs_field C"
  shows "always_throws (updateIssue C owner repo n (only_state st))"
  unfolding always_throws_def
proof
  fix g
  have args: "edit_args owner repo n @ update_args (only_state st) = edit_args owner repo n"
    by (simp add: update_args_def only_state_def)
  obtain x g' where x: "gh_ok C (''Failed to update issue #'' @ n) (edit_args owner repo n) g = (x, g')" by fastforce
  have "x \<noteq> Inr res" for res
  proof
    assume "x = Inr res"
    with gh_ok_run [OF _ x, of "\<lambda>_. ()"] obtain env g1 where "gc_run C (edit_args owner repo n) env g1 = (Inr res, g')" "cr_exitCode res = 0"
      by (auto simp: token_quiet_def)
    with assms show False unfolding edit_needs_field_def by blast
  qed
  then obtain e where "x = Inl e" by (cases x) auto
  with x show "\<exists>e g'. updateIssue C owner repo n (only_state st) g = (Inl e, g')" by (simp add: updateIssue_def args comp_simps)
qed

text \<open>
  C39. Updating an issue never looks at the state it is to be given. So closing an epic fails
  whenever it returns: no run of the action reports success, although it has announced in a comment that
  the epic is closed.
\<close>

theorem epic_never_closed:
  assumes "edit_needs_field C" and "close_epic C icon now step ctx g = (Inr r, g')"
  shows "\<not> ar_success r \<and> (\<forall>owner repo n d st. updateIssue C owner repo n (d\<lparr> iu_state := st \<rparr>) = updateIssue C owner repo n d)"
proof -
  obtain epic where "required_input step ctx ''epic_issue_number'' = Inr epic"
    and "or_failure (cbind (getRepoInfo C) (\<lambda>r.
         cbind (find_merged_pr C (owner_of r) (repo_of r) (js_text epic) (action_input step ctx ''pr_number'' JsUndefined)) (\<lambda>mergedPR.
         cbind (addIssueComment C (owner_of r) (repo_of r) (js_text epic) (generateCompletionComment icon mergedPR now)) (\<lambda>_.
         cbind (updateIssue C (owner_of r) (repo_of r) (js_text epic) (only_state ''closed'')) (\<lambda>_.
           cret (successResult (JsObj [(''closed'', JsBool True),
             (''issue_url'', JsStr (''https://github.com/'' @ owner_of r @ ''/'' @ repo_of r @ ''/issues/'' @ js_text epic))]))))))) g = (Inr r, g')"
    using assms(2) unfolding close_epic_def need_def cresult_def by (rule cbind_Inr) blast
  then have "\<not> ar_success r"
    by (elim failed_result [rotated]) (intro throws_after throws_first state_update_fails [OF assms(1)])
  then show ?thesis by (simp add: update_ignores_state)
qed

section \<open>Editing the labels of an issue\<close>

definition comma_free :: "string \<Rightarrow> bool" where
  "comma_free l \<longleftrightarrow> CHR '','' \<notin> set l"

text \<open>
  \<open>gl\<close> are the labels of the issue, \<open>gr\<close> those of its repository. The tool takes a flag with
  commas for several labels; it refuses to remove anything when the repository lacks one of the labels.
\<close>

definition issue_edit_laws :: "'g gh_cli \<Rightarrow> string \<Rightarrow> string \<Rightarrow> string \<Rightarrow> ('g \<Rightarrow> string set) \<Rightarrow> ('g \<Rightarrow> string set) \<Rightarrow> bool" where
  "issue_edit_laws C owner repo n gl gr \<longleftrightarrow>
     token_quiet C (\<lambda>g. (gl g, gr g))
     \<and> (\<forall>ls env g r g'. list_all comma_free ls \<longrightarrow> gc_run C (edit_args owner repo n @ flagged ''--add-label'' ls) env g = (r, g') \<longrightarrow>
          between (gl g) (gl g') (gl g \<union> set ls) \<and> gr g' = gr g \<and> (\<forall>res. r = Inr res \<and> cr_exitCode res = 0 \<longrightarrow> set ls \<subseteq> gl g'))
     \<and> (\<forall>ls env g r g'. list_all comma_free ls \<longrightarrow> gc_run C (edit_args owner repo n @ flagged ''--remove-label'' ls) env g = (r, g') \<longrightarrow>
          between (gl g - set ls) (gl g') (gl g) \<and> gr g' = gr g
          \<and> (\<forall>res. r = Inr res \<and> cr_exitCode res = 0 \<longrightarrow> gl g' \<inter> set ls = {})
          \<and> (\<forall>res. r = Inr res \<and> cr_exitCode res \<noteq> 0 \<and> has_text ''not found'' (cr_stderr res) \<longrightarrow> \<not> set ls \<subseteq> gr g))"

lemma edit_laws_add:
  assumes "issue_edit_laws C owner repo n gl gr" and "list_all comma_free ls"
    and "gc_run C (edit_args owner repo n @ flagged ''--add-label'' ls) env g = (r, g')"
  shows "between (gl g) (gl g') (gl g \<union> set ls) \<and> gr g' = gr g \<and> (\<forall>res. r = Inr res \<and> cr_exitCode res = 0 \<longrightarrow> set ls \<subseteq> gl g')"
proof -
  note law = conjunct1 [OF conjunct2 [OF assms(1) [unfolded issue_edit_laws_def]]]
  show ?thesis by (rule law [rule_format, OF assms(2,3)])
qed

lemma edit_laws_remove:
  assumes "issue_edit_laws C owner repo n gl gr" and "list_all comma_free ls"
    and "gc_run C (edit_args owner repo n @ flagged ''--remove-label'' ls) env g = (r, g')"
  shows "between (gl g - set ls) (gl g') (gl g) \<and> gr g' = gr g
    \<and> (\<forall>res. r = Inr res \<and> cr_exitCode res = 0 \<longrightarrow> gl g' \<inter> set ls = {})
    \<and> (\<forall>res. r = Inr res \<and> cr_exitCode res \<noteq> 0 \<and> has_text ''not found'' (cr_stderr res) \<longrightarrow> \<not> set ls \<subseteq> gr g)"
proof -
  note law = conjunct2 [OF conjunct2 [OF assms(1) [unfolded issue_edit_laws_def]]]
  show ?thesis by (rule law [rule_format, OF assms(2,3)])
qed

lemma between_refl: "A \<subseteq> X \<Longrightarrow> X \<subseteq> B \<Longrightarrow> between A X B"
  by (simp add: between_def)

lemma addLabels_run:
  assumes laws: "issue_edit_laws C owner repo n gl gr" and "list_all comma_free ls" and run: "addLabels C owner repo n ls g = (x, g')"
  shows "between (gl g) (gl g') (gl g \<union> set ls) \<and> gr g' = gr g \<and> (x = Inr () \<longrightarrow> set ls \<subseteq> gl g')"
proof (cases "ls = []")
  case True
  with run show ?thesis by (simp add: addLabels_def comp_simps between_def)
next
  case False
  obtain y g2 where y: "gh_ok C ''Failed to add labels'' (edit_args owner repo n @ flagged ''--add-label'' ls) g = (y, g2)" by fastforce
  with run False have x: "g' = g2" "x = Inr () \<Longrightarrow> \<exists>res. y = Inr res"
    by (cases y; auto simp: addLabels_def comp_simps)+
  have quiet: "token_quiet C (\<lambda>g. (gl g, gr g))" using laws by (simp add: issue_edit_laws_def)
  from gh_ok_run [OF quiet y] consider
      g1 where "gl g1 = gl g" "gr g1 = gr g" "\<exists>e. y = Inl e" "g2 = g1"
    | g1 env r where "gl g1 = gl g" "gr g1 = gr g" "gc_run C (edit_args owner repo n @ flagged ''--add-label'' ls) env g1 = (r, g2)"
        "\<forall>res. y = Inr res \<longrightarrow> r = Inr res \<and> cr_exitCode res = 0" by auto
  then show ?thesis
  proof cases
    case 1
    with x show ?thesis by (auto simp: between_def)
  next
    case 2
    note l = edit_laws_add [OF laws assms(2) 2(3)]
    have "set ls \<subseteq> gl g2" if "x = Inr ()" using x(2) [OF that] 2(4) l by metis
    with l 2(1,2) x(1) show ?thesis by auto
  qed
qed

lemma removeLabels_run:
  assumes laws: "issue_edit_laws C owner repo n gl gr" and "list_all comma_free ls" and run: "removeLabels C owner repo n ls g = (x, g')"
  shows "between (gl g - set ls) (gl g') (gl g) \<and> gr g' = gr g \<and> (x = Inr () \<and> set ls \<subseteq> gr g \<longrightarrow> gl g' \<inter> set ls = {})"
proof (cases "ls = []")
  case True
  with run show ?thesis by (simp add: removeLabels_def comp_simps between_def)
next
  case False
  obtain y g2 where y: "executeGh C (edit_args owner repo n @ flagged ''--remove-label'' ls) g = (y, g2)" by fastforce
  with run False have x: "g' = g2" "x = Inr () \<Longrightarrow> \<exists>res. y = Inr res \<and> (cr_exitCode res = 0 \<or> has_text ''not found'' (cr_stderr res))"
    by (cases y; auto simp: removeLabels_def comp_simps split: if_splits)+
  have quiet: "token_quiet C (\<lambda>g. (gl g, gr g))" using laws by (simp add: issue_edit_laws_def)
  from executeGh_run [OF quiet y] consider
      g1 where "gl g1 = gl g" "gr g1 = gr g" "\<exists>e. y = Inl e" "g2 = g1"
    | g1 env r where "gl g1 = gl g" "gr g1 = gr g" "gc_run C (edit_args owner repo n @ flagged ''--remove-label'' ls) env g1 = (r, g2)"
        "\<forall>res. y = Inr res \<longrightarrow> r = Inr res" by auto
  then show ?thesis
  proof cases
    case 1
    with x show ?thesis by (auto simp: between_def)
  next
    case 2
    note l = edit_laws_remove [OF laws assms(2) 2(3)]
    have "gl g2 \<inter> set ls = {}" if "x = Inr ()" "set ls \<subseteq> gr g"
      using x(2) [OF that(1)] 2(2,4) l that(2) by metis
    with l 2(1,2) x(1) show ?thesis by auto
  qed
qed

section \<open>The label of the current phase\<close>

definition phase_names :: "string list" where
  "phase_names = [''specify'', ''clarify'', ''plan'', ''tasks'', ''implement'', ''validate'']"

definition phase_text :: "string \<Rightarrow> string" where
  "phase_text p = ''phase:'' @ p"

definition phase_label_texts :: "string list" where
  "phase_label_texts = map phase_text phase_names"

definition other_phases :: "string \<Rightarrow> string list" where
  "other_phases p = filter (\<lambda>l. l \<noteq> phase_text p) phase_label_texts"

lemma phase_table:
  assumes "p \<in> set phase_names"
  shows "table_label PHASE_LABELS (JsStr p) = Some (JsStr (phase_text p))"
    and "label_args (filter (\<lambda>x. x \<noteq> JsStr (phase_text p)) (jvals PHASE_LABELS)) = Inr (other_phases p)"
    and "label_args [JsStr (phase_text p)] = Inr [phase_text p]"
    and "list_all comma_free (other_phases p)" and "comma_free (phase_text p)" and "phase_text p \<in> set phase_label_texts"
proof -
  have "list_all (\<lambda>p. table_label PHASE_LABELS (JsStr p) = Some (JsStr (phase_text p))
      \<and> label_args (filter (\<lambda>x. x \<noteq> JsStr (phase_text p)) (jvals PHASE_LABELS)) = Inr (other_phases p)
      \<and> list_all comma_free (other_phases p) \<and> comma_free (phase_text p) \<and> phase_text p \<in> set phase_label_texts) phase_names"
    by code_simp
  with assms show "table_label PHASE_LABELS (JsStr p) = Some (JsStr (phase_text p))"
    "label_args (filter (\<lambda>x. x \<noteq> JsStr (phase_text p)) (jvals PHASE_LABELS)) = Inr (other_phases p)"
    "list_all comma_free (other_phases p)" "comma_free (phase_text p)" "phase_text p \<in> set phase_label_texts"
    unfolding list_all_iff by blast+
  show "label_args [JsStr (phase_text p)] = Inr [phase_text p]" by (simp add: label_args_def)
qed

lemma set_other_phases: "set (other_phases p) = set phase_label_texts - {phase_text p}"
  by (auto simp: other_phases_def)

text \<open>
  Setting the current phase touches no label but those of the phases, adds the one of the phase if it
  returns, and leaves it as the only one if the removal of the others was reported and the repository
  has all of them. A repository without one of them may keep the labels of the
  other phases although they are reported as removed.
\<close>

lemma current_phase_label:
  assumes laws: "issue_edit_laws C owner repo n gl gr" and p: "p \<in> set phase_names"
    and run: "update_labels C owner repo n (JsStr p) (JsStr ''set_current'') g = (x, g')"
  shows "gl g' - set phase_label_texts = gl g - set phase_label_texts
    \<and> (\<forall>added removed. x = Inr (Some (added, removed)) \<longrightarrow>
         phase_text p \<in> gl g'
         \<and> (removed \<noteq> [] \<and> set phase_label_texts \<subseteq> gr g \<longrightarrow> gl g' \<inter> set phase_label_texts = {phase_text p}))"
proof -
  let ?l = "JsStr (phase_text p)" and ?rest = "filter (\<lambda>x. x \<noteq> JsStr (phase_text p)) (jvals PHASE_LABELS)"
  note t = phase_table [OF p]
  have upd: "update_labels C owner repo n (JsStr p) (JsStr ''set_current'') =
      cbind (try_remove C owner repo n ?rest) (\<lambda>rm. cbind (add_values C owner repo n [?l]) (\<lambda>_. cret (Some ([?l], rm))))"
    by (simp add: update_labels_def t(1))
  obtain y g1 where y: "removeLabels C owner repo n (other_phases p) g = (y, g1)" by fastforce
  note rm = removeLabels_run [OF laws t(4) y]
  have tried: "try_remove C owner repo n ?rest g = (Inr (case y of Inr _ \<Rightarrow> ?rest | Inl _ \<Rightarrow> []), g1)"
    using y by (cases y) (simp_all add: try_remove_def t(2) cresult_def comp_simps)
  obtain z g2 where z: "addLabels C owner repo n [phase_text p] g1 = (z, g2)" by fastforce
  have "list_all comma_free [phase_text p]" using t(5) by simp
  note ad = addLabels_run [OF laws this z]
  have added: "add_values C owner repo n [?l] g1 = (z, g2)"
    by (simp add: add_values_def t(3) cresult_def comp_simps z)
  have x: "g' = g2" "\<And>added removed. x = Inr (Some (added, removed)) \<Longrightarrow> z = Inr () \<and> (removed \<noteq> [] \<longrightarrow> y = Inr ())"
    using run by (auto simp: upd tried added comp_simps split: sum.splits)
  have keep: "gl g2 - set phase_label_texts = gl g - set phase_label_texts"
    using rm ad t(6) by (auto simp: between_def set_other_phases)
  have "phase_text p \<in> gl g2" if "z = Inr ()" using ad that by simp
  moreover have "gl g2 \<inter> set phase_label_texts = {phase_text p}"
    if "z = Inr ()" "y = Inr ()" "set phase_label_texts \<subseteq> gr g"
  proof -
    have "gl g1 \<inter> set (other_phases p) = {}" using rm that(2,3) by (auto simp: set_other_phases)
    with ad that(1) t(6) show ?thesis by (auto simp: between_def set_other_phases)
  qed
  ultimately show ?thesis using x keep by blast
qed

section \<open>The comment of a stage\<close>

text \<open>
  \<open>cs\<close> are the comments of the issue, by id; the ids are distinct. Reading succeeds only with all of
  them, posting appends at most one, and updating changes the body of at most the one that is named.
\<close>

definition comment_like :: "jsval \<Rightarrow> string \<times> string \<Rightarrow> bool" where
  "comment_like j c \<longleftrightarrow> (\<exists>d. read_comment j = Inr d \<and> js_text (cm_id d) = fst c \<and> cm_body d = JsStr (snd c))"

definition comment_laws :: "'g gh_cli \<Rightarrow> string \<Rightarrow> string \<Rightarrow> string \<Rightarrow> ('g \<Rightarrow> (string \<times> string) list) \<Rightarrow> bool" where
  "comment_laws C owner repo n cs \<longleftrightarrow>
     token_quiet C cs \<and> (\<forall>g. distinct (map fst (cs g)))
     \<and> (\<forall>env g r g'. gc_run C (comments_args owner repo n) env g = (r, g') \<longrightarrow>
          cs g' = cs g \<and> (\<forall>res. r = Inr res \<and> cr_exitCode res = 0 \<longrightarrow>
            (\<exists>js. parseJSONSafe (cr_stdout res) = JsArr js \<and> list_all2 comment_like js (cs g))))
     \<and> (\<forall>body env g r g'. gc_run C (comment_args owner repo n body) env g = (r, g') \<longrightarrow>
          (\<exists>i. cs g' = cs g @ [(i, body)]) \<or> cs g' = cs g \<and> (\<forall>res. r = Inr res \<longrightarrow> cr_exitCode res \<noteq> 0))
     \<and> (\<forall>i body env g r g'. gc_run C (update_comment_args owner repo i body) env g = (r, g') \<longrightarrow>
          cs g' = map (\<lambda>(j, b). (j, if j = i then body else b)) (cs g)
          \<or> cs g' = cs g \<and> (\<forall>res. r = Inr res \<longrightarrow> cr_exitCode res \<noteq> 0))"

lemma comment_laws_parts:
  assumes "comment_laws C owner repo n cs"
  shows "token_quiet C cs" and "distinct (map fst (cs g))"
    and "gc_run C (comments_args owner repo n) env g = (r, g') \<Longrightarrow>
          cs g' = cs g \<and> (\<forall>res. r = Inr res \<and> cr_exitCode res = 0 \<longrightarrow>
            (\<exists>js. parseJSONSafe (cr_stdout res) = JsArr js \<and> list_all2 comment_like js (cs g)))"
    and "gc_run C (comment_args owner repo n body) env g = (r, g') \<Longrightarrow>
          (\<exists>i. cs g' = cs g @ [(i, body)]) \<or> cs g' = cs g \<and> (\<forall>res. r = Inr res \<longrightarrow> cr_exitCode res \<noteq> 0)"
    and "gc_run C (update_comment_args owner repo i body) env g = (r, g') \<Longrightarrow>
          cs g' = map (\<lambda>(j, b). (j, if j = i then body else b)) (cs g)
          \<or> cs g' = cs g \<and> (\<forall>res. r = Inr res \<longrightarrow> cr_exitCode res \<noteq> 0)"
proof -
  note l = assms [unfolded comment_laws_def]
  show "token_quiet C cs" using l by (rule conjunct1)
  show "distinct (map fst (cs g))" by (rule spec [OF conjunct1 [OF conjunct2 [OF l]]])
  show "cs g' = cs g \<and> (\<forall>res. r = Inr res \<and> cr_exitCode res = 0 \<longrightarrow>
      (\<exists>js. parseJSONSafe (cr_stdout res) = JsArr js \<and> list_all2 comment_like js (cs g)))"
    if "gc_run C (comments_args owner repo n) env g = (r, g')"
    by (rule conjunct1 [OF conjunct2 [OF conjunct2 [OF l]], rule_format, OF that])
  show "(\<exists>i. cs g' = cs g @ [(i, body)]) \<or> cs g' = cs g \<and> (\<forall>res. r = Inr res \<longrightarrow> cr_exitCode res \<noteq> 0)"
    if "gc_run C (comment_args owner repo n body) env g = (r, g')"
    by (rule conjunct1 [OF conjunct2 [OF conjunct2 [OF conjunct2 [OF l]]], THEN spec, THEN spec, THEN spec, THEN spec, THEN spec, THEN mp, OF that])
  show "cs g' = map (\<lambda>(j, b). (j, if j = i then body else b)) (cs g)
      \<or> cs g' = cs g \<and> (\<forall>res. r = Inr res \<longrightarrow> cr_exitCode res \<noteq> 0)"
    if "gc_run C (update_comment_args owner repo i body) env g = (r, g')"
    by (rule conjunct2 [OF conjunct2 [OF conjunct2 [OF conjunct2 [OF l]]], THEN spec, THEN spec, THEN spec, THEN spec, THEN spec, THEN spec, THEN mp, OF that])
qed

lemma read_comments:
  assumes "list_all2 comment_like js ps"
  shows "\<exists>ds. map_results read_comment js = Inr ds \<and> map (\<lambda>d. (js_text (cm_id d), cm_body d)) ds = map (\<lambda>(i, b). (i, JsStr b)) ps"
  using assms
proof (induction js ps rule: list_all2_induct)
  case (Cons j js c ps)
  then show ?case by (cases c) (auto simp: comment_like_def)
qed simp

lemma getIssueComments_run:
  assumes laws: "comment_laws C owner repo n cs" and run: "getIssueComments C owner repo n g = (x, g')"
  shows "cs g' = cs g \<and> (\<forall>ds. x = Inr ds \<longrightarrow> map (\<lambda>d. (js_text (cm_id d), cm_body d)) ds = map (\<lambda>(i, b). (i, JsStr b)) (cs g))"
proof -
  obtain y g1 where y: "gh_ok C (''Failed to get comments for issue #'' @ n) (comments_args owner repo n) g = (y, g1)" by fastforce
  from gh_ok_run [OF comment_laws_parts(1) [OF laws] y] obtain g2 where g2: "cs g2 = cs g"
    "(\<exists>e. y = Inl e) \<and> g1 = g2 \<or> (\<exists>env r. gc_run C (comments_args owner repo n) env g2 = (r, g1)
        \<and> (\<forall>res. y = Inr res \<longrightarrow> r = Inr res \<and> cr_exitCode res = 0))" by blast
  have kept: "cs g1 = cs g" using g2 comment_laws_parts(3) [OF laws] by metis
  show ?thesis
  proof (cases y)
    case (Inl e)
    with run y kept show ?thesis by (auto simp: getIssueComments_def comp_simps)
  next
    case (Inr res)
    with g2 comment_laws_parts(3) [OF laws] obtain js where js: "parseJSONSafe (cr_stdout res) = JsArr js" "list_all2 comment_like js (cs g)"
      by (metis sum.distinct(1))
    from read_comments [OF js(2)] obtain ds where ds: "map_results read_comment js = Inr ds"
      "map (\<lambda>d. (js_text (cm_id d), cm_body d)) ds = map (\<lambda>(i, b). (i, JsStr b)) (cs g)" by blast
    have "getIssueComments C owner repo n g = (Inr ds, g1)"
      using y Inr js(1) ds(1) by (simp add: getIssueComments_def comp_simps js_map_def js_truthy_def cresult_def)
    with run kept ds(2) show ?thesis by auto
  qed
qed

lemma find_comment_spec:
  assumes "map (\<lambda>d. (js_text (cm_id d), cm_body d)) ds = map (\<lambda>(i, b). (i, JsStr b)) ps"
  shows "\<exists>r. find_comment m ds = Inr r
    \<and> (r = None \<longrightarrow> (\<forall>p \<in> set ps. \<not> has_text m (snd p)))
    \<and> (\<forall>d. r = Some d \<longrightarrow> (\<exists>b. (js_text (cm_id d), b) \<in> set ps \<and> has_text m b))"
  using assms
proof (induction ds arbitrary: ps)
  case (Cons d ds)
  then obtain i b ps' where ps: "ps = (i, b) # ps'" "js_text (cm_id d) = i" "cm_body d = JsStr b"
    "map (\<lambda>d. (js_text (cm_id d), cm_body d)) ds = map (\<lambda>(i, b). (i, JsStr b)) ps'" by (cases ps) auto
  from Cons.IH [OF ps(4)] show ?case using ps(1-3) by auto
qed simp

definition marked :: "string \<Rightarrow> (string \<times> string) list \<Rightarrow> (string \<times> string) list" where
  "marked m = filter (\<lambda>c. has_text m (snd c))"

definition unmarked :: "string \<Rightarrow> (string \<times> string) list \<Rightarrow> (string \<times> string) list" where
  "unmarked m = filter (\<lambda>c. \<not> has_text m (snd c))"

text \<open>Changing the one comment with the marker.\<close>

lemma marked_changed:
  assumes "distinct (map fst ps)" and "length (marked m ps) \<le> 1" and "(i, b) \<in> set ps" and "has_text m b" and "has_text m body"
  shows "marked m (map (\<lambda>(j, b). (j, if j = i then body else b)) ps) = [(i, body)]
    \<and> unmarked m (map (\<lambda>(j, b). (j, if j = i then body else b)) ps) = unmarked m ps"
proof -
  obtain xs ys where ps: "ps = xs @ (i, b) # ys" using assms(3) by (meson split_list)
  have "i \<notin> fst ` set xs" "i \<notin> fst ` set ys" using assms(1) unfolding ps by simp_all
  then have same: "map (\<lambda>(j, b). (j, if j = i then body else b)) xs = xs" "map (\<lambda>(j, b). (j, if j = i then body else b)) ys = ys"
    by (force intro!: map_idI)+
  have "marked m xs = []" "marked m ys = []" using assms(2,4) unfolding ps marked_def by auto
  with same assms(4,5) show ?thesis by (simp add: ps marked_def unmarked_def)
qed

lemma posting:
  assumes laws: "comment_laws C owner repo n cs" and run: "addIssueComment C owner repo n body g = (x, g')"
  shows "(\<exists>i. cs g' = cs g @ [(i, body)]) \<or> cs g' = cs g \<and> (\<exists>e. x = Inl e)"
proof -
  obtain z g1 where z: "gh_ok C (''Failed to add comment to issue #'' @ n) (comment_args owner repo n body) g = (z, g1)" by fastforce
  have effect: "(\<exists>i. cs g1 = cs g @ [(i, body)]) \<or> cs g1 = cs g \<and> (\<exists>e. z = Inl e)"
    by (rule gh_ok_effect [OF comment_laws_parts(1) [OF laws] z, where P = "\<lambda>a b. \<exists>i. b = a @ [(i, body)]"])
      (rule comment_laws_parts(4) [OF laws])
  show ?thesis
  proof (cases z)
    case (Inl e)
    with run z have "x = Inl e" "g' = g1" by (auto simp: addIssueComment_def comp_simps)
    with effect show ?thesis by auto
  next
    case (Inr res)
    obtain u g2 where u: "getIssueComments C owner repo n g1 = (u, g2)" by fastforce
    with run z Inr have "g' = g2" by (cases u) (auto simp: addIssueComment_def comp_simps split: if_splits)
    with getIssueComments_run [OF laws u] effect Inr show ?thesis by simp
  qed
qed

lemma patching:
  assumes laws: "comment_laws C owner repo n cs" and run: "updateComment C owner repo i body g = (x, g')"
  shows "cs g' = map (\<lambda>(j, b). (j, if j = i then body else b)) (cs g) \<or> cs g' = cs g \<and> (\<exists>e. x = Inl e)"
proof -
  obtain z g1 where z: "gh_ok C (''Failed to update comment '' @ i) (update_comment_args owner repo i body) g = (z, g1)" by fastforce
  have effect: "cs g1 = map (\<lambda>(j, b). (j, if j = i then body else b)) (cs g) \<or> cs g1 = cs g \<and> (\<exists>e. z = Inl e)"
    by (rule gh_ok_effect [OF comment_laws_parts(1) [OF laws] z, where P = "\<lambda>a b. b = map (\<lambda>(j, b). (j, if j = i then body else b)) a"])
      (rule comment_laws_parts(5) [OF laws])
  from run z have "g' = g1 \<and> ((\<exists>e. z = Inl e) \<longrightarrow> (\<exists>e. x = Inl e))" by (cases z) (auto simp: updateComment_def comp_simps)
  with effect show ?thesis by blast
qed

lemma put_comment_run:
  assumes laws: "comment_laws C owner repo n cs" and "has_text m body" and "length (marked m (cs g)) \<le> 1"
    and run: "put_comment C owner repo n m body g = (x, g')"
  shows "length (marked m (cs g')) \<le> 1 \<and> unmarked m (cs g') = unmarked m (cs g)
    \<and> (\<forall>r. x = Inr r \<longrightarrow> (\<exists>i. marked m (cs g') = [(i, body)]))"
proof -
  obtain y g1 where y: "getIssueComments C owner repo n g = (y, g1)" by fastforce
  note read = getIssueComments_run [OF laws y]
  show ?thesis
  proof (cases y)
    case (Inl e)
    with run y read assms(3) show ?thesis by (auto simp: put_comment_def comp_simps)
  next
    case (Inr ds)
    with find_comment_spec [of ds "cs g" m] read obtain r where r: "find_comment m ds = Inr r"
      "r = None \<Longrightarrow> \<forall>p \<in> set (cs g). \<not> has_text m (snd p)"
      "\<And>d. r = Some d \<Longrightarrow> \<exists>b. (js_text (cm_id d), b) \<in> set (cs g) \<and> has_text m b" by blast
    have put: "put_comment C owner repo n m body g =
        (case r of Some c \<Rightarrow> cbind (updateComment C owner repo (js_text (cm_id c)) body) (\<lambda>_. cret (cm_id c, False))
         | None \<Rightarrow> cbind (addIssueComment C owner repo n body) (\<lambda>c. cret (cm_id c, True))) g1"
      using y Inr r(1) by (simp add: put_comment_def comp_simps cresult_def)
    show ?thesis
    proof (cases r)
      case None
      then have empty: "marked m (cs g) = []" using r(2) by (auto simp: marked_def filter_empty_conv)
      obtain z g2 where z: "addIssueComment C owner repo n body g1 = (z, g2)" by fastforce
      with run put None have "g' = g2 \<and> ((\<exists>e. z = Inl e) \<longrightarrow> (\<exists>e. x = Inl e))" by (cases z) (auto simp: comp_simps)
      with posting [OF laws z] read empty assms(2) show ?thesis by (auto simp: marked_def unmarked_def)
    next
      case (Some c)
      let ?i = "js_text (cm_id c)"
      obtain b where b: "(?i, b) \<in> set (cs g)" "has_text m b" using r(3) [OF Some] by blast
      note changed = marked_changed [OF comment_laws_parts(2) [OF laws] assms(3) b assms(2)]
      obtain z g2 where z: "updateComment C owner repo ?i body g1 = (z, g2)" by fastforce
      with run put Some have g': "g' = g2 \<and> ((\<exists>e. z = Inl e) \<longrightarrow> (\<exists>e. x = Inl e))" by (cases z) (auto simp: comp_simps)
      from patching [OF laws z] show ?thesis
      proof
        assume "cs g2 = map (\<lambda>(j, b). (j, if j = ?i then body else b)) (cs g1)"
        with read have "cs g' = map (\<lambda>(j, b). (j, if j = ?i then body else b)) (cs g)" using g' by simp
        with changed show ?thesis by simp
      next
        assume "cs g2 = cs g1 \<and> (\<exists>e. z = Inl e)"
        with g' read assms(3) show ?thesis by auto
      qed
    qed
  qed
qed

lemma marker_in_comment:
  "generateStageComment i now = Inr body \<Longrightarrow> has_text (entry_text STAGE_MARKERS (st_stage i)) body"
  unfolding generateStageComment_def sbind_def has_text_iff by (auto split: sum.splits intro: exI [of _ "[]"])

text \<open>
  C25. However often the progress of a stage is reported and whichever command fails, an issue with at
  most one comment that bears the marker of the stage has at most one afterwards, all other comments
  are untouched, and a report that returns has left exactly one, with the text of this report.
\<close>

theorem one_stage_comment:
  assumes "comment_laws C owner repo n cs" and "generateStageComment i now = Inr body"
    and "length (marked (entry_text STAGE_MARKERS (st_stage i)) (cs g)) \<le> 1"
    and "put_comment C owner repo n (entry_text STAGE_MARKERS (st_stage i)) body g = (x, g')"
  shows "length (marked (entry_text STAGE_MARKERS (st_stage i)) (cs g')) \<le> 1
    \<and> unmarked (entry_text STAGE_MARKERS (st_stage i)) (cs g') = unmarked (entry_text STAGE_MARKERS (st_stage i)) (cs g)
    \<and> (\<forall>r. x = Inr r \<longrightarrow> (\<exists>j. marked (entry_text STAGE_MARKERS (st_stage i)) (cs g') = [(j, body)]))"
  by (rule put_comment_run [OF assms(1) marker_in_comment [OF assms(2)] assms(3,4)])

section \<open>Synchronising labels\<close>

text \<open>\<open>rl\<close> are the labels of a repository, at most a thousand, with their colours and descriptions.\<close>

definition label_like :: "jsval \<Rightarrow> string \<times> string \<times> string \<Rightarrow> bool" where
  "label_like j l \<longleftrightarrow> js_get j ''name'' = Inr (JsStr (fst l)) \<and> js_member j ''color'' = JsStr (fst (snd l))
     \<and> js_member j ''description'' = JsStr (snd (snd l))"

definition repo_label_laws :: "'g gh_cli \<Rightarrow> string \<Rightarrow> string \<Rightarrow> ('g \<Rightarrow> string \<rightharpoonup> string \<times> string) \<Rightarrow> bool" where
  "repo_label_laws C owner repo rl \<longleftrightarrow>
     token_quiet C rl
     \<and> (\<forall>env g r g'. gc_run C (list_args owner repo) env g = (r, g') \<longrightarrow>
          rl g' = rl g \<and> (\<forall>res. r = Inr res \<and> cr_exitCode res = 0 \<longrightarrow>
            (\<exists>js ps. parseJSONSafe (cr_stdout res) = JsArr js \<and> list_all2 label_like js ps \<and> distinct (map fst ps) \<and> map_of ps = rl g)))
     \<and> (\<forall>name color d env g r g'. gc_run C (create_args owner repo name color (Some d)) env g = (r, g') \<longrightarrow>
          rl g' = (rl g)(name \<mapsto> (replace_first ''#'' [] color, d)) \<or> rl g' = rl g \<and> (\<forall>res. r = Inr res \<longrightarrow> cr_exitCode res \<noteq> 0))
     \<and> (\<forall>name color d env g r g'. color \<noteq> [] \<longrightarrow> gc_run C (edit_label_args owner repo name (Some color) (Some d)) env g = (r, g') \<longrightarrow>
          rl g' = (rl g)(name \<mapsto> (replace_first ''#'' [] color, d)) \<or> rl g' = rl g \<and> (\<forall>res. r = Inr res \<longrightarrow> cr_exitCode res \<noteq> 0))"

lemma repo_label_laws_parts:
  assumes "repo_label_laws C owner repo rl"
  shows "token_quiet C rl"
    and "gc_run C (list_args owner repo) env g = (r, g') \<Longrightarrow>
          rl g' = rl g \<and> (\<forall>res. r = Inr res \<and> cr_exitCode res = 0 \<longrightarrow>
            (\<exists>js ps. parseJSONSafe (cr_stdout res) = JsArr js \<and> list_all2 label_like js ps \<and> distinct (map fst ps) \<and> map_of ps = rl g))"
    and "gc_run C (create_args owner repo name color (Some d)) env g = (r, g') \<Longrightarrow>
          rl g' = (rl g)(name \<mapsto> (replace_first ''#'' [] color, d)) \<or> rl g' = rl g \<and> (\<forall>res. r = Inr res \<longrightarrow> cr_exitCode res \<noteq> 0)"
    and "color \<noteq> [] \<Longrightarrow> gc_run C (edit_label_args owner repo name (Some color) (Some d)) env g = (r, g') \<Longrightarrow>
          rl g' = (rl g)(name \<mapsto> (replace_first ''#'' [] color, d)) \<or> rl g' = rl g \<and> (\<forall>res. r = Inr res \<longrightarrow> cr_exitCode res \<noteq> 0)"
proof -
  note l = assms [unfolded repo_label_laws_def]
  show "token_quiet C rl" using l by (rule conjunct1)
  show "rl g' = rl g \<and> (\<forall>res. r = Inr res \<and> cr_exitCode res = 0 \<longrightarrow>
      (\<exists>js ps. parseJSONSafe (cr_stdout res) = JsArr js \<and> list_all2 label_like js ps \<and> distinct (map fst ps) \<and> map_of ps = rl g))"
    if "gc_run C (list_args owner repo) env g = (r, g')"
    by (rule conjunct1 [OF conjunct2 [OF l], THEN spec, THEN spec, THEN spec, THEN spec, THEN mp, OF that])
  show "rl g' = (rl g)(name \<mapsto> (replace_first ''#'' [] color, d)) \<or> rl g' = rl g \<and> (\<forall>res. r = Inr res \<longrightarrow> cr_exitCode res \<noteq> 0)"
    if "gc_run C (create_args owner repo name color (Some d)) env g = (r, g')"
    by (rule conjunct1 [OF conjunct2 [OF conjunct2 [OF l]], THEN spec, THEN spec, THEN spec, THEN spec, THEN spec, THEN spec, THEN spec, THEN mp, OF that])
  show "rl g' = (rl g)(name \<mapsto> (replace_first ''#'' [] color, d)) \<or> rl g' = rl g \<and> (\<forall>res. r = Inr res \<longrightarrow> cr_exitCode res \<noteq> 0)"
    if "color \<noteq> []" "gc_run C (edit_label_args owner repo name (Some color) (Some d)) env g = (r, g')"
    by (rule conjunct2 [OF conjunct2 [OF conjunct2 [OF l]], THEN spec, THEN spec, THEN spec, THEN spec, THEN spec, THEN spec, THEN spec, THEN mp, OF that(1), THEN mp, OF that(2)])
qed

text \<open>What the action knows of the labels of the repository.\<close>

definition known_as :: "jsval option \<Rightarrow> (string \<times> string) option \<Rightarrow> bool" where
  "known_as e v \<longleftrightarrow>
     (case e of
        None \<Rightarrow> v = None
      | Some e \<Rightarrow> (\<exists>c d. v = Some (c, d) \<and> js_member e ''color'' = JsStr c \<and> js_member e ''description'' = JsStr d))"

definition mirrors :: "(jsval, jsval) jmap \<Rightarrow> (string \<rightharpoonup> string \<times> string) \<Rightarrow> bool" where
  "mirrors m L \<longleftrightarrow> (\<forall>n. known_as (jget m (JsStr n)) (L n))"

lemma fold_jset_get:
  "distinct (map fst qs) \<Longrightarrow> jget (fold (\<lambda>(k, v). jset k v) qs acc) k = (case map_of qs k of Some v \<Rightarrow> Some v | None \<Rightarrow> jget acc k)"
proof (induction qs arbitrary: acc)
  case (Cons q qs)
  obtain k' v where q: "q = (k', v)" by fastforce
  have "map_of qs k' = None" using Cons.prems q by (simp add: map_of_eq_None_iff)
  then show ?case using Cons q by (auto split: option.split)
qed simp

lemma named_labels:
  assumes "list_all2 label_like js ps"
  shows "\<exists>qs. map_results (\<lambda>l. sbind (js_get l ''name'') (\<lambda>n. Inr (n, l))) js = Inr qs
    \<and> map fst qs = map (JsStr \<circ> fst) ps
    \<and> (\<forall>n. known_as (map_of qs (JsStr n)) (map_of ps n))"
  using assms
proof (induction js ps rule: list_all2_induct)
  case (Cons j js p ps)
  then obtain qs where "map_results (\<lambda>l. sbind (js_get l ''name'') (\<lambda>n. Inr (n, l))) js = Inr qs" "map fst qs = map (JsStr \<circ> fst) ps"
    "\<forall>n. known_as (map_of qs (JsStr n)) (map_of ps n)" by blast
  moreover obtain n c d where "p = (n, c, d)" by (metis prod_cases3)
  ultimately show ?case using Cons.hyps(1) by (auto simp: label_like_def sbind_def known_as_def [of "Some j"])
qed (simp add: known_as_def)

lemma label_map_mirrors:
  assumes "list_all2 label_like js ps" and "distinct (map fst ps)"
  shows "\<exists>m. label_map (JsArr js) = Inr m \<and> mirrors m (map_of ps)"
proof -
  from named_labels [OF assms(1)] obtain qs where
    qs: "map_results (\<lambda>l. sbind (js_get l ''name'') (\<lambda>n. Inr (n, l))) js = Inr qs" "map fst qs = map (JsStr \<circ> fst) ps"
      "\<forall>n. known_as (map_of qs (JsStr n)) (map_of ps n)" by blast
  have "distinct (map fst qs)" using assms(2) unfolding qs(2) by (simp add: distinct_map inj_on_def)
  then have "jget (fold (\<lambda>(k, v). jset k v) qs []) k = map_of qs k" for k
    by (simp add: fold_jset_get split: option.split)
  with qs(3) have "mirrors (fold (\<lambda>(k, v). jset k v) qs []) (map_of ps)" by (simp add: mirrors_def)
  with qs(1) show ?thesis by (auto simp: label_map_def js_map_def sbind_def)
qed

lemma replace_first_absent: "\<not> has_text p s \<Longrightarrow> replace_first p r s = s"
  by (induction s) auto

text \<open>A label that can be given as it is.\<close>

definition plain_label :: "label_def \<Rightarrow> bool" where
  "plain_label l \<longleftrightarrow> lbl_color l \<noteq> [] \<and> \<not> has_text ''#'' (lbl_color l)"

lemma sync_label_run:
  assumes laws: "repo_label_laws C owner repo rl" and m: "mirrors m L" and l: "plain_label l" "rl g (lbl_name l) = L (lbl_name l)"
    and run: "sync_label C owner repo False m l g = (Inr (n, a), g')"
  shows "n = lbl_name l \<and> rl g' = (rl g)(lbl_name l \<mapsto> (lbl_color l, lbl_description l))
    \<and> (L (lbl_name l) = Some (lbl_color l, lbl_description l) \<longrightarrow> a = Unchanged \<and> rl g' = rl g)"
proof -
  have color: "replace_first ''#'' [] (lbl_color l) = lbl_color l" using l(1) by (simp add: plain_label_def replace_first_absent)
  have created: "rl g2 = (rl g1)(lbl_name l \<mapsto> (lbl_color l, lbl_description l))"
    if "createLabel C owner repo (lbl_name l) (lbl_color l) (Some (lbl_description l)) g1 = (Inr (), g2)" for g1 g2
  proof -
    obtain z g3 where z: "gh_ok C (''Failed to create label '' @ lbl_name l)
        (create_args owner repo (lbl_name l) (lbl_color l) (Some (lbl_description l))) g1 = (z, g3)" by fastforce
    have "rl g3 = (rl g1)(lbl_name l \<mapsto> (lbl_color l, lbl_description l)) \<or> rl g3 = rl g1 \<and> (\<exists>e. z = Inl e)"
      by (rule gh_ok_effect [OF repo_label_laws_parts(1) [OF laws] z, where P = "\<lambda>a b. b = a(lbl_name l \<mapsto> (lbl_color l, lbl_description l))"])
        (rule repo_label_laws_parts(3) [OF laws, where color = "lbl_color l", unfolded color])
    with z that show ?thesis by (cases z) (auto simp: createLabel_def comp_simps)
  qed
  have updated: "rl g2 = (rl g1)(lbl_name l \<mapsto> (lbl_color l, lbl_description l))"
    if "updateLabel C owner repo (lbl_name l) (Some (lbl_color l)) (Some (lbl_description l)) g1 = (Inr (), g2)" for g1 g2
  proof -
    obtain z g3 where z: "gh_ok C (''Failed to update label '' @ lbl_name l)
        (edit_label_args owner repo (lbl_name l) (Some (lbl_color l)) (Some (lbl_description l))) g1 = (z, g3)" by fastforce
    have "rl g3 = (rl g1)(lbl_name l \<mapsto> (lbl_color l, lbl_description l)) \<or> rl g3 = rl g1 \<and> (\<exists>e. z = Inl e)"
      by (rule gh_ok_effect [OF repo_label_laws_parts(1) [OF laws] z, where P = "\<lambda>a b. b = a(lbl_name l \<mapsto> (lbl_color l, lbl_description l))"])
        (rule repo_label_laws_parts(4) [OF laws, where color = "lbl_color l", unfolded color, OF l(1) [unfolded plain_label_def, THEN conjunct1]])
    with z that show ?thesis by (cases z) (auto simp: updateLabel_def comp_simps)
  qed
  show ?thesis
  proof (cases "jget m (JsStr (lbl_name l))")
    case None
    then have absent: "L (lbl_name l) = None" using spec [OF m [unfolded mirrors_def], of "lbl_name l"] by (simp add: known_as_def)
    from None have "sync_label C owner repo False m l =
        cbind (createLabel C owner repo (lbl_name l) (lbl_color l) (Some (lbl_description l))) (\<lambda>_. cret (lbl_name l, Created))"
      by (simp add: sync_label_def Let_def)
    with run obtain g1 where "createLabel C owner repo (lbl_name l) (lbl_color l) (Some (lbl_description l)) g = (Inr (), g1)"
      "(n, a) = (lbl_name l, Created)" "g' = g1"
      by (auto simp: comp_simps split: sum.splits prod.splits)
    with created absent show ?thesis by simp
  next
    case (Some e)
    then obtain c d where cd: "L (lbl_name l) = Some (c, d)" "js_member e ''color'' = JsStr c" "js_member e ''description'' = JsStr d"
      using spec [OF m [unfolded mirrors_def], of "lbl_name l"] by (auto simp: known_as_def)
    show ?thesis
    proof (cases "c = lbl_color l \<and> d = lbl_description l")
      case True
      with Some cd run l(2) show ?thesis by (auto simp: sync_label_def comp_simps Let_def)
    next
      case False
      with Some cd have "sync_label C owner repo False m l =
          cbind (updateLabel C owner repo (lbl_name l) (Some (lbl_color l)) (Some (lbl_description l))) (\<lambda>_. cret (lbl_name l, Updated))"
        by (auto simp: sync_label_def Let_def)
      with run obtain g1 where "updateLabel C owner repo (lbl_name l) (Some (lbl_color l)) (Some (lbl_description l)) g = (Inr (), g1)"
        "n = lbl_name l" "g' = g1"
        by (auto simp: comp_simps split: sum.splits prod.splits)
      with updated False cd(1) show ?thesis by auto
    qed
  qed
qed

lemma sync_loop_run:
  assumes laws: "repo_label_laws C owner repo rl" and m: "mirrors m L" and "list_all plain_label labels" and "distinct (map lbl_name labels)"
    and "\<forall>l \<in> set labels. rl g (lbl_name l) = L (lbl_name l)"
    and "sync_loop (map (sync_label C owner repo False m) labels) g = (Inr rs, g')"
  shows "map fst rs = map lbl_name labels
    \<and> (\<forall>l \<in> set labels. rl g' (lbl_name l) = Some (lbl_color l, lbl_description l))
    \<and> (\<forall>n. n \<notin> lbl_name ` set labels \<longrightarrow> rl g' n = rl g n)
    \<and> ((\<forall>l \<in> set labels. L (lbl_name l) = Some (lbl_color l, lbl_description l)) \<longrightarrow> rl g' = rl g \<and> (\<forall>r \<in> set rs. snd r = Unchanged))"
  using assms(3-)
proof (induction labels arbitrary: g rs)
  case Nil
  then show ?case by (simp add: comp_simps)
next
  case (Cons l labels)
  from Cons.prems(4) obtain n a g1 rs' where step: "sync_label C owner repo False m l g = (Inr (n, a), g1)"
    and rest: "sync_loop (map (sync_label C owner repo False m) labels) g1 = (Inr rs', g')" and rs: "rs = (n, a) # rs'"
    by (auto simp: comp_simps split: sum.splits prod.splits)
  have "plain_label l" "rl g (lbl_name l) = L (lbl_name l)" using Cons.prems(1,3) by simp_all
  note one = sync_label_run [OF laws m this step]
  have "\<forall>l' \<in> set labels. rl g1 (lbl_name l') = L (lbl_name l')"
  proof
    fix l' assume l': "l' \<in> set labels"
    have "lbl_name l \<notin> lbl_name ` set labels" using Cons.prems(2) by simp
    with l' have "lbl_name l' \<noteq> lbl_name l" by (metis imageI)
    with one Cons.prems(3) l' show "rl g1 (lbl_name l') = L (lbl_name l')" by simp
  qed
  with Cons.prems(1,2) rest have ih: "map fst rs' = map lbl_name labels
    \<and> (\<forall>l \<in> set labels. rl g' (lbl_name l) = Some (lbl_color l, lbl_description l))
    \<and> (\<forall>n. n \<notin> lbl_name ` set labels \<longrightarrow> rl g' n = rl g1 n)
    \<and> ((\<forall>l \<in> set labels. L (lbl_name l) = Some (lbl_color l, lbl_description l)) \<longrightarrow> rl g' = rl g1 \<and> (\<forall>r \<in> set rs'. snd r = Unchanged))"
    by (intro Cons.IH) simp_all
  have "lbl_name l \<notin> lbl_name ` set labels" using Cons.prems(2) by simp
  with ih one have new: "rl g' (lbl_name l) = Some (lbl_color l, lbl_description l)" by simp
  have same: "rl g' = rl g \<and> (\<forall>r \<in> set rs. snd r = Unchanged)"
    if "\<forall>l' \<in> set (l # labels). L (lbl_name l') = Some (lbl_color l', lbl_description l')"
  proof -
    from that one have "a = Unchanged" "rl g1 = rl g" by (metis list.set_intros(1))+
    moreover have "rl g' = rl g1 \<and> (\<forall>r \<in> set rs'. snd r = Unchanged)" using that ih by (metis list.set_intros(2))
    ultimately show ?thesis using rs by simp
  qed
  have "map fst rs = map lbl_name (l # labels)" using ih one rs by simp
  moreover have "\<forall>l' \<in> set (l # labels). rl g' (lbl_name l') = Some (lbl_color l', lbl_description l')" using ih new by simp
  moreover have "\<forall>n. n \<notin> lbl_name ` set (l # labels) \<longrightarrow> rl g' n = rl g n" using ih one by simp
  ultimately show ?case using same by blast
qed

lemma sync_repo_run:
  assumes laws: "repo_label_laws C owner repo rl" and "list_all plain_label labels" and "distinct (map lbl_name labels)"
    and run: "sync_repo C owner repo False labels g = (Inr rs, g')"
  shows "map fst rs = map lbl_name labels
    \<and> (\<forall>l \<in> set labels. rl g' (lbl_name l) = Some (lbl_color l, lbl_description l))
    \<and> (\<forall>n. n \<notin> lbl_name ` set labels \<longrightarrow> rl g' n = rl g n)
    \<and> ((\<forall>l \<in> set labels. rl g (lbl_name l) = Some (lbl_color l, lbl_description l)) \<longrightarrow> rl g' = rl g \<and> (\<forall>r \<in> set rs. snd r = Unchanged))"
proof -
  obtain z g1 where z: "gh_ok C ''Failed to get labels'' (list_args owner repo) g = (z, g1)" by fastforce
  from gh_ok_run [OF repo_label_laws_parts(1) [OF laws] z] obtain g2 where g2: "rl g2 = rl g"
    "(\<exists>e. z = Inl e) \<and> g1 = g2 \<or> (\<exists>env r. gc_run C (list_args owner repo) env g2 = (r, g1)
      \<and> (\<forall>res. z = Inr res \<longrightarrow> r = Inr res \<and> cr_exitCode res = 0))" by blast
  from run z obtain res where res: "z = Inr res"
    by (cases z) (auto simp: sync_repo_def listLabels_def getRepoLabels_def comp_simps)
  with g2(2) obtain env where "gc_run C (list_args owner repo) env g2 = (Inr res, g1)" "cr_exitCode res = 0" by auto
  from repo_label_laws_parts(2) [OF laws this(1)] this(2) g2(1) obtain js ps where
    js: "rl g1 = rl g" "parseJSONSafe (cr_stdout res) = JsArr js" "list_all2 label_like js ps" "distinct (map fst ps)" "map_of ps = rl g" by auto
  from label_map_mirrors [OF js(3,4)] js(5) obtain m where m: "label_map (JsArr js) = Inr m" "mirrors m (rl g)" by auto
  have "sync_repo C owner repo False labels g = sync_loop (map (sync_label C owner repo False m) labels) g1"
    using z res js(2) m(1)
    by (simp add: sync_repo_def listLabels_def getRepoLabels_def comp_simps js_default_def nullish_def cresult_def)
  with run have "sync_loop (map (sync_label C owner repo False m) labels) g1 = (Inr rs, g')" by simp
  from sync_loop_run [OF laws m(2) assms(2,3) _ this] js(1) show ?thesis by simp
qed


section \<open>A tool in memory\<close>

text \<open>It prints a value only after having read it back.\<close>

record memory_tool =
  mt_labels :: "string list"
  mt_bodies :: "string list"
  mt_repo :: "(string \<times> string \<times> string) list"

definition done_with :: "string \<Rightarrow> command_result" where
  "done_with out = \<lparr> cr_exitCode = 0, cr_stdout = out, cr_stderr = [] \<rparr>"

definition refused :: command_result where
  "refused = \<lparr> cr_exitCode = 1, cr_stdout = [], cr_stderr = ''field to edit flag required'' \<rparr>"

definition printed :: "jsval \<Rightarrow> command_result" where
  "printed v = (let t = the (JSON_stringify v) in if JSON_parse t = Some v then done_with t else refused)"

fun apply_flags :: "string list \<Rightarrow> string list \<Rightarrow> string list" where
  "apply_flags (f # l # args) ls =
     apply_flags args (if f = ''--add-label'' then sadd l ls else if f = ''--remove-label'' then filter (\<lambda>x. x \<noteq> l) ls else ls)"
| "apply_flags _ ls = ls"

definition memory_comments :: "memory_tool \<Rightarrow> (string \<times> string) list" where
  "memory_comments g = map (\<lambda>k. (show_nat k, mt_bodies g ! k)) [0..<length (mt_bodies g)]"

definition comment_json :: "nat \<Rightarrow> string \<Rightarrow> jsval" where
  "comment_json k b = JsObj [(''id'', js_int (int k)), (''body'', JsStr b), (''user'', JsObj [(''login'', JsStr ''bot'')])]"

definition label_json :: "string \<times> string \<times> string \<Rightarrow> jsval" where
  "label_json l = JsObj [(''name'', JsStr (fst l)), (''color'', JsStr (fst (snd l))), (''description'', JsStr (snd (snd l)))]"

definition repo_json :: jsval where
  "repo_json = JsObj [(''owner'', JsObj [(''login'', JsStr ''o'')]), (''name'', JsStr ''r''),
     (''defaultBranchRef'', JsObj [(''name'', JsStr ''main'')])]"

definition memory_run :: "string list \<Rightarrow> string option \<Rightarrow> (string, memory_tool, command_result) comp" where
  "memory_run args env g =
     (let c = take 2 args
      in if c = [''repo'', ''view''] then (Inr (printed repo_json), g)
         else if c = [''issue'', ''edit''] then
           (if drop 5 args = [] then (Inr refused, g) else (Inr (done_with []), g\<lparr> mt_labels := apply_flags (drop 5 args) (mt_labels g) \<rparr>))
         else if c = [''issue'', ''comment''] then (Inr (done_with []), g\<lparr> mt_bodies := mt_bodies g @ [last args] \<rparr>)
         else if c = [''api'', ''-X''] then
           (Inr (done_with []), g\<lparr> mt_bodies := map (\<lambda>k. if args ! 3 = ''/repos/o/r/issues/comments/'' @ show_nat k then drop 5 (last args)
              else mt_bodies g ! k) [0..<length (mt_bodies g)] \<rparr>)
         else if c = [''api'', ''/repos/o/r/issues/7/comments''] then
           (Inr (printed (JsArr (map (\<lambda>k. comment_json k (mt_bodies g ! k)) [0..<length (mt_bodies g)]))), g)
         else if c = [''label'', ''list''] then (Inr (printed (JsArr (map label_json (AList.clearjunk (mt_repo g))))), g)
         else if c = [''label'', ''create''] \<or> c = [''label'', ''edit''] then
           (Inr (done_with []), g\<lparr> mt_repo := (args ! 2, args ! 6, if length args = 9 then args ! 8 else []) # mt_repo g \<rparr>)
         else (Inr (done_with []), g))"

definition memory_cli :: "memory_tool gh_cli" where
  "memory_cli = \<lparr> gc_run = memory_run, gc_git = (\<lambda>args g. (Inr (done_with []), g)), gc_token = None \<rparr>"

lemma memory_token_quiet [simp]: "token_quiet memory_cli f"
  by (simp add: token_quiet_def memory_cli_def)

lemma memory_edit_needs_field: "edit_needs_field memory_cli"
  by (auto simp: edit_needs_field_def memory_cli_def memory_run_def edit_args_def Let_def refused_def)

lemma apply_add: "set (apply_flags (flagged ''--add-label'' ls) xs) = set xs \<union> set ls"
  by (induction ls arbitrary: xs) (auto simp: flagged_def)

lemma apply_remove: "set (apply_flags (flagged ''--remove-label'' ls) xs) = set xs - set ls"
  by (induction ls arbitrary: xs) (auto simp: flagged_def)

lemma memory_edit_run:
  "gc_run memory_cli (edit_args owner repo n @ fs) env g = (r, g') \<Longrightarrow>
     mt_labels g' = apply_flags fs (mt_labels g) \<and> (r = Inr refused \<or> r = Inr (done_with []))"
  by (auto simp: memory_cli_def memory_run_def edit_args_def Let_def split: if_splits)

lemma refused_text: "\<not> has_text ''not found'' (cr_stderr refused)" "cr_exitCode (done_with t) = 0"
  by code_simp (simp add: done_with_def)

lemma memory_edit_laws: "issue_edit_laws memory_cli owner repo n (\<lambda>g. set (mt_labels g)) (\<lambda>g. UNIV)"
  unfolding issue_edit_laws_def between_def
  by (auto dest!: memory_edit_run simp: apply_add apply_remove refused_text)

lemma printed_read: "cr_exitCode (printed v) = 0 \<Longrightarrow> parseJSONSafe (cr_stdout (printed v)) = v"
  by (auto simp: printed_def Let_def refused_def done_with_def parseJSONSafe_def split: if_splits)

lemma comment_json_like: "comment_like (comment_json k b) (show_nat k, b)"
  by (simp add: comment_like_def comment_json_def read_comment_def js_get_def js_member_def nullish_def sbind_def
      js_int_def show_number_int [of "int k", simplified] show_int_def)

lemma label_json_like: "label_like (label_json l) l"
  by (simp add: label_like_def label_json_def js_get_def js_member_def nullish_def)

lemma memory_comment_laws: "comment_laws memory_cli ''o'' ''r'' ''7'' memory_comments"
  unfolding comment_laws_def
proof (intro conjI allI impI)
  fix g show "distinct (map fst (memory_comments g))"
    by (auto simp: memory_comments_def comp_def distinct_map inj_on_def inj_show_nat)
next
  fix env g r g' assume run: "gc_run memory_cli (comments_args ''o'' ''r'' ''7'') env g = (r, g')"
  let ?js = "map (\<lambda>k. comment_json k (mt_bodies g ! k)) [0..<length (mt_bodies g)]"
  have r: "r = Inr (printed (JsArr ?js))" "g' = g"
    using run by (auto simp: memory_cli_def memory_run_def comments_args_def Let_def)
  show "memory_comments g' = memory_comments g" using r by simp
  fix res assume "r = Inr res \<and> cr_exitCode res = 0"
  with r have "parseJSONSafe (cr_stdout res) = JsArr ?js" using printed_read by auto
  moreover have "list_all2 comment_like ?js (memory_comments g)"
    by (simp add: memory_comments_def list_all2_conv_all_nth comment_json_like)
  ultimately show "\<exists>js. parseJSONSafe (cr_stdout res) = JsArr js \<and> list_all2 comment_like js (memory_comments g)" by blast
next
  fix body env g r g' assume "gc_run memory_cli (comment_args ''o'' ''r'' ''7'' body) env g = (r, g')"
  then have "mt_bodies g' = mt_bodies g @ [body]"
    by (auto simp: memory_cli_def memory_run_def comment_args_def Let_def)
  then have "memory_comments g' = memory_comments g @ [(show_nat (length (mt_bodies g)), body)]"
    by (auto simp: memory_comments_def nth_append)
  then show "(\<exists>i. memory_comments g' = memory_comments g @ [(i, body)])
      \<or> memory_comments g' = memory_comments g \<and> (\<forall>res. r = Inr res \<longrightarrow> cr_exitCode res \<noteq> 0)" by blast
next
  fix i body env g r g' assume "gc_run memory_cli (update_comment_args ''o'' ''r'' i body) env g = (r, g')"
  then have "mt_bodies g' = map (\<lambda>k. if i = show_nat k then body else mt_bodies g ! k) [0..<length (mt_bodies g)]"
    by (auto simp: memory_cli_def memory_run_def update_comment_args_def Let_def)
  then have "memory_comments g' = map (\<lambda>(j, b). (j, if j = i then body else b)) (memory_comments g)"
    by (auto simp: memory_comments_def)
  then show "memory_comments g' = map (\<lambda>(j, b). (j, if j = i then body else b)) (memory_comments g)
      \<or> memory_comments g' = memory_comments g \<and> (\<forall>res. r = Inr res \<longrightarrow> cr_exitCode res \<noteq> 0)" by blast
qed simp

lemma memory_repo_label_laws: "repo_label_laws memory_cli ''o'' ''r'' (\<lambda>g. map_of (mt_repo g))"
  unfolding repo_label_laws_def
proof (intro conjI allI impI)
  fix env g r g' assume run: "gc_run memory_cli (list_args ''o'' ''r'') env g = (r, g')"
  let ?ps = "AList.clearjunk (mt_repo g)"
  have r: "r = Inr (printed (JsArr (map label_json ?ps)))" "g' = g"
    using run by (auto simp: memory_cli_def memory_run_def list_args_def Let_def)
  show "map_of (mt_repo g') = map_of (mt_repo g)" using r by simp
  fix res assume "r = Inr res \<and> cr_exitCode res = 0"
  with r have "parseJSONSafe (cr_stdout res) = JsArr (map label_json ?ps)" using printed_read by auto
  moreover have "list_all2 label_like (map label_json ?ps) ?ps"
    by (simp add: list_all2_conv_all_nth label_json_like)
  ultimately show "\<exists>js ps. parseJSONSafe (cr_stdout res) = JsArr js \<and> list_all2 label_like js ps \<and> distinct (map fst ps) \<and> map_of ps = map_of (mt_repo g)"
    by (metis distinct_clearjunk map_of_clearjunk)
next
  fix name color d env g r g' assume "gc_run memory_cli (create_args ''o'' ''r'' name color (Some d)) env g = (r, g')"
  then have "mt_repo g' = (name, replace_first ''#'' [] color, d) # mt_repo g"
    by (auto simp: memory_cli_def memory_run_def create_args_def Let_def truthy_def split: if_splits)
  then show "map_of (mt_repo g') = (map_of (mt_repo g))(name \<mapsto> (replace_first ''#'' [] color, d))
      \<or> map_of (mt_repo g') = map_of (mt_repo g) \<and> (\<forall>res. r = Inr res \<longrightarrow> cr_exitCode res \<noteq> 0)" by simp
next
  fix name color :: string and d env g r g' assume "color \<noteq> []" "gc_run memory_cli (edit_label_args ''o'' ''r'' name (Some color) (Some d)) env g = (r, g')"
  then have "mt_repo g' = (name, replace_first ''#'' [] color, d) # mt_repo g"
    by (auto simp: memory_cli_def memory_run_def edit_label_args_def Let_def truthy_def split: if_splits)
  then show "map_of (mt_repo g') = (map_of (mt_repo g))(name \<mapsto> (replace_first ''#'' [] color, d))
      \<or> map_of (mt_repo g') = map_of (mt_repo g) \<and> (\<forall>res. r = Inr res \<longrightarrow> cr_exitCode res \<noteq> 0)" by simp
qed simp

section \<open>Examples\<close>

definition action_step :: "(string, jsval) jmap \<Rightarrow> step_definition" where
  "action_step inputs = \<lparr> sd_name = ''s'', sd_action = ''epic.close'', sd_uses = None, sd_with = Some inputs, sd_command = None,
     sd_script = None, sd_timeout = None, sd_continueOnError = False, sd_condition = None, sd_env = None, sd_retry = None, sd_gate = None \<rparr>"

definition plain_context :: "step_definition \<Rightarrow> action_context" where
  "plain_context step = \<lparr> ac_workflow = \<lparr> ew_name = ''w'', ew_description = None, ew_phases = [], ew_env = None, ew_timeout = None \<rparr>,
     ac_phase = \<lparr> pd_name = ''p'', pd_steps = [step], pd_condition = None \<rparr>, ac_step = step, ac_inputs = [], ac_stepOutputs = [],
     ac_env = [], ac_workdir = None, ac_abortAt = None \<rparr>"

definition close_step :: step_definition where
  "close_step = action_step [(''epic_issue_number'', js_int 7), (''pr_number'', js_int 9)]"

definition memory_start :: memory_tool where
  "memory_start = \<lparr> mt_labels = [''phase:specify'', ''bug''], mt_bodies = [''hello''], mt_repo = [(''bug'', ''D73A4A'', ''x'')] \<rparr>"

lemma closing_announced:
  "case close_epic memory_cli [] 0 close_step (plain_context close_step) memory_start of
     (Inr r, g') \<Rightarrow> length (mt_bodies g') = 2 | _ \<Rightarrow> False"
  by code_simp

theorem epic_never_closed_witness:
  "case close_epic memory_cli [] 0 close_step (plain_context close_step) memory_start of
     (Inr r, g') \<Rightarrow> \<not> ar_success r \<and> length (mt_bodies g') = 2 | _ \<Rightarrow> False"
proof -
  obtain x g' where run: "close_epic memory_cli [] 0 close_step (plain_context close_step) memory_start = (x, g')" by fastforce
  with closing_announced obtain r where "x = Inr r" "length (mt_bodies g') = 2" by (cases x) auto
  with epic_never_closed [OF memory_edit_needs_field, of "[]" 0 close_step "plain_context close_step" memory_start r g'] run
  show ?thesis by simp
qed

definition planning_inputs :: stage_inputs where
  "planning_inputs = \<lparr> st_stage = JsStr ''planning'', st_status = JsStr ''in_progress'',
     st_progress = JsArr [JsObj [(''command'', JsStr ''plan''), (''status'', JsStr ''complete'')]], st_branch = JsUndefined, st_prNumber = JsUndefined,
     st_nextStep = JsStr ''tasks'', st_blockedReason = JsUndefined \<rparr>"

definition planning_body :: string where
  "planning_body = (case generateStageComment planning_inputs 0 of Inr b \<Rightarrow> b | Inl _ \<Rightarrow> [])"

lemma planning_comment: "generateStageComment planning_inputs 0 = Inr planning_body"
proof -
  have "case generateStageComment planning_inputs 0 of Inr b \<Rightarrow> True | Inl _ \<Rightarrow> False" by code_simp
  then show ?thesis by (auto simp: planning_body_def split: sum.splits)
qed

lemma planning_posted:
  "(case put_comment memory_cli ''o'' ''r'' ''7'' (entry_text STAGE_MARKERS (st_stage planning_inputs)) planning_body memory_start of
     (Inr r, g') \<Rightarrow> snd r | _ \<Rightarrow> False)
   \<and> length (marked (entry_text STAGE_MARKERS (st_stage planning_inputs)) (memory_comments memory_start)) \<le> 1"
  by code_simp

theorem one_stage_comment_witness:
  "case put_comment memory_cli ''o'' ''r'' ''7'' (entry_text STAGE_MARKERS (st_stage planning_inputs)) planning_body memory_start of
     (r, g') \<Rightarrow> map snd (marked (entry_text STAGE_MARKERS (st_stage planning_inputs)) (memory_comments g')) = [planning_body]"
proof -
  obtain x g' where run: "put_comment memory_cli ''o'' ''r'' ''7'' (entry_text STAGE_MARKERS (st_stage planning_inputs)) planning_body memory_start
      = (x, g')" by fastforce
  with planning_posted obtain r where "x = Inr r" by (cases x) auto
  with one_stage_comment [OF memory_comment_laws planning_comment conjunct2 [OF planning_posted] run] run show ?thesis by auto
qed

definition two_labels :: "label_def list" where
  "two_labels = [\<lparr> lbl_name = ''bug'', lbl_color = ''FF0000'', lbl_description = ''x'' \<rparr>,
     \<lparr> lbl_name = ''phase:plan'', lbl_color = ''0052CC'', lbl_description = ''Planning phase'' \<rparr>]"

lemma labels_synced:
  "(case sync_repo memory_cli ''o'' ''r'' False two_labels memory_start of (Inr rs, g') \<Rightarrow> map snd rs = [Updated, Created] | _ \<Rightarrow> False)
   \<and> list_all plain_label two_labels \<and> distinct (map lbl_name two_labels)"
  by code_simp


end
