(* ===== verification/EpicMonitor.thy ===== *)
theory EpicMonitor
  imports ActionOutcomes LabelMonitor
begin

text \<open>
  The monitor of epics (\<open>services/epic-completion-monitor-service.ts\<close> of
  \<open>packages/orchestrator/src\<close>): it looks at the epics that wait for their children, reports their
  progress in a comment and moves a finished epic on by its labels, for the label monitor to
  resume it.
\<close>

section \<open>The progress of an epic\<close>

definition EPIC_WAITING :: string where
  "EPIC_WAITING = ''waiting-for:children-complete''"

definition EPIC_COMPLETED :: string where
  "EPIC_COMPLETED = ''completed:children-complete''"

definition STATUS_MARKER :: string where
  "STATUS_MARKER = ''<!-- epic-status -->''"

text \<open>The characters of a full and of an empty cell of the bar, and the dash for no pull request.\<close>

record status_glyphs =
  sg_full :: string
  sg_empty :: string
  sg_dash :: string

definition child_status :: "epic_child \<Rightarrow> gh_failure + string" where
  "child_status c =
     (if child_done c then Inr '':white_check_mark: Merged''
      else sbind (some_label ''waiting-for:'' (ec_labels c)) (\<lambda>blocked.
        Inr (if blocked then '':hourglass: Blocked''
             else if JsStr ''agent:in-progress'' \<in> set (ec_labels c) then '':hourglass: In progress''
             else if ec_state c = ''closed'' then '':white_check_mark: Closed''
             else '':clock1: Pending'')))"

definition status_row :: "status_glyphs \<Rightarrow> epic_child \<Rightarrow> gh_failure + string" where
  "status_row G c =
     sbind (child_status c) (\<lambda>status.
       let prLink = (if js_truthy (ec_pr_number c) then ''#'' @ js_text (ec_pr_number c) else sg_dash G)
       in Inr ([CHR 10] @ ''| #'' @ js_text (ec_number c) @ '' '' @ js_text (ec_title c) @ '' | '' @ status @ '' | '' @ prLink @ '' |''))"

definition progress_bar :: "status_glyphs \<Rightarrow> int \<Rightarrow> string" where
  "progress_bar G percentage =
     (let filled = js_round (of_int percentage / 10)
      in concat (replicate (nat filled) (sg_full G)) @ concat (replicate (nat (10 - filled)) (sg_empty G)))"

definition generateStatusComment ::
    "status_glyphs \<Rightarrow> int \<Rightarrow> int \<Rightarrow> nat \<Rightarrow> nat \<Rightarrow> epic_child list \<Rightarrow> gh_failure + string" where
  "generateStatusComment G now percentage all completed children =
     sbind (map_results (status_row G) children) (\<lambda>rows.
     Inr (STATUS_MARKER @ [CHR 10] @ ''## Epic Progress'' @ [CHR 10, CHR 10]
       @ ''| Child | Status | PR |'' @ [CHR 10] @ ''|-------|--------|----|'' @ concat rows
       @ [CHR 10, CHR 10] @ ''**Progress**: '' @ progress_bar G percentage @ '' '' @ show_int percentage @ ''% ('' @ show_nat completed
       @ ''/'' @ show_nat all @ '' complete)'' @ [CHR 10] @ ''**Last checked**: '' @ toISOString now))"

definition updateStatusComment ::
    "'g gh_cli \<Rightarrow> status_glyphs \<Rightarrow> int \<Rightarrow> string \<Rightarrow> string \<Rightarrow> string \<Rightarrow> int \<Rightarrow> nat \<Rightarrow> nat \<Rightarrow> epic_child list \<Rightarrow> ('g, unit) gh" where
  "updateStatusComment C G now owner repo epicNumber percentage all completed children =
     cbind (cresult (generateStatusComment G now percentage all completed children)) (\<lambda>body.
     cbind (put_comment C owner repo epicNumber STATUS_MARKER body) (\<lambda>_. cret ()))"

section \<open>Checking epics\<close>

definition transition_epic :: "'g gh_cli \<Rightarrow> string \<Rightarrow> string \<Rightarrow> string \<Rightarrow> ('g, unit) gh" where
  "transition_epic C owner repo epicNumber =
     cbind (removeLabels C owner repo epicNumber [EPIC_WAITING]) (\<lambda>_. addLabels C owner repo epicNumber [EPIC_COMPLETED])"

definition checkEpic :: "'g gh_cli \<Rightarrow> status_glyphs \<Rightarrow> int \<Rightarrow> string \<Rightarrow> string \<Rightarrow> string \<Rightarrow> ('g, unit) gh" where
  "checkEpic C G now owner repo epicNumber =
     cbind (findChildIssues C owner repo epicNumber All_issues True) (\<lambda>children.
       if children = [] then cret ()
       else
         let all = length children; completed = length (filter child_done children);
             percentage = js_round (of_nat completed / of_nat all * 100)
         in cbind (updateStatusComment C G now owner repo epicNumber percentage all completed children) (\<lambda>_.
            if completed = all then transition_epic C owner repo epicNumber else cret ()))"

text \<open>The times at which epics are checked are given by their places; a failure ends the check of one epic only.\<close>

primrec check_epics :: "'g gh_cli \<Rightarrow> status_glyphs \<Rightarrow> (nat \<Rightarrow> int) \<Rightarrow> string \<Rightarrow> string \<Rightarrow> nat \<Rightarrow> issue_data list \<Rightarrow> ('g, unit) gh" where
  "check_epics C G now owner repo k [] = cret ()"
| "check_epics C G now owner repo k (e # es) =
     cbind (ctry (checkEpic C G (now k) owner repo (js_text (isd_number e))) (\<lambda>_. cret ()))
       (\<lambda>_. check_epics C G now owner repo (Suc k) es)"

definition pollEpicRepo :: "'g gh_cli \<Rightarrow> status_glyphs \<Rightarrow> (nat \<Rightarrow> int) \<Rightarrow> string \<Rightarrow> string \<Rightarrow> ('g, unit) gh" where
  "pollEpicRepo C G now owner repo =
     cbind (listIssuesWithLabel C owner repo EPIC_WAITING) (\<lambda>epics. check_epics C G now owner repo 0 epics)"

primrec poll_epics :: "'g gh_cli \<Rightarrow> status_glyphs \<Rightarrow> (nat \<Rightarrow> nat \<Rightarrow> int) \<Rightarrow> nat \<Rightarrow> (string \<times> string) list \<Rightarrow> ('g, unit) gh" where
  "poll_epics C G now k [] = cret ()"
| "poll_epics C G now k (r # rs) =
     cbind (ctry (pollEpicRepo C G (now k) (fst r) (snd r)) (\<lambda>_. cret ())) (\<lambda>_. poll_epics C G now (Suc k) rs)"

section \<open>The loops of a monitor\<close>

text \<open>Controllers are numbered; a loop polls as long as its controller is not aborted.\<close>

record poll_loops =
  el_abortController :: "nat option"
  el_started :: nat
  el_aborted :: "nat set"

definition new_poll_loops :: poll_loops where
  "new_poll_loops = \<lparr> el_abortController = None, el_started = 0, el_aborted = {} \<rparr>"

definition startEpicPolling :: "poll_loops \<Rightarrow> poll_loops" where
  "startEpicPolling s =
     (if el_abortController s \<noteq> None then s
      else s\<lparr> el_abortController := Some (el_started s), el_started := Suc (el_started s) \<rparr>)"

definition stopEpicPolling :: "poll_loops \<Rightarrow> poll_loops" where
  "stopEpicPolling s =
     (case el_abortController s of
        None \<Rightarrow> s
      | Some k \<Rightarrow> s\<lparr> el_abortController := None, el_aborted := insert k (el_aborted s) \<rparr>)"

inductive loops_step :: "poll_loops \<Rightarrow> poll_loops \<Rightarrow> bool" where
  "loops_step s (startEpicPolling s)"
| "loops_step s (stopEpicPolling s)"

inductive_cases loops_stepE: "loops_step s s'"

text \<open>However often polling is started and stopped, only the loop of the present controller goes on.\<close>

lemma one_epic_loop:
  assumes "loops_step\<^sup>*\<^sup>* new_poll_loops s"
  shows "{..<el_started s} - el_aborted s = set_option (el_abortController s) \<and> el_aborted s \<subseteq> {..<el_started s}"
  using assms
proof (induction rule: rtranclp_induct)
  case base
  show ?case by (simp add: new_poll_loops_def)
next
  case (step y z)
  from step(2) show ?case
  proof (rule loops_stepE)
    assume z: "z = startEpicPolling y"
    show ?thesis
      using step.IH by (cases "el_abortController y") (auto simp: z startEpicPolling_def lessThan_Suc)
  next
    assume z: "z = stopEpicPolling y"
    show ?thesis
      using step.IH by (cases "el_abortController y") (auto simp: z stopEpicPolling_def)
  qed
qed

section \<open>What checking an epic leaves alone\<close>

definition keeps :: "('e, 's, 'a) comp \<Rightarrow> ('s \<Rightarrow> 'b) \<Rightarrow> bool" where
  "keeps m f \<longleftrightarrow> (\<forall>s x s'. m s = (x, s') \<longrightarrow> f s' = f s)"

lemma keepsD: "keeps m f \<Longrightarrow> m s = (x, s') \<Longrightarrow> f s' = f s"
  by (simp add: keeps_def)

lemma keeps_ret [simp]: "keeps (cret x) f" "keeps (cthrow e) f" "keeps (cresult r) f"
  by (simp_all add: keeps_def comp_simps cresult_def)

lemma keeps_bind:
  assumes "keeps m f" and "\<And>x. keeps (k x) f"
  shows "keeps (cbind m k) f"
  unfolding keeps_def
proof (intro allI impI)
  fix s y s' assume run: "cbind m k s = (y, s')"
  obtain r s1 where r: "m s = (r, s1)" by fastforce
  with run keepsD [OF assms(1) r] show "f s' = f s"
    by (cases r) (auto simp: comp_simps dest: keepsD [OF assms(2)])
qed

text \<open>Searching for issues and pull requests and working on comments edits no labels.\<close>

definition labels_apart :: "'g gh_cli \<Rightarrow> string \<Rightarrow> string \<Rightarrow> string \<Rightarrow> ('g \<Rightarrow> 'b) \<Rightarrow> bool" where
  "labels_apart C owner repo n f \<longleftrightarrow>
     token_quiet C f
     \<and> (\<forall>args env g r g'. gc_run C args env g = (r, g')
          \<and> (args = children_args owner repo n All_issues \<or> (\<exists>k. args = merged_pr_args owner repo k) \<or> args = comments_args owner repo n
             \<or> (\<exists>b. args = comment_args owner repo n b) \<or> (\<exists>i b. args = update_comment_args owner repo i b))
        \<longrightarrow> f g' = f g)"

lemma run_gh_keeps: "(\<And>env g r g'. gc_run C args env g = (r, g') \<Longrightarrow> f g' = f g) \<Longrightarrow> keeps (run_gh C args env) f"
  by (auto simp: keeps_def run_gh_def split: prod.splits)

lemma gh_ok_keeps:
  assumes "token_quiet C f" and "\<And>env g r g'. gc_run C args env g = (r, g') \<Longrightarrow> f g' = f g"
  shows "keeps (gh_ok C what args) f"
  unfolding keeps_def
proof (intro allI impI)
  fix g x g' assume "gh_ok C what args g = (x, g')"
  from gh_ok_run [OF assms(1) this] show "f g' = f g" using assms(2) by metis
qed

lemma labels_apart_run:
  assumes "labels_apart C owner repo n f"
  shows "token_quiet C f"
    and "gc_run C (children_args owner repo n All_issues) env g = (r, g') \<Longrightarrow> f g' = f g"
    and "gc_run C (merged_pr_args owner repo k) env g = (r, g') \<Longrightarrow> f g' = f g"
    and "gc_run C (comments_args owner repo n) env g = (r, g') \<Longrightarrow> f g' = f g"
    and "gc_run C (comment_args owner repo n b) env g = (r, g') \<Longrightarrow> f g' = f g"
    and "gc_run C (update_comment_args owner repo i b) env g = (r, g') \<Longrightarrow> f g' = f g"
  using assms unfolding labels_apart_def by blast+

lemma find_children_keeps:
  assumes "labels_apart C owner repo n f"
  shows "keeps (findChildIssues C owner repo n All_issues True) f"
proof -
  note run = labels_apart_run [OF assms]
  have pr: "keeps (checkPrMerged C owner repo k) f" for k
    unfolding checkPrMerged_def by (intro keeps_bind run_gh_keeps) (erule run(3), simp)
  have children: "keeps (read_children C owner repo True is) f" for "is"
    by (induction "is") (auto intro!: keeps_bind pr)
  show ?thesis
    unfolding findChildIssues_def
    by (intro keeps_bind run_gh_keeps) (erule run(2), auto intro: children split: option.split jsval.split)
qed

lemma comment_keeps:
  assumes "labels_apart C owner repo n f"
  shows "keeps (put_comment C owner repo n m body) f"
proof -
  note run = labels_apart_run [OF assms]
  have get: "keeps (getIssueComments C owner repo n) f"
    unfolding getIssueComments_def by (intro keeps_bind gh_ok_keeps run(1)) (erule run(4), simp add: Let_def)
  have add: "keeps (addIssueComment C owner repo n body) f"
    unfolding addIssueComment_def by (intro keeps_bind gh_ok_keeps run(1) get) (erule run(5), simp)
  have upd: "keeps (updateComment C owner repo i body) f" for i
    unfolding updateComment_def by (intro keeps_bind gh_ok_keeps run(1)) (erule run(6), simp)
  show ?thesis
    unfolding put_comment_def by (intro keeps_bind get) (auto intro!: keeps_bind add upd split: option.split)
qed

lemma status_comment_keeps:
  assumes "labels_apart C owner repo n f"
  shows "keeps (updateStatusComment C G now owner repo n p t d cs) f"
  unfolding updateStatusComment_def by (intro keeps_bind comment_keeps [OF assms] keeps_ret)

section \<open>A finished epic\<close>

lemma epic_labels:
  "EPIC_WAITING \<noteq> EPIC_COMPLETED" "list_all comma_free [EPIC_WAITING]" "list_all comma_free [EPIC_COMPLETED]"
  "EPIC_COMPLETED = ''completed:'' @ ''children-complete''" "EPIC_WAITING = ''waiting-for:'' @ ''children-complete''"
  by code_simp+

lemma transition_outcome:
  assumes laws: "issue_edit_laws C owner repo n gl gr" and here: "gl g \<subseteq> gr g"
    and run: "transition_epic C owner repo n g = (x, g')"
  shows "(x = Inr () \<longrightarrow> gl g' = insert EPIC_COMPLETED (gl g - {EPIC_WAITING}))
    \<and> (EPIC_COMPLETED \<notin> gl g \<longrightarrow> \<not> {EPIC_WAITING, EPIC_COMPLETED} \<subseteq> gl g')"
proof -
  obtain y g1 where y: "removeLabels C owner repo n [EPIC_WAITING] g = (y, g1)" by fastforce
  note rm = removeLabels_run [OF laws epic_labels(2) y]
  have gone: "gl g1 = gl g - {EPIC_WAITING}" if "y = Inr ()"
    using rm that here by (auto simp: between_def)
  show ?thesis
  proof (cases y)
    case (Inl e)
    with run y have "x = Inl e" "g' = g1" by (simp_all add: transition_epic_def comp_simps)
    with rm show ?thesis by (auto simp: between_def)
  next
    case (Inr u)
    obtain z g2 where z: "addLabels C owner repo n [EPIC_COMPLETED] g1 = (z, g2)" by fastforce
    with run y Inr have x: "x = z" "g' = g2" by (simp_all add: transition_epic_def comp_simps)
    note ad = addLabels_run [OF laws epic_labels(3) z]
    show ?thesis using ad gone Inr epic_labels(1) by (auto simp: x between_def)
  qed
qed

lemma checkEpic_cases:
  assumes apart: "labels_apart C owner repo n (\<lambda>g. (gl g, gr g))"
    and found: "findChildIssues C owner repo n All_issues True g = (Inr children, g1)"
    and run: "checkEpic C G now owner repo n g = (x, g')"
  shows "gl g' = gl g \<and> (x = Inr () \<longrightarrow> children = [] \<or> \<not> list_all child_done children)
    \<or> children \<noteq> [] \<and> list_all child_done children
       \<and> (\<exists>g2. gl g2 = gl g \<and> gr g2 = gr g \<and> transition_epic C owner repo n g2 = (x, g'))"
proof (cases "children = []")
  case True
  with run found keepsD [OF find_children_keeps [OF apart] found] show ?thesis
    by (simp add: checkEpic_def comp_simps)
next
  case False
  let ?done = "length (filter child_done children)"
  let ?pc = "js_round (of_nat ?done / of_nat (length children) * 100)"
  obtain y g2 where y: "updateStatusComment C G now owner repo n ?pc (length children) ?done children g1 = (y, g2)" by fastforce
  have all: "?done = length children \<longleftrightarrow> list_all child_done children"
    using length_filter_less [of _ children child_done] by (fastforce simp: list_all_iff)
  have kept: "gl g2 = gl g" "gr g2 = gr g"
    using keepsD [OF find_children_keeps [OF apart] found] keepsD [OF status_comment_keeps [OF apart] y] by auto
  have "checkEpic C G now owner repo n g =
      (case y of Inl e \<Rightarrow> (Inl e, g2) | Inr u \<Rightarrow> if ?done = length children then transition_epic C owner repo n g2 else (Inr (), g2))"
    using found y False by (cases y) (simp_all add: checkEpic_def Let_def comp_simps)
  with run kept False all show ?thesis by (cases y) (auto split: if_splits)
qed


section \<open>An epic in memory\<close>

text \<open>Issue 7 has one child, which is closed and merged.\<close>

definition child_json :: jsval where
  "child_json = JsObj [(''number'', js_int 8), (''title'', JsStr ''child''), (''state'', JsStr ''CLOSED''), (''labels'', JsArr [])]"

definition epic_run :: "string list \<Rightarrow> string option \<Rightarrow> (string, memory_tool, command_result) comp" where
  "epic_run args env g =
     (if take 2 args = [''issue'', ''list''] then (Inr (printed (JsArr [child_json])), g)
      else if take 2 args = [''pr'', ''list''] then (Inr (printed (JsArr [JsObj [(''number'', js_int 9)]])), g)
      else memory_run args env g)"

definition epic_cli :: "memory_tool gh_cli" where
  "epic_cli = memory_cli\<lparr> gc_run := epic_run \<rparr>"

definition waiting_epic :: memory_tool where
  "waiting_epic = \<lparr> mt_labels = [EPIC_WAITING, ''bug''], mt_bodies = [], mt_repo = [] \<rparr>"

definition plain_glyphs :: status_glyphs where
  "plain_glyphs = \<lparr> sg_full = ''#'', sg_empty = ''.'', sg_dash = ''-'' \<rparr>"

lemma epic_cli_token: "token_quiet epic_cli f"
  by (simp add: token_quiet_def epic_cli_def memory_cli_def)

lemma epic_edit_laws: "issue_edit_laws epic_cli owner repo n (\<lambda>g. set (mt_labels g)) (\<lambda>g. UNIV)"
proof -
  have same: "gc_run epic_cli (edit_args owner repo n @ fs) = gc_run memory_cli (edit_args owner repo n @ fs)" for fs
    by (rule ext)+ (simp add: epic_cli_def epic_run_def memory_cli_def edit_args_def)
  note memory = memory_edit_laws [of owner repo n, unfolded issue_edit_laws_def]
  show ?thesis unfolding issue_edit_laws_def same by (rule conjI [OF epic_cli_token conjunct2 [OF memory]])
qed

lemma epic_labels_apart: "labels_apart epic_cli owner repo n (\<lambda>g. (set (mt_labels g), UNIV))"
proof -
  have run: "mt_labels g' = mt_labels g"
    if "gc_run epic_cli args env g = (r, g')" "take 2 args \<noteq> [''issue'', ''edit'']" for args env g r g'
    using that by (auto simp: epic_cli_def epic_run_def memory_run_def Let_def split: if_splits)
  have args: "take 2 (children_args owner repo n All_issues) \<noteq> [''issue'', ''edit'']"
    "take 2 (merged_pr_args owner repo k) \<noteq> [''issue'', ''edit'']" "take 2 (comments_args owner repo n) \<noteq> [''issue'', ''edit'']"
    "take 2 (comment_args owner repo n b) \<noteq> [''issue'', ''edit'']" "take 2 (update_comment_args owner repo i b) \<noteq> [''issue'', ''edit'']"
    for k b i
    by (simp_all add: children_args_def merged_pr_args_def comments_args_def comment_args_def update_comment_args_def)
  show ?thesis
    unfolding labels_apart_def by (intro conjI allI impI epic_cli_token) (elim conjE disjE exE; simp add: run args)
qed

lemma epic_checked:
  "(case findChildIssues epic_cli ''o'' ''r'' ''7'' All_issues True waiting_epic of (Inr cs, g) \<Rightarrow> cs \<noteq> [] \<and> list_all child_done cs | _ \<Rightarrow> False)
   \<and> (case checkEpic epic_cli plain_glyphs 0 ''o'' ''r'' ''7'' waiting_epic of (Inr (), g) \<Rightarrow> True | _ \<Rightarrow> False)"
  by code_simp


end
