(* ===== verification/Spec2Isabelle.thy ===== *)
theory Spec2Isabelle
  imports JobProcessor RedisBackend Router MessageQueue DeadLetter Channels RetryPolicy Agents
    WorkerDispatcher QueueSweeps WorkflowOutcomes WorkflowInheritance CommentTrust ReviewGates LabelMonitor EpicMonitor
begin

text \<open>
  A verification development for four parts of the repository: the message router and
  the job scheduler (the directories \<open>types\<close>, \<open>utils\<close>, \<open>router\<close>, \<open>connections\<close>, \<open>channels\<close>,
  \<open>persistence\<close>, \<open>scheduler\<close>, parts of \<open>worker\<close> and \<open>agents\<close> under \<open>src/src\<close>), the work
  queue, leases, dispatcher, labels and label monitor of the orchestrator
  (\<open>src/packages/orchestrator/src\<close>), and the workflow engine (\<open>src/packages/workflow-engine/src\<close>).

  The program. Agencies (AI agents) and humancy instances (people's editors) connect to a
  router. The router keeps a registry of connections, decides by a message's type where
  it goes, sends or broadcasts it, queues it in Redis for recipients that are offline,
  matches responses to waiting requests, and hands plugin-defined messages to channels.
  Beside it a scheduler keeps jobs in priority queues behind a backend interface, and a
  processor polls the scheduler and executes jobs with a handler. The orchestrator works on
  issues of GitHub: a monitor turns labels of issues into items of a queue with scores and claims;
  in each worker container a dispatcher claims an item, asks the cloud for a lease, runs the
  handler and gives the item back or completes it, while sweeps recover items of workers that
  died; a worker resolves the phase to start at from the labels, writes its progress to the
  labels, and stops at gates that a human completes by a label. The workflow engine loads
  workflows with inheritance, interpolates their steps and executes them with retries.

  Theories, in dependency order, and the files they model:
  \<^item> \<open>Prelude\<close>: ordered maps and sets of JavaScript as association lists and distinct
    lists, computations that may throw and keep the state reached, decimal numerals.
  \<^item> \<open>JsValues\<close>, \<open>Dates\<close>: values of type \<open>unknown\<close>, texts, \<open>JSON.stringify\<close>, \<open>JSON.parse\<close>, and
    the printing of times.
  \<^item> \<open>Emitter\<close>: the listener tables of all event emitters (\<open>on\<close>, \<open>off\<close>, \<open>emit\<close>), and
    the locale \<open>emitter\<close> that the scheduler, the router, the connection registry, the
    correlation manager, the channel classes, both queues and the executor interpret.

  Router and scheduler (paths under \<open>src/src\<close>):
  \<^item> \<open>Messages\<close>: \<open>types/messages.ts\<close>, \<open>types/channels.ts\<close> (names, errors),
    \<open>utils/ttl.ts\<close>, and one datatype of all thrown errors. Printing and parsing of
    durations is a round trip up to rounding.
  \<^item> \<open>Retry\<close>: \<open>types/config.ts\<close>, \<open>utils/retry.ts\<close>. The loop terminates and its outcome is
    characterised for every function; delays are bounded.
  \<^item> \<open>Jobs\<close>: \<open>scheduler/types.ts\<close> and \<open>scheduler/backends/backend.interface.ts\<close>; the
    interface is a record of computations and the locale \<open>backend_contract\<close>.
  \<^item> \<open>MemoryBackend\<close>: \<open>scheduler/backends/memory-backend.ts\<close>; the interpretation \<open>mb\<close> of
    the contract, the placement invariant over all reachable states, dequeue order,
    release of timed-out jobs.
  \<^item> \<open>JobScheduler\<close>: \<open>scheduler/job-scheduler.ts\<close>, \<open>scheduler/events.ts\<close>; the lemmas are proved
    from the contract and used through \<open>mb\<close>.
  \<^item> \<open>RedisBackend\<close>: \<open>scheduler/backends/redis-backend.ts\<close>; jobs as hashes and queues as sorted
    sets of a server that obeys \<open>zredis_laws\<close>. It satisfies the contract too, so the lemmas
    about the scheduler hold on Redis.
  \<^item> \<open>JobProcessor\<close>: \<open>scheduler/job-processor.ts\<close>; execution of a job, and polling as a step
    relation whose steps are the turns of the event loop.
  \<^item> \<open>RetryPolicy\<close>: \<open>worker/retry/retry-policy.ts\<close>; the locale \<open>retry_policy\<close> with one
    interpretation for each of the three policies.
  \<^item> \<open>NamedRegistry\<close>: the locales \<open>named_registry\<close> and \<open>strict_registry\<close>, interpreted for both
    sides of the connection registry, for channels and for agents.
  \<^item> \<open>Agents\<close>: \<open>agents/agent-registry.ts\<close>.
  \<^item> \<open>Connections\<close>: \<open>types/connections.ts\<close>, \<open>connections/agency-connection.ts\<close>,
    \<open>connections/humancy-connection.ts\<close>, \<open>connections/connection-registry.ts\<close>. Connection
    objects live in a heap, because their handlers outlive their registration.
  \<^item> \<open>Correlation\<close>: \<open>router/correlation-manager.ts\<close> as a machine with a clock, armed timers
    and promises; promises settle exactly once and deadlines are kept.
  \<^item> \<open>Routing\<close>: \<open>router/routing-rules.ts\<close>.
  \<^item> \<open>Router\<close>: \<open>router/message-router.ts\<close>; its state extends the registry's.
  \<^item> \<open>Channels\<close>: \<open>channels/channel-registry.ts\<close>, \<open>channels/channel-handler.ts\<close>.
  \<^item> \<open>RedisStore\<close>, \<open>MessageQueue\<close>, \<open>DeadLetter\<close>: \<open>persistence/redis-store.ts\<close>,
    \<open>persistence/message-queue.ts\<close>, \<open>persistence/dead-letter-queue.ts\<close>.

  Orchestrator (paths under \<open>src/packages/orchestrator/src\<close>):
  \<^item> \<open>QueueItems\<close>: the queue types of \<open>types/monitor.ts\<close>, \<open>services/queue-priority.ts\<close> and
    \<open>services/drop-log-helper.ts\<close>. Scores order items by tiers; drop
    warnings are logged exactly when an item crosses the age threshold.
  \<^item> \<open>WorkQueue\<close>: the interface \<open>QueueManager\<close> as a record of computations, the place of each
    item key as the abstract state, the step relation \<open>place_step\<close> on places, and the
    locales \<open>work_queue\<close> and \<open>observed_queue\<close>, which extends it by what a monitor looks at; from the
    laws every run of an implementation is a run of places.
  \<^item> \<open>InMemoryQueue\<close>: \<open>services/in-memory-queue-adapter.ts\<close>; the interpretations \<open>imq\<close> and \<open>imo\<close> of
    the contract. Insertion by binary search equals stable insertion.
  \<^item> \<open>QueueRedis\<close>, \<open>RedisQueue\<close>, \<open>RedisQueueContract\<close>, \<open>QueueSweeps\<close>:
    \<open>services/redis-queue-adapter.ts\<close>: the Redis commands and what is assumed of them
    (\<open>queue_redis_laws\<close>), the Lua scripts and methods, the refinement of the contract, and the
    sweeps, which read the keys page by page from a cursor.
  \<^item> \<open>LeaseManager\<close>: \<open>services/lease-manager.ts\<close>, \<open>types/lease.ts\<close>. Requests settle once, and a
    lease expires exactly after the configured number of consecutive failed heartbeats.
  \<^item> \<open>WorkerDispatcher\<close>: \<open>services/worker-dispatcher.ts\<close> with heartbeats in memory. The turns of
    polls and workers interleave in the step relation \<open>wd_step\<close>; the cap of one worker, the
    outcome of a worker on any queue that keeps the contract, and what denied and expired
    leases do.
  \<^item> \<open>PhaseResolver\<close>: \<open>worker/phase-resolver.ts\<close>, \<open>worker/gate-checker.ts\<close>, the phases of
    \<open>worker/types.ts\<close>.
  \<^item> \<open>LabelManager\<close>, \<open>IssueLabels\<close>: \<open>worker/label-manager.ts\<close> and its errors. What GitHub does is
    assumed in \<open>gh_laws\<close>: any call may fail half done, and a removal may be refused when the
    repository lacks one of the labels. The calls refine an abstract purpose, complete no human
    gate, and let a worker go on where it stopped.
  \<^item> \<open>PhaseTracker\<close>: \<open>services/phase-tracker-service.ts\<close> (\<open>tracker_laws\<close>).
  \<^item> \<open>AdaptivePoll\<close>: \<open>services/adaptive-poll-controller.ts\<close> and the poll interval of a monitor.
  \<^item> \<open>LabelMonitor\<close>: \<open>services/label-monitor-service.ts\<close>; with the label manager and any queue it
    gives that a completed gate is resumed exactly once.

  Workflow engine (paths under \<open>src/packages/workflow-engine/src\<close>):
  \<^item> \<open>Interpolation\<close>: \<open>interpolation/index.ts\<close>, \<open>interpolation/context.ts\<close>.
  \<^item> \<open>WorkflowTypes\<close>, \<open>StepRetry\<close>: the types of definitions and results, durations,
    \<open>retry/strategies.ts\<close>, \<open>retry/index.ts\<close>; time passes on an explicit clock.
  \<^item> \<open>ActionRegistry\<close>: \<open>types/action.ts\<close>, \<open>actions/index.ts\<close>, \<open>actions/base-action.ts\<close>.
  \<^item> \<open>Executor\<close>, \<open>ExecutorRuns\<close>, \<open>WorkflowOutcomes\<close>: \<open>executor/index.ts\<close>, \<open>executor/events.ts\<close>; the
    methods, the lemmas about runs, and what an execution returns.
  \<^item> \<open>WorkflowLoader\<close>, \<open>WorkflowInheritance\<close>: the files of \<open>loader\<close>; what \<open>zod\<close> is assumed to do is
    \<open>schema_law\<close>.
  \<^item> \<open>CommentTrust\<close>: \<open>security/comment-trust.ts\<close> and the two files beside it.
  \<^item> \<open>ReviewGates\<close>: \<open>types/gate.ts\<close>, \<open>executor/gate-handler.ts\<close>.
  \<^item> \<open>WorkflowLabels\<close>: the names in \<open>actions/github/label-definitions.ts\<close>.

  This theory holds the properties that span the router and the persistent message queue as its
  queue; the ones that span the label manager, the monitor and the queue are in \<open>LabelMonitor\<close>.

  Modelling decisions. A method is a function of the state that returns a value or an
  error together with the state reached; \<open>await\<close> is sequencing, so a method runs to its
  end before the next one starts, except where a theory makes interleaving explicit (the
  polling of \<open>JobProcessor\<close>, the timers of \<open>Correlation\<close> and \<open>LeaseManager\<close>, the steps of
  \<open>MemoryBackend\<close>, the turns of \<open>WorkerDispatcher\<close>, the steps of \<open>AdaptivePoll\<close>).
  \<open>Date.now()\<close> is a parameter, one reading for each operation, or the next value of a sequence;
  random numbers and identifiers are parameters. Numbers of the program that count or measure
  milliseconds are integers, computed delays are rationals; the rounding of doubles is not
  modelled. Listeners are observers: they are named by numbers, their calls are recorded in order,
  and they do not call back. An execution of a workflow has at most one call of \<open>cancel\<close>, at a
  given time; a timer that is due at the very time a handler returns is served first. Loops are
  structural or have a termination proof; only the parser of JSON uses fuel, one more than the
  length of the text, which suffices because each level of nesting and each element takes at least as
  many characters as units of fuel.

  Parameters and hypotheses. The transport of a connection, the Redis client, plugin
  handlers, job and action handlers, the file system, the YAML parser, GitHub and delivery
  functions are not part of the modelled sources; they
  are arguments of the definitions. What is assumed of them is stated by name:
  \<open>delivery_laws\<close> (a transport takes a message or fails without effect, a queue takes what it
  is given), \<open>redis_laws\<close>, \<open>zredis_laws\<close>, \<open>queue_redis_laws\<close> and \<open>tracker_laws\<close> (documented
  behaviour of the commands used), \<open>keeps_queues\<close> (a
  delivery function does not edit the queues), \<open>gets_out\<close> (whether a heartbeat is sent),
  \<open>handlers_ok\<close> (handlers take time forwards), \<open>schema_law\<close>, \<open>gh_laws\<close>. A
  property of the dispatcher or the monitor on any queue has the contract of the queue as a
  hypothesis, which the queue adapters satisfy. Each has a concrete instance in the witnesses.
  A text that \<open>JSON.stringify\<close> produced is represented by the value it was made from, except
  where a program parses texts that others wrote.

  Findings. Several theorems and lemmas state behaviour that the code probably does not intend:
  a late acknowledgement or a late refresh reruns a completed job, the processor can exceed its
  concurrency limit, a stale connection takes its successor offline, a re-registered connection
  routes twice, a broadcast can be lost in silence, a failed \<open>routeAndWait\<close> leaves its wait behind,
  expired messages block a queue or are reported as queued, resolved dead letters are not counted,
  a dead-lettered issue keeps its attempts in memory, denied leases use up the attempts of an
  item that never ran, an expired lease leaves its handler running beside the next one, a resumed
  workflow forgets what it restored, a cancelled one is reported as failed, new phases behind one
  anchor end up reversed, duplicates of a trigger are never recognised, the fast poll interval can
  be the slower one, and some gates have no label that polling would look for.

  Not modelled. The pause of a sleep and of \<open>drain\<close>, logging, the HTTP and process I/O of
  \<open>worker\<close> and \<open>agents\<close>, the decision-support services (\<open>learning\<close>, \<open>recommendation\<close>,
  \<open>attribution\<close>, \<open>baseline\<close>), which score texts in floating point; the heartbeats the dispatcher
  keeps in Redis; the phase loop and the agent processes of a worker, which are a sequence of
  processes, git and GitHub calls whose results decide what comes next; the monitors of pull
  requests and merges; the built-in actions, which run processes; the store of workflow states in
  files; the command line, the editor extension, the cockpit, the relay, the control plane and
  the credential helpers, which are services of their own around this core.
\<close>

section \<open>The router with the persistent queue\<close>

text \<open>
  The router's message queue is the queue of \<open>MessageQueue\<close>: its state is the outside
  world of the router.
\<close>

lemma route_to_offline:
  assumes "jget (side t s) i = Some e" and "rc_status e = Offline" and "en_messageQueue E = Some q"
  shows "route_to E t i m s =
    cbind (on_world (q t i m)) (\<lambda>_. cmod (mr_emit (Message_queued m (address t i)))) s"
proof -
  have "(case t of Agency \<Rightarrow> getAgency s i | Humancy \<Rightarrow> getHumancy s i) = Some e"
    using assms(1) by (cases t) (simp_all add: side_def getAgency_def getHumancy_def)
  with assms show ?thesis by (simp add: route_to_def sendTo_def comp_simps)
qed

text \<open>
  A message for a recipient that is registered but offline is kept: routing it does not
  throw, and if the message is not expired the recipient's stream in Redis grows by
  exactly one entry that holds the message with its attempt count raised by one.
\<close>

lemma offline_message_stored:
  assumes laws: "redis_laws R strm val"
    and e: "jget (side t s) i = Some e" "rc_status e = Offline"
    and q: "en_messageQueue E = Some (mq_enqueue R now)"
    and m: "\<not> isMessageExpired now m" "has_ttl m \<longrightarrow> 0 < the (ttl (meta m))"
  shows "\<exists>s' j. route_to E t i m s = (Inr (), s') \<and>
     strm (rs_world (rg_world s')) = (strm (rs_world (rg_world s)))(stream_key t i :=
       strm (rs_world (rg_world s)) (stream_key t i) @ [(j, [Raw ''data'', Json_envelope (with_attempt m)])])"
proof -
  obtain j w' where w': "enqueueMessage R t i (with_attempt m) (rg_world s) = (Inr j, (rg_world s)\<lparr> rs_world := w' \<rparr>)"
    "strm w' = (strm (rs_world (rg_world s)))(stream_key t i :=
       strm (rs_world (rg_world s)) (stream_key t i) @ [(j, [Raw ''data'', Json_envelope (with_attempt m)])])"
    using enqueueMessage_stored [OF laws, of "with_attempt m" t i "rg_world s"] m(2) by auto
  have "mq_enqueue R now t i m (rg_world s)
      = (Inr (), mq_emit (Message_enqueued t i (with_attempt m)) ((rg_world s)\<lparr> rs_world := w' \<rparr>))"
    using m(1) w'(1) by (simp add: mq_enqueue_def comp_simps)
  with route_to_offline [OF e q] w'(2) show ?thesis
    by (auto simp: comp_simps on_world_def mq_emit_def)
qed

definition offline_router :: "mem_redis message_queue router" where
  "offline_router = (new_router (new_message_queue \<lparr> md_streams = (\<lambda>_. []), md_values = (\<lambda>_. None), md_next = 0 \<rparr>) None)
     \<lparr> rg_agencies := [(''a'', (fresh_entry 1 0)\<lparr> rc_status := Offline \<rparr>)] \<rparr>"

definition redis_env :: "mem_redis message_queue router_env" where
  "redis_env = \<lparr> en_transport = \<lparr> sendFn = (\<lambda>_ _. cret ()), closeFn = (\<lambda>_. None) \<rparr>, en_now = 5,
     en_messageQueue = Some (mq_enqueue mem_server 5), en_channelRouter = None \<rparr>"

text \<open>
  An expired message is reported as queued although it is dropped: for an offline
  recipient, routing an expired message does not throw and tells the listeners of
  \<open>message:queued\<close> that it was queued, while nothing in Redis changes.
\<close>

lemma expired_message_reported_queued:
  assumes e: "jget (side t s) i = Some e" "rc_status e = Offline"
    and q: "en_messageQueue E = Some (mq_enqueue R now)" and m: "isMessageExpired now m"
  shows "\<exists>s'. route_to E t i m s = (Inr (), s') \<and> rs_world (rg_world s') = rs_world (rg_world s)
     \<and> mr_calls s' = mr_calls s @ map (\<lambda>l. (l, Message_queued m (address t i))) (ls_of (mr_listeners s) Km_queued)"
  using route_to_offline [OF e q] m
  by (auto simp: comp_simps on_world_def mq_enqueue_def mq_emit_def mr_emit_def ls_emit_eq router_event_kind_def)

end
